(* ===== verification/Text.thy ===== *)
theory Text
  imports Prelude
begin

section \<open>Strings of the Rust standard library\<close>

text \<open>
  A Rust string is its UTF-8 bytes, one \<open>char\<close> per byte: \<open>length\<close> is \<open>str::len\<close>, and the
  lexicographic order on lists of characters is the byte order of \<open>str::cmp\<close>. What the code
  asks of the characters of a string (\<open>char::is_control\<close>, \<open>char::is_whitespace\<close>) is asked of
  the code points that \<open>utf8_decode\<close> reads from the bytes.
\<close>

subsection \<open>ASCII\<close>

definition byte_of :: "char \<Rightarrow> nat" where
  "byte_of c = of_char c"

definition is_ascii_digit :: "char \<Rightarrow> bool" where
  "is_ascii_digit c = (48 \<le> byte_of c \<and> byte_of c \<le> 57)"

definition is_ascii_upper :: "char \<Rightarrow> bool" where
  "is_ascii_upper c = (65 \<le> byte_of c \<and> byte_of c \<le> 90)"

definition is_ascii_lower :: "char \<Rightarrow> bool" where
  "is_ascii_lower c = (97 \<le> byte_of c \<and> byte_of c \<le> 122)"

definition is_ascii_alphanumeric :: "char \<Rightarrow> bool" where
  "is_ascii_alphanumeric c = (is_ascii_digit c \<or> is_ascii_upper c \<or> is_ascii_lower c)"

definition is_ascii_hexdigit :: "char \<Rightarrow> bool" where
  "is_ascii_hexdigit c = (is_ascii_digit c \<or> (65 \<le> byte_of c \<and> byte_of c \<le> 70)
     \<or> (97 \<le> byte_of c \<and> byte_of c \<le> 102))"

definition is_ascii_graphic :: "char \<Rightarrow> bool" where
  "is_ascii_graphic b = (33 \<le> byte_of b \<and> byte_of b \<le> 126)"

definition is_lower_hex :: "char \<Rightarrow> bool" where
  "is_lower_hex c = (is_ascii_digit c \<or> (97 \<le> byte_of c \<and> byte_of c \<le> 102))"

definition to_ascii_lower :: "char \<Rightarrow> char" where
  "to_ascii_lower c = (if is_ascii_upper c then char_of (byte_of c + 32) else c)"

definition to_ascii_lowercase :: "string \<Rightarrow> string" where
  "to_ascii_lowercase s = map to_ascii_lower s"

lemma length_to_ascii_lowercase [simp]: "length (to_ascii_lowercase s) = length s"
  by (simp add: to_ascii_lowercase_def)

lemma byte_of_bound: "byte_of c < 256"
  by (cases c) (simp add: byte_of_def)

lemma to_ascii_lower_idem: "to_ascii_lower (to_ascii_lower c) = to_ascii_lower c"
proof (cases "is_ascii_upper c")
  case True
  then have b: "65 \<le> byte_of c" "byte_of c \<le> 90" by (simp_all add: is_ascii_upper_def)
  then have "byte_of (char_of (byte_of c + 32)) = byte_of c + 32"
    by (simp add: byte_of_def)
  with b True show ?thesis by (simp add: to_ascii_lower_def is_ascii_upper_def)
next
  case False
  then show ?thesis by (simp add: to_ascii_lower_def)
qed

lemma to_ascii_lowercase_idem [simp]:
  "to_ascii_lowercase (to_ascii_lowercase s) = to_ascii_lowercase s"
  by (simp add: to_ascii_lowercase_def to_ascii_lower_idem)

subsection \<open>Prefixes, suffixes and joins\<close>

definition strip_prefix :: "string \<Rightarrow> string \<Rightarrow> string option" where
  "strip_prefix p s = (if take (length p) s = p then Some (drop (length p) s) else None)"

definition strip_suffix :: "string \<Rightarrow> string \<Rightarrow> string option" where
  "strip_suffix p s =
     (if length p \<le> length s \<and> drop (length s - length p) s = p
      then Some (take (length s - length p) s) else None)"

definition starts_with :: "string \<Rightarrow> string \<Rightarrow> bool" where
  "starts_with p s = (take (length p) s = p)"

fun join :: "string \<Rightarrow> string list \<Rightarrow> string" where
  "join sep [] = []"
| "join sep [s] = s"
| "join sep (s # t # ss) = s @ sep @ join sep (t # ss)"

lemma strip_prefix_Some [results]: "strip_prefix p s = Some r \<longleftrightarrow> s = p @ r"
  by (auto simp: strip_prefix_def) (metis append_take_drop_id)

lemma strip_suffix_Some [results]: "strip_suffix p s = Some r \<longleftrightarrow> s = r @ p"
  by (auto simp: strip_suffix_def) (metis append_take_drop_id)

lemma starts_with_iff: "starts_with p s \<longleftrightarrow> (\<exists>r. s = p @ r)"
  by (auto simp: starts_with_def) (metis append_take_drop_id)

subsection \<open>Code points\<close>

text \<open>
  The bytes of a Rust string are well-formed UTF-8; the decoder reads the length of a
  sequence from its first byte. On other byte lists it still returns a value.
\<close>

definition utf8_tail :: "char \<Rightarrow> nat" where
  "utf8_tail c = byte_of c mod 64"

definition utf8_extra :: "char \<Rightarrow> nat" where
  "utf8_extra c =
     (if byte_of c < 128 then 0 else if byte_of c < 224 then 1
      else if byte_of c < 240 then 2 else 3)"

definition utf8_lead :: "char \<Rightarrow> nat" where
  "utf8_lead c =
     (if byte_of c < 128 then byte_of c else if byte_of c < 224 then byte_of c mod 32
      else if byte_of c < 240 then byte_of c mod 16 else byte_of c mod 8)"

function utf8_decode :: "string \<Rightarrow> nat list" where
  "utf8_decode [] = []"
| "utf8_decode (c # r) =
     foldl (\<lambda>acc d. acc * 64 + utf8_tail d) (utf8_lead c) (take (utf8_extra c) r)
       # utf8_decode (drop (utf8_extra c) r)"
  by pat_completeness auto
termination
  by (relation "measure length") auto

definition is_control :: "nat \<Rightarrow> bool" where
  "is_control n = (n < 32 \<or> (127 \<le> n \<and> n < 160))"

definition is_whitespace :: "nat \<Rightarrow> bool" where
  "is_whitespace n =
     ((9 \<le> n \<and> n \<le> 13) \<or> n = 32 \<or> n = 133 \<or> n = 160 \<or> n = 5760
      \<or> (8192 \<le> n \<and> n \<le> 8202) \<or> n = 8232 \<or> n = 8233 \<or> n = 8239 \<or> n = 8287 \<or> n = 12288)"

text \<open>The characters of a string with their bytes, and \<open>str::trim\<close> on them.\<close>

function utf8_chars :: "string \<Rightarrow> string list" where
  "utf8_chars [] = []"
| "utf8_chars (c # r) = (c # take (utf8_extra c) r) # utf8_chars (drop (utf8_extra c) r)"
  by pat_completeness auto
termination
  by (relation "measure length") auto

definition whitespace_char :: "string \<Rightarrow> bool" where
  "whitespace_char s = list_all is_whitespace (utf8_decode s)"

definition trim :: "string \<Rightarrow> string" where
  "trim s = concat (rev (dropWhile whitespace_char (rev (dropWhile whitespace_char (utf8_chars s)))))"

lemma concat_utf8_chars [simp]: "concat (utf8_chars s) = s"
  by (induction s rule: utf8_chars.induct) auto

lemma utf8_decode_ascii:
  "\<forall>c \<in> set s. byte_of c < 128 \<Longrightarrow> utf8_decode s = map byte_of s"
  by (induction s) (auto simp: utf8_extra_def utf8_lead_def)

subsection \<open>Hexadecimal text\<close>

text \<open>
  \<open>lower_hex\<close> is capture-service's \<open>hex::lower_hex\<close>: two lowercase digits per byte, high
  nibble first.
\<close>

definition hex_digit :: "nat \<Rightarrow> char" where
  "hex_digit n = char_of (if n < 10 then n + 48 else n + 87)"

fun lower_hex :: "u8 list \<Rightarrow> string" where
  "lower_hex [] = []"
| "lower_hex (b # bs) =
     hex_digit (unat b div 16) # hex_digit (unat b mod 16) # lower_hex bs"

lemma length_lower_hex [simp]: "length (lower_hex bs) = 2 * length bs"
  by (induction bs) auto

lemma byte_of_hex_digit: "n < 16 \<Longrightarrow> byte_of (hex_digit n) = (if n < 10 then n + 48 else n + 87)"
  by (simp add: byte_of_def hex_digit_def)

lemma hex_digit_is_lower_hex: "n < 16 \<Longrightarrow> is_lower_hex (hex_digit n)"
  by (simp add: is_lower_hex_def is_ascii_digit_def byte_of_hex_digit)

lemma hex_digit_inject: "m < 16 \<Longrightarrow> n < 16 \<Longrightarrow> hex_digit m = hex_digit n \<longleftrightarrow> m = n"
proof
  assume mn: "m < 16" "n < 16" and eq: "hex_digit m = hex_digit n"
  have "byte_of (hex_digit m) = byte_of (hex_digit n)" by (simp only: eq)
  then have "(if m < 10 then m + 48 else m + 87) = (if n < 10 then n + 48 else n + 87)"
    by (simp only: byte_of_hex_digit mn)
  with mn show "m = n" by (simp split: if_splits)
qed simp

lemma unat_u8_bound: "unat (b :: u8) < 256"
  using unsigned_less [of b] by simp

lemma lower_hex_all_lower: "\<forall>c \<in> set (lower_hex bs). is_lower_hex c"
proof (induction bs)
  case Nil
  then show ?case by simp
next
  case (Cons b bs)
  have "unat b div 16 < 16" using unat_u8_bound [of b] by simp
  with Cons show ?case by (simp add: hex_digit_is_lower_hex)
qed

lemma lower_hex_inject: "lower_hex as = lower_hex bs \<longleftrightarrow> as = bs"
proof
  show "lower_hex as = lower_hex bs \<Longrightarrow> as = bs"
  proof (induction as arbitrary: bs)
    case Nil
    then show ?case by (cases bs) auto
  next
    case (Cons a as)
    then obtain b bs' where bs: "bs = b # bs'" by (cases bs) auto
    have "unat a div 16 < 16" "unat b div 16 < 16"
      using unat_u8_bound [of a] unat_u8_bound [of b] by simp_all
    with Cons.prems have "unat a div 16 = unat b div 16" "unat a mod 16 = unat b mod 16"
      by (simp_all add: bs hex_digit_inject)
    then have "unat a = unat b" by (metis div_mult_mod_eq)
    then have "a = b" by (simp add: word_unat_eq_iff)
    with Cons bs show ?case by simp
  qed
qed simp

lemma unat_low_nibble: "unat (and (b :: u8) 15) = unat b mod 16"
proof -
  have "and b (mask 4) = take_bit 4 b" by (simp add: take_bit_eq_mask)
  moreover have "(mask 4 :: u8) = 15" by (simp add: mask_eq_exp_minus_1)
  ultimately have "unat (and b 15) = unat (take_bit 4 b)" by simp
  also have "\<dots> = take_bit 4 (unat b)" by (rule unsigned_take_bit_eq)
  finally show ?thesis by (simp add: take_bit_eq_mod)
qed

lemma unat_high_nibble: "unat (drop_bit 4 (b :: u8)) = unat b div 16"
  by (subst unat_drop_bit_eq) (simp add: drop_bit_eq_div)

subsection \<open>Decimal text\<close>

text \<open>
  \<open>decimal\<close> is \<open>to_string\<close> of an unsigned integer, \<open>parse_u32\<close> is \<open>str::parse::<u32>\<close>: an
  optional plus sign, at least one digit, nothing else, and no value above the maximum.
\<close>

fun decimal :: "nat \<Rightarrow> string" where
  "decimal n = (if n < 10 then [char_of (n + 48)]
     else decimal (n div 10) @ [char_of (n mod 10 + 48)])"

declare decimal.simps [simp del]

definition digits_value :: "string \<Rightarrow> nat" where
  "digits_value s = foldl (\<lambda>acc c. acc * 10 + (byte_of c - 48)) 0 s"

definition parse_u32 :: "string \<Rightarrow> u32 option" where
  "parse_u32 s =
     (let body = (case s of [] \<Rightarrow> [] | c # r \<Rightarrow> if byte_of c = 43 then r else s)
      in if body \<noteq> [] \<and> list_all is_ascii_digit body \<and> digits_value body < 4294967296
         then Some (word_of_nat (digits_value body)) else None)"

lemma byte_of_digit: "n < 10 \<Longrightarrow> byte_of (char_of (n + 48)) = n + 48"
  by (simp add: byte_of_def)

lemma decimal_digits: "list_all is_ascii_digit (decimal n)"
proof (induction n rule: decimal.induct)
  case (1 n)
  have digit: "m < 10 \<Longrightarrow> is_ascii_digit (char_of (m + 48))" for m :: nat
    by (simp add: is_ascii_digit_def byte_of_digit)
  with 1 show ?case
    by (subst decimal.simps) simp
qed

lemma decimal_nonempty: "decimal n \<noteq> []"
  by (subst decimal.simps) simp

lemma digits_value_decimal: "digits_value (decimal n) = n"
proof (induction n rule: decimal.induct)
  case (1 n)
  have m: "n mod 10 < 10" by simp
  show ?case
  proof (cases "n < 10")
    case True
    then show ?thesis
      by (subst decimal.simps) (simp add: digits_value_def byte_of_digit)
  next
    case False
    with 1 have "digits_value (decimal (n div 10)) = n div 10" by simp
    then show ?thesis using False byte_of_digit [OF m]
      by (subst decimal.simps) (simp add: digits_value_def)
  qed
qed

lemma parse_u32_decimal: "parse_u32 (decimal (unat u)) = Some u"
proof -
  have lt: "unat u < 4294967296" using unsigned_less [of u] by simp
  obtain c r where cr: "decimal (unat u) = c # r"
    using decimal_nonempty by (cases "decimal (unat u)") auto
  with decimal_digits [of "unat u"] have "byte_of c \<noteq> 43"
    by (auto simp: is_ascii_digit_def)
  with lt cr decimal_digits [of "unat u"] digits_value_decimal [of "unat u"] show ?thesis
    by (simp add: parse_u32_def Let_def)
qed

end
