(* ===== verification/Record_Store.thy ===== *)
theory Record_Store
  imports Text
begin

section \<open>Directories of JSON records\<close>

text \<open>
  The stores of capture-service keep one JSON file per record, or one file in all, in a
  private directory: a lock file serialises writers, a record is read and deserialised
  whole, and it is replaced by writing a temporary file, syncing it and renaming it over the
  old one. The model of a directory is the list of its JSON files in directory order with
  their contents, the answers the file system will give (whether the directory can be
  listed, whether the lock can be taken and released), and the faults the next writes will
  meet. A write can fail before the rename (the old contents stay) or after it (the new
  contents are in place although the caller gets an error: the permission change or the
  directory sync failed). What \<open>serde_json\<close> reads back is what it wrote.
\<close>

subsection \<open>Stateful fallible operations\<close>

type_synonym ('s, 'e, 'a) op = "'s \<Rightarrow> ('e + 'a) \<times> 's"

definition pure :: "'e + 'a \<Rightarrow> ('s, 'e, 'a) op" where
  "pure r s = (r, s)"

definition bind_op :: "('s, 'e, 'a) op \<Rightarrow> ('a \<Rightarrow> ('s, 'e, 'b) op) \<Rightarrow> ('s, 'e, 'b) op" where
  "bind_op m k s = (case m s of (Inl e, s') \<Rightarrow> (Inl e, s') | (Inr a, s') \<Rightarrow> k a s')"

definition read_op :: "('s \<Rightarrow> 'e + 'a) \<Rightarrow> ('s, 'e, 'a) op" where
  "read_op f s = (f s, s)"

lemma pure_eq [results]: "pure r s = (r', s') \<longleftrightarrow> r' = r \<and> s' = s"
  by (auto simp: pure_def)

lemma read_op_eq [results]: "read_op f s = (r, s') \<longleftrightarrow> r = f s \<and> s' = s"
  by (auto simp: read_op_def)

lemma bind_op_Inr [results]:
  "bind_op m k s = (Inr b, s') \<longleftrightarrow> (\<exists>a t. m s = (Inr a, t) \<and> k a t = (Inr b, s'))"
  by (auto simp: bind_op_def split: prod.split sum.split)

lemma bound_pure_Inr: "bind_op (pure r) k s = (Inr b, s') \<longleftrightarrow> (\<exists>a. r = Inr a \<and> k a s = (Inr b, s'))"
  by (cases r) (simp_all add: bind_op_def pure_def)

lemma bound_read_Inr: "bind_op (read_op f) k s = (Inr b, s') \<longleftrightarrow> (\<exists>a. f s = Inr a \<and> k a s = (Inr b, s'))"
  by (cases "f s") (simp_all add: bind_op_def read_op_def)

lemma bound_pure: "bind_op (pure r) k s = (x, s') \<longleftrightarrow>
    (\<exists>e. r = Inl e \<and> x = Inl e \<and> s' = s) \<or> (\<exists>a. r = Inr a \<and> k a s = (x, s'))"
  by (cases r) (auto simp: bind_op_def pure_def)

lemma bound_read: "bind_op (read_op f) k s = (x, s') \<longleftrightarrow>
    (\<exists>e. f s = Inl e \<and> x = Inl e \<and> s' = s) \<or> (\<exists>a. f s = Inr a \<and> k a s = (x, s'))"
  by (cases "f s") (auto simp: bind_op_def read_op_def)

lemma bind_op_Inl [results]:
  "bind_op m k s = (Inl e, s') \<longleftrightarrow>
     m s = (Inl e, s') \<or> (\<exists>a t. m s = (Inr a, t) \<and> k a t = (Inl e, s'))"
  by (auto simp: bind_op_def split: prod.split sum.split)

subsection \<open>Hoare triples\<close>

text \<open>
  \<open>triple P m Q E\<close>: from a state with \<open>P\<close>, a normal result satisfies \<open>Q\<close> together with the
  state it leaves, and an error leaves a state with \<open>E\<close>.
\<close>

definition triple ::
  "('s \<Rightarrow> bool) \<Rightarrow> ('s, 'e, 'a) op \<Rightarrow> ('a \<Rightarrow> 's \<Rightarrow> bool) \<Rightarrow> ('s \<Rightarrow> bool) \<Rightarrow> bool" where
  "triple P m Q E \<longleftrightarrow>
     (\<forall>s. P s \<longrightarrow> (case m s of (Inl e, s') \<Rightarrow> E s' | (Inr a, s') \<Rightarrow> Q a s'))"

named_theorems triples "rules for Hoare triples over stateful operations"

lemma tripleI:
  "(\<And>s r s'. P s \<Longrightarrow> m s = (r, s') \<Longrightarrow> (case r of Inl _ \<Rightarrow> E s' | Inr a \<Rightarrow> Q a s'))
     \<Longrightarrow> triple P m Q E"
  by (fastforce simp: triple_def split: prod.split sum.split)

lemma tripleD_ok: "triple P m Q E \<Longrightarrow> P s \<Longrightarrow> m s = (Inr a, s') \<Longrightarrow> Q a s'"
  unfolding triple_def by (drule spec [of _ s]) simp

lemma tripleD_err: "triple P m Q E \<Longrightarrow> P s \<Longrightarrow> m s = (Inl e, s') \<Longrightarrow> E s'"
  unfolding triple_def by (drule spec [of _ s]) simp

lemma triple_state: "triple P m (\<lambda>_. I) I \<Longrightarrow> P s \<Longrightarrow> I (snd (m s))"
  by (cases "m s"; cases "fst (m s)") (auto simp: triple_def split: prod.splits sum.splits)

lemma triple_pure [triples]:
  "(\<And>s. P s \<Longrightarrow> (case r of Inl _ \<Rightarrow> E s | Inr a \<Rightarrow> Q a s)) \<Longrightarrow> triple P (pure r) Q E"
  by (auto simp: triple_def pure_def split: sum.splits)

lemma triple_read [triples]:
  "(\<And>s. P s \<Longrightarrow> (case f s of Inl _ \<Rightarrow> E s | Inr a \<Rightarrow> Q a s)) \<Longrightarrow> triple P (read_op f) Q E"
  by (fastforce simp: triple_def read_op_def split: sum.splits)

lemma triple_bind:
  assumes m: "triple P m R E" and k: "\<And>a. triple (R a) (k a) Q E"
  shows "triple P (bind_op m k) Q E"
proof (rule tripleI)
  fix s r s'
  assume P: "P s" and run: "bind_op m k s = (r, s')"
  obtain x t where mx: "m s = (x, t)" by (cases "m s")
  show "case r of Inl _ \<Rightarrow> E s' | Inr a \<Rightarrow> Q a s'"
  proof (cases x)
    case (Inl e)
    with run mx tripleD_err [OF m P] show ?thesis by (auto simp: bind_op_def)
  next
    case (Inr a)
    with run mx have ka: "k a t = (r, s')" by (simp add: bind_op_def)
    from Inr mx tripleD_ok [OF m P] have "R a t" by simp
    with tripleD_err [OF k this] tripleD_ok [OF k this] ka show ?thesis
      by (auto split: sum.splits)
  qed
qed

lemma triple_weaken:
  "triple P m Q E \<Longrightarrow> (\<And>s. P' s \<Longrightarrow> P s) \<Longrightarrow> (\<And>a s. Q a s \<Longrightarrow> Q' a s) \<Longrightarrow> (\<And>s. E s \<Longrightarrow> E' s)
     \<Longrightarrow> triple P' m Q' E'"
  by (fastforce simp: triple_def split: prod.splits sum.splits)

subsection \<open>Files and faults\<close>

datatype 'r entry = Malformed | Unreadable | Stored 'r

datatype fs_error = Io | Json

datatype write_fault = No_Fault | Before_Rename | After_Rename

record 'r disk =
  files :: "(string \<times> 'r entry) list"
  listable :: bool
  lock_ok :: bool
  unlock_ok :: bool
  write_faults :: "write_fault list"

definition lookup_file :: "'r disk \<Rightarrow> string \<Rightarrow> 'r entry option" where
  "lookup_file d = map_of (files d)"

fun put_file :: "string \<Rightarrow> 'r entry \<Rightarrow> (string \<times> 'r entry) list \<Rightarrow> (string \<times> 'r entry) list" where
  "put_file k v [] = [(k, v)]"
| "put_file k v ((k', v') # fs) = (if k = k' then (k, v) # fs else (k', v') # put_file k v fs)"

definition read_file :: "string \<Rightarrow> 'r disk \<Rightarrow> fs_error + 'r option" where
  "read_file k d =
     (case lookup_file d k of
        None \<Rightarrow> Inr None
      | Some Malformed \<Rightarrow> Inl Json
      | Some Unreadable \<Rightarrow> Inl Io
      | Some (Stored r) \<Rightarrow> Inr (Some r))"

definition next_fault :: "'r disk \<Rightarrow> write_fault" where
  "next_fault d = (case write_faults d of [] \<Rightarrow> No_Fault | f # _ \<Rightarrow> f)"

definition write_atomic :: "string \<Rightarrow> 'r \<Rightarrow> ('r disk, fs_error, unit) op" where
  "write_atomic k r d =
     (let d' = d\<lparr>write_faults := tl (write_faults d)\<rparr>;
          d'' = d'\<lparr>files := put_file k (Stored r) (files d)\<rparr>
      in case next_fault d of
           No_Fault \<Rightarrow> (Inr (), d'')
         | Before_Rename \<Rightarrow> (Inl Io, d')
         | After_Rename \<Rightarrow> (Inl Io, d''))"

definition locked :: "(fs_error \<Rightarrow> 'e) \<Rightarrow> ('r disk, 'e, 'a) op \<Rightarrow> ('r disk, 'e, 'a) op" where
  "locked wrap m d =
     (if \<not> lock_ok d then (Inl (wrap Io), d)
      else case m d of (r, d') \<Rightarrow> if unlock_ok d' then (r, d') else (Inl (wrap Io), d'))"

definition write_op :: "(fs_error \<Rightarrow> 'e) \<Rightarrow> string \<Rightarrow> 'r \<Rightarrow> ('r disk, 'e, unit) op" where
  "write_op wrap k r d = (case write_atomic k r d of (x, d') \<Rightarrow> (map_err wrap x, d'))"

text \<open>
  The shape of most operations: under the lock, load a record, decide on it, and write it
  back when the decision says so. The decision returns the value of the operation and the
  record to write, if any.
\<close>

definition locked_update ::
  "(fs_error \<Rightarrow> 'e) \<Rightarrow> ('r disk \<Rightarrow> 'e + 'r) \<Rightarrow> string
     \<Rightarrow> ('r \<Rightarrow> 'e + 'a \<times> 'r option) \<Rightarrow> ('r disk, 'e, 'a) op" where
  "locked_update wrap load k body =
     locked wrap (\<lambda>d.
       case andThen (load d) body of
         Inl e \<Rightarrow> (Inl e, d)
       | Inr (a, None) \<Rightarrow> (Inr a, d)
       | Inr (a, Some r) \<Rightarrow> bind_op (write_op wrap k r) (\<lambda>_. pure (Inr a)) d)"

lemma map_of_put_file: "map_of (put_file k v fs) = (map_of fs)(k \<mapsto> v)"
  by (induction k v fs rule: put_file.induct) auto

lemma keys_put_file: "fst ` set (put_file k v fs) = insert k (fst ` set fs)"
  by (induction k v fs rule: put_file.induct) auto

lemma write_atomic_ok:
  "write_atomic k r d = (Inr u, d') \<Longrightarrow> lookup_file d' = (lookup_file d)(k \<mapsto> Stored r)"
  by (auto simp: write_atomic_def Let_def lookup_file_def map_of_put_file split: write_fault.splits)

lemma write_atomic_err:
  "write_atomic k r d = (Inl e, d') \<Longrightarrow>
     lookup_file d' = lookup_file d \<or> lookup_file d' = (lookup_file d)(k \<mapsto> Stored r)"
  by (auto simp: write_atomic_def Let_def lookup_file_def map_of_put_file split: write_fault.splits)

lemma read_file_Some [results]:
  "read_file k d = Inr (Some r) \<longleftrightarrow> lookup_file d k = Some (Stored r)"
  by (auto simp: read_file_def split: option.splits entry.splits)

subsection \<open>The contract of a record store\<close>

text \<open>
  \<open>record_store\<close> is what the clients rely on: a successful write replaces exactly one record,
  and a failed one leaves every record old or new, never torn and never another's.
\<close>

locale record_store =
  fixes look :: "'d \<Rightarrow> 'k \<Rightarrow> 'r entry option"
    and put :: "'k \<Rightarrow> 'r \<Rightarrow> ('d, fs_error, unit) op"
  assumes put_ok: "put k r d = (Inr u, d') \<Longrightarrow> look d' = (look d)(k \<mapsto> Stored r)"
    and put_err: "put k r d = (Inl e, d') \<Longrightarrow>
      look d' = look d \<or> look d' = (look d)(k \<mapsto> Stored r)"
begin

lemma put_cases:
  "put k r d = (x, d') \<Longrightarrow> look d' = look d \<or> look d' = (look d)(k \<mapsto> Stored r)"
  using put_ok put_err by (cases x) auto

lemma put_other: "put k r d = (x, d') \<Longrightarrow> k' \<noteq> k \<Longrightarrow> look d' k' = look d k'"
  by (auto dest!: put_cases)

lemma put_keeps:
  assumes "put k r d = (x, d')" and "\<forall>k r. look d k = Some (Stored r) \<longrightarrow> I k r" and "I k r"
  shows "\<forall>k r. look d' k = Some (Stored r) \<longrightarrow> I k r"
  using put_cases [OF assms(1)] assms(2,3) by (auto split: if_splits)

end

interpretation disk: record_store lookup_file write_atomic
  by unfold_locales (fact write_atomic_ok write_atomic_err)+

lemma write_op_cases:
  "write_op wrap k r d = (x, d') \<Longrightarrow>
     lookup_file d' = lookup_file d \<or> lookup_file d' = (lookup_file d)(k \<mapsto> Stored r)"
  by (auto simp: write_op_def dest!: disk.put_cases split: prod.splits)

lemma write_op_Inr [results]:
  "write_op wrap k r d = (Inr u, d') \<longleftrightarrow> write_atomic k r d = (Inr u, d')"
  by (auto simp: write_op_def results split: prod.splits)

lemma locked_Inr [results]:
  "locked wrap m d = (Inr a, d') \<longleftrightarrow> lock_ok d \<and> m d = (Inr a, d') \<and> unlock_ok d'"
  by (auto simp: locked_def split: prod.splits)

lemma locked_state: "snd (locked wrap m d) = (if lock_ok d then snd (m d) else d)"
  by (auto simp: locked_def split: prod.splits)

subsection \<open>Safe operations\<close>

text \<open>
  \<open>safe_op good step m\<close>: whatever \<open>m\<close> returns, and whichever of its writes fail, every record
  of the directory stays good, and every record that was there is still there, reached from
  its old contents by steps.
\<close>

definition all_good :: "('r \<Rightarrow> bool) \<Rightarrow> 'r disk \<Rightarrow> bool" where
  "all_good good d \<longleftrightarrow> (\<forall>k r. lookup_file d k = Some (Stored r) \<longrightarrow> good r)"

definition evolves :: "('r \<Rightarrow> 'r \<Rightarrow> bool) \<Rightarrow> 'r disk \<Rightarrow> 'r disk \<Rightarrow> bool" where
  "evolves step d d' \<longleftrightarrow> (\<forall>k r. lookup_file d k = Some (Stored r) \<longrightarrow>
     (\<exists>r'. lookup_file d' k = Some (Stored r') \<and> step\<^sup>*\<^sup>* r r'))"

definition safe_op :: "('r \<Rightarrow> bool) \<Rightarrow> ('r \<Rightarrow> 'r \<Rightarrow> bool) \<Rightarrow> ('r disk, 'e, 'a) op \<Rightarrow> bool" where
  "safe_op good step m \<longleftrightarrow>
     (\<forall>d x d'. all_good good d \<longrightarrow> m d = (x, d') \<longrightarrow> all_good good d' \<and> evolves step d d')"

lemma same_files:
  "lookup_file d' = lookup_file d \<Longrightarrow> all_good good d \<Longrightarrow> all_good good d' \<and> evolves step d d'"
  by (simp add: all_good_def evolves_def)

lemma evolves_eq: "lookup_file d' = lookup_file d \<Longrightarrow> evolves step d d'"
  by (auto simp: evolves_def)

lemma evolves_trans: "evolves step d e \<Longrightarrow> evolves step e f \<Longrightarrow> evolves step d f"
  unfolding evolves_def by (meson rtranclp_trans)

lemma good_write:
  assumes "lookup_file d' = lookup_file d \<or> lookup_file d' = (lookup_file d)(k \<mapsto> Stored r')"
    and "all_good good d" and "lookup_file d k = Some (Stored r)" and "good r'" and "step r r'"
  shows "all_good good d' \<and> evolves step d d'"
  using assms(1)
proof
  assume "lookup_file d' = lookup_file d"
  from same_files [OF this assms(2)] show ?thesis .
next
  assume d': "lookup_file d' = (lookup_file d)(k \<mapsto> Stored r')"
  with assms(2,4) have "all_good good d'" by (auto simp: all_good_def)
  moreover have "evolves step d d'" unfolding evolves_def
  proof (intro allI impI)
    fix k2 r2 assume r2: "lookup_file d k2 = Some (Stored r2)"
    show "\<exists>r'. lookup_file d' k2 = Some (Stored r') \<and> step\<^sup>*\<^sup>* r2 r'"
    proof (cases "k2 = k")
      case True
      with r2 assms(3,5) have "step\<^sup>*\<^sup>* r2 r'" by simp
      with True d' show ?thesis by simp
    next
      case False
      with r2 d' show ?thesis by simp
    qed
  qed
  ultimately show ?thesis ..
qed

lemma good_create:
  assumes "lookup_file d' = lookup_file d \<or> lookup_file d' = (lookup_file d)(k \<mapsto> Stored r')"
    and "all_good good d" and "lookup_file d k = None" and "good r'"
  shows "all_good good d' \<and> evolves step d d'"
  using assms(1)
proof
  assume "lookup_file d' = lookup_file d"
  from same_files [OF this assms(2)] show ?thesis .
next
  assume d': "lookup_file d' = (lookup_file d)(k \<mapsto> Stored r')"
  with assms(2,4) have "all_good good d'" by (auto simp: all_good_def)
  moreover have "evolves step d d'" unfolding evolves_def
  proof (intro allI impI)
    fix k2 r2 assume "lookup_file d k2 = Some (Stored r2)"
    moreover from this assms(3) have "k2 \<noteq> k" by auto
    ultimately show "\<exists>r'. lookup_file d' k2 = Some (Stored r') \<and> step\<^sup>*\<^sup>* r2 r'"
      using d' by simp
  qed
  ultimately show ?thesis ..
qed

lemma safe_pure: "safe_op good step (pure r)"
  by (auto simp: safe_op_def results evolves_eq)

lemma safe_validated:
  assumes "\<And>a. r = Inr a \<Longrightarrow> safe_op good step (k a)"
  shows "safe_op good step (bind_op (pure r) k)"
  using assms by (cases r) (auto simp: safe_op_def bind_op_def pure_def evolves_eq)

lemma safe_opD:
  "safe_op good step m \<Longrightarrow> all_good good d \<Longrightarrow> m d = (x, d') \<Longrightarrow>
     all_good good d' \<and> evolves step d d'"
  by (simp add: safe_op_def)

lemma locked_update_effect:
  assumes run: "locked_update wrap load k body d = (x, d')"
  shows "lookup_file d' = lookup_file d \<or>
    (\<exists>r a r'. load d = Inr r \<and> body r = Inr (a, Some r') \<and> lookup_file d' = (lookup_file d)(k \<mapsto> Stored r'))"
proof (cases "andThen (load d) body")
  case (Inl e)
  with run show ?thesis
    by (auto simp: locked_update_def locked_def split: if_splits)
next
  case (Inr p)
  obtain a w where p: "p = (a, w)" by (cases p)
  from Inr p obtain r where r: "load d = Inr r" "body r = Inr (a, w)"
    by (auto simp: results)
  show ?thesis
  proof (cases w)
    case None
    with run Inr p show ?thesis
      by (auto simp: locked_update_def locked_def split: if_splits)
  next
    case (Some r')
    with run Inr p have "lookup_file d' = lookup_file d \<or>
        (\<exists>x. write_op wrap k r' d = (x, d'))"
      by (auto simp: locked_update_def locked_def bind_op_def pure_def
          split: if_splits prod.splits sum.splits)
    with write_op_cases r Some show ?thesis by fast
  qed
qed

subsection \<open>Guarded updates\<close>

text \<open>
  The contract between a store and the decision of an operation: for an acceptable request
  and a record that satisfies the invariant, a decision that writes yields a record that
  satisfies it, related to the old one by a step relation. The client facts say what the
  whole operation does to the directory.
\<close>

locale guarded_update =
  fixes req :: "'q \<Rightarrow> bool"
    and good :: "'r \<Rightarrow> bool"
    and step :: "'r \<Rightarrow> 'r \<Rightarrow> bool"
    and body :: "'q \<Rightarrow> 'r \<Rightarrow> 'e + 'a \<times> 'r option"
  assumes body_step: "req q \<Longrightarrow> good r \<Longrightarrow> body q r = Inr (a, Some r') \<Longrightarrow> good r' \<and> step r r'"
begin

lemma update_files:
  assumes run: "locked_update wrap load k (body q) d = (x, d')"
    and load: "\<And>r. load d = Inr r \<Longrightarrow> lookup_file d k = Some (Stored r)"
  shows "lookup_file d' = lookup_file d \<or>
    (\<exists>r a r'. lookup_file d k = Some (Stored r) \<and> body q r = Inr (a, Some r')
       \<and> lookup_file d' = (lookup_file d)(k \<mapsto> Stored r'))"
  using locked_update_effect [OF run] load by blast

lemma update_safe:
  assumes load: "\<And>d r. load d = Inr r \<Longrightarrow> lookup_file d k = Some (Stored r)"
    and req: "req q"
  shows "safe_op good step (locked_update wrap load k (body q))"
  unfolding safe_op_def
proof (intro allI impI)
  fix d x d'
  assume ok: "all_good good d" and run: "locked_update wrap load k (body q) d = (x, d')"
  from update_files [OF run load] show "all_good good d' \<and> evolves step d d'"
  proof
    assume "lookup_file d' = lookup_file d"
    from same_files [OF this ok] show ?thesis .
  next
    assume "\<exists>r a r'. lookup_file d k = Some (Stored r) \<and> body q r = Inr (a, Some r')
       \<and> lookup_file d' = (lookup_file d)(k \<mapsto> Stored r')"
    then obtain r a r' where r: "lookup_file d k = Some (Stored r)" "body q r = Inr (a, Some r')"
      and d': "lookup_file d' = (lookup_file d)(k \<mapsto> Stored r')" by blast
    from ok r(1) have "good r" by (simp add: all_good_def)
    from body_step [OF req this r(2)] show ?thesis
      using good_write [of d' d k r' good r step] d' ok r(1) by simp
  qed
qed

lemma update_other:
  assumes run: "locked_update wrap load k (body q) d = (x, d')"
    and load: "\<And>r. load d = Inr r \<Longrightarrow> lookup_file d k = Some (Stored r)"
    and other: "k' \<noteq> k"
  shows "lookup_file d' k' = lookup_file d k'"
  using update_files [OF run load] other by auto

end

lemma write_atomic_flags:
  "write_atomic k r d = (x, d') \<Longrightarrow> lock_ok d' = lock_ok d \<and> unlock_ok d' = unlock_ok d
     \<and> listable d' = listable d"
  by (auto simp: write_atomic_def Let_def split: write_fault.splits)

lemma locked_update_ok:
  assumes "locked_update wrap load k body d = (Inr a, d')"
  shows "\<exists>r w. load d = Inr r \<and> body r = Inr (a, w) \<and> lock_ok d' \<and> unlock_ok d' \<and>
    (case w of None \<Rightarrow> d' = d | Some r' \<Rightarrow> lookup_file d' = (lookup_file d)(k \<mapsto> Stored r'))"
proof -
  from assms have lk: "lock_ok d" "unlock_ok d'"
    by (simp_all add: locked_update_def results)
  from assms obtain r w where r: "load d = Inr r" "body r = Inr (a, w)"
    and run: "case w of None \<Rightarrow> d' = d | Some r' \<Rightarrow> write_atomic k r' d = (Inr (), d')"
    by (auto simp: locked_update_def results split: sum.splits option.splits prod.splits)
  show ?thesis
  proof (cases w)
    case None
    with r lk run show ?thesis by auto
  next
    case (Some r')
    with run have wr: "write_atomic k r' d = (Inr (), d')" by simp
    from r lk Some write_atomic_ok [OF wr] write_atomic_flags [OF wr] show ?thesis
      by (intro exI [of _ r] exI [of _ w]) simp
  qed
qed

lemma locked_update_again:
  "lock_ok d \<Longrightarrow> unlock_ok d \<Longrightarrow> load d = Inr r \<Longrightarrow> body r = Inr (a, None) \<Longrightarrow>
     locked_update wrap load k body d = (Inr a, d)"
  by (simp add: locked_update_def locked_def)

lemma locked_update_refused:
  "andThen (load d) body = Inl e \<Longrightarrow>
     \<exists>e'. locked_update wrap load k body d = (Inl e', d) \<and> (lock_ok d \<and> unlock_ok d \<longrightarrow> e' = e)"
  by (simp add: locked_update_def locked_def)

end
