(* ===== verification/Runs.thy ===== *)
theory Runs
  imports Record_Store
begin

section \<open>Durable Runs: data, validation and decisions\<close>

text \<open>
  capture-service/src/runs.rs. A Run is one JSON record. This theory holds its data, the
  validators of every request, and for each operation of \<open>RunStore\<close> the decision it takes
  on a loaded record: the value it returns and the record it writes back, if any. The theory
  \<open>Run_Store\<close> runs the decisions on the directory. The \<open>uuid\<close> and \<open>sha2\<close> crates are
  arguments: \<open>uuid_text\<close> is the text of the UUID that a string parses to, \<open>sha256\<close> the
  32 digest bytes, \<open>uuid_from_bytes\<close> the text of the UUID of 16 given bytes. The interpolated values of error messages are left out, except in
  \<open>require_revision\<close>. Subtraction of unsigned integers goes through \<open>checked_sub\<close>; where
  it would go below zero the decision ends with \<open>Arithmetic\<close> (a panic in builds with
  overflow checks).
\<close>

record crates =
  uuid_text :: "string \<Rightarrow> string option"
  sha256 :: "string \<Rightarrow> u8 list"
  uuid_from_bytes :: "u8 list \<Rightarrow> string"

datatype run_error = Invalid string | Storage fs_error | Arithmetic

subsection \<open>Data\<close>

record run_admission =
  adm_id :: string
  adm_generated_work_ceiling :: u64
  adm_park_ttl_ms :: u64

record run_session =
  ses_id :: string
  ses_session_id :: string
  ses_agent :: string
  ses_acp_session_id :: string
  ses_working_dir :: string
  ses_load_session :: bool

record pending_generation =
  pend_mutation_id :: string
  pend_kind :: string
  pend_units :: u64

record generated_output =
  out_mutation_id :: string
  out_kind :: string
  out_external_id :: string

record generated_work_budget =
  ceiling_units :: u64
  consumed :: u64
  reserved :: u64
  pending :: "pending_generation list"
  outputs :: "generated_output list"

record generated_work_reservation =
  res_run_id :: string
  res_token :: string
  res_mutation_id :: string
  res_kind :: string
  res_units :: u64

datatype reserve_result = Reserved | Pending | Consumed | Exhausted

datatype resume_result = Active | Resuming | ColdParked

record resume_attempt =
  operation_id :: string
  deadline_ms :: u64
  attempt_result :: string

record run_draft =
  draft_id :: string
  draft_session_id :: string
  draft_agent :: string
  draft_acp_session_id :: string
  draft_working_dir :: string
  draft_load_session :: bool
  draft_claimed_issue_ids :: "string list"

record cleanup_entry =
  issue_id :: string
  completed :: bool

record run =
  schema_version :: u8
  revision :: u64
  run_id :: string
  session_id :: "string option"
  agent :: "string option"
  acp_session_id :: "string option"
  working_dir :: "string option"
  load_session :: "bool option"
  run_state :: string
  park_ttl_ms :: u64
  parked_at_ms :: "u64 option"
  park_expires_at_ms :: u64
  triggering_mutation_id :: "string option"
  resume_attempt_of :: "resume_attempt option"
  generated_work :: generated_work_budget
  generate_token_sha256 :: string
  cleanup :: "cleanup_entry list"

record run_view_data =
  view_id :: string
  view_revision :: u64
  view_state :: string
  view_session_id :: "string option"
  view_ceiling :: u64
  view_consumed :: u64
  view_reserved :: u64
  view_pending_mutation_ids :: "string list"
  view_triggering_mutation_id :: "string option"
  view_park_expires_at_ms :: u64
  view_resume_operation_id :: "string option"
  view_resume_deadline_ms :: "u64 option"

record run_summary =
  sum_id :: string
  sum_agent :: string
  sum_acp_session_id :: string
  sum_working_dir :: string
  sum_state :: string
  sum_parked_at_ms :: u64
  sum_park_expires_at_ms :: u64
  sum_generated_work :: generated_work_budget
  sum_claims :: "string list"

record reap_action =
  reap_issue_id :: string
  reap_actor :: string

subsection \<open>Validators\<close>

definition validate_id :: "crates \<Rightarrow> string \<Rightarrow> run_error + unit" where
  "validate_id c i =
     andThen (ok_or (uuid_text c i) (Invalid ''Run id must be a UUID'')) (\<lambda>parsed.
     ensure (parsed = to_ascii_lowercase i) (Invalid ''Run id must use canonical UUID text''))"

definition validate_token :: "string \<Rightarrow> run_error + unit" where
  "validate_token token = ensure (16 \<le> length token) (Invalid ''generate token is malformed'')"

definition validate_draft :: "crates \<Rightarrow> run_draft \<Rightarrow> run_error + unit" where
  "validate_draft c d =
     andThen (validate_id c (draft_id d)) (\<lambda>_.
     ensure (\<not> (draft_session_id d = [] \<or> draft_agent d = [] \<or> draft_acp_session_id d = []
         \<or> draft_working_dir d = [] \<or> \<not> draft_load_session d
         \<or> list_ex (\<lambda>i. i = []) (draft_claimed_issue_ids d)))
       (Invalid ''Run fields must be non-empty and reloadable''))"

definition validate_admission :: "crates \<Rightarrow> run_admission \<Rightarrow> run_error + unit" where
  "validate_admission c a =
     andThen (validate_id c (adm_id a)) (\<lambda>_.
     ensure (\<not> (adm_generated_work_ceiling a = 0 \<or> adm_park_ttl_ms a = 0))
       (Invalid ''admitted Run ceiling and Park TTL must be positive''))"

definition validate_session :: "crates \<Rightarrow> run_session \<Rightarrow> run_error + unit" where
  "validate_session c s =
     andThen (validate_id c (ses_id s)) (\<lambda>_.
     ensure (\<not> (ses_session_id s = [] \<or> ses_agent s = [] \<or> ses_acp_session_id s = []
         \<or> ses_working_dir s = []))
       (Invalid ''Run Session fields must be non-empty''))"

definition validate_reservation :: "crates \<Rightarrow> generated_work_reservation \<Rightarrow> run_error + unit" where
  "validate_reservation c r =
     andThen (validate_id c (res_run_id r)) (\<lambda>_.
     andThen (validate_id c (res_mutation_id r)) (\<lambda>_.
     andThen (validate_token (res_token r)) (\<lambda>_.
     ensure (\<not> (res_kind r = [] \<or> res_units r = 0))
       (Invalid ''generated-work reservation requires a kind and positive units''))))"

definition token_sha256 :: "crates \<Rightarrow> string \<Rightarrow> string" where
  "token_sha256 c token = lower_hex (sha256 c token)"

definition verify_token :: "crates \<Rightarrow> run \<Rightarrow> string \<Rightarrow> run_error + unit" where
  "verify_token c r token =
     andThen (validate_token token) (\<lambda>_.
     let expected = generate_token_sha256 r; supplied = token_sha256 c token
     in ensure (\<not> (length expected \<noteq> length supplied \<or> expected \<noteq> supplied))
          (Invalid ''generate capability is invalid''))"

definition advance_revision :: "run \<Rightarrow> run_error + run" where
  "advance_revision r =
     andThen (ok_or (checked_add (revision r) 1) (Invalid ''Run revision overflowed'')) (\<lambda>n.
     Inr (r\<lparr>revision := n\<rparr>))"

definition require_revision :: "run \<Rightarrow> u64 \<Rightarrow> run_error + unit" where
  "require_revision r expected =
     ensure (revision r = expected)
       (Invalid (''stale Run revision: expected '' @ decimal (unat expected) @ '', found ''
          @ decimal (unat (revision r))))"

definition resume_result_of :: "run \<Rightarrow> run_error + resume_result" where
  "resume_result_of r =
     (case map_option attempt_result (resume_attempt_of r) of
        Some s \<Rightarrow>
          if s = ''active'' then Inr Active
          else if s = ''resuming'' then Inr Resuming
          else if s = ''cold_parked'' then Inr ColdParked
          else Inl (Invalid ''stored resume attempt is invalid'')
      | None \<Rightarrow> Inl (Invalid ''stored resume attempt is invalid''))"

definition generated_issue :: "run \<Rightarrow> string \<Rightarrow> string option" where
  "generated_issue r m =
     map_option out_external_id
       (List.find (\<lambda>out. out_mutation_id out = m) (outputs (generated_work r)))"

definition run_view :: "run \<Rightarrow> run_view_data" where
  "run_view r =
     \<lparr>view_id = run_id r, view_revision = revision r, view_state = run_state r,
      view_session_id = session_id r,
      view_ceiling = ceiling_units (generated_work r),
      view_consumed = consumed (generated_work r),
      view_reserved = reserved (generated_work r),
      view_pending_mutation_ids = map pend_mutation_id (pending (generated_work r)),
      view_triggering_mutation_id = triggering_mutation_id r,
      view_park_expires_at_ms = park_expires_at_ms r,
      view_resume_operation_id = map_option operation_id (resume_attempt_of r),
      view_resume_deadline_ms = map_option deadline_ms (resume_attempt_of r)\<rparr>"

subsection \<open>Decisions\<close>

text \<open>The record that \<open>admit\<close> creates, and the decisions of the other writers in source order.\<close>

definition admitted_run :: "crates \<Rightarrow> run_admission \<Rightarrow> string \<Rightarrow> run" where
  "admitted_run c a token =
     \<lparr>schema_version = 4, revision = 1, run_id = adm_id a, session_id = None, agent = None,
      acp_session_id = None, working_dir = None, load_session = None, run_state = ''admitted'',
      park_ttl_ms = adm_park_ttl_ms a, parked_at_ms = None, park_expires_at_ms = 0,
      triggering_mutation_id = None, resume_attempt_of = None,
      generated_work = \<lparr>ceiling_units = adm_generated_work_ceiling a, consumed = 0, reserved = 0,
        pending = [], outputs = []\<rparr>,
      generate_token_sha256 = token_sha256 c token, cleanup = []\<rparr>"

definition attach_body :: "run_session \<Rightarrow> run \<Rightarrow> run_error + unit \<times> run option" where
  "attach_body s r =
     (let same = session_id r = Some (ses_session_id s) \<and> agent r = Some (ses_agent s)
            \<and> acp_session_id r = Some (ses_acp_session_id s)
            \<and> working_dir r = Some (ses_working_dir s)
            \<and> load_session r = Some (ses_load_session s)
      in if run_state r = ''active'' \<and> same then Inr ((), None)
         else if run_state r \<noteq> ''admitted''
         then Inl (Invalid ''only an admitted Run can attach a Session'')
         else andThen (advance_revision
                (r\<lparr>session_id := Some (ses_session_id s), agent := Some (ses_agent s),
                   acp_session_id := Some (ses_acp_session_id s),
                   working_dir := Some (ses_working_dir s),
                   load_session := Some (ses_load_session s), run_state := ''active''\<rparr>))
              (\<lambda>r'. Inr ((), Some r')))"

definition reserve_body ::
  "crates \<Rightarrow> generated_work_reservation \<Rightarrow> u64 \<Rightarrow> run
     \<Rightarrow> run_error + reserve_result \<times> run option" where
  "reserve_body c q now_ms r =
     andThen (verify_token c r (res_token q)) (\<lambda>_.
     let b = generated_work r in
     if list_ex (\<lambda>out. out_mutation_id out = res_mutation_id q) (outputs b)
     then Inr (Consumed, None)
     else if list_ex (\<lambda>p. pend_mutation_id p = res_mutation_id q) (pending b)
     then Inr (Pending, None)
     else if run_state r \<noteq> ''active''
     then (if run_state r = ''parked'' then Inr (Exhausted, None)
           else Inl (Invalid ''generated work requires an active attached Run''))
     else andThen (ok_or (Option.bind (checked_add (consumed b) (reserved b))
                            (\<lambda>v. checked_add v (res_units q)))
                     (Invalid ''generated-work accounting overflow'')) (\<lambda>occupied.
       if ceiling_units b < occupied
       then andThen (ok_or (checked_add now_ms (park_ttl_ms r))
                       (Invalid ''Park expiry overflows epoch milliseconds'')) (\<lambda>expires.
            andThen (advance_revision
               (r\<lparr>run_state := ''parked'', parked_at_ms := Some now_ms,
                  park_expires_at_ms := expires,
                  triggering_mutation_id := Some (res_mutation_id q)\<rparr>)) (\<lambda>r'.
            Inr (Exhausted, Some r')))
       else andThen (ok_or (checked_add (reserved b) (res_units q))
                       (Invalid ''generated-work reservation overflow'')) (\<lambda>held.
            andThen (advance_revision
               (r\<lparr>generated_work := b\<lparr>reserved := held,
                    pending := pending b @ [\<lparr>pend_mutation_id = res_mutation_id q,
                      pend_kind = res_kind q, pend_units = res_units q\<rparr>]\<rparr>\<rparr>)) (\<lambda>r'.
            Inr (Reserved, Some r')))))"

definition spend_unit :: "nat \<Rightarrow> u64 \<Rightarrow> pending_generation list \<Rightarrow> pending_generation list" where
  "spend_unit index remaining ps =
     (if remaining = 0 then remove_at index ps
      else ps[index := (ps ! index)\<lparr>pend_units := remaining\<rparr>])"

definition confirm_body ::
  "crates \<Rightarrow> string \<Rightarrow> string \<Rightarrow> string \<Rightarrow> run \<Rightarrow> run_error + unit \<times> run option" where
  "confirm_body c token mutation issue r =
     andThen (verify_token c r token) (\<lambda>_.
     if generated_issue r mutation = Some issue then Inr ((), None)
     else let b = generated_work r in
       andThen (ok_or (position (\<lambda>p. pend_mutation_id p = mutation) (pending b))
                  (Invalid ''generated-work reservation was not found'')) (\<lambda>index.
       let entry = pending b ! index in
       andThen (ok_or (checked_sub (pend_units entry) 1) Arithmetic) (\<lambda>remaining.
       andThen (ok_or (checked_sub (reserved b) 1) Arithmetic) (\<lambda>held.
       andThen (ok_or (checked_add (consumed b) 1)
                  (Invalid ''generated-work consumption overflow'')) (\<lambda>used.
       andThen (advance_revision
          (r\<lparr>generated_work := b\<lparr>pending := spend_unit index remaining (pending b), reserved := held,
               consumed := used, outputs := outputs b @ [\<lparr>out_mutation_id = mutation, out_kind = pend_kind entry,
                 out_external_id = issue\<rparr>]\<rparr>\<rparr>)) (\<lambda>r'.
       Inr ((), Some r')))))))"

definition release_body ::
  "crates \<Rightarrow> string \<Rightarrow> string \<Rightarrow> run \<Rightarrow> run_error + unit \<times> run option" where
  "release_body c token mutation r =
     andThen (verify_token c r token) (\<lambda>_.
     let b = generated_work r in
     case position (\<lambda>p. pend_mutation_id p = mutation) (pending b) of
       None \<Rightarrow> Inr ((), None)
     | Some index \<Rightarrow>
         andThen (ok_or (checked_sub (reserved b) (pend_units (pending b ! index))) Arithmetic)
           (\<lambda>held.
         andThen (advance_revision
            (r\<lparr>generated_work := b\<lparr>pending := remove_at index (pending b), reserved := held\<rparr>\<rparr>))
           (\<lambda>r'.
         Inr ((), Some r'))))"

definition park_cold_body ::
  "run_draft \<Rightarrow> u64 \<Rightarrow> run \<Rightarrow> run_error + unit \<times> run option" where
  "park_cold_body d now_ms r =
     (if session_id r \<noteq> Some (draft_session_id d) \<or> agent r \<noteq> Some (draft_agent d)
         \<or> acp_session_id r \<noteq> Some (draft_acp_session_id d)
         \<or> working_dir r \<noteq> Some (draft_working_dir d)
         \<or> load_session r \<noteq> Some (draft_load_session d)
      then Inl (Invalid ''cold Park identity differs from admitted Run'')
      else let entries = map (\<lambda>i. \<lparr>issue_id = i, completed = False\<rparr>) (draft_claimed_issue_ids d) in
        if run_state r = ''cold_parked'' \<and> cleanup r = entries then Inr ((), None)
        else if run_state r \<noteq> ''active'' \<and> run_state r \<noteq> ''parked''
        then Inl (Invalid ''only an active or Parked admitted Run can be cold-Parked'')
        else andThen (ok_or (checked_add now_ms (park_ttl_ms r))
                        (Invalid ''Park expiry overflowed'')) (\<lambda>expires.
             andThen (advance_revision
                (r\<lparr>run_state := ''cold_parked'', parked_at_ms := Some now_ms,
                   park_expires_at_ms := expires, cleanup := entries\<rparr>)) (\<lambda>r'.
             Inr ((), Some r'))))"

definition raise_body :: "u64 \<Rightarrow> u64 \<Rightarrow> run \<Rightarrow> run_error + run_view_data \<times> run option" where
  "raise_body expected ceiling r =
     andThen (require_revision r expected) (\<lambda>_.
     if run_state r \<noteq> ''parked'' \<and> run_state r \<noteq> ''cold_parked''
     then Inl (Invalid ''only a Parked Run ceiling can be raised'')
     else if ceiling \<le> ceiling_units (generated_work r)
     then Inl (Invalid ''generated-work ceiling must increase'')
     else andThen (advance_revision
            (r\<lparr>generated_work := (generated_work r)\<lparr>ceiling_units := ceiling\<rparr>\<rparr>)) (\<lambda>r'.
          Inr (run_view r', Some r')))"

definition begin_resume_body ::
  "u64 \<Rightarrow> string \<Rightarrow> u64 \<Rightarrow> u64 \<Rightarrow> run \<Rightarrow> run_error + resume_result \<times> run option" where
  "begin_resume_body expected operation now_ms lease_ms r =
     (if (case resume_attempt_of r of None \<Rightarrow> False | Some a \<Rightarrow> operation_id a = operation)
      then andThen (resume_result_of r) (\<lambda>x. Inr (x, None))
      else
        andThen (require_revision r expected) (\<lambda>_.
        if run_state r \<noteq> ''parked'' \<and> run_state r \<noteq> ''cold_parked''
        then Inl (Invalid ''only a Parked Run can resume'')
        else
          andThen (ok_or (checked_add now_ms lease_ms) (Invalid ''resume deadline overflowed''))
            (\<lambda>deadline.
          let cold = (run_state r = ''cold_parked'') in
          andThen (advance_revision
             (r\<lparr>run_state := (if cold then ''resuming'' else ''active''),
                resume_attempt_of := Some \<lparr>operation_id = operation, deadline_ms = deadline,
                  attempt_result = (if cold then ''resuming'' else ''active'')\<rparr>\<rparr>)) (\<lambda>r'.
          Inr (if cold then Resuming else Active, Some r')))))"

definition finalize_resume_body ::
  "u64 \<Rightarrow> string \<Rightarrow> bool \<Rightarrow> run \<Rightarrow> run_error + resume_result \<times> run option" where
  "finalize_resume_body expected operation succeeded r =
     andThen (ok_or (resume_attempt_of r) (Invalid ''Run has no resume attempt'')) (\<lambda>attempt.
     if operation_id attempt \<noteq> operation then Inl (Invalid ''resume operation differs'')
     else if attempt_result attempt \<noteq> ''resuming''
     then andThen (resume_result_of r) (\<lambda>x. Inr (x, None))
     else
       andThen (require_revision r expected) (\<lambda>_.
       andThen (advance_revision
          (r\<lparr>run_state := (if succeeded then ''active'' else ''cold_parked''),
             park_expires_at_ms := (if succeeded then 0 else deadline_ms attempt),
             resume_attempt_of := Some \<lparr>operation_id = operation,
               deadline_ms = deadline_ms attempt,
               attempt_result = (if succeeded then ''active'' else ''cold_parked'')\<rparr>\<rparr>)) (\<lambda>r'.
       Inr (if succeeded then Active else ColdParked, Some r'))))"

end
