(* ===== verification/Run_Invariants.thy ===== *)
theory Run_Invariants
  imports Runs
begin

section \<open>What a Run record keeps true\<close>

text \<open>
  The well-formedness of a stored Run (its budget adds up, its lifecycle fields agree), the
  abstract lifecycle every written record must follow, and the proof that each decision of
  \<open>Runs\<close> keeps both. Every decision is an instance of \<open>guarded_update\<close>.
\<close>

subsection \<open>The budget\<close>

definition pending_units :: "generated_work_budget \<Rightarrow> nat" where
  "pending_units b = sum_list (map (\<lambda>p. unat (pend_units p)) (pending b))"

definition budget_ok :: "generated_work_budget \<Rightarrow> bool" where
  "budget_ok b \<longleftrightarrow>
     0 < ceiling_units b
     \<and> unat (reserved b) = pending_units b
     \<and> unat (consumed b) = length (outputs b)
     \<and> unat (consumed b) + unat (reserved b) \<le> unat (ceiling_units b)
     \<and> (\<forall>p \<in> set (pending b). 0 < pend_units p)
     \<and> distinct (map pend_mutation_id (pending b))"

lemma budget_ok_reserve:
  assumes ok: "budget_ok b" and fresh: "\<forall>p \<in> set (pending b). pend_mutation_id p \<noteq> m"
    and units: "0 < unat u" and held: "unat held = unat (reserved b) + unat u"
    and room: "unat (consumed b) + unat (reserved b) + unat u \<le> unat (ceiling_units b)"
  shows "budget_ok (b\<lparr>reserved := held, pending := pending b @
    [\<lparr>pend_mutation_id = m, pend_kind = kd, pend_units = u\<rparr>]\<rparr>)"
  using assms by (auto simp: budget_ok_def pending_units_def word_pos_iff)

lemma budget_ok_remove:
  assumes ok: "budget_ok b" and i: "i < length (pending b)"
    and held: "unat (reserved b) = unat (pend_units (pending b ! i)) + unat held"
  shows "budget_ok (b\<lparr>pending := remove_at i (pending b), reserved := held\<rparr>)"
proof -
  note sum_list_remove_at [OF i, of "\<lambda>p. unat (pend_units p)"]
  moreover have "\<forall>p \<in> set (remove_at i (pending b)). 0 < pend_units p"
    using ok set_remove_at [of i "pending b"] by (auto simp: budget_ok_def)
  ultimately show ?thesis
    using ok held distinct_map_remove_at [of pend_mutation_id "pending b" i]
    by (auto simp: budget_ok_def pending_units_def)
qed

lemma budget_ok_confirm:
  assumes ok: "budget_ok b" and i: "i < length (pending b)"
    and left: "unat (pend_units (pending b ! i)) = 1 + unat left"
    and held: "unat (reserved b) = 1 + unat held"
    and used: "unat used = unat (consumed b) + 1"
  shows "budget_ok (b\<lparr>pending := spend_unit i left (pending b), reserved := held, consumed := used, outputs := outputs b @ [out]\<rparr>)"
proof (cases "left = 0")
  case True
  with budget_ok_remove [OF ok i, of held] left held
  have "budget_ok (b\<lparr>pending := remove_at i (pending b), reserved := held\<rparr>)" by simp
  with True used ok held show ?thesis by (simp add: spend_unit_def budget_ok_def pending_units_def)
next
  case False
  let ?q = "(pending b ! i)\<lparr>pend_units := left\<rparr>"
  have "pending_units b + unat left =
      sum_list (map (\<lambda>p. unat (pend_units p)) ((pending b)[i := ?q])) + unat (pend_units (pending b ! i))"
    using sum_list_update_nat [OF i, of "\<lambda>p. unat (pend_units p)" ?q]
    by (simp add: pending_units_def)
  moreover have "map pend_mutation_id ((pending b)[i := ?q]) = map pend_mutation_id (pending b)"
    using i by (simp add: map_update_same)
  moreover have "\<forall>p \<in> set ((pending b)[i := ?q]). 0 < pend_units p"
    using ok False by (auto simp: budget_ok_def word_pos_iff word_neq_zero_iff
        dest!: subsetD [OF set_update_subset_insert])
  ultimately show ?thesis using ok left held used False
    by (simp add: spend_unit_def budget_ok_def pending_units_def)
qed

subsection \<open>The lifecycle\<close>

text \<open>
  The six states of the documentation of \<open>Run::state\<close> and the steps between them. The last
  rule is the one the field's documentation does not suggest: a resume attempt that was
  still open when the Run was reaped can be finalized afterwards.
\<close>

datatype phase = Phase_Admitted | Phase_Active | Phase_Parked | Phase_Cold | Phase_Resuming
  | Phase_Disposed

fun phase_name :: "phase \<Rightarrow> string" where
  "phase_name Phase_Admitted = ''admitted''"
| "phase_name Phase_Active = ''active''"
| "phase_name Phase_Parked = ''parked''"
| "phase_name Phase_Cold = ''cold_parked''"
| "phase_name Phase_Resuming = ''resuming''"
| "phase_name Phase_Disposed = ''disposed''"

inductive phase_step :: "phase \<Rightarrow> phase \<Rightarrow> bool" where
  stay: "phase_step p p"
| attached: "phase_step Phase_Admitted Phase_Active"
| exhausted: "phase_step Phase_Active Phase_Parked"
| cold: "p \<in> {Phase_Active, Phase_Parked} \<Longrightarrow> phase_step p Phase_Cold"
| resumed: "phase_step Phase_Parked Phase_Active"
| resuming: "phase_step Phase_Cold Phase_Resuming"
| finalized: "p \<in> {Phase_Active, Phase_Cold} \<Longrightarrow> phase_step Phase_Resuming p"
| reaped: "p \<in> {Phase_Cold, Phase_Resuming} \<Longrightarrow> phase_step p Phase_Disposed"
| revived: "p \<in> {Phase_Active, Phase_Cold} \<Longrightarrow> phase_step Phase_Disposed p"

inductive_cases phase_step_from_disposed: "phase_step Phase_Disposed p"
inductive_simps phase_step_to_admitted: "phase_step p Phase_Admitted"

definition attached_ok :: "run \<Rightarrow> bool" where
  "attached_ok r \<longleftrightarrow> (\<exists>s a acp w l. session_id r = Some s \<and> s \<noteq> [] \<and> agent r = Some a \<and> a \<noteq> []
     \<and> acp_session_id r = Some acp \<and> acp \<noteq> [] \<and> working_dir r = Some w \<and> w \<noteq> []
     \<and> load_session r = Some l)"

definition open_attempt :: "run \<Rightarrow> bool" where
  "open_attempt r \<longleftrightarrow> (\<exists>a. resume_attempt_of r = Some a \<and> attempt_result a = ''resuming'')"

definition lifecycle_ok :: "run \<Rightarrow> bool" where
  "lifecycle_ok r \<longleftrightarrow>
     (\<exists>p. run_state r = phase_name p)
     \<and> (run_state r = ''admitted'' \<longrightarrow> session_id r = None \<and> resume_attempt_of r = None
          \<and> pending (generated_work r) = [] \<and> outputs (generated_work r) = [])
     \<and> (run_state r \<noteq> ''admitted'' \<longrightarrow> attached_ok r)
     \<and> (run_state r = ''parked'' \<longrightarrow> parked_at_ms r \<noteq> None \<and> triggering_mutation_id r \<noteq> None)
     \<and> (run_state r = ''cold_parked'' \<longrightarrow> load_session r = Some True \<and> parked_at_ms r \<noteq> None)
     \<and> (run_state r = ''resuming'' \<longrightarrow> open_attempt r)
     \<and> (run_state r = ''disposed'' \<longrightarrow> (\<forall>e \<in> set (cleanup r). completed e))
     \<and> (open_attempt r \<longrightarrow> run_state r \<in> {''resuming'', ''disposed''}
          \<and> load_session r = Some True \<and> parked_at_ms r \<noteq> None)
     \<and> (\<forall>a. resume_attempt_of r = Some a \<longrightarrow>
          attempt_result a \<in> {''active'', ''resuming'', ''cold_parked''})"

definition run_ok :: "run \<Rightarrow> bool" where
  "run_ok r \<longleftrightarrow> schema_version r = 4 \<and> 0 < revision r \<and> 0 < park_ttl_ms r
     \<and> budget_ok (generated_work r) \<and> lifecycle_ok r"

definition phase_moves :: "string \<Rightarrow> string \<Rightarrow> bool" where
  "phase_moves s s' \<longleftrightarrow> (\<exists>p p'. s = phase_name p \<and> s' = phase_name p' \<and> phase_step p p')"

text \<open>
  What one write changes: the revision grows by one, the identity, the Park TTL and the
  capability stay, the ceiling never falls, confirmed outputs are only appended, and the
  state follows \<open>phase_step\<close>.
\<close>

definition run_step :: "run \<Rightarrow> run \<Rightarrow> bool" where
  "run_step r r' \<longleftrightarrow>
     unat (revision r') = Suc (unat (revision r))
     \<and> run_id r' = run_id r \<and> park_ttl_ms r' = park_ttl_ms r
     \<and> generate_token_sha256 r' = generate_token_sha256 r
     \<and> ceiling_units (generated_work r) \<le> ceiling_units (generated_work r')
     \<and> (\<exists>new. outputs (generated_work r') = outputs (generated_work r) @ new)
     \<and> phase_moves (run_state r) (run_state r')"

lemma advance_revision_Inr [results]:
  "advance_revision r = Inr r' \<longleftrightarrow>
     (\<exists>n. unat n = Suc (unat (revision r)) \<and> r' = r\<lparr>revision := n\<rparr>)"
  by (auto simp: advance_revision_def results word_results)

lemma require_revision_Inr [results]: "require_revision r n = Inr u \<longleftrightarrow> revision r = n"
  by (simp add: require_revision_def results)

text \<open>The part of \<open>run_ok\<close> and \<open>run_step\<close> that every write gets from \<open>advance_revision\<close>.\<close>

lemma lifecycle_ok_revision [simp]: "lifecycle_ok (r\<lparr>revision := n\<rparr>) = lifecycle_ok r"
  by (simp add: lifecycle_ok_def attached_ok_def open_attempt_def)

lemma written_ok:
  assumes "unat n = Suc (unat (revision s))" "schema_version s = 4" "0 < park_ttl_ms s"
    "budget_ok (generated_work s)" "lifecycle_ok s"
  shows "run_ok (s\<lparr>revision := n\<rparr>)"
  using assms by (simp add: run_ok_def word_pos_iff)

lemma phase_moves_stay: "run_ok r \<Longrightarrow> phase_moves (run_state r) (run_state r)"
  unfolding run_ok_def lifecycle_ok_def phase_moves_def by (metis phase_step.stay)

lemma phase_moves_step:
  "phase_step p p' \<Longrightarrow> phase_moves (phase_name p) (phase_name p')"
  by (auto simp: phase_moves_def)

lemmas phase_moves_simps [simp] =
  phase_step.attached [THEN phase_moves_step, simplified]
  phase_step.exhausted [THEN phase_moves_step, simplified]
  phase_step.cold [of Phase_Active, THEN phase_moves_step, simplified]
  phase_step.cold [of Phase_Parked, THEN phase_moves_step, simplified]
  phase_step.resumed [THEN phase_moves_step, simplified]
  phase_step.resuming [THEN phase_moves_step, simplified]
  phase_step.finalized [of Phase_Active, THEN phase_moves_step, simplified]
  phase_step.finalized [of Phase_Cold, THEN phase_moves_step, simplified]
  phase_step.reaped [of Phase_Cold, THEN phase_moves_step, simplified]
  phase_step.reaped [of Phase_Resuming, THEN phase_moves_step, simplified]
  phase_step.revived [of Phase_Active, THEN phase_moves_step, simplified]
  phase_step.revived [of Phase_Cold, THEN phase_moves_step, simplified]

subsection \<open>Frame rules\<close>

lemma phase_name_ex [simp]:
  "\<exists>p. ''active'' = phase_name p" "\<exists>p. ''parked'' = phase_name p"
  "\<exists>p. ''cold_parked'' = phase_name p" "\<exists>p. ''resuming'' = phase_name p"
  "\<exists>p. ''disposed'' = phase_name p"
  by (rule exI [of _ Phase_Active], simp, rule exI [of _ Phase_Parked], simp,
      rule exI [of _ Phase_Cold], simp, rule exI [of _ Phase_Resuming], simp,
      rule exI [of _ Phase_Disposed], simp)

lemma attached_ok_frame [simp]:
  "attached_ok (r\<lparr>run_state := x0\<rparr>) = attached_ok r"
  "attached_ok (r\<lparr>parked_at_ms := x1\<rparr>) = attached_ok r"
  "attached_ok (r\<lparr>park_expires_at_ms := x2\<rparr>) = attached_ok r"
  "attached_ok (r\<lparr>cleanup := x3\<rparr>) = attached_ok r"
  "attached_ok (r\<lparr>triggering_mutation_id := x4\<rparr>) = attached_ok r"
  "attached_ok (r\<lparr>generated_work := x5\<rparr>) = attached_ok r"
  "attached_ok (r\<lparr>resume_attempt_of := x6\<rparr>) = attached_ok r"
  by (simp_all add: attached_ok_def)

lemma open_attempt_frame [simp]:
  "open_attempt (r\<lparr>run_state := x0\<rparr>) = open_attempt r"
  "open_attempt (r\<lparr>parked_at_ms := x1\<rparr>) = open_attempt r"
  "open_attempt (r\<lparr>park_expires_at_ms := x2\<rparr>) = open_attempt r"
  "open_attempt (r\<lparr>cleanup := x3\<rparr>) = open_attempt r"
  "open_attempt (r\<lparr>triggering_mutation_id := x4\<rparr>) = open_attempt r"
  "open_attempt (r\<lparr>generated_work := x5\<rparr>) = open_attempt r"
  "open_attempt (r\<lparr>resume_attempt_of := Some a\<rparr>) = (attempt_result a = ''resuming'')"
  by (simp_all add: open_attempt_def)

lemma run_ok_attached: "run_ok r \<Longrightarrow> run_state r \<noteq> ''admitted'' \<Longrightarrow> attached_ok r"
  by (simp add: run_ok_def lifecycle_ok_def)

lemma run_ok_attempts: "run_ok r \<Longrightarrow> resume_attempt_of r = Some a \<Longrightarrow>
    attempt_result a = ''active'' \<or> attempt_result a = ''resuming'' \<or> attempt_result a = ''cold_parked''"
  by (simp add: run_ok_def lifecycle_ok_def)

lemma run_ok_cold: "run_ok r \<Longrightarrow> run_state r = ''cold_parked'' \<Longrightarrow>
    load_session r = Some True \<and> parked_at_ms r \<noteq> None"
  by (simp add: run_ok_def lifecycle_ok_def)

lemma run_ok_open: "run_ok r \<Longrightarrow> open_attempt r \<Longrightarrow>
    (run_state r = ''resuming'' \<or> run_state r = ''disposed'')
      \<and> load_session r = Some True \<and> parked_at_ms r \<noteq> None"
  by (simp add: run_ok_def lifecycle_ok_def)

lemma run_ok_not_open: "run_ok r \<Longrightarrow> run_state r \<noteq> ''resuming'' \<Longrightarrow> run_state r \<noteq> ''disposed'' \<Longrightarrow>
    \<not> open_attempt r"
  using run_ok_open by blast

lemma run_ok_resuming: "run_ok r \<Longrightarrow> run_state r = ''resuming'' \<Longrightarrow> open_attempt r"
  by (simp add: run_ok_def lifecycle_ok_def)

subsection \<open>Each decision\<close>

lemma admitted_run_ok:
  "validate_admission c a = Inr u \<Longrightarrow> run_ok (admitted_run c a token)"
  by (auto simp: validate_admission_def admitted_run_def run_ok_def budget_ok_def pending_units_def
      lifecycle_ok_def open_attempt_def results word_pos_iff word_neq_zero_iff
      intro: exI [of _ Phase_Admitted])

lemma attach_step:
  assumes s: "validate_session c s = Inr u" and ok: "run_ok r"
    and run: "attach_body s r = Inr (a, Some r')"
  shows "run_ok r' \<and> run_step r r'"
proof -
  let ?s = "r\<lparr>session_id := Some (ses_session_id s), agent := Some (ses_agent s),
                   acp_session_id := Some (ses_acp_session_id s),
                   working_dir := Some (ses_working_dir s),
                   load_session := Some (ses_load_session s), run_state := ''active''\<rparr>"
  from run obtain n where n: "unat n = Suc (unat (revision r))" "r' = ?s\<lparr>revision := n\<rparr>"
    and st: "run_state r = ''admitted''"
    by (auto simp: attach_body_def Let_def results split: if_splits)
  have "lifecycle_ok ?s"
    using s ok st by (auto simp: validate_session_def results attached_ok_def open_attempt_def
        lifecycle_ok_def run_ok_def)
  with ok n have "run_ok r'" using written_ok [of n ?s] by (simp add: run_ok_def)
  moreover have "run_step r r'" using n st by (simp add: run_step_def)
  ultimately show ?thesis ..
qed

lemma position_not_admitted:
  "run_ok r \<Longrightarrow> position P (pending (generated_work r)) = Some i \<Longrightarrow> run_state r \<noteq> ''admitted''"
  by (auto simp: run_ok_def lifecycle_ok_def)

lemma budget_write_ok:
  assumes ok: "run_ok r" and n: "unat n = Suc (unat (revision r))"
    and na: "run_state r \<noteq> ''admitted''" and b: "budget_ok b"
    and c: "ceiling_units (generated_work r) \<le> ceiling_units b"
    and outs: "outputs b = outputs (generated_work r) @ new"
  shows "run_ok (r\<lparr>generated_work := b, revision := n\<rparr>)
       \<and> run_step r (r\<lparr>generated_work := b, revision := n\<rparr>)"
proof
  have "lifecycle_ok (r\<lparr>generated_work := b\<rparr>)"
    using ok na by (simp add: lifecycle_ok_def run_ok_def)
  with ok n b show "run_ok (r\<lparr>generated_work := b, revision := n\<rparr>)"
    using written_ok [of n "r\<lparr>generated_work := b\<rparr>"] by (simp add: run_ok_def)
  show "run_step r (r\<lparr>generated_work := b, revision := n\<rparr>)"
    using n c outs phase_moves_stay [OF ok] by (simp add: run_step_def)
qed

lemma reserve_body_Exhausted:
  assumes "reserve_body c q now_ms r = Inr (Exhausted, Some r')"
  shows "run_state r = ''active'' \<and> unat (ceiling_units (generated_work r)) <
      unat (consumed (generated_work r)) + unat (reserved (generated_work r)) + unat (res_units q)
    \<and> (\<exists>e n. unat e = unat now_ms + unat (park_ttl_ms r) \<and> unat n = Suc (unat (revision r))
      \<and> r' = r\<lparr>run_state := ''parked'', parked_at_ms := Some now_ms, park_expires_at_ms := e,
           triggering_mutation_id := Some (res_mutation_id q), revision := n\<rparr>)"
  using assms
  by (auto simp: reserve_body_def Let_def results word_results bind_eq_Some_conv word_less_nat_alt
      split: if_splits)

lemma reserve_body_Reserved:
  assumes "reserve_body c q now_ms r = Inr (Reserved, w)"
  shows "run_state r = ''active'' \<and> verify_token c r (res_token q) = Inr ()
    \<and> unat (consumed (generated_work r)) + unat (reserved (generated_work r)) + unat (res_units q)
        \<le> unat (ceiling_units (generated_work r))
    \<and> (\<forall>p \<in> set (pending (generated_work r)). pend_mutation_id p \<noteq> res_mutation_id q)
    \<and> (\<forall>out \<in> set (outputs (generated_work r)). out_mutation_id out \<noteq> res_mutation_id q)
    \<and> (\<exists>held n. unat held = unat (reserved (generated_work r)) + unat (res_units q)
      \<and> unat n = Suc (unat (revision r))
      \<and> w = Some (r\<lparr>generated_work := generated_work r\<lparr>reserved := held,
           pending := pending (generated_work r) @ [\<lparr>pend_mutation_id = res_mutation_id q,
             pend_kind = res_kind q, pend_units = res_units q\<rparr>]\<rparr>, revision := n\<rparr>))"
  using assms
  by (auto simp: reserve_body_def Let_def results word_results list_ex_iff bind_eq_Some_conv
      word_less_nat_alt split: if_splits)

lemma reserve_body_writes:
  "reserve_body c q now_ms r = Inr (a, Some r') \<Longrightarrow> a = Exhausted \<or> a = Reserved"
  by (auto simp: reserve_body_def Let_def results split: if_splits)

lemma reserve_step:
  assumes q: "validate_reservation c q = Inr u" and ok: "run_ok r"
    and run: "reserve_body c q now_ms r = Inr (a, Some r')"
  shows "run_ok r' \<and> run_step r r'"
  using reserve_body_writes [OF run]
proof
  assume "a = Exhausted"
  with run reserve_body_Exhausted obtain e n where st: "run_state r = ''active''"
    and n: "unat n = Suc (unat (revision r))"
    and r': "r' = r\<lparr>run_state := ''parked'', parked_at_ms := Some now_ms, park_expires_at_ms := e,
           triggering_mutation_id := Some (res_mutation_id q), revision := n\<rparr>" by blast
  let ?s = "r\<lparr>run_state := ''parked'', parked_at_ms := Some now_ms, park_expires_at_ms := e,
           triggering_mutation_id := Some (res_mutation_id q)\<rparr>"
  from st run_ok_attached [OF ok] run_ok_not_open [OF ok] run_ok_attempts [OF ok]
  have "lifecycle_ok ?s" by (simp add: lifecycle_ok_def)
  with ok n have "run_ok r'" using written_ok [of n ?s] by (simp add: r' run_ok_def)
  moreover have "run_step r r'" using n st by (simp add: r' run_step_def)
  ultimately show ?thesis ..
next
  assume "a = Reserved"
  with run reserve_body_Reserved obtain held n where st: "run_state r = ''active''"
    and n: "unat n = Suc (unat (revision r))"
    and h: "unat held = unat (reserved (generated_work r)) + unat (res_units q)"
      "unat (consumed (generated_work r)) + unat (reserved (generated_work r)) + unat (res_units q)
        \<le> unat (ceiling_units (generated_work r))"
      "\<forall>p \<in> set (pending (generated_work r)). pend_mutation_id p \<noteq> res_mutation_id q"
    and r': "r' = r\<lparr>generated_work := generated_work r\<lparr>reserved := held,
           pending := pending (generated_work r) @ [\<lparr>pend_mutation_id = res_mutation_id q,
             pend_kind = res_kind q, pend_units = res_units q\<rparr>]\<rparr>, revision := n\<rparr>"
    by blast
  have "0 < unat (res_units q)"
    using q by (auto simp: validate_reservation_def results word_neq_zero_iff)
  with h ok have b: "budget_ok ((generated_work r)\<lparr>reserved := held,
           pending := pending (generated_work r) @ [\<lparr>pend_mutation_id = res_mutation_id q,
             pend_kind = res_kind q, pend_units = res_units q\<rparr>]\<rparr>)"
    by (intro budget_ok_reserve) (auto simp: run_ok_def)
  from st have "run_state r \<noteq> ''admitted''" by simp
  from budget_write_ok [OF ok n this b, where new = "[]"] show ?thesis by (simp add: r')
qed

lemma confirm_body_Some:
  assumes "confirm_body c token m issue r = Inr (a, Some r')"
  shows "verify_token c r token = Inr () \<and> generated_issue r m \<noteq> Some issue
    \<and> (\<exists>i left held used n. position (\<lambda>p. pend_mutation_id p = m) (pending (generated_work r)) = Some i
      \<and> unat (pend_units (pending (generated_work r) ! i)) = 1 + unat left
      \<and> unat (reserved (generated_work r)) = 1 + unat held
      \<and> unat used = unat (consumed (generated_work r)) + 1
      \<and> unat n = Suc (unat (revision r))
      \<and> r' = r\<lparr>generated_work := (generated_work r)\<lparr>
           pending := spend_unit i left (pending (generated_work r)),
           reserved := held, consumed := used, outputs := outputs (generated_work r) @
             [\<lparr>out_mutation_id = m, out_kind = pend_kind (pending (generated_work r) ! i),
               out_external_id = issue\<rparr>]\<rparr>, revision := n\<rparr>)"
  using assms by (auto simp: confirm_body_def Let_def results word_results split: if_splits)

lemma confirm_step:
  assumes ok: "run_ok r" and run: "confirm_body c token m issue r = Inr (a, Some r')"
  shows "run_ok r' \<and> run_step r r'"
proof -
  let ?b = "generated_work r"
  from confirm_body_Some [OF run] obtain i left held used n
    where i: "position (\<lambda>p. pend_mutation_id p = m) (pending ?b) = Some i"
    and left: "unat (pend_units (pending ?b ! i)) = 1 + unat left"
    and held: "unat (reserved ?b) = 1 + unat held"
    and used: "unat used = unat (consumed ?b) + 1"
    and n: "unat n = Suc (unat (revision r))"
    and r': "r' = r\<lparr>generated_work := ?b\<lparr>pending := spend_unit i left (pending ?b),
          reserved := held, consumed := used,
          outputs := outputs ?b @ [\<lparr>out_mutation_id = m, out_kind = pend_kind (pending ?b ! i),
                 out_external_id = issue\<rparr>]\<rparr>, revision := n\<rparr>"
    by blast
  from ok have b: "budget_ok ?b" by (simp add: run_ok_def)
  have "i < length (pending ?b)" using position_Some [OF i] by simp
  note bc = budget_ok_confirm [OF b this left held used]
  show ?thesis unfolding r'
    by (rule budget_write_ok [OF ok n position_not_admitted [OF ok i] bc]) simp_all
qed

lemma release_step:
  assumes ok: "run_ok r" and run: "release_body c token m r = Inr (a, Some r')"
  shows "run_ok r' \<and> run_step r r'"
proof -
  let ?b = "generated_work r"
  from run obtain i held n where i: "position (\<lambda>p. pend_mutation_id p = m) (pending ?b) = Some i"
    and held: "unat (reserved ?b) = unat (pend_units (pending ?b ! i)) + unat held"
    and n: "unat n = Suc (unat (revision r))"
    and r': "r' = r\<lparr>generated_work := ?b\<lparr>pending := remove_at i (pending ?b), reserved := held\<rparr>,
        revision := n\<rparr>"
    by (auto simp: release_body_def Let_def results word_results split: option.splits)
  from ok have b: "budget_ok ?b" by (simp add: run_ok_def)
  have "i < length (pending ?b)" using position_Some [OF i] by simp
  note bc = budget_ok_remove [OF b this held]
  show ?thesis unfolding r'
    by (rule budget_write_ok [OF ok n position_not_admitted [OF ok i] bc, where new = "[]"]) simp_all
qed

lemma raise_step:
  assumes ok: "run_ok r" and run: "raise_body e ceil r = Inr (a, Some r')"
  shows "run_ok r' \<and> run_step r r'"
proof -
  let ?b = "generated_work r"
  from run obtain n where n: "unat n = Suc (unat (revision r))"
    and r': "r' = r\<lparr>generated_work := ?b\<lparr>ceiling_units := ceil\<rparr>, revision := n\<rparr>"
    and c: "ceiling_units ?b < ceil" and st: "run_state r \<noteq> ''admitted''"
    by (auto simp: raise_body_def results split: if_splits)
  have "budget_ok (?b\<lparr>ceiling_units := ceil\<rparr>)"
    using ok c by (auto simp: run_ok_def budget_ok_def pending_units_def word_less_nat_alt)
  then show ?thesis unfolding r' using c
    by (intro budget_write_ok [OF ok n st, where new = "[]"]) simp_all
qed

lemma park_cold_body_Some:
  assumes "park_cold_body d now_ms r = Inr (a, Some r')"
  shows "(run_state r = ''active'' \<or> run_state r = ''parked'')
    \<and> load_session r = Some (draft_load_session d)
    \<and> (\<exists>e n. unat e = unat now_ms + unat (park_ttl_ms r) \<and> unat n = Suc (unat (revision r))
      \<and> r' = r\<lparr>run_state := ''cold_parked'', parked_at_ms := Some now_ms,
           park_expires_at_ms := e,
           cleanup := map (\<lambda>i. \<lparr>issue_id = i, completed = False\<rparr>) (draft_claimed_issue_ids d),
           revision := n\<rparr>)"
  using assms unfolding park_cold_body_def Let_def
  by (simp only: results word_results split: if_split_asm) auto

lemma park_cold_step:
  assumes d: "validate_draft c d = Inr u" and ok: "run_ok r"
    and run: "park_cold_body d now_ms r = Inr (a, Some r')"
  shows "run_ok r' \<and> run_step r r'"
proof -
  let ?s = "\<lambda>e. r\<lparr>run_state := ''cold_parked'', parked_at_ms := Some now_ms,
       park_expires_at_ms := e,
       cleanup := map (\<lambda>i. \<lparr>issue_id = i, completed = False\<rparr>) (draft_claimed_issue_ids d)\<rparr>"
  from park_cold_body_Some [OF run] obtain n e where n: "unat n = Suc (unat (revision r))"
    "r' = (?s e)\<lparr>revision := n\<rparr>"
    and st: "run_state r = ''active'' \<or> run_state r = ''parked''"
    and load: "load_session r = Some (draft_load_session d)" by blast
  from d have "draft_load_session d" by (auto simp: validate_draft_def results)
  moreover from st have "run_state r \<noteq> ''admitted''" "run_state r \<noteq> ''resuming''"
    "run_state r \<noteq> ''disposed''" by auto
  ultimately have "lifecycle_ok (?s e)"
    using load run_ok_attached [OF ok] run_ok_not_open [OF ok] run_ok_attempts [OF ok]
    by (simp add: lifecycle_ok_def)
  with ok n have "run_ok r'" using written_ok [of n "?s e"] by (simp add: run_ok_def)
  moreover have "run_step r r'" using n st by (auto simp: run_step_def)
  ultimately show ?thesis ..
qed

lemma begin_resume_body_Some:
  assumes "begin_resume_body e operation now_ms lease r = Inr (a, Some r')"
  shows "revision r = e \<and> (run_state r = ''parked'' \<or> run_state r = ''cold_parked'')
    \<and> a = (if run_state r = ''cold_parked'' then Resuming else Active)
    \<and> (\<exists>deadline n. unat deadline = unat now_ms + unat lease \<and> unat n = Suc (unat (revision r))
      \<and> r' = r\<lparr>run_state := (if run_state r = ''cold_parked'' then ''resuming'' else ''active''),
           resume_attempt_of := Some \<lparr>operation_id = operation, deadline_ms = deadline,
             attempt_result = (if run_state r = ''cold_parked'' then ''resuming'' else ''active'')\<rparr>,
           revision := n\<rparr>)"
  using assms unfolding begin_resume_body_def Let_def
  by (simp only: results word_results split: if_split_asm) auto

lemma begin_resume_step:
  assumes ok: "run_ok r" and run: "begin_resume_body e operation now_ms lease r = Inr (a, Some r')"
  shows "run_ok r' \<and> run_step r r'"
proof -
  let ?s = "\<lambda>w dl. r\<lparr>run_state := w, resume_attempt_of := Some \<lparr>operation_id = operation,
    deadline_ms = dl, attempt_result = w\<rparr>\<rparr>"
  from begin_resume_body_Some [OF run] obtain n dl where n: "unat n = Suc (unat (revision r))"
    and st: "run_state r = ''parked'' \<or> run_state r = ''cold_parked''"
    and r': "r' = (?s (if run_state r = ''cold_parked'' then ''resuming'' else ''active'') dl)\<lparr>revision := n\<rparr>"
    by blast
  from st show ?thesis
  proof
    assume st: "run_state r = ''parked''"
    with run_ok_attached [OF ok] have "lifecycle_ok (?s ''active'' dl)"
      by (simp add: lifecycle_ok_def)
    with ok n st show ?thesis using written_ok [of n "?s ''active'' dl"]
      by (simp add: r' run_ok_def run_step_def)
  next
    assume st: "run_state r = ''cold_parked''"
    with run_ok_attached [OF ok] run_ok_cold [OF ok] have "lifecycle_ok (?s ''resuming'' dl)"
      by (simp add: lifecycle_ok_def)
    with ok n st show ?thesis using written_ok [of n "?s ''resuming'' dl"]
      by (simp add: r' run_ok_def run_step_def)
  qed
qed

lemma finalize_resume_body_Some:
  assumes "finalize_resume_body e operation succeeded r = Inr (a, Some r')"
  shows "revision r = e \<and> a = (if succeeded then Active else ColdParked)
    \<and> (\<exists>attempt n. resume_attempt_of r = Some attempt \<and> operation_id attempt = operation
      \<and> attempt_result attempt = ''resuming'' \<and> unat n = Suc (unat (revision r))
      \<and> r' = r\<lparr>run_state := (if succeeded then ''active'' else ''cold_parked''),
           park_expires_at_ms := (if succeeded then 0 else deadline_ms attempt),
           resume_attempt_of := Some \<lparr>operation_id = operation, deadline_ms = deadline_ms attempt,
             attempt_result = (if succeeded then ''active'' else ''cold_parked'')\<rparr>,
           revision := n\<rparr>)"
  using assms unfolding finalize_resume_body_def
  by (simp only: results word_results split: if_split_asm) auto

lemma open_attempt_states:
  assumes ok: "run_ok r" and a: "resume_attempt_of r = Some a" "attempt_result a = ''resuming''"
  shows "(run_state r = ''resuming'' \<or> run_state r = ''disposed'') \<and> attached_ok r
       \<and> load_session r = Some True \<and> parked_at_ms r \<noteq> None"
proof -
  from a have "open_attempt r" by (simp add: open_attempt_def)
  note o = run_ok_open [OF ok this]
  then have "run_state r \<noteq> ''admitted''" by auto
  with o run_ok_attached [OF ok] show ?thesis by simp
qed

lemma finalize_resume_step:
  assumes ok: "run_ok r" and run: "finalize_resume_body e operation succeeded r = Inr (a, Some r')"
  shows "run_ok r' \<and> run_step r r'"
proof -
  let ?s = "\<lambda>w x dl. r\<lparr>run_state := w, park_expires_at_ms := x,
    resume_attempt_of := Some \<lparr>operation_id = operation, deadline_ms = dl, attempt_result = w\<rparr>\<rparr>"
  from finalize_resume_body_Some [OF run] obtain at n where n: "unat n = Suc (unat (revision r))"
    and at: "resume_attempt_of r = Some at" "attempt_result at = ''resuming''"
    and r': "r' = (?s (if succeeded then ''active'' else ''cold_parked'')
        (if succeeded then 0 else deadline_ms at) (deadline_ms at))\<lparr>revision := n\<rparr>"
    by blast
  note st = open_attempt_states [OF ok at]
  show ?thesis
  proof (cases succeeded)
    case True
    from st have "lifecycle_ok (?s ''active'' 0 (deadline_ms at))" by (simp add: lifecycle_ok_def)
    with True ok n st show ?thesis using written_ok [of n "?s ''active'' 0 (deadline_ms at)"]
      by (auto simp: r' run_ok_def run_step_def)
  next
    case False
    from st have "lifecycle_ok (?s ''cold_parked'' (deadline_ms at) (deadline_ms at))"
      by (simp add: lifecycle_ok_def)
    with False ok n st show ?thesis
      using written_ok [of n "?s ''cold_parked'' (deadline_ms at) (deadline_ms at)"]
      by (auto simp: r' run_ok_def run_step_def)
  qed
qed

lemma complete_entry_step:
  assumes ok: "run_ok r" and n: "unat n = Suc (unat (revision r))"
    and st: "run_state r = ''cold_parked'' \<or> run_state r = ''resuming''"
  shows "run_ok (r\<lparr>cleanup := es, revision := n\<rparr>) \<and> run_step r (r\<lparr>cleanup := es, revision := n\<rparr>)"
proof
  have "lifecycle_ok (r\<lparr>cleanup := es\<rparr>)"
    using st
  proof
    assume "run_state r = ''cold_parked''"
    with run_ok_attached [OF ok] run_ok_cold [OF ok] run_ok_not_open [OF ok] run_ok_attempts [OF ok]
    show ?thesis by (simp add: lifecycle_ok_def)
  next
    assume "run_state r = ''resuming''"
    with run_ok_attached [OF ok] run_ok_resuming [OF ok] run_ok_open [OF ok] run_ok_attempts [OF ok]
    show ?thesis by (simp add: lifecycle_ok_def)
  qed
  with ok n show "run_ok (r\<lparr>cleanup := es, revision := n\<rparr>)"
    using written_ok [of n "r\<lparr>cleanup := es\<rparr>"] by (simp add: run_ok_def)
  show "run_step r (r\<lparr>cleanup := es, revision := n\<rparr>)"
    using n phase_moves_stay [OF ok] by (simp add: run_step_def)
qed

lemma dispose_step:
  assumes ok: "run_ok r" and n: "unat n = Suc (unat (revision r))"
    and st: "run_state r = ''cold_parked'' \<or> run_state r = ''resuming''"
    and es: "\<forall>e \<in> set (cleanup r). completed e"
  shows "run_ok (r\<lparr>run_state := ''disposed'', revision := n\<rparr>)
       \<and> run_step r (r\<lparr>run_state := ''disposed'', revision := n\<rparr>)"
proof
  from st have "run_state r \<noteq> ''admitted''" by auto
  with run_ok_attached [OF ok] run_ok_open [OF ok] run_ok_attempts [OF ok] es
  have "lifecycle_ok (r\<lparr>run_state := ''disposed''\<rparr>)" by (simp add: lifecycle_ok_def)
  with ok n show "run_ok (r\<lparr>run_state := ''disposed'', revision := n\<rparr>)"
    using written_ok [of n "r\<lparr>run_state := ''disposed''\<rparr>"] by (simp add: run_ok_def)
  show "run_step r (r\<lparr>run_state := ''disposed'', revision := n\<rparr>)"
    using n st by (auto simp: run_step_def)
qed

subsection \<open>The decisions as guarded updates\<close>

interpretation attach: guarded_update "\<lambda>s. validate_session c s = Inr ()" run_ok run_step attach_body
  for c by unfold_locales (rule attach_step)

interpretation reserve: guarded_update "\<lambda>(q, now_ms). validate_reservation c q = Inr ()" run_ok
  run_step "\<lambda>(q, now_ms). reserve_body c q now_ms"
  for c by unfold_locales (auto dest: reserve_step)

interpretation confirm: guarded_update "\<lambda>_. True" run_ok run_step
  "\<lambda>(token, m, issue). confirm_body c token m issue"
  for c by unfold_locales (auto dest: confirm_step)

interpretation release: guarded_update "\<lambda>_. True" run_ok run_step
  "\<lambda>(token, m). release_body c token m"
  for c by unfold_locales (auto dest: release_step)

interpretation park_cold: guarded_update "\<lambda>(d, now_ms). validate_draft c d = Inr ()" run_ok run_step
  "\<lambda>(d, now_ms). park_cold_body d now_ms"
  for c by unfold_locales (auto dest: park_cold_step)

interpretation raise_ceiling: guarded_update "\<lambda>_. True" run_ok run_step
  "\<lambda>(e, ceiling). raise_body e ceiling"
  by unfold_locales (auto dest: raise_step)

interpretation begin_resume: guarded_update "\<lambda>_. True" run_ok run_step
  "\<lambda>(e, operation, now_ms, lease). begin_resume_body e operation now_ms lease"
  by unfold_locales (auto dest: begin_resume_step)

interpretation finalize_resume: guarded_update "\<lambda>_. True" run_ok run_step
  "\<lambda>(e, operation, succeeded). finalize_resume_body e operation succeeded"
  by unfold_locales (auto dest: finalize_resume_step)

end
