(* ===== verification/Run_Store.thy ===== *)
theory Run_Store
  imports Run_Invariants "HOL-Library.Product_Lexorder"
begin

section \<open>The Run store\<close>

text \<open>
  The public operations of \<open>RunStore\<close> on the directory of Run records: validation before the
  lock, the decision of \<open>Runs\<close> under it, one atomic write. The reaper calls a
  caller-supplied adapter; the adapter is a function on a world of its own, so a run of the
  reaper is a sequence of adapter calls and record writes in the order the code makes them.
\<close>

subsection \<open>Loading\<close>

definition run_path :: "string \<Rightarrow> string" where
  "run_path i = i @ ''.json''"

definition find_run :: "crates \<Rightarrow> string \<Rightarrow> run disk \<Rightarrow> run_error + run option" where
  "find_run c i d =
     andThen (validate_id c i) (\<lambda>_.
     andThen (map_err Storage (read_file (run_path i) d)) (\<lambda>found.
     case found of
       None \<Rightarrow> Inr None
     | Some r \<Rightarrow>
         if schema_version r \<noteq> 4 \<or> revision r = 0 \<or> run_id r \<noteq> i
            \<or> ceiling_units (generated_work r) = 0 \<or> park_ttl_ms r = 0
         then Inl (Invalid ''stored Run is invalid'') else Inr (Some r)))"

definition load_run :: "crates \<Rightarrow> string \<Rightarrow> run disk \<Rightarrow> run_error + run" where
  "load_run c i d = andThen (find_run c i d) (\<lambda>x. ok_or x (Invalid ''Run was not found''))"

definition view :: "crates \<Rightarrow> string \<Rightarrow> run disk \<Rightarrow> run_error + run_view_data" where
  "view c i d = andThen (load_run c i d) (\<lambda>r. Inr (run_view r))"

definition find_view :: "crates \<Rightarrow> string \<Rightarrow> run disk \<Rightarrow> run_error + run_view_data option" where
  "find_view c i d = andThen (find_run c i d) (\<lambda>x. Inr (map_option run_view x))"

text \<open>The identifiers of the records that a listing of the directory yields, in its order.\<close>

definition run_ids :: "crates \<Rightarrow> run disk \<Rightarrow> string list" where
  "run_ids c d = List.map_filter (\<lambda>(name, _).
     case strip_suffix ''.json'' name of
       None \<Rightarrow> None
     | Some i \<Rightarrow> if is_ok (validate_id c i) then Some i else None) (files d)"

fun load_all :: "crates \<Rightarrow> run disk \<Rightarrow> string list \<Rightarrow> run_error + run list" where
  "load_all c d [] = Inr []"
| "load_all c d (i # is) =
     andThen (load_run c i d) (\<lambda>r. andThen (load_all c d is) (\<lambda>rs. Inr (r # rs)))"

definition snapshot :: "crates \<Rightarrow> run disk \<Rightarrow> run_error + run_view_data list" where
  "snapshot c d =
     andThen (ensure (listable d) (Storage Io)) (\<lambda>_.
     andThen (load_all c d (run_ids c d)) (\<lambda>rs. Inr (sort_key view_id (map run_view rs))))"

definition has_pending :: "crates \<Rightarrow> fs_error + bool \<Rightarrow> run disk \<Rightarrow> run_error + bool" where
  "has_pending c root_exists d =
     andThen (map_err Storage root_exists) (\<lambda>ex.
     if \<not> ex then Inr False
     else andThen (snapshot c d) (\<lambda>vs. Inr (list_ex (\<lambda>v. view_state v \<noteq> ''disposed'') vs)))"

subsection \<open>Writers\<close>

definition admit :: "crates \<Rightarrow> run_admission \<Rightarrow> string \<Rightarrow> (run disk, run_error, unit) op" where
  "admit c a token =
     bind_op (pure (validate_admission c a)) (\<lambda>_.
     bind_op (pure (validate_token token)) (\<lambda>_.
     locked Storage (\<lambda>d.
       let r = admitted_run c a token in
       if lookup_file d (run_path (adm_id a)) \<noteq> None
       then (andThen (load_run c (adm_id a) d) (\<lambda>old.
               ensure (old = r) (Invalid ''Run UUID conflicts with existing record'')), d)
       else write_op Storage (run_path (adm_id a)) r d)))"

definition attach :: "crates \<Rightarrow> run_session \<Rightarrow> (run disk, run_error, unit) op" where
  "attach c s =
     bind_op (pure (validate_session c s)) (\<lambda>_.
     locked_update Storage (load_run c (ses_id s)) (run_path (ses_id s)) (attach_body s))"

definition reserve_generated_work ::
  "crates \<Rightarrow> generated_work_reservation \<Rightarrow> u64 \<Rightarrow> (run disk, run_error, reserve_result) op" where
  "reserve_generated_work c q now_ms =
     bind_op (pure (validate_reservation c q)) (\<lambda>_.
     locked_update Storage (load_run c (res_run_id q)) (run_path (res_run_id q))
       (reserve_body c q now_ms))"

definition confirm_generated_work ::
  "crates \<Rightarrow> string \<Rightarrow> string \<Rightarrow> string \<Rightarrow> string \<Rightarrow> (run disk, run_error, unit) op" where
  "confirm_generated_work c i token mutation issue =
     bind_op (pure (validate_id c i)) (\<lambda>_.
     bind_op (pure (validate_id c mutation)) (\<lambda>_.
     bind_op (pure (ensure (issue \<noteq> []) (Invalid ''generated issue id is empty''))) (\<lambda>_.
     locked_update Storage (load_run c i) (run_path i) (confirm_body c token mutation issue))))"

definition release_generated_work ::
  "crates \<Rightarrow> string \<Rightarrow> string \<Rightarrow> string \<Rightarrow> (run disk, run_error, unit) op" where
  "release_generated_work c i token mutation =
     bind_op (pure (validate_id c i)) (\<lambda>_.
     bind_op (pure (validate_id c mutation)) (\<lambda>_.
     locked_update Storage (load_run c i) (run_path i) (release_body c token mutation)))"

definition generation_actor :: "crates \<Rightarrow> string \<Rightarrow> string \<Rightarrow> run disk \<Rightarrow> run_error + string" where
  "generation_actor c i token d =
     andThen (load_run c i d) (\<lambda>r.
     andThen (verify_token c r token) (\<lambda>_.
     ok_or (session_id r) (Invalid ''Run has no attached Session'')))"

definition pending_generation_ids ::
  "crates \<Rightarrow> string \<Rightarrow> string \<Rightarrow> run disk \<Rightarrow> run_error + string list" where
  "pending_generation_ids c i token d =
     andThen (load_run c i d) (\<lambda>r.
     andThen (verify_token c r token) (\<lambda>_.
     Inr (map pend_mutation_id (pending (generated_work r)))))"

definition park_cold :: "crates \<Rightarrow> run_draft \<Rightarrow> u64 \<Rightarrow> (run disk, run_error, unit) op" where
  "park_cold c dr now_ms =
     bind_op (pure (validate_draft c dr)) (\<lambda>_.
     locked_update Storage (load_run c (draft_id dr)) (run_path (draft_id dr))
       (park_cold_body dr now_ms))"

definition raise_generated_work_ceiling ::
  "crates \<Rightarrow> string \<Rightarrow> u64 \<Rightarrow> u64 \<Rightarrow> (run disk, run_error, run_view_data) op" where
  "raise_generated_work_ceiling c i expected ceiling =
     bind_op (pure (validate_id c i)) (\<lambda>_.
     locked_update Storage (load_run c i) (run_path i) (raise_body expected ceiling))"

definition begin_resume ::
  "crates \<Rightarrow> string \<Rightarrow> u64 \<Rightarrow> string \<Rightarrow> u64 \<Rightarrow> u64 \<Rightarrow> (run disk, run_error, resume_result) op" where
  "begin_resume c i expected operation now_ms lease_ms =
     bind_op (pure (validate_id c i)) (\<lambda>_.
     bind_op (pure (validate_id c operation)) (\<lambda>_.
     bind_op (pure (ensure (lease_ms \<noteq> 0) (Invalid ''resume lease must be positive''))) (\<lambda>_.
     locked_update Storage (load_run c i) (run_path i)
       (begin_resume_body expected operation now_ms lease_ms))))"

definition finalize_resume ::
  "crates \<Rightarrow> string \<Rightarrow> u64 \<Rightarrow> string \<Rightarrow> bool \<Rightarrow> (run disk, run_error, resume_result) op" where
  "finalize_resume c i expected operation succeeded =
     bind_op (pure (validate_id c i)) (\<lambda>_.
     bind_op (pure (validate_id c operation)) (\<lambda>_.
     locked_update Storage (load_run c i) (run_path i)
       (finalize_resume_body expected operation succeeded)))"

subsection \<open>Resumable Runs\<close>

definition summarize :: "run \<Rightarrow> run_error + run_summary" where
  "summarize r =
     andThen (ok_or (agent r) (Invalid ''cold Park has no Agent'')) (\<lambda>a.
     andThen (ok_or (acp_session_id r) (Invalid ''cold Park has no ACP Session'')) (\<lambda>s.
     andThen (ok_or (working_dir r) (Invalid ''cold Park has no working directory'')) (\<lambda>w.
     andThen (ok_or (parked_at_ms r) (Invalid ''cold Park has no Park timestamp'')) (\<lambda>p.
     Inr \<lparr>sum_id = run_id r, sum_agent = a, sum_acp_session_id = s, sum_working_dir = w,
       sum_state = run_state r, sum_parked_at_ms = p,
       sum_park_expires_at_ms = park_expires_at_ms r,
       sum_generated_work = generated_work r, sum_claims = map issue_id (cleanup r)\<rparr>))))"

definition resumable :: "u64 \<Rightarrow> run \<Rightarrow> bool" where
  "resumable now_ms r = (run_state r = ''cold_parked'' \<and> now_ms < park_expires_at_ms r)"

fun collect_resumable ::
  "crates \<Rightarrow> run disk \<Rightarrow> u64 \<Rightarrow> string list \<Rightarrow> run_error + run_summary list" where
  "collect_resumable c d now_ms [] = Inr []"
| "collect_resumable c d now_ms (i # is) =
     andThen (load_run c i d) (\<lambda>r.
     if resumable now_ms r
     then andThen (summarize r) (\<lambda>s. andThen (collect_resumable c d now_ms is) (\<lambda>ss. Inr (s # ss)))
     else collect_resumable c d now_ms is)"

definition list_resumable :: "crates \<Rightarrow> run disk \<Rightarrow> u64 \<Rightarrow> run_error + run_summary list" where
  "list_resumable c d now_ms =
     andThen (ensure (listable d) (Storage Io)) (\<lambda>_.
     andThen (collect_resumable c d now_ms (run_ids c d)) (\<lambda>ss.
     Inr (sort_key (\<lambda>s. (- int (unat (sum_parked_at_ms s)), sum_id s)) ss)))"

subsection \<open>The reaper\<close>

record reap_summary =
  disposed_count :: nat
  failed_runs :: "(string \<times> string) list"

type_synonym 'w adapter = "reap_action \<Rightarrow> 'w \<Rightarrow> (string + unit) \<times> 'w"

definition reap_deadline :: "run \<Rightarrow> u64 option" where
  "reap_deadline r =
     (if run_state r = ''resuming'' then map_option deadline_ms (resume_attempt_of r)
      else if run_state r = ''cold_parked'' then Some (park_expires_at_ms r) else None)"

definition reap_due :: "u64 \<Rightarrow> run \<Rightarrow> bool" where
  "reap_due now_ms r = (case reap_deadline r of None \<Rightarrow> False | Some t \<Rightarrow> t \<le> now_ms)"

definition mark_completed :: "nat \<Rightarrow> run \<Rightarrow> run" where
  "mark_completed k r = r\<lparr>cleanup := (cleanup r)[k := (cleanup r ! k)\<lparr>completed := True\<rparr>]\<rparr>"

fun reap_claims ::
  "'w adapter \<Rightarrow> string \<Rightarrow> nat list \<Rightarrow> run
     \<Rightarrow> (run disk \<times> 'w, run_error, run \<times> string option) op" where
  "reap_claims f i [] r s = (Inr (r, None), s)"
| "reap_claims f i (k # ks) r (d, w) =
     (if completed (cleanup r ! k) then reap_claims f i ks r (d, w)
      else case session_id r of
        None \<Rightarrow> (Inl (Invalid ''Parked Run has no Session''), (d, w))
      | Some sid \<Rightarrow>
          (case f \<lparr>reap_issue_id = issue_id (cleanup r ! k), reap_actor = ''reaper/'' @ sid\<rparr> w of
             (Inl e, w') \<Rightarrow> (Inr (r, Some e), (d, w'))
           | (Inr _, w') \<Rightarrow>
               (case advance_revision (mark_completed k r) of
                  Inl e \<Rightarrow> (Inl e, (d, w'))
                | Inr r' \<Rightarrow>
                    (case write_op Storage (run_path i) r' d of
                       (Inl e, d') \<Rightarrow> (Inl e, (d', w'))
                     | (Inr _, d') \<Rightarrow> reap_claims f i ks r' (d', w')))))"

definition reap_one ::
  "crates \<Rightarrow> u64 \<Rightarrow> 'w adapter \<Rightarrow> string \<Rightarrow> reap_summary
     \<Rightarrow> (run disk \<times> 'w, run_error, reap_summary) op" where
  "reap_one c now_ms f i sm =
     bind_op (read_op (\<lambda>(d, w). load_run c i d)) (\<lambda>r.
     if \<not> reap_due now_ms r then pure (Inr sm)
     else bind_op (reap_claims f i [0..<length (cleanup r)] r) (\<lambda>(r', failure).
       case failure of
         Some e \<Rightarrow> pure (Inr (sm\<lparr>failed_runs := failed_runs sm @ [(i, e)]\<rparr>))
       | None \<Rightarrow>
           bind_op (pure (advance_revision (r'\<lparr>run_state := ''disposed''\<rparr>))) (\<lambda>r''.
           \<lambda>(d, w). case write_op Storage (run_path i) r'' d of
             (Inl e, d') \<Rightarrow> (Inl e, (d', w))
           | (Inr _, d') \<Rightarrow> (Inr (sm\<lparr>disposed_count := Suc (disposed_count sm)\<rparr>), (d', w)))))"

fun reap_all ::
  "crates \<Rightarrow> u64 \<Rightarrow> 'w adapter \<Rightarrow> string list \<Rightarrow> reap_summary
     \<Rightarrow> (run disk \<times> 'w, run_error, reap_summary) op" where
  "reap_all c now_ms f [] sm = pure (Inr sm)"
| "reap_all c now_ms f (i # is) sm =
     bind_op (reap_one c now_ms f i sm) (\<lambda>sm'. reap_all c now_ms f is sm')"

definition reap_expired ::
  "crates \<Rightarrow> u64 \<Rightarrow> 'w adapter \<Rightarrow> (run disk \<times> 'w, run_error, reap_summary) op" where
  "reap_expired c now_ms f = (\<lambda>(d, w).
     if \<not> lock_ok d then (Inl (Storage Io), (d, w))
     else let (x, (d', w')) =
         (if \<not> listable d then (Inl (Storage Io), (d, w))
          else reap_all c now_ms f (run_ids c d) \<lparr>disposed_count = 0, failed_runs = []\<rparr> (d, w))
       in if unlock_ok d' then (x, (d', w')) else (Inl (Storage Io), (d', w')))"

end
