(* ===== verification/Run_Safety.thy ===== *)
theory Run_Safety
  imports Run_Store
begin

section \<open>Every history of the Run store\<close>

text \<open>
  Each operation of \<open>Run_Store\<close> is a safe operation: the records stay well-formed and only
  move by \<open>run_step\<close>, whichever writes fail. A history of the store is a sequence of
  operations with any arguments, mixed with changes of the environment (the lock, the
  listing and the pending faults); \<open>reachable_store\<close> holds of every directory that a
  history starting from an empty one can leave.
\<close>

subsection \<open>The operations are safe\<close>

lemma load_run_Inr [results]:
  "load_run c i d = Inr r \<longleftrightarrow> validate_id c i = Inr ()
     \<and> lookup_file d (run_path i) = Some (Stored r)
     \<and> schema_version r = 4 \<and> revision r \<noteq> 0 \<and> run_id r = i
     \<and> ceiling_units (generated_work r) \<noteq> 0 \<and> park_ttl_ms r \<noteq> 0"
  by (auto simp: load_run_def find_run_def results split: option.splits if_splits)

lemma load_run_stored: "load_run c i d = Inr r \<Longrightarrow> lookup_file d (run_path i) = Some (Stored r)"
  by (simp add: results)

lemma admit_safe: "safe_op run_ok run_step (admit c a token)"
  unfolding admit_def
proof (intro safe_validated)
  fix u v assume v: "validate_admission c a = Inr u"
  show "safe_op run_ok run_step (locked Storage (\<lambda>d. let r = admitted_run c a token in
       if lookup_file d (run_path (adm_id a)) \<noteq> None
       then (andThen (load_run c (adm_id a) d) (\<lambda>old.
               ensure (old = r) (Invalid ''Run UUID conflicts with existing record'')), d)
       else write_op Storage (run_path (adm_id a)) r d))" (is "safe_op _ _ (locked Storage ?m)")
    unfolding safe_op_def
  proof (intro allI impI)
    fix d x d' assume ok: "all_good run_ok d" and run: "locked Storage ?m d = (x, d')"
    have d': "d' = (if lock_ok d then snd (?m d) else d)"
      using locked_state [of Storage ?m d] run by simp
    show "all_good run_ok d' \<and> evolves run_step d d'"
    proof (cases "lock_ok d \<and> lookup_file d (run_path (adm_id a)) = None")
      case True
      then obtain y where "write_op Storage (run_path (adm_id a)) (admitted_run c a token) d = (y, d')"
        using d' by (cases "write_op Storage (run_path (adm_id a)) (admitted_run c a token) d") simp
      from good_create [OF write_op_cases [OF this] ok] True admitted_run_ok [OF v]
      show ?thesis by simp
    next
      case False
      with d' have "d' = d" by (auto simp: Let_def)
      with ok show ?thesis by (simp add: evolves_eq)
    qed
  qed
qed

lemma attach_safe: "safe_op run_ok run_step (attach c s)"
  unfolding attach_def
  by (intro safe_validated attach.update_safe [where c = c] load_run_stored) simp_all

lemma reserve_safe: "safe_op run_ok run_step (reserve_generated_work c q now_ms)"
  unfolding reserve_generated_work_def
  using reserve.update_safe [where q = "(q, now_ms)" and c = c, simplified, OF load_run_stored]
  by (intro safe_validated) simp

lemma confirm_safe: "safe_op run_ok run_step (confirm_generated_work c i token m issue)"
  unfolding confirm_generated_work_def
  using confirm.update_safe [where q = "(token, m, issue)" and c = c, simplified, OF load_run_stored]
  by (intro safe_validated) simp

lemma release_safe: "safe_op run_ok run_step (release_generated_work c i token m)"
  unfolding release_generated_work_def
  using release.update_safe [where q = "(token, m)" and c = c, simplified, OF load_run_stored]
  by (intro safe_validated) simp

lemma park_cold_safe: "safe_op run_ok run_step (park_cold c dr now_ms)"
  unfolding park_cold_def
  using park_cold.update_safe [where q = "(dr, now_ms)" and c = c, simplified, OF load_run_stored]
  by (intro safe_validated) simp

lemma raise_safe: "safe_op run_ok run_step (raise_generated_work_ceiling c i e ceiling)"
  unfolding raise_generated_work_ceiling_def
  using raise_ceiling.update_safe [where q = "(e, ceiling)", simplified, OF load_run_stored]
  by (intro safe_validated) simp

lemma begin_resume_safe: "safe_op run_ok run_step (begin_resume c i e operation now_ms lease)"
  unfolding begin_resume_def
  using begin_resume.update_safe [where q = "(e, operation, now_ms, lease)", simplified, OF load_run_stored]
  by (intro safe_validated) simp

lemma finalize_resume_safe: "safe_op run_ok run_step (finalize_resume c i e operation succeeded)"
  unfolding finalize_resume_def
  using finalize_resume.update_safe [where q = "(e, operation, succeeded)", simplified, OF load_run_stored]
  by (intro safe_validated) simp

subsection \<open>The reaper is safe\<close>

lemma reap_write:
  assumes ok: "all_good run_ok d" and r: "lookup_file d (run_path i) = Some (Stored r)"
    and r': "run_ok r'" "run_step r r'" and w: "write_op Storage (run_path i) r' d = (y, d')"
  shows "all_good run_ok d' \<and> evolves run_step d d'"
  by (rule good_write [where good = run_ok and step = run_step, OF write_op_cases [OF w] ok r r'])

definition reaping :: "run \<Rightarrow> bool" where
  "reaping r \<longleftrightarrow> run_state r = ''cold_parked'' \<or> run_state r = ''resuming''"

definition reaped_from :: "run \<Rightarrow> run \<Rightarrow> bool" where
  "reaped_from r r' \<longleftrightarrow> run_state r' = run_state r \<and> length (cleanup r') = length (cleanup r)
     \<and> map issue_id (cleanup r') = map issue_id (cleanup r) \<and> session_id r' = session_id r
     \<and> (\<forall>k < length (cleanup r). completed (cleanup r ! k) \<longrightarrow> completed (cleanup r' ! k))"

lemma reaped_from_refl: "reaped_from r r"
  by (simp add: reaped_from_def)

lemma reaped_from_trans: "reaped_from r s \<Longrightarrow> reaped_from s t \<Longrightarrow> reaped_from r t"
  by (auto simp: reaped_from_def)

lemma mark_completed_step:
  assumes ok: "run_ok r" and st: "reaping r" and adv: "advance_revision (mark_completed k r) = Inr r'"
    and k: "k < length (cleanup r)"
  shows "run_ok r' \<and> run_step r r' \<and> reaping r' \<and> reaped_from r r' \<and> completed (cleanup r' ! k)"
proof -
  from adv obtain n where n: "unat n = Suc (unat (revision r))"
    and r': "r' = r\<lparr>cleanup := (cleanup r)[k := (cleanup r ! k)\<lparr>completed := True\<rparr>], revision := n\<rparr>"
    by (auto simp: results mark_completed_def)
  have "reaped_from r r'" using k
    by (auto simp: reaped_from_def r' map_update_same nth_list_update)
  moreover have "reaping r'" using st by (simp add: reaping_def r')
  ultimately show ?thesis
    using complete_entry_step [OF ok n] st k unfolding reaping_def r' by simp
qed

lemma reap_claims_safe:
  assumes "all_good run_ok d" "lookup_file d (run_path i) = Some (Stored r)" "reaping r"
    "\<forall>k \<in> set ks. k < length (cleanup r)"
    "reap_claims f i ks r (d, w) = (x, (d', w'))"
  shows "all_good run_ok d' \<and> evolves run_step d d' \<and>
    (\<forall>r' fl. x = Inr (r', fl) \<longrightarrow> lookup_file d' (run_path i) = Some (Stored r') \<and> reaped_from r r'
       \<and> (fl = None \<longrightarrow> (\<forall>k \<in> set ks. completed (cleanup r' ! k))))"
  using assms
proof (induction ks arbitrary: r d w)
  case Nil
  then show ?case by (auto simp: reaped_from_refl evolves_eq)
next
  case (Cons k ks)
  note ok = Cons.prems(1) and r = Cons.prems(2) and st = Cons.prems(3) and run = Cons.prems(5)
  have kl: "k < length (cleanup r)" "\<forall>k \<in> set ks. k < length (cleanup r)" using Cons.prems(4) by auto
  have rok: "run_ok r" using ok r by (auto simp: all_good_def)
  show ?case
  proof (cases "completed (cleanup r ! k)")
    case True
    with run have "reap_claims f i ks r (d, w) = (x, (d', w'))" by simp
    note ih = Cons.IH [OF ok r st kl(2) this]
    moreover have "reaped_from r r' \<Longrightarrow> completed (cleanup r' ! k)" for r'
      using True kl(1) by (simp add: reaped_from_def)
    ultimately show ?thesis by auto
  next
    case False
    show ?thesis
    proof (cases "session_id r")
      case None
      with False run ok show ?thesis by (auto simp: evolves_eq)
    next
      case (Some sid)
      obtain y w1 where f: "f \<lparr>reap_issue_id = issue_id (cleanup r ! k), reap_actor = ''reaper/'' @ sid\<rparr> w
          = (y, w1)" by fastforce
      show ?thesis
      proof (cases y)
        case (Inl e)
        with False Some f run ok r show ?thesis by (auto simp: evolves_eq reaped_from_refl)
      next
        case (Inr u)
        show ?thesis
        proof (cases "advance_revision (mark_completed k r)")
          case (Inl e)
          with False Some f Inr run ok show ?thesis by (auto simp: evolves_eq)
        next
          case adv: (Inr r1)
          note m = mark_completed_step [OF rok st adv kl(1)]
          obtain z d1 where wr: "write_op Storage (run_path i) r1 d = (z, d1)" by fastforce
          from m have m1: "run_ok r1" "run_step r r1" by simp_all
          note g = reap_write [OF ok r m1 wr]
          show ?thesis
          proof (cases z)
            case (Inl e)
            with False Some f Inr adv wr run g show ?thesis by auto
          next
            case z: (Inr v)
            with False Some f Inr adv wr run have rest: "reap_claims f i ks r1 (d1, w1) = (x, (d', w'))"
              by simp
            have l1: "lookup_file d1 (run_path i) = Some (Stored r1)"
              using wr z write_atomic_ok by (fastforce simp: results)
            have "\<forall>k \<in> set ks. k < length (cleanup r1)" using kl m by (simp add: reaped_from_def)
            from Cons.IH [OF _ l1 _ this rest] g m
            have ih: "all_good run_ok d' \<and> evolves run_step d1 d' \<and>
              (\<forall>r' fl. x = Inr (r', fl) \<longrightarrow> lookup_file d' (run_path i) = Some (Stored r') \<and> reaped_from r1 r'
                \<and> (fl = None \<longrightarrow> (\<forall>k \<in> set ks. completed (cleanup r' ! k))))" by blast
            moreover have "reaped_from r1 r' \<Longrightarrow> completed (cleanup r' ! k)" for r'
              using m kl(1) by (simp add: reaped_from_def)
            ultimately show ?thesis
              using g m evolves_trans [of run_step d d1 d'] reaped_from_trans [of r r1] by auto
          qed
        qed
      qed
    qed
  qed
qed

lemma reap_due_reaping: "reap_due now_ms r \<Longrightarrow> reaping r"
  by (auto simp: reap_due_def reap_deadline_def reaping_def split: option.splits if_splits)

lemma all_completed_range: "\<forall>k \<in> set [0..<length xs]. completed (ys ! k) \<Longrightarrow> length ys = length xs \<Longrightarrow>
    \<forall>e \<in> set ys. completed e"
  by (auto simp: in_set_conv_nth)

text \<open>One Run of a reaping pass: left alone, reported as failed, or disposed with every claim released.\<close>

lemma reap_one_cases:
  assumes ok: "all_good run_ok d" and run: "reap_one c now_ms f i sm (d, w) = (x, (d', w'))"
  shows "all_good run_ok d' \<and> evolves run_step d d'
    \<and> (\<forall>sm'. x = Inr sm' \<longrightarrow> (\<exists>r. load_run c i d = Inr r \<and>
        (if \<not> reap_due now_ms r then sm' = sm \<and> d' = d \<and> w' = w
         else (\<exists>r'. lookup_file d' (run_path i) = Some (Stored r') \<and>
            ((\<exists>e. sm' = sm\<lparr>failed_runs := failed_runs sm @ [(i, e)]\<rparr> \<and> run_state r' = run_state r)
             \<or> (sm' = sm\<lparr>disposed_count := Suc (disposed_count sm)\<rparr> \<and> run_state r' = ''disposed''
                 \<and> (\<forall>e \<in> set (cleanup r'). completed e)))))))"
proof (cases "load_run c i d")
  case (Inl e)
  with run ok show ?thesis by (auto simp: reap_one_def bind_op_def read_op_def evolves_eq)
next
  case (Inr r)
  then have r: "lookup_file d (run_path i) = Some (Stored r)" by (simp add: results)
  show ?thesis
  proof (cases "reap_due now_ms r")
    case False
    with Inr run ok show ?thesis by (auto simp: reap_one_def bind_op_def read_op_def pure_def evolves_eq)
  next
    case True
    obtain y d1 w1 where cl: "reap_claims f i [0..<length (cleanup r)] r (d, w) = (y, (d1, w1))"
      by (metis prod.exhaust)
    have bound: "\<forall>k \<in> set [0..<length (cleanup r)]. k < length (cleanup r)" by simp
    note s = reap_claims_safe [OF ok r reap_due_reaping [OF True] bound cl]
    show ?thesis
    proof (cases y)
      case (Inl e)
      with Inr True cl run s show ?thesis by (auto simp: reap_one_def bind_op_def read_op_def)
    next
      case y: (Inr p)
      obtain r1 fl where p: "p = (r1, fl)" by (cases p)
      from s y p have r1: "lookup_file d1 (run_path i) = Some (Stored r1)" "reaped_from r r1"
        and g1: "all_good run_ok d1" "evolves run_step d d1" by auto
      show ?thesis
      proof (cases fl)
        case (Some e)
        with Inr True cl run y p have "x = Inr (sm\<lparr>failed_runs := failed_runs sm @ [(i, e)]\<rparr>)" "d' = d1"
          by (auto simp: reap_one_def bind_op_def read_op_def pure_def)
        with g1 r1 True Inr show ?thesis by (auto simp: reaped_from_def)
      next
        case None
        with s y p r1 have comp: "\<forall>e \<in> set (cleanup r1). completed e"
          by (intro all_completed_range [of "cleanup r"]) (auto simp: reaped_from_def)
        have st1: "run_state r1 = ''cold_parked'' \<or> run_state r1 = ''resuming''"
          using reap_due_reaping [OF True] r1(2) by (simp add: reaping_def reaped_from_def)
        have ok1: "run_ok r1" using g1(1) r1(1) by (auto simp: all_good_def)
        show ?thesis
        proof (cases "advance_revision (r1\<lparr>run_state := ''disposed''\<rparr>)")
          case (Inl e)
          with Inr True cl run y p None g1 show ?thesis
            by (auto simp: reap_one_def bind_op_def read_op_def pure_def)
        next
          case adv: (Inr r2)
          then obtain n where n: "unat n = Suc (unat (revision r1))"
            and r2: "r2 = r1\<lparr>run_state := ''disposed'', revision := n\<rparr>" by (auto simp: results)
          obtain z d2 where wr: "write_op Storage (run_path i) r2 d1 = (z, d2)" by fastforce
          from dispose_step [OF ok1 n st1 comp] have st2: "run_ok r2" "run_step r1 r2" by (simp_all add: r2)
          note g2 = reap_write [OF g1(1) r1(1) st2 wr]
          with g1 have ev: "evolves run_step d d2" using evolves_trans by blast
          have dd: "d' = d2" using Inr True cl run y p None adv wr
            by (cases z) (auto simp: reap_one_def bind_op_def read_op_def pure_def)
          show ?thesis
          proof (cases z)
            case (Inl e)
            with Inr True cl run y p None adv wr g2 ev dd show ?thesis
              by (auto simp: reap_one_def bind_op_def read_op_def pure_def)
          next
            case zr: (Inr v)
            have "lookup_file d2 (run_path i) = Some (Stored r2)"
              using wr zr write_atomic_ok by (fastforce simp: results)
            moreover from zr Inr True cl run y p None adv wr
            have "x = Inr (sm\<lparr>disposed_count := Suc (disposed_count sm)\<rparr>)"
              by (auto simp: reap_one_def bind_op_def read_op_def pure_def)
            ultimately show ?thesis using Inr True g2 ev dd comp by (auto simp: r2)
          qed
        qed
      qed
    qed
  qed
qed

lemma reap_all_safe:
  "all_good run_ok d \<Longrightarrow> reap_all c now_ms f is sm (d, w) = (x, (d', w')) \<Longrightarrow>
     all_good run_ok d' \<and> evolves run_step d d'"
proof (induction "is" arbitrary: sm d w)
  case Nil
  then show ?case by (simp add: pure_def evolves_eq)
next
  case (Cons i "is")
  obtain y d1 w1 where one: "reap_one c now_ms f i sm (d, w) = (y, (d1, w1))"
    by (metis prod.exhaust)
  from reap_one_cases [OF Cons.prems(1) one] have g: "all_good run_ok d1" "evolves run_step d d1" by auto
  show ?case
  proof (cases y)
    case (Inl e)
    with Cons.prems(2) one g show ?thesis by (auto simp: bind_op_def)
  next
    case (Inr sm')
    with Cons.prems(2) one have "reap_all c now_ms f is sm' (d1, w1) = (x, (d', w'))"
      by (simp add: bind_op_def)
    from Cons.IH [OF g(1) this] g(2) show ?thesis using evolves_trans by blast
  qed
qed

lemma reap_expired_safe:
  assumes "all_good run_ok d" "reap_expired c now_ms f (d, w) = (x, (d', w'))"
  shows "all_good run_ok d' \<and> evolves run_step d d'"
proof (cases "lock_ok d \<and> listable d")
  case True
  obtain y d1 w1 where "reap_all c now_ms f (run_ids c d) \<lparr>disposed_count = 0, failed_runs = []\<rparr> (d, w)
     = (y, (d1, w1))" by (metis prod.exhaust)
  with reap_all_safe [OF assms(1) this] True assms(2) show ?thesis
    by (auto simp: reap_expired_def split: if_splits)
next
  case False
  with assms show ?thesis by (auto simp: reap_expired_def evolves_eq split: if_splits)
qed

subsection \<open>Frame of the reaper\<close>

lemma write_op_other:
  "write_op wrap k r d = (y, d') \<Longrightarrow> k' \<noteq> k \<Longrightarrow> lookup_file d' k' = lookup_file d k'"
  by (drule write_op_cases) auto

lemma reap_claims_other:
  "reap_claims f i ks r (d, w) = (x, (d', w')) \<Longrightarrow> k' \<noteq> run_path i \<Longrightarrow>
     lookup_file d' k' = lookup_file d k'"
proof (induction ks arbitrary: r d w)
  case Nil
  then show ?case by simp
next
  case (Cons k ks)
  note other = write_op_other [OF _ Cons.prems(2)]
  from Cons.prems(1) show ?case
    by (auto split: if_splits option.splits sum.splits prod.splits
        dest!: Cons.IH [OF _ Cons.prems(2)] dest: other)
qed

lemma reap_one_other:
  assumes run: "reap_one c now_ms f i sm (d, w) = (x, (d', w'))" and k': "k' \<noteq> run_path i"
  shows "lookup_file d' k' = lookup_file d k'"
proof (cases "load_run c i d")
  case (Inl e)
  with run show ?thesis by (simp add: reap_one_def bind_op_def read_op_def)
next
  case (Inr r)
  obtain y d1 w1 where cl: "reap_claims f i [0..<length (cleanup r)] r (d, w) = (y, (d1, w1))"
    by (metis prod.exhaust)
  have one: "lookup_file d1 k' = lookup_file d k'" by (rule reap_claims_other [OF cl k'])
  have "d' = d \<or> d' = d1 \<or> (\<exists>r2 z. write_op Storage (run_path i) r2 d1 = (z, d'))"
    using run Inr cl
    by (simp add: reap_one_def bind_op_def read_op_def pure_def
        split: if_split_asm option.split_asm sum.split_asm prod.split_asm) blast+
  with one write_op_other [OF _ k'] show ?thesis by metis
qed

lemma reap_all_other:
  "reap_all c now_ms f is sm (d, w) = (x, (d', w')) \<Longrightarrow> k' \<notin> run_path ` set is \<Longrightarrow>
     lookup_file d' k' = lookup_file d k'"
proof (induction "is" arbitrary: sm d w)
  case Nil
  then show ?case by (simp add: pure_def)
next
  case (Cons i "is")
  obtain y d1 w1 where one: "reap_one c now_ms f i sm (d, w) = (y, (d1, w1))"
    by (metis prod.exhaust)
  from reap_one_other [OF one] Cons.prems(2) have "lookup_file d1 k' = lookup_file d k'" by simp
  with Cons one show ?case by (cases y) (auto simp: bind_op_def)
qed

subsection \<open>Histories\<close>

inductive store_step :: "crates \<Rightarrow> run disk \<Rightarrow> run disk \<Rightarrow> bool" for c where
  admit: "admit c a token d = (x1, d') \<Longrightarrow> store_step c d d'"
| attach: "attach c s d = (x2, d') \<Longrightarrow> store_step c d d'"
| reserve: "reserve_generated_work c q now_ms d = (x3, d') \<Longrightarrow> store_step c d d'"
| confirm: "confirm_generated_work c i token m issue d = (x4, d') \<Longrightarrow> store_step c d d'"
| release: "release_generated_work c i token m d = (x5, d') \<Longrightarrow> store_step c d d'"
| park_cold: "park_cold c dr now_ms d = (x6, d') \<Longrightarrow> store_step c d d'"
| raise_ceiling: "raise_generated_work_ceiling c i e ceiling d = (x7, d') \<Longrightarrow> store_step c d d'"
| begin_resume: "begin_resume c i e operation now_ms lease d = (x8, d') \<Longrightarrow> store_step c d d'"
| finalize_resume: "finalize_resume c i e operation succeeded d = (x9, d') \<Longrightarrow> store_step c d d'"
| reap: "reap_expired c now_ms (f :: nat adapter) (d, w) = (x10, (d', w')) \<Longrightarrow> store_step c d d'"
| environment: "files d' = files d \<Longrightarrow> store_step c d d'"

inductive reachable_store :: "crates \<Rightarrow> run disk \<Rightarrow> bool" for c where
  empty: "files d = [] \<Longrightarrow> reachable_store c d"
| step: "reachable_store c d \<Longrightarrow> store_step c d d' \<Longrightarrow> reachable_store c d'"

lemma store_step_safe:
  assumes "store_step c d d'" and "all_good run_ok d"
  shows "all_good run_ok d' \<and> evolves run_step d d'"
  using assms
proof (induction rule: store_step.induct)
  case (environment d' d)
  then show ?case by (intro same_files) (simp_all add: lookup_file_def)
qed (rule safe_opD [OF admit_safe] safe_opD [OF attach_safe] safe_opD [OF reserve_safe]
    safe_opD [OF confirm_safe] safe_opD [OF release_safe] safe_opD [OF park_cold_safe]
    safe_opD [OF raise_safe] safe_opD [OF begin_resume_safe] safe_opD [OF finalize_resume_safe]
    reap_expired_safe; assumption)+

lemma reachable_runs_ok: "reachable_store c d \<Longrightarrow> all_good run_ok d"
proof (induction rule: reachable_store.induct)
  case (empty d)
  then show ?case by (simp add: all_good_def lookup_file_def)
next
  case (step d d')
  then show ?case by (blast dest: store_step_safe)
qed

lemma history_evolves:
  "(store_step c)\<^sup>*\<^sup>* d d' \<Longrightarrow> all_good run_ok d \<Longrightarrow> all_good run_ok d' \<and> evolves run_step d d'"
proof (induction rule: rtranclp_induct)
  case base
  then show ?case by (simp add: evolves_eq)
next
  case (step e f)
  then show ?case using store_step_safe evolves_trans by blast
qed

end
