(* ===== verification/Run_Demo.thy ===== *)
theory Run_Demo
  imports Run_Safety
begin

section \<open>A concrete Run\<close>

text \<open>
  A small configuration on which the witnesses of the Run properties are evaluated: a \<open>uuid\<close>
  parser that accepts every text and renders it in lowercase, a digest of 32 equal bytes,
  one Run with a ceiling of two units, and directories that hold given records.
\<close>

definition demo_crates :: crates where
  "demo_crates = \<lparr>uuid_text = (\<lambda>s. Some (to_ascii_lowercase s)),
     sha256 = (\<lambda>s. replicate 32 (of_nat (length s))), uuid_from_bytes = lower_hex\<rparr>"

definition demo_id :: string where
  "demo_id = ''6f1e0b1c-9c1d-4f5e-8a2b-3c4d5e6f7a8b''"

definition demo_token :: string where
  "demo_token = ''0123456789abcdef''"

definition demo_disk :: "(string \<times> run) list \<Rightarrow> run disk" where
  "demo_disk rs = \<lparr>files = map (\<lambda>(i, r). (run_path i, Stored r)) rs, listable = True,
     lock_ok = True, unlock_ok = True, write_faults = []\<rparr>"

definition demo_admission :: run_admission where
  "demo_admission = \<lparr>adm_id = demo_id, adm_generated_work_ceiling = 2, adm_park_ttl_ms = 1000\<rparr>"

definition demo_session :: run_session where
  "demo_session = \<lparr>ses_id = demo_id, ses_session_id = ''s1'', ses_agent = ''codex'',
     ses_acp_session_id = ''acp1'', ses_working_dir = ''/w'', ses_load_session = True\<rparr>"

definition demo_reservation :: "u64 \<Rightarrow> generated_work_reservation" where
  "demo_reservation u = \<lparr>res_run_id = demo_id, res_token = demo_token, res_mutation_id = demo_id,
     res_kind = ''beads_issue'', res_units = u\<rparr>"

definition demo_run :: run where
  "demo_run = admitted_run demo_crates demo_admission demo_token"

definition demo_active :: run where
  "demo_active = demo_run\<lparr>revision := 2, session_id := Some ''s1'', agent := Some ''codex'',
     acp_session_id := Some ''acp1'', working_dir := Some ''/w'', load_session := Some True,
     run_state := ''active''\<rparr>"

definition demo_pending :: "u64 \<Rightarrow> run" where
  "demo_pending u = demo_active\<lparr>revision := 3, generated_work := \<lparr>ceiling_units = 2, consumed = 0,
     reserved = u, pending = [\<lparr>pend_mutation_id = demo_id, pend_kind = ''beads_issue'',
       pend_units = u\<rparr>], outputs = []\<rparr>\<rparr>"

definition demo_cold :: run where
  "demo_cold = demo_active\<lparr>revision := 3, run_state := ''cold_parked'', parked_at_ms := Some 10,
     park_expires_at_ms := 1010, cleanup := [\<lparr>issue_id = ''bd-1'', completed = False\<rparr>]\<rparr>"

definition demo_attempt :: "string \<Rightarrow> resume_attempt" where
  "demo_attempt res = \<lparr>operation_id = demo_id, deadline_ms = 50, attempt_result = res\<rparr>"

definition demo_disposed :: run where
  "demo_disposed = demo_cold\<lparr>revision := 6, run_state := ''disposed'',
     resume_attempt_of := Some (demo_attempt ''resuming''),
     cleanup := [\<lparr>issue_id = ''bd-1'', completed = True\<rparr>]\<rparr>"

lemma demo_lower [simp]: "to_ascii_lowercase demo_id = demo_id"
  by (simp add: demo_id_def to_ascii_lowercase_def to_ascii_lower_def is_ascii_upper_def byte_of_def)

lemma demo_validate [simp]: "validate_id demo_crates demo_id = Inr ()"
  by (simp add: validate_id_def demo_crates_def)

lemma demo_token_length [simp]: "length demo_token = 16"
  by (simp add: demo_token_def)

lemma verify_token_same [simp]:
  "generate_token_sha256 r = token_sha256 c t \<Longrightarrow> 16 \<le> length t \<Longrightarrow> verify_token c r t = Inr ()"
  by (simp add: verify_token_def validate_token_def)

lemma demo_load [simp]:
  "run_id r = demo_id \<Longrightarrow> schema_version r = 4 \<Longrightarrow> revision r \<noteq> 0 \<Longrightarrow>
     ceiling_units (generated_work r) \<noteq> 0 \<Longrightarrow> park_ttl_ms r \<noteq> 0 \<Longrightarrow>
     load_run demo_crates demo_id (demo_disk [(demo_id, r)]) = Inr r"
  by (simp add: load_run_Inr demo_disk_def lookup_file_def)

lemma demo_disk_simps [simp]:
  "lock_ok (demo_disk rs)" "unlock_ok (demo_disk rs)" "listable (demo_disk rs)"
  "write_faults (demo_disk rs) = []"
  "lookup_file (demo_disk [(demo_id, r)]) = [run_path demo_id \<mapsto> Stored r]"
  "lookup_file (demo_disk []) = Map.empty"
  by (simp_all add: demo_disk_def lookup_file_def)

lemma demo_write [simp]:
  "write_op wrap (run_path demo_id) r' (demo_disk [(demo_id, r)]) = (Inr (), demo_disk [(demo_id, r')])"
  "write_op wrap (run_path demo_id) r' (demo_disk []) = (Inr (), demo_disk [(demo_id, r')])"
  by (simp_all add: write_op_def write_atomic_def next_fault_def Let_def demo_disk_def)

lemma demo_update:
  "load_run demo_crates demo_id (demo_disk [(demo_id, r)]) = Inr r \<Longrightarrow> body r = Inr (a, Some r') \<Longrightarrow>
     locked_update Storage (load_run demo_crates demo_id) (run_path demo_id) body
       (demo_disk [(demo_id, r)]) = (Inr a, demo_disk [(demo_id, r')])"
  by (simp add: locked_update_def locked_def bind_op_def pure_def)

lemmas demo_defs = demo_admission_def demo_session_def demo_reservation_def demo_run_def
  demo_active_def demo_pending_def demo_cold_def demo_attempt_def demo_disposed_def
  admitted_run_def

lemmas demo_run_op = bind_op_def pure_def locked_def advance_revision_def checked_add_def
  checked_sub_def Let_def

lemma demo_admit:
  "admit demo_crates demo_admission demo_token (demo_disk []) =
     (Inr (), demo_disk [(demo_id, demo_run)])"
  by (simp add: admit_def validate_admission_def validate_token_def demo_run_op demo_admission_def
      demo_run_def)

lemma demo_attach:
  "attach demo_crates demo_session (demo_disk [(demo_id, demo_run)]) =
     (Inr (), demo_disk [(demo_id, demo_active)])"
proof -
  have "attach_body demo_session demo_run = Inr ((), Some demo_active)"
    by (simp add: attach_body_def demo_run_op demo_defs)
  from demo_update [where body = "attach_body demo_session", OF _ this] show ?thesis
    by (simp add: attach_def validate_session_def bind_op_def pure_def demo_defs)
qed

lemma demo_reserve_body:
  "u = 1 \<or> u = 2 \<Longrightarrow>
     reserve_body demo_crates (demo_reservation u) now_ms demo_active = Inr (Reserved, Some (demo_pending u))"
  by (auto simp: reserve_body_def demo_run_op demo_defs)

lemma demo_reserve:
  "u = 1 \<or> u = 2 \<Longrightarrow>
     reserve_generated_work demo_crates (demo_reservation u) now_ms (demo_disk [(demo_id, demo_active)])
       = (Inr Reserved, demo_disk [(demo_id, demo_pending u)])"
  using demo_update [where body = "reserve_body demo_crates (demo_reservation u) now_ms",
      OF _ demo_reserve_body [of u]]
  by (auto simp: reserve_generated_work_def validate_reservation_def validate_token_def bind_op_def
      pure_def demo_defs)

lemma demo_reachable_run: "reachable_store demo_crates (demo_disk [(demo_id, demo_run)])"
  by (rule reachable_store.step [OF reachable_store.empty store_step.admit [OF demo_admit]])
    (simp add: demo_disk_def)

lemma demo_reachable_active: "reachable_store demo_crates (demo_disk [(demo_id, demo_active)])"
  by (rule reachable_store.step [OF demo_reachable_run store_step.attach [OF demo_attach]])

lemma demo_reachable_pending:
  "u = 1 \<or> u = 2 \<Longrightarrow> reachable_store demo_crates (demo_disk [(demo_id, demo_pending u)])"
  using reachable_store.step [OF demo_reachable_active store_step.reserve [OF demo_reserve]] by blast

lemma demo_good: "reachable_store demo_crates d \<Longrightarrow> all_good run_ok d"
  by (rule reachable_runs_ok)

end
