(* ===== verification/Run_Calls.thy ===== *)
theory Run_Calls
  imports Run_Safety
begin

section \<open>Each call of the Run store as a move\<close>

text \<open>
  The abstract machine behind the Run lifecycle, labelled by the calls: \<open>moves\<close> lists, call by
  call, from which phase it may take a Run to which, under which guard, and what it leaves alone.
  \<open>performs\<close> is the call of the store itself, whichever faults it meets. That every call only makes
  its own moves is shown operation by operation.
\<close>

subsection \<open>Calls\<close>

datatype run_call = Call_Admit run_admission string
  | Call_Attach run_session
  | Call_Reserve generated_work_reservation u64
  | Call_Confirm string string string string
  | Call_Release string string string
  | Call_Park_Cold run_draft u64
  | Call_Raise string u64 u64
  | Call_Begin_Resume string u64 string u64 u64
  | Call_Finalize_Resume string u64 string bool
  | Call_Reap u64

fun performs :: "crates \<Rightarrow> run_call \<Rightarrow> run disk \<Rightarrow> run disk \<Rightarrow> bool" where
  "performs c (Call_Admit a token) d d' \<longleftrightarrow> d' = snd (admit c a token d)"
| "performs c (Call_Attach s) d d' \<longleftrightarrow> d' = snd (attach c s d)"
| "performs c (Call_Reserve q now_ms) d d' \<longleftrightarrow> d' = snd (reserve_generated_work c q now_ms d)"
| "performs c (Call_Confirm i token m issue) d d' \<longleftrightarrow> d' = snd (confirm_generated_work c i token m issue d)"
| "performs c (Call_Release i token m) d d' \<longleftrightarrow> d' = snd (release_generated_work c i token m d)"
| "performs c (Call_Park_Cold dr now_ms) d d' \<longleftrightarrow> d' = snd (park_cold c dr now_ms d)"
| "performs c (Call_Raise i e ceiling) d d' \<longleftrightarrow> d' = snd (raise_generated_work_ceiling c i e ceiling d)"
| "performs c (Call_Begin_Resume i e operation now_ms lease) d d' \<longleftrightarrow> d' = snd (begin_resume c i e operation now_ms lease d)"
| "performs c (Call_Finalize_Resume i e operation succeeded) d d' \<longleftrightarrow> d' = snd (finalize_resume c i e operation succeeded d)"
| "performs c (Call_Reap now_ms) d d' \<longleftrightarrow> (\<exists>(f :: nat adapter) w. d' = fst (snd (reap_expired c now_ms f (d, w))))"

subsection \<open>Moves\<close>

abbreviation in_phase :: "run \<Rightarrow> phase \<Rightarrow> bool" where
  "in_phase r p \<equiv> run_state r = phase_name p"

definition fits :: "run \<Rightarrow> u64 \<Rightarrow> bool" where
  "fits r units \<longleftrightarrow> unat (consumed (generated_work r)) + unat (reserved (generated_work r)) + unat units
     \<le> unat (ceiling_units (generated_work r))"

text \<open>What every move of one write has in common: the identity stays and the revision grows by one.\<close>

definition one_write :: "string \<Rightarrow> run \<Rightarrow> run \<Rightarrow> bool" where
  "one_write i r r' \<longleftrightarrow> run_id r = i \<and> run_id r' = i \<and> unat (revision r') = Suc (unat (revision r))"

fun moves :: "crates \<Rightarrow> run_call \<Rightarrow> run \<Rightarrow> run \<Rightarrow> bool" where
  "moves c (Call_Admit a token) r r' \<longleftrightarrow> False"
| "moves c (Call_Attach s) r r' \<longleftrightarrow> one_write (ses_id s) r r'
     \<and> in_phase r Phase_Admitted \<and> in_phase r' Phase_Active
     \<and> session_id r' = Some (ses_session_id s) \<and> agent r' = Some (ses_agent s) \<and> acp_session_id r' = Some (ses_acp_session_id s)
     \<and> generated_work r' = generated_work r \<and> cleanup r' = cleanup r"
| "moves c (Call_Reserve q now_ms) r r' \<longleftrightarrow> one_write (res_run_id q) r r'
     \<and> in_phase r Phase_Active \<and> verify_token c r (res_token q) = Inr ()
     \<and> (if fits r (res_units q)
        then in_phase r' Phase_Active
           \<and> unat (reserved (generated_work r')) = unat (reserved (generated_work r)) + unat (res_units q)
        else in_phase r' Phase_Parked \<and> generated_work r' = generated_work r \<and> parked_at_ms r' = Some now_ms
           \<and> unat (park_expires_at_ms r') = unat now_ms + unat (park_ttl_ms r)
           \<and> triggering_mutation_id r' = Some (res_mutation_id q))"
| "moves c (Call_Confirm i token m issue) r r' \<longleftrightarrow> one_write i r r'
     \<and> run_state r' = run_state r \<and> \<not> in_phase r Phase_Admitted \<and> verify_token c r token = Inr ()
     \<and> m \<in> pend_mutation_id ` set (pending (generated_work r))
     \<and> unat (consumed (generated_work r')) = Suc (unat (consumed (generated_work r)))
     \<and> (\<exists>kd. outputs (generated_work r') = outputs (generated_work r) @
          [\<lparr>out_mutation_id = m, out_kind = kd, out_external_id = issue\<rparr>])"
| "moves c (Call_Release i token m) r r' \<longleftrightarrow> one_write i r r'
     \<and> run_state r' = run_state r \<and> \<not> in_phase r Phase_Admitted \<and> verify_token c r token = Inr ()
     \<and> m \<in> pend_mutation_id ` set (pending (generated_work r))
     \<and> consumed (generated_work r') = consumed (generated_work r) \<and> outputs (generated_work r') = outputs (generated_work r)"
| "moves c (Call_Park_Cold dr now_ms) r r' \<longleftrightarrow> one_write (draft_id dr) r r'
     \<and> (in_phase r Phase_Active \<or> in_phase r Phase_Parked) \<and> in_phase r' Phase_Cold
     \<and> session_id r = Some (draft_session_id dr) \<and> agent r = Some (draft_agent dr) \<and> acp_session_id r = Some (draft_acp_session_id dr)
     \<and> cleanup r' = map (\<lambda>i. \<lparr>issue_id = i, completed = False\<rparr>) (draft_claimed_issue_ids dr)
     \<and> unat (park_expires_at_ms r') = unat now_ms + unat (park_ttl_ms r) \<and> generated_work r' = generated_work r"
| "moves c (Call_Raise i e ceiling) r r' \<longleftrightarrow> one_write i r r' \<and> revision r = e
     \<and> (in_phase r Phase_Parked \<or> in_phase r Phase_Cold) \<and> run_state r' = run_state r
     \<and> ceiling_units (generated_work r) < ceiling
     \<and> generated_work r' = (generated_work r)\<lparr>ceiling_units := ceiling\<rparr>"
| "moves c (Call_Begin_Resume i e operation now_ms lease) r r' \<longleftrightarrow> one_write i r r' \<and> revision r = e
     \<and> (\<forall>a. resume_attempt_of r = Some a \<longrightarrow> operation_id a \<noteq> operation)
     \<and> (in_phase r Phase_Parked \<and> in_phase r' Phase_Active \<or> in_phase r Phase_Cold \<and> in_phase r' Phase_Resuming)
     \<and> (\<exists>a. resume_attempt_of r' = Some a \<and> operation_id a = operation \<and> attempt_result a = run_state r'
          \<and> unat (deadline_ms a) = unat now_ms + unat lease)
     \<and> generated_work r' = generated_work r"
| "moves c (Call_Finalize_Resume i e operation succeeded) r r' \<longleftrightarrow> one_write i r r' \<and> revision r = e
     \<and> (in_phase r Phase_Resuming \<or> in_phase r Phase_Disposed)
     \<and> in_phase r' (if succeeded then Phase_Active else Phase_Cold)
     \<and> (\<exists>a a'. resume_attempt_of r = Some a \<and> operation_id a = operation \<and> attempt_result a = ''resuming''
          \<and> resume_attempt_of r' = Some a' \<and> operation_id a' = operation \<and> attempt_result a' = run_state r')
     \<and> generated_work r' = generated_work r"
| "moves c (Call_Reap now_ms) r r' \<longleftrightarrow> reap_due now_ms r
     \<and> (in_phase r Phase_Cold \<or> in_phase r Phase_Resuming)
     \<and> run_id r' = run_id r \<and> unat (revision r) < unat (revision r') \<and> generated_work r' = generated_work r
     \<and> map issue_id (cleanup r') = map issue_id (cleanup r)
     \<and> (\<forall>k < length (cleanup r). completed (cleanup r ! k) \<longrightarrow> completed (cleanup r' ! k))
     \<and> (run_state r' = run_state r \<or> in_phase r' Phase_Disposed \<and> (\<forall>e \<in> set (cleanup r'). completed e))"

declare moves.simps [simp del]

subsection \<open>The calls on one Run\<close>

text \<open>A call left every record as it was, or replaced the record of one Run by one it moves to.\<close>

definition moved :: "(run \<Rightarrow> run \<Rightarrow> bool) \<Rightarrow> run disk \<Rightarrow> run disk \<Rightarrow> bool" where
  "moved R d d' \<longleftrightarrow> (\<forall>k. lookup_file d' k = lookup_file d k
     \<or> (\<exists>r r'. lookup_file d k = Some (Stored r) \<and> lookup_file d' k = Some (Stored r') \<and> k = run_path (run_id r) \<and> R r r'))"

lemma moved_refl [simp]: "moved R d d"
  by (simp add: moved_def)

lemma moved_update:
  assumes "all_good run_ok d"
    and "\<And>a r r'. load_run c i d = Inr r \<Longrightarrow> run_id r = i \<Longrightarrow> run_ok r \<Longrightarrow> body r = Inr (a, Some r') \<Longrightarrow> R r r'"
  shows "moved R d (snd (locked_update Storage (load_run c i) (run_path i) body d))"
proof -
  obtain x d' where run: "locked_update Storage (load_run c i) (run_path i) body d = (x, d')" by fastforce
  from locked_update_effect [OF run] consider "lookup_file d' = lookup_file d"
    | r a r' where "load_run c i d = Inr r" "body r = Inr (a, Some r')" "lookup_file d' = (lookup_file d)(run_path i \<mapsto> Stored r')"
    by blast
  then show ?thesis
  proof cases
    case (2 r a r')
    from 2(1) have r: "lookup_file d (run_path i) = Some (Stored r)" "run_id r = i" by (simp_all add: results)
    with assms(1) have "run_ok r" by (simp add: all_good_def)
    with assms(2) 2 r have "R r r'" by blast
    with r 2(3) run show ?thesis by (auto simp: moved_def)
  qed (simp add: moved_def run)
qed

lemma moved_validated: "(\<And>a. v = Inr a \<Longrightarrow> moved R d (snd (k a d))) \<Longrightarrow> moved R d (snd (bind_op (pure v) k d))"
  by (cases v) (simp_all add: bind_op_def pure_def)

lemma attach_moves: "all_good run_ok d \<Longrightarrow> moved (moves c (Call_Attach s)) d (snd (attach c s d))"
  unfolding attach_def
  by (intro moved_validated moved_update)
    (auto simp: attach_body_def moves.simps one_write_def Let_def results split: if_splits)

lemma reserve_moves: "all_good run_ok d \<Longrightarrow> moved (moves c (Call_Reserve q now_ms)) d (snd (reserve_generated_work c q now_ms d))"
  unfolding reserve_generated_work_def
proof (intro moved_validated moved_update)
  fix a r r' assume i: "run_id r = res_run_id q" and b: "reserve_body c q now_ms r = Inr (a, Some r')"
  have token: "verify_token c r (res_token q) = Inr ()" using b by (simp add: reserve_body_def results)
  show "moves c (Call_Reserve q now_ms) r r'"
    using reserve_body_writes [OF b]
  proof
    assume "a = Exhausted"
    from reserve_body_Exhausted [OF b [unfolded this]] token i show ?thesis
      by (auto simp: moves.simps one_write_def fits_def)
  next
    assume "a = Reserved"
    from reserve_body_Reserved [OF b [unfolded this]] token i show ?thesis
      by (auto simp: moves.simps one_write_def fits_def)
  qed
qed

lemma position_has: "position (\<lambda>p. pend_mutation_id p = m) ps = Some i \<Longrightarrow> m \<in> pend_mutation_id ` set ps"
  using position_Some [of "\<lambda>p. pend_mutation_id p = m" ps i] by force

lemma confirm_moves: "all_good run_ok d \<Longrightarrow> moved (moves c (Call_Confirm i token m issue)) d (snd (confirm_generated_work c i token m issue d))"
  unfolding confirm_generated_work_def
proof (intro moved_validated moved_update)
  fix a r r' assume i: "run_id r = i" and ok: "run_ok r" and b: "confirm_body c token m issue r = Inr (a, Some r')"
  from confirm_body_Some [OF b] obtain k where k: "position (\<lambda>p. pend_mutation_id p = m) (pending (generated_work r)) = Some k" by blast
  from confirm_body_Some [OF b] position_not_admitted [OF ok k] position_has [OF k] i
  show "moves c (Call_Confirm i token m issue) r r'" by (auto simp: moves.simps one_write_def)
qed

lemma release_moves: "all_good run_ok d \<Longrightarrow> moved (moves c (Call_Release i token m)) d (snd (release_generated_work c i token m d))"
  unfolding release_generated_work_def
proof (intro moved_validated moved_update)
  fix a r r' assume i: "run_id r = i" and ok: "run_ok r" and b: "release_body c token m r = Inr (a, Some r')"
  from b obtain k where k: "position (\<lambda>p. pend_mutation_id p = m) (pending (generated_work r)) = Some k"
    by (auto simp: release_body_def Let_def results split: option.splits)
  from b k position_not_admitted [OF ok k] position_has [OF k] i
  show "moves c (Call_Release i token m) r r'" by (auto simp: release_body_def moves.simps one_write_def Let_def results)
qed

lemma park_cold_moves: "all_good run_ok d \<Longrightarrow> moved (moves c (Call_Park_Cold dr now_ms)) d (snd (park_cold c dr now_ms d))"
  unfolding park_cold_def
proof (intro moved_validated moved_update)
  fix a r r' assume i: "run_id r = draft_id dr" and b: "park_cold_body dr now_ms r = Inr (a, Some r')"
  have same: "session_id r = Some (draft_session_id dr)" "agent r = Some (draft_agent dr)" "acp_session_id r = Some (draft_acp_session_id dr)"
    using b by (simp_all add: park_cold_body_def split: if_split_asm)
  from park_cold_body_Some [OF b] same i show "moves c (Call_Park_Cold dr now_ms) r r'" by (auto simp: moves.simps one_write_def)
qed

lemma raise_moves: "all_good run_ok d \<Longrightarrow> moved (moves c (Call_Raise i e ceiling)) d (snd (raise_generated_work_ceiling c i e ceiling d))"
  unfolding raise_generated_work_ceiling_def
  by (intro moved_validated moved_update)
    (auto simp: raise_body_def moves.simps one_write_def results not_le split: if_splits)

lemma begin_resume_moves:
  "all_good run_ok d \<Longrightarrow> moved (moves c (Call_Begin_Resume i e operation now_ms lease)) d (snd (begin_resume c i e operation now_ms lease d))"
  unfolding begin_resume_def
proof (intro moved_validated moved_update)
  fix a r r' assume i: "run_id r = i" and b: "begin_resume_body e operation now_ms lease r = Inr (a, Some r')"
  have "\<forall>x. resume_attempt_of r = Some x \<longrightarrow> operation_id x \<noteq> operation"
    using b by (auto simp: begin_resume_body_def results split: if_splits)
  with begin_resume_body_Some [OF b] i show "moves c (Call_Begin_Resume i e operation now_ms lease) r r'"
    by (auto simp: moves.simps one_write_def)
qed

lemma finalize_resume_moves:
  "all_good run_ok d \<Longrightarrow> moved (moves c (Call_Finalize_Resume i e operation succeeded)) d (snd (finalize_resume c i e operation succeeded d))"
  unfolding finalize_resume_def
proof (intro moved_validated moved_update)
  fix a r r' assume i: "run_id r = i" and ok: "run_ok r" and b: "finalize_resume_body e operation succeeded r = Inr (a, Some r')"
  from finalize_resume_body_Some [OF b] obtain at where at: "resume_attempt_of r = Some at" "attempt_result at = ''resuming''" by blast
  from finalize_resume_body_Some [OF b] open_attempt_states [OF ok at] i
  show "moves c (Call_Finalize_Resume i e operation succeeded) r r'" by (auto simp: moves.simps one_write_def)
qed

subsection \<open>Admission\<close>

text \<open>The one call that creates a record, and only where there was none.\<close>

lemma admit_moves:
  assumes "snd (admit c a token d) = d'"
  shows "lookup_file d' = lookup_file d \<or>
    lookup_file d (run_path (adm_id a)) = None
      \<and> lookup_file d' = (lookup_file d)(run_path (adm_id a) \<mapsto> Stored (admitted_run c a token))"
proof (cases "validate_admission c a = Inr () \<and> validate_token token = Inr () \<and> lock_ok d \<and> lookup_file d (run_path (adm_id a)) = None")
  case True
  obtain x e where w: "write_op Storage (run_path (adm_id a)) (admitted_run c a token) d = (x, e)" by fastforce
  with True assms have "d' = e"
    by (auto simp: admit_def bind_op_def pure_def locked_def Let_def split: if_splits)
  with write_op_cases [OF w] True show ?thesis by auto
next
  case False
  with assms have "d' = d"
    by (cases "validate_admission c a"; cases "validate_token token")
      (auto simp: admit_def bind_op_def pure_def locked_def Let_def split: if_splits)
  then show ?thesis by simp
qed

subsection \<open>The reaper\<close>

text \<open>What the claims of a Run went through, and with them the whole record.\<close>

definition claims_grow :: "run \<Rightarrow> run \<Rightarrow> bool" where
  "claims_grow r r' \<longleftrightarrow> run_id r' = run_id r \<and> unat (revision r) \<le> unat (revision r') \<and> generated_work r' = generated_work r
     \<and> run_state r' = run_state r \<and> map issue_id (cleanup r') = map issue_id (cleanup r)
     \<and> (\<forall>k < length (cleanup r). completed (cleanup r ! k) \<longrightarrow> completed (cleanup r' ! k))
     \<and> (r' = r \<or> unat (revision r) < unat (revision r'))"

lemma claims_grow_refl: "claims_grow r r"
  by (simp add: claims_grow_def)

lemma claims_grow_trans: "claims_grow r s \<Longrightarrow> claims_grow s t \<Longrightarrow> claims_grow r t"
  unfolding claims_grow_def by (metis le_trans length_map less_le_trans le_less_trans order_less_imp_le)

lemma claims_grow_mark:
  assumes "advance_revision (mark_completed k r) = Inr r'" and "k < length (cleanup r)"
  shows "claims_grow r r'"
  using assms by (auto simp: claims_grow_def mark_completed_def results map_update_same nth_list_update)

text \<open>Whatever the adapter answers and whichever write fails, the record on disk only grew its claims.\<close>

lemma reap_claims_grows:
  "reap_claims f i ks r (d, w) = (x, (d', w')) \<Longrightarrow> lookup_file d (run_path i) = Some (Stored r) \<Longrightarrow>
     \<forall>k \<in> set ks. k < length (cleanup r) \<Longrightarrow>
     \<exists>r'. lookup_file d' = (lookup_file d)(run_path i \<mapsto> Stored r') \<and> claims_grow r r' \<and> (\<forall>s fl. x = Inr (s, fl) \<longrightarrow> s = r')"
proof (induction ks arbitrary: r d w)
  case Nil
  then show ?case by (intro exI [of _ r]) (auto simp: claims_grow_refl fun_upd_idem)
next
  case (Cons k ks)
  have here: ?case if "d' = d" "\<And>s fl. x = Inr (s, fl) \<Longrightarrow> s = r"
    using that Cons.prems(2) claims_grow_refl by (intro exI [of _ r]) (simp add: fun_upd_idem)
  show ?case
  proof (cases "completed (cleanup r ! k)")
    case True
    with Cons show ?thesis by simp
  next
    case open_claim: False
    show ?thesis
    proof (cases "session_id r")
      case None
      with open_claim Cons.prems(1) show ?thesis by (intro here) auto
    next
      case (Some sid)
      obtain y w1 where f: "f \<lparr>reap_issue_id = issue_id (cleanup r ! k), reap_actor = ''reaper/'' @ sid\<rparr> w = (y, w1)" by fastforce
      show ?thesis
      proof (cases "is_ok y \<and> is_ok (advance_revision (mark_completed k r))")
        case False
        with open_claim Some f Cons.prems(1) show ?thesis
          by (intro here) (auto simp: is_ok_iff split: sum.splits)
      next
        case True
        then obtain u r1 where y: "y = Inr u" and adv: "advance_revision (mark_completed k r) = Inr r1" by (auto simp: is_ok_iff)
        have g: "claims_grow r r1" by (rule claims_grow_mark [OF adv]) (use Cons.prems(3) in simp)
        obtain z d1 where wr: "write_op Storage (run_path i) r1 d = (z, d1)" by fastforce
        show ?thesis
        proof (cases z)
          case (Inl e)
          with open_claim Some f y adv wr Cons.prems(1) have "d' = d1" "x = Inl e" by simp_all
          from write_op_cases [OF wr] show ?thesis
          proof
            assume "lookup_file d1 = lookup_file d"
            with \<open>d' = d1\<close> \<open>x = Inl e\<close> Cons.prems(2) show ?thesis
              by (intro exI [of _ r]) (simp add: fun_upd_idem claims_grow_refl)
          next
            assume "lookup_file d1 = (lookup_file d)(run_path i \<mapsto> Stored r1)"
            with \<open>d' = d1\<close> \<open>x = Inl e\<close> g show ?thesis by (intro exI [of _ r1]) simp
          qed
        next
          case (Inr v)
          with open_claim Some f y adv wr Cons.prems(1) have rest: "reap_claims f i ks r1 (d1, w1) = (x, (d', w'))" by simp
          have d1: "lookup_file d1 = (lookup_file d)(run_path i \<mapsto> Stored r1)"
            using wr Inr write_atomic_ok by (fastforce simp: results)
          have "length (cleanup r1) = length (cleanup r)" using g unfolding claims_grow_def by (metis length_map)
          with Cons.prems(3) have bound: "\<forall>k \<in> set ks. k < length (cleanup r1)" by simp
          from d1 have "lookup_file d1 (run_path i) = Some (Stored r1)" by simp
          from Cons.IH [OF rest this bound] obtain r' where d': "lookup_file d' = (lookup_file d1)(run_path i \<mapsto> Stored r')"
            and r': "claims_grow r1 r'" "\<forall>s fl. x = Inr (s, fl) \<longrightarrow> s = r'" by blast
          have "lookup_file d' = (lookup_file d)(run_path i \<mapsto> Stored r')" unfolding d' d1 by (rule fun_upd_upd)
          with r' claims_grow_trans [OF g] show ?thesis by blast
        qed
      qed
    qed
  qed
qed

lemma growing_moves:
  assumes "reap_due now_ms r" and "claims_grow r r'" and "r' \<noteq> r"
  shows "moves c (Call_Reap now_ms) r r'"
  using assms reap_due_reaping [OF assms(1)] by (auto simp: moves.simps claims_grow_def reaping_def)

lemma disposing_moves:
  assumes "reap_due now_ms r" and "claims_grow r r1" and "advance_revision (r1\<lparr>run_state := ''disposed''\<rparr>) = Inr r2"
    and "\<forall>e \<in> set (cleanup r1). completed e"
  shows "moves c (Call_Reap now_ms) r r2"
  using assms reap_due_reaping [OF assms(1)] by (auto simp: moves.simps claims_grow_def reaping_def results)

lemma reap_moves_trans:
  "moves c (Call_Reap now_ms) r s \<Longrightarrow> moves c (Call_Reap now_ms) s t \<Longrightarrow> moves c (Call_Reap now_ms) r t"
proof -
  assume one: "moves c (Call_Reap now_ms) r s" and two: "moves c (Call_Reap now_ms) s t"
  have "\<not> in_phase s Phase_Disposed" using two by (auto simp: moves.simps)
  with one have st: "run_state s = run_state r" by (auto simp: moves.simps)
  have len: "length (cleanup s) = length (cleanup r)" using one unfolding moves.simps by (metis length_map)
  with one two have "\<forall>k < length (cleanup r). completed (cleanup r ! k) \<longrightarrow> completed (cleanup t ! k)" unfolding moves.simps by metis
  with one two st show ?thesis unfolding moves.simps by simp
qed

lemma moved_trans:
  assumes "moved R d e" and "moved R e f" and "\<And>r s t. R r s \<Longrightarrow> R s t \<Longrightarrow> R r t"
  shows "moved R d f"
  unfolding moved_def
proof
  fix k
  from assms(1) have one: "lookup_file e k = lookup_file d k \<or> (\<exists>r s. lookup_file d k = Some (Stored r)
      \<and> lookup_file e k = Some (Stored s) \<and> k = run_path (run_id r) \<and> R r s)" unfolding moved_def by blast
  from assms(2) have two: "lookup_file f k = lookup_file e k \<or> (\<exists>s t. lookup_file e k = Some (Stored s)
      \<and> lookup_file f k = Some (Stored t) \<and> k = run_path (run_id s) \<and> R s t)" unfolding moved_def by blast
  from one show "lookup_file f k = lookup_file d k \<or> (\<exists>r t. lookup_file d k = Some (Stored r)
      \<and> lookup_file f k = Some (Stored t) \<and> k = run_path (run_id r) \<and> R r t)"
  proof
    assume "lookup_file e k = lookup_file d k"
    with two show ?thesis by simp
  next
    assume "\<exists>r s. lookup_file d k = Some (Stored r) \<and> lookup_file e k = Some (Stored s) \<and> k = run_path (run_id r) \<and> R r s"
    then obtain r s where r: "lookup_file d k = Some (Stored r)" "lookup_file e k = Some (Stored s)" "k = run_path (run_id r)" "R r s" by blast
    from two r(2) have "lookup_file f k = Some (Stored s) \<or> (\<exists>t. lookup_file f k = Some (Stored t) \<and> R s t)" by auto
    with r assms(3) show ?thesis by blast
  qed
qed

lemmas moved_reap_trans = moved_trans [where R = "moves c (Call_Reap now_ms)" for c now_ms, OF _ _ reap_moves_trans]

lemma moved_one:
  assumes "lookup_file d (run_path i) = Some (Stored r)" and "run_id r = i" and "r' = r \<or> R r r'"
    and "lookup_file d' = (lookup_file d)(run_path i \<mapsto> Stored r')"
  shows "moved R d d'"
  using assms by (auto simp: moved_def)

lemma reap_one_moves:
  assumes ok: "all_good run_ok d" and run: "reap_one c now_ms f i sm (d, w) = (x, (d', w'))"
  shows "moved (moves c (Call_Reap now_ms)) d d'" (is "moved ?R d d'")
proof (cases "\<exists>r. load_run c i d = Inr r \<and> reap_due now_ms r")
  case False
  with run have "d' = d" by (cases "load_run c i d") (auto simp: reap_one_def bind_op_def read_op_def pure_def)
  then show ?thesis by simp
next
  case True
  then obtain r where l: "load_run c i d = Inr r" and due: "reap_due now_ms r" by blast
  then have r: "lookup_file d (run_path i) = Some (Stored r)" "run_id r = i" by (simp_all add: results)
  obtain y d1 w1 where cl: "reap_claims f i [0..<length (cleanup r)] r (d, w) = (y, (d1, w1))"
    by (metis prod.exhaust)
  have bound: "\<forall>k \<in> set [0..<length (cleanup r)]. k < length (cleanup r)" by simp
  from reap_claims_grows [OF cl r(1) bound] obtain r1 where d1: "lookup_file d1 = (lookup_file d)(run_path i \<mapsto> Stored r1)"
    "claims_grow r r1" and same: "\<And>s fl. y = Inr (s, fl) \<Longrightarrow> s = r1" by blast
  have "r1 = r \<or> ?R r r1" using growing_moves [OF due d1(2)] by blast
  with moved_one [where R = ?R, OF r _ d1(1)] have grown: ?thesis if "d' = d1" using that by blast
  show ?thesis
  proof (cases "\<exists>s r2. y = Inr (s, None) \<and> advance_revision (s\<lparr>run_state := ''disposed''\<rparr>) = Inr r2")
    case False
    with run l due cl have "d' = d1"
      by (cases y) (auto simp: reap_one_def bind_op_def read_op_def pure_def split: option.splits sum.splits)
    then show ?thesis by (rule grown)
  next
    case True
    then obtain r2 where y: "y = Inr (r1, None)" and adv: "advance_revision (r1\<lparr>run_state := ''disposed''\<rparr>) = Inr r2"
      using same by blast
    obtain z e where wr: "write_op Storage (run_path i) r2 d1 = (z, e)" by fastforce
    have e: "d' = e" using run l due cl y adv wr
      by (cases z) (auto simp: reap_one_def bind_op_def read_op_def pure_def)
    from reap_claims_safe [OF ok r(1) reap_due_reaping [OF due] bound cl] y
    have "\<forall>e \<in> set (cleanup r1). completed e"
      by (intro all_completed_range [of "cleanup r"]) (auto simp: reaped_from_def)
    note disposed = disposing_moves [OF due d1(2) adv this, of c]
    from write_op_cases [OF wr] e d1(1) consider "lookup_file d' = (lookup_file d)(run_path i \<mapsto> Stored r1)"
      | "lookup_file d' = (lookup_file d)(run_path i \<mapsto> Stored r2)" by auto
    then show ?thesis
    proof cases
      case 1
      have "r1 = r \<or> ?R r r1" using growing_moves [OF due d1(2)] by blast
      from moved_one [where R = ?R, OF r this 1] show ?thesis .
    next
      case 2
      from moved_one [where R = ?R, OF r disjI2 [OF disposed] 2] show ?thesis .
    qed
  qed
qed

lemma reap_all_moves:
  "all_good run_ok d \<Longrightarrow> reap_all c now_ms f is sm (d, w) = (x, (d', w')) \<Longrightarrow> moved (moves c (Call_Reap now_ms)) d d'"
proof (induction "is" arbitrary: sm d w)
  case Nil
  then show ?case by (simp add: pure_def)
next
  case (Cons i "is")
  obtain y d1 w1 where one: "reap_one c now_ms f i sm (d, w) = (y, (d1, w1))" by (metis prod.exhaust)
  note m = reap_one_moves [OF Cons.prems(1) one] and g = reap_one_cases [OF Cons.prems(1) one, THEN conjunct1]
  show ?case
  proof (cases y)
    case (Inl e)
    with Cons.prems(2) one m show ?thesis by (simp add: bind_op_def)
  next
    case (Inr sm')
    with Cons.prems(2) one have "reap_all c now_ms f is sm' (d1, w1) = (x, (d', w'))" by (simp add: bind_op_def)
    from moved_reap_trans [OF m Cons.IH [OF g this]] show ?thesis .
  qed
qed

lemma reap_moves:
  assumes "all_good run_ok d" and "reap_expired c now_ms f (d, w) = (x, (d', w'))"
  shows "moved (moves c (Call_Reap now_ms)) d d'"
proof (cases "lock_ok d \<and> listable d")
  case True
  obtain y d1 w1 where all: "reap_all c now_ms f (run_ids c d) \<lparr>disposed_count = 0, failed_runs = []\<rparr> (d, w) = (y, (d1, w1))"
    by (metis prod.exhaust)
  with True assms(2) have "d' = d1" by (auto simp: reap_expired_def split: if_splits)
  with reap_all_moves [OF assms(1) all] show ?thesis by simp
next
  case False
  with assms(2) have "d' = d" by (auto simp: reap_expired_def split: if_splits)
  then show ?thesis by simp
qed

subsection \<open>Every call makes its own moves\<close>

lemma performs_moves:
  assumes "performs c call d d'" and "all_good run_ok d" and "\<nexists>a token. call = Call_Admit a token"
  shows "moved (moves c call) d d'"
proof (cases call)
  case (Call_Reap now_ms)
  with assms(1) obtain f w where "d' = fst (snd (reap_expired c now_ms (f :: nat adapter) (d, w)))" by auto
  then obtain x w' where "reap_expired c now_ms f (d, w) = (x, (d', w'))" by (metis prod.collapse)
  from reap_moves [OF assms(2) this] Call_Reap show ?thesis by simp
qed (use assms attach_moves reserve_moves confirm_moves release_moves park_cold_moves raise_moves begin_resume_moves
    finalize_resume_moves in simp_all)

lemma performs_step: "performs c call d d' \<Longrightarrow> store_step c d d'"
proof (cases call)
  case (Call_Reap now_ms)
  assume "performs c call d d'"
  with Call_Reap obtain f w where "d' = fst (snd (reap_expired c now_ms (f :: nat adapter) (d, w)))" by auto
  then obtain x w' where "reap_expired c now_ms f (d, w) = (x, (d', w'))" by (metis prod.collapse)
  then show ?thesis by (rule store_step.reap)
qed (auto intro: store_step.intros prod.collapse [symmetric])

end
