(* ===== verification/Run_Reaper.thy ===== *)
theory Run_Reaper
  imports Run_Safety
begin

section \<open>A reaping pass and what its adapter answered\<close>

text \<open>
  The adapter that releases a claim is a parameter of the reaper. \<open>logged\<close> runs it and keeps the
  list of its calls with the answers; a pass that ended well is then described Run by Run from that
  list: which claims were released, at which one the pass stopped, and what became of the record.
\<close>

definition logged :: "'w adapter \<Rightarrow> ('w \<times> (reap_action \<times> (string + unit)) list) adapter" where
  "logged f a wl = (case f a (fst wl) of (x, w) \<Rightarrow> (x, (w, snd wl @ [(a, x)])))"

definition claim_action :: "string \<Rightarrow> cleanup_entry \<Rightarrow> reap_action" where
  "claim_action sid e = \<lparr>reap_issue_id = issue_id e, reap_actor = ''reaper/'' @ sid\<rparr>"

text \<open>The calls for the claims that were still open, all answered well.\<close>

definition releases :: "string \<Rightarrow> cleanup_entry list \<Rightarrow> (reap_action \<times> (string + unit)) list" where
  "releases sid es = map (\<lambda>e. (claim_action sid e, Inr ())) (filter (\<lambda>e. \<not> completed e) es)"

definition complete :: "cleanup_entry \<Rightarrow> cleanup_entry" where
  "complete e = e\<lparr>completed := True\<rparr>"

lemma releases_simps [simp]:
  "releases sid [] = []"
  "releases sid (e # es) = (if completed e then releases sid es else (claim_action sid e, Inr ()) # releases sid es)"
  by (simp_all add: releases_def)

lemma complete_idle [simp]: "completed e \<Longrightarrow> complete e = e"
  by (cases e) (simp add: complete_def)

lemma logged_eq: "f a w = (y, w') \<Longrightarrow> logged f a (w, l) = (y, (w', l @ [(a, y)]))"
  by (simp add: logged_def)

subsection \<open>The claims of one Run\<close>

text \<open>The claims that a pass walked over, the ones it did not reach, and the answer it stopped at.\<close>

definition walked ::
  "string \<Rightarrow> cleanup_entry list \<Rightarrow> cleanup_entry list \<Rightarrow> string option \<Rightarrow> (reap_action \<times> (string + unit)) list \<Rightarrow> bool" where
  "walked sid before after failure calls \<longleftrightarrow>
     (case failure of
        None \<Rightarrow> after = [] \<and> calls = releases sid before
      | Some e \<Rightarrow> (\<exists>b rest. after = b # rest \<and> \<not> completed b \<and> calls = releases sid before @ [(claim_action sid b, Inl e)]))"

lemma walked_released:
  "walked sid before after failure calls \<Longrightarrow> completed e \<Longrightarrow> walked sid (e # before) after failure calls"
  "walked sid before after failure calls \<Longrightarrow> \<not> completed e \<Longrightarrow>
     walked sid (e # before) after failure ((claim_action sid e, Inr ()) # calls)"
  by (auto simp: walked_def split: option.splits)

lemma reap_claims_walks:
  "reap_claims (logged f) i [length done_before..<length done_before + length es] r (d, (w, log)) = (Inr (r', failure), (d', (w', log'))) \<Longrightarrow>
     session_id r = Some sid \<Longrightarrow> cleanup r = done_before @ es \<Longrightarrow> lookup_file d (run_path i) = Some (Stored r) \<Longrightarrow>
     \<exists>before after calls. es = before @ after \<and> cleanup r' = done_before @ map complete before @ after
       \<and> log' = log @ calls \<and> walked sid before after failure calls
       \<and> run_state r' = run_state r \<and> lookup_file d' (run_path i) = Some (Stored r')"
proof (induction es arbitrary: done_before r d w log)
  case Nil
  then show ?case by (auto simp: walked_def)
next
  case (Cons e es)
  let ?k = "length done_before" and ?a = "claim_action sid e"
  have ks: "[?k..<?k + length (e # es)] = ?k # [length (done_before @ [e'])..<length (done_before @ [e']) + length es]" for e' :: cleanup_entry
    by (simp add: upt_rec)
  have at: "cleanup r ! ?k = e" using Cons.prems(3) by simp
  show ?case
  proof (cases "completed e")
    case True
    with Cons.prems(1) at have "reap_claims (logged f) i [length (done_before @ [e])..<length (done_before @ [e]) + length es] r (d, (w, log))
        = (Inr (r', failure), (d', (w', log')))" unfolding ks [of e] by simp
    from Cons.IH [OF this Cons.prems(2) _ Cons.prems(4)] Cons.prems(3) obtain before after calls where
      "es = before @ after" "cleanup r' = (done_before @ [e]) @ map complete before @ after" "log' = log @ calls"
      "walked sid before after failure calls" "run_state r' = run_state r" "lookup_file d' (run_path i) = Some (Stored r')" by auto
    with True walked_released(1) show ?thesis
      by (intro exI [of _ "e # before"] exI [of _ after] exI [of _ calls]) simp
  next
    case False
    obtain y w1 where f: "f ?a w = (y, w1)" by fastforce
    note answer = logged_eq [where f = f, OF f, of log]
    have act: "\<lparr>reap_issue_id = issue_id (cleanup r ! ?k), reap_actor = ''reaper/'' @ sid\<rparr> = ?a" by (simp add: claim_action_def at)
    show ?thesis
    proof (cases y)
      case (Inl x)
      with Cons.prems(1) False Cons.prems(2) at answer act have "r' = r" "failure = Some x" "d' = d" "log' = log @ [(?a, Inl x)]"
        unfolding ks [of e] by simp_all
      with Cons.prems(3,4) False show ?thesis
        by (intro exI [of _ "[]"] exI [of _ "e # es"] exI [of _ "[(?a, Inl x)]"]) (simp add: walked_def)
    next
      case (Inr u)
      with Cons.prems(1) False Cons.prems(2) at answer act obtain r1 d1 where adv: "advance_revision (mark_completed ?k r) = Inr r1"
        and wr: "write_op Storage (run_path i) r1 d = (Inr (), d1)"
        and rest: "reap_claims (logged f) i [length (done_before @ [complete e])..<length (done_before @ [complete e]) + length es] r1
          (d1, (w1, log @ [(?a, Inr ())])) = (Inr (r', failure), (d', (w', log')))"
        unfolding ks [of "complete e"] by (auto split: sum.splits prod.splits)
      from adv at Cons.prems(2,3) have r1: "session_id r1 = Some sid" "cleanup r1 = (done_before @ [complete e]) @ es" "run_state r1 = run_state r"
        by (auto simp: mark_completed_def results complete_def)
      have "lookup_file d1 (run_path i) = Some (Stored r1)" using wr write_atomic_ok by (fastforce simp: results)
      from Cons.IH [OF rest r1(1,2) this] r1(3) obtain before after calls where
        "es = before @ after" "cleanup r' = (done_before @ [complete e]) @ map complete before @ after"
        "log' = (log @ [(?a, Inr ())]) @ calls" "walked sid before after failure calls" "run_state r' = run_state r"
        "lookup_file d' (run_path i) = Some (Stored r')" by auto
      with False walked_released(2) show ?thesis
        by (intro exI [of _ "e # before"] exI [of _ after] exI [of _ "(?a, Inr ()) # calls"]) simp
    qed
  qed
qed

subsection \<open>One Run\<close>

text \<open>
  What a pass that ended well owes to the Run \<open>i\<close>, given the adapter calls it made for it: a Run
  that was not due costs no call and stays as it was. For a due Run the open claims were released in
  order; if every answer was good the Run is disposed with all its claims completed, otherwise
  exactly the claims before the failing one are completed, the state stays and the failure is
  reported.
\<close>

definition settled ::
  "crates \<Rightarrow> u64 \<Rightarrow> run disk \<Rightarrow> run disk \<Rightarrow> (string \<times> string) list \<Rightarrow> (reap_action \<times> (string + unit)) list \<Rightarrow> string \<Rightarrow> bool" where
  "settled c now_ms d d' failed calls i \<longleftrightarrow> (\<exists>r. load_run c i d = Inr r \<and>
     (if \<not> reap_due now_ms r
      then lookup_file d' (run_path i) = Some (Stored r) \<and> calls = [] \<and> i \<notin> fst ` set failed
      else \<exists>r' sid before after failure. session_id r = Some sid \<and> lookup_file d' (run_path i) = Some (Stored r')
        \<and> cleanup r = before @ after \<and> cleanup r' = map complete before @ after
        \<and> walked sid before after failure calls
        \<and> (case failure of
             None \<Rightarrow> run_state r' = ''disposed'' \<and> i \<notin> fst ` set failed
           | Some e \<Rightarrow> run_state r' = run_state r \<and> (i, e) \<in> set failed)))"

lemma settled_due:
  assumes "load_run c i d = Inr r" and "reap_due now_ms r" and "session_id r = Some sid" and "lookup_file d' (run_path i) = Some (Stored r')"
    and "cleanup r = before @ after" and "cleanup r' = map complete before @ after" and "walked sid before after failure calls"
    and "failure = None \<Longrightarrow> run_state r' = ''disposed'' \<and> i \<notin> fst ` set failed"
    and "\<And>e. failure = Some e \<Longrightarrow> run_state r' = run_state r \<and> (i, e) \<in> set failed"
  shows "settled c now_ms d d' failed calls i"
proof -
  have "case failure of None \<Rightarrow> run_state r' = ''disposed'' \<and> i \<notin> fst ` set failed
      | Some e \<Rightarrow> run_state r' = run_state r \<and> (i, e) \<in> set failed" using assms(8,9) by (cases failure) simp_all
  with assms(1-7) show ?thesis unfolding settled_def by (intro exI [of _ r] conjI) auto
qed

lemma reap_due_attached: "run_ok r \<Longrightarrow> reap_due now_ms r \<Longrightarrow> \<exists>sid. session_id r = Some sid"
  using reap_due_reaping [of now_ms r] run_ok_attached [of r] by (auto simp: reaping_def attached_ok_def)

lemma reap_one_settles:
  assumes "all_good run_ok d" and "i \<notin> fst ` set (failed_runs sm)"
    and "reap_one c now_ms (logged f) i sm (d, (w, log)) = (Inr sm', (d', (w', log')))"
  shows "\<exists>calls. log' = log @ calls \<and> settled c now_ms d d' (failed_runs sm') calls i
    \<and> set (failed_runs sm) \<subseteq> set (failed_runs sm') \<and> fst ` set (failed_runs sm') \<subseteq> insert i (fst ` set (failed_runs sm))"
proof -
  from assms(3) obtain r where l: "load_run c i d = Inr r" 
    by (cases "load_run c i d") (auto simp: reap_one_def bind_op_def read_op_def)
  then have r: "lookup_file d (run_path i) = Some (Stored r)" by (simp add: results)
  show ?thesis
  proof (cases "reap_due now_ms r")
    case False
    with assms(2,3) l r show ?thesis
      by (auto simp: reap_one_def bind_op_def read_op_def pure_def settled_def)
  next
    case True
    from assms(1) r have "run_ok r" by (simp add: all_good_def)
    with True reap_due_attached obtain sid where sid: "session_id r = Some sid" by blast
    from assms(3) l True obtain r1 failure d1 w1 log1 where
        cl: "reap_claims (logged f) i [0..<length (cleanup r)] r (d, (w, log)) = (Inr (r1, failure), (d1, (w1, log1)))"
      and rest: "(case failure of
         Some e \<Rightarrow> pure (Inr (sm\<lparr>failed_runs := failed_runs sm @ [(i, e)]\<rparr>))
       | None \<Rightarrow>
           bind_op (pure (advance_revision (r1\<lparr>run_state := ''disposed''\<rparr>))) (\<lambda>r''.
           \<lambda>(d, w). case write_op Storage (run_path i) r'' d of
             (Inl e, d') \<Rightarrow> (Inl e, (d', w))
           | (Inr _, d') \<Rightarrow> (Inr (sm\<lparr>disposed_count := Suc (disposed_count sm)\<rparr>), (d', w)))) (d1, (w1, log1))
         = (Inr sm', (d', (w', log')))"
      by (auto simp: reap_one_def results)
    from reap_claims_walks [where done_before = "[]", simplified, OF cl sid refl r] obtain before after calls where
      walk: "cleanup r = before @ after" "cleanup r1 = map complete before @ after" "log1 = log @ calls"
        "walked sid before after failure calls" and kept: "run_state r1 = run_state r" "lookup_file d1 (run_path i) = Some (Stored r1)" by blast
    show ?thesis
    proof (cases failure)
      case (Some e)
      with rest have sm': "failed_runs sm' = failed_runs sm @ [(i, e)]" "d' = d1" "log' = log1" by (auto simp: pure_def)
      have "settled c now_ms d d' (failed_runs sm') calls i"
        by (rule settled_due [OF l True sid _ walk(1,2,4)]) (use sm' kept Some in auto)
      with walk(3) sm' show ?thesis by auto
    next
      case None
      with rest obtain r2 where adv: "advance_revision (r1\<lparr>run_state := ''disposed''\<rparr>) = Inr r2"
        and wr: "write_op Storage (run_path i) r2 d1 = (Inr (), d')" and sm': "sm' = sm\<lparr>disposed_count := Suc (disposed_count sm)\<rparr>" "log' = log1"
        by (auto simp: bind_op_def pure_def split: sum.splits prod.splits)
      have "lookup_file d' (run_path i) = Some (Stored r2)" using wr write_atomic_ok by (fastforce simp: results)
      moreover from adv walk(2) have "run_state r2 = ''disposed''" "cleanup r2 = map complete before @ after" by (auto simp: results)
      ultimately have "settled c now_ms d d' (failed_runs sm') calls i"
        using assms(2) by (intro settled_due [OF l True sid _ walk(1) _ walk(4)]) (simp_all add: None sm')
      with walk(3) sm' show ?thesis by auto
    qed
  qed
qed

subsection \<open>A whole pass\<close>

lemma load_run_frame: "lookup_file d' (run_path i) = lookup_file d (run_path i) \<Longrightarrow> load_run c i d' = load_run c i d"
  by (simp add: load_run_def find_run_def read_file_def lookup_file_def)

lemma run_path_inject [simp]: "run_path i = run_path j \<longleftrightarrow> i = j"
  by (simp add: run_path_def)

text \<open>What was settled stays so when other Runs are reaped and other failures reported.\<close>

lemma settled_kept:
  assumes "settled c now_ms d d' failed calls i" and "lookup_file d'' (run_path i) = lookup_file d' (run_path i)"
    and "set failed \<subseteq> set failed'" and "i \<in> fst ` set failed' \<Longrightarrow> i \<in> fst ` set failed"
  shows "settled c now_ms d d'' failed' calls i"
proof -
  from assms(1) obtain r where l: "load_run c i d = Inr r"
    and rest: "if \<not> reap_due now_ms r
      then lookup_file d' (run_path i) = Some (Stored r) \<and> calls = [] \<and> i \<notin> fst ` set failed
      else \<exists>r' sid before after failure. session_id r = Some sid \<and> lookup_file d' (run_path i) = Some (Stored r')
        \<and> cleanup r = before @ after \<and> cleanup r' = map complete before @ after \<and> walked sid before after failure calls
        \<and> (case failure of None \<Rightarrow> run_state r' = ''disposed'' \<and> i \<notin> fst ` set failed
           | Some e \<Rightarrow> run_state r' = run_state r \<and> (i, e) \<in> set failed)" unfolding settled_def by blast
  have report: "(case failure of None \<Rightarrow> P \<and> i \<notin> fst ` set failed | Some e \<Rightarrow> Q \<and> (i, e) \<in> set failed) \<Longrightarrow>
      (case failure of None \<Rightarrow> P \<and> i \<notin> fst ` set failed' | Some e \<Rightarrow> Q \<and> (i, e) \<in> set failed')" for failure P Q
    using assms(3,4) by (cases failure) auto
  show ?thesis
  proof (cases "reap_due now_ms r")
    case False
    with l rest assms(2,4) show ?thesis by (auto simp: settled_def)
  next
    case True
    with rest report have "\<exists>r' sid before after failure. session_id r = Some sid \<and> lookup_file d'' (run_path i) = Some (Stored r')
        \<and> cleanup r = before @ after \<and> cleanup r' = map complete before @ after \<and> walked sid before after failure calls
        \<and> (case failure of None \<Rightarrow> run_state r' = ''disposed'' \<and> i \<notin> fst ` set failed'
           | Some e \<Rightarrow> run_state r' = run_state r \<and> (i, e) \<in> set failed')" unfolding assms(2) by (simp only: not_True_eq_False if_False) blast
    with l True show ?thesis by (simp add: settled_def)
  qed
qed

lemma settled_earlier:
  assumes "settled c now_ms d d' failed calls i" and "lookup_file d0 (run_path i) = lookup_file d (run_path i)"
  shows "settled c now_ms d0 d' failed calls i"
  using assms(1) unfolding settled_def load_run_frame [OF assms(2)] .

lemma reap_all_settles:
  "all_good run_ok d \<Longrightarrow> distinct is \<Longrightarrow> fst ` set (failed_runs sm) \<inter> set is = {} \<Longrightarrow>
   reap_all c now_ms (logged f) is sm (d, (w, log)) = (Inr sm', (d', (w', log'))) \<Longrightarrow>
     (\<exists>calls. log' = log @ concat (map calls is) \<and> (\<forall>i \<in> set is. settled c now_ms d d' (failed_runs sm') (calls i) i))
     \<and> set (failed_runs sm) \<subseteq> set (failed_runs sm')
     \<and> fst ` set (failed_runs sm') \<subseteq> fst ` set (failed_runs sm) \<union> set is"
proof (induction "is" arbitrary: sm d w log)
  case Nil
  then show ?case by (simp add: pure_def)
next
  case (Cons i "is")
  from Cons.prems(4) obtain sm1 d1 w1 log1 where one: "reap_one c now_ms (logged f) i sm (d, (w, log)) = (Inr sm1, (d1, (w1, log1)))"
    and rest: "reap_all c now_ms (logged f) is sm1 (d1, (w1, log1)) = (Inr sm', (d', (w', log')))"
    by (auto simp: results)
  have fresh: "i \<notin> fst ` set (failed_runs sm)" and apart: "i \<notin> set is" "distinct is" using Cons.prems(2,3) by auto
  from reap_one_settles [OF Cons.prems(1) fresh one] obtain calls_i where
    here: "log1 = log @ calls_i" "settled c now_ms d d1 (failed_runs sm1) calls_i i"
    and failed1: "set (failed_runs sm) \<subseteq> set (failed_runs sm1)" "fst ` set (failed_runs sm1) \<subseteq> insert i (fst ` set (failed_runs sm))" by blast
  have good: "all_good run_ok d1" using reap_one_cases [OF Cons.prems(1) one] by blast
  have "fst ` set (failed_runs sm1) \<inter> set is = {}" using failed1(2) Cons.prems(3) apart(1) by auto
  from Cons.IH [OF good apart(2) this rest] obtain calls where
    later: "log' = log1 @ concat (map calls is)" "\<forall>j \<in> set is. settled c now_ms d1 d' (failed_runs sm') (calls j) j"
    and failed: "set (failed_runs sm1) \<subseteq> set (failed_runs sm')" "fst ` set (failed_runs sm') \<subseteq> fst ` set (failed_runs sm1) \<union> set is" by blast
  let ?calls = "calls(i := calls_i)"
  have "settled c now_ms d d' (failed_runs sm') (?calls j) j" if j: "j \<in> set (i # is)" for j
  proof (cases "j = i")
    case True
    have "lookup_file d' (run_path i) = lookup_file d1 (run_path i)" using apart(1) by (intro reap_all_other [OF rest]) auto
    from settled_kept [OF here(2) this failed(1)] failed(2) apart(1) True show ?thesis by auto
  next
    case False
    with j later(2) have "settled c now_ms d1 d' (failed_runs sm') (calls j) j" by simp
    moreover have "lookup_file d (run_path j) = lookup_file d1 (run_path j)" using False by (intro reap_one_other [OF one, symmetric]) simp
    ultimately show ?thesis using settled_earlier False by simp
  qed
  moreover have "map ?calls is = map calls is" using apart(1) by (intro map_cong) auto
  then have "concat (map ?calls (i # is)) = calls_i @ concat (map calls is)" by (simp only: list.map concat.simps fun_upd_same)
  with here(1) later(1) have "log' = log @ concat (map ?calls (i # is))" by (simp only: append_assoc)
  ultimately have "\<exists>calls. log' = log @ concat (map calls (i # is))
      \<and> (\<forall>j \<in> set (i # is). settled c now_ms d d' (failed_runs sm') (calls j) j)" by blast
  moreover have "set (failed_runs sm) \<subseteq> set (failed_runs sm')" using failed1(1) failed(1) by blast
  moreover have "fst ` set (failed_runs sm') \<subseteq> fst ` set (failed_runs sm) \<union> set (i # is)" using failed1(2) failed(2) unfolding list.set by blast
  ultimately show ?case by blast
qed

end
