(* ===== verification/Run_Properties.thy ===== *)
theory Run_Properties
  imports Run_Demo Run_Calls Run_Reaper
begin

section \<open>What the Run store guarantees\<close>

text \<open>
  The properties of \<open>RunStore\<close> over whole histories and single calls: generated-work accounting,
  the lifecycle seen from outside, the exactly-once behaviour of reserve and confirm, the
  capability check, and the reaper. Each property is followed by its use on the Run of
  \<open>Run_Demo\<close>.
\<close>

lemma load_after_write:
  assumes "load_run c i d = Inr r" "lookup_file d' = (lookup_file d)(run_path i \<mapsto> Stored r')"
    "run_id r' = run_id r" "schema_version r' = 4" "revision r' \<noteq> 0"
    "ceiling_units (generated_work r') \<noteq> 0" "park_ttl_ms r' \<noteq> 0"
  shows "load_run c i d' = Inr r'"
  using assms by (simp add: results)

lemma evolvesD:
  "evolves step d d' \<Longrightarrow> lookup_file d k = Some (Stored r) \<Longrightarrow>
     lookup_file d' k = Some (Stored r') \<Longrightarrow> step\<^sup>*\<^sup>* r r'"
  by (fastforce simp: evolves_def)

lemma Suc_word_nonzero: "unat n = Suc m \<Longrightarrow> n \<noteq> 0"
  by auto

text \<open>C1: In every Run record of every directory that a history of store operations, reaping passes
  and storage faults can reach, the reserved units are the sum of the pending units, the
  consumed units are the number of recorded outputs, and together they stay within the ceiling.\<close>

theorem run_budget_safe:
  assumes "reachable_store c d" and "lookup_file d k = Some (Stored r)"
  shows "unat (reserved (generated_work r)) =
        (\<Sum>p\<leftarrow>pending (generated_work r). unat (pend_units p))
      \<and> unat (consumed (generated_work r)) = length (outputs (generated_work r))
      \<and> unat (consumed (generated_work r)) + unat (reserved (generated_work r))
          \<le> unat (ceiling_units (generated_work r))"
proof -
  from reachable_runs_ok [OF assms(1)] assms(2) have "run_ok r" by (simp add: all_good_def)
  then show ?thesis by (simp add: run_ok_def budget_ok_def pending_units_def)
qed

theorem run_budget_safe_witness:
  "unat (consumed (generated_work (demo_pending 2))) + unat (reserved (generated_work (demo_pending 2)))
     \<le> unat (ceiling_units (generated_work (demo_pending 2)))"
  using run_budget_safe [OF demo_reachable_pending [of 2], of "run_path demo_id" "demo_pending 2"]
  by simp

lemma run_steps_monotone:
  "run_step\<^sup>*\<^sup>* r r' \<Longrightarrow> unat (revision r) \<le> unat (revision r') \<and> run_id r' = run_id r
     \<and> park_ttl_ms r' = park_ttl_ms r \<and> generate_token_sha256 r' = generate_token_sha256 r
     \<and> ceiling_units (generated_work r) \<le> ceiling_units (generated_work r')
     \<and> (\<exists>new. outputs (generated_work r') = outputs (generated_work r) @ new)"
proof (induction rule: rtranclp_induct)
  case base
  then show ?case by simp
next
  case (step s t)
  from step.hyps(2) step.IH show ?case by (auto simp: run_step_def)
qed

text \<open>C3: Along every history a Run record never disappears, its revision and its ceiling never
  decrease, its identity and its capability digest never change, and its recorded outputs are
  only appended to.\<close>

theorem run_history_monotone:
  assumes "reachable_store c d" and "(store_step c)\<^sup>*\<^sup>* d d'"
    and "lookup_file d k = Some (Stored r)"
  shows "\<exists>r'. lookup_file d' k = Some (Stored r') \<and> unat (revision r) \<le> unat (revision r')
     \<and> run_id r' = run_id r \<and> generate_token_sha256 r' = generate_token_sha256 r
     \<and> ceiling_units (generated_work r) \<le> ceiling_units (generated_work r')
     \<and> (\<exists>new. outputs (generated_work r') = outputs (generated_work r) @ new)"
proof -
  from history_evolves [OF assms(2) reachable_runs_ok [OF assms(1)]] assms(3)
  obtain r' where "lookup_file d' k = Some (Stored r')" "run_step\<^sup>*\<^sup>* r r'"
    by (auto simp: evolves_def)
  with run_steps_monotone show ?thesis by blast
qed

theorem run_history_monotone_witness:
  "\<exists>r'. lookup_file (demo_disk [(demo_id, demo_pending 1)]) (run_path demo_id) = Some (Stored r')
     \<and> unat (revision demo_active) \<le> unat (revision r')"
proof -
  have "(store_step demo_crates)\<^sup>*\<^sup>* (demo_disk [(demo_id, demo_active)]) (demo_disk [(demo_id, demo_pending 1)])"
    by (rule r_into_rtranclp, rule store_step.reserve [OF demo_reserve]) simp
  from run_history_monotone [OF demo_reachable_active this, of "run_path demo_id" demo_active]
  show ?thesis by auto
qed

text \<open>C2: Every single call on a reachable directory, whatever fault it meets, refines the labelled
  lifecycle machine: each Run record stays as it is or makes exactly the move that the machine
  gives to this call for its own Run, with the phase it must be in, the guard and the fields
  that change; a record is created only by an admission, in phase Admitted, where there was
  none; and every stored state names a phase.\<close>

theorem run_lifecycle_refines:
  assumes "reachable_store c d" and "performs c call d d'"
  shows "(\<forall>r. lookup_file d' k = Some (Stored r) \<longrightarrow> (\<exists>p. in_phase r p))
    \<and> (lookup_file d' k = lookup_file d k
      \<or> (\<exists>r r'. lookup_file d k = Some (Stored r) \<and> lookup_file d' k = Some (Stored r') \<and> k = run_path (run_id r) \<and> moves c call r r')
      \<or> (\<exists>a token. call = Call_Admit a token \<and> k = run_path (adm_id a) \<and> lookup_file d k = None
           \<and> lookup_file d' k = Some (Stored (admitted_run c a token)) \<and> in_phase (admitted_run c a token) Phase_Admitted))"
proof (rule conjI)
  from reachable_runs_ok [OF reachable_store.step [OF assms(1) performs_step [OF assms(2)]]]
  show "\<forall>r. lookup_file d' k = Some (Stored r) \<longrightarrow> (\<exists>p. in_phase r p)" by (auto simp: all_good_def run_ok_def lifecycle_ok_def)
  show "lookup_file d' k = lookup_file d k
      \<or> (\<exists>r r'. lookup_file d k = Some (Stored r) \<and> lookup_file d' k = Some (Stored r') \<and> k = run_path (run_id r) \<and> moves c call r r')
      \<or> (\<exists>a token. call = Call_Admit a token \<and> k = run_path (adm_id a) \<and> lookup_file d k = None
           \<and> lookup_file d' k = Some (Stored (admitted_run c a token)) \<and> in_phase (admitted_run c a token) Phase_Admitted)"
  proof (cases "\<exists>a token. call = Call_Admit a token")
    case True
    then obtain a token where call: "call = Call_Admit a token" by blast
    with assms(2) have run: "snd (admit c a token d) = d'" by simp
    have "in_phase (admitted_run c a token) Phase_Admitted" by (simp add: admitted_run_def)
    moreover from admit_moves [OF run] have "lookup_file d' k = lookup_file d k \<or> k = run_path (adm_id a)
        \<and> lookup_file d k = None \<and> lookup_file d' k = Some (Stored (admitted_run c a token))" by (metis fun_upd_apply)
    ultimately show ?thesis using call by blast
  next
    case False
    from performs_moves [OF assms(2) reachable_runs_ok [OF assms(1)] False] show ?thesis unfolding moved_def by blast
  qed
qed

theorem run_lifecycle_refines_witness:
  "\<exists>call. performs demo_crates call (demo_disk [(demo_id, demo_run)]) (demo_disk [(demo_id, demo_active)])
     \<and> moves demo_crates call demo_run demo_active"
proof -
  let ?call = "Call_Attach demo_session" and ?d = "demo_disk [(demo_id, demo_run)]" and ?d' = "demo_disk [(demo_id, demo_active)]"
  have p: "performs demo_crates ?call ?d ?d'" by (simp add: demo_attach)
  have "demo_active \<noteq> demo_run" by (auto simp: demo_defs dest: arg_cong [where f = run_state])
  with run_lifecycle_refines [OF demo_reachable_run p, of "run_path demo_id"] have "moves demo_crates ?call demo_run demo_active" by auto
  with p show ?thesis by blast
qed

lemma reserve_generated_work_ok:
  assumes "reserve_generated_work c q now_ms d = (Inr a, d')"
  shows "validate_reservation c q = Inr () \<and> (\<exists>r w. load_run c (res_run_id q) d = Inr r
    \<and> reserve_body c q now_ms r = Inr (a, w) \<and> lock_ok d' \<and> unlock_ok d'
    \<and> (case w of None \<Rightarrow> d' = d
        | Some r' \<Rightarrow> lookup_file d' = (lookup_file d)(run_path (res_run_id q) \<mapsto> Stored r')))"
  using assms by (auto simp: reserve_generated_work_def results dest!: locked_update_ok)

lemma reserve_Reserved_effect:
  assumes "reserve_generated_work c q now_ms d = (Inr Reserved, d')"
  shows "\<exists>r r'. load_run c (res_run_id q) d = Inr r \<and> load_run c (res_run_id q) d' = Inr r'
    \<and> run_state r = ''active'' \<and> verify_token c r (res_token q) = Inr ()
    \<and> (\<forall>p \<in> set (pending (generated_work r)). pend_mutation_id p \<noteq> res_mutation_id q)
    \<and> (\<forall>out \<in> set (outputs (generated_work r)). out_mutation_id out \<noteq> res_mutation_id q)
    \<and> unat (reserved (generated_work r')) = unat (reserved (generated_work r)) + unat (res_units q)
    \<and> unat (consumed (generated_work r')) + unat (reserved (generated_work r'))
        \<le> unat (ceiling_units (generated_work r'))
    \<and> pending (generated_work r') = pending (generated_work r) @
        [\<lparr>pend_mutation_id = res_mutation_id q, pend_kind = res_kind q, pend_units = res_units q\<rparr>]
    \<and> unat (revision r') = Suc (unat (revision r)) \<and> run_state r' = ''active''"
proof -
  from reserve_generated_work_ok [OF assms] obtain r w where l: "load_run c (res_run_id q) d = Inr r"
    and b: "reserve_body c q now_ms r = Inr (Reserved, w)"
    and w: "case w of None \<Rightarrow> d' = d
        | Some r' \<Rightarrow> lookup_file d' = (lookup_file d)(run_path (res_run_id q) \<mapsto> Stored r')" by blast
  from reserve_body_Reserved [OF b] obtain held n
    where h: "unat held = unat (reserved (generated_work r)) + unat (res_units q)"
    and n: "unat n = Suc (unat (revision r))"
    and weq: "w = Some (r\<lparr>generated_work := generated_work r\<lparr>reserved := held,
           pending := pending (generated_work r) @ [\<lparr>pend_mutation_id = res_mutation_id q,
             pend_kind = res_kind q, pend_units = res_units q\<rparr>]\<rparr>, revision := n\<rparr>)" by blast
  let ?r' = "r\<lparr>generated_work := generated_work r\<lparr>reserved := held,
           pending := pending (generated_work r) @ [\<lparr>pend_mutation_id = res_mutation_id q,
             pend_kind = res_kind q, pend_units = res_units q\<rparr>]\<rparr>, revision := n\<rparr>"
  from w weq l n have "load_run c (res_run_id q) d' = Inr ?r'"
    by (intro load_after_write [OF l]) (auto simp: results Suc_word_nonzero)
  with l reserve_body_Reserved [OF b] h n show ?thesis
    by (intro exI [of _ r] exI [of _ ?r']) simp
qed

theorem reserve_grants_within_ceiling:
  assumes "reserve_generated_work c q now_ms d = (Inr Reserved, d')"
  shows "\<exists>r r'. load_run c (res_run_id q) d = Inr r \<and> load_run c (res_run_id q) d' = Inr r'
    \<and> run_state r = ''active'' \<and> verify_token c r (res_token q) = Inr ()
    \<and> (\<forall>p \<in> set (pending (generated_work r)). pend_mutation_id p \<noteq> res_mutation_id q)
    \<and> (\<forall>out \<in> set (outputs (generated_work r)). out_mutation_id out \<noteq> res_mutation_id q)
    \<and> unat (reserved (generated_work r')) = unat (reserved (generated_work r)) + unat (res_units q)
    \<and> unat (consumed (generated_work r')) + unat (reserved (generated_work r'))
        \<le> unat (ceiling_units (generated_work r'))
    \<and> pending (generated_work r') = pending (generated_work r) @
        [\<lparr>pend_mutation_id = res_mutation_id q, pend_kind = res_kind q, pend_units = res_units q\<rparr>]
    \<and> unat (revision r') = Suc (unat (revision r)) \<and> run_state r' = ''active''"
  by (rule reserve_Reserved_effect [OF assms])

theorem reserve_grants_within_ceiling_witness:
  "\<exists>r'. load_run demo_crates demo_id (demo_disk [(demo_id, demo_pending 2)]) = Inr r'
     \<and> unat (consumed (generated_work r')) + unat (reserved (generated_work r')) \<le> 2"
  using reserve_grants_within_ceiling [OF demo_reserve [of 2]]
  by (auto simp: demo_defs)

theorem reserve_exhaustion_parks:
  assumes "reserve_generated_work c q now_ms d = (Inr Exhausted, d')" and "d' \<noteq> d"
  shows "\<exists>r r'. load_run c (res_run_id q) d = Inr r \<and> load_run c (res_run_id q) d' = Inr r'
    \<and> unat (ceiling_units (generated_work r)) < unat (consumed (generated_work r))
        + unat (reserved (generated_work r)) + unat (res_units q)
    \<and> generated_work r' = generated_work r
    \<and> run_state r' = ''parked'' \<and> triggering_mutation_id r' = Some (res_mutation_id q)
    \<and> parked_at_ms r' = Some now_ms
    \<and> unat (park_expires_at_ms r') = unat now_ms + unat (park_ttl_ms r)"
proof -
  from reserve_generated_work_ok [OF assms(1)] obtain r w where l: "load_run c (res_run_id q) d = Inr r"
    and b: "reserve_body c q now_ms r = Inr (Exhausted, w)"
    and w: "case w of None \<Rightarrow> d' = d
        | Some r' \<Rightarrow> lookup_file d' = (lookup_file d)(run_path (res_run_id q) \<mapsto> Stored r')" by blast
  from w assms(2) obtain r' where weq: "w = Some r'" by (cases w) auto
  from reserve_body_Exhausted [OF b [unfolded weq]] obtain e n
    where over: "unat (ceiling_units (generated_work r)) < unat (consumed (generated_work r))
        + unat (reserved (generated_work r)) + unat (res_units q)"
    and e: "unat e = unat now_ms + unat (park_ttl_ms r)" and n: "unat n = Suc (unat (revision r))"
    and r': "r' = r\<lparr>run_state := ''parked'', parked_at_ms := Some now_ms, park_expires_at_ms := e,
           triggering_mutation_id := Some (res_mutation_id q), revision := n\<rparr>" by blast
  from w weq l n r' have "load_run c (res_run_id q) d' = Inr r'"
    by (intro load_after_write [OF l]) (auto simp: results Suc_word_nonzero)
  with l over e show ?thesis by (intro exI [of _ r] exI [of _ r']) (simp add: r')
qed

theorem reserve_retry_is_pending:
  assumes "reserve_generated_work c q now_ms d = (Inr Reserved, d')"
  shows "reserve_generated_work c q later d' = (Inr Pending, d')"
proof -
  from reserve_generated_work_ok [OF assms] have v: "validate_reservation c q = Inr ()"
    and ok: "lock_ok d'" "unlock_ok d'" by auto
  from reserve_Reserved_effect [OF assms] obtain r r' where
    l: "load_run c (res_run_id q) d = Inr r" and l': "load_run c (res_run_id q) d' = Inr r'" by blast
  from reserve_generated_work_ok [OF assms] l l' have "verify_token c r (res_token q) = Inr ()
     \<and> generate_token_sha256 r' = generate_token_sha256 r
     \<and> outputs (generated_work r') = outputs (generated_work r)
     \<and> (\<forall>out \<in> set (outputs (generated_work r)). out_mutation_id out \<noteq> res_mutation_id q)
     \<and> (\<exists>p \<in> set (pending (generated_work r')). pend_mutation_id p = res_mutation_id q)"
    by (auto simp: results dest!: reserve_body_Reserved)
  then have "reserve_body c q later r' = Inr (Pending, None)"
    by (auto simp: reserve_body_def Let_def verify_token_def list_ex_iff)
  from locked_update_again [where body = "reserve_body c q later" and load = "load_run c (res_run_id q)", OF ok l' this] v show ?thesis
    by (simp add: reserve_generated_work_def bind_op_def pure_def)
qed

theorem reserve_retry_is_pending_witness:
  "reserve_generated_work demo_crates (demo_reservation 1) 9 (demo_disk [(demo_id, demo_pending 1)])
     = (Inr Pending, demo_disk [(demo_id, demo_pending 1)])"
  using reserve_retry_is_pending [OF demo_reserve [of 1]] by simp

lemma verify_token_frame:
  "generate_token_sha256 r' = generate_token_sha256 r \<Longrightarrow> verify_token c r' t = verify_token c r t"
  by (simp add: verify_token_def)

lemma confirm_generated_work_ok:
  assumes "confirm_generated_work c i token m issue d = (Inr u, d')"
  shows "validate_id c i = Inr () \<and> validate_id c m = Inr () \<and> issue \<noteq> [] \<and> (\<exists>r w. load_run c i d = Inr r
    \<and> confirm_body c token m issue r = Inr ((), w) \<and> lock_ok d' \<and> unlock_ok d'
    \<and> (case w of None \<Rightarrow> d' = d | Some r' \<Rightarrow> lookup_file d' = (lookup_file d)(run_path i \<mapsto> Stored r')))"
proof -
  from assms have v: "validate_id c i = Inr ()" "validate_id c m = Inr ()" "issue \<noteq> []"
    and run: "locked_update Storage (load_run c i) (run_path i) (confirm_body c token m issue) d = (Inr u, d')"
    by (simp_all add: confirm_generated_work_def bind_op_Inr pure_def ensure_def split: if_splits)
  from v locked_update_ok [OF run] show ?thesis by auto
qed

theorem confirm_retry_is_stable:
  assumes run: "confirm_generated_work c i token m issue d = (Inr u, d')"
    and first: "load_run c i d = Inr r" "generated_issue r m = None"
  shows "confirm_generated_work c i token m issue d' = (Inr (), d')"
proof -
  from confirm_generated_work_ok [OF run] first obtain w where v: "validate_id c i = Inr ()"
    "validate_id c m = Inr ()" "issue \<noteq> []" and b: "confirm_body c token m issue r = Inr ((), w)"
    and ok: "lock_ok d'" "unlock_ok d'"
    and w: "case w of None \<Rightarrow> d' = d | Some r' \<Rightarrow> lookup_file d' = (lookup_file d)(run_path i \<mapsto> Stored r')"
    by auto
  from b first(2) obtain r' where weq: "w = Some r'"
    by (cases w) (auto simp: confirm_body_def Let_def results split: if_splits)
  from confirm_body_Some [OF b [unfolded weq]] first
  have tok: "verify_token c r token = Inr ()" and same: "generate_token_sha256 r' = generate_token_sha256 r"
    and outs: "\<exists>kd. outputs (generated_work r') = outputs (generated_work r) @
      [\<lparr>out_mutation_id = m, out_kind = kd, out_external_id = issue\<rparr>]"
    and keep: "run_id r' = run_id r" "schema_version r' = schema_version r"
      "ceiling_units (generated_work r') = ceiling_units (generated_work r)"
      "park_ttl_ms r' = park_ttl_ms r" "revision r' \<noteq> 0" by (auto simp: Suc_word_nonzero)
  from first(1) w weq keep have l': "load_run c i d' = Inr r'"
    by (intro load_after_write [OF first(1)]) (auto simp: results)
  have none: "List.find (\<lambda>out. out_mutation_id out = m) (outputs (generated_work r)) = None"
    using first(2) by (simp add: generated_issue_def)
  have app: "List.find P (xs @ ys) = (case List.find P xs of None \<Rightarrow> List.find P ys | Some x \<Rightarrow> Some x)"
    for P and xs ys :: "generated_output list" by (induction xs) auto
  from outs none have "generated_issue r' m = Some issue"
    by (auto simp: generated_issue_def app)
  with tok same have "confirm_body c token m issue r' = Inr ((), None)"
    by (simp add: confirm_body_def verify_token_frame [OF same])
  from locked_update_again [where body = "confirm_body c token m issue" and load = "load_run c i", OF ok l' this] v
  show ?thesis by (simp add: confirm_generated_work_def bind_op_def pure_def)
qed

definition demo_confirmed :: "u64 \<Rightarrow> string list \<Rightarrow> run" where
  "demo_confirmed left issues = demo_active\<lparr>revision := 3 + of_nat (length issues),
     generated_work := \<lparr>ceiling_units = 2, consumed = of_nat (length issues), reserved = left,
       pending = (if left = 0 then [] else [\<lparr>pend_mutation_id = demo_id,
         pend_kind = ''beads_issue'', pend_units = left\<rparr>]),
       outputs = map (\<lambda>i. \<lparr>out_mutation_id = demo_id, out_kind = ''beads_issue'',
         out_external_id = i\<rparr>) issues\<rparr>\<rparr>"

lemma demo_confirm_body:
  "confirm_body demo_crates demo_token demo_id ''bd-1'' (demo_pending 1)
     = Inr ((), Some (demo_confirmed 0 [''bd-1'']))"
  "confirm_body demo_crates demo_token demo_id ''bd-1'' (demo_pending 2)
     = Inr ((), Some (demo_confirmed 1 [''bd-1'']))"
  by (simp_all add: confirm_body_def generated_issue_def spend_unit_def demo_run_op demo_confirmed_def
      demo_defs)

lemma demo_confirm:
  "confirm_body demo_crates demo_token demo_id ''bd-1'' r = Inr ((), Some r') \<Longrightarrow>
   load_run demo_crates demo_id (demo_disk [(demo_id, r)]) = Inr r \<Longrightarrow>
   confirm_generated_work demo_crates demo_id demo_token demo_id ''bd-1'' (demo_disk [(demo_id, r)])
     = (Inr (), demo_disk [(demo_id, r')])"
  using demo_update [where body = "confirm_body demo_crates demo_token demo_id ''bd-1''"]
  by (simp add: confirm_generated_work_def bind_op_def pure_def)

theorem confirm_retry_is_stable_witness:
  "confirm_generated_work demo_crates demo_id demo_token demo_id ''bd-1''
     (demo_disk [(demo_id, demo_confirmed 0 [''bd-1''])])
     = (Inr (), demo_disk [(demo_id, demo_confirmed 0 [''bd-1''])])"
  using confirm_retry_is_stable [OF demo_confirm [OF demo_confirm_body(1)], of "demo_pending 1"]
  by (simp add: generated_issue_def demo_defs)

theorem multi_unit_retry_spends_again:
  "confirm_generated_work demo_crates demo_id demo_token demo_id ''bd-2''
     (demo_disk [(demo_id, demo_confirmed 2 [''bd-1''])])
     = (Inr (), demo_disk [(demo_id, demo_confirmed 1 [''bd-1'', ''bd-2''])])
   \<and> confirm_generated_work demo_crates demo_id demo_token demo_id ''bd-2''
     (demo_disk [(demo_id, demo_confirmed 1 [''bd-1'', ''bd-2''])])
     = (Inr (), demo_disk [(demo_id, demo_confirmed 0 [''bd-1'', ''bd-2'', ''bd-2''])])"
proof -
  have "confirm_body demo_crates demo_token demo_id ''bd-2'' (demo_confirmed 2 [''bd-1''])
      = Inr ((), Some (demo_confirmed 1 [''bd-1'', ''bd-2'']))"
    "confirm_body demo_crates demo_token demo_id ''bd-2'' (demo_confirmed 1 [''bd-1'', ''bd-2''])
      = Inr ((), Some (demo_confirmed 0 [''bd-1'', ''bd-2'', ''bd-2'']))"
    by (simp_all add: confirm_body_def generated_issue_def spend_unit_def demo_run_op
        demo_confirmed_def demo_defs)
  from this [THEN demo_update [where body = "confirm_body demo_crates demo_token demo_id ''bd-2''", rotated]]
  show ?thesis
    by (simp add: confirm_generated_work_def bind_op_def pure_def demo_confirmed_def demo_defs)
qed

text \<open>C10: On every reachable Run record the unchecked subtractions of confirm and release never go
  below zero.\<close>

theorem accounting_never_underflows:
  assumes "reachable_store c d" and "lookup_file d k = Some (Stored r)"
  shows "confirm_body c token m issue r \<noteq> Inl Arithmetic \<and> release_body c token m r \<noteq> Inl Arithmetic"
proof -
  from reachable_runs_ok [OF assms(1)] assms(2) have b: "budget_ok (generated_work r)"
    by (simp add: all_good_def run_ok_def)
  have pos: "0 < unat (pend_units (pending (generated_work r) ! j)) \<and>
      unat (pend_units (pending (generated_work r) ! j)) \<le> unat (reserved (generated_work r))"
    if j: "position P (pending (generated_work r)) = Some j" for P j
  proof -
    from position_Some [OF j] have jl: "j < length (pending (generated_work r))" by simp
    with b have "0 < pend_units (pending (generated_work r) ! j)" by (simp add: budget_ok_def)
    moreover have "unat (pend_units (pending (generated_work r) ! j)) \<le> pending_units (generated_work r)"
      using sum_list_remove_at [OF jl, of "\<lambda>p. unat (pend_units p)"] by (simp add: pending_units_def)
    ultimately show ?thesis using b by (simp add: budget_ok_def word_pos_iff)
  qed
  have adv: "advance_revision x \<noteq> Inl Arithmetic" for x
    by (simp add: advance_revision_def results)
  have ver: "verify_token c r token \<noteq> Inl Arithmetic"
    by (simp add: verify_token_def validate_token_def Let_def results)
  have "confirm_body c token m issue r \<noteq> Inl Arithmetic"
    using adv ver by (auto simp: confirm_body_def Let_def results word_results split: if_splits dest!: pos)
  moreover have "release_body c token m r \<noteq> Inl Arithmetic"
    using adv ver by (auto simp: release_body_def Let_def results word_results split: option.splits dest!: pos)
  ultimately show ?thesis ..
qed

theorem accounting_never_underflows_witness:
  "confirm_body demo_crates demo_token demo_id ''bd-1'' (demo_pending 1) \<noteq> Inl Arithmetic"
  using accounting_never_underflows [OF demo_reachable_pending [of 1], of "run_path demo_id" "demo_pending 1"]
  by simp

lemma refused_load:
  "body r = Inl e \<Longrightarrow> load d = Inr r \<Longrightarrow> snd (locked_update wrap load k body d) = d
      \<and> (\<forall>a. fst (locked_update wrap load k body d) \<noteq> Inr a)"
  by (simp add: locked_update_def locked_def)

lemma refused_pure:
  "(\<And>u. snd (k u d) = d \<and> (\<forall>a. fst (k u d) \<noteq> Inr a)) \<Longrightarrow>
    snd (bind_op (pure x) k d) = d \<and> (\<forall>a. fst (bind_op (pure x) k d) \<noteq> Inr a)"
  by (cases x) (auto simp: bind_op_def pure_def)

theorem wrong_capability_changes_nothing:
  assumes "load_run c i d = Inr r" and "verify_token c r token = Inl e"
  shows "snd (reserve_generated_work c (q\<lparr>res_run_id := i, res_token := token\<rparr>) now_ms d) = d
    \<and> snd (confirm_generated_work c i token m issue d) = d
    \<and> snd (release_generated_work c i token m d) = d
    \<and> generation_actor c i token d = Inl e \<and> pending_generation_ids c i token d = Inl e
    \<and> (\<forall>a. fst (reserve_generated_work c (q\<lparr>res_run_id := i, res_token := token\<rparr>) now_ms d) \<noteq> Inr a)
    \<and> fst (confirm_generated_work c i token m issue d) \<noteq> Inr ()
    \<and> fst (release_generated_work c i token m d) \<noteq> Inr ()"
proof -
  have "reserve_body c (q\<lparr>res_run_id := i, res_token := token\<rparr>) now_ms r = Inl e"
    "confirm_body c token m issue r = Inl e" "release_body c token m r = Inl e"
    using assms(2) by (simp_all add: reserve_body_def confirm_body_def release_body_def)
  note bodies = refused_load [where body = "reserve_body c (q\<lparr>res_run_id := i, res_token := token\<rparr>) now_ms", OF this(1)]
    refused_load [where body = "confirm_body c token m issue", OF this(2)]
    refused_load [where body = "release_body c token m", OF this(3)]
  show ?thesis
    unfolding reserve_generated_work_def confirm_generated_work_def release_generated_work_def
      generation_actor_def pending_generation_ids_def
    using assms bodies by (simp add: refused_pure)
qed

lemma demo_wrong_token: "verify_token demo_crates demo_active ''short'' = Inl (Invalid ''generate token is malformed'')"
  by (simp add: verify_token_def validate_token_def)

theorem wrong_capability_changes_nothing_witness:
  "generation_actor demo_crates demo_id ''short'' (demo_disk [(demo_id, demo_active)])
     = Inl (Invalid ''generate token is malformed'')"
  using wrong_capability_changes_nothing [where i = demo_id and d = "demo_disk [(demo_id, demo_active)]", OF _ demo_wrong_token]
  by (simp add: demo_defs)

text \<open>C11: The resume finalizer does not look at the lifecycle state: on a disposed Run whose resume
  attempt is still open it succeeds and makes the Run active again.\<close>

theorem finalize_revives_disposed:
  assumes l: "load_run c i d = Inr r" and v: "validate_id c i = Inr ()" "validate_id c operation = Inr ()"
    and st: "run_state r = ''disposed''" and at: "resume_attempt_of r = Some a"
    and op: "operation_id a = operation" "attempt_result a = ''resuming''"
    and room: "unat (revision r) + 1 < 2 ^ 64"
    and disk: "lock_ok d" "unlock_ok d" "write_faults d = []"
  shows "\<exists>d' r'. finalize_resume c i (revision r) operation True d = (Inr Active, d')
    \<and> load_run c i d' = Inr r' \<and> run_state r' = ''active''"
proof -
  have adv: "checked_add (revision r) 1 = Some (revision r + 1)" using room by (simp add: checked_add_def)
  then have n: "unat (revision r + 1) = Suc (unat (revision r))" by (simp add: word_results)
  let ?r' = "r\<lparr>run_state := ''active'', park_expires_at_ms := 0,
    resume_attempt_of := Some \<lparr>operation_id = operation, deadline_ms = deadline_ms a,
      attempt_result = ''active''\<rparr>, revision := revision r + 1\<rparr>"
  have b: "finalize_resume_body (revision r) operation True r = Inr (Active, Some ?r')"
    using adv at op by (simp add: finalize_resume_body_def require_revision_def advance_revision_def)
  let ?d' = "d\<lparr>write_faults := [], files := put_file (run_path i) (Stored ?r') (files d)\<rparr>"
  have run: "finalize_resume c i (revision r) operation True d = (Inr Active, ?d')"
    using v disk l b by (simp add: finalize_resume_def bind_op_def pure_def locked_update_def
        locked_def write_op_def write_atomic_def next_fault_def Let_def)
  have "lookup_file ?d' = (lookup_file d)(run_path i \<mapsto> Stored ?r')"
    by (simp add: lookup_file_def map_of_put_file)
  with l n have "load_run c i ?d' = Inr ?r'"
    by (intro load_after_write [OF l]) (auto simp: results Suc_word_nonzero)
  with run show ?thesis by (intro exI [of _ ?d'] exI [of _ ?r']) simp
qed

theorem finalize_revives_disposed_witness:
  "\<exists>d' r'. finalize_resume demo_crates demo_id 6 demo_id True (demo_disk [(demo_id, demo_disposed)])
     = (Inr Active, d') \<and> load_run demo_crates demo_id d' = Inr r' \<and> run_state r' = ''active''"
  using finalize_revives_disposed [of demo_crates demo_id "demo_disk [(demo_id, demo_disposed)]"
      demo_disposed demo_id "demo_attempt ''resuming''"]
  by (simp add: demo_defs)

lemma run_ids_distinct:
  assumes "distinct (map fst (files d))"
  shows "distinct (run_ids c d)"
proof -
  let ?f = "\<lambda>(name, _ :: run entry).
     case strip_suffix ''.json'' name of
       None \<Rightarrow> None
     | Some i \<Rightarrow> if is_ok (validate_id c i) then Some i else None"
  have name: "?f x = Some i \<Longrightarrow> fst x = i @ ''.json''" for x i
    by (cases x) (auto simp: results split: option.splits if_splits)
  from assms have dist: "distinct (files d)" "inj_on fst (set (files d))"
    by (simp_all add: distinct_map)
  have "inj_on (the \<circ> ?f) (set (filter (\<lambda>x. ?f x \<noteq> None) (files d)))"
  proof (rule inj_onI)
    fix x y assume x: "x \<in> set (filter (\<lambda>x. ?f x \<noteq> None) (files d))"
      and y: "y \<in> set (filter (\<lambda>x. ?f x \<noteq> None) (files d))" and eq: "(the \<circ> ?f) x = (the \<circ> ?f) y"
    from x y obtain i j where ij: "?f x = Some i" "?f y = Some j" by auto
    with eq have "i = j" by simp
    with name [OF ij(1)] name [OF ij(2)] have "fst x = fst y" by (simp only:)
    moreover from x y have "x \<in> set (files d)" "y \<in> set (files d)" by simp_all
    ultimately show "x = y" by (rule inj_onD [OF dist(2)])
  qed
  with dist(1) show ?thesis by (simp add: run_ids_def List.map_filter_def distinct_map)
qed

text \<open>C9: After a reaping pass that ends well, the calls of the adapter and its answers determine
  every listed Run: the calls are those for the listed Runs in order; a Run that was not due
  costs no call and is untouched; for a due Run the open claims were released in order, and
  either every answer was good and it is disposed with all claims completed and not reported, or
  exactly the claims before the first refused one are completed, its state is kept and the
  refusal is reported.\<close>

theorem reap_settles_every_run:
  assumes "reachable_store c d" and "distinct (map fst (files d))"
    and "reap_expired c now_ms (logged f) (d, (w, [])) = (Inr sm, (d', (w', log)))"
  shows "(\<exists>calls. log = concat (map calls (run_ids c d))
      \<and> (\<forall>i \<in> set (run_ids c d). settled c now_ms d d' (failed_runs sm) (calls i) i))
    \<and> fst ` set (failed_runs sm) \<subseteq> set (run_ids c d)"
proof -
  from assms(3) have "reap_all c now_ms (logged f) (run_ids c d) \<lparr>disposed_count = 0, failed_runs = []\<rparr> (d, (w, []))
      = (Inr sm, (d', (w', log)))"
    by (auto simp: reap_expired_def split: if_splits prod.splits)
  from reap_all_settles [OF reachable_runs_ok [OF assms(1)] run_ids_distinct [OF assms(2)] _ this]
  show ?thesis by simp
qed

definition demo_draft :: run_draft where
  "demo_draft = \<lparr>draft_id = demo_id, draft_session_id = ''s1'', draft_agent = ''codex'',
     draft_acp_session_id = ''acp1'', draft_working_dir = ''/w'', draft_load_session = True,
     draft_claimed_issue_ids = [''bd-1'']\<rparr>"

definition demo_released :: run where
  "demo_released = demo_cold\<lparr>revision := 5, run_state := ''disposed'',
     cleanup := [\<lparr>issue_id = ''bd-1'', completed = True\<rparr>]\<rparr>"

lemma demo_park:
  "park_cold demo_crates demo_draft 10 (demo_disk [(demo_id, demo_active)])
     = (Inr (), demo_disk [(demo_id, demo_cold)])"
proof -
  have "park_cold_body demo_draft 10 demo_active = Inr ((), Some demo_cold)"
    by (simp add: park_cold_body_def demo_run_op demo_defs demo_draft_def)
  from demo_update [where body = "park_cold_body demo_draft 10", OF _ this] show ?thesis
    by (simp add: park_cold_def validate_draft_def bind_op_def pure_def demo_defs demo_draft_def)
qed

lemma demo_reachable_cold: "reachable_store demo_crates (demo_disk [(demo_id, demo_cold)])"
  by (rule reachable_store.step [OF demo_reachable_active store_step.park_cold [OF demo_park]])

lemma demo_run_ids: "run_ids demo_crates (demo_disk [(demo_id, r)]) = [demo_id]"
  by (simp add: run_ids_def demo_disk_def run_path_def List.map_filter_def strip_suffix_def)

lemma demo_reap:
  "reap_expired demo_crates 2000 (logged (\<lambda>a n. (Inr (), Suc n))) (demo_disk [(demo_id, demo_cold)], (0, []))
     = (Inr \<lparr>disposed_count = 1, failed_runs = []\<rparr>,
        (demo_disk [(demo_id, demo_released)], (1, [(\<lparr>reap_issue_id = ''bd-1'', reap_actor = ''reaper/s1''\<rparr>, Inr ())])))"
  by (simp add: reap_expired_def demo_run_ids reap_one_def read_op_def reap_due_def reap_deadline_def logged_def
      mark_completed_def demo_run_op demo_defs demo_released_def)

lemma demo_names: "distinct (map fst (files (demo_disk [(demo_id, r)])))"
  by (simp add: demo_disk_def)

theorem reap_settles_every_run_witness:
  "settled demo_crates 2000 (demo_disk [(demo_id, demo_cold)]) (demo_disk [(demo_id, demo_released)]) []
     [(\<lparr>reap_issue_id = ''bd-1'', reap_actor = ''reaper/s1''\<rparr>, Inr ())] demo_id"
  using reap_settles_every_run [OF demo_reachable_cold demo_names demo_reap] by (auto simp: demo_run_ids)

theorem reserve_exhaustion_parks_witness:
  "\<exists>r'. load_run demo_crates demo_id
      (demo_disk [(demo_id, demo_active\<lparr>revision := 3, run_state := ''parked'', parked_at_ms := Some 10,
        park_expires_at_ms := 1010, triggering_mutation_id := Some demo_id\<rparr>)]) = Inr r'
     \<and> run_state r' = ''parked''"
proof -
  let ?r' = "demo_active\<lparr>revision := 3, run_state := ''parked'', parked_at_ms := Some 10,
        park_expires_at_ms := 1010, triggering_mutation_id := Some demo_id\<rparr>"
  have "reserve_body demo_crates (demo_reservation 3) 10 demo_active = Inr (Exhausted, Some ?r')"
    by (simp add: reserve_body_def demo_run_op demo_defs)
  from demo_update [where body = "reserve_body demo_crates (demo_reservation 3) 10", OF _ this]
  have "reserve_generated_work demo_crates (demo_reservation 3) 10 (demo_disk [(demo_id, demo_active)])
      = (Inr Exhausted, demo_disk [(demo_id, ?r')])"
    by (simp add: reserve_generated_work_def validate_reservation_def validate_token_def bind_op_def
      pure_def demo_defs)
  from reserve_exhaustion_parks [OF this] show ?thesis
    by (auto simp: demo_defs demo_disk_def)
qed

end
