(* ===== verification/Merkle.thy ===== *)
theory Merkle
  imports Text
begin

section \<open>The Merkle tree of an Endorsement batch\<close>

text \<open>
  skills-core/src/endorsement/merkle.rs: tree heads and audit paths in the shape of RFC 9162,
  the verifier on 64-bit positions, and the text form of a node. SHA-256 is an argument
  \<open>sha :: u8 list \<Rightarrow> u8 list\<close> (the digest of the concatenated updates); a node is the list of
  its 32 bytes, its width is a hypothesis where a property needs it. \<open>split\<close> counts in
  natural numbers: a slice of 32-byte nodes has fewer than \<open>2 ^ 59\<close> elements, so doubling
  stays below \<open>2 ^ 64\<close>.
\<close>

unbundle bit_operations_syntax

type_synonym node = "u8 list"
type_synonym digest = "u8 list \<Rightarrow> u8 list"

subsection \<open>Hashing and the tree\<close>

definition leaf_hash :: "digest \<Rightarrow> u8 list \<Rightarrow> node" where
  "leaf_hash sha bytes = sha (0 # bytes)"

definition node_hash :: "digest \<Rightarrow> node \<Rightarrow> node \<Rightarrow> node" where
  "node_hash sha l r = sha (1 # l @ r)"

function split_loop :: "nat \<Rightarrow> nat \<Rightarrow> nat" where
  "split_loop half count = (if half * 2 < count \<and> 0 < half then split_loop (half * 2) count else half)"
  by auto
termination
  by (relation "measure (\<lambda>(half, count). count - half)") auto

declare split_loop.simps [simp del]

definition split :: "nat \<Rightarrow> nat" where
  "split count = split_loop 1 count"

lemma split_loop_spec:
  "2 ^ a < count \<Longrightarrow> \<exists>h. split_loop (2 ^ a) count = 2 ^ h \<and> 2 ^ h < count \<and> count \<le> 2 * 2 ^ h"
proof (induction "2 ^ a :: nat" count arbitrary: a rule: split_loop.induct)
  case (1 count)
  show ?case
  proof (cases "2 ^ a * 2 < count")
    case True
    then have "2 ^ Suc a < count" by simp
    from "1.hyps" [OF _ _ this] True show ?thesis
      by (subst split_loop.simps) (simp add: mult.commute)
  next
    case False
    with "1.prems" show ?thesis
      by (subst split_loop.simps) (auto intro!: exI [of _ a])
  qed
qed

lemma split_spec:
  assumes "2 \<le> count"
  obtains h where "split count = 2 ^ h" "2 ^ h < count" "count \<le> 2 * 2 ^ h"
  using split_loop_spec [of 0 count] assms by (auto simp: split_def)

lemma split_bounds [simp]: "2 \<le> count \<Longrightarrow> 0 < split count" "2 \<le> count \<Longrightarrow> split count < count"
  by (auto elim: split_spec)

lemma split_double: "split (2 * 2 ^ h) = 2 ^ h"
proof -
  have "(1::nat) \<le> 2 ^ h" by (rule one_le_power) simp
  then have "2 \<le> 2 * (2::nat) ^ h" by linarith
  then obtain k where k: "split (2 * 2 ^ h) = 2 ^ k" "2 ^ k < (2::nat) * 2 ^ h" "2 * 2 ^ h \<le> (2::nat) * 2 ^ k"
    by (rule split_spec)
  from k(2) have "2 ^ k < (2::nat) ^ Suc h" by simp
  then have "k < Suc h" by (simp only: power_strict_increasing_iff)
  moreover from k(3) have "(2::nat) ^ h \<le> 2 ^ k" by simp
  then have "h \<le> k" by (simp only: power_increasing_iff)
  ultimately show ?thesis using k(1) by simp
qed

function root :: "digest \<Rightarrow> node list \<Rightarrow> node option" where
  "root sha leaves =
     (case leaves of [] \<Rightarrow> None | [only] \<Rightarrow> Some only
      | _ \<Rightarrow> let k = split (length leaves) in
          Option.bind (root sha (take k leaves)) (\<lambda>l.
          Option.bind (root sha (drop k leaves)) (\<lambda>r. Some (node_hash sha l r))))"
  by auto
termination
  by (relation "measure (\<lambda>(sha, leaves). length leaves)") auto

declare root.simps [simp del]

function collect_path :: "digest \<Rightarrow> node list \<Rightarrow> nat \<Rightarrow> node list \<Rightarrow> node list" where
  "collect_path sha leaves index acc =
     (if length leaves < 2 then acc
      else let k = split (length leaves); l = take k leaves; r = drop k leaves;
        (inner, inner_index, sibling) =
          (if index < length l then (l, index, r) else (r, index - length l, l));
        acc' = collect_path sha inner inner_index acc
      in case root sha sibling of None \<Rightarrow> acc' | Some s \<Rightarrow> acc' @ [s])"
  by auto
termination
  by (relation "measure (\<lambda>(sha, leaves, index, acc). length leaves)")
    (auto intro!: diff_less split: if_splits)

declare collect_path.simps [simp del]

definition path :: "digest \<Rightarrow> node list \<Rightarrow> nat \<Rightarrow> node list" where
  "path sha leaves index = collect_path sha leaves index []"

subsection \<open>The verifier\<close>

text \<open>
  The inner loop drops trailing zero bits of both counters; the outer loop takes one
  sibling a round and gives \<open>None\<close> for the early \<open>return false\<close>.
\<close>

lemma unat_half: "unat (drop_bit 1 (w :: 'l::len word)) = unat w div 2"
  by (subst unat_drop_bit_eq) (simp add: drop_bit_eq_div)

lemma unat_half_Suc [simp]: "unat (drop_bit (Suc 0) (w :: 'l::len word)) = unat w div 2"
  using unat_half [of w] by simp

lemma and_one_odd: "(w :: 'l::len word) AND 1 = 1 \<longleftrightarrow> odd (unat w)"
proof -
  have "odd (unat w) \<longleftrightarrow> bit (unat w) 0" by (simp add: bit_0)
  also have "\<dots> \<longleftrightarrow> bit w 0" by (simp only: bit_unsigned_iff) simp
  finally show ?thesis by (simp add: and_one_eq bit_0 odd_iff_mod_2_eq_one)
qed

lemma and_one_even: "(w :: 'l::len word) AND 1 = 0 \<longleftrightarrow> even (unat w)"
  using and_one_odd [of w] by (simp add: and_one_eq mod_2_eq_odd)

function shift_zeros :: "u64 \<Rightarrow> u64 \<Rightarrow> u64 \<times> u64" where
  "shift_zeros f s =
     (if f AND 1 = 0 \<and> f \<noteq> 0 then shift_zeros (drop_bit 1 f) (drop_bit 1 s) else (f, s))"
  by auto
termination
proof (relation "measure (\<lambda>(f, s). unat f)")
  fix f s :: u64
  assume "f AND 1 = 0 \<and> f \<noteq> 0"
  then have "0 < unat f" by (simp add: unat_gt_0)
  moreover have "unat (drop_bit 1 f) = unat f div 2" by (rule unat_half)
  ultimately show "((drop_bit 1 f, drop_bit 1 s), f, s) \<in> measure (\<lambda>(f, s). unat f)" by simp
qed simp

declare shift_zeros.simps [simp del]

fun verify_loop :: "digest \<Rightarrow> node list \<Rightarrow> u64 \<Rightarrow> u64 \<Rightarrow> node \<Rightarrow> (u64 \<times> u64 \<times> node) option" where
  "verify_loop sha [] f s computed = Some (f, s, computed)"
| "verify_loop sha (sibling # rest) f s computed =
     (if s = 0 then None
      else if f AND 1 = 1 \<or> f = s
      then (let (f', s') = shift_zeros f s in
        verify_loop sha rest (drop_bit 1 f') (drop_bit 1 s') (node_hash sha sibling computed))
      else verify_loop sha rest (drop_bit 1 f) (drop_bit 1 s) (node_hash sha computed sibling))"

definition verify :: "digest \<Rightarrow> node \<Rightarrow> u64 \<Rightarrow> u64 \<Rightarrow> node list \<Rightarrow> node \<Rightarrow> bool" where
  "verify sha leaf index tree_size siblings expected =
     (if tree_size \<le> index then False
      else case verify_loop sha siblings index (tree_size - 1) leaf of
        None \<Rightarrow> False
      | Some (_, remaining, computed) \<Rightarrow> remaining = 0 \<and> computed = expected)"

subsection \<open>The text form\<close>

definition DIGITS :: string where
  "DIGITS = ''0123456789abcdef''"

definition encode :: "node \<Rightarrow> string" where
  "encode n = ''sha256:'' @ concat (map (\<lambda>byte.
     [DIGITS ! unat (drop_bit 4 byte), DIGITS ! unat (byte AND 15)]) n)"

definition nibble :: "u8 \<Rightarrow> u8 option" where
  "nibble digit =
     (if 48 \<le> digit \<and> digit \<le> 57 then Some (digit - 48)
      else if 97 \<le> digit \<and> digit \<le> 102 then Some (digit - 97 + 10) else None)"

fun as_chunks2 :: "u8 list \<Rightarrow> (u8 \<times> u8) list \<times> u8 list" where
  "as_chunks2 (a # b # r) = (let (ps, rest) = as_chunks2 r in ((a, b) # ps, rest))"
| "as_chunks2 r = ([], r)"

fun decode_pairs :: "(u8 \<times> u8) list \<Rightarrow> node option" where
  "decode_pairs [] = Some []"
| "decode_pairs ((high, low) # ps) =
     Option.bind (nibble high) (\<lambda>h. Option.bind (nibble low) (\<lambda>l.
     Option.bind (decode_pairs ps) (\<lambda>bs. Some ((push_bit 4 h OR l) # bs))))"

definition as_bytes :: "string \<Rightarrow> u8 list" where
  "as_bytes s = map of_char s"

definition decode :: "string \<Rightarrow> node option" where
  "decode text =
     Option.bind (strip_prefix ''sha256:'' text) (\<lambda>hex.
     let (pairs, rest) = as_chunks2 (as_bytes hex) in
     if length pairs \<noteq> 32 \<or> rest \<noteq> [] then None else decode_pairs pairs)"

subsection \<open>Tree heads and paths\<close>

lemma root_nonempty: "leaves \<noteq> [] \<Longrightarrow> \<exists>r. root sha leaves = Some r"
proof (induction "length leaves" arbitrary: leaves rule: less_induct)
  case less
  show ?case
  proof (cases "length leaves < 2")
    case True
    with less.prems obtain x where "leaves = [x]" by (cases leaves; cases "tl leaves") auto
    then show ?thesis by (simp add: root.simps)
  next
    case False
    let ?k = "split (length leaves)"
    from False have k: "0 < ?k" "?k < length leaves" by simp_all
    then have "\<exists>r. root sha (take ?k leaves) = Some r" "\<exists>r. root sha (drop ?k leaves) = Some r"
      using less.prems by (auto intro!: less.hyps)
    moreover from False obtain x y ys where "leaves = x # y # ys"
      by (cases leaves; cases "tl leaves") auto
    ultimately show ?thesis by (subst root.simps) (auto simp: Let_def)
  qed
qed

lemma root_split:
  assumes "2 \<le> length leaves" "root sha (take (split (length leaves)) leaves) = Some l"
    "root sha (drop (split (length leaves)) leaves) = Some r"
  shows "root sha leaves = Some (node_hash sha l r)"
proof -
  from assms(1) obtain x y ys where "leaves = x # y # ys"
    by (cases leaves; cases "tl leaves") auto
  with assms(2,3) show ?thesis by (subst root.simps) (simp add: Let_def)
qed

lemma root_single [simp]: "root sha [x] = Some x"
  by (simp add: root.simps)

lemma collect_path_acc: "collect_path sha leaves i acc = acc @ path sha leaves i"
proof (induction "length leaves" arbitrary: leaves i acc rule: less_induct)
  case less
  show ?case
  proof (cases "length leaves < 2")
    case True
    then show ?thesis by (simp add: path_def collect_path.simps)
  next
    case False
    let ?k = "split (length leaves)"
    from False have k: "0 < ?k" "?k < length leaves" by simp_all
    then have "collect_path sha (take ?k leaves) j a = a @ path sha (take ?k leaves) j"
      "collect_path sha (drop ?k leaves) j a = a @ path sha (drop ?k leaves) j" for j a
      using less.hyps [of "take ?k leaves"] less.hyps [of "drop ?k leaves"] by simp_all
    note ih = this
    show ?thesis
      using False k by (simp add: path_def [of _ leaves] collect_path.simps [of sha leaves i] ih Let_def
          split: option.split)
  qed
qed

lemma path_short [simp]: "length leaves < 2 \<Longrightarrow> path sha leaves i = []"
  by (simp add: path_def collect_path.simps)

lemma path_left:
  assumes "2 \<le> length leaves" "k = split (length leaves)" "i < k" "root sha (drop k leaves) = Some r"
  shows "path sha leaves i = path sha (take k leaves) i @ [r]"
  using assms split_bounds [OF assms(1)]
  by (subst path_def, subst collect_path.simps) (auto simp: Let_def collect_path_acc)

lemma path_right:
  assumes "2 \<le> length leaves" "k = split (length leaves)" "k \<le> i" "root sha (take k leaves) = Some l"
  shows "path sha leaves i = path sha (drop k leaves) (i - k) @ [l]"
  using assms split_bounds [OF assms(1)]
  by (subst path_def, subst collect_path.simps) (auto simp: Let_def collect_path_acc)

subsection \<open>The verifier on natural numbers\<close>

function strip_zeros :: "nat \<Rightarrow> nat \<Rightarrow> nat \<times> nat" where
  "strip_zeros f s = (if even f \<and> f \<noteq> 0 then strip_zeros (f div 2) (s div 2) else (f, s))"
  by auto
termination
  by (relation "measure fst") auto

declare strip_zeros.simps [simp del]

fun verify_steps :: "digest \<Rightarrow> node list \<Rightarrow> nat \<Rightarrow> nat \<Rightarrow> node \<Rightarrow> (nat \<times> nat \<times> node) option" where
  "verify_steps sha [] f s r = Some (f, s, r)"
| "verify_steps sha (b # bs) f s r =
     (if s = 0 then None
      else if odd f \<or> f = s
      then (case strip_zeros f s of (f', s') \<Rightarrow>
        verify_steps sha bs (f' div 2) (s' div 2) (node_hash sha b r))
      else verify_steps sha bs (f div 2) (s div 2) (node_hash sha r b))"

lemma shift_zeros_strip:
  "strip_zeros (unat f) (unat s) = (unat (fst (shift_zeros f s)), unat (snd (shift_zeros f s)))"
proof (induction f s rule: shift_zeros.induct)
  case (1 f s)
  note even = and_one_even [of f]
  show ?case
  proof (cases "f AND 1 = 0 \<and> f \<noteq> 0")
    case True
    with 1 even show ?thesis
      by (subst strip_zeros.simps, subst (1 2) shift_zeros.simps) (simp add: unat_half unat_eq_0)
  next
    case False
    then have "\<not> (even (unat f) \<and> unat f \<noteq> 0)" using even by (simp add: unat_eq_0)
    with False show ?thesis
      by (subst strip_zeros.simps, subst (1 2) shift_zeros.simps) (simp only: if_False fst_conv snd_conv)
  qed
qed

lemma verify_loop_steps:
  "map_option (\<lambda>(f, s, r). (unat f, unat s, r)) (verify_loop sha p f s r)
     = verify_steps sha p (unat f) (unat s) r"
proof (induction p arbitrary: f s r)
  case Nil
  then show ?case by simp
next
  case (Cons b bs)
  obtain f' s' where z: "shift_zeros f s = (f', s')" by (cases "shift_zeros f s")
  then have z': "strip_zeros (unat f) (unat s) = (unat f', unat s')" by (simp add: shift_zeros_strip)
  show ?case
  proof (cases "f AND 1 = 1 \<or> f = s")
    case True
    then have "odd (unat f) \<or> unat f = unat s" by (auto simp: and_one_odd)
    with True z z' Cons show ?thesis by (simp add: unat_eq_0)
  next
    case False
    then have "\<not> (odd (unat f) \<or> unat f = unat s)"
      using and_one_odd [of f] word_unat_eq_iff [of f s] by blast
    with False Cons show ?thesis by (simp add: unat_eq_0)
  qed
qed

lemma verify_nat:
  "verify sha leaf index n p e \<longleftrightarrow>
     unat index < unat n \<and> (\<exists>f. verify_steps sha p (unat index) (unat n - 1) leaf = Some (f, 0, e))"
proof (cases "n \<le> index")
  case True
  then show ?thesis by (simp add: verify_def word_le_nat_alt)
next
  case False
  then have lt: "unat index < unat n" by (simp add: word_le_nat_alt)
  then have "unat (n - 1) = unat n - 1"
    by (subst unat_sub) (simp_all add: word_le_nat_alt)
  with verify_loop_steps [of sha p index "n - 1" leaf]
  have steps: "map_option (\<lambda>(f, s, r). (unat f, unat s, r)) (verify_loop sha p index (n - 1) leaf)
     = verify_steps sha p (unat index) (unat n - 1) leaf" by simp
  show ?thesis
  proof (cases "verify_loop sha p index (n - 1) leaf")
    case None
    with steps False show ?thesis by (simp add: verify_def)
  next
    case (Some x)
    obtain f s r where x: "x = (f, s, r)" by (cases x)
    with Some steps have "verify_steps sha p (unat index) (unat n - 1) leaf = Some (unat f, unat s, r)"
      by simp
    with False lt Some x show ?thesis by (simp add: verify_def unat_eq_0)
  qed
qed

lemma verify_steps_append:
  "verify_steps sha (p @ q) f s r =
     Option.bind (verify_steps sha p f s r) (\<lambda>(f', s', r'). verify_steps sha q f' s' r')"
  by (induction p arbitrary: f s r) (auto split: prod.splits)

lemma strip_zeros_odd: "odd f \<Longrightarrow> strip_zeros f s = (f, s)"
  by (subst strip_zeros.simps) simp

lemma strip_zeros_power: "strip_zeros (2 ^ j) (2 ^ j) = (1, 1)"
  by (induction j) (subst strip_zeros.simps, simp)+

lemma strip_zeros_shift:
  "0 < f \<Longrightarrow> f \<le> s \<Longrightarrow> s < 2 ^ e \<Longrightarrow> \<exists>j f' s'. 0 < j \<and> strip_zeros f s = (f', s')
     \<and> strip_zeros (f + 2 ^ e) (s + 2 ^ e) = (f' + 2 ^ j, s' + 2 ^ j) \<and> f' \<le> s' \<and> s' < 2 ^ j"
proof (induction f s arbitrary: e rule: strip_zeros.induct)
  case (1 f s)
  from "1.prems" have e: "0 < e" by (cases e) auto
  show ?case
  proof (cases "even f")
    case True
    with "1.prems" have "2 \<le> f" by (auto elim: evenE)
    with "1.prems" obtain e' where e': "e = Suc e'" "0 < e'" by (cases e; cases "e - 1") auto
    from True e' have half: "even (f + 2 ^ e)" "(f + 2 ^ e) div 2 = f div 2 + 2 ^ e'"
      "(s + 2 ^ e) div 2 = s div 2 + 2 ^ e'" by auto
    have "s div 2 < 2 ^ e'" using "1.prems"(3) e'(1) by auto
    moreover have "0 < f div 2" "f div 2 \<le> s div 2" using \<open>2 \<le> f\<close> "1.prems"(2) by auto
    moreover have "even f \<and> f \<noteq> 0" using True \<open>2 \<le> f\<close> by simp
    ultimately have "\<exists>j f' s'. 0 < j \<and> strip_zeros (f div 2) (s div 2) = (f', s')
       \<and> strip_zeros (f div 2 + 2 ^ e') (s div 2 + 2 ^ e') = (f' + 2 ^ j, s' + 2 ^ j)
       \<and> f' \<le> s' \<and> s' < 2 ^ j"
      using "1.IH" by blast
    moreover have "strip_zeros f s = strip_zeros (f div 2) (s div 2)"
      by (subst strip_zeros.simps) (use True \<open>2 \<le> f\<close> in simp)
    moreover have "strip_zeros (f + 2 ^ e) (s + 2 ^ e) = strip_zeros (f div 2 + 2 ^ e') (s div 2 + 2 ^ e')"
      by (subst strip_zeros.simps) (use half in simp)
    ultimately show ?thesis by simp
  next
    case False
    with e have "odd (f + 2 ^ e)" by simp
    with False "1.prems" e show ?thesis
      by (simp add: strip_zeros_odd)
  qed
qed

text \<open>A path inside the right subtree runs the same when a bit above its size is set in both counters.\<close>

lemma verify_steps_right:
  "verify_steps sha p f s r = Some (f', s', r') \<Longrightarrow> f \<le> s \<Longrightarrow> s < 2 ^ e \<Longrightarrow>
     \<exists>j. verify_steps sha p (f + 2 ^ e) (s + 2 ^ e) r = Some (f' + 2 ^ j, s' + 2 ^ j, r')
       \<and> f' \<le> s' \<and> s' < 2 ^ j"
proof (induction p arbitrary: f s r e)
  case Nil
  then show ?case by auto
next
  case (Cons b bs)
  from Cons.prems(1) have s0: "0 < s" by (auto split: if_splits)
  with Cons.prems(3) obtain e' where e: "e = Suc e'" by (cases e) auto
  have par: "odd (f + 2 ^ e) \<longleftrightarrow> odd f" "(f + 2 ^ e) div 2 = f div 2 + 2 ^ e'"
    "(s + 2 ^ e) div 2 = s div 2 + 2 ^ e'" by (simp_all add: e)
  show ?case
  proof (cases "odd f \<or> f = s")
    case True
    with s0 have "0 < f" by (auto elim: oddE)
    from strip_zeros_shift [OF this Cons.prems(2,3)] obtain j g t where
      j: "0 < j" "strip_zeros f s = (g, t)"
        "strip_zeros (f + 2 ^ e) (s + 2 ^ e) = (g + 2 ^ j, t + 2 ^ j)" "g \<le> t" "t < 2 ^ j" by blast
    from j(1) obtain j' where j': "j = Suc j'" by (cases j) auto
    have "g div 2 \<le> t div 2" "t div 2 < 2 ^ j'" using j(4,5) j' by auto
    from Cons.IH [OF _ this] Cons.prems(1) True s0 j(2)
    obtain k where "verify_steps sha bs (g div 2 + 2 ^ j') (t div 2 + 2 ^ j') (node_hash sha b r)
        = Some (f' + 2 ^ k, s' + 2 ^ k, r') \<and> f' \<le> s' \<and> s' < 2 ^ k" by auto
    moreover have "(g + 2 ^ j) div 2 = g div 2 + 2 ^ j'" "(t + 2 ^ j) div 2 = t div 2 + 2 ^ j'"
      by (simp_all add: j')
    ultimately show ?thesis using True s0 j(3) par(1) by auto
  next
    case False
    have "f div 2 \<le> s div 2" "s div 2 < 2 ^ e'" using Cons.prems(2,3) e by auto
    from Cons.IH [OF _ this] Cons.prems(1) False s0
    obtain k where "verify_steps sha bs (f div 2 + 2 ^ e') (s div 2 + 2 ^ e') (node_hash sha r b)
        = Some (f' + 2 ^ k, s' + 2 ^ k, r') \<and> f' \<le> s' \<and> s' < 2 ^ k" by auto
    with False s0 par show ?thesis by (auto simp del: power_Suc)
  qed
qed

text \<open>In a full subtree the verifier goes by the bits of the position.\<close>

lemma verify_steps_full:
  "length leaves = 2 ^ h \<Longrightarrow> f mod 2 ^ h = i \<Longrightarrow> f div 2 ^ h < s div 2 ^ h \<Longrightarrow>
   root sha leaves = Some e \<Longrightarrow>
     verify_steps sha (path sha leaves i) f s (leaves ! i) = Some (f div 2 ^ h, s div 2 ^ h, e)"
proof (induction h arbitrary: leaves i e)
  case 0
  then obtain x where "leaves = [x]" by (cases leaves) auto
  with 0 show ?case by simp
next
  case (Suc h)
  let ?l = "take (2 ^ h) leaves" and ?r = "drop (2 ^ h) leaves"
  have k: "split (length leaves) = 2 ^ h" using split_double [of h] Suc.prems(1) by simp
  have "(1::nat) \<le> 2 ^ h" by (rule one_le_power) simp
  then have two: "2 \<le> length leaves" using Suc.prems(1) by simp
  have len: "length ?l = 2 ^ h" "length ?r = 2 ^ h" using Suc.prems(1) by simp_all
  then have "?l \<noteq> []" "?r \<noteq> []" by auto
  then obtain a b where roots: "root sha ?l = Some a" "root sha ?r = Some b"
    using root_nonempty by metis
  with root_split [OF two] k Suc.prems(4) have e: "e = node_hash sha a b" by simp
  have i: "i = (if odd (f div 2 ^ h) then 2 ^ h else 0) + f mod 2 ^ h"
    using Suc.prems(2) mod_mult2_eq [of f "2 ^ h" 2] by (auto simp: mult.commute mod2_eq_if)
  have half: "f div 2 ^ Suc h = f div 2 ^ h div 2" "s div 2 ^ Suc h = s div 2 ^ h div 2"
    by (simp_all only: power_Suc2 div_mult2_eq)
  have lt: "f div 2 ^ h < s div 2 ^ h"
    using Suc.prems(3) by (simp only: half)
  have bound: "f mod 2 ^ h < 2 ^ h" by simp
  show ?case
  proof (cases "odd (f div 2 ^ h)")
    case True
    with i bound have ik: "2 ^ h \<le> i" "i - 2 ^ h = f mod 2 ^ h" "2 ^ h + (i - 2 ^ h) = i" by simp_all
    have "verify_steps sha (path sha ?r (i - 2 ^ h)) f s (?r ! (i - 2 ^ h)) = Some (f div 2 ^ h, s div 2 ^ h, b)"
      using Suc.IH [OF len(2) _ lt roots(2)] ik(2) by simp
    moreover have "?r ! (i - 2 ^ h) = leaves ! i" using ik(1) Suc.prems(1) by simp
    ultimately show ?thesis
      using path_right [OF two k [symmetric] ik(1) roots(1)] True lt half e
      by (simp add: verify_steps_append strip_zeros_odd)
  next
    case False
    with i bound have ik: "i < 2 ^ h" "i = f mod 2 ^ h" by simp_all
    have "verify_steps sha (path sha ?l i) f s (?l ! i) = Some (f div 2 ^ h, s div 2 ^ h, a)"
      using Suc.IH [OF len(1) _ lt roots(1)] ik(2) by simp
    moreover have "?l ! i = leaves ! i" using ik(1) by simp
    ultimately show ?thesis
      using path_left [OF two k [symmetric] ik(1) roots(2)] False lt half e
      by (simp add: verify_steps_append)
  qed
qed

lemma verify_steps_complete:
  "i < length leaves \<Longrightarrow> root sha leaves = Some e \<Longrightarrow>
     verify_steps sha (path sha leaves i) i (length leaves - 1) (leaves ! i) = Some (0, 0, e)"
proof (induction "length leaves" arbitrary: leaves i e rule: less_induct)
  case less
  show ?case
  proof (cases "length leaves < 2")
    case True
    with less.prems(1) obtain x where "leaves = [x]" by (cases leaves; cases "tl leaves") auto
    with less.prems show ?thesis by simp
  next
    case False
    then have two: "2 \<le> length leaves" by simp
    then obtain h where h: "split (length leaves) = 2 ^ h" "2 ^ h < length leaves"
      "length leaves \<le> 2 * 2 ^ h" by (rule split_spec)
    let ?l = "take (2 ^ h) leaves" and ?r = "drop (2 ^ h) leaves"
    have len: "length ?l = 2 ^ h" "length ?r = length leaves - 2 ^ h" using h(2) by simp_all
    then have "?l \<noteq> []" "?r \<noteq> []" using h(2) by auto
    then obtain a b where roots: "root sha ?l = Some a" "root sha ?r = Some b"
      using root_nonempty by metis
    with root_split [OF two] h(1) less.prems(2) have e: "e = node_hash sha a b" by simp
    show ?thesis
    proof (cases "i < 2 ^ h")
      case True
      have one: "(length leaves - 1) div 2 ^ h = 1"
        using h(2,3) by (intro div_nat_eqI) auto
      with True have "verify_steps sha (path sha ?l i) i (length leaves - 1) (?l ! i) = Some (0, 1, a)"
        using verify_steps_full [OF len(1), of i i "length leaves - 1" sha a] roots(1) by simp
      then show ?thesis
        using path_left [OF two h(1) [symmetric] True roots(2)] True e
        by (simp add: verify_steps_append)
    next
      case False
      let ?j = "i - 2 ^ h"
      have lr: "length ?r < length leaves" using len(2) h(2) zero_less_power [of "2::nat" h] by linarith
      have inner: "verify_steps sha (path sha ?r ?j) ?j (length ?r - 1) (?r ! ?j) = Some (0, 0, b)"
        using less.hyps [OF lr _ roots(2), of ?j] False less.prems(1) len(2) by simp
      have "?j \<le> length ?r - 1" "length ?r - 1 < 2 ^ h"
        using False less.prems(1) len(2) h(2,3) by linarith+
      from verify_steps_right [OF inner this] obtain k where
        "verify_steps sha (path sha ?r ?j) (?j + 2 ^ h) (length ?r - 1 + 2 ^ h) (?r ! ?j)
           = Some (2 ^ k, 2 ^ k, b)" by auto
      moreover have "?j + 2 ^ h = i" "length ?r - 1 + 2 ^ h = length leaves - 1"
        using False len(2) h(2) by linarith+
      moreover have "?r ! ?j = leaves ! i" using False less.prems(1) by simp
      moreover have "verify_steps sha [a] (2 ^ k) (2 ^ k) b = Some (0, 0, node_hash sha a b)"
        by (simp add: strip_zeros_power)
      ultimately show ?thesis
        using path_right [OF two h(1) [symmetric] _ roots(1)] False e
        by (simp add: verify_steps_append not_less)
    qed
  qed
qed

text \<open>C5: For every tree of leaves and every position in it, the audit path that the code produces
  verifies against the tree head, on 64-bit positions and sizes.\<close>

theorem merkle_path_verifies:
  assumes "unat index < length leaves" and "length leaves = unat n" and "root sha leaves = Some e"
  shows "verify sha (leaves ! unat index) index n (path sha leaves (unat index)) e"
  using verify_steps_complete [OF assms(1,3)] assms by (auto simp: verify_nat)

definition demo_leaves :: "node list" where
  "demo_leaves = [[1], [2], [3]]"

definition demo_sha :: digest where
  "demo_sha bs = 7 # bs"

lemma demo_split: "split 3 = 2" "split 2 = 1"
  "split (Suc (Suc (Suc 0))) = 2" "split (Suc (Suc 0)) = 1"
  by (simp_all add: split_def split_loop.simps)

lemma demo_root: "root demo_sha demo_leaves = Some [7, 1, 7, 1, 1, 2, 3]"
  by (simp add: root.simps demo_leaves_def demo_split node_hash_def demo_sha_def Let_def)

theorem merkle_path_verifies_witness:
  "verify demo_sha [3] 2 3 (path demo_sha demo_leaves 2) [7, 1, 7, 1, 1, 2, 3]"
  using merkle_path_verifies [OF _ _ demo_root, of 2 3]
  by (simp add: demo_leaves_def)

subsection \<open>Binding\<close>

text \<open>The hash inputs of one run of the verifier, in order.\<close>

fun hashed :: "node list \<Rightarrow> digest \<Rightarrow> nat \<Rightarrow> nat \<Rightarrow> node \<Rightarrow> u8 list list" where
  "hashed [] sha f s r = []"
| "hashed (b # bs) sha f s r =
     (if odd f \<or> f = s
      then (case strip_zeros f s of (f', s') \<Rightarrow>
        (1 # b @ r) # hashed bs sha (f' div 2) (s' div 2) (node_hash sha b r))
      else (1 # r @ b) # hashed bs sha (f div 2) (s div 2) (node_hash sha r b))"

definition collides :: "digest \<Rightarrow> u8 list list \<Rightarrow> u8 list list \<Rightarrow> bool" where
  "collides sha xs ys = (\<exists>x \<in> set xs. \<exists>y \<in> set ys. x \<noteq> y \<and> sha x = sha y)"

lemma collides_Cons: "collides sha xs ys \<Longrightarrow> collides sha (x # xs) (y # ys)"
  by (auto simp: collides_def)

lemma node_hash_eq:
  assumes "node_hash sha a b = node_hash sha a' b'" "length a = length a'"
  shows "(a = a' \<and> b = b') \<or> collides sha ((1 # a @ b) # xs) ((1 # a' @ b') # ys)"
  using assms by (auto simp: node_hash_def collides_def)

lemma verify_steps_binding:
  assumes "\<And>x. length (sha x) = 32"
  shows "verify_steps sha p f s r = Some (g, 0, e) \<Longrightarrow> verify_steps sha q f s r' = Some (g', 0, e) \<Longrightarrow>
    \<forall>b \<in> set p. length b = 32 \<Longrightarrow> \<forall>b \<in> set q. length b = 32 \<Longrightarrow> length r = 32 \<Longrightarrow> length r' = 32 \<Longrightarrow>
    r = r' \<or> collides sha (hashed p sha f s r) (hashed q sha f s r')"
proof (induction p arbitrary: q f s r r')
  case Nil
  then show ?case by (cases q) auto
next
  case (Cons b bs)
  from Cons.prems(1) have s0: "s \<noteq> 0" by (auto split: if_splits)
  with Cons.prems(2) obtain c cs where q: "q = c # cs" by (cases q) auto
  show ?case
  proof (cases "odd f \<or> f = s")
    case True
    obtain f' s' where z: "strip_zeros f s = (f', s')" by (cases "strip_zeros f s")
    from Cons.IH [of "f' div 2" "s' div 2" "node_hash sha b r" cs "node_hash sha c r'"] Cons.prems True s0 q z
    have "node_hash sha b r = node_hash sha c r' \<or>
       collides sha (hashed bs sha (f' div 2) (s' div 2) (node_hash sha b r))
         (hashed cs sha (f' div 2) (s' div 2) (node_hash sha c r'))"
      by (simp add: node_hash_def assms)
    moreover from Cons.prems q have "length b = length c" by simp
    ultimately show ?thesis using True z q node_hash_eq [of sha b r c r'] collides_Cons
      by (simp only: hashed.simps) (metis (no_types, lifting) case_prod_conv)
  next
    case False
    from Cons.IH [of "f div 2" "s div 2" "node_hash sha r b" cs "node_hash sha r' c"] Cons.prems False s0 q
    have "node_hash sha r b = node_hash sha r' c \<or>
       collides sha (hashed bs sha (f div 2) (s div 2) (node_hash sha r b))
         (hashed cs sha (f div 2) (s div 2) (node_hash sha r' c))"
      by (simp add: node_hash_def assms)
    moreover from Cons.prems have "length r = length r'" by simp
    ultimately show ?thesis using False q node_hash_eq [of sha r b r' c] collides_Cons
      by (simp only: hashed.simps if_False) metis
  qed
qed

lemma root_length:
  "\<forall>x. length (sha x) = 32 \<Longrightarrow> \<forall>l \<in> set leaves. length l = 32 \<Longrightarrow> root sha leaves = Some e \<Longrightarrow> length e = 32"
proof (cases "length leaves < 2")
  case True
  moreover assume "root sha leaves = Some e" "\<forall>l \<in> set leaves. length l = 32"
  ultimately show ?thesis by (cases leaves; cases "tl leaves") (auto simp: root.simps)
next
  case False
  assume a: "\<forall>x. length (sha x) = 32" "root sha leaves = Some e"
  let ?k = "split (length leaves)"
  from False have k: "0 < ?k" "?k < length leaves" by simp_all
  then have "take ?k leaves \<noteq> []" "drop ?k leaves \<noteq> []" by auto
  then obtain l r where "root sha (take ?k leaves) = Some l" "root sha (drop ?k leaves) = Some r"
    using root_nonempty by metis
  with root_split [of leaves sha l r] False a show ?thesis by (simp add: node_hash_def)
qed

lemma path_length:
  "\<forall>x. length (sha x) = 32 \<Longrightarrow> \<forall>l \<in> set leaves. length l = 32 \<Longrightarrow> \<forall>b \<in> set (path sha leaves i). length b = 32"
proof (induction "length leaves" arbitrary: leaves i rule: less_induct)
  case less
  show ?case
  proof (cases "length leaves < 2")
    case True
    then show ?thesis by simp
  next
    case False
    let ?k = "split (length leaves)"
    from False have two: "2 \<le> length leaves" and k: "0 < ?k" "?k < length leaves" by simp_all
    then have "take ?k leaves \<noteq> []" "drop ?k leaves \<noteq> []" by auto
    then obtain l r where lr: "root sha (take ?k leaves) = Some l" "root sha (drop ?k leaves) = Some r"
      using root_nonempty by metis
    have sub: "\<forall>l \<in> set (take ?k leaves). length l = 32" "\<forall>l \<in> set (drop ?k leaves). length l = 32"
      using less.prems(2) by (auto dest: in_set_takeD in_set_dropD)
    note lens = root_length [OF less.prems(1) sub(1) lr(1)] root_length [OF less.prems(1) sub(2) lr(2)]
    have "\<forall>b \<in> set (path sha (take ?k leaves) j). length b = 32" for j
      using less.hyps [of "take ?k leaves"] k sub(1) less.prems(1) by simp
    moreover have "\<forall>b \<in> set (path sha (drop ?k leaves) j). length b = 32" for j
      using less.hyps [of "drop ?k leaves"] k sub(2) less.prems(1) by simp
    ultimately show ?thesis using lens
      by (cases "i < ?k") (auto simp: path_left [OF two refl _ lr(2)] path_right [OF two refl _ lr(1)])
  qed
qed

text \<open>C6: A proof that verifies against a tree head at a position of the signed size either is about
  the leaf of that position or exhibits two different hash inputs, one of each verification run,
  with the same digest.\<close>

theorem merkle_verify_binds_leaf:
  assumes "\<forall>x. length (sha x) = 32" and "\<forall>l \<in> set leaves. length l = 32"
    and "length leaf = 32" and "\<forall>b \<in> set p. length b = 32"
    and "length leaves = unat n" and "root sha leaves = Some e" and "verify sha leaf index n p e"
  shows "leaf = leaves ! unat index \<or>
    collides sha (hashed p sha (unat index) (unat n - 1) leaf)
      (hashed (path sha leaves (unat index)) sha (unat index) (unat n - 1) (leaves ! unat index))"
proof -
  from assms(7) obtain g where lt: "unat index < unat n"
    and forged: "verify_steps sha p (unat index) (unat n - 1) leaf = Some (g, 0, e)"
    by (auto simp: verify_nat)
  from verify_steps_complete [of "unat index" leaves sha e] lt assms(5,6)
  have real: "verify_steps sha (path sha leaves (unat index)) (unat index) (unat n - 1) (leaves ! unat index)
      = Some (0, 0, e)" by simp
  have "length (leaves ! unat index) = 32" using assms(2,5) lt by simp
  with verify_steps_binding [OF _ forged real assms(4) path_length [OF assms(1,2)] assms(3)] assms(1)
  show ?thesis by simp
qed

subsection \<open>Text form\<close>

theorem merkle_verify_binds_leaf_witness:
  "replicate 32 4 = [replicate 32 4, replicate 32 5] ! unat (0 :: u64) \<or>
     collides (\<lambda>x. replicate 32 (of_nat (length x)))
       (hashed [replicate 32 5] (\<lambda>x. replicate 32 (of_nat (length x))) 0 1 (replicate 32 4))
       (hashed (path (\<lambda>x. replicate 32 (of_nat (length x))) [replicate 32 4, replicate 32 5] 0)
         (\<lambda>x. replicate 32 (of_nat (length x))) 0 1 (replicate 32 4))"
proof -
  let ?sha = "\<lambda>x :: u8 list. replicate 32 (of_nat (length x)) :: u8 list"
  let ?leaves = "[replicate 32 4, replicate 32 5] :: node list"
  have root: "root ?sha ?leaves = Some (replicate 32 65)"
    by (simp add: root.simps demo_split node_hash_def Let_def)
  have "verify ?sha (replicate 32 4) 0 2 [replicate 32 5] (replicate 32 65)"
    by (simp add: verify_def node_hash_def)
  from merkle_verify_binds_leaf [OF _ _ _ _ _ root this] show ?thesis by simp
qed

subsection \<open>Nodes as text\<close>

lemma DIGITS_nth: "n < 16 \<Longrightarrow> DIGITS ! n = hex_digit n"
proof -
  have "\<forall>m \<in> set [0..<16]. DIGITS ! m = hex_digit m" by code_simp
  then show "n < 16 \<Longrightarrow> DIGITS ! n = hex_digit n" by simp
qed

lemma unat_of_char: "unat (of_char c :: u8) = byte_of c"
proof -
  have "unat (of_nat (byte_of c) :: u8) = byte_of c"
    using byte_of_bound [of c] by (simp add: unsigned_of_nat take_bit_nat_eq_self)
  then show ?thesis by (simp only: byte_of_def of_nat_of_char)
qed

lemma char_of_byte_of: "char_of (byte_of c) = c"
  by (simp add: byte_of_def)

lemma nibble_Some:
  "nibble (of_char c) = Some v \<longleftrightarrow> unat v < 16 \<and> c = hex_digit (unat v)"
proof
  let ?b = "byte_of c"
  assume n: "nibble (of_char c) = Some v"
  have b: "unat (of_char c :: u8) = ?b" by (rule unat_of_char)
  from n consider "48 \<le> ?b" "?b \<le> 57" "v = of_char c - 48"
    | "97 \<le> ?b" "?b \<le> 102" "v = of_char c - 97 + 10"
    by (auto simp: nibble_def word_le_nat_alt b split: if_splits)
  then have "unat v < 16 \<and> (if unat v < 10 then unat v + 48 else unat v + 87) = ?b"
  proof cases
    case 1
    then have "unat v = ?b - 48" by (simp add: unat_sub word_le_nat_alt b)
    with 1 show ?thesis by simp
  next
    case 2
    then have v: "unat v = ?b - 87" by (simp add: unat_sub word_le_nat_alt b)
    with 2 have "\<not> unat v < 10" "unat v < 16" "unat v + 87 = ?b" by linarith+
    then show ?thesis by simp
  qed
  then show "unat v < 16 \<and> c = hex_digit (unat v)"
    using char_of_byte_of [of c] by (simp add: hex_digit_def)
next
  assume v: "unat v < 16 \<and> c = hex_digit (unat v)"
  then have b: "unat (of_char c :: u8) = (if unat v < 10 then unat v + 48 else unat v + 87)"
    by (simp add: unat_of_char byte_of_hex_digit)
  show "nibble (of_char c) = Some v"
  proof (cases "unat v < 10")
    case True
    with b have "unat (of_char c - 48 :: u8) = unat v" by (simp add: unat_sub word_le_nat_alt)
    with True b show ?thesis by (simp add: nibble_def word_le_nat_alt word_unat_eq_iff)
  next
    case False
    with b have "unat (of_char c - 87 :: u8) = unat v" by (simp add: unat_sub word_le_nat_alt)
    with False v b show ?thesis by (simp add: nibble_def word_le_nat_alt word_unat_eq_iff)
  qed
qed

lemma unat_join_nibbles:
  fixes h l :: u8
  assumes "unat h < 16" "unat l < 16"
  shows "unat (push_bit 4 h OR l) = 16 * unat h + unat l"
proof -
  have h: "take_bit 8 (push_bit 4 (unat h)) = push_bit 4 (unat h)"
    using assms(1) by (intro take_bit_nat_eq_self) (simp add: push_bit_eq_mult)
  have l: "take_bit 4 (unat l) = unat l" using assms(2) by (simp add: take_bit_nat_eq_self)
  have "push_bit 4 (unat h) OR take_bit 4 (unat l) = push_bit 4 (unat h) + take_bit 4 (unat l)"
    by (rule disjunctive_add [symmetric]) (auto simp: bit_push_bit_iff bit_take_bit_iff)
  moreover have "unat (push_bit 4 h) = push_bit 4 (unat h)"
    using h by (simp only: unsigned_push_bit_eq) simp
  ultimately have "unat (push_bit 4 h OR l) = push_bit 4 (unat h) + unat l"
    using l by (simp only: unsigned_or_eq)
  then show ?thesis by (simp add: push_bit_eq_mult)
qed

lemma encode_lower_hex: "encode n = ''sha256:'' @ lower_hex n"
proof -
  have "unat b div 16 < 16" for b :: u8 using unat_u8_bound [of b] by simp
  then have "concat (map (\<lambda>byte. [DIGITS ! unat (drop_bit 4 byte), DIGITS ! unat (byte AND 15)]) n) = lower_hex n"
    by (induction n) (simp_all add: unat_low_nibble unat_high_nibble DIGITS_nth del: One_nat_def)
  then show ?thesis by (simp add: encode_def)
qed

lemma decode_pairs_hex:
  "as_chunks2 (as_bytes hex) = (ps, []) \<Longrightarrow> decode_pairs ps = Some bs \<longleftrightarrow> hex = lower_hex bs"
proof (induction hex arbitrary: ps bs rule: induct_list012)
  case 1
  then show ?case by (cases bs) (auto simp: as_bytes_def)
next
  case (2 c)
  then show ?case by (simp add: as_bytes_def)
next
  case (3 a c r)
  then obtain qs where qs: "as_chunks2 (as_bytes r) = (qs, [])" "ps = (of_char a, of_char c) # qs"
    by (auto simp: as_bytes_def split: prod.splits)
  note ih = "3.IH"(1) [OF qs(1)]
  show ?case
  proof
    assume "decode_pairs ps = Some bs"
    with qs(2) obtain h l t where hl: "nibble (of_char a) = Some h" "nibble (of_char c) = Some l"
      "decode_pairs qs = Some t" and bs: "bs = (push_bit 4 h OR l) # t"
      by (auto simp: bind_eq_Some_conv)
    from hl ih have "unat h < 16" "unat l < 16" "a = hex_digit (unat h)" "c = hex_digit (unat l)"
      "r = lower_hex t" by (simp_all add: nibble_Some)
    with bs show "a # c # r = lower_hex bs" by (simp add: unat_join_nibbles)
  next
    assume eq: "a # c # r = lower_hex bs"
    then obtain b t where bs: "bs = b # t" by (cases bs) auto
    have lt: "unat b div 16 < 16" using unat_u8_bound [of b] by simp
    from eq bs have a: "a = hex_digit (unat (drop_bit 4 b))" "c = hex_digit (unat (b AND 15))" "r = lower_hex t"
      by (simp_all add: unat_high_nibble unat_low_nibble)
    then have n: "nibble (of_char a) = Some (drop_bit 4 b)" "nibble (of_char c) = Some (b AND 15)"
      "decode_pairs qs = Some t"
      using lt ih by (simp_all add: nibble_Some unat_high_nibble unat_low_nibble)
    have "unat (push_bit 4 (drop_bit 4 b) OR (b AND 15)) = unat b"
      using lt by (subst unat_join_nibbles) (simp_all add: unat_high_nibble unat_low_nibble)
    then have "push_bit 4 (drop_bit 4 b) OR (b AND 15) = b" by (simp add: word_unat_eq_iff)
    with n show "decode_pairs ps = Some bs" by (simp add: qs(2) bs)
  qed
qed

lemma as_chunks2_length: "as_chunks2 bs = (ps, rest) \<Longrightarrow> length bs = 2 * length ps + length rest
    \<and> length rest < 2"
  by (induction bs arbitrary: ps rule: as_chunks2.induct) (auto split: prod.splits)

theorem merkle_text_roundtrip:
  "decode text = Some n \<longleftrightarrow> text = encode n \<and> length n = 32"
proof -
  have "Option.bind (Some hex) (\<lambda>hex. let (pairs, rest) = as_chunks2 (as_bytes hex) in
     if length pairs \<noteq> 32 \<or> rest \<noteq> [] then None else decode_pairs pairs) = Some n
     \<longleftrightarrow> hex = lower_hex n \<and> length n = 32" for hex
  proof -
    obtain ps rest where ch: "as_chunks2 (as_bytes hex) = (ps, rest)" by (cases "as_chunks2 (as_bytes hex)")
    from as_chunks2_length [OF this] have len: "length hex = 2 * length ps + length rest" "length rest < 2"
      by (simp_all add: as_bytes_def)
    show ?thesis
    proof (cases "rest = []")
      case True
      with ch len decode_pairs_hex [of hex ps n] show ?thesis by auto
    next
      case False
      with len have "odd (length hex)" by (cases rest) auto
      then have "hex \<noteq> lower_hex n" by auto
      with False ch show ?thesis by simp
    qed
  qed
  note body = this
  show ?thesis
  proof (cases "strip_prefix ''sha256:'' text")
    case None
    then have "text \<noteq> ''sha256:'' @ lower_hex n" by (auto simp: strip_prefix_def)
    with None show ?thesis unfolding decode_def encode_lower_hex by simp
  next
    case (Some hex)
    then have "text = ''sha256:'' @ hex" by (simp only: strip_prefix_Some)
    with Some body [of hex] show ?thesis unfolding decode_def encode_lower_hex by simp
  qed
qed

end
