(* ===== verification/Attention.thy ===== *)
theory Attention
  imports Run_Store
begin

section \<open>Attention: data, validation and decisions\<close>

text \<open>
  capture-service/src/attention.rs, attention_runs.rs, attention_withdrawal.rs and
  attention_projection.rs: the inbox of conditions that need the operator. This theory holds
  the data, the validators, the order of items, and for every operation of \<open>AttentionStore\<close>
  the decision it takes on a loaded inbox. \<open>Attention_Store\<close> runs them on the file. The
  durable Runs are read, never written; \<open>att_env\<close> holds what an operation reads besides the
  inbox: the Run directory if Run support is on, the clock, and whether the lock or the state
  file is a symbolic link. The \<open>serde_json\<close> text of a projection is an argument.
\<close>

subsection \<open>Data\<close>

datatype attention_subject_kind = Session | Run | Supply

datatype attention_kind = TurnReady | PermissionRequired | RunParked | SessionFailed
  | SkillApprovalPending | SkillUnverified | EndorsementWithdrawn

datatype attention_code = AdmissionRequired | RootTrustFailed | SignatureInvalid | WitnessMissing
  | NativeSupplyUncertain | RuntimeDrift | IsolationFailed | BrokerUnavailable
  | AuditPersistenceUnavailable | ProviderDisclosureMissing | EvidenceMissing
  | EvidenceInvalidated | Quarantined | UnknownFailure

datatype withdrawal_urgency = ReliedOn | SubjectOnly

record attention_withdrawal =
  package_digest :: string
  withdrawal_digest :: string
  endorser :: string
  urgency :: withdrawal_urgency

record attention_key =
  key_subject_kind :: attention_subject_kind
  key_subject_id :: string
  key_kind :: attention_kind
  key_source_operation_id :: string

record attention_draft =
  adr_subject_kind :: attention_subject_kind
  adr_subject_id :: string
  adr_kind :: attention_kind
  adr_source_operation_id :: string
  adr_created_at_ms :: u64
  adr_linked_run_id :: "string option"
  adr_stage :: "string option"
  adr_code :: "attention_code option"
  adr_withdrawal :: "attention_withdrawal option"

record attention_item =
  subject_kind :: attention_subject_kind
  subject_id :: string
  kind :: attention_kind
  source_operation_id :: string
  created_at_ms :: u64
  eligible :: bool
  reason :: string
  linked_run_id :: "string option"
  stage :: "string option"
  code :: "attention_code option"
  withdrawal :: "attention_withdrawal option"

record projection_cursor =
  cur_sequence :: u64
  cur_digest :: string

record persisted_attention =
  att_schema_version :: u8
  generation :: u64
  items :: "attention_item list"
  broker_projection :: "projection_cursor option"

record attention_snapshot =
  snap_generation :: u64
  snap_items :: "attention_item list"

record attention_summary =
  smy_generation :: u64
  unresolved_count :: nat
  kinds :: "attention_kind \<rightharpoonup> nat"

datatype attention_error = Att_Invalid string | Att_Io | Att_Json | Att_Run run_error

datatype projection_change = Upsert attention_draft | Clear attention_key
  | ClearSubject attention_subject_kind string

record broker_projection_entry =
  bp_sequence :: u64
  bp_change :: projection_change

record projection_result =
  pr_sequence :: u64
  pr_digest :: string
  pr_applied :: bool

record att_env =
  env_runs :: "run disk option"
  env_now_ms :: u64
  lock_symlink :: bool
  state_symlink :: bool

fun att_fs :: "fs_error \<Rightarrow> attention_error" where
  "att_fs Io = Att_Io"
| "att_fs Json = Att_Json"

fun reason_of :: "attention_kind \<Rightarrow> string" where
  "reason_of TurnReady = ''Agent turn is ready''"
| "reason_of PermissionRequired = ''Permission is required''"
| "reason_of RunParked = ''Run is Parked''"
| "reason_of SessionFailed = ''Session failed''"
| "reason_of SkillApprovalPending = ''Skill approval is pending''"
| "reason_of SkillUnverified = ''Skill supply is unverified''"
| "reason_of EndorsementWithdrawn = ''Endorsement was withdrawn''"

definition draft_key :: "attention_draft \<Rightarrow> attention_key" where
  "draft_key a = \<lparr>key_subject_kind = adr_subject_kind a, key_subject_id = adr_subject_id a,
     key_kind = adr_kind a, key_source_operation_id = adr_source_operation_id a\<rparr>"

definition item_key :: "attention_item \<Rightarrow> attention_key" where
  "item_key a = \<lparr>key_subject_kind = subject_kind a, key_subject_id = subject_id a,
     key_kind = kind a, key_source_operation_id = source_operation_id a\<rparr>"

subsection \<open>The order of kinds\<close>

text \<open>The derived \<open>Ord\<close> of both enums is the order of declaration.\<close>

fun subject_rank :: "attention_subject_kind \<Rightarrow> nat" where
  "subject_rank Session = 0" | "subject_rank Run = 1" | "subject_rank Supply = 2"

fun kind_rank :: "attention_kind \<Rightarrow> nat" where
  "kind_rank TurnReady = 0" | "kind_rank PermissionRequired = 1" | "kind_rank RunParked = 2"
| "kind_rank SessionFailed = 3" | "kind_rank SkillApprovalPending = 4"
| "kind_rank SkillUnverified = 5" | "kind_rank EndorsementWithdrawn = 6"

lemma subject_rank_inject: "subject_rank a = subject_rank b \<longleftrightarrow> a = b"
  by (cases a; cases b) simp_all

lemma kind_rank_inject: "kind_rank a = kind_rank b \<longleftrightarrow> a = b"
  by (cases a; cases b) simp_all

instantiation attention_subject_kind :: linorder
begin

definition less_eq_attention_subject_kind :: "attention_subject_kind \<Rightarrow> attention_subject_kind \<Rightarrow> bool" where
  "a \<le> b \<longleftrightarrow> subject_rank a \<le> subject_rank b"

definition less_attention_subject_kind :: "attention_subject_kind \<Rightarrow> attention_subject_kind \<Rightarrow> bool" where
  "a < b \<longleftrightarrow> subject_rank a < subject_rank b"

instance
  by standard (auto simp: less_eq_attention_subject_kind_def less_attention_subject_kind_def
      subject_rank_inject)

end

instantiation attention_kind :: linorder
begin

definition less_eq_attention_kind :: "attention_kind \<Rightarrow> attention_kind \<Rightarrow> bool" where
  "a \<le> b \<longleftrightarrow> kind_rank a \<le> kind_rank b"

definition less_attention_kind :: "attention_kind \<Rightarrow> attention_kind \<Rightarrow> bool" where
  "a < b \<longleftrightarrow> kind_rank a < kind_rank b"

instance
  by standard (auto simp: less_eq_attention_kind_def less_attention_kind_def kind_rank_inject)

end

definition sort_rank ::
  "attention_item \<Rightarrow> u64 \<times> attention_subject_kind \<times> string \<times> attention_kind \<times> string" where
  "sort_rank a = (created_at_ms a, subject_kind a, subject_id a, kind a, source_operation_id a)"

definition sort_items :: "attention_item list \<Rightarrow> attention_item list" where
  "sort_items xs = sort_key sort_rank xs"

subsection \<open>Validators\<close>

definition validate_uuid :: "crates \<Rightarrow> string \<Rightarrow> string \<Rightarrow> attention_error + unit" where
  "validate_uuid c v field =
     andThen (ok_or (uuid_text c v) (Att_Invalid (field @ '' must be a UUID''))) (\<lambda>parsed.
     ensure (parsed = v) (Att_Invalid (field @ '' must use canonical UUID text'')))"

definition validate_subject_id :: "string \<Rightarrow> attention_error + unit" where
  "validate_subject_id s =
     ensure (\<not> (s = [] \<or> 256 < length s
         \<or> list_ex (\<lambda>n. is_control n \<or> is_whitespace n) (utf8_decode s)))
       (Att_Invalid ''subject_id is empty, too long, or contains whitespace'')"

definition validate_key :: "crates \<Rightarrow> attention_key \<Rightarrow> attention_error + unit" where
  "validate_key c k =
     andThen (validate_subject_id (key_subject_id k)) (\<lambda>_.
     andThen (if key_subject_kind k = Run
              then validate_uuid c (key_subject_id k) ''Run subject_id'' else Inr ()) (\<lambda>_.
     andThen (if key_subject_kind k = Supply
              then andThen (ensure (case parse_u32 (key_subject_id k) of
                       None \<Rightarrow> False
                     | Some uid \<Rightarrow> uid \<noteq> 0 \<and> decimal (unat uid) = key_subject_id k)
                     (Att_Invalid ''Supply subject_id must be a canonical nonzero operator UID''))
                   (\<lambda>_. ensure (key_kind k \<in> {SkillApprovalPending, EndorsementWithdrawn})
                     (Att_Invalid ''Supply condition kind must be skill_approval_pending or endorsement_withdrawn''))
              else Inr ()) (\<lambda>_.
     andThen (ensure (\<not> (key_kind k = EndorsementWithdrawn \<and> key_subject_kind k \<noteq> Supply))
                (Att_Invalid ''Endorsement withdrawal requires a Supply subject'')) (\<lambda>_.
     validate_uuid c (key_source_operation_id k) ''source_operation_id''))))"

definition validate_linked_run :: "crates \<Rightarrow> string option \<Rightarrow> attention_error + unit" where
  "validate_linked_run c v =
     (case v of None \<Rightarrow> Inr () | Some i \<Rightarrow> validate_uuid c i ''linked_run_id'')"

definition stage_byte :: "char \<Rightarrow> bool" where
  "stage_byte b = (is_ascii_alphanumeric b \<or> b \<in> set ''._/-'')"

definition validate_stage :: "string option \<Rightarrow> attention_error + unit" where
  "validate_stage v =
     (case v of None \<Rightarrow> Inr ()
      | Some s \<Rightarrow> ensure (\<not> (s = [] \<or> 64 < length s \<or> list_ex (\<lambda>b. \<not> stage_byte b) s))
          (Att_Invalid ''stage is empty, too long, or contains unsupported characters''))"

definition validate_context ::
  "crates \<Rightarrow> attention_subject_kind \<Rightarrow> string option \<Rightarrow> string option \<Rightarrow> attention_error + unit" where
  "validate_context c sk linked stg =
     andThen (ensure (\<not> (sk = Supply \<and> (linked \<noteq> None \<or> stg \<noteq> None)))
        (Att_Invalid ''Supply conditions cannot carry Run or stage context'')) (\<lambda>_.
     andThen (validate_linked_run c linked) (\<lambda>_. validate_stage stg))"

definition validate_code ::
  "attention_kind \<Rightarrow> attention_code option \<Rightarrow> string option \<Rightarrow> attention_error + unit" where
  "validate_code k cd stg =
     andThen (ensure (case k of
          SkillApprovalPending \<Rightarrow> cd = Some AdmissionRequired
        | SkillUnverified \<Rightarrow> (case cd of None \<Rightarrow> False | Some v \<Rightarrow> v \<noteq> AdmissionRequired)
        | _ \<Rightarrow> cd = None) (Att_Invalid ''Attention code does not match kind'')) (\<lambda>_.
     ensure (\<not> (k \<in> {SkillApprovalPending, SkillUnverified} \<and> stg \<noteq> None))
       (Att_Invalid ''Skill Attention conditions cannot carry stage text''))"

definition sha256_text :: "string \<Rightarrow> bool" where
  "sha256_text s = (case strip_prefix ''sha256:'' s of None \<Rightarrow> False
     | Some v \<Rightarrow> length v = 64 \<and> list_all is_lower_hex v)"

definition validate_withdrawal ::
  "attention_kind \<Rightarrow> attention_withdrawal option \<Rightarrow> attention_error + unit" where
  "validate_withdrawal k wo =
     (case wo of
        None \<Rightarrow> ensure (k \<noteq> EndorsementWithdrawn) (Att_Invalid ''withdrawal evidence is required'')
      | Some w \<Rightarrow>
          andThen (ensure (k = EndorsementWithdrawn)
             (Att_Invalid ''withdrawal evidence does not match kind'')) (\<lambda>_.
          andThen (ensure (sha256_text (package_digest w) \<and> sha256_text (withdrawal_digest w))
             (Att_Invalid ''withdrawal digests must be canonical sha256 text'')) (\<lambda>_.
          ensure (\<not> (list_all is_whitespace (utf8_decode (endorser w)) \<or> 256 < length (endorser w)
              \<or> list_ex is_control (utf8_decode (endorser w))))
            (Att_Invalid ''withdrawal endorser must be a nonempty printable line of at most 256 bytes''))))"

definition validate_attention_draft :: "crates \<Rightarrow> attention_draft \<Rightarrow> attention_error + unit" where
  "validate_attention_draft c a =
     andThen (validate_key c (draft_key a)) (\<lambda>_.
     andThen (ensure (adr_created_at_ms a \<noteq> 0) (Att_Invalid ''created_at_ms must be positive'')) (\<lambda>_.
     andThen (validate_context c (adr_subject_kind a) (adr_linked_run_id a) (adr_stage a)) (\<lambda>_.
     andThen (validate_code (adr_kind a) (adr_code a) (adr_stage a)) (\<lambda>_.
     validate_withdrawal (adr_kind a) (adr_withdrawal a)))))"

definition validate_item :: "crates \<Rightarrow> attention_item \<Rightarrow> attention_error + unit" where
  "validate_item c a =
     andThen (validate_key c (item_key a)) (\<lambda>_.
     andThen (ensure (created_at_ms a \<noteq> 0) (Att_Invalid ''created_at_ms must be positive'')) (\<lambda>_.
     andThen (ensure (reason a = reason_of (kind a))
        (Att_Invalid ''Attention reason does not match kind'')) (\<lambda>_.
     andThen (validate_context c (subject_kind a) (linked_run_id a) (stage a)) (\<lambda>_.
     andThen (validate_code (kind a) (code a) (stage a)) (\<lambda>_.
     validate_withdrawal (kind a) (withdrawal a))))))"

definition validate_cursor :: "projection_cursor \<Rightarrow> attention_error + unit" where
  "validate_cursor cu =
     ensure (\<not> (cur_sequence cu = 0 \<or> length (cur_digest cu) \<noteq> 64
         \<or> \<not> list_all is_lower_hex (cur_digest cu)))
       (Att_Invalid ''broker projection cursor is invalid'')"

fun validate_items :: "crates \<Rightarrow> attention_item list \<Rightarrow> attention_error + unit" where
  "validate_items c [] = Inr ()"
| "validate_items c (a # as) = andThen (validate_item c a) (\<lambda>_. validate_items c as)"

text \<open>\<open>windows(2).any(..)\<close>: the test sees neighbours only.\<close>

fun adjacent_same_key :: "attention_item list \<Rightarrow> bool" where
  "adjacent_same_key (a # b # r) = (item_key a = item_key b \<or> adjacent_same_key (b # r))"
| "adjacent_same_key _ = False"

definition validate_state :: "crates \<Rightarrow> persisted_attention \<Rightarrow> attention_error + unit" where
  "validate_state c st =
     andThen (case broker_projection st of None \<Rightarrow> Inr () | Some cu \<Rightarrow> validate_cursor cu) (\<lambda>_.
     andThen (ensure (att_schema_version st = 1)
        (Att_Invalid ''Attention schema version is unsupported'')) (\<lambda>_.
     andThen (validate_items c (items st)) (\<lambda>_.
     let sorted = sort_items (items st) in
     andThen (ensure (\<not> adjacent_same_key sorted)
        (Att_Invalid ''Attention state contains duplicate keys'')) (\<lambda>_.
     ensure (sorted = items st)
       (Att_Invalid ''Attention items are not deterministically ordered'')))))"

end
