(* ===== verification/Attention_Store.thy ===== *)
theory Attention_Store
  imports Attention
begin

section \<open>The Attention store\<close>

text \<open>
  The operations of \<open>AttentionStore\<close>: each takes the lock, loads and validates the inbox,
  drops the local Park alerts that the durable Runs have resolved (and persists that), takes
  its decision, and writes the inbox when the decision changed it. The inbox is the one file
  \<open>attention.json\<close> of its directory.
\<close>

unbundle bit_operations_syntax

subsection \<open>Local Park alerts\<close>

definition is_local_park :: "crates \<Rightarrow> attention_key \<Rightarrow> bool" where
  "is_local_park c k =
     (if key_subject_kind k \<noteq> Run \<or> key_kind k \<noteq> RunParked then False
      else let digest = sha256 c (''run_parked:'' @ key_subject_id k);
             bytes = take 16 digest;
             bytes1 = bytes[6 := (bytes ! 6 AND 15) OR 64];
             bytes2 = bytes1[8 := (bytes1 ! 8 AND 63) OR 128]
           in key_source_operation_id k = uuid_from_bytes c bytes2)"

definition local_park_resolved :: "crates \<Rightarrow> att_env \<Rightarrow> attention_key \<Rightarrow> attention_error + bool" where
  "local_park_resolved c e k =
     (case env_runs e of
        None \<Rightarrow> Inr False
      | Some runs \<Rightarrow>
          if \<not> is_local_park c k then Inr False
          else andThen (map_err Att_Run (find_view c (key_subject_id k) runs)) (\<lambda>found.
            case found of
              None \<Rightarrow> Inr False
            | Some v \<Rightarrow>
                if view_state v \<in> {''parked'', ''cold_parked''} \<and> 0 < view_park_expires_at_ms v
                then Inr (view_park_expires_at_ms v \<le> env_now_ms e)
                else if view_state v = ''resuming'' then Inr False
                else if view_state v \<in> {''active'', ''disposed''} then Inr True
                else Inl (Att_Run (Invalid ''stored Run lifecycle state is invalid''))))"

definition advance_generation :: "persisted_attention \<Rightarrow> attention_error + persisted_attention" where
  "advance_generation st =
     andThen (ok_or (checked_add (generation st) 1) (Att_Invalid ''Attention generation overflowed''))
       (\<lambda>n. Inr (st\<lparr>generation := n\<rparr>))"

fun retain_unresolved ::
  "crates \<Rightarrow> att_env \<Rightarrow> attention_item list \<Rightarrow> attention_error + attention_item list" where
  "retain_unresolved c e [] = Inr []"
| "retain_unresolved c e (a # as) =
     andThen (local_park_resolved c e (item_key a)) (\<lambda>gone.
     andThen (retain_unresolved c e as) (\<lambda>rest. Inr (if gone then rest else a # rest)))"

definition att_path :: string where
  "att_path = ''attention.json''"

definition persist :: "persisted_attention \<Rightarrow> (persisted_attention disk, attention_error, unit) op" where
  "persist st = write_op att_fs att_path st"

definition reconcile_local_parks ::
  "crates \<Rightarrow> att_env \<Rightarrow> persisted_attention
     \<Rightarrow> (persisted_attention disk, attention_error, persisted_attention) op" where
  "reconcile_local_parks c e st =
     bind_op (pure (retain_unresolved c e (items st))) (\<lambda>retained.
     let st1 = st\<lparr>items := retained\<rparr> in
     if length retained \<noteq> length (items st)
     then bind_op (pure (advance_generation st1)) (\<lambda>st2.
          bind_op (persist st2) (\<lambda>_. pure (Inr st2)))
     else pure (Inr st1))"

definition read_state :: "persisted_attention disk \<Rightarrow> attention_error + persisted_attention" where
  "read_state d =
     andThen (map_err att_fs (read_file att_path d)) (\<lambda>found. ok_or found Att_Io)"

definition load :: "crates \<Rightarrow> att_env \<Rightarrow> (persisted_attention disk, attention_error, persisted_attention) op" where
  "load c e =
     bind_op (read_op read_state) (\<lambda>st.
     bind_op (pure (validate_state c st)) (\<lambda>_.
     reconcile_local_parks c e st))"

definition with_lock ::
  "att_env \<Rightarrow> (persisted_attention disk, attention_error, 'a) op
     \<Rightarrow> (persisted_attention disk, attention_error, 'a) op" where
  "with_lock e m =
     (if lock_symlink e then pure (Inl (Att_Invalid ''Attention lock is a symlink''))
      else locked att_fs m)"

text \<open>Load, decide, write back what the decision gives.\<close>

definition att_update ::
  "crates \<Rightarrow> att_env \<Rightarrow> (persisted_attention \<Rightarrow> attention_error + 'a \<times> persisted_attention option)
     \<Rightarrow> (persisted_attention disk, attention_error, 'a) op" where
  "att_update c e body =
     with_lock e (bind_op (load c e) (\<lambda>st.
       bind_op (pure (body st)) (\<lambda>(a, w).
       case w of None \<Rightarrow> pure (Inr a) | Some st' \<Rightarrow> bind_op (persist st') (\<lambda>_. pure (Inr a)))))"

definition snapshot_of :: "persisted_attention \<Rightarrow> attention_snapshot" where
  "snapshot_of st = \<lparr>snap_generation = generation st, snap_items = items st\<rparr>"

subsection \<open>Decisions\<close>

text \<open>The value to return together with the changed inbox, when there is one to write.\<close>

definition written ::
  "persisted_attention \<Rightarrow> attention_error + attention_snapshot \<times> persisted_attention option" where
  "written st = andThen (advance_generation st) (\<lambda>st'. Inr (snapshot_of st', Some st'))"

definition unchanged ::
  "persisted_attention \<Rightarrow> attention_error + attention_snapshot \<times> persisted_attention option" where
  "unchanged st = Inr (snapshot_of st, None)"

definition item_of_draft :: "bool \<Rightarrow> attention_draft \<Rightarrow> attention_item" where
  "item_of_draft el a = \<lparr>subject_kind = adr_subject_kind a, subject_id = adr_subject_id a,
     kind = adr_kind a, source_operation_id = adr_source_operation_id a,
     created_at_ms = adr_created_at_ms a, eligible = el, reason = reason_of (adr_kind a),
     linked_run_id = adr_linked_run_id a, stage = adr_stage a, code = adr_code a,
     withdrawal = adr_withdrawal a\<rparr>"

definition same_content :: "attention_item \<Rightarrow> attention_item \<Rightarrow> bool" where
  "same_content l r = (subject_kind l = subject_kind r \<and> subject_id l = subject_id r
     \<and> kind l = kind r \<and> source_operation_id l = source_operation_id r
     \<and> created_at_ms l = created_at_ms r \<and> reason l = reason r
     \<and> linked_run_id l = linked_run_id r \<and> stage l = stage r \<and> code l = code r
     \<and> withdrawal l = withdrawal r)"

definition find_key :: "attention_key \<Rightarrow> attention_item list \<Rightarrow> nat option" where
  "find_key k as = position (\<lambda>a. item_key a = k) as"

definition upsert_body ::
  "crates \<Rightarrow> att_env \<Rightarrow> attention_draft \<Rightarrow> persisted_attention
     \<Rightarrow> attention_error + attention_snapshot \<times> persisted_attention option" where
  "upsert_body c e a st =
     andThen (local_park_resolved c e (draft_key a)) (\<lambda>resolved.
     if resolved then unchanged st
     else let item = item_of_draft False a; k = item_key item in
       case find_key k (items st) of
         Some i \<Rightarrow>
           let current = items st ! i;
               item' = (if is_local_park c k then item\<lparr>created_at_ms := created_at_ms current\<rparr> else item)
           in if same_content current item' then unchanged st
              else andThen (advance_generation
                     (st\<lparr>items := (items st)[i := item'\<lparr>eligible := eligible current\<rparr>]\<rparr>)) (\<lambda>st1.
                   let st2 = st1\<lparr>items := sort_items (items st1)\<rparr> in Inr (snapshot_of st2, Some st2))
       | None \<Rightarrow>
           andThen (advance_generation (st\<lparr>items := items st @ [item]\<rparr>)) (\<lambda>st1.
           let st2 = st1\<lparr>items := sort_items (items st1)\<rparr> in Inr (snapshot_of st2, Some st2)))"

definition set_eligible_body ::
  "attention_key \<Rightarrow> bool \<Rightarrow> persisted_attention
     \<Rightarrow> attention_error + attention_snapshot \<times> persisted_attention option" where
  "set_eligible_body k el st =
     andThen (ok_or (find_key k (items st)) (Att_Invalid ''Attention item was not found'')) (\<lambda>i.
     if eligible (items st ! i) \<noteq> el
     then written (st\<lparr>items := (items st)[i := (items st ! i)\<lparr>eligible := el\<rparr>]\<rparr>)
     else unchanged st)"

definition retain_body ::
  "(attention_item \<Rightarrow> bool) \<Rightarrow> persisted_attention
     \<Rightarrow> attention_error + attention_snapshot \<times> persisted_attention option" where
  "retain_body keep st =
     (let kept = filter keep (items st) in
      if length kept \<noteq> length (items st) then written (st\<lparr>items := kept\<rparr>)
      else unchanged (st\<lparr>items := kept\<rparr>))"

definition apply_change :: "attention_item list \<Rightarrow> projection_change \<Rightarrow> attention_item list" where
  "apply_change as ch =
     (case ch of
        Upsert a \<Rightarrow>
          let item = item_of_draft True a in
          (case find_key (item_key item) as of
             Some i \<Rightarrow> as[i := item] | None \<Rightarrow> as @ [item])
      | Clear k \<Rightarrow> filter (\<lambda>a. item_key a \<noteq> k) as
      | ClearSubject sk sid \<Rightarrow> filter (\<lambda>a. subject_kind a \<noteq> sk \<or> subject_id a \<noteq> sid) as)"

definition project_body ::
  "broker_projection_entry \<Rightarrow> string \<Rightarrow> persisted_attention
     \<Rightarrow> attention_error + projection_result \<times> persisted_attention option" where
  "project_body p digest st =
     (let previous = (case broker_projection st of None \<Rightarrow> 0 | Some cu \<Rightarrow> cur_sequence cu);
          result = \<lparr>pr_sequence = bp_sequence p, pr_digest = digest, pr_applied = False\<rparr>
      in if bp_sequence p \<le> previous
         then (if bp_sequence p = previous \<and> (case broker_projection st of
                    None \<Rightarrow> False | Some cu \<Rightarrow> cur_digest cu \<noteq> digest)
               then Inl (Att_Invalid ''broker projection sequence conflicts'')
               else Inr (result, Some st))
         else if checked_add previous 1 \<noteq> Some (bp_sequence p)
         then Inl (Att_Invalid ''broker projection sequence has a gap'')
         else andThen (advance_generation
                (st\<lparr>items := sort_items (apply_change (items st) (bp_change p))\<rparr>)) (\<lambda>st1.
              Inr (result\<lparr>pr_applied := True\<rparr>, Some (st1\<lparr>broker_projection :=
                Some \<lparr>cur_sequence = bp_sequence p, cur_digest = digest\<rparr>\<rparr>))))"

definition validate_projection :: "crates \<Rightarrow> broker_projection_entry \<Rightarrow> attention_error + unit" where
  "validate_projection c p =
     andThen (ensure (bp_sequence p \<noteq> 0)
        (Att_Invalid ''broker projection sequence must be positive'')) (\<lambda>_.
     case bp_change p of
       Upsert a \<Rightarrow> validate_attention_draft c a
     | Clear k \<Rightarrow> validate_key c k
     | ClearSubject sk sid \<Rightarrow>
         andThen (ensure (sk \<noteq> Supply)
            (Att_Invalid ''Supply conditions require an exact clear'')) (\<lambda>_.
         andThen (validate_subject_id sid) (\<lambda>_.
         if sk = Run then validate_uuid c sid ''Run subject_id'' else Inr ())))"

subsection \<open>Operations\<close>

definition open_store :: "crates \<Rightarrow> att_env \<Rightarrow> (persisted_attention disk, attention_error, persisted_attention) op" where
  "open_store c e =
     with_lock e (\<lambda>d.
       if state_symlink e then (Inl (Att_Invalid ''Attention state is a symlink''), d)
       else if lookup_file d att_path \<noteq> None then load c e d
       else let st = \<lparr>att_schema_version = 1, generation = 0, items = [], broker_projection = None\<rparr>
         in bind_op (persist st) (\<lambda>_. pure (Inr st)) d)"

definition att_snapshot :: "crates \<Rightarrow> att_env \<Rightarrow> (persisted_attention disk, attention_error, attention_snapshot) op" where
  "att_snapshot c e = att_update c e unchanged"

definition summary_of :: "attention_snapshot \<Rightarrow> attention_summary" where
  "summary_of s = \<lparr>smy_generation = snap_generation s, unresolved_count = length (snap_items s),
     kinds = foldl (\<lambda>m a. m(kind a \<mapsto> (case m (kind a) of None \<Rightarrow> 0 | Some n \<Rightarrow> n) + 1))
       Map.empty (snap_items s)\<rparr>"

definition summary :: "crates \<Rightarrow> att_env \<Rightarrow> (persisted_attention disk, attention_error, attention_summary) op" where
  "summary c e = bind_op (att_snapshot c e) (\<lambda>s. pure (Inr (summary_of s)))"

definition upsert ::
  "crates \<Rightarrow> att_env \<Rightarrow> attention_draft \<Rightarrow> (persisted_attention disk, attention_error, attention_snapshot) op" where
  "upsert c e a =
     bind_op (pure (validate_attention_draft c a)) (\<lambda>_. att_update c e (upsert_body c e a))"

definition set_eligible ::
  "crates \<Rightarrow> att_env \<Rightarrow> attention_key \<Rightarrow> bool
     \<Rightarrow> (persisted_attention disk, attention_error, attention_snapshot) op" where
  "set_eligible c e k el =
     bind_op (pure (validate_key c k)) (\<lambda>_. att_update c e (set_eligible_body k el))"

definition clear ::
  "crates \<Rightarrow> att_env \<Rightarrow> attention_key \<Rightarrow> (persisted_attention disk, attention_error, attention_snapshot) op" where
  "clear c e k =
     bind_op (pure (validate_key c k)) (\<lambda>_. att_update c e (retain_body (\<lambda>a. item_key a \<noteq> k)))"

definition clear_session_kind ::
  "crates \<Rightarrow> att_env \<Rightarrow> string \<Rightarrow> attention_kind
     \<Rightarrow> (persisted_attention disk, attention_error, attention_snapshot) op" where
  "clear_session_kind c e sid k =
     bind_op (pure (validate_subject_id sid)) (\<lambda>_. att_update c e (retain_body
       (\<lambda>a. subject_kind a \<noteq> Session \<or> subject_id a \<noteq> sid \<or> kind a \<noteq> k)))"

definition clear_session ::
  "crates \<Rightarrow> att_env \<Rightarrow> string \<Rightarrow> (persisted_attention disk, attention_error, attention_snapshot) op" where
  "clear_session c e sid =
     bind_op (pure (validate_subject_id sid)) (\<lambda>_. att_update c e (retain_body
       (\<lambda>a. subject_kind a \<noteq> Session \<or> subject_id a \<noteq> sid)))"

text \<open>
  \<open>project\<close> and the other operations work with one environment: the clock and the Runs are read
  once per operation, where the source reads them once per local Park alert.
\<close>

definition project ::
  "crates \<Rightarrow> (broker_projection_entry \<Rightarrow> string) \<Rightarrow> att_env \<Rightarrow> broker_projection_entry
     \<Rightarrow> (persisted_attention disk, attention_error, projection_result) op" where
  "project c canonical_json e p =
     bind_op (pure (validate_projection c p)) (\<lambda>_.
     let digest = lower_hex (sha256 c (canonical_json p)) in
     att_update c e (project_body p digest))"

definition broker_run_lifecycle :: "crates \<Rightarrow> att_env \<Rightarrow> string \<Rightarrow> attention_error + (string \<times> u64 \<times> string)" where
  "broker_run_lifecycle c e i =
     (let unavailable = Att_Run (Invalid ''Run lifecycle unavailable'') in
      andThen (ok_or (env_runs e) unavailable) (\<lambda>runs.
      andThen (map_err Att_Run (find_view c i runs)) (\<lambda>found.
      andThen (ok_or found unavailable) (\<lambda>v.
      andThen (ensure (view_state v \<in> {''admitted'', ''active'', ''parked'', ''cold_parked'', ''resuming'', ''disposed''})
         unavailable) (\<lambda>_.
      Inr (view_id v, view_revision v, view_state v))))))"

end
