(* ===== verification/Attention_Safety.thy ===== *)
theory Attention_Safety
  imports Attention_Store
begin

section \<open>Invariant and histories of the Attention inbox\<close>

text \<open>
  The invariant of the stored inbox (valid items in order, no two with one key), the relation
  between successive inboxes (the generation counts changes, the projection cursor only
  grows), and the proof that every operation keeps both, whatever the environment answers and
  whichever writes fail. The locale \<open>inbox_update\<close> extends the contract of guarded updates to
  operations that reconcile while they load.
\<close>

subsection \<open>The invariant of the inbox\<close>

definition items_ok :: "crates \<Rightarrow> attention_item list \<Rightarrow> bool" where
  "items_ok c as \<longleftrightarrow> (\<forall>a \<in> set as. validate_item c a = Inr ()) \<and> sorted (map sort_rank as)
     \<and> distinct (map item_key as)"

definition cursor_ok :: "persisted_attention \<Rightarrow> bool" where
  "cursor_ok st \<longleftrightarrow> (case broker_projection st of None \<Rightarrow> True | Some cu \<Rightarrow> validate_cursor cu = Inr ())"

definition att_ok :: "crates \<Rightarrow> persisted_attention \<Rightarrow> bool" where
  "att_ok c st \<longleftrightarrow> cursor_ok st \<and> att_schema_version st = 1 \<and> items_ok c (items st)"

definition cursor_of :: "persisted_attention \<Rightarrow> u64" where
  "cursor_of st = (case broker_projection st of None \<Rightarrow> 0 | Some cu \<Rightarrow> cur_sequence cu)"

definition att_step :: "persisted_attention \<Rightarrow> persisted_attention \<Rightarrow> bool" where
  "att_step st st' \<longleftrightarrow> generation st \<le> generation st' \<and> cursor_of st \<le> cursor_of st'
     \<and> (generation st' = generation st \<longrightarrow> items st' = items st)"

lemma validate_items_iff: "validate_items c as = Inr () \<longleftrightarrow> (\<forall>a \<in> set as. validate_item c a = Inr ())"
  by (induction as) (auto simp: results)

lemma sort_items_id: "sorted (map sort_rank as) \<Longrightarrow> sort_items as = as"
  by (simp add: sort_items_def sort_key_id_if_sorted)

lemma sorted_sort_items [simp]: "sorted (map sort_rank (sort_items as))"
  by (simp add: sort_items_def)

lemma set_sort_items [simp]: "set (sort_items as) = set as"
  by (simp add: sort_items_def)

lemma distinct_sort_items [simp]: "distinct (map f (sort_items as)) \<longleftrightarrow> distinct (map f as)"
  by (simp add: distinct_map sort_items_def)

lemma distinct_not_adjacent: "distinct (map item_key as) \<Longrightarrow> \<not> adjacent_same_key as"
  by (induction as rule: adjacent_same_key.induct) auto

lemma att_ok_valid: "att_ok c st \<Longrightarrow> validate_state c st = Inr ()"
  using validate_items_iff [of c "items st"]
  by (simp add: att_ok_def validate_state_def items_ok_def cursor_ok_def sort_items_id
      distinct_not_adjacent split: option.splits)

lemma items_ok_filter: "items_ok c as \<Longrightarrow> items_ok c (filter P as)"
  by (auto simp: items_ok_def sorted_filter distinct_map_filter)

lemma items_ok_sorted:
  "\<forall>a \<in> set as. validate_item c a = Inr () \<Longrightarrow> distinct (map item_key as) \<Longrightarrow> items_ok c (sort_items as)"
  by (simp add: items_ok_def)

lemma items_ok_Nil [simp]: "items_ok c []"
  by (simp add: items_ok_def)

lemma find_key_Some:
  "find_key k as = Some i \<Longrightarrow> i < length as \<and> item_key (as ! i) = k"
  by (auto simp: find_key_def dest: position_Some)

lemma find_key_None: "find_key k as = None \<longleftrightarrow> k \<notin> item_key ` set as"
  by (auto simp: find_key_def position_None)

lemma find_key_distinct:
  "distinct (map item_key as) \<Longrightarrow> a \<in> set as \<Longrightarrow> \<exists>i. find_key (item_key a) as = Some i \<and> as ! i = a"
proof -
  assume d: "distinct (map item_key as)" and a: "a \<in> set as"
  then obtain i where i: "find_key (item_key a) as = Some i"
    by (cases "find_key (item_key a) as") (auto simp: find_key_None)
  from find_key_Some [OF this] have "as ! i \<in> set as" "item_key (as ! i) = item_key a" by auto
  with d a have "as ! i = a" by (auto simp: distinct_map dest: inj_onD)
  with i show ?thesis by blast
qed

lemma draft_item_key [simp]: "item_key (item_of_draft el a) = draft_key a"
  by (simp add: item_key_def draft_key_def item_of_draft_def)

lemma item_key_frame [simp]:
  "item_key (a\<lparr>eligible := el\<rparr>) = item_key a" "item_key (a\<lparr>created_at_ms := t\<rparr>) = item_key a"
  by (simp_all add: item_key_def)

lemma validate_item_eligible [simp]: "validate_item c (a\<lparr>eligible := el\<rparr>) = validate_item c a"
  by (simp add: validate_item_def)

lemma validate_item_time:
  "validate_item c a = Inr () \<Longrightarrow> t \<noteq> 0 \<Longrightarrow> validate_item c (a\<lparr>created_at_ms := t\<rparr>) = Inr ()"
  by (simp add: validate_item_def results)

lemma validate_item_nonzero: "validate_item c a = Inr () \<Longrightarrow> created_at_ms a \<noteq> 0"
  by (simp add: validate_item_def results)

lemma draft_item_valid:
  "validate_attention_draft c a = Inr u \<Longrightarrow> validate_item c (item_of_draft el a) = Inr ()"
  by (simp add: validate_attention_draft_def validate_item_def results)
    (simp add: item_of_draft_def)

lemma advance_generation_Inr [results]:
  "advance_generation st = Inr st' \<longleftrightarrow>
     (\<exists>n. unat n = Suc (unat (generation st)) \<and> st' = st\<lparr>generation := n\<rparr>)"
  by (auto simp: advance_generation_def results word_results)

lemma att_ok_frame [simp]: "att_ok c (st\<lparr>generation := n\<rparr>) = att_ok c st"
  by (simp add: att_ok_def cursor_ok_def)

lemma att_ok_items [simp]:
  "att_ok c (st\<lparr>items := as\<rparr>) \<longleftrightarrow> cursor_ok st \<and> att_schema_version st = 1 \<and> items_ok c as"
  by (simp add: att_ok_def cursor_ok_def)

lemma att_okD:
  "att_ok c st \<Longrightarrow> items_ok c (items st)" "att_ok c st \<Longrightarrow> cursor_ok st" "att_ok c st \<Longrightarrow> att_schema_version st = 1"
  by (simp_all add: att_ok_def)

lemma att_step_refl [simp]: "att_step st st"
  by (simp add: att_step_def)

lemma att_step_advance:
  "unat n = Suc (unat (generation st)) \<Longrightarrow> cursor_of st \<le> cursor_of st' \<Longrightarrow> generation st' = n \<Longrightarrow> att_step st st'"
  by (auto simp: att_step_def word_le_nat_alt)

lemma cursor_of_frame [simp]:
  "cursor_of (st\<lparr>items := as\<rparr>) = cursor_of st" "cursor_of (st\<lparr>generation := n\<rparr>) = cursor_of st"
  by (simp_all add: cursor_of_def)

subsection \<open>Reconciliation\<close>

definition unresolved :: "crates \<Rightarrow> att_env \<Rightarrow> attention_item \<Rightarrow> bool" where
  "unresolved c e a \<longleftrightarrow> local_park_resolved c e (item_key a) = Inr False"

lemma retain_unresolved_Inr:
  "retain_unresolved c e as = Inr bs \<Longrightarrow>
     bs = filter (unresolved c e) as \<and>
     (\<forall>a \<in> set as. local_park_resolved c e (item_key a) = Inr (\<not> unresolved c e a))"
  by (induction as arbitrary: bs) (auto simp: results unresolved_def split: if_splits)

lemma retain_unresolved_all:
  "\<forall>a \<in> set as. unresolved c e a \<Longrightarrow> retain_unresolved c e as = Inr as"
  by (induction as) (auto simp: unresolved_def)

definition reconciled :: "crates \<Rightarrow> att_env \<Rightarrow> persisted_attention \<Rightarrow> persisted_attention \<Rightarrow> bool" where
  "reconciled c e st0 st \<longleftrightarrow> items st = filter (unresolved c e) (items st0)
     \<and> broker_projection st = broker_projection st0 \<and> att_schema_version st = att_schema_version st0
     \<and> (if items st = items st0 then st = st0
        else unat (generation st) = Suc (unat (generation st0)))"

lemma reconciled_step: "reconciled c e st0 st \<Longrightarrow> att_step st0 st"
  by (auto simp: reconciled_def att_step_def cursor_of_def word_le_nat_alt split: if_splits)

lemma reconciled_ok: "reconciled c e st0 st \<Longrightarrow> att_ok c st0 \<Longrightarrow> att_ok c st"
  by (auto simp: reconciled_def att_ok_def cursor_ok_def items_ok_filter)

lemma filter_length_id: "length (filter P as) = length as \<Longrightarrow> filter P as = as"
  by (metis filter_id_conv length_filter_less order_less_irrefl)

lemma reconcile_cases:
  assumes "reconcile_local_parks c e st0 d = (x, d')"
  shows "d' = d \<and> (\<forall>st. x = Inr st \<longrightarrow> reconciled c e st0 st \<and> items st = items st0) \<or>
    (\<exists>st y. reconciled c e st0 st \<and> persist st d = (y, d') \<and> (\<forall>s. x = Inr s \<longrightarrow> s = st \<and> y = Inr ()))"
proof (cases "retain_unresolved c e (items st0)")
  case (Inl err)
  with assms show ?thesis by (auto simp: reconcile_local_parks_def bind_op_def pure_def)
next
  case (Inr bs)
  from retain_unresolved_Inr [OF this] have bs: "bs = filter (unresolved c e) (items st0)" by simp
  show ?thesis
  proof (cases "length bs = length (items st0)")
    case True
    with bs have "bs = items st0" by (simp add: filter_length_id)
    with assms Inr bs show ?thesis
      by (auto simp: reconcile_local_parks_def bind_op_def pure_def Let_def reconciled_def)
  next
    case False
    then have ne: "bs \<noteq> items st0" by auto
    show ?thesis
    proof (cases "advance_generation (st0\<lparr>items := bs\<rparr>)")
      case (Inl err)
      with assms \<open>retain_unresolved c e (items st0) = Inr bs\<close> False show ?thesis
        by (auto simp: reconcile_local_parks_def bind_op_def pure_def Let_def)
    next
      case (Inr st)
      then have rec: "reconciled c e st0 st" using bs ne by (auto simp: results reconciled_def)
      obtain y d1 where p: "persist st d = (y, d1)" by (cases "persist st d")
      have "x = (case y of Inl er \<Rightarrow> Inl er | Inr _ \<Rightarrow> Inr st) \<and> d' = d1"
        using assms \<open>retain_unresolved c e (items st0) = Inr bs\<close> False Inr p
        by (auto simp: reconcile_local_parks_def bind_op_def pure_def Let_def split: sum.splits)
      with rec p show ?thesis by (cases y) auto
    qed
  qed
qed

lemma read_state_Inr [results]: "read_state d = Inr st \<longleftrightarrow> lookup_file d att_path = Some (Stored st)"
  by (auto simp: read_state_def results)

lemma persist_cases:
  "persist st d = (y, d') \<Longrightarrow>
     lookup_file d' = lookup_file d \<or> lookup_file d' = (lookup_file d)(att_path \<mapsto> Stored st)"
  unfolding persist_def by (rule write_op_cases)

lemma persist_ok:
  "persist st d = (Inr u, d') \<Longrightarrow> lookup_file d' = (lookup_file d)(att_path \<mapsto> Stored st)
     \<and> lock_ok d' = lock_ok d \<and> unlock_ok d' = unlock_ok d"
  by (auto simp: persist_def results dest: write_atomic_ok write_atomic_flags)

lemma load_cases:
  assumes "load c e d = (x, d')"
  shows "(d' = d \<and> (\<forall>st. x = Inr st \<longrightarrow> (\<exists>st0. read_state d = Inr st0 \<and> reconciled c e st0 st \<and> st = st0)))
    \<or> (\<exists>st0 st y. read_state d = Inr st0 \<and> reconciled c e st0 st \<and> persist st d = (y, d')
         \<and> (\<forall>s. x = Inr s \<longrightarrow> s = st \<and> y = Inr ()))"
proof (cases "andThen (read_state d) (\<lambda>st. andThen (validate_state c st) (\<lambda>_. Inr st))")
  case (Inl err)
  with assms show ?thesis
    by (cases "read_state d"; cases "validate_state c (projr (read_state d))")
      (auto simp: load_def bind_op_def pure_def read_op_def)
next
  case (Inr st0)
  then have st0: "read_state d = Inr st0" "validate_state c st0 = Inr ()" by (auto simp: results)
  with assms have "reconcile_local_parks c e st0 d = (x, d')"
    by (simp add: load_def bind_op_def pure_def read_op_def)
  from reconcile_cases [OF this] show ?thesis
  proof
    assume a: "d' = d \<and> (\<forall>st. x = Inr st \<longrightarrow> reconciled c e st0 st \<and> items st = items st0)"
    then have "x = Inr st \<Longrightarrow> reconciled c e st0 st \<and> st = st0" for st
      by (auto simp: reconciled_def)
    with a st0 show ?thesis by blast
  next
    assume "\<exists>st y. reconciled c e st0 st \<and> persist st d = (y, d') \<and> (\<forall>s. x = Inr s \<longrightarrow> s = st \<and> y = Inr ())"
    with st0 show ?thesis by blast
  qed
qed

lemma load_ok:
  assumes "load c e d = (Inr st, d')"
  shows "\<exists>st0. read_state d = Inr st0 \<and> reconciled c e st0 st
    \<and> lookup_file d' = (lookup_file d)(att_path \<mapsto> Stored st)
    \<and> lock_ok d' = lock_ok d \<and> unlock_ok d' = unlock_ok d"
proof -
  from load_cases [OF assms] consider
      st0 where "d' = d" "read_state d = Inr st0" "reconciled c e st0 st" "st = st0"
    | st0 where "read_state d = Inr st0" "reconciled c e st0 st" "persist st d = (Inr (), d')" by blast
  then show ?thesis
  proof cases
    case 1
    then have "lookup_file d att_path = Some (Stored st)" by (simp add: results)
    then have "(lookup_file d)(att_path \<mapsto> Stored st) = lookup_file d" by (rule map_upd_triv)
    with 1 show ?thesis by metis
  next
    case 2
    with persist_ok [OF 2(3)] show ?thesis by blast
  qed
qed

lemma att_write_safe:
  assumes "persist st d = (y, d')" "all_good (att_ok c) d" "read_state d = Inr st0" "att_ok c st" "att_step st0 st"
  shows "all_good (att_ok c) d' \<and> evolves att_step d d'"
  using assms by (intro good_write [OF persist_cases]) (simp_all add: results)

lemma stored_ok: "all_good (att_ok c) d \<Longrightarrow> read_state d = Inr st \<Longrightarrow> att_ok c st"
  by (auto simp: all_good_def results)

lemma load_safe:
  assumes "load c e d = (x, d')" "all_good (att_ok c) d"
  shows "all_good (att_ok c) d' \<and> evolves att_step d d'"
  using load_cases [OF assms(1)]
proof
  assume "d' = d \<and> (\<forall>st. x = Inr st \<longrightarrow> (\<exists>st0. read_state d = Inr st0 \<and> reconciled c e st0 st \<and> st = st0))"
  with assms(2) show ?thesis by (simp add: evolves_eq)
next
  assume "\<exists>st0 st y. read_state d = Inr st0 \<and> reconciled c e st0 st \<and> persist st d = (y, d')
         \<and> (\<forall>s. x = Inr s \<longrightarrow> s = st \<and> y = Inr ())"
  then obtain st0 st y where s: "read_state d = Inr st0" "reconciled c e st0 st" "persist st d = (y, d')" by blast
  from att_write_safe [OF s(3) assms(2) s(1) reconciled_ok [OF s(2) stored_ok [OF assms(2) s(1)]]
      reconciled_step [OF s(2)]] show ?thesis .
qed

lemma with_lock_state: "with_lock e m d = (x, d') \<Longrightarrow> d' = d \<or> (\<exists>y. m d = (y, d'))"
  by (auto simp: with_lock_def pure_def locked_def split: if_splits prod.splits)

lemma with_lock_Inr [results]:
  "with_lock e m d = (Inr a, d') \<longleftrightarrow> \<not> lock_symlink e \<and> lock_ok d \<and> m d = (Inr a, d') \<and> unlock_ok d'"
  by (auto simp: with_lock_def results)

text \<open>What a successful operation has read and left behind.\<close>

lemma att_update_ok:
  assumes "att_update c e body d = (Inr a, d')"
  shows "\<exists>st0 st w. read_state d = Inr st0 \<and> reconciled c e st0 st \<and> body st = Inr (a, w)
    \<and> read_state d' = Inr (case w of None \<Rightarrow> st | Some st' \<Rightarrow> st')
    \<and> \<not> lock_symlink e \<and> lock_ok d' \<and> unlock_ok d'"
proof -
  from assms have env: "\<not> lock_symlink e" "lock_ok d" "unlock_ok d'"
    and run: "bind_op (load c e) (\<lambda>st. bind_op (pure (body st)) (\<lambda>(a, w). case w of None \<Rightarrow> pure (Inr a)
        | Some st' \<Rightarrow> bind_op (persist st') (\<lambda>_. pure (Inr a)))) d = (Inr a, d')"
    unfolding att_update_def with_lock_Inr by blast+
  from run obtain st d1 a1 w where l: "load c e d = (Inr st, d1)" and b1: "body st = Inr (a1, w)"
    and w1: "(case w of None \<Rightarrow> pure (Inr a1) | Some st' \<Rightarrow> bind_op (persist st') (\<lambda>_. pure (Inr a1))) d1 = (Inr a, d')"
    unfolding bind_op_Inr pure_eq split_paired_Ex prod.case by metis
  from w1 have "a1 = a" by (auto simp: results split: option.splits)
  with b1 w1 have b: "body st = Inr (a, w)"
    and w: "(case w of None \<Rightarrow> pure (Inr a) | Some st' \<Rightarrow> bind_op (persist st') (\<lambda>_. pure (Inr a))) d1 = (Inr a, d')"
    by (simp_all only:)
  from load_ok [OF l] obtain st0 where st0: "read_state d = Inr st0" "reconciled c e st0 st"
    and d1: "read_state d1 = Inr st" "lock_ok d1 = lock_ok d" by (auto simp: results)
  show ?thesis
  proof (cases w)
    case None
    with w have "d' = d1" by (simp add: results)
    with st0 d1 b None env show ?thesis by (intro exI [of _ st0] exI [of _ st] exI [of _ w]) simp
  next
    case (Some st')
    with w have "persist st' d1 = (Inr (), d')" by (simp add: results)
    from persist_ok [OF this] have "read_state d' = Inr st'" "lock_ok d' = lock_ok d1" by (simp_all add: results)
    with st0 d1 b Some env show ?thesis by (intro exI [of _ st0] exI [of _ st] exI [of _ w]) simp
  qed
qed

text \<open>The same operation again, on an inbox with nothing left to reconcile.\<close>

lemma att_update_again:
  assumes "read_state d = Inr st" "att_ok c st" "\<forall>a \<in> set (items st). unresolved c e a"
    "body st = Inr (a, None)" "\<not> lock_symlink e" "lock_ok d" "unlock_ok d"
  shows "att_update c e body d = (Inr a, d)"
proof -
  from assms(3) have "reconcile_local_parks c e st d = (Inr st, d)"
    by (simp add: reconcile_local_parks_def bind_op_def pure_def Let_def retain_unresolved_all)
  with assms have "load c e d = (Inr st, d)"
    by (simp add: load_def bind_op_def read_op_def pure_def att_ok_valid)
  with assms show ?thesis by (simp add: att_update_def with_lock_def locked_def bind_op_def pure_def)
qed

lemma reconciled_unresolved: "reconciled c e st0 st \<Longrightarrow> \<forall>a \<in> set (items st). unresolved c e a"
  by (simp add: reconciled_def)

locale inbox_update =
  guarded_update req "att_ok c" att_step body
  for c :: crates and req :: "'q \<Rightarrow> bool"
    and body :: "'q \<Rightarrow> persisted_attention \<Rightarrow> attention_error + 'a \<times> persisted_attention option"
begin

lemma inbox_safe:
  assumes req: "req q"
  shows "safe_op (att_ok c) att_step (att_update c e (body q))"
  unfolding safe_op_def
proof (intro allI impI)
  fix d x d'
  assume ok: "all_good (att_ok c) d" and run: "att_update c e (body q) d = (x, d')"
  obtain y d1 where l: "load c e d = (y, d1)" by (cases "load c e d")
  from load_safe [OF l ok] have g: "all_good (att_ok c) d1" "evolves att_step d d1" by auto
  let ?m = "bind_op (load c e) (\<lambda>st. bind_op (pure (body q st)) (\<lambda>(a, w).
       case w of None \<Rightarrow> pure (Inr a) | Some st' \<Rightarrow> bind_op (persist st') (\<lambda>_. pure (Inr a))))"
  from with_lock_state [OF run [unfolded att_update_def]] consider "d' = d" | z where "?m d = (z, d')" by blast
  then show "all_good (att_ok c) d' \<and> evolves att_step d d'"
  proof cases
    case 1
    with ok show ?thesis by (simp add: evolves_eq)
  next
    case 2
    have "d' = d1 \<or> (\<exists>st a st' z. y = Inr st \<and> body q st = Inr (a, Some st') \<and> persist st' d1 = (z, d'))"
    proof (cases y)
      case (Inl er)
      with 2 l show ?thesis by (simp add: bind_op_def)
    next
      case (Inr st)
      with 2 l show ?thesis
        by (cases "body q st") (auto simp: bind_op_def pure_def split: option.splits prod.splits sum.splits)
    qed
    then show ?thesis
    proof
      assume "d' = d1" with g show ?thesis by simp
    next
      assume "\<exists>st a st' z. y = Inr st \<and> body q st = Inr (a, Some st') \<and> persist st' d1 = (z, d')"
      then obtain st a st' z where w: "y = Inr st" "body q st = Inr (a, Some st')" "persist st' d1 = (z, d')"
        by blast
      from load_ok [OF l [unfolded w(1)]] have r: "read_state d1 = Inr st" by (auto simp: results)
      from body_step [OF req stored_ok [OF g(1) r] w(2)] have "att_ok c st'" "att_step st st'" by auto
      from att_write_safe [OF w(3) g(1) r this] g(2) show ?thesis using evolves_trans by blast
    qed
  qed
qed

end

subsection \<open>Every decision keeps the invariant\<close>

lemma written_step:
  "written (st\<lparr>items := as\<rparr>) = Inr (s, Some st') \<Longrightarrow> att_ok c st \<Longrightarrow> items_ok c as \<Longrightarrow> att_ok c st' \<and> att_step st st'"
  by (auto simp: written_def results att_okD intro!: att_step_advance)

interpretation unchanged_update: inbox_update c "\<lambda>_ :: unit. True" "\<lambda>_. unchanged" for c
  by unfold_locales (simp add: unchanged_def)

interpretation retain_update: inbox_update c "\<lambda>_. True" retain_body for c
proof unfold_locales
  fix q :: "attention_item \<Rightarrow> bool" and r a r'
  assume ok: "att_ok c r" and run: "retain_body q r = Inr (a, Some r')"
  from run have "written (r\<lparr>items := filter q (items r)\<rparr>) = Inr (a, Some r')"
    by (auto simp: retain_body_def unchanged_def Let_def split: if_splits)
  from written_step [OF this ok items_ok_filter [OF att_okD(1) [OF ok]]]
  show "att_ok c r' \<and> att_step r r'" .
qed

lemma items_ok_update:
  assumes ok: "items_ok c as" and i: "i < length as" and a: "validate_item c a = Inr ()"
    and key: "item_key a = item_key (as ! i)"
  shows "items_ok c (sort_items (as[i := a]))"
proof (rule items_ok_sorted)
  show "distinct (map item_key (as[i := a]))"
    using ok map_update_same [OF i key] by (simp add: items_ok_def)
  show "\<forall>x \<in> set (as[i := a]). validate_item c x = Inr ()"
    using ok a set_update_subset_insert [of as i a] by (auto simp: items_ok_def)
qed

lemma items_ok_insert:
  "items_ok c as \<Longrightarrow> validate_item c a = Inr () \<Longrightarrow> item_key a \<notin> item_key ` set as \<Longrightarrow>
     items_ok c (sort_items (as @ [a]))"
  by (rule items_ok_sorted) (auto simp: items_ok_def)

interpretation eligible_update: inbox_update c "\<lambda>_. True" "\<lambda>(k, el). set_eligible_body k el" for c
proof unfold_locales
  fix q :: "attention_key \<times> bool" and r a r'
  assume ok: "att_ok c r" and run: "(case q of (k, el) \<Rightarrow> set_eligible_body k el) r = Inr (a, Some r')"
  obtain k el where q: "q = (k, el)" by (cases q)
  from run q obtain i where i: "find_key k (items r) = Some i"
    and w: "written (r\<lparr>items := (items r)[i := (items r ! i)\<lparr>eligible := el\<rparr>]\<rparr>) = Inr (a, Some r')"
    by (auto simp: set_eligible_body_def unchanged_def results split: if_splits)
  from find_key_Some [OF i] have il: "i < length (items r)" by simp
  have v: "validate_item c (items r ! i) = Inr ()" using att_okD(1) [OF ok] il by (simp add: items_ok_def)
  have srt: "sorted (map sort_rank ((items r)[i := (items r ! i)\<lparr>eligible := el\<rparr>]))"
    using att_okD(1) [OF ok] map_update_same [OF il, of sort_rank "(items r ! i)\<lparr>eligible := el\<rparr>"]
    by (simp add: items_ok_def sort_rank_def)
  from items_ok_update [OF att_okD(1) [OF ok] il, of "(items r ! i)\<lparr>eligible := el\<rparr>"] v
  have "items_ok c ((items r)[i := (items r ! i)\<lparr>eligible := el\<rparr>])"
    by (simp add: sort_items_id [OF srt])
  from written_step [OF w ok this] show "att_ok c r' \<and> att_step r r'" .
qed

text \<open>The item an \<open>upsert\<close> writes over a current one.\<close>

definition refreshed :: "crates \<Rightarrow> attention_draft \<Rightarrow> attention_item \<Rightarrow> attention_item" where
  "refreshed c a current =
     (if is_local_park c (draft_key a)
      then (item_of_draft False a)\<lparr>created_at_ms := created_at_ms current\<rparr>
      else item_of_draft False a)\<lparr>eligible := eligible current\<rparr>"

lemma refreshed_key [simp]: "item_key (refreshed c a cur) = draft_key a"
  by (simp add: refreshed_def)

lemma refreshed_valid:
  "validate_attention_draft c a = Inr u \<Longrightarrow> validate_item c cur = Inr () \<Longrightarrow>
     validate_item c (refreshed c a cur) = Inr ()"
  by (auto simp: refreshed_def draft_item_valid validate_item_nonzero intro!: validate_item_time)

lemma upsert_body_Some:
  assumes "upsert_body c e a st = Inr (s, Some st')"
  shows "local_park_resolved c e (draft_key a) = Inr False \<and> s = snapshot_of st' \<and>
    (\<exists>n as. unat n = Suc (unat (generation st)) \<and> st' = st\<lparr>items := sort_items as, generation := n\<rparr> \<and>
      ((\<exists>i. find_key (draft_key a) (items st) = Some i \<and> as = (items st)[i := refreshed c a (items st ! i)])
       \<or> (find_key (draft_key a) (items st) = None \<and> as = items st @ [item_of_draft False a])))"
proof -
  from assms have res: "local_park_resolved c e (draft_key a) = Inr False"
    by (auto simp: upsert_body_def results unchanged_def split: if_splits)
  show ?thesis
  proof (cases "find_key (draft_key a) (items st)")
    case None
    with assms res show ?thesis by (auto simp: upsert_body_def Let_def results)
  next
    case (Some i)
    with assms res show ?thesis
      by (auto simp: upsert_body_def Let_def results unchanged_def refreshed_def split: if_splits)
  qed
qed

lemma upsert_body_None:
  assumes "upsert_body c e a st = Inr (s, None)"
  shows "s = snapshot_of st \<and> (local_park_resolved c e (draft_key a) = Inr True \<or>
     local_park_resolved c e (draft_key a) = Inr False \<and>
     (\<exists>i. find_key (draft_key a) (items st) = Some i \<and> refreshed c a (items st ! i) = items st ! i))"
proof (cases "local_park_resolved c e (draft_key a) = Inr True")
  case True
  with assms show ?thesis by (simp add: upsert_body_def unchanged_def)
next
  case False
  with assms have res: "local_park_resolved c e (draft_key a) = Inr False"
    by (auto simp: upsert_body_def results split: if_splits)
  with assms obtain i where i: "find_key (draft_key a) (items st) = Some i"
    and s: "s = snapshot_of st"
    and same: "same_content (items st ! i) (refreshed c a (items st ! i))"
    by (auto simp: upsert_body_def Let_def results unchanged_def refreshed_def same_content_def
        split: if_splits option.splits)
  from same have "refreshed c a (items st ! i) = items st ! i"
    by (auto simp: same_content_def refreshed_def intro!: attention_item.equality)
  with res i s show ?thesis by blast
qed

lemma upsert_body_fixpoint:
  assumes "local_park_resolved c e (draft_key a) = Inr False"
    and "find_key (draft_key a) (items st) = Some i" "refreshed c a (items st ! i) = items st ! i"
  shows "upsert_body c e a st = Inr (snapshot_of st, None)"
proof -
  let ?item = "if is_local_park c (draft_key a)
      then (item_of_draft False a)\<lparr>created_at_ms := created_at_ms (items st ! i)\<rparr> else item_of_draft False a"
  have "same_content (refreshed c a (items st ! i)) ?item"
    by (auto simp: same_content_def refreshed_def)
  with assms(3) have "same_content (items st ! i) ?item" by simp
  with assms show ?thesis by (simp add: upsert_body_def Let_def unchanged_def)
qed

lemma upsert_body_step:
  assumes v: "validate_attention_draft c a = Inr ()" and ok: "att_ok c st"
    and run: "upsert_body c e a st = Inr (s, Some st')"
  shows "att_ok c st' \<and> att_step st st'"
proof -
  from upsert_body_Some [OF run] obtain n as where n: "unat n = Suc (unat (generation st))"
    and st': "st' = st\<lparr>items := sort_items as, generation := n\<rparr>"
    and as: "(\<exists>i. find_key (draft_key a) (items st) = Some i \<and> as = (items st)[i := refreshed c a (items st ! i)])
       \<or> (find_key (draft_key a) (items st) = None \<and> as = items st @ [item_of_draft False a])" by blast
  note its = att_okD(1) [OF ok]
  from as have "items_ok c (sort_items as)"
  proof
    assume "\<exists>i. find_key (draft_key a) (items st) = Some i \<and> as = (items st)[i := refreshed c a (items st ! i)]"
    then obtain i where i: "find_key (draft_key a) (items st) = Some i"
      and as: "as = (items st)[i := refreshed c a (items st ! i)]" by blast
    note fk = find_key_Some [OF i]
    then have "validate_item c (items st ! i) = Inr ()" using its by (simp add: items_ok_def)
    with fk show ?thesis unfolding as
      by (intro items_ok_update [OF its]) (simp_all add: refreshed_valid [OF v])
  next
    assume "find_key (draft_key a) (items st) = None \<and> as = items st @ [item_of_draft False a]"
    then show ?thesis using its
      by (auto intro!: items_ok_insert simp: draft_item_valid [OF v] find_key_None)
  qed
  with ok n show ?thesis by (auto simp: st' att_okD intro!: att_step_advance)
qed

interpretation upsert_update: inbox_update c "\<lambda>a. validate_attention_draft c a = Inr ()" "upsert_body c e" for c e
  by unfold_locales (rule upsert_body_step)

lemma apply_change_ok:
  assumes its: "items_ok c as"
    and v: "case ch of Upsert a \<Rightarrow> validate_attention_draft c a = Inr () | _ \<Rightarrow> True"
  shows "items_ok c (sort_items (apply_change as ch))"
proof -
  have flt: "items_ok c (sort_items (filter P as))" for P
    using items_ok_filter [OF its, of P] by (simp add: items_ok_def)
  show ?thesis
  proof (cases ch)
    case (Upsert a)
    with v have va: "validate_item c (item_of_draft True a) = Inr ()" by (simp add: draft_item_valid)
    show ?thesis
    proof (cases "find_key (draft_key a) as")
      case None
      then have "draft_key a \<notin> item_key ` set as" using find_key_None by blast
      with items_ok_insert [OF its va] Upsert None show ?thesis
        by (simp add: apply_change_def Let_def)
    next
      case (Some i)
      with items_ok_update [OF its _ va] find_key_Some [OF Some] Upsert show ?thesis
        by (simp add: apply_change_def Let_def)
    qed
  qed (simp_all add: apply_change_def flt)
qed

lemma project_body_cases:
  assumes "project_body p digest st = Inr (r, w)"
  shows "pr_sequence r = bp_sequence p \<and> pr_digest r = digest \<and>
    (if pr_applied r
     then unat (bp_sequence p) = Suc (unat (cursor_of st)) \<and>
       (\<exists>n. unat n = Suc (unat (generation st)) \<and>
         w = Some (st\<lparr>items := sort_items (apply_change (items st) (bp_change p)), generation := n,
           broker_projection := Some \<lparr>cur_sequence = bp_sequence p, cur_digest = digest\<rparr>\<rparr>))
     else bp_sequence p \<le> cursor_of st \<and> w = Some st \<and>
       (bp_sequence p = cursor_of st \<longrightarrow> (\<forall>cu. broker_projection st = Some cu \<longrightarrow> cur_digest cu = digest)))"
  using assms unfolding cursor_of_def
  by (cases "broker_projection st")
    (auto simp: project_body_def Let_def results word_results split: if_splits)

lemma project_body_step:
  assumes v: "validate_projection c p = Inr ()" and dg: "length digest = 64" "list_all is_lower_hex digest"
    and ok: "att_ok c st" and run: "project_body p digest st = Inr (r, Some st')"
  shows "att_ok c st' \<and> att_step st st'"
proof (cases "pr_applied r")
  case False
  with project_body_cases [OF run] ok show ?thesis by simp
next
  case True
  with project_body_cases [OF run] obtain n where n: "unat n = Suc (unat (generation st))"
    and sq: "unat (bp_sequence p) = Suc (unat (cursor_of st))"
    and st': "st' = st\<lparr>items := sort_items (apply_change (items st) (bp_change p)), generation := n,
           broker_projection := Some \<lparr>cur_sequence = bp_sequence p, cur_digest = digest\<rparr>\<rparr>" by auto
  from v have "case bp_change p of Upsert a \<Rightarrow> validate_attention_draft c a = Inr () | _ \<Rightarrow> True"
    by (auto simp: validate_projection_def results split: projection_change.splits)
  from apply_change_ok [OF att_okD(1) [OF ok] this]
  have "items_ok c (sort_items (apply_change (items st) (bp_change p)))" .
  moreover from v have "bp_sequence p \<noteq> 0" by (simp add: validate_projection_def results)
  ultimately have "att_ok c st'"
    using ok dg by (simp add: att_ok_def st' cursor_ok_def validate_cursor_def)
  moreover have "att_step st st'"
    using n sq by (intro att_step_advance [OF n]) (simp_all add: st' cursor_of_def word_le_nat_alt)
  ultimately show ?thesis ..
qed

interpretation project_update: inbox_update c
  "\<lambda>(p, digest). validate_projection c p = Inr () \<and> length digest = 64 \<and> list_all is_lower_hex digest"
  "\<lambda>(p, digest). project_body p digest" for c
  by unfold_locales (auto dest: project_body_step)

subsection \<open>Every operation keeps the invariant\<close>

lemma att_snapshot_safe: "safe_op (att_ok c) att_step (att_snapshot c e)"
  unfolding att_snapshot_def using unchanged_update.inbox_safe by simp

lemma upsert_safe: "safe_op (att_ok c) att_step (upsert c e a)"
  unfolding upsert_def by (intro safe_validated upsert_update.inbox_safe) simp

lemma set_eligible_safe: "safe_op (att_ok c) att_step (set_eligible c e k el)"
  unfolding set_eligible_def using eligible_update.inbox_safe [where q = "(k, el)"]
  by (intro safe_validated) simp

lemma clear_safe: "safe_op (att_ok c) att_step (clear c e k)"
  unfolding clear_def by (intro safe_validated retain_update.inbox_safe) simp

lemma clear_session_kind_safe: "safe_op (att_ok c) att_step (clear_session_kind c e sid k)"
  unfolding clear_session_kind_def by (intro safe_validated retain_update.inbox_safe) simp

lemma clear_session_safe: "safe_op (att_ok c) att_step (clear_session c e sid)"
  unfolding clear_session_def by (intro safe_validated retain_update.inbox_safe) simp

lemma lower_hex_digest:
  "length bs = 32 \<Longrightarrow> length (lower_hex bs) = 64 \<and> list_all is_lower_hex (lower_hex bs)"
  using lower_hex_all_lower [of bs] by (simp add: list_all_iff)

lemma project_safe:
  assumes "\<And>s. length (sha256 c s) = 32"
  shows "safe_op (att_ok c) att_step (project c j e p)"
  unfolding project_def Let_def
  using project_update.inbox_safe [where q = "(p, lower_hex (sha256 c (j p)))"] lower_hex_digest [OF assms]
  by (intro safe_validated) simp

lemma open_store_safe: "safe_op (att_ok c) att_step (open_store c e)"
  unfolding safe_op_def
proof (intro allI impI)
  fix d x d'
  assume ok: "all_good (att_ok c) d" and run: "open_store c e d = (x, d')"
  let ?st = "\<lparr>att_schema_version = 1, generation = 0, items = [], broker_projection = None\<rparr>"
  have st: "att_ok c ?st" by (simp add: att_ok_def cursor_ok_def)
  from with_lock_state [OF run [unfolded open_store_def]] show "all_good (att_ok c) d' \<and> evolves att_step d d'"
  proof
    assume "d' = d" with ok show ?thesis by (simp add: evolves_eq)
  next
    assume "\<exists>y. (if state_symlink e then (Inl (Att_Invalid ''Attention state is a symlink''), d)
       else if lookup_file d att_path \<noteq> None then load c e d
       else let st = ?st in bind_op (persist st) (\<lambda>_. pure (Inr st)) d) = (y, d')"
    then consider "d' = d" | y where "load c e d = (y, d')"
      | z where "lookup_file d att_path = None" "persist ?st d = (z, d')"
      by (auto simp: bind_op_def pure_def Let_def split: if_splits prod.splits sum.splits)
    then show ?thesis
    proof cases
      case 1 with ok show ?thesis by (simp add: evolves_eq)
    next
      case 2 from load_safe [OF this ok] show ?thesis .
    next
      case 3
      from good_create [OF persist_cases [OF 3(2)] ok 3(1) st] show ?thesis .
    qed
  qed
qed

subsection \<open>Histories\<close>

text \<open>Every call of an operation, in any environment and with any faults, and any change of the environment.\<close>

inductive inbox_step ::
  "crates \<Rightarrow> (broker_projection_entry \<Rightarrow> string) \<Rightarrow> persisted_attention disk \<Rightarrow> persisted_attention disk \<Rightarrow> bool"
  for c j where
  open_store: "open_store c e d = (x1, d') \<Longrightarrow> inbox_step c j d d'"
| snapshot: "att_snapshot c e d = (x2, d') \<Longrightarrow> inbox_step c j d d'"
| upsert: "upsert c e a d = (x3, d') \<Longrightarrow> inbox_step c j d d'"
| set_eligible: "set_eligible c e k el d = (x4, d') \<Longrightarrow> inbox_step c j d d'"
| clear: "clear c e k d = (x5, d') \<Longrightarrow> inbox_step c j d d'"
| clear_session_kind: "clear_session_kind c e sid kd d = (x6, d') \<Longrightarrow> inbox_step c j d d'"
| clear_session: "clear_session c e sid d = (x7, d') \<Longrightarrow> inbox_step c j d d'"
| project: "project c j e p d = (x8, d') \<Longrightarrow> inbox_step c j d d'"
| environment: "files d' = files d \<Longrightarrow> inbox_step c j d d'"

definition reachable_inbox ::
  "crates \<Rightarrow> (broker_projection_entry \<Rightarrow> string) \<Rightarrow> persisted_attention disk \<Rightarrow> bool" where
  "reachable_inbox c j d \<longleftrightarrow> (\<exists>d0. files d0 = [] \<and> (inbox_step c j)\<^sup>*\<^sup>* d0 d)"

lemma inbox_step_safe:
  assumes "inbox_step c j d d'" and "\<And>s. length (sha256 c s) = 32" and "all_good (att_ok c) d"
  shows "all_good (att_ok c) d' \<and> evolves att_step d d'"
  using assms(1,3)
proof (induction rule: inbox_step.induct)
  case (project e p d x d')
  then show ?case using safe_opD [OF project_safe] assms(2) by blast
next
  case (environment d' d)
  then show ?case by (intro same_files) (simp_all add: lookup_file_def)
qed (rule safe_opD [OF open_store_safe] safe_opD [OF att_snapshot_safe] safe_opD [OF upsert_safe]
    safe_opD [OF set_eligible_safe] safe_opD [OF clear_safe] safe_opD [OF clear_session_kind_safe]
    safe_opD [OF clear_session_safe]; assumption)+

lemma inbox_history_safe:
  assumes "(inbox_step c j)\<^sup>*\<^sup>* d d'" and "\<And>s. length (sha256 c s) = 32" and "all_good (att_ok c) d"
  shows "all_good (att_ok c) d' \<and> evolves att_step d d'"
  using assms(1)
proof (induction rule: rtranclp_induct)
  case base
  with assms(3) show ?case by (simp add: evolves_eq)
next
  case (step x y)
  then show ?case using inbox_step_safe [OF step.hyps(2) assms(2)] evolves_trans by blast
qed

lemma reachable_inbox_ok:
  assumes "reachable_inbox c j d" and "\<And>s. length (sha256 c s) = 32"
  shows "all_good (att_ok c) d"
proof -
  from assms(1) obtain d0 where d0: "files d0 = []" "(inbox_step c j)\<^sup>*\<^sup>* d0 d" by (auto simp: reachable_inbox_def)
  from d0(1) have "all_good (att_ok c) d0" by (simp add: all_good_def lookup_file_def)
  with inbox_history_safe [OF d0(2) assms(2)] show ?thesis by simp
qed

end
