(* ===== verification/Attention_Properties.thy ===== *)
theory Attention_Properties
  imports Attention_Safety
begin

section \<open>What the Attention inbox guarantees\<close>

text \<open>
  The properties of \<open>AttentionStore\<close>: validity and change detection over histories, the effect
  and the retry behaviour of upsert and clear, what reconciliation may drop, and the ordered
  projection from the broker; with a small inbox on which they are evaluated.
\<close>

subsection \<open>A concrete inbox\<close>

definition demo_env :: att_env where
  "demo_env = \<lparr>env_runs = None, env_now_ms = 7, lock_symlink = False, state_symlink = False\<rparr>"

definition demo_inbox :: "persisted_attention \<Rightarrow> persisted_attention disk" where
  "demo_inbox st = \<lparr>files = [(att_path, Stored st)], listable = True, lock_ok = True,
     unlock_ok = True, write_faults = []\<rparr>"

definition demo_draft_for :: "string \<Rightarrow> u64 \<Rightarrow> attention_draft" where
  "demo_draft_for sid t = \<lparr>adr_subject_kind = Session, adr_subject_id = sid, adr_kind = TurnReady,
     adr_source_operation_id = ''op'', adr_created_at_ms = t, adr_linked_run_id = None,
     adr_stage = Some ''impl'', adr_code = None, adr_withdrawal = None\<rparr>"

definition demo_crates2 :: crates where
  "demo_crates2 = \<lparr>uuid_text = (\<lambda>s. Some s), sha256 = (\<lambda>s. replicate 32 1), uuid_from_bytes = lower_hex\<rparr>"

definition demo_state :: "u64 \<Rightarrow> attention_item list \<Rightarrow> persisted_attention" where
  "demo_state g as = \<lparr>att_schema_version = 1, generation = g, items = as, broker_projection = None\<rparr>"

definition demo_item :: attention_item where
  "demo_item = item_of_draft False (demo_draft_for ''s1'' 5)"

lemma demo_draft_valid [simp]: "t \<noteq> 0 \<Longrightarrow> validate_attention_draft demo_crates2 (demo_draft_for ''s1'' t) = Inr ()"
  by (simp add: validate_attention_draft_def demo_draft_for_def validate_key_def draft_key_def
      validate_subject_id_def utf8_extra_def utf8_lead_def byte_of_def is_control_def is_whitespace_def
      validate_uuid_def demo_crates2_def validate_context_def validate_linked_run_def validate_stage_def
      stage_byte_def is_ascii_alphanumeric_def is_ascii_lower_def is_ascii_upper_def is_ascii_digit_def
      validate_code_def validate_withdrawal_def)

lemma demo_env_simps [simp]: "local_park_resolved c demo_env k = Inr False" "\<not> lock_symlink demo_env"
    "\<not> state_symlink demo_env" "unresolved c demo_env a"
  by (simp_all add: local_park_resolved_def demo_env_def unresolved_def)

lemma demo_inbox_simps [simp]:
  "lock_ok (demo_inbox st)" "unlock_ok (demo_inbox st)" "write_faults (demo_inbox st) = []"
  "read_state (demo_inbox st) = Inr st" "lookup_file (demo_inbox st) att_path = Some (Stored st)"
  by (simp_all add: demo_inbox_def results lookup_file_def)

lemma demo_persist [simp]: "persist st' (demo_inbox st) = (Inr (), demo_inbox st')"
  by (simp add: persist_def write_op_def write_atomic_def next_fault_def Let_def demo_inbox_def)

lemma demo_update_inbox:
  assumes "att_ok c st" "body st = Inr (a, Some st')"
  shows "att_update c demo_env body (demo_inbox st) = (Inr a, demo_inbox st')"
  using assms att_ok_valid [OF assms(1)]
  by (simp add: att_update_def with_lock_def locked_def bind_op_def pure_def load_def read_op_def
      reconcile_local_parks_def Let_def retain_unresolved_all)

lemma demo_empty_ok: "att_ok c (demo_state g [])"
  by (simp add: demo_state_def att_ok_def cursor_ok_def)

lemma demo_upsert:
  "upsert demo_crates2 demo_env (demo_draft_for ''s1'' 5) (demo_inbox (demo_state 0 []))
     = (Inr (snapshot_of (demo_state 1 [demo_item])), demo_inbox (demo_state 1 [demo_item]))"
proof -
  have "upsert_body demo_crates2 demo_env (demo_draft_for ''s1'' 5) (demo_state 0 [])
      = Inr (snapshot_of (demo_state 1 [demo_item]), Some (demo_state 1 [demo_item]))"
    by (simp add: upsert_body_def Let_def find_key_def demo_state_def advance_generation_def
        checked_add_def sort_items_def demo_item_def)
  from demo_update_inbox [where body = "upsert_body demo_crates2 demo_env (demo_draft_for ''s1'' 5)", OF demo_empty_ok this]
  show ?thesis by (simp add: upsert_def bind_op_def pure_def)
qed

lemma demo_open:
  "open_store c demo_env (demo_inbox st\<lparr>files := []\<rparr>) = (Inr (demo_state 0 []), demo_inbox (demo_state 0 []))"
  by (simp add: open_store_def with_lock_def locked_def bind_op_def pure_def persist_def write_op_def
      write_atomic_def next_fault_def Let_def demo_inbox_def demo_state_def lookup_file_def)

lemma demo_sha [simp]: "length (sha256 demo_crates2 s) = 32"
  by (simp add: demo_crates2_def)

lemma demo_reachable_empty: "reachable_inbox c j (demo_inbox (demo_state 0 []))"
  unfolding reachable_inbox_def
  by (intro exI [of _ "demo_inbox (demo_state 0 [])\<lparr>files := []\<rparr>"] conjI r_into_rtranclp
      inbox_step.open_store [OF demo_open]) simp

lemma reachable_inbox_step: "reachable_inbox c j d \<Longrightarrow> inbox_step c j d d' \<Longrightarrow> reachable_inbox c j d'"
  by (auto simp: reachable_inbox_def intro: rtranclp.rtrancl_into_rtrancl)

lemma demo_reachable_one: "reachable_inbox demo_crates2 j (demo_inbox (demo_state 1 [demo_item]))"
  by (rule reachable_inbox_step [OF demo_reachable_empty inbox_step.upsert [OF demo_upsert]])

subsection \<open>Validity and change detection\<close>

text \<open>C7: In every reachable inbox directory the stored state passes its own load-time validation,
  and no two items have the same key.\<close>

theorem inbox_stays_valid:
  assumes "reachable_inbox c j d" and "\<forall>s. length (sha256 c s) = 32"
    and "lookup_file d att_path = Some (Stored st)"
  shows "validate_state c st = Inr () \<and> distinct (map item_key (items st))"
proof -
  have "att_ok c st" using reachable_inbox_ok [OF assms(1)] assms(2,3) by (simp add: all_good_def)
  then show ?thesis using att_ok_valid by (simp add: att_ok_def items_ok_def)
qed

theorem inbox_stays_valid_witness:
  "validate_state demo_crates2 (demo_state 1 [demo_item]) = Inr ()"
  using inbox_stays_valid [OF demo_reachable_one] by simp

lemma att_steps: "att_step\<^sup>*\<^sup>* st st' \<Longrightarrow> att_step st st'"
proof (induction rule: rtranclp_induct)
  case base
  then show ?case by simp
next
  case (step x y)
  then show ?case unfolding att_step_def
    by (metis order.trans order.antisym)
qed

theorem inbox_generation_counts_changes:
  assumes "reachable_inbox c j d" and "\<forall>s. length (sha256 c s) = 32"
    and "(inbox_step c j)\<^sup>*\<^sup>* d d'" and "lookup_file d att_path = Some (Stored st)"
  shows "\<exists>st'. lookup_file d' att_path = Some (Stored st') \<and> generation st \<le> generation st'
    \<and> cursor_of st \<le> cursor_of st' \<and> (generation st' = generation st \<longrightarrow> items st' = items st)"
proof -
  have ok: "all_good (att_ok c) d" using reachable_inbox_ok [OF assms(1)] assms(2) by simp
  from inbox_history_safe [OF assms(3) _ ok] assms(2,4)
  obtain st' where "lookup_file d' att_path = Some (Stored st')" "att_step\<^sup>*\<^sup>* st st'"
    unfolding evolves_def by blast
  with att_steps show ?thesis by (auto simp: att_step_def)
qed

theorem inbox_generation_counts_changes_witness:
  "generation (demo_state 0 []) \<le> generation (demo_state 1 [demo_item])"
proof -
  have "(inbox_step demo_crates2 (\<lambda>_. []))\<^sup>*\<^sup>* (demo_inbox (demo_state 0 [])) (demo_inbox (demo_state 1 [demo_item]))"
    by (rule r_into_rtranclp, rule inbox_step.upsert [OF demo_upsert])
  from inbox_generation_counts_changes [OF demo_reachable_empty _ this] show ?thesis by simp
qed

subsection \<open>Upsert\<close>

lemma upsert_ok:
  assumes "upsert c e a d = (Inr s, d')"
  shows "validate_attention_draft c a = Inr () \<and> (\<exists>st0 st w. read_state d = Inr st0 \<and> reconciled c e st0 st
    \<and> upsert_body c e a st = Inr (s, w) \<and> read_state d' = Inr (case w of None \<Rightarrow> st | Some st' \<Rightarrow> st')
    \<and> \<not> lock_symlink e \<and> lock_ok d' \<and> unlock_ok d')"
  using assms att_update_ok [of c e "upsert_body c e a" d s d'] by (simp add: upsert_def results)

lemma upsert_result:
  assumes ok: "att_ok c st" and b: "upsert_body c e a st = Inr (s, w)"
    and un: "\<forall>x \<in> set (items st). unresolved c e x"
  shows "s = snapshot_of (case w of None \<Rightarrow> st | Some st' \<Rightarrow> st') \<and>
    (local_park_resolved c e (draft_key a) = Inr True \<and> w = None \<or>
     local_park_resolved c e (draft_key a) = Inr False \<and>
     (\<exists>x \<in> set (items (case w of None \<Rightarrow> st | Some st' \<Rightarrow> st')). item_key x = draft_key a \<and> refreshed c a x = x))
    \<and> (\<forall>x. item_key x \<noteq> draft_key a \<longrightarrow>
         (x \<in> set (items (case w of None \<Rightarrow> st | Some st' \<Rightarrow> st')) \<longleftrightarrow> x \<in> set (items st)))
    \<and> (\<forall>x \<in> set (items (case w of None \<Rightarrow> st | Some st' \<Rightarrow> st')). unresolved c e x \<and>
        (eligible x \<longrightarrow> (\<exists>y \<in> set (items st). item_key y = item_key x \<and> eligible y)))"
proof (cases w)
  case None
  from upsert_body_None [OF b [unfolded None]] un None show ?thesis
    by (auto dest!: find_key_Some intro: nth_mem)
next
  case (Some st')
  from upsert_body_Some [OF b [unfolded Some]] obtain n as where
    res: "local_park_resolved c e (draft_key a) = Inr False" and s: "s = snapshot_of st'"
    and st': "st' = st\<lparr>items := sort_items as, generation := n\<rparr>"
    and as: "(\<exists>i. find_key (draft_key a) (items st) = Some i \<and> as = (items st)[i := refreshed c a (items st ! i)])
       \<or> (find_key (draft_key a) (items st) = None \<and> as = items st @ [item_of_draft False a])" by blast
  have set': "set (items st') = set as" by (simp add: st')
  have dist: "distinct (map item_key (items st))" using att_okD(1) [OF ok] by (simp add: items_ok_def)
  have idem: "refreshed c a (refreshed c a x) = refreshed c a x" for x by (simp add: refreshed_def)
  have new: "refreshed c a (item_of_draft False a) = item_of_draft False a"
    by (simp add: refreshed_def item_of_draft_def)
  have un_new: "item_key x = draft_key a \<Longrightarrow> unresolved c e x" for x using res by (simp add: unresolved_def)
  from as have "(\<exists>x \<in> set as. item_key x = draft_key a \<and> refreshed c a x = x)
    \<and> (\<forall>x. item_key x \<noteq> draft_key a \<longrightarrow> (x \<in> set as \<longleftrightarrow> x \<in> set (items st)))
    \<and> (\<forall>x \<in> set as. unresolved c e x \<and> (eligible x \<longrightarrow> (\<exists>y \<in> set (items st). item_key y = item_key x \<and> eligible y)))"
  proof
    assume "\<exists>i. find_key (draft_key a) (items st) = Some i \<and> as = (items st)[i := refreshed c a (items st ! i)]"
    then obtain i where i: "find_key (draft_key a) (items st) = Some i"
      and as: "as = (items st)[i := refreshed c a (items st ! i)]" by blast
    note fk = find_key_Some [OF i]
    have mem: "x \<in> set as \<longleftrightarrow> x = refreshed c a (items st ! i) \<or> (\<exists>j < length (items st). j \<noteq> i \<and> x = items st ! j)" for x
      using fk by (auto simp: as in_set_conv_nth nth_list_update)
    have other: "x \<in> set as \<longleftrightarrow> x \<in> set (items st)" if "item_key x \<noteq> draft_key a" for x
      unfolding mem in_set_conv_nth [of x "items st"] using fk that by auto
    have el: "eligible (refreshed c a (items st ! i)) = eligible (items st ! i)" by (simp add: refreshed_def)
    have in_i: "items st ! i \<in> set (items st)" using fk by simp
    have all: "unresolved c e x \<and> (eligible x \<longrightarrow> (\<exists>y \<in> set (items st). item_key y = item_key x \<and> eligible y))"
      if "x \<in> set as" for x
    proof (cases "x = refreshed c a (items st ! i)")
      case True
      with el in_i fk un_new show ?thesis by auto
    next
      case False
      with that have "x \<in> set (items st)" by (auto simp: mem)
      with un show ?thesis by blast
    qed
    moreover have "refreshed c a (items st ! i) \<in> set as" by (simp add: mem)
    ultimately show ?thesis using other idem [of "items st ! i"] refreshed_key by blast
  next
    assume "find_key (draft_key a) (items st) = None \<and> as = items st @ [item_of_draft False a]"
    moreover have "\<not> eligible (item_of_draft False a)" by (simp add: item_of_draft_def)
    ultimately show ?thesis using un un_new new by auto
  qed
  with res s Some set' show ?thesis by simp
qed

theorem upsert_effect:
  assumes "reachable_inbox c j d" and "\<forall>s. length (sha256 c s) = 32"
    and "upsert c e a d = (Inr s, d')"
  shows "\<exists>st0 st'. read_state d = Inr st0 \<and> read_state d' = Inr st' \<and> s = snapshot_of st'
    \<and> (local_park_resolved c e (draft_key a) = Inr False \<longrightarrow>
        (\<exists>x \<in> set (items st'). item_key x = draft_key a \<and> stage x = adr_stage a
           \<and> linked_run_id x = adr_linked_run_id a \<and> code x = adr_code a \<and> withdrawal x = adr_withdrawal a))
    \<and> (\<forall>x. item_key x \<noteq> draft_key a \<longrightarrow>
         (x \<in> set (items st') \<longleftrightarrow> x \<in> set (items st0) \<and> unresolved c e x))
    \<and> (\<forall>x \<in> set (items st'). eligible x \<longrightarrow> (\<exists>y \<in> set (items st0). item_key y = item_key x \<and> eligible y))"
proof -
  have ok: "all_good (att_ok c) d" using reachable_inbox_ok [OF assms(1)] assms(2) by simp
  from upsert_ok [OF assms(3)] obtain st0 st w where r: "read_state d = Inr st0" "reconciled c e st0 st"
    and b: "upsert_body c e a st = Inr (s, w)" and r': "read_state d' = Inr (case w of None \<Rightarrow> st | Some st' \<Rightarrow> st')"
    by blast
  let ?st' = "case w of None \<Rightarrow> st | Some st' \<Rightarrow> st'"
  have its: "items st = filter (unresolved c e) (items st0)" using r(2) by (simp add: reconciled_def)
  note res = upsert_result [OF reconciled_ok [OF r(2) stored_ok [OF ok r(1)]] b reconciled_unresolved [OF r(2)]]
  have content: "refreshed c a x = x \<Longrightarrow> stage x = adr_stage a \<and> linked_run_id x = adr_linked_run_id a
      \<and> code x = adr_code a \<and> withdrawal x = adr_withdrawal a" for x
    by (erule subst) (simp add: refreshed_def item_of_draft_def)
  have "local_park_resolved c e (draft_key a) = Inr False \<longrightarrow>
        (\<exists>x \<in> set (items ?st'). item_key x = draft_key a \<and> stage x = adr_stage a
           \<and> linked_run_id x = adr_linked_run_id a \<and> code x = adr_code a \<and> withdrawal x = adr_withdrawal a)"
    using res content by auto
  moreover have "\<forall>x. item_key x \<noteq> draft_key a \<longrightarrow>
         (x \<in> set (items ?st') \<longleftrightarrow> x \<in> set (items st0) \<and> unresolved c e x)"
    using res its by auto
  moreover have "\<forall>x \<in> set (items ?st'). eligible x \<longrightarrow> (\<exists>y \<in> set (items st0). item_key y = item_key x \<and> eligible y)"
    using res its by fastforce
  ultimately show ?thesis using r(1) r' res by blast
qed

theorem upsert_effect_witness:
  "\<exists>x \<in> set (items (demo_state 1 [demo_item])). stage x = Some ''impl''"
  using upsert_effect [OF demo_reachable_empty _ demo_upsert] by (auto simp: demo_draft_for_def)

theorem upsert_retry_is_noop:
  assumes "reachable_inbox c j d" and "\<forall>s. length (sha256 c s) = 32"
    and "upsert c e a d = (Inr s, d')"
  shows "upsert c e a d' = (Inr s, d')"
proof -
  have ok: "all_good (att_ok c) d" using reachable_inbox_ok [OF assms(1)] assms(2) by simp
  from safe_opD [OF upsert_safe ok assms(3)] have ok': "all_good (att_ok c) d'" ..
  from upsert_ok [OF assms(3)] obtain st0 st w where v: "validate_attention_draft c a = Inr ()"
    and r: "read_state d = Inr st0" "reconciled c e st0 st"
    and b: "upsert_body c e a st = Inr (s, w)" and r': "read_state d' = Inr (case w of None \<Rightarrow> st | Some st' \<Rightarrow> st')"
    and env: "\<not> lock_symlink e" "lock_ok d'" "unlock_ok d'" by blast
  let ?st' = "case w of None \<Rightarrow> st | Some st' \<Rightarrow> st'"
  note res = upsert_result [OF reconciled_ok [OF r(2) stored_ok [OF ok r(1)]] b reconciled_unresolved [OF r(2)]]
  have st': "att_ok c ?st'" by (rule stored_ok [OF ok' r'])
  have "upsert_body c e a ?st' = Inr (s, None)"
  proof (cases "local_park_resolved c e (draft_key a) = Inr True")
    case True
    with res show ?thesis by (simp add: upsert_body_def unchanged_def)
  next
    case False
    with res obtain x where x: "x \<in> set (items ?st')" "item_key x = draft_key a" "refreshed c a x = x"
      and lp: "local_park_resolved c e (draft_key a) = Inr False" by blast
    from find_key_distinct [OF _ x(1)] st' x(2)
    obtain i where i: "find_key (draft_key a) (items ?st') = Some i" "items ?st' ! i = x"
      by (auto simp: att_ok_def items_ok_def)
    from upsert_body_fixpoint [OF lp i(1)] i(2) x(3) res show ?thesis by simp
  qed
  from att_update_again [where body = "upsert_body c e a", OF r' st' _ this env] res v
  show ?thesis by (simp add: upsert_def bind_op_def pure_def)
qed

theorem upsert_retry_is_noop_witness:
  "upsert demo_crates2 demo_env (demo_draft_for ''s1'' 5) (demo_inbox (demo_state 1 [demo_item]))
     = (Inr (snapshot_of (demo_state 1 [demo_item])), demo_inbox (demo_state 1 [demo_item]))"
  using upsert_retry_is_noop [OF demo_reachable_empty _ demo_upsert] by simp

subsection \<open>Clearing and reconciling\<close>

lemma clear_ok:
  assumes "clear c e k d = (Inr s, d')"
  shows "validate_key c k = Inr () \<and> (\<exists>st0 st st'. read_state d = Inr st0 \<and> reconciled c e st0 st
    \<and> items st' = filter (\<lambda>a. item_key a \<noteq> k) (items st) \<and> read_state d' = Inr st' \<and> s = snapshot_of st'
    \<and> \<not> lock_symlink e \<and> lock_ok d' \<and> unlock_ok d')"
proof -
  let ?P = "\<lambda>a. item_key a \<noteq> k"
  from assms have v: "validate_key c k = Inr ()" and run: "att_update c e (retain_body ?P) d = (Inr s, d')"
    by (auto simp: clear_def results)
  from att_update_ok [OF run] obtain st0 st w where r: "read_state d = Inr st0" "reconciled c e st0 st"
    and b: "retain_body ?P st = Inr (s, w)" and r': "read_state d' = Inr (case w of None \<Rightarrow> st | Some st' \<Rightarrow> st')"
    and env: "\<not> lock_symlink e" "lock_ok d'" "unlock_ok d'" by blast
  have "items (case w of None \<Rightarrow> st | Some st' \<Rightarrow> st') = filter ?P (items st)
      \<and> s = snapshot_of (case w of None \<Rightarrow> st | Some st' \<Rightarrow> st')"
  proof (cases "length (filter ?P (items st)) = length (items st)")
    case True
    from filter_length_id [OF this] b show ?thesis
      by (auto simp: retain_body_def Let_def unchanged_def snapshot_of_def)
  next
    case False
    with b show ?thesis by (auto simp: retain_body_def Let_def written_def results)
  qed
  with v r r' env show ?thesis by blast
qed

theorem clear_removes_exactly_the_key:
  assumes "clear c e k d = (Inr s, d')" and "reachable_inbox c j d" and "\<forall>s. length (sha256 c s) = 32"
  shows "(\<exists>st0. read_state d = Inr st0
      \<and> snap_items s = filter (\<lambda>a. unresolved c e a \<and> item_key a \<noteq> k) (items st0))
    \<and> clear c e k d' = (Inr s, d')"
proof -
  have ok: "all_good (att_ok c) d" using reachable_inbox_ok [OF assms(2)] assms(3) by simp
  from safe_opD [OF clear_safe ok assms(1)] have ok': "all_good (att_ok c) d'" ..
  from clear_ok [OF assms(1)] obtain st0 st st' where v: "validate_key c k = Inr ()"
    and r: "read_state d = Inr st0" "reconciled c e st0 st"
    and its: "items st' = filter (\<lambda>a. item_key a \<noteq> k) (items st)"
    and r': "read_state d' = Inr st'" and s: "s = snapshot_of st'"
    and env: "\<not> lock_symlink e" "lock_ok d'" "unlock_ok d'" by blast
  have "snap_items s = filter (\<lambda>a. unresolved c e a \<and> item_key a \<noteq> k) (items st0)"
    using r(2) its s by (simp add: snapshot_of_def reconciled_def conj_commute)
  moreover have "clear c e k d' = (Inr s, d')"
  proof -
    have "retain_body (\<lambda>a. item_key a \<noteq> k) st' = Inr (s, None)"
      by (simp add: retain_body_def its unchanged_def s snapshot_of_def Let_def)
    moreover have "\<forall>a \<in> set (items st'). unresolved c e a"
      using reconciled_unresolved [OF r(2)] its by simp
    ultimately show ?thesis
      using att_update_again [where body = "retain_body (\<lambda>a. item_key a \<noteq> k)", OF r' stored_ok [OF ok' r'] _ _ env] v
      by (simp add: clear_def bind_op_def pure_def)
  qed
  ultimately show ?thesis using r(1) by blast
qed

lemma demo_one_ok: "att_ok demo_crates2 (demo_state 1 [demo_item])"
proof (rule stored_ok)
  show "all_good (att_ok demo_crates2) (demo_inbox (demo_state 1 [demo_item]))"
    using reachable_inbox_ok [OF demo_reachable_one [of "\<lambda>_. []"]] by simp
  show "read_state (demo_inbox (demo_state 1 [demo_item])) = Inr (demo_state 1 [demo_item])" by simp
qed

lemma demo_clear:
  "clear demo_crates2 demo_env (draft_key (demo_draft_for ''s1'' 5)) (demo_inbox (demo_state 1 [demo_item]))
     = (Inr (snapshot_of (demo_state 2 [])), demo_inbox (demo_state 2 []))"
proof -
  have key: "item_key demo_item = draft_key (demo_draft_for ''s1'' 5)" by (simp add: demo_item_def)
  have "retain_body (\<lambda>a. item_key a \<noteq> draft_key (demo_draft_for ''s1'' 5)) (demo_state 1 [demo_item])
      = Inr (snapshot_of (demo_state 2 []), Some (demo_state 2 []))"
    by (simp add: retain_body_def key demo_state_def written_def advance_generation_def checked_add_def)
  moreover have "validate_key demo_crates2 (draft_key (demo_draft_for ''s1'' 5)) = Inr ()"
    using demo_draft_valid [of 5] by (auto simp: validate_attention_draft_def results)
  ultimately show ?thesis
    using demo_update_inbox [where body = "retain_body (\<lambda>a. item_key a \<noteq> draft_key (demo_draft_for ''s1'' 5))", OF demo_one_ok]
    by (simp add: clear_def bind_op_def pure_def)
qed

theorem clear_removes_exactly_the_key_witness:
  "clear demo_crates2 demo_env (draft_key (demo_draft_for ''s1'' 5)) (demo_inbox (demo_state 2 []))
     = (Inr (snapshot_of (demo_state 2 [])), demo_inbox (demo_state 2 []))"
  using clear_removes_exactly_the_key [OF demo_clear demo_reachable_one [of "\<lambda>_. []"]] by simp

theorem reconcile_drops_only_resolved_parks:
  assumes "att_snapshot c e d = (Inr s, d')"
  shows "\<exists>st0. read_state d = Inr st0 \<and> set (snap_items s) \<subseteq> set (items st0) \<and>
    (\<forall>a \<in> set (items st0) - set (snap_items s). is_local_park c (item_key a) \<and>
       (\<exists>runs v. env_runs e = Some runs \<and> find_view c (subject_id a) runs = Inr (Some v) \<and>
         (view_state v \<in> {''active'', ''disposed''} \<or> view_state v \<in> {''parked'', ''cold_parked''}
            \<and> 0 < view_park_expires_at_ms v \<and> view_park_expires_at_ms v \<le> env_now_ms e)))"
proof -
  from att_update_ok [OF assms [unfolded att_snapshot_def]] obtain st0 st w where
    r: "read_state d = Inr st0" "reconciled c e st0 st" and b: "unchanged st = Inr (s, w)" by blast
  from assms obtain d1 st1 where l: "load c e d = (Inr st1, d1)"
    by (auto simp: att_snapshot_def att_update_def results)
  from b have s: "snap_items s = items st" by (auto simp: unchanged_def snapshot_of_def)
  have its: "items st = filter (unresolved c e) (items st0)" using r(2) by (simp add: reconciled_def)
  from l r(1) obtain bs where bs: "retain_unresolved c e (items st0) = Inr bs"
    by (cases "retain_unresolved c e (items st0)")
      (auto simp: load_def bind_op_def pure_def read_op_def reconcile_local_parks_def split: sum.splits)
  from retain_unresolved_Inr [OF bs] have res: "\<forall>a \<in> set (items st0).
      local_park_resolved c e (item_key a) = Inr (\<not> unresolved c e a)" by simp
  have "is_local_park c (item_key a) \<and>
       (\<exists>runs v. env_runs e = Some runs \<and> find_view c (subject_id a) runs = Inr (Some v) \<and>
         (view_state v \<in> {''active'', ''disposed''} \<or> view_state v \<in> {''parked'', ''cold_parked''}
            \<and> 0 < view_park_expires_at_ms v \<and> view_park_expires_at_ms v \<le> env_now_ms e))"
    if a: "a \<in> set (items st0) - set (items st)" for a
  proof -
    from a its res have "local_park_resolved c e (item_key a) = Inr True" by auto
    moreover have "key_subject_id (item_key a) = subject_id a" by (simp add: item_key_def)
    ultimately show ?thesis
      by (auto simp: local_park_resolved_def results split: option.splits if_splits)
  qed
  with r(1) s its show ?thesis by (intro exI [of _ st0]) auto
qed

theorem reconcile_drops_only_resolved_parks_witness:
  "set (snap_items (snapshot_of (demo_state 2 []))) \<subseteq> set (items (demo_state 2 []))"
proof -
  have "att_snapshot demo_crates2 demo_env (demo_inbox (demo_state 2 []))
      = (Inr (snapshot_of (demo_state 2 [])), demo_inbox (demo_state 2 []))"
    unfolding att_snapshot_def
    by (rule att_update_again [where st = "demo_state 2 []"]) (simp_all add: demo_empty_ok unchanged_def)
  from reconcile_drops_only_resolved_parks [OF this] show ?thesis by auto
qed

subsection \<open>The broker's projection\<close>

lemma project_ok:
  assumes "project c j e p d = (Inr r, d')"
  shows "\<exists>st0 st st'. read_state d = Inr st0 \<and> reconciled c e st0 st
    \<and> project_body p (lower_hex (sha256 c (j p))) st = Inr (r, Some st') \<and> read_state d' = Inr st'
    \<and> validate_projection c p = Inr ()"
proof -
  let ?g = "lower_hex (sha256 c (j p))"
  from assms have v: "validate_projection c p = Inr ()"
    and run: "att_update c e (project_body p ?g) d = (Inr r, d')"
    by (auto simp: project_def results Let_def)
  from att_update_ok [OF run] obtain st0 st w where s: "read_state d = Inr st0" "reconciled c e st0 st"
    and b: "project_body p ?g st = Inr (r, w)" and r': "read_state d' = Inr (case w of None \<Rightarrow> st | Some st' \<Rightarrow> st')"
    by blast
  from project_body_cases [OF b] obtain st' where "w = Some st'" by (auto split: if_splits)
  with s b r' v show ?thesis by auto
qed

text \<open>C8: A projection is applied exactly when its sequence follows the cursor; then it becomes the
  cursor, its change is made and the generation grows. A stale delivery is acknowledged without
  touching the cursor and recreates no item.\<close>

theorem projection_applies_in_order_once:
  assumes "project c j e p d = (Inr r, d')"
  shows "\<exists>st0 st'. read_state d = Inr st0 \<and> read_state d' = Inr st'
    \<and> pr_sequence r = bp_sequence p \<and> pr_digest r = lower_hex (sha256 c (j p))
    \<and> (if pr_applied r
       then unat (bp_sequence p) = Suc (unat (cursor_of st0)) \<and> cursor_of st' = bp_sequence p
         \<and> set (items st') = set (apply_change (filter (unresolved c e) (items st0)) (bp_change p))
         \<and> generation st0 < generation st'
       else bp_sequence p \<le> cursor_of st0 \<and> broker_projection st' = broker_projection st0
         \<and> items st' = filter (unresolved c e) (items st0))"
proof -
  from project_ok [OF assms] obtain st0 st st' where r: "read_state d = Inr st0" "reconciled c e st0 st"
    and b: "project_body p (lower_hex (sha256 c (j p))) st = Inr (r, Some st')" and r': "read_state d' = Inr st'"
    by blast
  have st: "items st = filter (unresolved c e) (items st0)" "broker_projection st = broker_projection st0"
    "cursor_of st = cursor_of st0" using r(2) by (auto simp: reconciled_def cursor_of_def)
  have gen: "generation st0 \<le> generation st" using reconciled_step [OF r(2)] by (simp add: att_step_def)
  from project_body_cases [OF b] st gen r(1) r' show ?thesis
    by (intro exI [of _ st0] exI [of _ st']) (auto simp: cursor_of_def word_le_nat_alt word_less_nat_alt split: if_splits)
qed

definition demo_projection :: broker_projection_entry where
  "demo_projection = \<lparr>bp_sequence = 1, bp_change = Clear (draft_key (demo_draft_for ''s1'' 5))\<rparr>"

definition demo_projected :: persisted_attention where
  "demo_projected = (demo_state 2 [])\<lparr>broker_projection :=
     Some \<lparr>cur_sequence = 1, cur_digest = lower_hex (replicate 32 1)\<rparr>\<rparr>"

lemma demo_project:
  "project demo_crates2 (\<lambda>_. ''json'') demo_env demo_projection (demo_inbox (demo_state 1 [demo_item]))
     = (Inr \<lparr>pr_sequence = 1, pr_digest = lower_hex (replicate 32 1), pr_applied = True\<rparr>, demo_inbox demo_projected)"
proof -
  have key: "item_key demo_item = draft_key (demo_draft_for ''s1'' 5)" by (simp add: demo_item_def)
  let ?g = "lower_hex (replicate 32 1)"
  have "project_body demo_projection ?g (demo_state 1 [demo_item])
      = Inr (\<lparr>pr_sequence = 1, pr_digest = ?g, pr_applied = True\<rparr>, Some demo_projected)"
    by (simp add: project_body_def demo_projection_def demo_projected_def demo_state_def apply_change_def
        key advance_generation_def checked_add_def sort_items_def Let_def)
  moreover have "validate_key demo_crates2 (draft_key (demo_draft_for ''s1'' 5)) = Inr ()"
    using demo_draft_valid [of 5] by (auto simp: validate_attention_draft_def results)
  moreover have "sha256 demo_crates2 ''json'' = replicate 32 1" by (simp add: demo_crates2_def)
  ultimately show ?thesis
    using demo_update_inbox [where body = "project_body demo_projection ?g", OF demo_one_ok]
    by (simp add: project_def bind_op_def pure_def validate_projection_def demo_projection_def)
qed

theorem projection_applies_in_order_once_witness:
  "cursor_of demo_projected = 1"
  using projection_applies_in_order_once [OF demo_project] by (simp add: demo_projection_def)

theorem projection_gap_or_conflict_refused:
  assumes "read_state d = Inr st0"
    and "Suc (unat (cursor_of st0)) < unat (bp_sequence p) \<or>
      (bp_sequence p = cursor_of st0 \<and> (\<exists>cu. broker_projection st0 = Some cu \<and> cur_digest cu \<noteq> lower_hex (sha256 c (j p))))"
    and "project c j e p d = (x, d')"
  shows "(\<exists>er. x = Inl er) \<and> (\<exists>st'. read_state d' = Inr st' \<and> broker_projection st' = broker_projection st0
    \<and> set (items st') \<subseteq> set (items st0))"
proof -
  let ?g = "lower_hex (sha256 c (j p))"
  have refused: "\<exists>er. project_body p ?g st = Inl er" if "reconciled c e st0 st" for st
  proof -
    have bp: "broker_projection st = broker_projection st0" "cursor_of st = cursor_of st0"
      using that by (auto simp: reconciled_def cursor_of_def)
    show ?thesis
    proof (cases "project_body p ?g st")
      case (Inr q)
      obtain r w where "q = (r, w)" by (cases q)
      with Inr project_body_cases [of p ?g st r w] bp assms(2)
      show ?thesis by (auto simp: word_le_nat_alt split: if_splits)
    qed simp
  qed
  have "\<exists>er. x = Inl er"
  proof (cases x)
    case (Inr r)
    from project_ok [OF assms(3) [unfolded Inr]] assms(1) obtain st st' where "reconciled c e st0 st"
      "project_body p ?g st = Inr (r, Some st')" by auto
    with refused [of st] show ?thesis by simp
  qed simp
  moreover have "\<exists>st'. read_state d' = Inr st' \<and> broker_projection st' = broker_projection st0
    \<and> set (items st') \<subseteq> set (items st0)"
  proof (cases "d' = d")
    case True
    with assms(1) show ?thesis by auto
  next
    case False
    let ?k = "\<lambda>st. bind_op (pure (project_body p ?g st)) (\<lambda>(a, w).
       case w of None \<Rightarrow> pure (Inr a) | Some st' \<Rightarrow> bind_op (persist st') (\<lambda>_. pure (Inr a)))"
    from assms(3) False have "att_update c e (project_body p ?g) d = (x, d')"
      by (cases "validate_projection c p") (auto simp: project_def bind_op_def pure_def Let_def)
    from with_lock_state [OF this [unfolded att_update_def]] False
    obtain y where y: "bind_op (load c e) ?k d = (y, d')" by blast
    obtain z d1 where l: "load c e d = (z, d1)" by (cases "load c e d")
    have d1: "d' = d1"
    proof (cases z)
      case (Inl er) with y l show ?thesis by (simp add: bind_op_def)
    next
      case (Inr st)
      from load_ok [OF l [unfolded Inr]] assms(1) have "reconciled c e st0 st" by auto
      with refused obtain er where "project_body p ?g st = Inl er" by blast
      with y l Inr show ?thesis by (simp add: bind_op_def pure_def)
    qed
    from load_cases [OF l] False d1 assms(1) obtain st y where
      rec: "reconciled c e st0 st" and p: "persist st d = (y, d1)" by auto
    have sub: "broker_projection st = broker_projection st0" "set (items st) \<subseteq> set (items st0)"
      using rec by (auto simp: reconciled_def)
    from persist_cases [OF p] show ?thesis
    proof
      assume "lookup_file d1 = lookup_file d"
      with assms(1) d1 show ?thesis by (auto simp: results)
    next
      assume "lookup_file d1 = (lookup_file d)(att_path \<mapsto> Stored st)"
      with sub d1 show ?thesis by (auto simp: results)
    qed
  qed
  ultimately show ?thesis ..
qed

theorem projection_gap_or_conflict_refused_witness:
  "\<exists>er. fst (project demo_crates2 (\<lambda>_. ''json'') demo_env (demo_projection\<lparr>bp_sequence := 5\<rparr>)
     (demo_inbox (demo_state 1 [demo_item]))) = Inl er"
proof -
  obtain x d' where run: "project demo_crates2 (\<lambda>_. ''json'') demo_env (demo_projection\<lparr>bp_sequence := 5\<rparr>)
     (demo_inbox (demo_state 1 [demo_item])) = (x, d')"
    by (metis prod.exhaust)
  from projection_gap_or_conflict_refused [OF _ _ run, of "demo_state 1 [demo_item]"] run show ?thesis
    by (simp add: cursor_of_def demo_state_def)
qed

subsection \<open>Hidden duplicates\<close>

theorem validation_misses_separated_duplicate:
  "validate_state demo_crates2 (demo_state 9 [item_of_draft False (demo_draft_for ''s1'' 1),
      item_of_draft False ((demo_draft_for ''s1'' 2)\<lparr>adr_kind := SessionFailed\<rparr>),
      item_of_draft False (demo_draft_for ''s1'' 3)]) = Inr ()
   \<and> item_key (item_of_draft False (demo_draft_for ''s1'' 1)) = item_key (item_of_draft False (demo_draft_for ''s1'' 3))"
proof -
  let ?a = "item_of_draft False (demo_draft_for ''s1'' 1)"
  let ?b = "item_of_draft False ((demo_draft_for ''s1'' 2)\<lparr>adr_kind := SessionFailed\<rparr>)"
  let ?c = "item_of_draft False (demo_draft_for ''s1'' 3)"
  have "validate_attention_draft demo_crates2 ((demo_draft_for ''s1'' 2)\<lparr>adr_kind := SessionFailed\<rparr>) = Inr ()"
    using demo_draft_valid [of 2]
    by (simp add: validate_attention_draft_def demo_draft_for_def validate_key_def draft_key_def results
        validate_code_def validate_withdrawal_def)
  then have v: "validate_items demo_crates2 [?a, ?b, ?c] = Inr ()"
    by (simp add: draft_item_valid)
  have srt: "sort_items [?a, ?b, ?c] = [?a, ?b, ?c]"
    by (rule sort_items_id) (simp add: sort_rank_def item_of_draft_def demo_draft_for_def)
  have "\<not> adjacent_same_key [?a, ?b, ?c]"
    by (simp add: draft_key_def demo_draft_for_def)
  with v srt show ?thesis
    by (simp add: validate_state_def demo_state_def Let_def) (simp add: draft_key_def demo_draft_for_def)
qed

end
