(* ===== verification/Generation.thy ===== *)
theory Generation
  imports Run_Store
begin

section \<open>Mediated issue generation\<close>

text \<open>
  capture-service/src/generation.rs: the broker between a Run-owned Agent and the Beads
  command. A call reconciles the pending mutations of the Run, reserves one unit, runs the
  command, and confirms or releases the reservation. The process executor is an argument: a
  function on a world of its own that answers an argument vector with the captured output or
  a start error. What \<open>serde_json\<close> reads is an argument too: \<open>issues_of\<close> gives, for the output
  of \<open>br list\<close>, the texts of the fields \<open>external_ref\<close> and \<open>id\<close> of each issue, \<open>id_of\<close> the
  text of the field \<open>id\<close> of the output of \<open>br create\<close>. The lossy texts of the database
  path and of process output are taken as given.
\<close>

record generate_request =
  gen_run_id :: string
  gen_token :: string
  gen_mutation_id :: string
  gen_command :: string
  gen_arguments :: "string list"

record command_output =
  out_success :: bool
  out_stdout :: string
  out_stderr :: string

record generated_issue_result =
  gi_id :: string
  gi_stdout :: string

datatype generation_error = Gen_Run run_error | Gen_Invalid string | Gen_Exhausted | Gen_Pending
  | Gen_Start string | Ambiguous string

record json_reader =
  issues_of :: "string \<Rightarrow> (string option \<times> string option) list option"
  id_of :: "string \<Rightarrow> string option"

type_synonym 'w executor = "string list \<Rightarrow> 'w \<Rightarrow> (string + command_output) \<times> 'w"

subsection \<open>The command line\<close>

definition mutation_external_ref :: "string \<Rightarrow> string \<Rightarrow> string" where
  "mutation_external_ref run mutation = ''louiselm-run/'' @ run @ ''/mutation/'' @ mutation"

definition validate_request :: "crates \<Rightarrow> generate_request \<Rightarrow> generation_error + unit" where
  "validate_request c q =
     andThen (ensure (uuid_text c (gen_run_id q) \<noteq> None) (Gen_Invalid ''Run id must be a UUID'')) (\<lambda>_.
     andThen (ensure (uuid_text c (gen_mutation_id q) \<noteq> None)
        (Gen_Invalid ''mutation id must be a UUID'')) (\<lambda>_.
     ensure (\<not> (gen_command q \<noteq> ''create'' \<and> gen_command q \<noteq> ''q''))
       (Gen_Invalid ''only br create and br q generate work'')))"

definition FORBIDDEN :: "string list" where
  "FORBIDDEN = [''--actor'', ''--external-ref'', ''--db'', ''--no-db'', ''--no-auto-flush'',
     ''--no-auto-import'', ''--dry-run'', ''--silent'']"

definition control_flag :: "string \<Rightarrow> bool" where
  "control_flag a = list_ex (\<lambda>f. a = f \<or> starts_with (f @ ''='') a) FORBIDDEN"

definition quoted :: "string \<Rightarrow> string" where
  "quoted v = char_of (39 :: nat) # v @ [char_of (39 :: nat)]"

definition reject_control_flags :: "string list \<Rightarrow> generation_error + unit" where
  "reject_control_flags as =
     (case List.find control_flag as of
        Some flag \<Rightarrow> Inl (Gen_Invalid (''broker owns control flag '' @ quoted flag))
      | None \<Rightarrow> Inr ())"

definition takes_value :: "string \<Rightarrow> bool" where
  "takes_value v = (v \<in> {''-p'', ''--priority'', ''-t'', ''--type'', ''-l'', ''--labels'', ''-d'',
     ''--description'', ''--body'', ''--parent'', ''-e'', ''--estimate''})"

text \<open>The loop over the quick-capture arguments: the option words and the title words so far.\<close>

fun quick_loop :: "string list \<Rightarrow> string list \<Rightarrow> string list \<Rightarrow> generation_error + (string list \<times> string list)" where
  "quick_loop [] out title = Inr (out, title)"
| "quick_loop (v # rest) out title =
     (if v = ''--json'' then quick_loop rest out title
      else if takes_value v
      then (case rest of
          [] \<Rightarrow> Inl (Gen_Invalid (''quick-capture option '' @ quoted v @ '' has no value''))
        | x # rest' \<Rightarrow> quick_loop rest' (out @ [v, x]) title)
      else if starts_with ''-'' v then Inl (Gen_Invalid (''unsupported br q option '' @ quoted v))
      else quick_loop rest out (title @ [v]))"

definition quick_to_create :: "string list \<Rightarrow> generation_error + string list" where
  "quick_to_create as =
     andThen (reject_control_flags as) (\<lambda>_.
     andThen (quick_loop as [''create''] []) (\<lambda>(out, title).
     andThen (ensure (title \<noteq> []) (Gen_Invalid ''br q requires a title'')) (\<lambda>_.
     Inr (out @ [''--title'', join '' '' title]))))"

definition generation_arguments ::
  "string \<Rightarrow> string list \<Rightarrow> string \<Rightarrow> string \<Rightarrow> string \<Rightarrow> generation_error + string list" where
  "generation_arguments command supplied actor external_ref database =
     andThen (if command = ''q'' then quick_to_create supplied
              else andThen (reject_control_flags supplied) (\<lambda>_.
                Inr (''create'' # filter (\<lambda>v. v \<noteq> ''--json'') supplied))) (\<lambda>as.
     Inr (as @ [''--actor'', actor, ''--external-ref'', external_ref, ''--db'', database, ''--json'']))"

definition nonempty :: "string \<Rightarrow> string" where
  "nonempty m = (let t = trim m in if t = [] then ''unknown br failure'' else t)"

definition parse_issue_id :: "json_reader \<Rightarrow> string \<Rightarrow> string option" where
  "parse_issue_id js out = (case id_of js out of None \<Rightarrow> None | Some i \<Rightarrow> if i = [] then None else Some i)"

definition list_arguments :: "string \<Rightarrow> string list" where
  "list_arguments database = [''list'', ''--status'', ''all'', ''--db'', database, ''--json'']"

subsection \<open>Reconciliation and generation\<close>

text \<open>Operations on the Run directory lifted to the pair of directory and executor world.\<close>

definition on_store :: "(run disk, run_error, 'a) op \<Rightarrow> (run disk \<times> 'w, generation_error, 'a) op" where
  "on_store m = (\<lambda>(d, w). case m d of (x, d') \<Rightarrow> (map_err Gen_Run x, (d', w)))"

definition run_executor :: "'w executor \<Rightarrow> string list \<Rightarrow> (run disk \<times> 'w, string, command_output) op" where
  "run_executor ex as = (\<lambda>(d, w). case ex as w of (x, w') \<Rightarrow> (x, (d, w')))"

fun find_issue :: "(string option \<times> string option) list \<Rightarrow> string \<Rightarrow> string option" where
  "find_issue [] expected = None"
| "find_issue ((eref, i) # rest) expected =
     (if eref = Some expected \<and> i \<noteq> None then i else find_issue rest expected)"

fun confirm_found ::
  "crates \<Rightarrow> string \<Rightarrow> string \<Rightarrow> (string option \<times> string option) list \<Rightarrow> string list
     \<Rightarrow> (run disk \<times> 'w, generation_error, unit) op" where
  "confirm_found c i token issues [] = pure (Inr ())"
| "confirm_found c i token issues (m # ms) =
     (case find_issue issues (mutation_external_ref i m) of
        None \<Rightarrow> confirm_found c i token issues ms
      | Some ext \<Rightarrow> bind_op (on_store (confirm_generated_work c i token m ext)) (\<lambda>_.
          confirm_found c i token issues ms))"

definition reconcile_with ::
  "crates \<Rightarrow> json_reader \<Rightarrow> string \<Rightarrow> 'w executor \<Rightarrow> string \<Rightarrow> string
     \<Rightarrow> (run disk \<times> 'w, generation_error, unit) op" where
  "reconcile_with c js database ex i token =
     bind_op (on_store (read_op (pending_generation_ids c i token))) (\<lambda>waiting.
     if waiting = [] then pure (Inr ())
     else (\<lambda>s. case run_executor ex (list_arguments database) s of
         (Inl e, s') \<Rightarrow> (Inl (Gen_Start e), s')
       | (Inr out, s') \<Rightarrow>
           if \<not> out_success out then (Inl (Ambiguous (nonempty (out_stderr out))), s')
           else (case issues_of js (out_stdout out) of
               None \<Rightarrow> (Inl (Ambiguous ''br list returned malformed data''), s')
             | Some issues \<Rightarrow> confirm_found c i token issues waiting s')))"

definition generation_reservation :: "generate_request \<Rightarrow> generated_work_reservation" where
  "generation_reservation q = \<lparr>res_run_id = gen_run_id q, res_token = gen_token q,
     res_mutation_id = gen_mutation_id q, res_kind = ''beads_issue'', res_units = 1\<rparr>"

definition execute_reserved ::
  "crates \<Rightarrow> json_reader \<Rightarrow> string \<Rightarrow> 'w executor \<Rightarrow> generate_request \<Rightarrow> string
     \<Rightarrow> (run disk \<times> 'w, generation_error, generated_issue_result) op" where
  "execute_reserved c js database ex q actor =
     bind_op (pure (generation_arguments (gen_command q) (gen_arguments q) actor
        (mutation_external_ref (gen_run_id q) (gen_mutation_id q)) database)) (\<lambda>as s.
     case run_executor ex as s of
       (Inl e, s') \<Rightarrow>
         bind_op (on_store (release_generated_work c (gen_run_id q) (gen_token q) (gen_mutation_id q)))
           (\<lambda>_. pure (Inl (Gen_Start e))) s'
     | (Inr out, s') \<Rightarrow>
         if \<not> out_success out then (Inl (Ambiguous (nonempty (out_stderr out))), s')
         else (case parse_issue_id js (out_stdout out) of
             None \<Rightarrow> (Inl (Ambiguous ''br returned malformed success data''), s')
           | Some i \<Rightarrow>
               bind_op (on_store (confirm_generated_work c (gen_run_id q) (gen_token q) (gen_mutation_id q) i))
                 (\<lambda>_. pure (Inr \<lparr>gi_id = i, gi_stdout = out_stdout out\<rparr>)) s'))"

definition confirmed_issue ::
  "crates \<Rightarrow> generate_request \<Rightarrow> (run disk \<times> 'w, generation_error, generated_issue_result) op" where
  "confirmed_issue c q =
     bind_op (on_store (read_op (load_run c (gen_run_id q)))) (\<lambda>r.
     pure (andThen (ok_or (generated_issue r (gen_mutation_id q)) (Gen_Invalid ''confirmed issue is absent''))
       (\<lambda>i. Inr \<lparr>gi_id = i, gi_stdout = []\<rparr>)))"

definition generate_with ::
  "crates \<Rightarrow> json_reader \<Rightarrow> string \<Rightarrow> 'w executor \<Rightarrow> u64 \<Rightarrow> generate_request
     \<Rightarrow> (run disk \<times> 'w, generation_error, generated_issue_result) op" where
  "generate_with c js database ex now_ms q =
     bind_op (pure (validate_request c q)) (\<lambda>_.
     bind_op (reconcile_with c js database ex (gen_run_id q) (gen_token q)) (\<lambda>_.
     bind_op (on_store (read_op (generation_actor c (gen_run_id q) (gen_token q)))) (\<lambda>actor.
     bind_op (on_store (reserve_generated_work c (generation_reservation q) now_ms)) (\<lambda>res.
     case res of
       Exhausted \<Rightarrow> pure (Inl Gen_Exhausted)
     | Pending \<Rightarrow> pure (Inl Gen_Pending)
     | Consumed \<Rightarrow> confirmed_issue c q
     | Reserved \<Rightarrow> execute_reserved c js database ex q actor))))"

end
