(* ===== verification/Generation_Properties.thy ===== *)
theory Generation_Properties
  imports Generation Run_Properties
begin

section \<open>What mediated generation guarantees\<close>

text \<open>
  The command line that reaches \<open>br\<close> carries the broker's control flags and no others; a
  mutation that the Run knows is never created again; a success is recorded on the Run before
  it is reported; a process that did not start costs no capacity, but a refused argument does.
\<close>

subsection \<open>The command line belongs to the broker\<close>

lemma join_no_dash:
  "ss \<noteq> [] \<Longrightarrow> \<forall>s \<in> set ss. \<not> starts_with ''-'' s \<Longrightarrow> \<not> starts_with ''-'' (join '' '' ss)"
proof (induction "'' '' :: string" ss rule: join.induct)
  case (3 s t ss)
  then show ?case by (cases s) (auto simp: starts_with_def)
qed auto

lemma control_flag_dash: "control_flag s \<Longrightarrow> starts_with ''-'' s"
  by (auto simp: control_flag_def FORBIDDEN_def starts_with_iff)

lemma control_flag_constants [simp]:
  "\<not> control_flag ''create''" "\<not> control_flag ''--title''"
  by (simp_all add: control_flag_def FORBIDDEN_def starts_with_def)

lemma reject_control_flags_Inr [results]:
  "reject_control_flags as = Inr u \<longleftrightarrow> (\<forall>a \<in> set as. \<not> control_flag a)"
  by (auto simp: reject_control_flags_def find_None_all split: option.splits dest: find_Some_in)

lemma quick_loop_safe:
  "quick_loop as out title = Inr (out', title') \<Longrightarrow> \<forall>a \<in> set as. \<not> control_flag a \<Longrightarrow>
     \<forall>a \<in> set out. \<not> control_flag a \<Longrightarrow> \<forall>a \<in> set title. \<not> starts_with ''-'' a \<Longrightarrow>
     (\<forall>a \<in> set out'. \<not> control_flag a) \<and> (\<forall>a \<in> set title'. \<not> starts_with ''-'' a) \<and> (\<exists>ys. out' = out @ ys)"
proof (induction as out title rule: quick_loop.induct)
  case (1 out title)
  then show ?case by simp
next
  case (2 v rest out title)
  show ?case
  proof (cases "v = ''--json''")
    case True
    with "2.prems" "2.IH"(1) [OF True] show ?thesis by simp
  next
    case False
    note ne = this
    show ?thesis
    proof (cases "takes_value v")
      case True
      with "2.prems"(1) ne obtain x rest' where rest: "rest = x # rest'"
        and run: "quick_loop rest' (out @ [v, x]) title = Inr (out', title')"
        by (cases rest) simp_all
      from "2.prems"(2,3) rest have "\<forall>a \<in> set rest'. \<not> control_flag a" "\<forall>a \<in> set (out @ [v, x]). \<not> control_flag a"
        by simp_all
      from "2.IH"(2) [OF ne True rest run this "2.prems"(4)] show ?thesis by auto
    next
      case False
      with "2.prems"(1) ne have dash: "\<not> starts_with ''-'' v" by (auto split: if_splits)
      with "2.prems"(1) ne False have "quick_loop rest out (title @ [v]) = Inr (out', title')" by simp
      from "2.IH"(3) [OF ne False dash this] "2.prems"(2-4) dash show ?thesis by simp
    qed
  qed
qed

theorem broker_owns_control_flags:
  assumes "generation_arguments command supplied actor eref database = Inr as"
  shows "\<exists>body. as = ''create'' # body @
      [''--actor'', actor, ''--external-ref'', eref, ''--db'', database, ''--json'']
    \<and> (\<forall>a \<in> set body. \<not> control_flag a)"
proof (cases "command = ''q''")
  case True
  with assms obtain out title where q: "\<forall>a \<in> set supplied. \<not> control_flag a"
    "quick_loop supplied [''create''] [] = Inr (out, title)" "title \<noteq> []"
    "as = out @ [''--title'', join '' '' title] @
      [''--actor'', actor, ''--external-ref'', eref, ''--db'', database, ''--json'']"
    by (auto simp: generation_arguments_def quick_to_create_def results)
  from quick_loop_safe [OF q(2,1)] obtain ys where
    "out = ''create'' # ys" "\<forall>a \<in> set ys. \<not> control_flag a" "\<forall>a \<in> set title. \<not> starts_with ''-'' a" by auto
  with q(3,4) control_flag_dash [of "join '' '' title"] join_no_dash [of title] show ?thesis by auto
next
  case False
  with assms show ?thesis by (auto simp: generation_arguments_def results)
qed

theorem broker_owns_control_flags_witness:
  "\<exists>body. [''create'', ''-p'', ''1'', ''--title'', ''fix it'', ''--actor'', ''s1'', ''--external-ref'', ''x'',
     ''--db'', ''/b'', ''--json''] = ''create'' # body @
      [''--actor'', ''s1'', ''--external-ref'', ''x'', ''--db'', ''/b'', ''--json'']
    \<and> (\<forall>a \<in> set body. \<not> control_flag a)"
proof -
  have "generation_arguments ''q'' [''fix'', ''-p'', ''1'', ''it''] ''s1'' ''x'' ''/b'' =
    Inr [''create'', ''-p'', ''1'', ''--title'', ''fix it'', ''--actor'', ''s1'', ''--external-ref'', ''x'',
     ''--db'', ''/b'', ''--json'']"
    by (simp add: generation_arguments_def quick_to_create_def reject_control_flags_def control_flag_def
        FORBIDDEN_def starts_with_def takes_value_def)
  from broker_owns_control_flags [OF this] show ?thesis .
qed

subsection \<open>One creation for one mutation\<close>

definition known_mutation :: "string \<Rightarrow> run \<Rightarrow> bool" where
  "known_mutation m r \<longleftrightarrow> (\<exists>p \<in> set (pending (generated_work r)). pend_mutation_id p = m)
     \<or> (\<exists>out \<in> set (outputs (generated_work r)). out_mutation_id out = m)"

lemma set_remove_at_other: "x \<in> set xs \<Longrightarrow> x \<noteq> xs ! i \<Longrightarrow> x \<in> set (remove_at i xs)"
proof (induction xs arbitrary: i)
  case Nil
  then show ?case by simp
next
  case (Cons y xs)
  then show ?case by (cases i) auto
qed

lemma spend_unit_keeps:
  "i < length ps \<Longrightarrow> p \<in> set ps \<Longrightarrow> p \<noteq> ps ! i \<Longrightarrow> p \<in> set (spend_unit i left ps)"
proof (cases "left = 0")
  case True
  assume "p \<in> set ps" "p \<noteq> ps ! i"
  with True show ?thesis by (simp add: spend_unit_def set_remove_at_other)
next
  case False
  assume "i < length ps" "p \<in> set ps" "p \<noteq> ps ! i"
  with False show ?thesis by (auto simp: spend_unit_def in_set_conv_nth nth_list_update)
qed

lemma confirm_body_known:
  assumes b: "confirm_body c token m' issue r = Inr (a, Some r')" and k: "known_mutation m r"
  shows "known_mutation m r'"
proof -
  from confirm_body_Some [OF b] obtain i left where
    pos: "position (\<lambda>p. pend_mutation_id p = m') (pending (generated_work r)) = Some i"
    and p': "pending (generated_work r') = spend_unit i left (pending (generated_work r))"
    and o': "\<exists>kd. outputs (generated_work r') = outputs (generated_work r) @
      [\<lparr>out_mutation_id = m', out_kind = kd, out_external_id = issue\<rparr>]" by auto
  from position_Some [OF pos] have i: "i < length (pending (generated_work r))"
    "pend_mutation_id (pending (generated_work r) ! i) = m'" by auto
  show ?thesis
  proof (cases "m = m'")
    case True
    with o' show ?thesis by (auto simp: known_mutation_def)
  next
    case False
    with k i o' show ?thesis
      by (auto simp: known_mutation_def p' dest!: spend_unit_keeps [OF i(1)])
  qed
qed

lemma confirm_load:
  assumes run: "confirm_generated_work c i token m issue d = (x, d')" and l: "load_run c i d = Inr r"
  shows "\<exists>r'. load_run c i d' = Inr r' \<and> (r' = r \<or> (\<exists>a. confirm_body c token m issue r = Inr (a, Some r')))"
proof (cases "is_ok (validate_id c i) \<and> is_ok (validate_id c m) \<and> issue \<noteq> []")
  case False
  with run have "d' = d"
    by (cases "validate_id c i"; cases "validate_id c m")
      (auto simp: confirm_generated_work_def bind_op_def pure_def ensure_def)
  with l show ?thesis by blast
next
  case True
  with run have "locked_update Storage (load_run c i) (run_path i) (confirm_body c token m issue) d = (x, d')"
    by (auto simp: confirm_generated_work_def bind_op_def pure_def results)
  from confirm.update_files [where q = "(token, m, issue)", simplified, OF this]
  consider "lookup_file d' = lookup_file d"
    | a r' where "confirm_body c token m issue r = Inr (a, Some r')"
        "lookup_file d' = (lookup_file d)(run_path i \<mapsto> Stored r')"
    using l load_run_stored [of c i d] by force
  then show ?thesis
  proof cases
    case 1
    with l have "load_run c i d' = Inr r" by (simp add: results)
    then show ?thesis by blast
  next
    case 2
    from confirm_body_Some [OF 2(1)] l have "run_id r' = run_id r" "schema_version r' = 4" "revision r' \<noteq> 0"
      "ceiling_units (generated_work r') \<noteq> 0" "park_ttl_ms r' \<noteq> 0"
      by (auto simp: results Suc_word_nonzero)
    from load_after_write [OF l 2(2) this] 2(1) show ?thesis by blast
  qed
qed

lemma confirm_found_keeps:
  "confirm_found c i token issues ms (d, w) = (x, (d', w')) \<Longrightarrow> load_run c i d = Inr r \<Longrightarrow> known_mutation m r \<Longrightarrow>
     w' = w \<and> (\<exists>r'. load_run c i d' = Inr r' \<and> known_mutation m r')"
proof (induction ms arbitrary: d r)
  case Nil
  then show ?case by (simp add: pure_def)
next
  case (Cons k ms)
  show ?case
  proof (cases "find_issue issues (mutation_external_ref i k)")
    case None
    with Cons show ?thesis by simp
  next
    case (Some ext)
    obtain y d1 where cf: "confirm_generated_work c i token k ext d = (y, d1)" by (metis prod.exhaust)
    from confirm_load [OF this Cons.prems(2)] confirm_body_known Cons.prems(3)
    obtain r1 where r1: "load_run c i d1 = Inr r1" "known_mutation m r1" by blast
    show ?thesis
    proof (cases y)
      case (Inl er)
      with Cons.prems(1) Some cf r1 show ?thesis by (auto simp: bind_op_def on_store_def)
    next
      case (Inr u)
      with Cons.prems(1) Some cf have "confirm_found c i token issues ms (d1, w) = (x, (d', w'))"
        by (simp add: bind_op_def on_store_def)
      from Cons.IH [OF this r1] show ?thesis .
    qed
  qed
qed

definition logged :: "'w executor \<Rightarrow> ('w \<times> string list list) executor" where
  "logged ex as = (\<lambda>(w, log). case ex as w of (x, w') \<Rightarrow> (x, (w', log @ [as])))"

lemma reconcile_log:
  assumes run: "reconcile_with c js database (logged ex) i token (d, (w, log)) = (x, (d', (w', log')))"
    and l: "load_run c i d = Inr r" "known_mutation m r"
  shows "(log' = log \<or> log' = log @ [list_arguments database])
    \<and> (\<exists>r'. load_run c i d' = Inr r' \<and> known_mutation m r')"
proof (cases "pending_generation_ids c i token d")
  case (Inl er)
  with run l show ?thesis by (auto simp: reconcile_with_def bind_op_def on_store_def read_op_def)
next
  case (Inr waiting)
  show ?thesis
  proof (cases "waiting = []")
    case True
    with run Inr l show ?thesis by (auto simp: reconcile_with_def bind_op_def on_store_def read_op_def pure_def)
  next
    case False
    obtain y w1 where ex: "ex (list_arguments database) w = (y, w1)" by (metis prod.exhaust)
    let ?s = "(d, (w1, log @ [list_arguments database]))"
    from run Inr False ex have "(x, (d', (w', log'))) = (case y of Inl e \<Rightarrow> (Inl (Gen_Start e), ?s)
       | Inr out \<Rightarrow> if \<not> out_success out then (Inl (Ambiguous (nonempty (out_stderr out))), ?s)
           else (case issues_of js (out_stdout out) of
               None \<Rightarrow> (Inl (Ambiguous ''br list returned malformed data''), ?s)
             | Some issues \<Rightarrow> confirm_found c i token issues waiting ?s))"
      by (auto simp: reconcile_with_def bind_op_def on_store_def read_op_def run_executor_def logged_def
          split: sum.splits)
    then consider "(d', (w', log')) = ?s"
      | issues where "confirm_found c i token issues waiting ?s = (x, (d', (w', log')))"
      by (auto split: sum.splits if_splits option.splits)
    then show ?thesis
    proof cases
      case 1
      with l show ?thesis by auto
    next
      case 2
      from confirm_found_keeps [OF 2 l] show ?thesis by auto
    qed
  qed
qed

lemma reserve_known:
  assumes "reserve_generated_work c q now_ms d = (Inr a, d')" and "load_run c (res_run_id q) d = Inr r"
    and "known_mutation (res_mutation_id q) r"
  shows "a \<noteq> Reserved"
proof
  assume "a = Reserved"
  from reserve_Reserved_effect [OF assms(1) [unfolded this]] assms(2,3) show False
    by (auto simp: known_mutation_def)
qed

text \<open>C4: A generation request for a mutation that the Run already holds as pending or recorded
  starts no process except the read-only listing: a retry never creates an issue twice.\<close>

theorem known_mutation_never_creates_again:
  assumes "generate_with c js database (logged ex) now_ms q (d, (w, log)) = (x, (d', (w', log')))"
    and "load_run c (gen_run_id q) d = Inr r" and "known_mutation (gen_mutation_id q) r"
  shows "log' = log \<or> log' = log @ [list_arguments database]"
proof (cases "validate_request c q")
  case (Inl er)
  with assms(1) show ?thesis by (simp add: generate_with_def bind_op_def pure_def)
next
  case (Inr u)
  obtain y d1 w1 log1 where rec: "reconcile_with c js database (logged ex) (gen_run_id q) (gen_token q)
      (d, (w, log)) = (y, (d1, (w1, log1)))" by (metis prod.exhaust)
  from reconcile_log [OF rec assms(2,3)] obtain r1 where log1: "log1 = log \<or> log1 = log @ [list_arguments database]"
    and r1: "load_run c (gen_run_id q) d1 = Inr r1" "known_mutation (gen_mutation_id q) r1" by blast
  have "log' = log1"
  proof (cases y)
    case (Inl er)
    with assms(1) Inr rec show ?thesis by (simp add: generate_with_def bind_op_def pure_def)
  next
    case [simp]: (Inr v)
    show ?thesis
    proof (cases "generation_actor c (gen_run_id q) (gen_token q) d1")
      case (Inl er)
      with assms(1) \<open>validate_request c q = Inr u\<close> rec show ?thesis
        by (simp add: generate_with_def bind_op_def pure_def on_store_def read_op_def)
    next
      case actor: (Inr actor)
      obtain z d2 where res: "reserve_generated_work c (generation_reservation q) now_ms d1 = (z, d2)"
        by (metis prod.exhaust)
      have "z \<noteq> Inr Reserved"
        using reserve_known [of c "generation_reservation q" now_ms d1] res r1
        by (auto simp: generation_reservation_def)
      with assms(1) \<open>validate_request c q = Inr u\<close> rec actor res show ?thesis
        by (cases z; cases "projr z")
          (auto simp: generate_with_def bind_op_def pure_def on_store_def read_op_def confirmed_issue_def
            split: sum.splits)
    qed
  qed
  with log1 show ?thesis by simp
qed

theorem known_mutation_never_creates_again_witness:
  "snd (snd (snd (generate_with demo_crates \<lparr>issues_of = (\<lambda>_. Some []), id_of = (\<lambda>_. None)\<rparr> ''/b''
      (logged (\<lambda>as n. (Inr \<lparr>out_success = True, out_stdout = [], out_stderr = []\<rparr>, Suc n))) 5
      \<lparr>gen_run_id = demo_id, gen_token = demo_token, gen_mutation_id = demo_id, gen_command = ''create'', gen_arguments = []\<rparr>
      (demo_disk [(demo_id, demo_pending 1)], (0 :: nat, [])))))
   \<in> {[], [list_arguments ''/b'']}"
proof -
  let ?js = "\<lparr>issues_of = (\<lambda>_. Some []), id_of = (\<lambda>_. None)\<rparr>"
  let ?ex = "\<lambda>as n. (Inr \<lparr>out_success = True, out_stdout = [], out_stderr = []\<rparr>, Suc n)"
  let ?q = "\<lparr>gen_run_id = demo_id, gen_token = demo_token, gen_mutation_id = demo_id, gen_command = ''create'', gen_arguments = []\<rparr>"
  obtain x d' w' log' where run: "generate_with demo_crates ?js ''/b'' (logged ?ex) 5 ?q
      (demo_disk [(demo_id, demo_pending 1)], (0 :: nat, [])) = (x, (d', (w', log')))" by (metis prod.exhaust)
  from known_mutation_never_creates_again [OF this, of "demo_pending 1"] run show ?thesis
    by (auto simp: known_mutation_def demo_defs)
qed

subsection \<open>Success, refusal and start failure\<close>

lemma pure_eq2: "pure r s = (r', s') \<longleftrightarrow> r = r' \<and> s = s'"
  by (auto simp: pure_def)

lemma read_op_eq2: "read_op f s = (r, s') \<longleftrightarrow> f s = r \<and> s = s'"
  by (auto simp: read_op_def)

lemma map_err_Gen_Run [simp]: "map_err Gen_Run x \<noteq> Inl (Gen_Start e)"
  by (cases x) auto

lemma find_append: "List.find P (xs @ ys) = (case List.find P xs of None \<Rightarrow> List.find P ys | Some x \<Rightarrow> Some x)"
  by (induction xs) auto

lemma generated_issue_append:
  "outputs (generated_work r') = outputs (generated_work r) @ [out] \<Longrightarrow> out_mutation_id out = m \<Longrightarrow>
     generated_issue r' m = (case generated_issue r m of None \<Rightarrow> Some (out_external_id out) | Some i \<Rightarrow> Some i)"
  by (auto simp: generated_issue_def find_append split: option.splits)

lemma confirm_records:
  assumes run: "confirm_generated_work c i token m issue d = (Inr u, d')"
    and l: "load_run c i d = Inr r" and none: "generated_issue r m = None"
  shows "\<exists>r'. load_run c i d' = Inr r' \<and> generated_issue r' m = Some issue"
proof -
  from confirm_generated_work_ok [OF run] l obtain w where b: "confirm_body c token m issue r = Inr ((), w)"
    and w: "case w of None \<Rightarrow> d' = d | Some r' \<Rightarrow> lookup_file d' = (lookup_file d)(run_path i \<mapsto> Stored r')" by auto
  from b none obtain r' where w': "w = Some r'"
    by (cases w) (auto simp: confirm_body_def Let_def results split: if_splits)
  from confirm_body_Some [OF b [unfolded w']] l have "run_id r' = run_id r" "schema_version r' = 4" "revision r' \<noteq> 0"
      "ceiling_units (generated_work r') \<noteq> 0" "park_ttl_ms r' \<noteq> 0"
    and o': "\<exists>kd. outputs (generated_work r') = outputs (generated_work r) @
      [\<lparr>out_mutation_id = m, out_kind = kd, out_external_id = issue\<rparr>]"
    by (auto simp: results Suc_word_nonzero)
  with load_after_write [OF l] w w' have "load_run c i d' = Inr r'" by simp
  moreover from o' none have "generated_issue r' m = Some issue" by (auto simp: generated_issue_append)
  ultimately show ?thesis by blast
qed

lemma Reserved_unconfirmed:
  assumes "reserve_generated_work c q now_ms d = (Inr Reserved, d')"
  shows "\<exists>r'. load_run c (res_run_id q) d' = Inr r' \<and> generated_issue r' (res_mutation_id q) = None"
proof -
  from reserve_Reserved_effect [OF assms] obtain r r' where l: "load_run c (res_run_id q) d = Inr r"
    "load_run c (res_run_id q) d' = Inr r'"
    and fresh: "\<forall>out \<in> set (outputs (generated_work r)). out_mutation_id out \<noteq> res_mutation_id q" by blast
  from reserve_generated_work_ok [OF assms] l have "outputs (generated_work r') = outputs (generated_work r)"
    by (auto simp: results dest!: reserve_body_Reserved)
  with fresh l(2) show ?thesis by (auto simp: generated_issue_def find_None_all)
qed

lemma on_store_Inr [results]:
  "on_store m (d, w) = (Inr a, s) \<longleftrightarrow> (\<exists>d'. m d = (Inr a, d') \<and> s = (d', w))"
  by (auto simp: on_store_def results split: prod.splits)

theorem generate_success_is_recorded:
  assumes "generate_with c js database ex now_ms q (d, w) = (Inr g, (d', w'))"
  shows "\<exists>r'. load_run c (gen_run_id q) d' = Inr r' \<and> generated_issue r' (gen_mutation_id q) = Some (gi_id g)"
proof -
  let ?i = "gen_run_id q" and ?m = "gen_mutation_id q"
  from assms obtain d1 w1 actor res d2 where
    res: "reserve_generated_work c (generation_reservation q) now_ms d1 = (Inr res, d2)"
    and rest: "(case res of Exhausted \<Rightarrow> pure (Inl Gen_Exhausted) | Pending \<Rightarrow> pure (Inl Gen_Pending)
       | Consumed \<Rightarrow> confirmed_issue c q
       | Reserved \<Rightarrow> execute_reserved c js database ex q actor) (d2, w1) = (Inr g, (d', w'))"
    by (auto simp: generate_with_def bind_op_Inr pure_eq2 on_store_Inr read_op_eq2)
  show ?thesis
  proof (cases res)
    case Reserved
    from Reserved_unconfirmed [OF res [unfolded Reserved]] obtain r2 where r2: "load_run c ?i d2 = Inr r2"
      "generated_issue r2 ?m = None" by (auto simp: generation_reservation_def)
    from rest Reserved obtain as where as: "execute_reserved c js database ex q actor (d2, w1) = (Inr g, (d', w'))" by simp
    then obtain args where args: "generation_arguments (gen_command q) (gen_arguments q) actor
        (mutation_external_ref ?i ?m) database = Inr args"
      by (cases "generation_arguments (gen_command q) (gen_arguments q) actor (mutation_external_ref ?i ?m) database")
        (auto simp: execute_reserved_def bind_op_def pure_def)
    obtain y w2 where ex: "ex args w1 = (y, w2)" by (metis prod.exhaust)
    from as args ex obtain out k where "y = Inr out" "confirm_generated_work c ?i (gen_token q) ?m k d2 = (Inr (), d')"
      "g = \<lparr>gi_id = k, gi_stdout = out_stdout out\<rparr>"
      by (cases y) (auto simp: execute_reserved_def run_executor_def bind_op_def pure_def on_store_def results
          split: if_splits option.splits sum.splits prod.splits)
    with confirm_records [OF _ r2] show ?thesis by auto
  next
    case Consumed
    with rest obtain r where "load_run c ?i d2 = Inr r" "generated_issue r ?m = Some (gi_id g)" "d' = d2"
      by (auto simp: confirmed_issue_def bind_op_Inr pure_eq2 on_store_Inr read_op_eq2 results)
    then show ?thesis by blast
  qed (use rest in \<open>simp_all add: pure_def\<close>)
qed

definition demo_reader :: json_reader where
  "demo_reader = \<lparr>issues_of = (\<lambda>_. Some []), id_of = (\<lambda>_. Some ''bd-1'')\<rparr>"

definition demo_request :: "string list \<Rightarrow> generate_request" where
  "demo_request as = \<lparr>gen_run_id = demo_id, gen_token = demo_token, gen_mutation_id = demo_id,
     gen_command = ''create'', gen_arguments = as\<rparr>"

definition demo_executor :: "bool \<Rightarrow> nat executor" where
  "demo_executor started as n =
     (if started then Inr \<lparr>out_success = True, out_stdout = ''{}'', out_stderr = []\<rparr> else Inl ''ENOENT'', Suc n)"

lemma demo_request_simps [simp]:
  "gen_run_id (demo_request as) = demo_id" "gen_token (demo_request as) = demo_token"
  "gen_mutation_id (demo_request as) = demo_id" "gen_command (demo_request as) = ''create''"
  "gen_arguments (demo_request as) = as"
  by (simp_all add: demo_request_def)

lemma demo_generation_start:
  "validate_request demo_crates (demo_request as) = Inr ()"
  "reconcile_with demo_crates js database ex demo_id demo_token (demo_disk [(demo_id, demo_active)], w)
     = (Inr (), (demo_disk [(demo_id, demo_active)], w))"
  "generation_actor demo_crates demo_id demo_token (demo_disk [(demo_id, demo_active)]) = Inr ''s1''"
  "reserve_generated_work demo_crates (generation_reservation (demo_request as)) now_ms (demo_disk [(demo_id, demo_active)])
     = (Inr Reserved, demo_disk [(demo_id, demo_pending 1)])"
proof -
  show "validate_request demo_crates (demo_request as) = Inr ()"
    by (simp add: validate_request_def demo_request_def demo_crates_def)
  have l: "load_run demo_crates demo_id (demo_disk [(demo_id, demo_active)]) = Inr demo_active"
    by (simp add: demo_defs)
  have v: "verify_token demo_crates demo_active demo_token = Inr ()" by (simp add: demo_defs)
  show "reconcile_with demo_crates js database ex demo_id demo_token (demo_disk [(demo_id, demo_active)], w)
     = (Inr (), (demo_disk [(demo_id, demo_active)], w))"
    using l v by (simp add: reconcile_with_def bind_op_def on_store_def read_op_def pending_generation_ids_def pure_def)
      (simp add: demo_defs)
  show "generation_actor demo_crates demo_id demo_token (demo_disk [(demo_id, demo_active)]) = Inr ''s1''"
    using l v by (simp add: generation_actor_def) (simp add: demo_defs)
  have "generation_reservation (demo_request as) = demo_reservation 1"
    by (simp add: generation_reservation_def demo_request_def demo_reservation_def)
  then show "reserve_generated_work demo_crates (generation_reservation (demo_request as)) now_ms (demo_disk [(demo_id, demo_active)])
     = (Inr Reserved, demo_disk [(demo_id, demo_pending 1)])"
    using demo_reserve [of 1] by simp
qed

lemma demo_generate:
  "generate_with demo_crates js database ex now_ms (demo_request as) (demo_disk [(demo_id, demo_active)], w)
     = execute_reserved demo_crates js database ex (demo_request as) ''s1'' (demo_disk [(demo_id, demo_pending 1)], w)"
  by (simp add: generate_with_def bind_op_def pure_def on_store_def read_op_def demo_generation_start)

lemma demo_generate_ok:
  "generate_with demo_crates demo_reader ''/b'' (demo_executor True) 5 (demo_request [''--title'', ''t''])
      (demo_disk [(demo_id, demo_active)], 0)
    = (Inr \<lparr>gi_id = ''bd-1'', gi_stdout = ''{}''\<rparr>, (demo_disk [(demo_id, demo_confirmed 0 [''bd-1''])], 1))"
proof -
  have "confirm_generated_work demo_crates demo_id demo_token demo_id ''bd-1'' (demo_disk [(demo_id, demo_pending 1)])
     = (Inr (), demo_disk [(demo_id, demo_confirmed 0 [''bd-1''])])"
    by (rule demo_confirm [OF demo_confirm_body(1)]) (simp add: demo_defs)
  then show ?thesis
    by (simp add: demo_generate execute_reserved_def generation_arguments_def bind_op_def pure_def
        reject_control_flags_def control_flag_def FORBIDDEN_def starts_with_def run_executor_def
        demo_executor_def parse_issue_id_def demo_reader_def on_store_def)
qed

theorem generate_success_is_recorded_witness:
  "\<exists>r'. load_run demo_crates demo_id (demo_disk [(demo_id, demo_confirmed 0 [''bd-1''])]) = Inr r'
     \<and> generated_issue r' demo_id = Some ''bd-1''"
  using generate_success_is_recorded [OF demo_generate_ok] by simp

theorem refused_arguments_keep_the_reservation:
  "generate_with demo_crates js ''/b'' ex now_ms (demo_request [''--db'', ''/other''])
      (demo_disk [(demo_id, demo_active)], w)
    = (Inl (Gen_Invalid (''broker owns control flag '' @ quoted ''--db'')), (demo_disk [(demo_id, demo_pending 1)], w))"
  by (simp add: demo_generate execute_reserved_def generation_arguments_def bind_op_def pure_def
      reject_control_flags_def control_flag_def FORBIDDEN_def starts_with_def)

lemma release_ok:
  assumes "release_generated_work c i token m d = (Inr u, d')" and l: "load_run c i d = Inr r"
    and p: "pending (generated_work r) = [\<lparr>pend_mutation_id = m, pend_kind = kd, pend_units = 1\<rparr>]"
  shows "\<exists>r'. load_run c i d' = Inr r' \<and> pending (generated_work r') = []
    \<and> unat (reserved (generated_work r)) = Suc (unat (reserved (generated_work r')))
    \<and> consumed (generated_work r') = consumed (generated_work r)"
proof -
  from assms(1) have run: "locked_update Storage (load_run c i) (run_path i) (release_body c token m) d = (Inr u, d')"
    by (auto simp: release_generated_work_def results)
  from locked_update_ok [OF run] l obtain w where b: "release_body c token m r = Inr (u, w)"
    and w: "case w of None \<Rightarrow> d' = d | Some r' \<Rightarrow> lookup_file d' = (lookup_file d)(run_path i \<mapsto> Stored r')" by auto
  from b p obtain held n where h: "unat (reserved (generated_work r)) = unat (1 :: u64) + unat held"
    and n: "unat n = Suc (unat (revision r))"
    and w': "w = Some (r\<lparr>generated_work := (generated_work r)\<lparr>pending := [], reserved := held\<rparr>, revision := n\<rparr>)"
    by (auto simp: release_body_def Let_def results word_results advance_revision_def)
  from w w' l n have "load_run c i d' = Inr (r\<lparr>generated_work := (generated_work r)\<lparr>pending := [], reserved := held\<rparr>, revision := n\<rparr>)"
    by (intro load_after_write [OF l]) (auto simp: results Suc_word_nonzero)
  with h show ?thesis by auto
qed

lemma quick_loop_no_start: "quick_loop as out title \<noteq> Inl (Gen_Start e)"
  by (induction as out title rule: quick_loop.induct) (auto split: list.splits)

lemma arguments_no_start [simp]: "generation_arguments cm as actor x db \<noteq> Inl (Gen_Start e)"
  using quick_loop_no_start [of as "[''create'']" "[]" e]
  by (auto simp: generation_arguments_def quick_to_create_def reject_control_flags_def andThen_Inl ensure_Inl
      split: if_splits option.splits)

lemma confirmed_issue_no_start: "confirmed_issue c q s \<noteq> (Inl (Gen_Start e), s')"
  by (auto simp: confirmed_issue_def bind_op_Inl pure_eq2 on_store_def read_op_def results map_err_def
      split: prod.splits sum.splits)

theorem start_failure_restores_capacity:
  assumes "generate_with c js database ex now_ms q (d, w) = (Inl (Gen_Start e), (d', w'))"
    and "load_run c (gen_run_id q) d = Inr r" and "pending (generated_work r) = []"
  shows "\<exists>r'. load_run c (gen_run_id q) d' = Inr r' \<and> pending (generated_work r') = []
    \<and> reserved (generated_work r') = reserved (generated_work r)
    \<and> consumed (generated_work r') = consumed (generated_work r)"
proof -
  let ?i = "gen_run_id q" and ?t = "gen_token q" and ?m = "gen_mutation_id q"
  have ids: "pending_generation_ids c ?i ?t d = Inr [] \<or> (\<exists>er. pending_generation_ids c ?i ?t d = Inl er)"
    using assms(2,3) by (cases "verify_token c r ?t") (simp_all add: pending_generation_ids_def)
  have v: "validate_request c q = Inr ()"
    using assms(1) by (cases "validate_request c q") (auto simp: generate_with_def bind_op_def pure_def validate_request_def results)
  from ids assms(1) v have rec: "reconcile_with c js database ex ?i ?t (d, w) = (Inr (), (d, w))"
    by (auto simp: generate_with_def reconcile_with_def bind_op_def pure_def on_store_def read_op_def)
  obtain actor where actor: "generation_actor c ?i ?t d = Inr actor"
    using assms(1) v rec by (cases "generation_actor c ?i ?t d")
      (auto simp: generate_with_def bind_op_def pure_def on_store_def read_op_def)
  obtain z d2 where res: "reserve_generated_work c (generation_reservation q) now_ms d = (z, d2)"
    by (metis prod.exhaust)
  from assms(1) v rec actor res have eq: "(case z of Inl er \<Rightarrow> (Inl (Gen_Run er), (d2, w))
      | Inr a \<Rightarrow> (case a of Exhausted \<Rightarrow> pure (Inl Gen_Exhausted) | Pending \<Rightarrow> pure (Inl Gen_Pending)
          | Consumed \<Rightarrow> confirmed_issue c q
          | Reserved \<Rightarrow> execute_reserved c js database ex q actor) (d2, w)) = (Inl (Gen_Start e), (d', w'))"
    by (simp add: generate_with_def bind_op_def pure_def on_store_def read_op_def map_err_def split: sum.splits)
  have z: "z = Inr Reserved"
  proof (cases z)
    case (Inl er)
    with eq show ?thesis by simp
  next
    case (Inr a)
    with eq show ?thesis by (cases a) (simp_all add: pure_def confirmed_issue_no_start)
  qed
  with eq have ex: "execute_reserved c js database ex q actor (d2, w) = (Inl (Gen_Start e), (d', w'))" by simp
  from reserve_Reserved_effect [OF res [unfolded z]] assms(2,3) obtain r2 where l2: "load_run c ?i d2 = Inr r2"
    and p2: "pending (generated_work r2) = [\<lparr>pend_mutation_id = ?m, pend_kind = ''beads_issue'', pend_units = 1\<rparr>]"
    and h2: "unat (reserved (generated_work r2)) = Suc (unat (reserved (generated_work r)))"
    by (auto simp: generation_reservation_def)
  from reserve_generated_work_ok [OF res [unfolded z]] assms(2) l2
  have c2: "consumed (generated_work r2) = consumed (generated_work r)"
    by (auto simp: results generation_reservation_def dest!: reserve_body_Reserved)
  from ex obtain d3 where rel: "release_generated_work c ?i ?t ?m d2 = (Inr (), d')"
    by (cases "generation_arguments (gen_command q) (gen_arguments q) actor (mutation_external_ref ?i ?m) database")
      (auto simp: execute_reserved_def run_executor_def bind_op_def pure_def on_store_def results
          split: if_splits option.splits sum.splits prod.splits)
  from release_ok [OF rel l2 p2] h2 c2 obtain r3 where "load_run c ?i d' = Inr r3" "pending (generated_work r3) = []"
    "unat (reserved (generated_work r3)) = unat (reserved (generated_work r))"
    "consumed (generated_work r3) = consumed (generated_work r)" by auto
  then show ?thesis by (auto simp: word_unat_eq_iff)
qed

definition demo_restored :: run where
  "demo_restored = demo_active\<lparr>revision := 4\<rparr>"

lemma demo_generate_start_failure:
  "generate_with demo_crates demo_reader ''/b'' (demo_executor False) 5 (demo_request [''--title'', ''t''])
      (demo_disk [(demo_id, demo_active)], 0)
    = (Inl (Gen_Start ''ENOENT''), (demo_disk [(demo_id, demo_restored)], 1))"
proof -
  have "release_body demo_crates demo_token demo_id (demo_pending 1) = Inr ((), Some demo_restored)"
    by (simp add: release_body_def demo_run_op demo_defs demo_restored_def)
  from demo_update [where body = "release_body demo_crates demo_token demo_id", OF _ this]
  have "release_generated_work demo_crates demo_id demo_token demo_id (demo_disk [(demo_id, demo_pending 1)])
     = (Inr (), demo_disk [(demo_id, demo_restored)])"
    by (simp add: release_generated_work_def bind_op_def pure_def demo_defs)
  then show ?thesis
    by (simp add: demo_generate execute_reserved_def generation_arguments_def bind_op_def pure_def
        reject_control_flags_def control_flag_def FORBIDDEN_def starts_with_def run_executor_def
        demo_executor_def on_store_def)
qed

theorem start_failure_restores_capacity_witness:
  "\<exists>r'. load_run demo_crates demo_id (demo_disk [(demo_id, demo_restored)]) = Inr r'
     \<and> reserved (generated_work r') = 0"
  using start_failure_restores_capacity [OF demo_generate_start_failure, of demo_active]
  by (auto simp: demo_defs)

end
