(* ===== verification/Pairing.thy ===== *)
theory Pairing
  imports Runs
begin

section \<open>The pairing registry\<close>

text \<open>
  capture-service/src/pairing.rs: one-time pairing offers, device credentials and their
  revocation, in one JSON file under a process mutex and a file lock. Every operation loads
  the registry, works on it, and persists it. A file of schema 2 is upgraded while it is
  loaded. The random secrets and identifiers an operation draws are arguments, as are the
  \<open>url\<close> parser (\<open>parse_url\<close>) and SHA-256; equality of digests in constant time is equality.
\<close>

subsection \<open>Data\<close>

record pairing_offer =
  offer_version :: u8
  offer_receiver_url :: string
  offer_receiver_identity :: string
  offer_token :: string
  offer_expiry :: u64

record device_credential =
  dc_device_id :: string
  dc_device_name :: string
  dc_credential :: string

record device_status =
  device_id :: string
  device_name :: string
  paired_at_ms :: u64
  last_delivery_at_ms :: "u64 option"

record pending_offer =
  token_hash :: string
  expires_at_ms :: u64

datatype notification_health = Unconfigured | Ready | ConfigurationError | AuthenticationError

record notification_registration =
  fid :: "string option"
  enabled :: bool
  submitted_generation :: "u64 option"
  retry_at_ms :: u64
  attempts :: u32

record device_record =
  dev_status :: device_status
  credential_hash :: string
  notification :: "notification_registration option"

record registry_state =
  reg_schema_version :: u8
  offers :: "pending_offer list"
  devices :: "device_record list"
  health :: notification_health

text \<open>
  A registration of schema 2 as the upgrade reads it from JSON: whether a \<open>fid\<close> field is
  there, the text of \<open>token\<close> and the truth value of \<open>enabled\<close> if they have those types, and
  the fields that stay.
\<close>

record legacy_registration =
  has_fid :: bool
  legacy_token :: "string option"
  legacy_enabled :: "bool option"
  legacy_generation :: "u64 option"
  legacy_retry_at_ms :: u64
  legacy_attempts :: u32

record legacy_device =
  leg_status :: device_status
  leg_credential_hash :: string
  leg_notification :: "legacy_registration option"

record legacy_state =
  leg_offers :: "pending_offer list"
  leg_devices :: "legacy_device list"
  leg_health :: notification_health

datatype registry_file = Current registry_state | Legacy legacy_state

datatype pairing_error = Attention_Refresh string | Unauthorized | Rejected string
  | Pair_Io | Pair_Json | Lock_Poisoned

fun pair_fs :: "fs_error \<Rightarrow> pairing_error" where
  "pair_fs Io = Pair_Io"
| "pair_fs Json = Pair_Json"

record url =
  scheme :: string
  has_host :: bool
  username :: string
  has_password :: bool
  url_path :: string
  has_query :: bool
  has_fragment :: bool

type_synonym 'a registry_op = "(registry_file disk, pairing_error, 'a) op"

definition hash :: "crates \<Rightarrow> string \<Rightarrow> string" where
  "hash c s = lower_hex (sha256 c s)"

subsection \<open>Loading and persisting\<close>

definition valid_fid :: "string \<Rightarrow> bool" where
  "valid_fid f = (length f = 22 \<and> list_all (\<lambda>b. is_ascii_alphanumeric b \<or> b \<in> set ''_-'') f)"

definition registrations :: "registry_state \<Rightarrow> notification_registration list" where
  "registrations st = List.map_filter notification (devices st)"

definition invalid_registration :: "notification_registration \<Rightarrow> bool" where
  "invalid_registration r =
     ((fid r = None \<and> enabled r) \<or> submitted_generation r = Some 0
      \<or> (attempts r = 0) \<noteq> (retry_at_ms r = 0))"

fun validate_registrations :: "string list \<Rightarrow> notification_registration list \<Rightarrow> bool" where
  "validate_registrations seen [] = True"
| "validate_registrations seen (r # rs) =
     (case fid r of
        None \<Rightarrow> \<not> invalid_registration r \<and> validate_registrations seen rs
      | Some f \<Rightarrow> valid_fid f \<and> f \<notin> set seen \<and> \<not> invalid_registration r
          \<and> validate_registrations (f # seen) rs)"

definition validate_registry :: "registry_state \<Rightarrow> pairing_error + unit" where
  "validate_registry st =
     ensure (validate_registrations [] (registrations st)) (Rejected ''stored notification state is invalid'')"

definition upgrade_registration :: "legacy_registration \<Rightarrow> pairing_error + notification_registration" where
  "upgrade_registration r =
     (if has_fid r
         \<or> \<not> (case legacy_token r of None \<Rightarrow> False
              | Some t \<Rightarrow> t \<noteq> [] \<and> length t \<le> 4096 \<and> list_all is_ascii_graphic t)
         \<or> legacy_enabled r = None
      then Inl (Rejected ''stored notification state is invalid'')
      else Inr \<lparr>fid = None, enabled = False, submitted_generation = legacy_generation r,
             retry_at_ms = legacy_retry_at_ms r, attempts = legacy_attempts r\<rparr>)"

definition upgrade_device :: "legacy_device \<Rightarrow> pairing_error + device_record" where
  "upgrade_device d =
     (case leg_notification d of
        None \<Rightarrow> Inr \<lparr>dev_status = leg_status d, credential_hash = leg_credential_hash d, notification = None\<rparr>
      | Some r \<Rightarrow> andThen (upgrade_registration r) (\<lambda>r'.
          Inr \<lparr>dev_status = leg_status d, credential_hash = leg_credential_hash d, notification = Some r'\<rparr>))"

fun upgrade_devices :: "legacy_device list \<Rightarrow> pairing_error + device_record list" where
  "upgrade_devices [] = Inr []"
| "upgrade_devices (d # ds) =
     andThen (upgrade_device d) (\<lambda>d'. andThen (upgrade_devices ds) (\<lambda>ds'. Inr (d' # ds')))"

definition upgrade :: "legacy_state \<Rightarrow> pairing_error + registry_state" where
  "upgrade l =
     andThen (upgrade_devices (leg_devices l)) (\<lambda>ds.
     Inr \<lparr>reg_schema_version = 3, offers = leg_offers l, devices = ds, health = leg_health l\<rparr>)"

definition registry_path :: string where
  "registry_path = ''pairing.json''"

definition persist_registry :: "registry_state \<Rightarrow> unit registry_op" where
  "persist_registry st = write_op pair_fs registry_path (Current st)"

definition read_registry :: "registry_file disk \<Rightarrow> pairing_error + registry_file" where
  "read_registry d =
     andThen (map_err pair_fs (read_file registry_path d)) (\<lambda>found. ok_or found Pair_Io)"

definition load_registry :: "registry_state registry_op" where
  "load_registry =
     bind_op (read_op read_registry) (\<lambda>f.
     bind_op (pure (case f of Current st \<Rightarrow> Inr st | Legacy l \<Rightarrow> upgrade l)) (\<lambda>st.
     bind_op (pure (ensure (reg_schema_version st = 3)
        (Rejected ''pairing registry version is unsupported''))) (\<lambda>_.
     bind_op (pure (validate_registry st)) (\<lambda>_.
     case f of
       Current _ \<Rightarrow> pure (Inr st)
     | Legacy _ \<Rightarrow> bind_op (persist_registry st) (\<lambda>_. pure (Inr st))))))"

text \<open>
  \<open>with_state\<close> holds the process mutex and the file lock around the work on a loaded
  registry. \<open>work\<close> returns its value and the changed registry; only a success is persisted,
  when the caller asks for it, and unlocks explicitly.
\<close>

definition with_state ::
  "bool \<Rightarrow> bool \<Rightarrow> (registry_state \<Rightarrow> pairing_error + 'a \<times> registry_state) \<Rightarrow> 'a registry_op" where
  "with_state poisoned persist work d =
     (if poisoned then (Inl Lock_Poisoned, d)
      else if \<not> lock_ok d then (Inl Pair_Io, d)
      else bind_op load_registry (\<lambda>st.
           bind_op (pure (work st)) (\<lambda>(a, st').
           bind_op (if persist then persist_registry st' else pure (Inr ())) (\<lambda>_.
           \<lambda>d'. (if unlock_ok d' then Inr a else Inl Pair_Io, d')))) d)"

definition open_registry :: "bool \<Rightarrow> unit registry_op" where
  "open_registry poisoned d =
     (if poisoned then (Inl Lock_Poisoned, d)
      else if \<not> lock_ok d then (Inl Pair_Io, d)
      else bind_op (if lookup_file d registry_path \<noteq> None
              then bind_op load_registry (\<lambda>_. pure (Inr ()))
              else persist_registry \<lparr>reg_schema_version = 3, offers = [], devices = [], health = Unconfigured\<rparr>)
            (\<lambda>_. \<lambda>d'. (if unlock_ok d' then Inr () else Inl Pair_Io, d')) d)"

subsection \<open>Offers and credentials\<close>

definition clean_url :: "url option \<Rightarrow> bool" where
  "clean_url u = (case u of None \<Rightarrow> False
     | Some v \<Rightarrow> scheme v = ''https'' \<and> has_host v \<and> username v = [] \<and> \<not> has_password v
         \<and> (url_path v = [] \<or> url_path v = ''/'') \<and> \<not> has_query v \<and> \<not> has_fragment v)"

definition issue_work ::
  "crates \<Rightarrow> string \<Rightarrow> string \<Rightarrow> u64 \<Rightarrow> u64 \<Rightarrow> string \<Rightarrow> registry_state
     \<Rightarrow> pairing_error + pairing_offer \<times> registry_state" where
  "issue_work c receiver_url identity now_ms ttl_ms token st =
     (let expires = saturating_add now_ms ttl_ms in
      Inr (\<lparr>offer_version = 2, offer_receiver_url = receiver_url,
            offer_receiver_identity = to_ascii_lowercase identity, offer_token = token, offer_expiry = expires\<rparr>,
        st\<lparr>offers := filter (\<lambda>offer. now_ms < expires_at_ms offer) (offers st)
             @ [\<lparr>token_hash = hash c token, expires_at_ms = expires\<rparr>]\<rparr>))"

definition issue ::
  "crates \<Rightarrow> (string \<Rightarrow> url option) \<Rightarrow> bool \<Rightarrow> string \<Rightarrow> string \<Rightarrow> u64 \<Rightarrow> u64 \<Rightarrow> string
     \<Rightarrow> pairing_offer registry_op" where
  "issue c parse_url poisoned receiver_url identity now_ms ttl_ms token =
     bind_op (pure (ensure (clean_url (parse_url receiver_url)
           \<and> \<not> list_ex is_whitespace (utf8_decode receiver_url))
        (Rejected ''receiver URL must be a clean HTTPS base URL''))) (\<lambda>_.
     bind_op (pure (ensure (length identity = 64 \<and> list_all is_ascii_hexdigit identity)
        (Rejected ''receiver identity fingerprint must be hexadecimal''))) (\<lambda>_.
     bind_op (pure (ensure (\<not> (now_ms = 0 \<or> ttl_ms = 0))
        (Rejected ''pairing timestamps must be positive''))) (\<lambda>_.
     with_state poisoned True (issue_work c receiver_url identity now_ms ttl_ms token))))"

definition consume_work ::
  "crates \<Rightarrow> string \<Rightarrow> string \<Rightarrow> u64 \<Rightarrow> string \<Rightarrow> string \<Rightarrow> registry_state
     \<Rightarrow> pairing_error + device_credential \<times> registry_state" where
  "consume_work c token name now_ms new_id credential st =
     andThen (ok_or (position (\<lambda>offer. token_hash offer = hash c token \<and> now_ms \<le> expires_at_ms offer) (offers st))
        (Rejected ''pairing token is invalid or expired'')) (\<lambda>matched.
     Inr (\<lparr>dc_device_id = new_id, dc_device_name = name, dc_credential = credential\<rparr>,
       st\<lparr>offers := filter (\<lambda>offer. now_ms \<le> expires_at_ms offer) (remove_at matched (offers st)),
          devices := devices st @ [\<lparr>dev_status = \<lparr>device_id = new_id, device_name = name,
               paired_at_ms = now_ms, last_delivery_at_ms = None\<rparr>,
             credential_hash = hash c credential, notification = None\<rparr>]\<rparr>))"

definition consume ::
  "crates \<Rightarrow> bool \<Rightarrow> string \<Rightarrow> string \<Rightarrow> u64 \<Rightarrow> string \<Rightarrow> string \<Rightarrow> device_credential registry_op" where
  "consume c poisoned token device_nm now_ms new_id credential =
     (let name = trim device_nm in
      bind_op (pure (ensure (\<not> (name = [] \<or> 80 < length name \<or> list_ex is_control (utf8_decode name)))
         (Rejected ''device name is invalid''))) (\<lambda>_.
      with_state poisoned True (consume_work c token name now_ms new_id credential)))"

definition credential_owner :: "crates \<Rightarrow> string \<Rightarrow> registry_state \<Rightarrow> device_record option" where
  "credential_owner c credential st =
     List.find (\<lambda>dev. credential_hash dev = hash c credential) (devices st)"

definition authenticate_device :: "crates \<Rightarrow> bool \<Rightarrow> string \<Rightarrow> string option registry_op" where
  "authenticate_device c poisoned credential =
     with_state poisoned False (\<lambda>st.
       Inr (map_option (\<lambda>dev. device_id (dev_status dev)) (credential_owner c credential st), st))"

definition find_device :: "string \<Rightarrow> registry_state \<Rightarrow> nat option" where
  "find_device i st = position (\<lambda>dev. device_id (dev_status dev) = i) (devices st)"

definition update_device :: "nat \<Rightarrow> (device_record \<Rightarrow> device_record) \<Rightarrow> registry_state \<Rightarrow> registry_state" where
  "update_device k f st = st\<lparr>devices := (devices st)[k := f (devices st ! k)]\<rparr>"

definition record_delivery :: "bool \<Rightarrow> string \<Rightarrow> u64 \<Rightarrow> unit registry_op" where
  "record_delivery poisoned i now_ms =
     bind_op (pure (ensure (now_ms \<noteq> 0) (Rejected ''delivery timestamp must be positive''))) (\<lambda>_.
     with_state poisoned True (\<lambda>st.
       andThen (ok_or (find_device i st) (Rejected ''device is unknown'')) (\<lambda>k.
       Inr ((), update_device k (\<lambda>dev. dev\<lparr>dev_status :=
         (dev_status dev)\<lparr>last_delivery_at_ms := Some now_ms\<rparr>\<rparr>) st))))"

definition revoke_work :: "string \<Rightarrow> registry_state \<Rightarrow> pairing_error + unit \<times> registry_state" where
  "revoke_work i st =
     (let kept = filter (\<lambda>dev. device_id (dev_status dev) \<noteq> i) (devices st) in
      if length kept = length (devices st) then Inl (Rejected ''device is unknown'')
      else Inr ((), st\<lparr>devices := kept\<rparr>))"

definition revoke :: "bool \<Rightarrow> string \<Rightarrow> unit registry_op" where
  "revoke poisoned i = with_state poisoned True (revoke_work i)"

definition status :: "bool \<Rightarrow> device_status list registry_op" where
  "status poisoned =
     with_state poisoned False (\<lambda>st. Inr (sort_key device_id (map dev_status (devices st)), st))"

end
