(* ===== verification/Notifications.thy ===== *)
theory Notifications
  imports Pairing
begin

section \<open>Push notifications of paired devices\<close>

text \<open>
  capture-service/src/notifications.rs: registration of a push installation by an
  authenticated device, the health of the sender, and the submission of the latest attention
  generation to every device that is due. \<open>deliver_notifications\<close> holds the pairing lock
  around each device and calls back for the latest generation and for the submission; the
  two callbacks act on a state of their own (\<open>'w\<close>), so the state of an operation here is the
  registry directory together with that world. The registry is persisted before a submission
  and again after it.
\<close>

subsection \<open>Data\<close>

datatype notification_failure = Transient u64 | Invalid_Installation | Authentication | Configuration

record notification_target_status =
  target_device_id :: string
  target_enabled :: bool
  target_submitted_generation :: "u64 option"
  target_retry_at_ms :: u64
  target_attempts :: u32

record notification_status =
  status_schema_version :: u8
  status_health :: notification_health
  next_action :: "string option"
  status_devices :: "notification_target_status list"

type_synonym ('w, 'a) delivery_op = "(registry_file disk \<times> 'w, pairing_error, 'a) op"

definition on_registry :: "'a registry_op \<Rightarrow> ('w, 'a) delivery_op" where
  "on_registry m s = (case m (fst s) of (r, d) \<Rightarrow> (r, (d, snd s)))"

definition on_world :: "('w \<Rightarrow> (pairing_error + 'a) \<times> 'w) \<Rightarrow> ('w, 'a) delivery_op" where
  "on_world m s = (case m (snd s) of (r, w) \<Rightarrow> (r, (fst s, w)))"

text \<open>\<open>with_state\<close> for a body that persists by itself or calls back.\<close>

definition with_registry :: "bool \<Rightarrow> (registry_state \<Rightarrow> ('w, 'a) delivery_op) \<Rightarrow> ('w, 'a) delivery_op" where
  "with_registry poisoned body s =
     (if poisoned then (Inl Lock_Poisoned, s)
      else if \<not> lock_ok (fst s) then (Inl Pair_Io, s)
      else bind_op (on_registry load_registry) (\<lambda>st.
           bind_op (body st) (\<lambda>a.
           \<lambda>s'. (if unlock_ok (fst s') then Inr a else Inl Pair_Io, s'))) s)"

subsection \<open>Registration\<close>

definition registers_fid :: "string \<Rightarrow> device_record \<Rightarrow> bool" where
  "registers_fid f dev =
     (case notification dev of None \<Rightarrow> False | Some r \<Rightarrow> fid r = Some f)"

definition register_work ::
  "crates \<Rightarrow> string \<Rightarrow> string \<Rightarrow> registry_state \<Rightarrow> pairing_error + unit \<times> registry_state" where
  "register_work c credential f st =
     andThen (ok_or (position (\<lambda>dev. credential_hash dev = hash c credential) (devices st)) Unauthorized) (\<lambda>k.
     andThen (ensure (\<not> (\<exists>other \<in> set [0..<length (devices st)]. other \<noteq> k \<and> registers_fid f (devices st ! other)))
        (Rejected ''notification fid is unavailable'')) (\<lambda>_.
     case notification (devices st ! k) of
       None \<Rightarrow> Inr ((), update_device k (\<lambda>dev. dev\<lparr>notification := Some
          \<lparr>fid = Some f, enabled = True, submitted_generation = None, retry_at_ms = 0, attempts = 0\<rparr>\<rparr>) st)
     | Some r \<Rightarrow>
         if fid r = Some f \<and> enabled r then Inr ((), st)
         else Inr ((), update_device k (\<lambda>dev. dev\<lparr>notification := Some
            \<lparr>fid = Some f, enabled = True, submitted_generation = submitted_generation r,
              retry_at_ms = 0, attempts = 0\<rparr>\<rparr>) st)))"

definition register_notification_installation ::
  "crates \<Rightarrow> bool \<Rightarrow> string \<Rightarrow> string \<Rightarrow> unit registry_op" where
  "register_notification_installation c poisoned credential f =
     bind_op (pure (ensure (valid_fid f) (Rejected ''notification fid is invalid''))) (\<lambda>_.
     with_state poisoned True (register_work c credential f))"

subsection \<open>Status and sender health\<close>

definition target_status :: "device_record \<Rightarrow> notification_target_status option" where
  "target_status dev = map_option (\<lambda>r.
     \<lparr>target_device_id = device_id (dev_status dev), target_enabled = enabled r,
       target_submitted_generation = submitted_generation r,
       target_retry_at_ms = retry_at_ms r, target_attempts = attempts r\<rparr>) (notification dev)"

fun next_action_of :: "notification_health \<Rightarrow> string option" where
  "next_action_of Unconfigured = Some ''configure GOOGLE_APPLICATION_CREDENTIALS and restart serve''"
| "next_action_of Ready = None"
| "next_action_of ConfigurationError =
     Some ''correct sender credentials/permissions, restart serve, then run retry-notifications''"
| "next_action_of AuthenticationError =
     Some ''correct sender credentials/permissions, restart serve, then run retry-notifications''"

definition notification_status_op :: "bool \<Rightarrow> notification_status registry_op" where
  "notification_status_op poisoned = with_state poisoned False (\<lambda>st. Inr (
     \<lparr>status_schema_version = 1, status_health = health st, next_action = next_action_of (health st),
       status_devices = sort_key target_device_id (List.map_filter target_status (devices st))\<rparr>, st))"

definition configure_notifications :: "bool \<Rightarrow> notification_health \<Rightarrow> ('w, unit) delivery_op" where
  "configure_notifications poisoned h = with_registry poisoned (\<lambda>st.
     if health st \<noteq> h \<and> (h \<noteq> Ready \<or> health st = Unconfigured)
     then on_registry (persist_registry (st\<lparr>health := h\<rparr>))
     else pure (Inr ()))"

definition retry_notifications :: "bool \<Rightarrow> unit registry_op" where
  "retry_notifications poisoned = with_state poisoned True (\<lambda>st.
     if health st = Unconfigured then Inl (Rejected ''notifications are unconfigured'')
     else Inr ((), st\<lparr>health := Ready\<rparr>))"

subsection \<open>Delivery\<close>

definition retry_delay :: "u32 \<Rightarrow> u64" where
  "retry_delay n = saturating_mul 60000 (push_bit (unat (min (saturating_sub n 1) 6)) 1)"

definition start_attempt :: "u64 \<Rightarrow> notification_registration \<Rightarrow> notification_registration" where
  "start_attempt now_ms r =
     (let n = saturating_add (attempts r) 1 in
      r\<lparr>attempts := n, retry_at_ms := saturating_add now_ms (retry_delay n)\<rparr>)"

definition due :: "u64 \<Rightarrow> u64 \<Rightarrow> notification_registration \<Rightarrow> bool" where
  "due generation now_ms r =
     (\<not> (\<not> enabled r
        \<or> (case submitted_generation r of None \<Rightarrow> False | Some sent \<Rightarrow> generation \<le> sent)
        \<or> now_ms < retry_at_ms r))"

definition set_registration :: "nat \<Rightarrow> notification_registration \<Rightarrow> registry_state \<Rightarrow> registry_state" where
  "set_registration k r = update_device k (\<lambda>dev. dev\<lparr>notification := Some r\<rparr>)"

definition find_registration :: "string \<Rightarrow> registry_state \<Rightarrow> (nat \<times> notification_registration) option" where
  "find_registration i st =
     (case find_device i st of None \<Rightarrow> None
      | Some k \<Rightarrow> map_option (Pair k) (notification (devices st ! k)))"

fun settle ::
  "nat \<Rightarrow> notification_registration \<Rightarrow> u64 \<Rightarrow> u64 \<Rightarrow> notification_failure + unit \<Rightarrow> registry_state
     \<Rightarrow> bool \<times> registry_state" where
  "settle k r generation now_ms (Inr _) st =
     (True, set_registration k (r\<lparr>submitted_generation := Some generation, retry_at_ms := 0, attempts := 0\<rparr>) st)"
| "settle k r generation now_ms (Inl (Transient retry_after)) st =
     (False, set_registration k (r\<lparr>retry_at_ms := max (retry_at_ms r) (saturating_add now_ms retry_after)\<rparr>) st)"
| "settle k r generation now_ms (Inl Invalid_Installation) st =
     (False, set_registration k (r\<lparr>enabled := False\<rparr>) st)"
| "settle k r generation now_ms (Inl Authentication) st = (False, st\<lparr>health := AuthenticationError\<rparr>)"
| "settle k r generation now_ms (Inl Configuration) st = (False, st\<lparr>health := ConfigurationError\<rparr>)"

definition submit ::
  "(string \<Rightarrow> u64 \<Rightarrow> 'w \<Rightarrow> (notification_failure + unit) \<times> 'w) \<Rightarrow> u64 \<Rightarrow> string \<Rightarrow> u64
     \<Rightarrow> nat \<Rightarrow> string \<Rightarrow> notification_registration \<Rightarrow> registry_state \<Rightarrow> ('w, bool) delivery_op" where
  "submit send now_ms i generation k f r st =
     (let st' = set_registration k r st in
      bind_op (on_registry (persist_registry st')) (\<lambda>_.
      bind_op (on_world (\<lambda>w. case send f generation w of (result, w') \<Rightarrow> (Inr result, w'))) (\<lambda>result.
      bind_op (pure (ok_or (find_registration i st') (Rejected ''notification registration disappeared''))) (\<lambda>(k', r').
      case settle k' r' generation now_ms result st' of (confirmed, st'') \<Rightarrow>
      bind_op (on_registry (persist_registry st'')) (\<lambda>_. pure (Inr confirmed))))))"

definition deliver_body ::
  "('w \<Rightarrow> (pairing_error + u64 option) \<times> 'w)
     \<Rightarrow> (string \<Rightarrow> u64 \<Rightarrow> 'w \<Rightarrow> (notification_failure + unit) \<times> 'w)
     \<Rightarrow> u64 \<Rightarrow> string \<Rightarrow> registry_state \<Rightarrow> ('w, bool) delivery_op" where
  "deliver_body latest send now_ms i st =
     (if health st \<noteq> Ready then pure (Inr False)
      else bind_op (on_world latest) (\<lambda>newest.
        case newest of None \<Rightarrow> pure (Inr False)
        | Some generation \<Rightarrow>
          bind_op (pure (ensure (generation \<noteq> 0) (Rejected ''notification generation must be positive''))) (\<lambda>_.
          case find_registration i st of None \<Rightarrow> pure (Inr False)
          | Some (k, r) \<Rightarrow>
              if \<not> due generation now_ms r then pure (Inr False)
              else (case fid r of
                  None \<Rightarrow> pure (Inr False)
                | Some f \<Rightarrow> submit send now_ms i generation k f (start_attempt now_ms r) st))))"

definition deliver_one ::
  "('w \<Rightarrow> (pairing_error + u64 option) \<times> 'w)
     \<Rightarrow> (string \<Rightarrow> u64 \<Rightarrow> 'w \<Rightarrow> (notification_failure + unit) \<times> 'w)
     \<Rightarrow> bool \<Rightarrow> u64 \<Rightarrow> string \<Rightarrow> ('w, bool) delivery_op" where
  "deliver_one latest send poisoned now_ms i = with_registry poisoned (deliver_body latest send now_ms i)"

fun deliver_loop ::
  "('w \<Rightarrow> (pairing_error + u64 option) \<times> 'w)
     \<Rightarrow> (string \<Rightarrow> u64 \<Rightarrow> 'w \<Rightarrow> (notification_failure + unit) \<times> 'w)
     \<Rightarrow> bool \<Rightarrow> u64 \<Rightarrow> nat \<Rightarrow> device_status list \<Rightarrow> ('w, nat) delivery_op" where
  "deliver_loop latest send poisoned now_ms submitted [] = pure (Inr submitted)"
| "deliver_loop latest send poisoned now_ms submitted (dev # devs) =
     bind_op (deliver_one latest send poisoned now_ms (device_id dev)) (\<lambda>confirmed.
     deliver_loop latest send poisoned now_ms (submitted + of_bool confirmed) devs)"

definition deliver_notifications ::
  "('w \<Rightarrow> (pairing_error + u64 option) \<times> 'w)
     \<Rightarrow> (string \<Rightarrow> u64 \<Rightarrow> 'w \<Rightarrow> (notification_failure + unit) \<times> 'w)
     \<Rightarrow> bool \<Rightarrow> u64 \<Rightarrow> ('w, nat) delivery_op" where
  "deliver_notifications latest send poisoned now_ms =
     bind_op (pure (ensure (now_ms \<noteq> 0) (Rejected ''notification timestamp must be positive''))) (\<lambda>_.
     bind_op (on_registry (status poisoned)) (\<lambda>devs.
     deliver_loop latest send poisoned now_ms 0 devs))"

end
