(* ===== verification/Pairing_Safety.thy ===== *)
theory Pairing_Safety
  imports Notifications
begin

section \<open>The pairing registry: what holds of every history\<close>

text \<open>
  \<open>registry_of\<close> is the abstraction of a registry directory: the state the next operation will
  load, if it can load one. Loading and upgrading do not change it; every other operation,
  whichever of its writes fails, moves it by steps of \<open>registry_step\<close>, the abstract registry.
\<close>

subsection \<open>The view of a directory\<close>

definition registry_valid :: "registry_state \<Rightarrow> bool" where
  "registry_valid st = (reg_schema_version st = 3 \<and> is_ok (validate_registry st))"

definition seen_state :: "registry_file \<Rightarrow> registry_state option" where
  "seen_state f =
     (case (case f of Current st \<Rightarrow> Inr st | Legacy l \<Rightarrow> upgrade l) of
        Inl _ \<Rightarrow> None
      | Inr st \<Rightarrow> if registry_valid st then Some st else None)"

definition registry_of :: "registry_file disk \<Rightarrow> registry_state option" where
  "registry_of d =
     (case lookup_file d registry_path of Some (Stored f) \<Rightarrow> seen_state f | _ \<Rightarrow> None)"

lemma seen_Current [simp]: "seen_state (Current st) = (if registry_valid st then Some st else None)"
  by (simp add: seen_state_def)

lemma seen_valid: "seen_state f = Some st \<Longrightarrow> registry_valid st"
  by (auto simp: seen_state_def split: sum.splits if_splits)

lemma registry_of_valid: "registry_of d = Some st \<Longrightarrow> registry_valid st"
  by (auto simp: registry_of_def seen_valid split: option.splits entry.splits)

lemma registry_of_lookup: "lookup_file d' = lookup_file d \<Longrightarrow> registry_of d' = registry_of d"
  by (simp add: registry_of_def)

lemma registry_of_stored:
  "lookup_file d registry_path = Some (Stored f) \<Longrightarrow> registry_of d = seen_state f"
  by (simp add: registry_of_def)

lemma read_registry_Inr: "read_registry d = Inr f \<longleftrightarrow> lookup_file d registry_path = Some (Stored f)"
  by (auto simp: read_registry_def results)

lemma persist_registry_cases:
  assumes "persist_registry st d = (r, d')"
  shows "registry_of d' = registry_of d \<or> registry_of d' = seen_state (Current st)"
  using write_op_cases [OF assms [unfolded persist_registry_def]]
proof
  assume "lookup_file d' = lookup_file d"
  from registry_of_lookup [OF this] show ?thesis ..
next
  assume "lookup_file d' = (lookup_file d)(registry_path \<mapsto> Stored (Current st))"
  then show ?thesis using registry_of_stored [of d' "Current st"] by simp
qed

lemma persist_registry_ok:
  assumes "persist_registry st d = (Inr u, d')"
  shows "registry_of d' = seen_state (Current st)"
proof -
  from assms have "write_atomic registry_path (Current st) d = (Inr u, d')"
    by (simp add: persist_registry_def results)
  from write_atomic_ok [OF this] show ?thesis by (intro registry_of_stored) simp
qed

lemma load_registry_seen:
  assumes "load_registry d = (r, d')"
  shows "registry_of d' = registry_of d \<and> (\<forall>st. r = Inr st \<longrightarrow> registry_of d = Some st)"
proof (cases "read_registry d")
  case (Inl e)
  with assms show ?thesis by (auto simp: load_registry_def bind_op_def read_op_def)
next
  case (Inr f)
  then have look: "registry_of d = seen_state f"
    using registry_of_stored read_registry_Inr by blast
  show ?thesis
  proof (cases "seen_state f")
    case None
    with assms Inr have "d' = d \<and> (\<exists>e. r = Inl e)"
      by (cases f) (auto simp: load_registry_def bind_op_def read_op_def pure_def seen_state_def
          registry_valid_def ensure_def is_ok_def split: sum.splits if_splits prod.splits, metis)
    then show ?thesis by auto
  next
    case (Some st)
    then have v: "registry_valid st" by (rule seen_valid)
    show ?thesis
    proof (cases f)
      case (Current st')
      with Some have st': "st' = st" by (simp split: if_splits)
      from v have "validate_registry st = Inr ()"
        by (simp add: registry_valid_def is_ok_def split: sum.splits)
      with assms Inr Current st' v have "d' = d \<and> r = Inr st"
        by (simp add: load_registry_def bind_op_def read_op_def pure_def registry_valid_def)
      with look Some show ?thesis by simp
    next
      case (Legacy l)
      with Some have up: "upgrade l = Inr st"
        by (auto simp: seen_state_def split: sum.splits if_splits)
      from v have "validate_registry st = Inr ()"
        by (simp add: registry_valid_def is_ok_def split: sum.splits)
      with assms Inr Legacy up v
      have run: "bind_op (persist_registry st) (\<lambda>_. pure (Inr st)) d = (r, d')"
        by (simp add: load_registry_def bind_op_def read_op_def pure_def registry_valid_def)
      obtain x dx where x: "persist_registry st d = (x, dx)" by (cases "persist_registry st d")
      with run have "dx = d'" "\<And>st'. r = Inr st' \<Longrightarrow> st' = st"
        by (auto simp: bind_op_def pure_def split: sum.splits)
      with persist_registry_cases [OF x] look Some v show ?thesis by auto
    qed
  qed
qed

lemma load_registry_flags:
  assumes "load_registry d = (r, d')"
  shows "lock_ok d' = lock_ok d \<and> unlock_ok d' = unlock_ok d"
  using assms
  by (auto simp: load_registry_def bind_op_def read_op_def pure_def persist_registry_def write_op_def
      split: sum.splits prod.splits registry_file.splits dest!: write_atomic_flags)

text \<open>A run of \<open>with_state\<close>: the view stays, or it becomes the state the work returned.\<close>

lemma with_state_cases:
  assumes "with_state poisoned persist work d = (r, d')"
  shows "registry_of d' = registry_of d \<or>
    (\<exists>st a st'. persist \<and> registry_of d = Some st \<and> work st = Inr (a, st')
       \<and> registry_of d' = seen_state (Current st'))"
proof (cases "poisoned \<or> \<not> lock_ok d")
  case True
  with assms show ?thesis by (auto simp: with_state_def split: if_splits)
next
  case False
  obtain x d1 where load: "load_registry d = (x, d1)" by (cases "load_registry d")
  note seen = load_registry_seen [OF load]
  show ?thesis
  proof (cases x)
    case (Inl e)
    with False assms load seen show ?thesis by (simp add: with_state_def bind_op_def)
  next
    case (Inr st)
    with seen have view: "registry_of d = Some st" "registry_of d1 = registry_of d" by simp_all
    show ?thesis
    proof (cases "work st")
      case (Inl e)
      with False assms load Inr view show ?thesis by (simp add: with_state_def bind_op_def pure_def)
    next
      case w: (Inr p)
      obtain a st' where p: "p = (a, st')" by (cases p)
      show ?thesis
      proof (cases persist)
        case True
        obtain y d2 where y: "persist_registry st' d1 = (y, d2)" by (cases "persist_registry st' d1")
        with False assms load Inr w p True have "d' = d2"
          by (auto simp: with_state_def bind_op_def pure_def split: sum.splits)
        with persist_registry_cases [OF y] view w p True show ?thesis by auto
      next
        case np: False
        with False assms load Inr w p have "d' = d1"
          by (simp add: with_state_def bind_op_def pure_def)
        with view show ?thesis by simp
      qed
    qed
  qed
qed

lemma with_state_ok:
  assumes "with_state poisoned persist work d = (Inr a, d')"
  shows "\<exists>st st'. registry_of d = Some st \<and> work st = Inr (a, st') \<and>
    registry_of d' = (if persist then seen_state (Current st') else Some st)"
proof -
  from assms have ok: "\<not> poisoned" "lock_ok d" by (auto simp: with_state_def split: if_splits)
  obtain x d1 where x: "load_registry d = (x, d1)" by (cases "load_registry d")
  with ok assms obtain st where st: "x = Inr st"
    by (cases x) (simp_all add: with_state_def bind_op_def)
  with ok assms x obtain st' where w: "work st = Inr (a, st')"
    by (cases "work st") (auto simp: with_state_def bind_op_def pure_def split: if_splits prod.splits sum.splits)
  obtain y d2 where y: "(if persist then persist_registry st' else pure (Inr ())) d1 = (y, d2)"
    by (cases "(if persist then persist_registry st' else pure (Inr ())) d1")
  with ok assms x st w have "y = Inr ()" and d': "d' = d2"
    by (cases y; auto simp: with_state_def bind_op_def pure_def split: if_splits)+
  with y have p: "(if persist then persist_registry st' else pure (Inr ())) d1 = (Inr (), d2)" by simp
  from x st have load: "load_registry d = (Inr st, d1)" by simp
  note seen = load_registry_seen [OF load]
  show ?thesis
  proof (cases persist)
    case True
    with p have "persist_registry st' d1 = (Inr (), d2)" by simp
    from persist_registry_ok [OF this] d' seen w True show ?thesis by auto
  next
    case False
    with p have "d2 = d1" by (simp add: pure_def)
    with d' seen w False show ?thesis by auto
  qed
qed

subsection \<open>The abstract registry\<close>

text \<open>
  One step of the abstract registry. \<open>H\<close> and \<open>I\<close> are digests and device identifiers that the
  random generator does not produce (empty for an arbitrary history).
\<close>

inductive registry_step ::
  "crates \<Rightarrow> string set \<Rightarrow> string set \<Rightarrow> registry_state \<Rightarrow> registry_state \<Rightarrow> bool" for c H I where
  issue: "hash c token \<notin> H \<Longrightarrow> issue_work c u i now ttl token st = Inr (a, st') \<Longrightarrow> registry_step c H I st st'"
| consume: "new_id \<notin> I \<Longrightarrow> consume_work c token name now new_id cred st = Inr (a, st')
    \<Longrightarrow> registry_step c H I st st'"
| revoke: "revoke_work i st = Inr (a, st') \<Longrightarrow> registry_step c H I st st'"
| deliver_ack: "k < length (devices st) \<Longrightarrow>
    registry_step c H I st (update_device k (\<lambda>dev. dev\<lparr>dev_status :=
         (dev_status dev)\<lparr>last_delivery_at_ms := Some now\<rparr>\<rparr>) st)"
| register: "valid_fid f \<Longrightarrow> register_work c cred f st = Inr (a, st') \<Longrightarrow> registry_step c H I st st'"
| set_health: "registry_step c H I st (st\<lparr>health := h\<rparr>)"
| attempt: "now \<noteq> 0 \<Longrightarrow> find_registration i st = Some (k, r)
    \<Longrightarrow> registry_step c H I st (set_registration k (start_attempt now r) st)"
| settled: "now \<noteq> 0 \<Longrightarrow> generation \<noteq> 0 \<Longrightarrow> find_registration i st = Some (k, r) \<Longrightarrow> attempts r \<noteq> 0
    \<Longrightarrow> registry_step c H I st (snd (settle k r generation now result st))"
| unchanged: "registry_step c H I st st"

lemma list_update_same_at: "i < length xs \<Longrightarrow> f (xs ! i) = y \<Longrightarrow> (map f xs)[i := y] = map f xs"
  by (metis length_map list_update_id nth_map)

subsection \<open>Validity is kept\<close>

definition fid_of :: "device_record \<Rightarrow> string option" where
  "fid_of dev = (case notification dev of None \<Rightarrow> None | Some r \<Rightarrow> fid r)"

definition good_registration :: "notification_registration \<Rightarrow> bool" where
  "good_registration r = (\<not> invalid_registration r \<and> (\<forall>f. fid r = Some f \<longrightarrow> valid_fid f))"

definition somes :: "'a option list \<Rightarrow> 'a list" where
  "somes = List.map_filter (\<lambda>x. x)"

lemma somes_simps [simp]: "somes [] = []" "somes (None # xs) = somes xs" "somes (Some x # xs) = x # somes xs"
  by (simp_all add: somes_def)

lemma somes_append [simp]: "somes (xs @ ys) = somes xs @ somes ys"
  by (induction xs) (auto simp: somes_def map_filter_simps split: option.split)

lemma set_somes: "x \<in> set (somes xs) \<longleftrightarrow> Some x \<in> set xs"
  by (induction xs) (auto simp: somes_def map_filter_simps split: option.split)

lemma distinct_somes_filter:
  "distinct (somes (map f xs)) \<Longrightarrow> distinct (somes (map f (filter P xs)))"
proof (induction xs)
  case (Cons x xs)
  then show ?case by (cases "f x") (auto simp: set_somes)
qed simp

lemma distinct_somes_update:
  "distinct (somes xs) \<Longrightarrow> (\<And>j. j < length xs \<Longrightarrow> j \<noteq> k \<Longrightarrow> xs ! j \<noteq> Some y)
     \<Longrightarrow> distinct (somes (xs[k := Some y]))"
proof (induction xs arbitrary: k)
  case Nil
  then show ?case by simp
next
  case (Cons x xs)
  show ?case
  proof (cases k)
    case 0
    have "Some y \<notin> set xs"
    proof
      assume "Some y \<in> set xs"
      then obtain j where "j < length xs" "xs ! j = Some y" by (auto simp: in_set_conv_nth)
      with Cons.prems(2) [of "Suc j"] 0 show False by simp
    qed
    moreover have "distinct (somes xs)" using Cons.prems(1) by (cases x) simp_all
    ultimately show ?thesis using 0 by (simp add: set_somes)
  next
    case (Suc m)
    have d: "distinct (somes xs)" using Cons.prems(1) by (cases x) simp_all
    have n: "\<And>j. j < length xs \<Longrightarrow> j \<noteq> m \<Longrightarrow> xs ! j \<noteq> Some y"
      using Cons.prems(2) [of "Suc j" for j] Suc by auto
    from Cons.IH [OF d n] have ih: "distinct (somes (xs[m := Some y]))" .
    show ?thesis
    proof (cases x)
      case None
      with ih Suc show ?thesis by simp
    next
      case (Some z)
      have "z \<noteq> y" using Cons.prems(2) [of 0] Suc Some by auto
      moreover have "Some z \<notin> set xs" using Cons.prems(1) Some by (simp add: set_somes)
      ultimately have "Some z \<notin> set (xs[m := Some y])"
        using set_update_subset_insert [of xs m "Some y"] by auto
      with ih Suc Some show ?thesis by (simp add: set_somes)
    qed
  qed
qed

lemma validate_registrations_iff:
  "validate_registrations seen rs \<longleftrightarrow>
     (\<forall>r \<in> set rs. good_registration r) \<and> distinct (somes (map fid rs))
       \<and> set (somes (map fid rs)) \<inter> set seen = {}"
proof (induction seen rs rule: validate_registrations.induct)
  case (1 seen)
  then show ?case by simp
next
  case (2 seen r rs)
  then show ?case by (cases "fid r") (auto simp: good_registration_def)
qed

lemma set_registrations:
  "r \<in> set (registrations st) \<longleftrightarrow> (\<exists>dev \<in> set (devices st). notification dev = Some r)"
  by (auto simp: registrations_def List.map_filter_def image_iff)

lemma somes_registrations: "somes (map fid (registrations st)) = somes (map fid_of (devices st))"
proof -
  have "somes (map fid (List.map_filter notification ds)) = somes (map fid_of ds)" for ds
  proof (induction ds)
    case Nil
    then show ?case by (simp add: map_filter_simps)
  next
    case (Cons dev ds)
    then show ?case
      by (cases "notification dev"; cases "fid (the (notification dev))")
        (simp_all add: map_filter_simps fid_of_def)
  qed
  then show ?thesis by (simp add: registrations_def)
qed

lemma registry_valid_iff:
  "registry_valid st \<longleftrightarrow> reg_schema_version st = 3
     \<and> (\<forall>dev \<in> set (devices st). \<forall>r. notification dev = Some r \<longrightarrow> good_registration r)
     \<and> distinct (somes (map fid_of (devices st)))"
  by (auto simp: registry_valid_def validate_registry_def ensure_def
      validate_registrations_iff somes_registrations set_registrations)

lemma find_device_bounds: "find_device i st = Some k \<Longrightarrow> k < length (devices st) \<and> device_id (dev_status (devices st ! k)) = i"
  unfolding find_device_def by (drule position_Some) simp

lemma find_registration_Some:
  "find_registration i st = Some (k, r) \<longleftrightarrow> find_device i st = Some k \<and> notification (devices st ! k) = Some r"
  by (auto simp: find_registration_def split: option.splits)

lemma valid_set_registration:
  assumes v: "registry_valid st" and k: "k < length (devices st)"
    and g: "good_registration r" and same: "fid r = fid_of (devices st ! k)"
  shows "registry_valid (set_registration k r st)"
proof -
  let ?dev = "(devices st ! k)\<lparr>notification := Some r\<rparr>"
  have "map fid_of ((devices st)[k := ?dev]) = map fid_of (devices st)"
    using k same by (intro map_update_same) (simp_all add: fid_of_def)
  moreover have "\<forall>dev \<in> set ((devices st)[k := ?dev]). \<forall>r. notification dev = Some r \<longrightarrow> good_registration r"
    using v g set_update_subset_insert [of "devices st" k ?dev]
    by (auto simp: registry_valid_iff)
  ultimately show ?thesis using v
    by (simp add: registry_valid_iff set_registration_def update_device_def)
qed

lemma start_attempt_fields [simp]:
  "fid (start_attempt now r) = fid r" "enabled (start_attempt now r) = enabled r"
  "submitted_generation (start_attempt now r) = submitted_generation r"
  by (simp_all add: start_attempt_def Let_def)

lemma retry_delay_unat: "unat (retry_delay n) = 60000 * 2 ^ min (unat n - 1) 6"
proof -
  define e where "e = unat (min (saturating_sub n 1) 6)"
  have e: "e = min (unat n - 1) 6"
    by (auto simp: e_def saturating_sub_def min_def word_le_nat_alt unat_sub)
  have le: "(2 :: nat) ^ e \<le> 2 ^ 6" by (rule power_increasing) (simp_all add: e)
  have p: "unat (push_bit e (1 :: u64)) = 2 ^ e"
  proof -
    from e have "e = 0 \<or> e = 1 \<or> e = 2 \<or> e = 3 \<or> e = 4 \<or> e = 5 \<or> e = 6" by linarith
    then show ?thesis by (elim disjE) (simp_all add: push_bit_eq_mult)
  qed
  show ?thesis
    unfolding retry_delay_def e_def [symmetric] unat_saturating_mul p using le
    by (simp add: e)
qed

lemma attempt_nonzero:
  assumes "now \<noteq> 0"
  shows "attempts (start_attempt now r) \<noteq> 0 \<and> retry_at_ms (start_attempt now r) \<noteq> 0"
proof -
  have "unat (saturating_add (attempts r) 1) \<noteq> 0" by (simp add: unat_saturating_add)
  moreover have "now \<le> saturating_add now (retry_delay n)" for n by (rule saturating_add_ge)
  ultimately show ?thesis using assms
    by (auto simp: start_attempt_def Let_def word_le_nat_alt)
      (metis le_zero_eq unat_eq_zero)
qed

lemma good_start_attempt: "now \<noteq> 0 \<Longrightarrow> good_registration r \<Longrightarrow> good_registration (start_attempt now r)"
  using attempt_nonzero [of now r] by (simp add: good_registration_def invalid_registration_def)

lemma valid_health: "registry_valid (st\<lparr>health := h\<rparr>) = registry_valid st"
  by (simp add: registry_valid_iff)

lemma valid_settle:
  assumes v: "registry_valid st" and find: "find_registration i st = Some (k, r)"
    and g: "generation \<noteq> 0" and n: "attempts r \<noteq> 0"
  shows "registry_valid (snd (settle k r generation now result st))"
proof -
  from find have k: "k < length (devices st)" and nk: "notification (devices st ! k) = Some r"
    by (auto simp: find_registration_Some dest: find_device_bounds)
  then have f: "fid r = fid_of (devices st ! k)" by (simp add: fid_of_def)
  from v k nk have good: "good_registration r" by (auto simp: registry_valid_iff)
  note set = valid_set_registration [OF v k]
  show ?thesis
  proof (cases result)
    case (Inr u)
    have "good_registration (r\<lparr>submitted_generation := Some generation, retry_at_ms := 0, attempts := 0\<rparr>)"
      using good g by (simp add: good_registration_def invalid_registration_def)
    with set f Inr show ?thesis by simp
  next
    case (Inl e)
    show ?thesis
    proof (cases e)
      case (Transient t)
      have "retry_at_ms r \<noteq> 0" using good n
        by (auto simp: good_registration_def invalid_registration_def)
      then have "max (retry_at_ms r) (saturating_add now t) \<noteq> 0"
        by (metis max.cobounded1 word_le_0_iff)
      then have "good_registration (r\<lparr>retry_at_ms := max (retry_at_ms r) (saturating_add now t)\<rparr>)"
        using good n by (simp add: good_registration_def invalid_registration_def)
      with set f Inl Transient show ?thesis by simp
    next
      case Invalid_Installation
      have "good_registration (r\<lparr>enabled := False\<rparr>)"
        using good by (simp add: good_registration_def invalid_registration_def)
      with set f Inl Invalid_Installation show ?thesis by simp
    qed (use v Inl in \<open>simp_all add: valid_health\<close>)
  qed
qed

lemma register_work_Inr:
  assumes "register_work c cred f st = Inr (a, st')"
  shows "st' = st \<or> (\<exists>k r. k < length (devices st) \<and> credential_hash (devices st ! k) = hash c cred
    \<and> (\<forall>j < length (devices st). j \<noteq> k \<longrightarrow> fid_of (devices st ! j) \<noteq> Some f)
    \<and> st' = set_registration k r st \<and> fid r = Some f \<and> enabled r \<and> retry_at_ms r = 0 \<and> attempts r = 0
    \<and> submitted_generation r = (case notification (devices st ! k) of None \<Rightarrow> None
         | Some r0 \<Rightarrow> submitted_generation r0))"
proof -
  from assms obtain k where k: "position (\<lambda>dev. credential_hash dev = hash c cred) (devices st) = Some k"
    by (auto simp: register_work_def results)
  from assms k have "\<not> (\<exists>other \<in> set [0..<length (devices st)]. other \<noteq> k \<and> registers_fid f (devices st ! other))"
    by (cases "\<exists>other \<in> set [0..<length (devices st)]. other \<noteq> k \<and> registers_fid f (devices st ! other)")
      (simp_all only: register_work_def ok_or_simps andThen_simps ensure_simps not_True_eq_False not_False_eq_True sum.distinct)
  then have other: "\<forall>j < length (devices st). j \<noteq> k \<longrightarrow> \<not> registers_fid f (devices st ! j)"
    by auto
  from other have nf: "\<forall>j < length (devices st). j \<noteq> k \<longrightarrow> fid_of (devices st ! j) \<noteq> Some f"
    by (auto simp: registers_fid_def fid_of_def split: option.splits)
  from position_Some [OF k] have b: "k < length (devices st)" "credential_hash (devices st ! k) = hash c cred"
    by auto
  show ?thesis
  proof (cases "notification (devices st ! k)")
    case None
    let ?r = "\<lparr>fid = Some f, enabled = True, submitted_generation = None, retry_at_ms = 0, attempts = 0\<rparr>"
    from assms k None have "st' = set_registration k ?r st"
      by (auto simp: register_work_def results set_registration_def)
    with b nf None show ?thesis by (intro disjI2 exI [of _ k] exI [of _ ?r]) simp
  next
    case (Some r0)
    let ?r = "\<lparr>fid = Some f, enabled = True, submitted_generation = submitted_generation r0,
       retry_at_ms = 0, attempts = 0\<rparr>"
    from assms k Some have "st' = st \<or> st' = set_registration k ?r st"
      by (auto simp: register_work_def results set_registration_def split: if_splits)
    with b nf Some show ?thesis
      by (elim disjE, blast) (intro disjI2 exI [of _ k] exI [of _ ?r], simp)
  qed
qed

lemma valid_register:
  assumes v: "registry_valid st" and f: "valid_fid f" and run: "register_work c cred f st = Inr (a, st')"
  shows "registry_valid st'"
  using register_work_Inr [OF run]
proof
  assume "st' = st"
  with v show ?thesis by simp
next
  assume "\<exists>k r. k < length (devices st) \<and> credential_hash (devices st ! k) = hash c cred
    \<and> (\<forall>j < length (devices st). j \<noteq> k \<longrightarrow> fid_of (devices st ! j) \<noteq> Some f)
    \<and> st' = set_registration k r st \<and> fid r = Some f \<and> enabled r \<and> retry_at_ms r = 0 \<and> attempts r = 0
    \<and> submitted_generation r = (case notification (devices st ! k) of None \<Rightarrow> None
         | Some r0 \<Rightarrow> submitted_generation r0)"
  then obtain k r where k: "k < length (devices st)"
    and other: "\<forall>j < length (devices st). j \<noteq> k \<longrightarrow> fid_of (devices st ! j) \<noteq> Some f"
    and st': "st' = set_registration k r st"
    and r: "fid r = Some f" "enabled r" "retry_at_ms r = 0" "attempts r = 0"
    and sg: "submitted_generation r = (case notification (devices st ! k) of None \<Rightarrow> None
         | Some r0 \<Rightarrow> submitted_generation r0)" by blast
  let ?dev = "(devices st ! k)\<lparr>notification := Some r\<rparr>"
  have "submitted_generation r \<noteq> Some 0"
    using v k sg by (auto simp: registry_valid_iff good_registration_def invalid_registration_def
        split: option.splits)
  with r f have good: "good_registration r"
    by (simp add: good_registration_def invalid_registration_def)
  have fo: "fid_of ?dev = Some f" using r by (simp add: fid_of_def)
  have "distinct (somes ((map fid_of (devices st))[k := Some f]))"
    using v other by (intro distinct_somes_update) (auto simp: registry_valid_iff)
  then have "distinct (somes (map fid_of ((devices st)[k := ?dev])))"
    using fo by (simp add: map_update)
  moreover have "\<forall>dev \<in> set ((devices st)[k := ?dev]). \<forall>r. notification dev = Some r \<longrightarrow> good_registration r"
    using v good set_update_subset_insert [of "devices st" k ?dev]
    by (auto simp: registry_valid_iff)
  ultimately show ?thesis using v st'
    by (simp add: registry_valid_iff set_registration_def update_device_def)
qed

lemma valid_step: "registry_step c H I st st' \<Longrightarrow> registry_valid st \<Longrightarrow> registry_valid st'"
proof (induction rule: registry_step.induct)
  case (issue token u i now ttl st a st')
  then show ?case by (auto simp: registry_valid_iff issue_work_def Let_def)
next
  case (consume new_id token name now cred st a st')
  then show ?case
    by (auto simp: registry_valid_iff consume_work_def results fid_of_def)
next
  case (revoke i st a st')
  then show ?case
    by (auto simp: registry_valid_iff revoke_work_def Let_def distinct_somes_filter split: if_splits)
next
  case (deliver_ack k st now)
  let ?dev = "(devices st ! k)\<lparr>dev_status := (dev_status (devices st ! k))\<lparr>last_delivery_at_ms := Some now\<rparr>\<rparr>"
  have "map fid_of ((devices st)[k := ?dev]) = map fid_of (devices st)"
    using deliver_ack by (intro map_update_same) (simp_all add: fid_of_def)
  moreover have "\<forall>dev \<in> set ((devices st)[k := ?dev]). \<forall>r. notification dev = Some r \<longrightarrow> good_registration r"
  proof (intro ballI)
    fix dev assume "dev \<in> set ((devices st)[k := ?dev])"
    with set_update_subset_insert [of "devices st" k ?dev] have "dev = ?dev \<or> dev \<in> set (devices st)" by auto
    moreover have "devices st ! k \<in> set (devices st)" using deliver_ack by simp
    ultimately show "\<forall>r. notification dev = Some r \<longrightarrow> good_registration r"
      using deliver_ack(2) by (auto simp: registry_valid_iff)
  qed
  ultimately show ?case using deliver_ack by (simp add: registry_valid_iff update_device_def)
next
  case (register f cred st a st')
  then show ?case using valid_register by blast
next
  case (set_health st h)
  then show ?case by (simp add: valid_health)
next
  case (attempt now i st k r)
  then have k: "k < length (devices st)" and nk: "notification (devices st ! k) = Some r"
    by (auto simp: find_registration_Some dest: find_device_bounds)
  with attempt.prems have "good_registration r" by (auto simp: registry_valid_iff)
  with attempt.hyps(1) good_start_attempt have "good_registration (start_attempt now r)" by blast
  from valid_set_registration [OF attempt.prems k this] nk show ?case by (simp add: fid_of_def)
next
  case (settled now generation i st k r result)
  with valid_settle show ?case by blast
qed

end
