(* ===== verification/Pairing_History.thy ===== *)
theory Pairing_History
  imports Pairing_Safety
begin

section \<open>Histories of the pairing registry\<close>

text \<open>
  Every operation on the registry file, whatever writes fail, is a sequence of the abstract
  steps of the registry; the locale \<open>registry_promise\<close> turns a promise kept by each step into one
  kept by every history.
\<close>

subsection \<open>Every operation refines the abstract registry\<close>

definition moves ::
  "crates \<Rightarrow> string set \<Rightarrow> string set \<Rightarrow> registry_file disk \<Rightarrow> registry_file disk \<Rightarrow> bool" where
  "moves c H I d d' \<longleftrightarrow> (\<forall>st. registry_of d = Some st \<longrightarrow>
     (\<exists>st'. registry_of d' = Some st' \<and> (registry_step c H I)\<^sup>*\<^sup>* st st'))"

lemma moves_view: "registry_of d' = registry_of d \<Longrightarrow> moves c H I d d'"
  by (simp add: moves_def)

lemma moves_files: "lookup_file d' = lookup_file d \<Longrightarrow> moves c H I d d'"
  by (rule moves_view) (rule registry_of_lookup)

lemma moves_trans: "moves c H I d e \<Longrightarrow> moves c H I e f \<Longrightarrow> moves c H I d f"
  unfolding moves_def by (meson rtranclp_trans)

lemma moves_seen:
  assumes "registry_of d = Some st" and "registry_step c H I st st'"
    and "registry_of d' = registry_of d \<or> registry_of d' = seen_state (Current st')"
  shows "moves c H I d d'"
  using assms valid_step [OF assms(2) registry_of_valid [OF assms(1)]]
  by (auto simp: moves_def)

lemma persist_moves:
  assumes "registry_of d = Some st" and "registry_step c H I st st'" and "persist_registry st' d = (r, d')"
  shows "moves c H I d d'"
  by (rule moves_seen [OF assms(1,2) persist_registry_cases [OF assms(3)]])

lemma with_state_moves:
  assumes run: "with_state poisoned persist work d = (r, d')"
    and step: "\<And>st a st'. persist \<Longrightarrow> work st = Inr (a, st') \<Longrightarrow> registry_step c H I st st'"
  shows "moves c H I d d'"
  using with_state_cases [OF run]
proof
  assume "registry_of d' = registry_of d"
  then show ?thesis by (rule moves_view)
next
  assume "\<exists>st a st'. persist \<and> registry_of d = Some st \<and> work st = Inr (a, st')
       \<and> registry_of d' = seen_state (Current st')"
  then show ?thesis using step moves_seen by blast
qed

lemma bind_pure_state:
  assumes "bind_op (pure x) k s = (r, s')"
  shows "s' = s \<or> (\<exists>a. x = Inr a \<and> k a s = (r, s'))"
  using assms by (cases x) (auto simp: bind_op_def pure_def)

lemma bind_state:
  assumes "bind_op m k s = (r, s')"
  shows "\<exists>x t. m s = (x, t) \<and> ((\<exists>e. x = Inl e \<and> r = Inl e \<and> s' = t) \<or> (\<exists>a. x = Inr a \<and> k a t = (r, s')))"
  using assms by (cases "m s") (auto simp: bind_op_def split: sum.splits)

lemma moves_guarded:
  assumes "bind_op (pure x) k s = (r, s')"
    and "\<And>a. x = Inr a \<Longrightarrow> k a s = (r, s') \<Longrightarrow> moves c H I (view s) (view s')"
  shows "moves c H I (view s) (view s')"
  using bind_pure_state [OF assms(1)] assms(2) by (auto simp: moves_def)

lemma moves_bind:
  assumes "bind_op m k s = (r, s')"
    and "\<And>x t. m s = (x, t) \<Longrightarrow> moves c H I (view s) (view t)"
    and "\<And>a t. m s = (Inr a, t) \<Longrightarrow> k a t = (r, s') \<Longrightarrow> moves c H I (view t) (view s')"
  shows "moves c H I (view s) (view s')"
  using bind_state [OF assms(1)] assms(2,3) moves_trans by blast

lemmas disk_guarded = moves_guarded [where view = "\<lambda>d. d"]

lemma issue_moves:
  assumes "issue c parse_url p u i now ttl token d = (r, d')" and "hash c token \<notin> H"
  shows "moves c H I d d'"
  using assms(1) unfolding issue_def
  by (elim disk_guarded) (erule with_state_moves, erule registry_step.issue [OF assms(2)])

lemma consume_moves:
  assumes "consume c p token name now new_id cred d = (r, d')" and "new_id \<notin> I"
  shows "moves c H I d d'"
  using assms(1) unfolding consume_def Let_def
  by (elim disk_guarded) (erule with_state_moves, erule registry_step.consume [OF assms(2)])

lemma revoke_moves: "revoke p i d = (r, d') \<Longrightarrow> moves c H I d d'"
  unfolding revoke_def by (erule with_state_moves) (erule registry_step.revoke)

lemma reader_moves:
  "authenticate_device c' p cred d = (r1, d') \<Longrightarrow> moves c H I d d'"
  "status p d = (r2, d') \<Longrightarrow> moves c H I d d'"
  "notification_status_op p d = (r3, d') \<Longrightarrow> moves c H I d d'"
  unfolding authenticate_device_def status_def notification_status_op_def
  by (erule with_state_moves, simp)+

lemma record_delivery_moves: "record_delivery p i now d = (r, d') \<Longrightarrow> moves c H I d d'"
  unfolding record_delivery_def
  by (elim disk_guarded)
    (erule with_state_moves, auto simp: results dest!: find_device_bounds intro: registry_step.deliver_ack)

lemma register_moves:
  "register_notification_installation c p cred f d = (r, d') \<Longrightarrow> moves c H I d d'"
  unfolding register_notification_installation_def
  by (elim disk_guarded) (erule with_state_moves, simp add: results registry_step.register)

lemma retry_moves: "retry_notifications p d = (r, d') \<Longrightarrow> moves c H I d d'"
  unfolding retry_notifications_def
  by (erule with_state_moves) (auto split: if_splits intro: registry_step.set_health)

lemma open_moves: "open_registry p d = (r, d') \<Longrightarrow> moves c H I d d'"
proof -
  assume run: "open_registry p d = (r, d')"
  show ?thesis
  proof (cases "lookup_file d registry_path")
    case None
    then show ?thesis by (simp add: moves_def registry_of_def)
  next
    case (Some f)
    obtain x d1 where x: "load_registry d = (x, d1)" by (cases "load_registry d")
    with run Some have "d' = d \<or> d' = d1"
      by (auto simp: open_registry_def bind_op_def pure_def split: if_splits sum.splits)
    with load_registry_seen [OF x] show ?thesis by (auto intro: moves_view)
  qed
qed

text \<open>Operations on a registry and the world of its callbacks.\<close>

lemma on_registry_run: "on_registry m s = (r, s') \<longleftrightarrow> m (fst s) = (r, fst s') \<and> snd s' = snd s"
  by (cases s'; cases "m (fst s)") (auto simp: on_registry_def)

lemma on_world_fst: "on_world m s = (r, s') \<Longrightarrow> fst s' = fst s"
  by (auto simp: on_world_def split: prod.splits)

lemma with_registry_split:
  assumes "with_registry p body s = (r, s')"
  shows "(s' = s \<and> (\<exists>e. r = Inl e)) \<or> (\<exists>x t. on_registry load_registry s = (x, t) \<and>
    ((\<exists>e. x = Inl e \<and> r = Inl e \<and> s' = t) \<or>
     (\<exists>st y. x = Inr st \<and> body st t = (y, s') \<and> (\<forall>a. r = Inr a \<longrightarrow> y = Inr a))))"
proof (cases "p \<or> \<not> lock_ok (fst s)")
  case True
  with assms show ?thesis by (auto simp: with_registry_def split: if_splits)
next
  case False
  obtain x t where x: "on_registry load_registry s = (x, t)" by (cases "on_registry load_registry s")
  show ?thesis
  proof (cases x)
    case (Inl e)
    with False x assms show ?thesis by (auto simp: with_registry_def bind_op_def)
  next
    case (Inr st)
    obtain y s2 where y: "body st t = (y, s2)" by (cases "body st t")
    from False x Inr y assms have "s2 = s' \<and> (\<forall>a. r = Inr a \<longrightarrow> y = Inr a)"
      by (cases y) (auto simp: with_registry_def bind_op_def split: if_splits)
    with x Inr y show ?thesis by blast
  qed
qed

lemma with_registry_moves:
  assumes run: "with_registry p body s = (r, s')"
    and step: "\<And>st x t t'. registry_of (fst t) = Some st \<Longrightarrow> body st t = (x, t') \<Longrightarrow> moves c H I (fst t) (fst t')"
  shows "moves c H I (fst s) (fst s')"
  using with_registry_split [OF run]
proof (elim disjE conjE exE)
  fix x t assume l: "on_registry load_registry s = (x, t)"
  then have l': "load_registry (fst s) = (x, fst t)" by (simp add: on_registry_run)
  note seen = load_registry_seen [OF l']
  { fix e assume "s' = t"
    with seen show ?thesis by (auto intro: moves_view)
  next
    fix st y assume "x = Inr st" "body st t = (y, s')"
    with seen step [of t st y s'] have "moves c H I (fst t) (fst s')" by simp
    moreover have "moves c H I (fst s) (fst t)" using seen by (auto intro: moves_view)
    ultimately show ?thesis using moves_trans by blast
  }
qed (simp add: moves_view)

lemma persist_on_registry_moves:
  assumes "on_registry (persist_registry st') s = (r, s')"
    and "registry_of (fst s) = Some st" and "registry_step c H I st st'"
  shows "moves c H I (fst s) (fst s')"
  using assms persist_moves [OF assms(2,3)] by (simp add: on_registry_run)

lemma configure_moves: "configure_notifications p h s = (r, s') \<Longrightarrow> moves c H I (fst s) (fst s')"
  unfolding configure_notifications_def
  by (erule with_registry_moves)
    (auto simp: pure_def moves_def split: if_splits
      dest!: persist_on_registry_moves [where c = c and H = H and I = I, OF _ _ registry_step.set_health])

subsection \<open>One submission\<close>

lemma find_registration_set:
  assumes "find_registration i st = Some (k, r0)"
  shows "find_registration i (set_registration k r st) = Some (k, r)"
proof -
  from assms have f: "find_device i st = Some k" by (simp add: find_registration_Some)
  from find_device_bounds [OF f] have k: "k < length (devices st)" by simp
  have "position P (xs[j := y]) = position P xs" if "j < length xs" "P y = P (xs ! j)" for P and xs :: "device_record list" and j y
    using that
  proof (induction xs arbitrary: j)
    case (Cons x xs)
    then show ?case by (cases j) auto
  qed simp
  with k f have "find_device i (set_registration k r st) = Some k"
    by (simp add: find_device_def set_registration_def update_device_def)
  with k show ?thesis by (simp add: find_registration_Some set_registration_def update_device_def)
qed

lemma submit_split:
  assumes run: "submit send now i g k f r st t = (x, t')"
    and find: "find_registration i st = Some (k, r0)"
  shows "(\<exists>e. persist_registry (set_registration k r st) (fst t) = (Inl e, fst t') \<and> snd t' = snd t \<and> x = Inl e)
    \<or> (\<exists>d1 result conf st2 y.
        persist_registry (set_registration k r st) (fst t) = (Inr (), d1)
        \<and> send f g (snd t) = (result, snd t')
        \<and> settle k r g now result (set_registration k r st) = (conf, st2)
        \<and> persist_registry st2 d1 = (y, fst t') \<and> x = andThen y (\<lambda>_. Inr conf))"
proof -
  let ?st = "set_registration k r st"
  obtain z d1 where z: "persist_registry ?st (fst t) = (z, d1)" by (cases "persist_registry ?st (fst t)")
  show ?thesis
  proof (cases z)
    case (Inl e)
    with run z show ?thesis by (auto simp: submit_def Let_def bind_op_def on_registry_def)
  next
    case (Inr u)
    obtain result w' where sd: "send f g (snd t) = (result, w')" by (cases "send f g (snd t)")
    obtain conf st2 where se: "settle k r g now result ?st = (conf, st2)" by (cases "settle k r g now result ?st")
    obtain y d2 where y: "persist_registry st2 d1 = (y, d2)" by (cases "persist_registry st2 d1")
    from run z Inr sd se y find_registration_set [OF find]
    have "x = andThen y (\<lambda>_. Inr conf) \<and> t' = (d2, w')"
      by (cases y) (auto simp: submit_def Let_def bind_op_def on_registry_def on_world_def pure_def)
    with z Inr sd se y show ?thesis by (intro disjI2 exI) auto
  qed
qed

lemma deliver_body_split:
  assumes run: "deliver_body latest send now i st t = (x, t')"
  shows "(fst t' = fst t \<and> (snd t' = snd t \<or> snd t' = snd (latest (snd t))) \<and> x \<noteq> Inr True)
    \<or> (\<exists>g w k r f. health st = Ready \<and> latest (snd t) = (Inr (Some g), w) \<and> g \<noteq> 0
        \<and> find_registration i st = Some (k, r) \<and> due g now r \<and> fid r = Some f
        \<and> submit send now i g k f (start_attempt now r) st (fst t, w) = (x, t'))"
proof (cases "health st = Ready")
  case False
  with run show ?thesis by (auto simp: deliver_body_def pure_def)
next
  case True
  obtain l w where l: "latest (snd t) = (l, w)" by (cases "latest (snd t)")
  show ?thesis
  proof (cases l)
    case (Inl e)
    with run True l show ?thesis by (auto simp: deliver_body_def bind_op_def on_world_def)
  next
    case (Inr m)
    show ?thesis
    proof (cases m)
      case None
      with run True l Inr show ?thesis by (auto simp: deliver_body_def bind_op_def on_world_def pure_def)
    next
      case (Some g)
      show ?thesis
      proof (cases "g = 0")
        case True
        with run \<open>health st = Ready\<close> l Inr Some show ?thesis
          by (auto simp: deliver_body_def bind_op_def on_world_def pure_def)
      next
        case g: False
        with run True l Inr Some
        have run2: "(case find_registration i st of None \<Rightarrow> pure (Inr False)
          | Some (k, r) \<Rightarrow>
              if \<not> due g now r then pure (Inr False)
              else (case fid r of
                  None \<Rightarrow> pure (Inr False)
                | Some f \<Rightarrow> submit send now i g k f (start_attempt now r) st)) (fst t, w) = (x, t')"
          by (simp add: deliver_body_def bind_op_def on_world_def pure_def)
        have stay: "pure (Inr False) (fst t, w) = (x, t') \<Longrightarrow> ?thesis"
          using l by (auto simp: pure_def)
        show ?thesis
        proof (cases "find_registration i st")
          case None
          with run2 stay show ?thesis by simp
        next
          case fr: (Some kr)
          obtain k r where kr: "kr = (k, r)" by (cases kr)
          show ?thesis
          proof (cases "due g now r \<and> fid r \<noteq> None")
            case False
            with run2 fr kr have "pure (Inr False) (fst t, w) = (x, t')" by (auto split: if_splits)
            then show ?thesis by (rule stay)
          next
            case due: True
            then obtain f where "fid r = Some f" by auto
            with run2 fr kr due True l Inr Some g show ?thesis by (intro disjI2 exI) auto
          qed
        qed
      qed
    qed
  qed
qed

lemma settle_step:
  assumes "now \<noteq> 0" and "g \<noteq> 0" and "find_registration i st = Some (k, r0)"
    and "settle k (start_attempt now r0) g now result (set_registration k (start_attempt now r0) st) = (conf, st2)"
  shows "registry_step c H I (set_registration k (start_attempt now r0) st) st2"
  using registry_step.settled [OF assms(1,2) find_registration_set [OF assms(3)]]
    attempt_nonzero [OF assms(1)] assms(4) by (metis snd_conv)

lemma submit_moves:
  assumes run: "submit send now i g k f (start_attempt now r0) st t = (x, t')"
    and find: "find_registration i st = Some (k, r0)" and nz: "now \<noteq> 0" "g \<noteq> 0"
    and view: "registry_of (fst t) = Some st"
  shows "moves c H I (fst t) (fst t')"
proof -
  let ?st = "set_registration k (start_attempt now r0) st"
  have s1: "registry_step c H I st ?st" by (rule registry_step.attempt [OF nz(1) find])
  from submit_split [OF run find] show ?thesis
  proof (elim disjE exE conjE)
    fix e assume "persist_registry ?st (fst t) = (Inl e, fst t')"
    from persist_moves [OF view s1 this] show ?thesis .
  next
    fix d1 result conf st2 y
    assume p1: "persist_registry ?st (fst t) = (Inr (), d1)"
      and se: "settle k (start_attempt now r0) g now result ?st = (conf, st2)"
      and p2: "persist_registry st2 d1 = (y, fst t')"
    from persist_registry_ok [OF p1] valid_step [OF s1 registry_of_valid [OF view]]
    have v1: "registry_of d1 = Some ?st" by simp
    have "moves c H I d1 (fst t')"
      by (rule persist_moves [OF v1 settle_step [OF nz find se] p2])
    with persist_moves [OF view s1 p1] show ?thesis by (rule moves_trans)
  qed
qed

lemma deliver_body_moves:
  assumes "deliver_body latest send now i st t = (x, t')" and "now \<noteq> 0" and "registry_of (fst t) = Some st"
  shows "moves c H I (fst t) (fst t')"
  using deliver_body_split [OF assms(1)] submit_moves [OF _ _ assms(2), where t = "(fst t, w)" for w] assms(3)
  by (fastforce intro: moves_view)

lemma deliver_loop_moves:
  "deliver_loop latest send p now n devs s = (r, s') \<Longrightarrow> now \<noteq> 0 \<Longrightarrow> moves c H I (fst s) (fst s')"
proof (induction devs arbitrary: n s)
  case Nil
  then show ?case by (simp add: pure_def moves_view)
next
  case (Cons dev devs)
  from Cons.prems(1) have run: "bind_op (deliver_one latest send p now (device_id dev))
     (\<lambda>confirmed. deliver_loop latest send p now (n + of_bool confirmed) devs) s = (r, s')" by simp
  show ?case
  proof (rule moves_bind [OF run, where view = fst])
    fix x t assume "deliver_one latest send p now (device_id dev) s = (x, t)"
    then show "moves c H I (fst s) (fst t)"
      unfolding deliver_one_def by (rule with_registry_moves) (rule deliver_body_moves [OF _ Cons.prems(2)])
  next
    fix a t assume "deliver_loop latest send p now (n + of_bool a) devs t = (r, s')"
    then show "moves c H I (fst t) (fst s')" by (rule Cons.IH [OF _ Cons.prems(2)])
  qed
qed

lemma deliver_moves:
  "deliver_notifications latest send p now s = (r, s') \<Longrightarrow> moves c H I (fst s) (fst s')"
  unfolding deliver_notifications_def
  by (elim moves_guarded [where view = fst] moves_bind [where view = fst])
    (auto simp: results on_registry_run elim!: deliver_loop_moves reader_moves)

subsection \<open>Histories\<close>

text \<open>
  A history of the registry: every operation of the two files, with whatever result and
  whichever write fails, in any order, and changes of the environment (locks, faults to come,
  the callbacks' world) that leave the registry file alone. The digests \<open>H\<close> and identifiers
  \<open>I\<close> are those the random generator does not produce again.
\<close>

inductive pairing_step ::
  "crates \<Rightarrow> string set \<Rightarrow> string set \<Rightarrow> registry_file disk \<times> 'w \<Rightarrow> registry_file disk \<times> 'w \<Rightarrow> bool"
  for c H I where
  opens: "on_registry (open_registry p) s = (r, s') \<Longrightarrow> pairing_step c H I s s'"
| issues: "hash c token \<notin> H \<Longrightarrow> on_registry (issue c parse_url p u i now ttl token) s = (r, s')
    \<Longrightarrow> pairing_step c H I s s'"
| consumes: "new_id \<notin> I \<Longrightarrow> on_registry (consume c p token name now new_id cred) s = (r, s')
    \<Longrightarrow> pairing_step c H I s s'"
| authenticates: "on_registry (authenticate_device c p cred) s = (r, s') \<Longrightarrow> pairing_step c H I s s'"
| records: "on_registry (record_delivery p i now) s = (r, s') \<Longrightarrow> pairing_step c H I s s'"
| revokes: "on_registry (revoke p i) s = (r, s') \<Longrightarrow> pairing_step c H I s s'"
| lists: "on_registry (status p) s = (r, s') \<Longrightarrow> pairing_step c H I s s'"
| registers: "on_registry (register_notification_installation c p cred f) s = (r, s')
    \<Longrightarrow> pairing_step c H I s s'"
| reports: "on_registry (notification_status_op p) s = (r, s') \<Longrightarrow> pairing_step c H I s s'"
| configures: "configure_notifications p h s = (r, s') \<Longrightarrow> pairing_step c H I s s'"
| retries: "on_registry (retry_notifications p) s = (r, s') \<Longrightarrow> pairing_step c H I s s'"
| delivers: "deliver_notifications latest send p now s = (r, s') \<Longrightarrow> pairing_step c H I s s'"
| environment: "files (fst s') = files (fst s) \<Longrightarrow> pairing_step c H I s s'"

abbreviation pairing_history ::
  "crates \<Rightarrow> string set \<Rightarrow> string set \<Rightarrow> registry_file disk \<times> 'w \<Rightarrow> registry_file disk \<times> 'w \<Rightarrow> bool" where
  "pairing_history c H I \<equiv> (pairing_step c H I)\<^sup>*\<^sup>*"

lemma pairing_step_moves: "pairing_step c H I s s' \<Longrightarrow> moves c H I (fst s) (fst s')"
proof (induction rule: pairing_step.induct)
  case (environment s' s)
  then show ?case by (simp add: moves_files lookup_file_def)
qed (auto simp only: on_registry_run elim: open_moves issue_moves consume_moves reader_moves
  record_delivery_moves revoke_moves register_moves configure_moves retry_moves deliver_moves)

lemma pairing_history_moves: "pairing_history c H I s s' \<Longrightarrow> moves c H I (fst s) (fst s')"
proof (induction rule: rtranclp_induct)
  case base
  show ?case by (rule moves_view) simp
next
  case (step t u)
  with pairing_step_moves moves_trans show ?case by blast
qed

text \<open>
  The interface of the abstract registry: a client states a promise about states and shows
  that one abstract step keeps it; the client facts carry it along every history of the code.
\<close>

locale registry_promise =
  fixes c :: crates and H I :: "string set" and keeps :: "registry_state \<Rightarrow> bool"
  assumes keeps_step: "registry_step c H I st st' \<Longrightarrow> registry_valid st \<Longrightarrow> keeps st \<Longrightarrow> keeps st'"
begin

lemma keeps_steps:
  "(registry_step c H I)\<^sup>*\<^sup>* st st' \<Longrightarrow> registry_valid st \<Longrightarrow> keeps st \<Longrightarrow> keeps st' \<and> registry_valid st'"
  by (induction rule: rtranclp_induct) (auto intro: keeps_step valid_step)

lemma keeps_moves:
  assumes "moves c H I d d'" and "registry_of d = Some st" and "keeps st"
  shows "\<exists>st'. registry_of d' = Some st' \<and> keeps st'"
  using assms keeps_steps registry_of_valid unfolding moves_def by blast

lemma keeps_history:
  "pairing_history c H I s s' \<Longrightarrow> registry_of (fst s) = Some st \<Longrightarrow> keeps st
     \<Longrightarrow> \<exists>st'. registry_of (fst s') = Some st' \<and> keeps st'"
  by (rule keeps_moves [OF pairing_history_moves])

end

definition offer_count :: "string \<Rightarrow> registry_state \<Rightarrow> nat" where
  "offer_count h st = length (filter (\<lambda>offer. token_hash offer = h) (offers st))"

definition has_device :: "string \<Rightarrow> registry_state \<Rightarrow> bool" where
  "has_device i st = (\<exists>dev \<in> set (devices st). device_id (dev_status dev) = i)"

lemma frame_offers [simp]:
  "offers (update_device k g st) = offers st" "offers (set_registration k r st) = offers st"
  by (simp_all add: update_device_def set_registration_def)

lemma settle_offers: "offers (snd (settle k r g now result st)) = offers st"
  by (induction k r g now result st rule: settle.induct) simp_all

lemma length_filter_filter: "length (filter Q (filter P xs)) \<le> length (filter Q xs)"
  by (induction xs) auto

lemma length_filter_remove_at:
  assumes "j < length xs"
  shows "length (filter Q xs) = length (filter Q (remove_at j xs)) + of_bool (Q (xs ! j))"
proof -
  have "filter Q xs = filter Q (take j xs) @ filter Q (xs ! j # drop (Suc j) xs)"
    by (subst id_take_nth_drop [OF assms], simp only: filter_append)
  then show ?thesis by (simp add: remove_at_def)
qed

lemma consume_work_Inr:
  "consume_work c token name now new_id cred st = Inr (a, st') \<longleftrightarrow>
     (\<exists>j. position (\<lambda>offer. token_hash offer = hash c token \<and> now \<le> expires_at_ms offer) (offers st) = Some j
       \<and> a = \<lparr>dc_device_id = new_id, dc_device_name = name, dc_credential = cred\<rparr>
       \<and> st' = st\<lparr>offers := filter (\<lambda>offer. now \<le> expires_at_ms offer) (remove_at j (offers st)),
          devices := devices st @ [\<lparr>dev_status = \<lparr>device_id = new_id, device_name = name,
               paired_at_ms = now, last_delivery_at_ms = None\<rparr>,
             credential_hash = hash c cred, notification = None\<rparr>]\<rparr>)"
  by (auto simp: consume_work_def results)

lemma consume_offer_count:
  assumes "consume_work c token name now new_id cred st = Inr (a, st')"
  shows "offer_count h st' + of_bool (h = hash c token) \<le> offer_count h st"
proof -
  from assms obtain j
    where j: "position (\<lambda>offer. token_hash offer = hash c token \<and> now \<le> expires_at_ms offer) (offers st) = Some j"
      and o': "offers st' = filter (\<lambda>offer. now \<le> expires_at_ms offer) (remove_at j (offers st))"
    by (auto simp: consume_work_Inr)
  from position_Some [OF j] have b: "j < length (offers st)" "token_hash (offers st ! j) = hash c token" by auto
  show ?thesis
    using length_filter_filter [of "\<lambda>offer. token_hash offer = h" "\<lambda>offer. now \<le> expires_at_ms offer" "remove_at j (offers st)"]
      length_filter_remove_at [OF b(1), of "\<lambda>offer. token_hash offer = h"] b(2) o'
    by (auto simp: offer_count_def)
qed

lemma offer_count_step:
  "registry_step c H I st st' \<Longrightarrow> h \<in> H \<Longrightarrow> offer_count h st' \<le> offer_count h st"
proof (induction rule: registry_step.induct)
  case (issue token u i now ttl st a st')
  then have "offers st' = filter (\<lambda>offer. now < expires_at_ms offer) (offers st)
      @ [\<lparr>token_hash = hash c token, expires_at_ms = saturating_add now ttl\<rparr>]"
    by (auto simp: issue_work_def Let_def)
  moreover have "hash c token \<noteq> h" using issue by auto
  ultimately show ?case by (simp add: offer_count_def length_filter_filter del: filter_filter)
next
  case (consume new_id token name now cred st a st')
  from consume_offer_count [OF consume.hyps(2), of h] show ?case by simp
next
  case (revoke i st a st')
  then show ?case by (auto simp: revoke_work_def Let_def offer_count_def split: if_splits)
next
  case (register f cred st a st')
  from register_work_Inr [OF register.hyps(2)] show ?case by (auto simp: offer_count_def)
next
  case (settled now generation i st k r result)
  then show ?case by (simp add: offer_count_def settle_offers)
qed (simp_all add: offer_count_def)

lemma has_device_alt: "has_device i st \<longleftrightarrow> i \<in> (\<lambda>dev. device_id (dev_status dev)) ` set (devices st)"
  by (auto simp: has_device_def)

lemma has_device_update:
  assumes "k < length (devices st)" and "device_id (dev_status (g (devices st ! k))) = device_id (dev_status (devices st ! k))"
  shows "has_device i (update_device k g st) = has_device i st"
proof -
  have "map (\<lambda>dev. device_id (dev_status dev)) ((devices st)[k := g (devices st ! k)])
      = map (\<lambda>dev. device_id (dev_status dev)) (devices st)"
    using assms by (intro map_update_same) auto
  from arg_cong [OF this, of set] show ?thesis by (simp add: has_device_alt update_device_def)
qed

lemma has_device_set: "k < length (devices st) \<Longrightarrow> has_device i (set_registration k r st) = has_device i st"
  unfolding set_registration_def by (rule has_device_update) simp_all

lemma has_device_settle:
  assumes "k < length (devices st)"
  shows "has_device i (snd (settle k r g now result st)) = has_device i st"
  using has_device_set [OF assms]
  by (cases "(k, r, g, now, result, st)" rule: settle.cases) (auto simp: has_device_def)

lemma has_device_step:
  "registry_step c H I st st' \<Longrightarrow> i \<in> I \<Longrightarrow> \<not> has_device i st \<Longrightarrow> \<not> has_device i st'"
proof (induction rule: registry_step.induct)
  case (issue token u i' now ttl st a st')
  then show ?case by (auto simp: issue_work_def Let_def has_device_def)
next
  case (consume new_id token name now cred st a st')
  then show ?case by (auto simp: consume_work_Inr has_device_def)
next
  case (revoke i' st a st')
  then show ?case by (auto simp: revoke_work_def Let_def has_device_def split: if_splits)
next
  case (deliver_ack k st now)
  then show ?case by (simp add: has_device_update)
next
  case (register f cred st a st')
  from register_work_Inr [OF register.hyps(2)] register.prems show ?case
    by (auto simp: has_device_set)
next
  case (attempt now i' st k r)
  then show ?case by (auto simp: has_device_set find_registration_Some dest: find_device_bounds)
next
  case (settled now generation i' st k r result)
  then show ?case by (auto simp: has_device_settle find_registration_Some dest!: find_device_bounds)
qed (simp_all add: has_device_def)

interpretation loadable: registry_promise c H I registry_valid
  by unfold_locales (rule valid_step)

interpretation offers_left: registry_promise c "{h}" I "\<lambda>st. offer_count h st \<le> n"
  by unfold_locales (use offer_count_step in \<open>fastforce intro: le_trans\<close>)

interpretation revoked: registry_promise c H "{i}" "\<lambda>st. \<not> has_device i st"
  by unfold_locales (use has_device_step in blast)

end
