(* ===== verification/Pairing_Properties.thy ===== *)
theory Pairing_Properties
  imports Pairing_History Run_Demo
begin

section \<open>Properties of pairing and notifications\<close>

text \<open>
  The registry stays loadable, a token is used once, a revoked device stays out, and a
  delivery submits only what is due; with a small registry on which they are evaluated.
\<close>

subsection \<open>Lemmas about single operations\<close>

lemma load_registry_error:
  assumes "registry_of d = Some st" and "load_registry d = (Inl e, d')"
  shows "e = Pair_Io"
proof -
  from assms(1) obtain f where f: "lookup_file d registry_path = Some (Stored f)" "seen_state f = Some st"
    by (auto simp: registry_of_def split: option.splits entry.splits)
  from f(2) have v: "registry_valid st" by (rule seen_valid)
  then have ok: "reg_schema_version st = 3" "validate_registry st = Inr ()"
    by (auto simp: registry_valid_def is_ok_def split: sum.splits)
  show ?thesis
  proof (cases f)
    case (Current st')
    with f have "st' = st" by (simp split: if_splits)
    with assms(2) f(1) Current ok show ?thesis
      by (simp add: load_registry_def bind_op_def read_op_def pure_def read_registry_def read_file_def)
  next
    case (Legacy l)
    with f have up: "upgrade l = Inr st" by (auto simp: seen_state_def split: sum.splits if_splits)
    with assms(2) f(1) Legacy ok have "fst (persist_registry st d) = Inl e"
      by (auto simp: load_registry_def bind_op_def read_op_def pure_def read_registry_def read_file_def
          split: prod.splits sum.splits)
    then show ?thesis
      by (auto simp: persist_registry_def write_op_def write_atomic_def Let_def split: write_fault.splits)
  qed
qed

lemma consume_ok:
  assumes "consume c p token nm now new_id cred d = (Inr a, d')"
  shows "\<exists>st st'. registry_of d = Some st \<and> consume_work c token (trim nm) now new_id cred st = Inr (a, st')
    \<and> registry_of d' = Some st'"
proof -
  from assms have "with_state p True (consume_work c token (trim nm) now new_id cred) d = (Inr a, d')"
    unfolding consume_def Let_def by (auto simp: bind_op_def pure_def split: sum.splits)
  from with_state_ok [OF this] obtain st st' where w: "registry_of d = Some st"
    "consume_work c token (trim nm) now new_id cred st = Inr (a, st')" "registry_of d' = seen_state (Current st')"
    by auto
  have "registry_step c {} {} st st'" by (rule registry_step.consume [OF _ w(2)]) simp
  from valid_step [OF this registry_of_valid [OF w(1)]] w show ?thesis by simp
qed

lemma consume_needs_offer:
  "consume_work c token name now new_id cred st = Inr (a, st') \<Longrightarrow> 0 < offer_count (hash c token) st"
  using consume_offer_count [of c token name now new_id cred st a st' "hash c token"] by simp

lemma revoke_ok:
  assumes "revoke p i d = (Inr u, d')"
  shows "\<exists>st'. registry_of d' = Some st' \<and> \<not> has_device i st'"
proof -
  from with_state_ok [OF assms [unfolded revoke_def]] obtain st st' where w: "registry_of d = Some st"
    "revoke_work i st = Inr (u, st')" "registry_of d' = seen_state (Current st')" by auto
  have "registry_step fakecrates {} {} st st'" for fakecrates by (rule registry_step.revoke [OF w(2)])
  from valid_step [OF this registry_of_valid [OF w(1)]] w have "registry_of d' = Some st'" by simp
  moreover from w(2) have "\<not> has_device i st'"
    by (auto simp: revoke_work_def Let_def has_device_def split: if_splits)
  ultimately show ?thesis by blast
qed

lemma find_device_has: "find_device i st = Some k \<Longrightarrow> has_device i st"
  using find_device_bounds [of i st k] by (auto simp: has_device_def intro!: bexI [of _ "devices st ! k"])

text \<open>A callback that records the submissions it is asked for, and one that leaves the record alone.\<close>

definition logged ::
  "(string \<Rightarrow> u64 \<Rightarrow> 'w \<Rightarrow> (notification_failure + unit) \<times> 'w)
     \<Rightarrow> string \<Rightarrow> u64 \<Rightarrow> 'w \<times> (string \<times> u64) list
     \<Rightarrow> (notification_failure + unit) \<times> 'w \<times> (string \<times> u64) list" where
  "logged send f g s = (case send f g (fst s) of (r, w) \<Rightarrow> (r, (w, snd s @ [(f, g)])))"

definition quiet ::
  "('w \<Rightarrow> (pairing_error + u64 option) \<times> 'w) \<Rightarrow> 'w \<times> (string \<times> u64) list
     \<Rightarrow> (pairing_error + u64 option) \<times> 'w \<times> (string \<times> u64) list" where
  "quiet latest s = (case latest (fst s) of (r, w) \<Rightarrow> (r, (w, snd s)))"

lemma due_iff:
  "due g now r \<longleftrightarrow> enabled r \<and> (\<forall>sent. submitted_generation r = Some sent \<longrightarrow> sent < g) \<and> retry_at_ms r \<le> now"
  by (auto simp: due_def split: option.splits)

lemma start_attempt_retry: "retry_at_ms (start_attempt now r) = saturating_add now (retry_delay (saturating_add (attempts r) 1))"
  by (simp add: start_attempt_def Let_def)

lemma saturating_add_mono: "(b :: u64) \<le> b' \<Longrightarrow> saturating_add a b \<le> saturating_add a b'"
  unfolding word_le_nat_alt unat_saturating_add by simp

lemma retry_delay_minimum: "60000 \<le> retry_delay n"
  by (simp add: word_le_nat_alt retry_delay_unat)

lemma attempt_backoff: "saturating_add now 60000 \<le> retry_at_ms (start_attempt now r)"
  unfolding start_attempt_retry by (rule saturating_add_mono [OF retry_delay_minimum])

text \<open>What the registry knows of device \<open>i\<close> after a submission of generation \<open>g\<close> at \<open>now\<close>.\<close>

definition settled_for :: "u64 \<Rightarrow> u64 \<Rightarrow> string \<Rightarrow> registry_state \<Rightarrow> bool" where
  "settled_for g now i st =
     (case find_registration i st of None \<Rightarrow> False
      | Some (_, r) \<Rightarrow> submitted_generation r = Some g \<or> saturating_add now 60000 \<le> retry_at_ms r)"

lemma settle_settled:
  assumes find: "find_registration i st = Some (k, r)"
    and wait: "saturating_add now 60000 \<le> retry_at_ms r"
    and se: "settle k r g now result st = (conf, st2)"
  shows "settled_for g now i st2 \<and> (conf \<longrightarrow> (\<exists>r'. find_registration i st2 = Some (k, r') \<and> submitted_generation r' = Some g))"
proof -
  note set = find_registration_set [OF find]
  have h: "find_registration i (st\<lparr>health := x\<rparr>) = Some (k, r)" for x
    using find by (auto simp: find_registration_Some find_device_def)
  have b2: "saturating_add now 60000 \<le> max (retry_at_ms r) y" for y using wait by (simp add: le_max_iff_disj)
  show ?thesis
  proof (cases result)
    case (Inr u)
    with se set show ?thesis by (auto simp: settled_for_def)
  next
    case (Inl e)
    with se set h wait b2 show ?thesis by (cases e) (auto simp: settled_for_def)
  qed
qed

lemma deliver_one_log:
  assumes run: "deliver_one (quiet latest) (logged send) p now i (d, (w, log)) = (r, (d', (w', log')))"
    and now: "now \<noteq> 0"
  shows "(log' = log \<and> r \<noteq> Inr True) \<or> (\<exists>st k reg f g. registry_of d = Some st \<and> health st = Ready
      \<and> (\<exists>w2. latest w = (Inr (Some g), w2)) \<and> find_registration i st = Some (k, reg) \<and> due g now reg
      \<and> fid reg = Some f \<and> log' = log @ [(f, g)]
      \<and> (\<exists>st'. registry_of d' = Some st' \<and> settled_for g now i st'
           \<and> (r = Inr True \<longrightarrow> (\<exists>k' r'. find_registration i st' = Some (k', r') \<and> submitted_generation r' = Some g))))"
  using with_registry_split [OF run [unfolded deliver_one_def]]
proof (elim disjE conjE exE)
  fix e assume "(d', w', log') = (d, w, log)" "r = Inl e"
  then show ?thesis by simp
next
  fix x t e assume "on_registry load_registry (d, w, log) = (x, t)" "r = Inl e" "(d', w', log') = t"
  then show ?thesis by (auto simp: on_registry_def split: prod.splits)
next
  fix x t st y
  assume l: "on_registry load_registry (d, w, log) = (x, t)" and x: "x = Inr st"
    and body: "deliver_body (quiet latest) (logged send) now i st t = (y, (d', w', log'))"
    and y: "\<forall>a. r = Inr a \<longrightarrow> y = Inr a"
  from l have l': "load_registry d = (x, fst t)" and snd: "snd t = (w, log)" by (simp_all add: on_registry_run)
  from load_registry_seen [OF l'] x have view: "registry_of d = Some st" "registry_of (fst t) = Some st" by simp_all
  have ql: "snd (quiet latest (w, log)) = (snd (latest w), log)" by (simp add: quiet_def split: prod.split)
  from deliver_body_split [OF body] show ?thesis
  proof (elim disjE exE conjE)
    assume "snd (d', w', log') = snd t" "y \<noteq> Inr True"
    with snd y show ?thesis by auto
  next
    assume "snd (d', w', log') = snd (quiet latest (snd t))" "y \<noteq> Inr True"
    with snd ql y show ?thesis by auto
  next
    fix g w2 k reg f
    assume ready: "health st = Ready" and lat: "quiet latest (snd t) = (Inr (Some g), w2)" and g: "g \<noteq> 0"
      and find: "find_registration i st = Some (k, reg)" and due: "due g now reg" and f: "fid reg = Some f"
      and sub: "submit (logged send) now i g k f (start_attempt now reg) st (fst t, w2) = (y, d', w', log')"
    from lat snd have w2: "snd w2 = log" and lat': "\<exists>w3. latest w = (Inr (Some g), w3)"
      by (auto simp: quiet_def split: prod.splits)
    let ?st = "set_registration k (start_attempt now reg) st"
    have s1: "registry_step c {} {} st ?st" for c by (rule registry_step.attempt [OF now find])
    from valid_step [OF s1 registry_of_valid [OF view(1)]] have v1: "registry_valid ?st" .
    from submit_split [OF sub find] show ?thesis
    proof (elim disjE exE conjE)
      fix e assume "snd (d', w', log') = snd (fst t, w2)" "y = Inl e"
      with w2 y show ?thesis by (cases w2) auto
    next
      fix d1 result conf st2 z
      assume p1: "persist_registry ?st (fst (fst t, w2)) = (Inr (), d1)"
        and sd: "logged send f g (snd (fst t, w2)) = (result, snd (d', w', log'))"
        and se: "settle k (start_attempt now reg) g now result ?st = (conf, st2)"
        and p2: "persist_registry st2 d1 = (z, fst (d', w', log'))" and yz: "y = andThen z (\<lambda>_. Inr conf)"
      from sd w2 have log': "log' = log @ [(f, g)]" by (auto simp: logged_def split: prod.splits)
      note set = find_registration_set [OF find, of "start_attempt now reg"]
      have step2: "registry_step c {} {} ?st st2" for c by (rule settle_step [OF now g find se])
      from valid_step [OF step2 v1] have v2: "registry_valid st2" .
      note fin = settle_settled [OF set attempt_backoff se]
      have mid: "settled_for g now i ?st" using set attempt_backoff by (simp add: settled_for_def)
      from persist_registry_ok [OF p1] v1 have d1: "registry_of d1 = Some ?st" by simp
      have "\<exists>st'. registry_of d' = Some st' \<and> settled_for g now i st'
           \<and> (r = Inr True \<longrightarrow> (\<exists>k' r'. find_registration i st' = Some (k', r') \<and> submitted_generation r' = Some g))"
      proof (cases z)
        case (Inr u)
        with p2 have "persist_registry st2 d1 = (Inr u, d')" by simp
        from persist_registry_ok [OF this] v2 have "registry_of d' = Some st2" by simp
        moreover have "r = Inr True \<longrightarrow> conf" using y yz Inr by auto
        ultimately show ?thesis using fin by blast
      next
        case (Inl e)
        with y yz have "r \<noteq> Inr True" by auto
        moreover from p2 have "persist_registry st2 d1 = (z, d')" by simp
        from persist_registry_cases [OF this] d1 v2
        have "registry_of d' = Some ?st \<or> registry_of d' = Some st2" by simp
        ultimately show ?thesis using fin mid by blast
      qed
      with view(1) ready lat' find due f log' show ?thesis by blast
    qed
  qed
qed

subsection \<open>A concrete registry\<close>

definition demo_fid :: string where
  "demo_fid = ''AAAAAAAAAAAAAAAAAAAAAA''"

definition demo_device :: "u64 option \<Rightarrow> device_record" where
  "demo_device sent = \<lparr>dev_status = \<lparr>device_id = ''d1'', device_name = ''phone'', paired_at_ms = 1,
       last_delivery_at_ms = None\<rparr>, credential_hash = hash demo_crates ''secret'',
     notification = Some \<lparr>fid = Some demo_fid, enabled = True, submitted_generation = sent,
       retry_at_ms = 0, attempts = 0\<rparr>\<rparr>"

definition demo_registry :: registry_state where
  "demo_registry = \<lparr>reg_schema_version = 3, offers = [\<lparr>token_hash = hash demo_crates ''t'', expires_at_ms = 9\<rparr>],
     devices = [demo_device (Some 4)], health = Ready\<rparr>"

definition demo_dir :: "registry_file \<Rightarrow> registry_file disk" where
  "demo_dir f = \<lparr>files = [(registry_path, Stored f)], listable = True, lock_ok = True, unlock_ok = True,
     write_faults = []\<rparr>"

lemma demo_valid_fid: "valid_fid demo_fid"
  by (simp add: valid_fid_def demo_fid_def is_ascii_alphanumeric_def
      is_ascii_upper_def is_ascii_lower_def is_ascii_digit_def byte_of_def)

lemma demo_registry_valid: "registry_valid demo_registry"
  by (simp add: registry_valid_iff demo_registry_def demo_device_def fid_of_def good_registration_def
      invalid_registration_def demo_valid_fid)

lemma demo_registry_of: "registry_valid st \<Longrightarrow> registry_of (demo_dir (Current st)) = Some st"
  by (simp add: registry_of_def demo_dir_def lookup_file_def)

lemma demo_registry_load: "registry_valid st \<Longrightarrow> load_registry (demo_dir (Current st)) = (Inr st, demo_dir (Current st))"
  by (auto simp: load_registry_def bind_op_def read_op_def pure_def read_registry_def read_file_def
      demo_dir_def lookup_file_def registry_valid_def is_ok_def split: sum.splits)

lemma demo_registry_persist: "persist_registry st' (demo_dir f) = (Inr (), demo_dir (Current st'))"
  by (simp add: persist_registry_def write_op_def write_atomic_def next_fault_def Let_def demo_dir_def)

lemma demo_with_state:
  assumes "registry_valid st" and "work st = Inr (a, st')"
  shows "with_state False True work (demo_dir (Current st)) = (Inr a, demo_dir (Current st'))"
proof -
  have flags: "lock_ok (demo_dir f)" "unlock_ok (demo_dir f)" for f by (simp_all add: demo_dir_def)
  show ?thesis using assms
    by (simp add: with_state_def bind_op_def pure_def demo_registry_load demo_registry_persist flags)
qed

definition demo_paired :: registry_state where
  "demo_paired = demo_registry\<lparr>offers := [], devices := devices demo_registry @ [\<lparr>dev_status = \<lparr>device_id = ''d2'',
     device_name = ''x'', paired_at_ms = 5, last_delivery_at_ms = None\<rparr>,
     credential_hash = hash demo_crates ''s2'', notification = None\<rparr>]\<rparr>"

lemma demo_consume:
  "consume demo_crates False ''t'' ''x'' 5 ''d2'' ''s2'' (demo_dir (Current demo_registry)) =
     (Inr \<lparr>dc_device_id = ''d2'', dc_device_name = ''x'', dc_credential = ''s2''\<rparr>, demo_dir (Current demo_paired))"
proof -
  have nm: "trim ''x'' = ''x''" "\<not> list_ex is_control (utf8_decode ''x'')"
    by (simp_all add: trim_def whitespace_char_def is_whitespace_def is_control_def byte_of_def
      utf8_lead_def utf8_extra_def)
  have w: "consume_work demo_crates ''t'' ''x'' 5 ''d2'' ''s2'' demo_registry =
     Inr (\<lparr>dc_device_id = ''d2'', dc_device_name = ''x'', dc_credential = ''s2''\<rparr>, demo_paired)"
    by (simp add: consume_work_def demo_registry_def demo_paired_def)
  from demo_with_state [where work = "consume_work demo_crates ''t'' ''x'' 5 ''d2'' ''s2''", OF demo_registry_valid w] nm
  show ?thesis by (simp add: consume_def bind_op_def pure_def)
qed

lemma demo_revoke:
  "revoke False ''d1'' (demo_dir (Current demo_registry)) =
     (Inr (), demo_dir (Current (demo_registry\<lparr>devices := []\<rparr>)))"
  unfolding revoke_def
  by (rule demo_with_state [OF demo_registry_valid])
    (simp add: revoke_work_def demo_registry_def demo_device_def)

subsection \<open>Properties\<close>

text \<open>C12: From a registry that loads, every history of pairing and notification operations and
  storage faults leads to a registry that loads: no two devices share an installation, every
  registration passes its validation, and loading can fail only on file input or output.\<close>

theorem registry_stays_loadable:
  assumes "pairing_history c {} {} s s'" and "registry_of (fst s) = Some st"
  shows "\<exists>st'. registry_of (fst s') = Some st' \<and> distinct (somes (map fid_of (devices st')))
    \<and> (\<forall>dev \<in> set (devices st'). \<forall>r. notification dev = Some r \<longrightarrow> good_registration r)
    \<and> (\<forall>e d. load_registry (fst s') = (Inl e, d) \<longrightarrow> e = Pair_Io)"
proof -
  from loadable.keeps_history [OF assms registry_of_valid [OF assms(2)]]
  obtain st' where st': "registry_of (fst s') = Some st'" "registry_valid st'" by blast
  from load_registry_error [OF st'(1)] st' show ?thesis by (auto simp: registry_valid_iff)
qed

theorem registry_stays_loadable_witness:
  "\<exists>st'. registry_of (demo_dir (Current demo_paired)) = Some st' \<and> distinct (somes (map fid_of (devices st')))
    \<and> (\<forall>dev \<in> set (devices st'). \<forall>r. notification dev = Some r \<longrightarrow> good_registration r)
    \<and> (\<forall>e d. load_registry (demo_dir (Current demo_paired)) = (Inl e, d) \<longrightarrow> e = Pair_Io)"
proof -
  have "pairing_history demo_crates {} {} (demo_dir (Current demo_registry), ()) (demo_dir (Current demo_paired), ())"
    by (rule r_into_rtranclp, rule pairing_step.consumes [where p = False and token = "''t''" and name = "''x''"
        and now = 5 and new_id = "''d2''" and cred = "''s2''"])
      (simp_all add: on_registry_run demo_consume)
  from registry_stays_loadable [OF this] demo_registry_of [OF demo_registry_valid] show ?thesis by simp
qed

text \<open>C13: A pairing token with one outstanding offer that was consumed is refused ever after,
  whatever happens to the registry in between, unless its digest is issued again.\<close>

theorem pairing_token_single_use:
  assumes "registry_of (fst s0) = Some st" and "offer_count (hash c token) st \<le> 1"
    and "on_registry (consume c p token nm now new_id cred) s0 = (Inr a, s1)"
    and "pairing_history c {hash c token} I s1 s2"
  shows "\<not> is_ok (fst (consume c p' token nm' now' new_id' cred' (fst s2)))"
proof
  assume "is_ok (fst (consume c p' token nm' now' new_id' cred' (fst s2)))"
  then obtain a' d' where again: "consume c p' token nm' now' new_id' cred' (fst s2) = (Inr a', d')"
    by (metis is_ok_iff prod.collapse)
  from assms(3) have "consume c p token nm now new_id cred (fst s0) = (Inr a, fst s1)" by (simp add: on_registry_run)
  from consume_ok [OF this] assms(1) obtain st1
    where w: "consume_work c token (trim nm) now new_id cred st = Inr (a, st1)" "registry_of (fst s1) = Some st1" by auto
  from consume_offer_count [OF w(1), of "hash c token"] assms(2) have "offer_count (hash c token) st1 \<le> 0" by simp
  from offers_left.keeps_history [OF assms(4) w(2) this] obtain st2
    where st2: "registry_of (fst s2) = Some st2" "offer_count (hash c token) st2 = 0" by auto
  from consume_ok [OF again] st2 consume_needs_offer show False by fastforce
qed

theorem pairing_token_single_use_witness:
  "\<not> is_ok (fst (consume demo_crates False ''t'' ''y'' 6 ''d3'' ''s3'' (demo_dir (Current demo_paired))))"
proof -
  have one: "offer_count (hash demo_crates ''t'') demo_registry \<le> 1"
    by (simp add: offer_count_def demo_registry_def)
  have run: "on_registry (consume demo_crates False ''t'' ''x'' 5 ''d2'' ''s2'') (demo_dir (Current demo_registry), ()) =
     (Inr \<lparr>dc_device_id = ''d2'', dc_device_name = ''x'', dc_credential = ''s2''\<rparr>, (demo_dir (Current demo_paired), ()))"
    by (simp add: on_registry_run demo_consume)
  from pairing_token_single_use [where ?s0.0 = "(demo_dir (Current demo_registry), ())" and I = "{}",
      OF _ one run rtranclp.rtrancl_refl] demo_registry_of [OF demo_registry_valid]
  show ?thesis by simp
qed

text \<open>C14: After a device was revoked no bearer authenticates as it, no delivery is recorded for it
  and no notification is submitted to it, until its identifier is generated again.\<close>

theorem revoked_device_stays_out:
  assumes "on_registry (revoke p i) s0 = (Inr (), s1)" and "pairing_history c H {i} s1 s2"
  shows "fst (authenticate_device c p' cred (fst s2)) \<noteq> Inr (Some i)
    \<and> \<not> is_ok (fst (record_delivery p' i now (fst s2)))
    \<and> (deliver_one latest send p' now i s2 = (r, s3) \<longrightarrow>
         r \<noteq> Inr True \<and> (snd s3 = snd s2 \<or> snd s3 = snd (latest (snd s2))))"
proof -
  from assms(1) have "revoke p i (fst s0) = (Inr (), fst s1)" by (simp add: on_registry_run)
  from revoke_ok [OF this] obtain st1 where st1: "registry_of (fst s1) = Some st1" "\<not> has_device i st1" by blast
  from revoked.keeps_history [OF assms(2) st1] obtain st
    where st: "registry_of (fst s2) = Some st" and gone: "\<not> has_device i st" by blast
  have "fst (authenticate_device c p' cred (fst s2)) \<noteq> Inr (Some i)"
  proof
    assume "fst (authenticate_device c p' cred (fst s2)) = Inr (Some i)"
    then obtain d' where "authenticate_device c p' cred (fst s2) = (Inr (Some i), d')" by (metis prod.collapse)
    from with_state_ok [OF this [unfolded authenticate_device_def]] st
    have "map_option (\<lambda>dev. device_id (dev_status dev)) (credential_owner c cred st) = Some i" by auto
    then show False using gone by (auto simp: credential_owner_def has_device_def dest!: find_Some_in)
  qed
  moreover have "\<not> is_ok (fst (record_delivery p' i now (fst s2)))"
  proof
    assume "is_ok (fst (record_delivery p' i now (fst s2)))"
    then obtain d' where "record_delivery p' i now (fst s2) = (Inr (), d')"
      by (metis (full_types) is_ok_iff prod.collapse old.unit.exhaust)
    then have "with_state p' True (\<lambda>st. andThen (ok_or (find_device i st) (Rejected ''device is unknown'')) (\<lambda>k.
       Inr ((), update_device k (\<lambda>dev. dev\<lparr>dev_status :=
         (dev_status dev)\<lparr>last_delivery_at_ms := Some now\<rparr>\<rparr>) st))) (fst s2) = (Inr (), d')"
      unfolding record_delivery_def by (auto simp: bind_op_def pure_def split: sum.splits)
    from with_state_ok [OF this] st gone show False by (auto simp: results dest: find_device_has)
  qed
  moreover have "r \<noteq> Inr True \<and> (snd s3 = snd s2 \<or> snd s3 = snd (latest (snd s2)))"
    if run: "deliver_one latest send p' now i s2 = (r, s3)"
    using with_registry_split [OF run [unfolded deliver_one_def]]
  proof (elim disjE conjE exE)
    fix x t stx y
    assume l: "on_registry load_registry s2 = (x, t)" and x: "x = Inr stx"
      and body: "deliver_body latest send now i stx t = (y, s3)" and y: "\<forall>a. r = Inr a \<longrightarrow> y = Inr a"
    from l have l': "load_registry (fst s2) = (x, fst t)" and snd: "snd t = snd s2" by (simp_all add: on_registry_run)
    from load_registry_seen [OF l'] x st have "stx = st" by simp
    with gone have "find_registration i stx = None"
      by (auto simp: find_registration_def split: option.splits dest: find_device_has)
    with deliver_body_split [OF body] snd y show ?thesis by auto
  qed (auto simp: on_registry_run)
  ultimately show ?thesis by blast
qed

theorem revoked_device_stays_out_witness:
  "fst (authenticate_device demo_crates False ''secret'' (demo_dir (Current (demo_registry\<lparr>devices := []\<rparr>)))) \<noteq> Inr (Some ''d1'')"
proof -
  have "on_registry (revoke False ''d1'') (demo_dir (Current demo_registry), ()) =
     (Inr (), (demo_dir (Current (demo_registry\<lparr>devices := []\<rparr>)), ()))"
    by (simp add: on_registry_run demo_revoke)
  from revoked_device_stays_out [OF this rtranclp.rtrancl_refl] show ?thesis by simp
qed

theorem delivery_submits_only_due:
  assumes "deliver_one (quiet latest) (logged send) p now i (d, (w, log)) = (r, (d', (w', log')))"
    and "now \<noteq> 0" and "log' \<noteq> log \<or> r = Inr True"
  shows "\<exists>st k reg f g. registry_of d = Some st \<and> health st = Ready \<and> fst (latest w) = Inr (Some g)
    \<and> find_registration i st = Some (k, reg) \<and> enabled reg \<and> fid reg = Some f
    \<and> (\<forall>sent. submitted_generation reg = Some sent \<longrightarrow> sent < g) \<and> retry_at_ms reg \<le> now
    \<and> log' = log @ [(f, g)]
    \<and> (\<exists>st'. registry_of d' = Some st' \<and> settled_for g now i st'
         \<and> (r = Inr True \<longrightarrow> (\<exists>k' r'. find_registration i st' = Some (k', r') \<and> submitted_generation r' = Some g)))"
  using deliver_one_log [OF assms(1,2)] assms(3) by (auto simp: due_iff)

definition demo_send :: "string \<Rightarrow> u64 \<Rightarrow> unit \<Rightarrow> (notification_failure + unit) \<times> unit" where
  "demo_send f g w = (Inr (), w)"

definition demo_latest :: "unit \<Rightarrow> (pairing_error + u64 option) \<times> unit" where
  "demo_latest w = (Inr (Some 7), w)"

lemma demo_deliver:
  "\<exists>d'. deliver_one (quiet demo_latest) (logged demo_send) False 5 ''d1'' (demo_dir (Current demo_registry), ((), []))
     = (Inr True, (d', ((), [(demo_fid, 7)])))"
proof -
  let ?r = "\<lparr>fid = Some demo_fid, enabled = True, submitted_generation = Some 4, retry_at_ms = 0, attempts = 0\<rparr>"
  have find: "find_registration ''d1'' demo_registry = Some (0, ?r)"
    by (simp add: find_registration_Some find_device_def demo_registry_def demo_device_def)
  have due: "due 7 5 ?r" by (simp add: due_iff)
  have flags: "lock_ok (demo_dir f)" "unlock_ok (demo_dir f)" for f by (simp_all add: demo_dir_def)
  have ready: "health demo_registry = Ready" by (simp add: demo_registry_def)
  show ?thesis
    by (simp add: deliver_one_def with_registry_def flags bind_op_def on_registry_def on_world_def pure_def
        demo_registry_load demo_registry_valid deliver_body_def ready find due submit_def Let_def demo_registry_persist
        find_registration_set [OF find] quiet_def logged_def demo_latest_def demo_send_def)
qed

theorem delivery_submits_only_due_witness:
  "\<exists>st k reg f g. registry_of (demo_dir (Current demo_registry)) = Some st \<and> health st = Ready
    \<and> find_registration ''d1'' st = Some (k, reg) \<and> enabled reg \<and> [(demo_fid, 7)] = [] @ [(f, g)]"
proof -
  from demo_deliver obtain d' where run: "deliver_one (quiet demo_latest) (logged demo_send) False 5 ''d1''
      (demo_dir (Current demo_registry), ((), [])) = (Inr True, (d', ((), [(demo_fid, 7)])))" by blast
  from delivery_submits_only_due [OF run] show ?thesis by auto
qed

theorem retry_delay_bounds:
  "unat (retry_delay n) = 60000 * 2 ^ min (unat n - 1) 6 \<and> 60000 \<le> retry_delay n \<and> retry_delay n \<le> 3840000
    \<and> unat (retry_at_ms (start_attempt now r))
        = min (unat now + 60000 * 2 ^ min (unat (attempts r)) 6) (2 ^ 64 - 1)"
proof -
  have pw: "(2 :: nat) ^ min m 6 \<le> 2 ^ 6" for m by (rule power_increasing) simp_all
  from pw [of "unat n - 1"] have "unat (retry_delay n) \<le> 3840000" by (simp add: retry_delay_unat)
  then have up: "retry_delay n \<le> 3840000" by (simp add: word_le_nat_alt)
  have n: "min (unat (saturating_add (attempts r) 1) - 1) 6 = min (unat (attempts r)) 6"
    unfolding unat_saturating_add by (simp add: min_def)
  show ?thesis
    using up retry_delay_minimum [of n]
    unfolding start_attempt_retry unat_saturating_add retry_delay_unat n [unfolded unat_saturating_add]
    by simp
qed

lemma upgrade_devices_facts:
  "upgrade_devices ls = Inr ds \<Longrightarrow>
     map dev_status ds = map leg_status ls \<and> map credential_hash ds = map leg_credential_hash ls
     \<and> map (\<lambda>dev. map_option submitted_generation (notification dev)) ds
         = map (\<lambda>dev. map_option legacy_generation (leg_notification dev)) ls
     \<and> (\<forall>dev \<in> set ds. \<forall>r. notification dev = Some r \<longrightarrow> fid r = None \<and> \<not> enabled r)"
proof (induction ls arbitrary: ds)
  case Nil
  then show ?case by simp
next
  case (Cons l ls)
  from Cons.prems obtain dev ds' where d: "upgrade_device l = Inr dev" "upgrade_devices ls = Inr ds'" "ds = dev # ds'"
    by (auto simp: results)
  from d(1) have "dev_status dev = leg_status l \<and> credential_hash dev = leg_credential_hash l
      \<and> map_option submitted_generation (notification dev) = map_option legacy_generation (leg_notification l)
      \<and> (\<forall>r. notification dev = Some r \<longrightarrow> fid r = None \<and> \<not> enabled r)"
    by (auto simp: upgrade_device_def upgrade_registration_def results split: option.splits if_splits)
  with Cons.IH [OF d(2)] d(3) show ?case by simp
qed

theorem legacy_upgrade_retires_tokens:
  assumes "lookup_file d registry_path = Some (Stored (Legacy l))" and "load_registry d = (Inr st, d')"
  shows "offers st = leg_offers l \<and> map dev_status (devices st) = map leg_status (leg_devices l)
    \<and> map credential_hash (devices st) = map leg_credential_hash (leg_devices l)
    \<and> map (\<lambda>dev. map_option submitted_generation (notification dev)) (devices st)
        = map (\<lambda>dev. map_option legacy_generation (leg_notification dev)) (leg_devices l)
    \<and> (\<forall>dev \<in> set (devices st). \<forall>r. notification dev = Some r \<longrightarrow> fid r = None \<and> \<not> enabled r)
    \<and> lookup_file d' registry_path = Some (Stored (Current st))"
proof -
  from load_registry_seen [OF assms(2)] registry_of_stored [OF assms(1)]
  have seen: "seen_state (Legacy l) = Some st" by simp
  then have up: "upgrade l = Inr st" by (auto simp: seen_state_def split: sum.splits if_splits)
  from seen_valid [OF seen] have ok: "reg_schema_version st = 3" "validate_registry st = Inr ()"
    by (auto simp: registry_valid_def is_ok_def split: sum.splits)
  from assms up ok have "persist_registry st d = (Inr (), d')"
    by (auto simp: load_registry_def bind_op_def read_op_def pure_def read_registry_def read_file_def
        split: prod.splits sum.splits)
  then have "write_atomic registry_path (Current st) d = (Inr (), d')" by (simp add: persist_registry_def results)
  from write_atomic_ok [OF this] have w: "lookup_file d' registry_path = Some (Stored (Current st))" by simp
  from up obtain ds where ds: "upgrade_devices (leg_devices l) = Inr ds" "offers st = leg_offers l" "devices st = ds"
    by (auto simp: upgrade_def results)
  from upgrade_devices_facts [OF ds(1)] ds w show ?thesis by simp
qed

definition demo_legacy :: legacy_state where
  "demo_legacy = \<lparr>leg_offers = [], leg_devices = [\<lparr>leg_status = dev_status (demo_device None),
     leg_credential_hash = ''h'', leg_notification = Some \<lparr>has_fid = False, legacy_token = Some ''k'',
       legacy_enabled = Some True, legacy_generation = Some 4, legacy_retry_at_ms = 0, legacy_attempts = 0\<rparr>\<rparr>],
     leg_health = Ready\<rparr>"

definition demo_upgraded :: registry_state where
  "demo_upgraded = \<lparr>reg_schema_version = 3, offers = [], devices = [\<lparr>dev_status = dev_status (demo_device None),
     credential_hash = ''h'', notification = Some \<lparr>fid = None, enabled = False, submitted_generation = Some 4,
       retry_at_ms = 0, attempts = 0\<rparr>\<rparr>], health = Ready\<rparr>"

lemma demo_upgrade: "load_registry (demo_dir (Legacy demo_legacy)) = (Inr demo_upgraded, demo_dir (Current demo_upgraded))"
proof -
  have up: "upgrade demo_legacy = Inr demo_upgraded"
    by (simp add: upgrade_def demo_legacy_def demo_upgraded_def upgrade_device_def upgrade_registration_def
        is_ascii_graphic_def byte_of_def)
  have ok: "validate_registry demo_upgraded = Inr ()" "reg_schema_version demo_upgraded = 3"
    by (simp_all add: validate_registry_def registrations_def demo_upgraded_def map_filter_simps invalid_registration_def)
  have "read_registry (demo_dir (Legacy demo_legacy)) = Inr (Legacy demo_legacy)"
    by (simp add: read_registry_Inr demo_dir_def lookup_file_def)
  with up ok show ?thesis
    by (simp add: load_registry_def bind_op_def read_op_def pure_def demo_registry_persist)
qed

theorem legacy_upgrade_retires_tokens_witness:
  "lookup_file (demo_dir (Current demo_upgraded)) registry_path = Some (Stored (Current demo_upgraded))"
proof -
  have "lookup_file (demo_dir (Legacy demo_legacy)) registry_path = Some (Stored (Legacy demo_legacy))"
    by (simp add: demo_dir_def lookup_file_def)
  from legacy_upgrade_retires_tokens [OF this demo_upgrade] show ?thesis by blast
qed

end
