(* ===== verification/Canonical.thy ===== *)
theory Canonical
  imports Text
begin

section \<open>Canonical paths and content addresses\<close>

unbundle bit_operations_syntax

text \<open>
  skills-core/src/canonical.rs: the relative paths a package may contain, and SHA-256 content
  addresses with their three spellings. A \<open>CanonicalPath\<close> and a \<open>Digest\<close> are new types over a
  string; a value of type \<open>digest\<close> here is the bare hexadecimal text inside. The SHA-256
  function is an argument (\<open>sha\<close>); the collision key, which needs the Unicode compatibility
  decomposition of a third-party crate, is not modelled.
\<close>

subsection \<open>Paths\<close>

definition MAX_COMPONENT_BYTES :: nat where
  "MAX_COMPONENT_BYTES = 255"

definition MAX_PATH_BYTES :: nat where
  "MAX_PATH_BYTES = 1024"

datatype path_error = Path_Empty | Path_Absolute string | Path_Empty_Component string
  | Path_Relative_Component string | Path_Control_Character string | Path_Non_Ascii string
  | Path_Too_Long string

type_synonym canonical_path = string

text \<open>\<open>str::split\<close> on one character: the pieces between its occurrences, empty ones included.\<close>

fun split_on :: "char \<Rightarrow> string \<Rightarrow> string list" where
  "split_on sep [] = [[]]"
| "split_on sep (c # r) =
     (if c = sep then [] # split_on sep r
      else (case split_on sep r of [] \<Rightarrow> [[c]] | p # ps \<Rightarrow> (c # p) # ps))"

fun check_components :: "string \<Rightarrow> string list \<Rightarrow> path_error + unit" where
  "check_components raw [] = Inr ()"
| "check_components raw (p # ps) =
     andThen (ensure (p \<noteq> []) (Path_Empty_Component raw)) (\<lambda>_.
     andThen (ensure (p \<noteq> ''.'' \<and> p \<noteq> ''..'') (Path_Relative_Component raw)) (\<lambda>_.
     andThen (ensure (length p \<le> MAX_COMPONENT_BYTES) (Path_Too_Long raw)) (\<lambda>_.
     check_components raw ps)))"

definition parse_path :: "string \<Rightarrow> bool \<Rightarrow> path_error + canonical_path" where
  "parse_path raw allow_non_ascii =
     andThen (ensure (raw \<noteq> []) Path_Empty) (\<lambda>_.
     andThen (ensure (\<not> starts_with ''/'' raw) (Path_Absolute raw)) (\<lambda>_.
     andThen (ensure (length raw \<le> MAX_PATH_BYTES) (Path_Too_Long raw)) (\<lambda>_.
     andThen (ensure (\<not> list_ex is_control (utf8_decode raw)) (Path_Control_Character raw)) (\<lambda>_.
     andThen (ensure (allow_non_ascii \<or> list_all (\<lambda>c. byte_of c < 128) raw) (Path_Non_Ascii raw)) (\<lambda>_.
     andThen (check_components raw (split_on CHR ''/'' raw)) (\<lambda>_. Inr raw))))))"

definition file_name :: "canonical_path \<Rightarrow> string" where
  "file_name p = last (split_on CHR ''/'' p)"

text \<open>\<open>rsplit_once\<close>: the text before and after the last occurrence of the separator.\<close>

definition rsplit_once :: "char \<Rightarrow> string \<Rightarrow> (string \<times> string) option" where
  "rsplit_once sep s =
     (if sep \<in> set s
      then Some (rev (tl (dropWhile (\<lambda>c. c \<noteq> sep) (rev s))), rev (takeWhile (\<lambda>c. c \<noteq> sep) (rev s)))
      else None)"

definition extension :: "canonical_path \<Rightarrow> string option" where
  "extension p =
     (case rsplit_once CHR ''.'' (file_name p) of
        None \<Rightarrow> None
      | Some (stem, ext) \<Rightarrow> if stem = [] \<or> ext = [] then None else Some (to_ascii_lowercase ext))"

subsection \<open>Digests\<close>

type_synonym digest = string

definition HEX_DIGITS :: string where
  "HEX_DIGITS = ''0123456789abcdef''"

definition from_raw :: "u8 list \<Rightarrow> digest" where
  "from_raw raw = concat (map (\<lambda>byte. [HEX_DIGITS ! unat (drop_bit 4 byte), HEX_DIGITS ! unat (byte AND 15)]) raw)"

definition digest_of :: "(string \<Rightarrow> u8 list) \<Rightarrow> string \<Rightarrow> digest" where
  "digest_of sha bytes = from_raw (sha bytes)"

definition parse_digest :: "string \<Rightarrow> string + digest" where
  "parse_digest raw =
     (let hex_part = (case strip_prefix ''sha256:'' raw of Some r \<Rightarrow> r
        | None \<Rightarrow> (case strip_prefix ''sha256-'' raw of Some r \<Rightarrow> r | None \<Rightarrow> raw))
      in if length hex_part = 64 \<and> list_all is_lower_hex hex_part then Inr hex_part else Inl raw)"

definition digest_text :: "digest \<Rightarrow> string" where
  "digest_text d = ''sha256:'' @ d"

definition directory_name :: "digest \<Rightarrow> string" where
  "directory_name d = ''sha256-'' @ d"

definition short :: "digest \<Rightarrow> nat \<Rightarrow> string" where
  "short d n = take (min n (length d)) d"

definition canonical_digest :: "string \<Rightarrow> bool" where
  "canonical_digest value =
     (case parse_digest value of Inl _ \<Rightarrow> False | Inr d \<Rightarrow> digest_text d = value)"

subsection \<open>Lemmas on paths\<close>

lemma split_on_nonempty: "split_on sep s \<noteq> []"
  by (induction s) (auto split: list.split)

lemma join_split_on: "join [sep] (split_on sep s) = s"
proof (induction s)
  case Nil
  then show ?case by simp
next
  case (Cons c s)
  obtain p ps where ps: "split_on sep s = p # ps" using split_on_nonempty by (meson neq_Nil_conv)
  with Cons show ?case by (cases ps) auto
qed

lemma split_on_no_sep: "p \<in> set (split_on sep s) \<Longrightarrow> sep \<notin> set p"
proof (induction s arbitrary: p)
  case Nil
  then show ?case by simp
next
  case (Cons c s)
  obtain q qs where qs: "split_on sep s = q # qs" using split_on_nonempty by (meson neq_Nil_conv)
  from Cons.IH qs have q: "sep \<notin> set q" and rest: "\<And>x. x \<in> set qs \<Longrightarrow> sep \<notin> set x" by simp_all
  show ?case
  proof (cases "c = sep")
    case True
    with Cons.prems qs q rest show ?thesis by auto
  next
    case False
    with Cons.prems qs q rest show ?thesis by auto
  qed
qed

lemma check_components_ok [results]:
  "check_components raw ps = Inr u \<longleftrightarrow>
     (\<forall>p \<in> set ps. p \<noteq> [] \<and> p \<noteq> ''.'' \<and> p \<noteq> ''..'' \<and> length p \<le> MAX_COMPONENT_BYTES)"
  by (induction ps) (auto simp: results)

text \<open>
  A path the parser accepts is unchanged, relative, bounded, and made of proper components: it
  names something below the directory it is joined to.
\<close>

lemma parse_path_facts:
  assumes "parse_path raw allow = Inr p"
  shows "p = raw \<and> raw \<noteq> [] \<and> length raw \<le> 1024 \<and> hd raw \<noteq> CHR ''/''
    \<and> join ''/'' (split_on CHR ''/'' raw) = raw
    \<and> (\<forall>part \<in> set (split_on CHR ''/'' raw). part \<noteq> [] \<and> part \<noteq> ''.'' \<and> part \<noteq> ''..''
         \<and> CHR ''/'' \<notin> set part \<and> length part \<le> 255)
    \<and> \<not> list_ex is_control (utf8_decode raw)
    \<and> (allow \<or> (\<forall>c \<in> set raw. byte_of c < 128))"
proof -
  from assms have p: "p = raw" "raw \<noteq> []" "\<not> starts_with ''/'' raw" "length raw \<le> 1024"
    "\<not> list_ex is_control (utf8_decode raw)" "allow \<or> list_all (\<lambda>c. byte_of c < 128) raw"
    and parts: "\<forall>part \<in> set (split_on CHR ''/'' raw). part \<noteq> [] \<and> part \<noteq> ''.'' \<and> part \<noteq> ''..''
         \<and> length part \<le> 255"
    by (auto simp: parse_path_def results MAX_PATH_BYTES_def MAX_COMPONENT_BYTES_def)
  from p(2,3) have "hd raw \<noteq> CHR ''/''" by (cases raw) (auto simp: starts_with_def)
  moreover have "\<forall>part \<in> set (split_on CHR ''/'' raw). CHR ''/'' \<notin> set part"
    using split_on_no_sep by blast
  moreover have "join ''/'' (split_on CHR ''/'' raw) = raw" by (rule join_split_on)
  ultimately show ?thesis using p parts by (auto simp: list_all_iff)
qed

subsection \<open>Lemmas on digests\<close>

lemma HEX_DIGITS_nth: "n < 16 \<Longrightarrow> HEX_DIGITS ! n = hex_digit n"
proof -
  have "\<forall>m \<in> set [0..<16]. HEX_DIGITS ! m = hex_digit m" by code_simp
  then show "n < 16 \<Longrightarrow> HEX_DIGITS ! n = hex_digit n" by simp
qed

lemma from_raw_hex: "from_raw raw = lower_hex raw"
proof (induction raw)
  case Nil
  then show ?case by (simp add: from_raw_def)
next
  case (Cons b bs)
  have "unat b div 16 < 16" using unat_u8_bound [of b] by simp
  with Cons show ?case by (simp add: from_raw_def unat_low_nibble unat_high_nibble HEX_DIGITS_nth del: One_nat_def)
qed

definition hex64 :: "string \<Rightarrow> bool" where
  "hex64 d = (length d = 64 \<and> list_all is_lower_hex d)"

lemma digest_of_hex64: "length (sha bytes) = 32 \<Longrightarrow> hex64 (digest_of sha bytes)"
  using lower_hex_all_lower [of "sha bytes"]
  by (simp add: hex64_def digest_of_def from_raw_hex list_all_iff)

lemma digest_of_inject: "digest_of sha x = digest_of sha y \<longleftrightarrow> sha x = sha y"
  by (auto simp: digest_of_def from_raw_hex lower_hex_inject)

lemma hex64_no_s: "hex64 d \<Longrightarrow> strip_prefix (CHR ''s'' # p) d = None"
  by (cases d) (auto simp: hex64_def strip_prefix_def is_lower_hex_def is_ascii_digit_def byte_of_def)

lemma parse_digest_spellings:
  assumes "hex64 d"
  shows "parse_digest (digest_text d) = Inr d" "parse_digest (directory_name d) = Inr d" "parse_digest d = Inr d"
proof -
  have none: "strip_prefix ''sha256:'' d = None" "strip_prefix ''sha256-'' d = None"
    using hex64_no_s [OF assms] by simp_all
  have other: "strip_prefix ''sha256:'' (''sha256-'' @ d) = None" by (simp add: strip_prefix_def)
  have same: "strip_prefix p (p @ d) = Some d" for p by (simp add: strip_prefix_Some)
  show "parse_digest (digest_text d) = Inr d" "parse_digest (directory_name d) = Inr d" "parse_digest d = Inr d"
    using assms unfolding parse_digest_def digest_text_def directory_name_def Let_def none other same
    by (simp_all add: hex64_def)
qed

lemma parse_digest_Inr:
  "parse_digest raw = Inr d \<Longrightarrow> hex64 d \<and> (raw = digest_text d \<or> raw = directory_name d \<or> raw = d)"
  by (auto simp: parse_digest_def Let_def hex64_def digest_text_def directory_name_def results
      split: if_splits option.splits)

lemma canonical_digest_iff: "canonical_digest v \<longleftrightarrow> (\<exists>d. hex64 d \<and> v = digest_text d)"
proof
  assume "canonical_digest v"
  then show "\<exists>d. hex64 d \<and> v = digest_text d"
    by (auto simp: canonical_digest_def dest: parse_digest_Inr split: sum.splits)
next
  assume "\<exists>d. hex64 d \<and> v = digest_text d"
  then show "canonical_digest v" by (auto simp: canonical_digest_def parse_digest_spellings)
qed

end
