(* ===== verification/Receipts.thy ===== *)
theory Receipts
  imports Canonical
begin

section \<open>Launch receipts\<close>

text \<open>
  skills-core/src/launch_receipt.rs: the receipts a Launch supervisor signs for every
  privileged lifecycle outcome, and the verification of a chain of them. A receipt names the
  digest of its complete predecessor, so a head digest stands for the whole history. The JSON
  serializer and parser (\<open>serde_json\<close>), SHA-256 and the signature check are third-party code:
  \<open>codec\<close> collects the former, \<open>verify\<close> is the latter.
\<close>

subsection \<open>Data\<close>

datatype session_state = Starting | Running | Parked | Terminal

datatype process_exit_classification = Exit_Success | Exit_Failure | Exit_Signaled

record authorization =
  auth_authorization_id :: string
  auth_request_id :: string
  auth_request_digest :: string

datatype receipt_cause = Launch_Acknowledged | Launch_Finalization_Failed | Broker_Lost
  | Controller_Lost | Acknowledgement_Failed | Resume_Activation_Failed | Relay_Failed
  | Agent_Identity_Lost | Conformance_Invalid

datatype receipt_authority = Authorized authorization | Cause receipt_cause
  | Process_Exited process_exit_classification

datatype waiver_condition = Missing | Stale | Incomplete | Containment_Failure | Guard_Unavailable

datatype conformance_evidence = Certified string | Waived waiver_condition "string option" | Unevaluated

datatype skill_inputs = Skills_Off string | Skills_Enabled string string

datatype launch_role = Agent_Role | Fixed_Verifier

record launch_evidence =
  ev_role :: launch_role
  ev_conformance :: conformance_evidence
  launch_request_digest :: string
  runtime_measurement_digest :: string
  ev_skills :: skill_inputs
  session_input_manifest_id :: string
  isolation_contract :: string
  isolation_backend_id :: string
  kernel_identity :: string
  isolation_evidence_digest :: string
  ev_broker_loss_grace_ms :: u32
  capability_channel_ids :: "string list"

record start_evidence =
  start_agent_pid :: u32
  start_assigned_uid :: u32
  start_assigned_gid :: u32
  tool_isolation_digest :: string
  sender_guard_required :: bool

datatype receipt_outcome = Launch authorization launch_evidence
  | Start receipt_authority start_evidence
  | Park receipt_authority
  | Resume authorization
  | Interrupt authorization
  | Disposal receipt_authority

record receipt_payload =
  pl_schema :: string
  pl_session_id :: string
  pl_run_id :: string
  pl_request_id :: string
  pl_envelope_revision :: u64
  pl_sequence :: u64
  previous_receipt_digest :: "string option"
  pl_release_id :: string
  pl_signing_key_id :: string
  outcome :: receipt_outcome
  resulting_state :: session_state

record signed_receipt =
  sr_schema :: string
  payload :: receipt_payload
  signature :: string

record codec =
  digest_bytes :: "string \<Rightarrow> u8 list"
  payload_json :: "receipt_payload \<Rightarrow> string"
  payload_parse :: "string \<Rightarrow> string + receipt_payload"
  signed_json :: "signed_receipt \<Rightarrow> string"
  signed_parse :: "string \<Rightarrow> string + signed_receipt"
  schema_header :: "string \<Rightarrow> string + string"
  empty_view_json :: string

record chain_anchor =
  anchor_session_id :: string
  anchor_run_id :: string
  anchor_release_id :: string
  anchor_signing_key_id :: string

record receipt_head =
  head_sequence :: u64
  head_digest :: string

record verified_receipt_head =
  vh_session_id :: string
  vh_run_id :: string
  vh_release_id :: string
  vh_signing_key_id :: string
  vh_sequence :: u64
  vh_receipt_digest :: string
  vh_state :: session_state
  vh_envelope_revision :: u64
  vh_request_ids :: "string set"

datatype receipt_error = Oversized | Malformed_Receipt string | Non_Canonical
  | Unsupported_Receipt_Schema string | Invalid_Identifier string | Invalid_Digest string
  | Genesis_Has_Predecessor | Missing_Predecessor | Launch_Not_Genesis | Genesis_Not_Launch
  | Contradictory_Result | Contradictory_Cause | Authorization_Request_Mismatch
  | Launch_Request_Mismatch | Unsupported_Isolation_Contract string | Invalid_Broker_Loss_Grace
  | Missing_Channel | Duplicate_Channel string | Unsorted_Channels
  | Invalid_Signature_Encoding | Empty_Chain | Expected_Sequence u64 u64 | Sequence_Overflow
  | Wrong_Predecessor u64 | Foreign_Session | Foreign_Run | Release_Changed | Signing_Key_Changed
  | Envelope_Revision_Regressed u64 u64 u64 | Invalid_Transition u64
  | Duplicate_Request_Id string | Invalid_Signature u64

definition RECEIPT_SCHEMA :: string where
  "RECEIPT_SCHEMA = ''louiselm.launch.receipt/8''"

definition SIGNED_RECEIPT_SCHEMA :: string where
  "SIGNED_RECEIPT_SCHEMA = ''louiselm.launch.signed-receipt/7''"

definition MAX_RECEIPT_BYTES :: nat where
  "MAX_RECEIPT_BYTES = 64 * 1024"

definition MAX_IDENTIFIER_BYTES :: nat where
  "MAX_IDENTIFIER_BYTES = 128"

definition MAX_SIGNATURE_BYTES :: nat where
  "MAX_SIGNATURE_BYTES = 16 * 1024"

definition CONTRACT_VERSION :: string where
  "CONTRACT_VERSION = ''louiselm.isolation/2''"

definition MAX_BROKER_LOSS_GRACE_MS :: u32 where
  "MAX_BROKER_LOSS_GRACE_MS = 5000"

subsection \<open>Validation of one receipt\<close>

definition check_size :: "string \<Rightarrow> receipt_error + unit" where
  "check_size bytes = ensure (length bytes \<le> MAX_RECEIPT_BYTES) Oversized"

definition identifier_byte :: "char \<Rightarrow> bool" where
  "identifier_byte b = (is_ascii_alphanumeric b \<or> b \<in> set ''-_'')"

definition validate_identifier :: "string \<Rightarrow> string \<Rightarrow> receipt_error + unit" where
  "validate_identifier field value =
     ensure (\<not> (value = [] \<or> MAX_IDENTIFIER_BYTES < length value \<or> \<not> list_all identifier_byte value))
       (Invalid_Identifier field)"

definition ascii_graphic :: "char \<Rightarrow> bool" where
  "ascii_graphic b = (33 \<le> byte_of b \<and> byte_of b \<le> 126)"

definition validate_receipt_token :: "string \<Rightarrow> string \<Rightarrow> receipt_error + unit" where
  "validate_receipt_token field value =
     ensure (\<not> (value = [] \<or> MAX_IDENTIFIER_BYTES < length value \<or> \<not> list_all ascii_graphic value))
       (Invalid_Identifier field)"

definition validate_digest :: "string \<Rightarrow> string \<Rightarrow> receipt_error + unit" where
  "validate_digest field value =
     andThen (map_err (\<lambda>_. Invalid_Digest field) (parse_digest value)) (\<lambda>d.
     ensure (digest_text d = value) (Invalid_Digest field))"

fun authorization_of :: "receipt_outcome \<Rightarrow> authorization option" where
  "authorization_of (Launch a _) = Some a"
| "authorization_of (Park (Authorized a)) = Some a"
| "authorization_of (Disposal (Authorized a)) = Some a"
| "authorization_of (Resume a) = Some a"
| "authorization_of (Interrupt a) = Some a"
| "authorization_of _ = None"

fun result_matches :: "receipt_outcome \<Rightarrow> session_state \<Rightarrow> bool" where
  "result_matches (Launch _ _) st = (st = Starting)"
| "result_matches (Start _ _) st = (st = Running)"
| "result_matches (Resume _) st = (st = Running)"
| "result_matches (Interrupt _) st = (st = Running \<or> st = Parked)"
| "result_matches (Park _) st = (st = Parked)"
| "result_matches (Disposal _) st = (st = Terminal)"

definition validate_authorization :: "authorization \<Rightarrow> string \<Rightarrow> receipt_error + unit" where
  "validate_authorization a receipt_request_id =
     andThen (validate_identifier ''authorization_id'' (auth_authorization_id a)) (\<lambda>_.
     andThen (validate_identifier ''authorization.request_id'' (auth_request_id a)) (\<lambda>_.
     andThen (validate_digest ''authorization.request_digest'' (auth_request_digest a)) (\<lambda>_.
     ensure (auth_request_id a = receipt_request_id) Authorization_Request_Mismatch)))"

fun validate_conformance :: "conformance_evidence \<Rightarrow> receipt_error + unit" where
  "validate_conformance (Certified d) = validate_digest ''conformance_report_digest'' d"
| "validate_conformance (Waived _ (Some d)) = validate_digest ''conformance_report_digest'' d"
| "validate_conformance (Waived _ None) = Inr ()"
| "validate_conformance Unevaluated = Inr ()"

definition empty_digest :: "codec \<Rightarrow> digest" where
  "empty_digest c = digest_of (digest_bytes c) (empty_view_json c)"

fun validate_skills :: "codec \<Rightarrow> skill_inputs \<Rightarrow> bool" where
  "validate_skills c (Skills_Off v) = (canonical_digest v \<and> v = digest_text (empty_digest c))"
| "validate_skills c (Skills_Enabled g v) = (canonical_digest v \<and> canonical_digest g)"

fun validate_channels :: "string option \<Rightarrow> string list \<Rightarrow> receipt_error + unit" where
  "validate_channels previous [] = Inr ()"
| "validate_channels previous (i # is) =
     andThen (validate_identifier ''capability_channel_id'' i) (\<lambda>_.
     andThen (case previous of None \<Rightarrow> Inr ()
        | Some earlier \<Rightarrow>
            andThen (ensure (earlier \<noteq> i) (Duplicate_Channel i)) (\<lambda>_.
            ensure (\<not> i < earlier) Unsorted_Channels)) (\<lambda>_.
     validate_channels (Some i) is))"

definition validate_launch_evidence :: "codec \<Rightarrow> launch_evidence \<Rightarrow> receipt_error + unit" where
  "validate_launch_evidence c e =
     andThen (validate_conformance (ev_conformance e)) (\<lambda>_.
     andThen (validate_digest ''launch_request_digest'' (launch_request_digest e)) (\<lambda>_.
     andThen (validate_digest ''runtime_measurement_digest'' (runtime_measurement_digest e)) (\<lambda>_.
     andThen (validate_digest ''session_input_manifest_id'' (session_input_manifest_id e)) (\<lambda>_.
     andThen (validate_digest ''isolation_evidence_digest'' (isolation_evidence_digest e)) (\<lambda>_.
     andThen (ensure (validate_skills c (ev_skills e)) (Invalid_Identifier ''skills'')) (\<lambda>_.
     andThen (ensure (isolation_contract e = CONTRACT_VERSION)
        (Unsupported_Isolation_Contract (isolation_contract e))) (\<lambda>_.
     andThen (ensure (\<not> MAX_BROKER_LOSS_GRACE_MS < ev_broker_loss_grace_ms e) Invalid_Broker_Loss_Grace) (\<lambda>_.
     andThen (validate_receipt_token ''isolation_backend_id'' (isolation_backend_id e)) (\<lambda>_.
     andThen (validate_receipt_token ''kernel_identity'' (kernel_identity e)) (\<lambda>_.
     andThen (ensure (capability_channel_ids e \<noteq> []) Missing_Channel) (\<lambda>_.
     validate_channels None (capability_channel_ids e))))))))))))"

fun park_authority :: "receipt_authority \<Rightarrow> bool" where
  "park_authority (Authorized _) = True"
| "park_authority (Cause x) = (x \<in> {Broker_Lost, Conformance_Invalid, Controller_Lost,
     Acknowledgement_Failed, Resume_Activation_Failed})"
| "park_authority (Process_Exited _) = False"

fun disposal_authority :: "receipt_authority \<Rightarrow> bool" where
  "disposal_authority (Authorized _) = True"
| "disposal_authority (Cause x) = (x \<in> {Controller_Lost, Acknowledgement_Failed, Relay_Failed,
     Agent_Identity_Lost, Launch_Finalization_Failed})"
| "disposal_authority (Process_Exited _) = True"

definition validate_later :: "receipt_payload \<Rightarrow> receipt_error + unit" where
  "validate_later p =
     andThen (ensure (pl_sequence p \<noteq> 0) Genesis_Not_Launch) (\<lambda>_.
     case authorization_of (outcome p) of None \<Rightarrow> Inr ()
     | Some a \<Rightarrow> validate_authorization a (pl_request_id p))"

definition validate_outcome :: "codec \<Rightarrow> receipt_payload \<Rightarrow> receipt_error + unit" where
  "validate_outcome c p =
     (case outcome p of
        Launch a e \<Rightarrow>
          andThen (ensure (pl_sequence p = 0) Launch_Not_Genesis) (\<lambda>_.
          andThen (validate_authorization a (pl_request_id p)) (\<lambda>_.
          andThen (validate_launch_evidence c e) (\<lambda>_.
          ensure (auth_request_digest a = launch_request_digest e) Launch_Request_Mismatch)))
      | Start authority e \<Rightarrow>
          andThen (ensure (authority = Cause Launch_Acknowledged) Contradictory_Cause) (\<lambda>_.
          andThen (ensure (\<not> (start_agent_pid e = 0 \<or> start_assigned_uid e = 0 \<or> start_assigned_gid e = 0))
            (Malformed_Receipt ''invalid Agent authority identity'')) (\<lambda>_.
          andThen (validate_digest ''tool_isolation_digest'' (tool_isolation_digest e)) (\<lambda>_.
          ensure (pl_sequence p \<noteq> 0) Genesis_Not_Launch)))
      | Park authority \<Rightarrow>
          andThen (ensure (park_authority authority) Contradictory_Cause) (\<lambda>_. validate_later p)
      | Disposal authority \<Rightarrow>
          andThen (ensure (disposal_authority authority) Contradictory_Cause) (\<lambda>_. validate_later p)
      | _ \<Rightarrow> validate_later p)"

definition validate_predecessor :: "receipt_payload \<Rightarrow> receipt_error + unit" where
  "validate_predecessor p =
     (if pl_sequence p = 0 then ensure (previous_receipt_digest p = None) Genesis_Has_Predecessor
      else case previous_receipt_digest p of
        None \<Rightarrow> Inl Missing_Predecessor
      | Some predecessor \<Rightarrow> validate_digest ''previous_receipt_digest'' predecessor)"

definition validate_payload :: "codec \<Rightarrow> receipt_payload \<Rightarrow> receipt_error + unit" where
  "validate_payload c p =
     andThen (check_size (payload_json c p)) (\<lambda>_.
     andThen (ensure (pl_schema p = RECEIPT_SCHEMA) (Unsupported_Receipt_Schema (pl_schema p))) (\<lambda>_.
     andThen (validate_identifier ''session_id'' (pl_session_id p)) (\<lambda>_.
     andThen (validate_identifier ''run_id'' (pl_run_id p)) (\<lambda>_.
     andThen (validate_identifier ''request_id'' (pl_request_id p)) (\<lambda>_.
     andThen (validate_digest ''release_id'' (pl_release_id p)) (\<lambda>_.
     andThen (validate_digest ''signing_key_id'' (pl_signing_key_id p)) (\<lambda>_.
     andThen (validate_predecessor p) (\<lambda>_.
     andThen (validate_outcome c p) (\<lambda>_.
     ensure (result_matches (outcome p) (resulting_state p)) Contradictory_Result)))))))))"

definition validate_receipt :: "codec \<Rightarrow> signed_receipt \<Rightarrow> receipt_error + unit" where
  "validate_receipt c r =
     andThen (check_size (signed_json c r)) (\<lambda>_.
     andThen (ensure (sr_schema r = SIGNED_RECEIPT_SCHEMA) (Unsupported_Receipt_Schema (sr_schema r))) (\<lambda>_.
     andThen (ensure (\<not> (signature r = [] \<or> MAX_SIGNATURE_BYTES < length (signature r)))
        Invalid_Signature_Encoding) (\<lambda>_.
     validate_payload c (payload r))))"

definition receipt_digest :: "codec \<Rightarrow> signed_receipt \<Rightarrow> digest" where
  "receipt_digest c r = digest_of (digest_bytes c) (signed_json c r)"

definition preflight_schema :: "codec \<Rightarrow> string \<Rightarrow> string \<Rightarrow> receipt_error + unit" where
  "preflight_schema c bytes expected =
     andThen (map_err Malformed_Receipt (schema_header c bytes)) (\<lambda>schema.
     ensure (schema = expected) (Unsupported_Receipt_Schema schema))"

definition parse_canonical_payload :: "codec \<Rightarrow> string \<Rightarrow> receipt_error + receipt_payload" where
  "parse_canonical_payload c bytes =
     andThen (check_size bytes) (\<lambda>_.
     andThen (preflight_schema c bytes RECEIPT_SCHEMA) (\<lambda>_.
     andThen (map_err Malformed_Receipt (payload_parse c bytes)) (\<lambda>p.
     andThen (ensure (payload_json c p = bytes) Non_Canonical) (\<lambda>_.
     andThen (validate_payload c p) (\<lambda>_. Inr p)))))"

definition parse_canonical_receipt :: "codec \<Rightarrow> string \<Rightarrow> receipt_error + signed_receipt" where
  "parse_canonical_receipt c bytes =
     andThen (check_size bytes) (\<lambda>_.
     andThen (preflight_schema c bytes SIGNED_RECEIPT_SCHEMA) (\<lambda>_.
     andThen (map_err Malformed_Receipt (signed_parse c bytes)) (\<lambda>r.
     andThen (ensure (signed_json c r = bytes) Non_Canonical) (\<lambda>_.
     andThen (validate_receipt c r) (\<lambda>_. Inr r)))))"

subsection \<open>Chains\<close>

type_synonym signature_check = "string \<Rightarrow> string \<Rightarrow> string \<Rightarrow> bool"

definition verify_one :: "codec \<Rightarrow> signature_check \<Rightarrow> signed_receipt \<Rightarrow> receipt_error + unit" where
  "verify_one c verify r =
     ensure (verify (pl_signing_key_id (payload r)) (payload_json c (payload r)) (signature r))
       (Invalid_Signature (pl_sequence (payload r)))"

fun valid_transition :: "session_state \<Rightarrow> receipt_outcome \<Rightarrow> session_state \<Rightarrow> bool" where
  "valid_transition Starting (Start _ _) Running = True"
| "valid_transition Running (Park _) Parked = True"
| "valid_transition Parked (Resume _) Running = True"
| "valid_transition Running (Interrupt _) Running = True"
| "valid_transition Parked (Interrupt _) Parked = True"
| "valid_transition Running (Disposal _) Terminal = True"
| "valid_transition Parked (Disposal _) Terminal = True"
| "valid_transition _ _ _ = False"

definition head_of :: "codec \<Rightarrow> signed_receipt \<Rightarrow> verified_receipt_head" where
  "head_of c r =
     \<lparr>vh_session_id = pl_session_id (payload r), vh_run_id = pl_run_id (payload r),
       vh_release_id = pl_release_id (payload r), vh_signing_key_id = pl_signing_key_id (payload r),
       vh_sequence = pl_sequence (payload r), vh_receipt_digest = digest_text (receipt_digest c r),
       vh_state = resulting_state (payload r), vh_envelope_revision = pl_envelope_revision (payload r),
       vh_request_ids = {pl_request_id (payload r)}\<rparr>"

definition check_pinned :: "receipt_payload \<Rightarrow> chain_anchor \<Rightarrow> receipt_error + unit" where
  "check_pinned p anchor =
     andThen (ensure (pl_session_id p = anchor_session_id anchor) Foreign_Session) (\<lambda>_.
     andThen (ensure (pl_run_id p = anchor_run_id anchor) Foreign_Run) (\<lambda>_.
     andThen (ensure (pl_release_id p = anchor_release_id anchor) Release_Changed) (\<lambda>_.
     ensure (pl_signing_key_id p = anchor_signing_key_id anchor) Signing_Key_Changed)))"

definition anchor_of_head :: "verified_receipt_head \<Rightarrow> chain_anchor" where
  "anchor_of_head h = \<lparr>anchor_session_id = vh_session_id h, anchor_run_id = vh_run_id h,
     anchor_release_id = vh_release_id h, anchor_signing_key_id = vh_signing_key_id h\<rparr>"

definition check_head_pinned :: "receipt_payload \<Rightarrow> verified_receipt_head \<Rightarrow> receipt_error + unit" where
  "check_head_pinned p h = check_pinned p (anchor_of_head h)"

definition validate_anchor :: "chain_anchor \<Rightarrow> receipt_error + unit" where
  "validate_anchor anchor =
     andThen (validate_identifier ''session_id'' (anchor_session_id anchor)) (\<lambda>_.
     andThen (validate_identifier ''run_id'' (anchor_run_id anchor)) (\<lambda>_.
     andThen (validate_digest ''release_id'' (anchor_release_id anchor)) (\<lambda>_.
     validate_digest ''signing_key_id'' (anchor_signing_key_id anchor))))"

definition validate_head :: "verified_receipt_head \<Rightarrow> receipt_error + unit" where
  "validate_head h =
     andThen (validate_anchor (anchor_of_head h)) (\<lambda>_.
     validate_digest ''receipt_digest'' (vh_receipt_digest h))"

definition accept_next ::
  "codec \<Rightarrow> signature_check \<Rightarrow> verified_receipt_head \<Rightarrow> signed_receipt \<Rightarrow> receipt_error + verified_receipt_head" where
  "accept_next c verify h r =
     andThen (validate_receipt c r) (\<lambda>_.
     andThen (ok_or (checked_add (vh_sequence h) 1) Sequence_Overflow) (\<lambda>sequence.
     andThen (ensure (pl_sequence (payload r) = sequence) (Expected_Sequence sequence (pl_sequence (payload r)))) (\<lambda>_.
     andThen (ensure (previous_receipt_digest (payload r) = Some (vh_receipt_digest h))
        (Wrong_Predecessor sequence)) (\<lambda>_.
     andThen (check_head_pinned (payload r) h) (\<lambda>_.
     andThen (ensure (\<not> pl_envelope_revision (payload r) < vh_envelope_revision h)
        (Envelope_Revision_Regressed (vh_envelope_revision h) (pl_envelope_revision (payload r)) sequence)) (\<lambda>_.
     andThen (ensure (valid_transition (vh_state h) (outcome (payload r)) (resulting_state (payload r)))
        (Invalid_Transition sequence)) (\<lambda>_.
     andThen (ensure (pl_request_id (payload r) \<notin> vh_request_ids h)
        (Duplicate_Request_Id (pl_request_id (payload r)))) (\<lambda>_.
     andThen (verify_one c verify r) (\<lambda>_.
     Inr (h\<lparr>vh_sequence := pl_sequence (payload r), vh_receipt_digest := digest_text (receipt_digest c r),
       vh_state := resulting_state (payload r), vh_envelope_revision := pl_envelope_revision (payload r),
       vh_request_ids := insert (pl_request_id (payload r)) (vh_request_ids h)\<rparr>))))))))))"

fun verify_after ::
  "codec \<Rightarrow> signature_check \<Rightarrow> signed_receipt list \<Rightarrow> verified_receipt_head \<Rightarrow> receipt_error + verified_receipt_head" where
  "verify_after c verify [] h = Inr h"
| "verify_after c verify (r # rs) h =
     andThen (accept_next c verify h r) (\<lambda>h'. verify_after c verify rs h')"

definition verify_chain ::
  "codec \<Rightarrow> signature_check \<Rightarrow> chain_anchor \<Rightarrow> signed_receipt list \<Rightarrow> receipt_error + verified_receipt_head" where
  "verify_chain c verify anchor receipts =
     andThen (validate_anchor anchor) (\<lambda>_.
     case receipts of
       [] \<Rightarrow> Inl Empty_Chain
     | first # rest \<Rightarrow>
         andThen (ensure (pl_sequence (payload first) = 0) (Expected_Sequence 0 (pl_sequence (payload first)))) (\<lambda>_.
         andThen (check_pinned (payload first) anchor) (\<lambda>_.
         andThen (validate_receipt c first) (\<lambda>_.
         andThen (verify_one c verify first) (\<lambda>_.
         verify_after c verify rest (head_of c first))))))"

definition verify_suffix ::
  "codec \<Rightarrow> signature_check \<Rightarrow> verified_receipt_head \<Rightarrow> signed_receipt list \<Rightarrow> receipt_error + verified_receipt_head" where
  "verify_suffix c verify trusted_head receipts =
     andThen (validate_head trusted_head) (\<lambda>_. verify_after c verify receipts trusted_head)"

definition wire_head :: "verified_receipt_head \<Rightarrow> receipt_head" where
  "wire_head h = \<lparr>head_sequence = vh_sequence h, head_digest = vh_receipt_digest h\<rparr>"

end
