(* ===== verification/Receipt_Chains.thy ===== *)
theory Receipt_Chains
  imports Receipts
begin

section \<open>Receipt chains: what verification establishes\<close>

subsection \<open>A declarative chain\<close>

text \<open>
  \<open>chain_spec\<close> says what a chain is without an order of checks: every receipt is valid, signed,
  pinned to the anchor and numbered by its position; neighbours are linked by digest, revision
  and lifecycle transition; no request identity occurs twice.
\<close>

definition pinned :: "chain_anchor \<Rightarrow> receipt_payload \<Rightarrow> bool" where
  "pinned anchor p \<longleftrightarrow> pl_session_id p = anchor_session_id anchor \<and> pl_run_id p = anchor_run_id anchor
     \<and> pl_release_id p = anchor_release_id anchor \<and> pl_signing_key_id p = anchor_signing_key_id anchor"

definition signed_by :: "codec \<Rightarrow> signature_check \<Rightarrow> signed_receipt \<Rightarrow> bool" where
  "signed_by c verify r \<longleftrightarrow> verify (pl_signing_key_id (payload r)) (payload_json c (payload r)) (signature r)"

definition follows :: "codec \<Rightarrow> signed_receipt \<Rightarrow> signed_receipt \<Rightarrow> bool" where
  "follows c r r' \<longleftrightarrow> previous_receipt_digest (payload r') = Some (digest_text (receipt_digest c r))
     \<and> pl_envelope_revision (payload r) \<le> pl_envelope_revision (payload r')
     \<and> valid_transition (resulting_state (payload r)) (outcome (payload r')) (resulting_state (payload r'))"

definition chain_spec :: "codec \<Rightarrow> signature_check \<Rightarrow> chain_anchor \<Rightarrow> signed_receipt list \<Rightarrow> bool" where
  "chain_spec c verify anchor rs \<longleftrightarrow> rs \<noteq> []
     \<and> (\<forall>i < length rs. unat (pl_sequence (payload (rs ! i))) = i
          \<and> is_ok (validate_receipt c (rs ! i)) \<and> signed_by c verify (rs ! i) \<and> pinned anchor (payload (rs ! i)))
     \<and> successively (follows c) rs
     \<and> distinct (map (\<lambda>r. pl_request_id (payload r)) rs)"

definition chain_head :: "codec \<Rightarrow> signed_receipt list \<Rightarrow> verified_receipt_head" where
  "chain_head c rs = (head_of c (last rs))\<lparr>vh_request_ids := set (map (\<lambda>r. pl_request_id (payload r)) rs)\<rparr>"

lemma check_pinned_iff [results]: "check_pinned p anchor = Inr u \<longleftrightarrow> pinned anchor p"
  by (auto simp: check_pinned_def pinned_def results)

lemma verify_one_iff [results]: "verify_one c verify r = Inr u \<longleftrightarrow> signed_by c verify r"
  by (simp add: verify_one_def signed_by_def results)

lemma chain_spec_single:
  "chain_spec c verify anchor [r] \<longleftrightarrow> pl_sequence (payload r) = 0 \<and> is_ok (validate_receipt c r)
     \<and> signed_by c verify r \<and> pinned anchor (payload r)"
  by (auto simp: chain_spec_def unat_eq_0)

lemma chain_spec_snoc:
  assumes "rs \<noteq> []"
  shows "chain_spec c verify anchor (rs @ [r]) \<longleftrightarrow> chain_spec c verify anchor rs
     \<and> unat (pl_sequence (payload r)) = length rs \<and> is_ok (validate_receipt c r) \<and> signed_by c verify r
     \<and> pinned anchor (payload r) \<and> follows c (last rs) r
     \<and> pl_request_id (payload r) \<notin> set (map (\<lambda>r. pl_request_id (payload r)) rs)"
    (is "?L \<longleftrightarrow> ?R")
proof -
  let ?P = "\<lambda>i r. unat (pl_sequence (payload r)) = i
          \<and> is_ok (validate_receipt c r) \<and> signed_by c verify r \<and> pinned anchor (payload r)"
  have each: "(\<forall>i < length (rs @ [r]). ?P i ((rs @ [r]) ! i)) \<longleftrightarrow> (\<forall>i < length rs. ?P i (rs ! i)) \<and> ?P (length rs) r"
    by (auto simp: less_Suc_eq nth_append)
  have link: "successively (follows c) (rs @ [r]) \<longleftrightarrow> successively (follows c) rs \<and> follows c (last rs) r"
    using assms by (simp add: successively_append_iff)
  show ?thesis unfolding chain_spec_def each link using assms by auto
qed

lemma verify_after_append:
  "verify_after c verify (rs @ ss) h = andThen (verify_after c verify rs h) (verify_after c verify ss)"
  by (induction rs arbitrary: h) (auto simp: andThen_def split: sum.split)

lemma verify_chain_append:
  "rs \<noteq> [] \<Longrightarrow> verify_chain c verify anchor (rs @ ss)
     = andThen (verify_chain c verify anchor rs) (verify_after c verify ss)"
  by (cases rs) (simp_all add: verify_chain_def verify_after_append andThen_assoc)

lemma unat_succ: "unat (a :: u64) = Suc n \<longleftrightarrow> (\<exists>b. unat b = n \<and> checked_add b 1 = Some a)"
proof
  assume a: "unat a = Suc n"
  then have "unat (a - 1) = n" by (simp add: unat_sub word_le_nat_alt)
  moreover from this a have "checked_add (a - 1) 1 = Some a" by (simp add: checked_add_Some)
  ultimately show "\<exists>b. unat b = n \<and> checked_add b 1 = Some a" by blast
qed (auto simp: checked_add_Some)

lemma accept_next_iff:
  assumes v: "validate_receipt c r = x"
  shows "accept_next c verify h r = Inr h' \<longleftrightarrow> is_ok (validate_receipt c r)
    \<and> checked_add (vh_sequence h) 1 = Some (pl_sequence (payload r))
    \<and> previous_receipt_digest (payload r) = Some (vh_receipt_digest h) \<and> pinned (anchor_of_head h) (payload r)
    \<and> vh_envelope_revision h \<le> pl_envelope_revision (payload r)
    \<and> valid_transition (vh_state h) (outcome (payload r)) (resulting_state (payload r))
    \<and> pl_request_id (payload r) \<notin> vh_request_ids h \<and> signed_by c verify r
    \<and> h' = (head_of c r)\<lparr>vh_session_id := vh_session_id h, vh_run_id := vh_run_id h, vh_release_id := vh_release_id h,
        vh_signing_key_id := vh_signing_key_id h,
        vh_request_ids := insert (pl_request_id (payload r)) (vh_request_ids h)\<rparr>"
  unfolding accept_next_def andThen_Inr ensure_Inr ok_or_Inr check_head_pinned_def check_pinned_iff verify_one_iff
    is_ok_iff not_less
  by (auto simp: head_of_def)

lemma accept_next_chain:
  assumes ch: "chain_spec c verify anchor rs"
  shows "accept_next c verify (chain_head c rs) r = Inr h' \<longleftrightarrow>
    chain_spec c verify anchor (rs @ [r]) \<and> h' = chain_head c (rs @ [r])"
proof -
  from ch have ne: "rs \<noteq> []" by (simp add: chain_spec_def)
  then have lst: "last rs = rs ! (length rs - 1)" "length rs - 1 < length rs" by (simp_all add: last_conv_nth)
  from ch lst have pin: "pinned anchor (payload (last rs))"
    and sq: "unat (pl_sequence (payload (last rs))) = length rs - 1"
    unfolding chain_spec_def by metis+
  have an: "anchor_of_head (chain_head c rs) = anchor" using pin
    by (cases anchor) (simp add: anchor_of_head_def chain_head_def head_of_def pinned_def)
  have num: "checked_add (vh_sequence (chain_head c rs)) 1 = Some (pl_sequence (payload r))
      \<longleftrightarrow> unat (pl_sequence (payload r)) = length rs"
    using sq ne by (simp add: chain_head_def head_of_def checked_add_Some)
  have hd': "pinned anchor (payload r) \<Longrightarrow>
      (head_of c r)\<lparr>vh_session_id := vh_session_id (chain_head c rs), vh_run_id := vh_run_id (chain_head c rs),
        vh_release_id := vh_release_id (chain_head c rs), vh_signing_key_id := vh_signing_key_id (chain_head c rs),
        vh_request_ids := insert (pl_request_id (payload r)) (vh_request_ids (chain_head c rs))\<rparr>
      = chain_head c (rs @ [r])"
    using pin by (simp add: chain_head_def head_of_def pinned_def insert_commute)
  show ?thesis
    unfolding accept_next_iff [OF refl] chain_spec_snoc [OF ne] num an
    using ch hd' by (auto simp: chain_head_def head_of_def follows_def)
qed

lemma verify_chain_spec:
  "verify_chain c verify anchor rs = Inr h \<longleftrightarrow>
     is_ok (validate_anchor anchor) \<and> chain_spec c verify anchor rs \<and> h = chain_head c rs"
proof (induction rs arbitrary: h rule: rev_induct)
  case Nil
  show ?case by (auto simp: verify_chain_def chain_spec_def results)
next
  case (snoc r rs)
  show ?case
  proof (cases "rs = []")
    case True
    then show ?thesis
      by (auto simp: verify_chain_def chain_spec_single results chain_head_def head_of_def)
  next
    case False
    have "verify_chain c verify anchor (rs @ [r]) = Inr h \<longleftrightarrow>
        (\<exists>h0. verify_chain c verify anchor rs = Inr h0 \<and> accept_next c verify h0 r = Inr h)"
      by (simp add: verify_chain_append [OF False] results)
    also have "\<dots> \<longleftrightarrow> is_ok (validate_anchor anchor) \<and> chain_spec c verify anchor rs
        \<and> accept_next c verify (chain_head c rs) r = Inr h"
      using snoc.IH by auto
    also have "\<dots> \<longleftrightarrow> is_ok (validate_anchor anchor) \<and> chain_spec c verify anchor (rs @ [r]) \<and> h = chain_head c (rs @ [r])"
      using accept_next_chain chain_spec_snoc [OF False] by blast
    finally show ?thesis .
  qed
qed

subsection \<open>What a valid receipt says\<close>

lemma validate_receipt_payload: "validate_receipt c r = Inr u \<Longrightarrow> validate_payload c (payload r) = Inr ()"
  by (simp add: validate_receipt_def results)

lemma validate_payload_facts:
  assumes "validate_payload c p = Inr u"
  shows "(pl_sequence p = 0 \<longleftrightarrow> previous_receipt_digest p = None)
    \<and> (pl_sequence p = 0 \<longleftrightarrow> (\<exists>a e. outcome p = Launch a e)) \<and> result_matches (outcome p) (resulting_state p)"
proof -
  from assms have pre: "validate_predecessor p = Inr ()" and out: "validate_outcome c p = Inr ()"
    and res: "result_matches (outcome p) (resulting_state p)"
    by (simp_all add: validate_payload_def results)
  from pre have "pl_sequence p = 0 \<longleftrightarrow> previous_receipt_digest p = None"
    by (auto simp: validate_predecessor_def results split: if_splits option.splits)
  moreover from out have "pl_sequence p = 0 \<longleftrightarrow> (\<exists>a e. outcome p = Launch a e)"
    by (auto simp: validate_outcome_def validate_later_def results split: receipt_outcome.splits)
  ultimately show ?thesis using res by blast
qed

lemma valid_transition_source: "valid_transition st x st' \<Longrightarrow> st \<noteq> Terminal \<and> \<not> (\<exists>a e. x = Launch a e)"
  by (cases "(st, x, st')" rule: valid_transition.cases) auto

lemma valid_transition_Starting: "valid_transition Starting x st' \<Longrightarrow> st' = Running \<and> (\<exists>a e. x = Start a e)"
  by (cases "(Starting, x, st')" rule: valid_transition.cases) auto

lemma receipt_digest_eq: "digest_text (receipt_digest c r) = digest_text (receipt_digest c r') \<longleftrightarrow>
    receipt_digest c r = receipt_digest c r'"
  by (simp add: digest_text_def)

lemma chain_specD:
  assumes "chain_spec c verify anchor rs" and "i < length rs"
  shows "unat (pl_sequence (payload (rs ! i))) = i" "validate_receipt c (rs ! i) = Inr ()"
    "signed_by c verify (rs ! i)" "pinned anchor (payload (rs ! i))"
  using assms by (auto simp: chain_spec_def is_ok_iff)

lemma chain_spec_follows:
  "chain_spec c verify anchor rs \<Longrightarrow> Suc i < length rs \<Longrightarrow> follows c (rs ! i) (rs ! Suc i)"
  by (auto simp: chain_spec_def successively_conv_nth)

lemma chain_spec_butlast:
  "chain_spec c verify anchor (rs @ [r]) \<Longrightarrow> rs \<noteq> [] \<Longrightarrow> chain_spec c verify anchor rs"
  by (simp add: chain_spec_snoc)

text \<open>Two different receipts of two chains with one digest: what an attacker would have to find.\<close>

definition receipt_collision :: "codec \<Rightarrow> signed_receipt list \<Rightarrow> signed_receipt list \<Rightarrow> bool" where
  "receipt_collision c rs rs' \<longleftrightarrow>
     (\<exists>r \<in> set rs. \<exists>r' \<in> set rs'. r \<noteq> r' \<and> receipt_digest c r = receipt_digest c r')"

lemma chain_determined:
  assumes "chain_spec c verify anchor rs" and "chain_spec c verify' anchor' rs'"
    and "receipt_digest c (last rs) = receipt_digest c (last rs')"
  shows "rs = rs' \<or> receipt_collision c rs rs'"
  using assms
proof (induction rs arbitrary: rs' rule: rev_induct)
  case Nil
  then show ?case by (simp add: chain_spec_def)
next
  case (snoc r rs)
  from snoc.prems(2) obtain r' ss' where rs': "rs' = ss' @ [r']"
    by (cases rs' rule: rev_cases) (auto simp: chain_spec_def)
  show ?case
  proof (cases "r = r'")
    case False
    then have "receipt_collision c (rs @ [r]) (ss' @ [r'])" using snoc.prems(3) rs'
      unfolding receipt_collision_def by (intro bexI [of _ r] bexI [of _ r']) auto
    then show ?thesis using rs' by blast
  next
    case True
    have n: "unat (pl_sequence (payload r)) = length rs" "unat (pl_sequence (payload r')) = length ss'"
      using chain_specD(1) [OF snoc.prems(1), of "length rs"] chain_specD(1) [OF snoc.prems(2), of "length ss'"] rs'
      by simp_all
    with True have len: "length rs = length ss'" by simp
    show ?thesis
    proof (cases "rs = []")
      case True
      with len \<open>r = r'\<close> rs' show ?thesis by simp
    next
      case ne: False
      with len have ne': "ss' \<noteq> []" by auto
      note a = snoc.prems(1) [unfolded chain_spec_snoc [OF ne]]
      note b = snoc.prems(2) [unfolded rs' chain_spec_snoc [OF ne']]
      from a b \<open>r = r'\<close> have "receipt_digest c (last rs) = receipt_digest c (last ss')"
        by (simp add: follows_def receipt_digest_eq)
      with snoc.IH [of ss'] a b have "rs = ss' \<or> receipt_collision c rs ss'" by simp
      with \<open>r = r'\<close> rs' show ?thesis by (auto simp: receipt_collision_def)
    qed
  qed
qed

lemma validate_head_chain:
  assumes "validate_anchor anchor = Inr u" and "chain_spec c verify anchor rs"
    and len: "\<And>x. length (digest_bytes c x) = 32"
  shows "validate_head (chain_head c rs) = Inr ()"
proof -
  from assms(2) have ne: "rs \<noteq> []" by (simp add: chain_spec_def)
  then have "pinned anchor (payload (last rs))"
    using chain_specD(4) [OF assms(2), of "length rs - 1"] by (simp add: last_conv_nth)
  then have an: "anchor_of_head (chain_head c rs) = anchor"
    by (cases anchor) (simp add: anchor_of_head_def chain_head_def head_of_def pinned_def)
  have "hex64 (receipt_digest c (last rs))"
    unfolding receipt_digest_def by (rule digest_of_hex64) (rule len)
  then have "validate_digest f (digest_text (receipt_digest c (last rs))) = Inr ()" for f
    by (simp add: validate_digest_def parse_digest_spellings)
  with an assms(1) show ?thesis
    by (simp add: validate_head_def chain_head_def head_of_def)
qed

subsection \<open>A concrete chain\<close>

definition demo_hash :: string where
  "demo_hash = ''sha256:0000000000000000000000000000000000000000000000000000000000000000''"

definition demo_authorization :: "string \<Rightarrow> authorization" where
  "demo_authorization i = \<lparr>auth_authorization_id = ''a'', auth_request_id = i, auth_request_digest = demo_hash\<rparr>"

definition demo_evidence :: launch_evidence where
  "demo_evidence = \<lparr>ev_role = Agent_Role, ev_conformance = Unevaluated, launch_request_digest = demo_hash,
     runtime_measurement_digest = demo_hash, ev_skills = Skills_Enabled demo_hash demo_hash,
     session_input_manifest_id = demo_hash, isolation_contract = CONTRACT_VERSION,
     isolation_backend_id = ''b'', kernel_identity = ''k'', isolation_evidence_digest = demo_hash,
     ev_broker_loss_grace_ms = 0, capability_channel_ids = [''c'']\<rparr>"

definition demo_payload :: "string \<Rightarrow> u64 \<Rightarrow> string option \<Rightarrow> receipt_outcome \<Rightarrow> session_state \<Rightarrow> receipt_payload" where
  "demo_payload i n prev x st = \<lparr>pl_schema = RECEIPT_SCHEMA, pl_session_id = ''s'', pl_run_id = ''r'',
     pl_request_id = i, pl_envelope_revision = 1, pl_sequence = n, previous_receipt_digest = prev,
     pl_release_id = demo_hash, pl_signing_key_id = demo_hash, outcome = x, resulting_state = st\<rparr>"

definition demo_signed :: "receipt_payload \<Rightarrow> signed_receipt" where
  "demo_signed p = \<lparr>sr_schema = SIGNED_RECEIPT_SCHEMA, payload = p, signature = ''x''\<rparr>"

definition demo_launch :: signed_receipt where
  "demo_launch = demo_signed (demo_payload ''q0'' 0 None (Launch (demo_authorization ''q0'') demo_evidence) Starting)"

definition demo_start :: signed_receipt where
  "demo_start = demo_signed (demo_payload ''q1'' 1 (Some demo_hash) (Start (Cause Launch_Acknowledged)
     \<lparr>start_agent_pid = 7, start_assigned_uid = 8, start_assigned_gid = 9, tool_isolation_digest = demo_hash,
       sender_guard_required = False\<rparr>) Running)"

definition demo_codec :: codec where
  "demo_codec = \<lparr>digest_bytes = (\<lambda>_. replicate 32 0), payload_json = (\<lambda>_. ''p''), payload_parse = (\<lambda>_. Inl ''none''),
     signed_json = (\<lambda>_. ''s''), signed_parse = (\<lambda>_. Inr demo_launch),
     schema_header = (\<lambda>_. Inr SIGNED_RECEIPT_SCHEMA), empty_view_json = ''e''\<rparr>"

definition demo_anchor :: chain_anchor where
  "demo_anchor = \<lparr>anchor_session_id = ''s'', anchor_run_id = ''r'', anchor_release_id = demo_hash,
     anchor_signing_key_id = demo_hash\<rparr>"

lemma demo_from_raw: "digest_of (\<lambda>_. replicate 32 0) x = replicate 64 CHR ''0''"
  by (simp add: digest_of_def from_raw_def HEX_DIGITS_def numeral_eq_Suc)

lemma demo_hash_text: "demo_hash = digest_text (replicate 64 CHR ''0'')"
  by (simp add: demo_hash_def digest_text_def numeral_eq_Suc)

lemma demo_digest: "digest_text (receipt_digest demo_codec r) = demo_hash"
  by (simp only: receipt_digest_def demo_codec_def codec.simps demo_from_raw demo_hash_text)

lemma demo_hex64: "hex64 (replicate 64 CHR ''0'')"
  by (simp add: hex64_def is_lower_hex_def is_ascii_digit_def byte_of_def list_all_iff)

lemma demo_canonical [simp]: "canonical_digest demo_hash" "validate_digest f demo_hash = Inr ()"
  using demo_hex64 unfolding demo_hash_text
  by (auto simp: canonical_digest_iff validate_digest_def parse_digest_spellings)

lemma demo_identifier [simp]:
  "validate_identifier f ''s'' = Inr ()" "validate_identifier f ''r'' = Inr ()" "validate_identifier f ''a'' = Inr ()"
  "validate_identifier f ''c'' = Inr ()" "validate_identifier f ''q0'' = Inr ()" "validate_identifier f ''q1'' = Inr ()"
  "validate_receipt_token f ''b'' = Inr ()" "validate_receipt_token f ''k'' = Inr ()"
  by (simp_all add: validate_identifier_def validate_receipt_token_def MAX_IDENTIFIER_BYTES_def identifier_byte_def
      is_ascii_alphanumeric_def is_ascii_lower_def is_ascii_digit_def ascii_graphic_def byte_of_def)

lemma demo_valid: "validate_receipt demo_codec demo_launch = Inr ()" "validate_receipt demo_codec demo_start = Inr ()"
  by (simp_all add: validate_receipt_def demo_launch_def demo_start_def demo_signed_def demo_payload_def
      validate_payload_def check_size_def demo_codec_def MAX_RECEIPT_BYTES_def MAX_SIGNATURE_BYTES_def
      validate_predecessor_def validate_outcome_def validate_authorization_def demo_authorization_def
      validate_launch_evidence_def demo_evidence_def MAX_BROKER_LOSS_GRACE_MS_def)

lemma demo_chain: "verify_chain demo_codec (\<lambda>_ _ _. True) demo_anchor [demo_launch, demo_start]
    = Inr (chain_head demo_codec [demo_launch, demo_start])"
proof -
  have f: "follows demo_codec demo_launch demo_start"
    unfolding follows_def demo_digest by (simp add: demo_launch_def demo_start_def demo_signed_def demo_payload_def)
  have "chain_spec demo_codec (\<lambda>_ _ _. True) demo_anchor [demo_launch, demo_start]"
    using f unfolding chain_spec_def
    by (auto simp: less_Suc_eq demo_valid signed_by_def pinned_def demo_anchor_def)
      (simp_all add: demo_launch_def demo_start_def demo_signed_def demo_payload_def)
  moreover have "validate_anchor demo_anchor = Inr ()" by (simp add: validate_anchor_def demo_anchor_def)
  ultimately show ?thesis by (simp add: verify_chain_spec)
qed

end
