(* ===== verification/Receipt_Properties.thy ===== *)
theory Receipt_Properties
  imports Receipt_Chains
begin

section \<open>Properties of receipts\<close>

text \<open>
  Chain verification is its declarative specification, gives the lifecycle of a Session, binds
  the history it was run on, and may be done incrementally; the canonical bytes of a receipt
  parse to that receipt only.
\<close>

text \<open>C15: Verifying a receipt sequence from an anchor succeeds exactly when the sequence satisfies
  the declarative chain specification, and the head returned is the head of its last receipt.\<close>

theorem receipt_chain_verification_exact:
  "verify_chain c verify anchor rs = Inr h \<longleftrightarrow>
     is_ok (validate_anchor anchor) \<and> chain_spec c verify anchor rs \<and> h = chain_head c rs"
  by (rule verify_chain_spec)

theorem receipt_chain_lifecycle:
  assumes "verify_chain c verify anchor rs = Inr h"
  shows "rs \<noteq> [] \<and> (\<exists>a e. outcome (payload (hd rs)) = Launch a e) \<and> resulting_state (payload (hd rs)) = Starting
    \<and> vh_state h = resulting_state (payload (last rs)) \<and> Suc (unat (vh_sequence h)) = length rs
    \<and> (\<forall>i. Suc i < length rs \<longrightarrow> resulting_state (payload (rs ! i)) \<noteq> Terminal
         \<and> \<not> (\<exists>a e. outcome (payload (rs ! Suc i)) = Launch a e)
         \<and> (i = 0 \<longrightarrow> (\<exists>a e. outcome (payload (rs ! 1)) = Start a e))
         \<and> pl_envelope_revision (payload (rs ! i)) \<le> pl_envelope_revision (payload (rs ! Suc i)))"
proof -
  from assms have ch: "chain_spec c verify anchor rs" and h: "h = chain_head c rs" by (simp_all add: verify_chain_spec)
  from ch have ne: "rs \<noteq> []" by (simp add: chain_spec_def)
  then have lst: "last rs = rs ! (length rs - 1)" and pos: "0 < length rs" by (simp_all add: last_conv_nth)
  have first: "hd rs = rs ! 0" using ne by (simp add: hd_conv_nth)
  from validate_payload_facts [OF validate_receipt_payload [OF chain_specD(2) [OF ch pos]]] chain_specD(1) [OF ch pos]
  obtain a e where launch: "outcome (payload (rs ! 0)) = Launch a e" and start: "resulting_state (payload (rs ! 0)) = Starting"
    by (auto simp: unat_eq_0)
  have steps: "resulting_state (payload (rs ! i)) \<noteq> Terminal
         \<and> \<not> (\<exists>a e. outcome (payload (rs ! Suc i)) = Launch a e)
         \<and> (i = 0 \<longrightarrow> (\<exists>a e. outcome (payload (rs ! 1)) = Start a e))
         \<and> pl_envelope_revision (payload (rs ! i)) \<le> pl_envelope_revision (payload (rs ! Suc i))"
    if "Suc i < length rs" for i
    using chain_spec_follows [OF ch that] start
    by (auto simp: follows_def dest: valid_transition_source valid_transition_Starting)
  have "unat (vh_sequence h) = length rs - 1"
    using chain_specD(1) [OF ch, of "length rs - 1"] pos lst by (simp add: h chain_head_def head_of_def)
  with ne launch start steps first lst pos show ?thesis
    by (auto simp: h chain_head_def head_of_def)
qed

theorem receipt_chain_lifecycle_witness:
  "(\<exists>a e. outcome (payload demo_launch) = Launch a e) \<and> resulting_state (payload demo_start) \<noteq> Starting
     \<and> (\<exists>a e. outcome (payload ([demo_launch, demo_start] ! 1)) = Start a e)"
  using receipt_chain_lifecycle [OF demo_chain]
  by (simp add: demo_launch_def demo_start_def demo_signed_def demo_payload_def)

text \<open>C16: Two verified chains, under any anchors and signature checks, whose heads carry the same
  receipt digest are the same receipt sequence, or they exhibit two different receipts with one
  digest.\<close>

theorem receipt_head_binds_history:
  assumes "verify_chain c verify anchor rs = Inr h" and "verify_chain c verify' anchor' rs' = Inr h'"
    and "vh_receipt_digest h = vh_receipt_digest h'"
  shows "rs = rs' \<or> receipt_collision c rs rs'"
proof (rule chain_determined)
  show "chain_spec c verify anchor rs" "chain_spec c verify' anchor' rs'"
    using assms(1,2) by (simp_all add: verify_chain_spec)
  show "receipt_digest c (last rs) = receipt_digest c (last rs')"
    using assms by (simp add: verify_chain_spec chain_head_def head_of_def receipt_digest_eq)
qed

theorem receipt_head_binds_history_witness:
  "[demo_launch, demo_start] = [demo_launch, demo_start]
     \<or> receipt_collision demo_codec [demo_launch, demo_start] [demo_launch, demo_start]"
  by (rule receipt_head_binds_history [OF demo_chain demo_chain refl])

theorem receipt_suffix_extends_chain:
  assumes "verify_chain c verify anchor rs = Inr h" and "\<And>x. length (digest_bytes c x) = 32"
  shows "verify_suffix c verify h ss = verify_chain c verify anchor (rs @ ss)"
proof -
  from assms(1) have ch: "chain_spec c verify anchor rs" and h: "h = chain_head c rs"
    and an: "validate_anchor anchor = Inr ()" by (simp_all add: verify_chain_spec is_ok_iff)
  from ch have ne: "rs \<noteq> []" by (simp add: chain_spec_def)
  from validate_head_chain [OF an ch assms(2)] h have "validate_head h = Inr ()" by simp
  then show ?thesis using assms(1) by (simp add: verify_suffix_def verify_chain_append [OF ne])
qed

theorem receipt_suffix_extends_chain_witness:
  "verify_suffix demo_codec (\<lambda>_ _ _. True) (chain_head demo_codec [demo_launch, demo_start]) []
     = verify_chain demo_codec (\<lambda>_ _ _. True) demo_anchor ([demo_launch, demo_start] @ [])"
  by (rule receipt_suffix_extends_chain [OF demo_chain]) (simp add: demo_codec_def)

text \<open>C17: The canonical parser returns a receipt exactly for its own canonical bytes and only when
  the receipt validates, given that the JSON reader reads back what the writer wrote.\<close>

theorem receipt_bytes_roundtrip:
  assumes "schema_header c (signed_json c r) = Inr (sr_schema r)" and "signed_parse c (signed_json c r) = Inr r"
  shows "parse_canonical_receipt c bytes = Inr r \<longleftrightarrow> bytes = signed_json c r \<and> is_ok (validate_receipt c r)"
proof
  assume "parse_canonical_receipt c bytes = Inr r"
  then show "bytes = signed_json c r \<and> is_ok (validate_receipt c r)"
    by (auto simp: parse_canonical_receipt_def results)
next
  assume ok: "bytes = signed_json c r \<and> is_ok (validate_receipt c r)"
  then have "check_size (signed_json c r) = Inr ()" "sr_schema r = SIGNED_RECEIPT_SCHEMA"
    by (auto simp: validate_receipt_def results)
  with ok assms show "parse_canonical_receipt c bytes = Inr r"
    by (auto simp: parse_canonical_receipt_def preflight_schema_def results)
qed

theorem receipt_bytes_roundtrip_witness:
  "parse_canonical_receipt demo_codec ''s'' = Inr demo_launch"
proof -
  have "schema_header demo_codec (signed_json demo_codec demo_launch) = Inr (sr_schema demo_launch)"
    "signed_parse demo_codec (signed_json demo_codec demo_launch) = Inr demo_launch"
    "signed_json demo_codec demo_launch = ''s''"
    by (simp_all add: demo_codec_def demo_launch_def demo_signed_def)
  from receipt_bytes_roundtrip [OF this(1,2), of "''s''"] this(3) demo_valid(1) show ?thesis by simp
qed

end
