(* ===== verification/Protocol.thy ===== *)
theory Protocol
  imports Receipts
begin

section \<open>The launch protocol: errors, status and lifecycle decisions\<close>

text \<open>
  skills-core/src/launch_protocol.rs, first half: the closed set of protocol failures with
  their derived presentation, the lifecycle request, the mechanical status of a supervisor
  with its cross-field invariants, and \<open>evaluate_request\<close>, the stateless compare-and-swap
  decision that replays a completed request or describes the receipt to produce. The encoder
  of a request (\<open>lifecycle_json\<close>) is an argument beside the receipt codec.
\<close>

subsection \<open>Data\<close>

datatype lifecycle_action = Act_Park | Act_Resume | Act_Interrupt | Act_Disposal

datatype pending_action = Pend_Launch | Pend_Park | Pend_Resume | Pend_Interrupt | Pend_Disposal

fun pending_of_action :: "lifecycle_action \<Rightarrow> pending_action" where
  "pending_of_action Act_Park = Pend_Park"
| "pending_of_action Act_Resume = Pend_Resume"
| "pending_of_action Act_Interrupt = Pend_Interrupt"
| "pending_of_action Act_Disposal = Pend_Disposal"

datatype pending_phase = Applying | Signing | Awaiting_Durable_Ack | Activating

record pending_operation =
  po_request_id :: string
  po_action :: pending_action
  po_phase :: pending_phase

datatype broker_connection = Connected | Grace | Disconnected | Reconciling

datatype channel_state = Ch_Disabled | Ch_Enabled | Ch_Revoked | Ch_Closed

datatype posture_summary = Posture_Pending | Fully_Verified | Posture_Waived | Posture_Unverified

datatype error_code = Message_Too_Large | Malformed_Message | Unsupported_Schema
  | Unsupported_Version | Invalid_Request | Subject_Mismatch | Request_Id_Conflict
  | Operation_Pending | State_Mismatch | Receipt_Sequence_Mismatch | Envelope_Revision_Mismatch
  | Invalid_Lifecycle_Transition | Lifecycle_Mechanic_Unavailable | Conformance_Unavailable
  | Receipt_Chain_Invalid | Signing_Key_Revoked | Signing_Unavailable | Durability_Unavailable
  | Broker_Unavailable | Session_Identity_Exhausted | Identity_Assignment_Invalid
  | Credential_Unavailable | Provider_Disclosure_Denied | Capability_Denied

datatype next_action = Retry_Same_Request | Refresh_Status | Wait | Reconnect_Broker
  | Inspect_Receipt_Chain | New_Request_Id | Contact_Operator | No_Action

record protocol_error =
  pe_code :: error_code
  pe_message :: string
  pe_retryable :: bool
  pe_current_state :: "session_state option"
  pe_expected_sequence :: "u64 option"
  pe_next_action :: next_action

fun error_metadata :: "error_code \<Rightarrow> string \<times> bool \<times> next_action" where
  "error_metadata Message_Too_Large = (''protocol message is too large'', False, No_Action)"
| "error_metadata Malformed_Message = (''protocol message is malformed'', False, No_Action)"
| "error_metadata Unsupported_Schema = (''protocol schema is not supported'', False, Contact_Operator)"
| "error_metadata Unsupported_Version = (''protocol version is not supported'', False, Contact_Operator)"
| "error_metadata Invalid_Request = (''protocol request is invalid'', False, No_Action)"
| "error_metadata Subject_Mismatch = (''request subject does not match this session'', False, Refresh_Status)"
| "error_metadata Request_Id_Conflict = (''request id was reused for different bytes'', False, New_Request_Id)"
| "error_metadata Operation_Pending = (''another lifecycle operation is pending'', True, Wait)"
| "error_metadata State_Mismatch = (''expected session state is stale'', False, Refresh_Status)"
| "error_metadata Receipt_Sequence_Mismatch = (''expected receipt sequence is stale'', False, Refresh_Status)"
| "error_metadata Envelope_Revision_Mismatch = (''expected envelope revision is stale'', False, Refresh_Status)"
| "error_metadata Invalid_Lifecycle_Transition =
     (''lifecycle action is invalid from current state'', False, Refresh_Status)"
| "error_metadata Lifecycle_Mechanic_Unavailable =
     (''Session lifecycle mechanic is unavailable'', False, Contact_Operator)"
| "error_metadata Conformance_Unavailable =
     (''host conformance requires fresh evidence and operator recovery'', False, Contact_Operator)"
| "error_metadata Signing_Key_Revoked = (''Launcher signing key revoked'', False, Contact_Operator)"
| "error_metadata Receipt_Chain_Invalid = (''launcher receipt chain is invalid'', False, Inspect_Receipt_Chain)"
| "error_metadata Signing_Unavailable =
     (''launcher receipt signing is unavailable'', True, Retry_Same_Request)"
| "error_metadata Durability_Unavailable =
     (''durable receipt storage is unavailable'', True, Retry_Same_Request)"
| "error_metadata Broker_Unavailable = (''control broker is unavailable'', True, Reconnect_Broker)"
| "error_metadata Session_Identity_Exhausted = (''no session identity is available'', True, Wait)"
| "error_metadata Identity_Assignment_Invalid =
     (''broker-assigned session identity is invalid'', False, Contact_Operator)"
| "error_metadata Credential_Unavailable =
     (''configured Provider credential is unavailable'', False, Contact_Operator)"
| "error_metadata Provider_Disclosure_Denied =
     (''Provider metadata disclosure refused; review the supported profile and authorize its exact digest'',
      False, Contact_Operator)"
| "error_metadata Capability_Denied = (''broker capability is unavailable'', False, Contact_Operator)"

definition protocol_error_new :: "error_code \<Rightarrow> session_state option \<Rightarrow> u64 option \<Rightarrow> protocol_error" where
  "protocol_error_new code current_state expected_sequence =
     (case error_metadata code of (message, retryable, next_act) \<Rightarrow>
       \<lparr>pe_code = code, pe_message = message, pe_retryable = retryable, pe_current_state = current_state,
         pe_expected_sequence = expected_sequence, pe_next_action = next_act\<rparr>)"

abbreviation failure :: "error_code \<Rightarrow> protocol_error" where
  "failure code \<equiv> protocol_error_new code None None"

definition validate_protocol_error :: "protocol_error \<Rightarrow> protocol_error + unit" where
  "validate_protocol_error e =
     ensure (e = protocol_error_new (pe_code e) (pe_current_state e) (pe_expected_sequence e))
       (failure Invalid_Request)"

subsection \<open>Field checks\<close>

definition PROTOCOL_VERSION :: u32 where
  "PROTOCOL_VERSION = 1"

definition MAX_PROTOCOL_MESSAGE_BYTES :: nat where
  "MAX_PROTOCOL_MESSAGE_BYTES = 64 * 1024"

definition MAX_PENDING_RECEIPTS :: u32 where
  "MAX_PENDING_RECEIPTS = 8"

definition protocol_schema :: "string \<Rightarrow> string \<Rightarrow> protocol_error + unit" where
  "protocol_schema value expected = ensure (value = expected) (failure Unsupported_Schema)"

definition protocol_version_is :: "u32 \<Rightarrow> protocol_error + unit" where
  "protocol_version_is value = ensure (value = PROTOCOL_VERSION) (failure Unsupported_Version)"

definition protocol_identifier :: "string \<Rightarrow> protocol_error + unit" where
  "protocol_identifier value =
     ensure (\<not> (value = [] \<or> MAX_IDENTIFIER_BYTES < length value \<or> \<not> list_all identifier_byte value))
       (failure Invalid_Request)"

definition protocol_digest :: "string \<Rightarrow> protocol_error + unit" where
  "protocol_digest value = ensure (canonical_digest value) (failure Invalid_Request)"

subsection \<open>Lifecycle requests\<close>

record lifecycle_request =
  lr_schema :: string
  lr_protocol_version :: u32
  lr_request_id :: string
  lr_session_id :: string
  lr_run_id :: string
  lr_authorization_id :: string
  lr_action :: lifecycle_action
  expected_state :: session_state
  expected_receipt_sequence :: "u64 option"
  lr_envelope_revision :: u64

definition LIFECYCLE_REQUEST_SCHEMA :: string where
  "LIFECYCLE_REQUEST_SCHEMA = ''louiselm.launch.lifecycle-request/1''"

definition sequence_shape_matches :: "session_state \<Rightarrow> u64 option \<Rightarrow> bool" where
  "sequence_shape_matches st sq = (if st = Starting then sq = None \<or> sq = Some 0 else sq \<noteq> None)"

definition validate_lifecycle_request :: "lifecycle_request \<Rightarrow> protocol_error + unit" where
  "validate_lifecycle_request q =
     andThen (protocol_schema (lr_schema q) LIFECYCLE_REQUEST_SCHEMA) (\<lambda>_.
     andThen (protocol_version_is (lr_protocol_version q)) (\<lambda>_.
     andThen (protocol_identifier (lr_request_id q)) (\<lambda>_.
     andThen (protocol_identifier (lr_session_id q)) (\<lambda>_.
     andThen (protocol_identifier (lr_run_id q)) (\<lambda>_.
     andThen (protocol_identifier (lr_authorization_id q)) (\<lambda>_.
     ensure (sequence_shape_matches (expected_state q) (expected_receipt_sequence q))
       (failure Invalid_Request)))))))"

record protocol_codec =
  receipt_codec :: codec
  lifecycle_json :: "lifecycle_request \<Rightarrow> string"

definition request_digest :: "protocol_codec \<Rightarrow> lifecycle_request \<Rightarrow> digest" where
  "request_digest c q = digest_of (digest_bytes (receipt_codec c)) (lifecycle_json c q)"

subsection \<open>The status of a supervisor\<close>

record supervisor_status =
  ss_schema :: string
  ss_protocol_version :: u32
  ss_session_id :: string
  ss_run_id :: string
  ss_state :: session_state
  ss_broker_connection :: broker_connection
  ss_envelope_revision :: u64
  ss_channel_state :: channel_state
  launcher_head :: "receipt_head option"
  broker_head :: "receipt_head option"
  pending_receipt_count :: u32
  pending_op :: "pending_operation option"
  process_exit :: "process_exit_classification option"
  last_failure :: "protocol_error option"

definition SUPERVISOR_STATUS_SCHEMA :: string where
  "SUPERVISOR_STATUS_SCHEMA = ''louiselm.launch.supervisor-status/4''"

definition invalid_status :: "session_state \<Rightarrow> receipt_head option \<Rightarrow> protocol_error" where
  "invalid_status st head = protocol_error_new Invalid_Request (Some st) (map_option head_sequence head)"

definition signed_gap ::
  "session_state \<Rightarrow> receipt_head option \<Rightarrow> receipt_head option \<Rightarrow> protocol_error + u64" where
  "signed_gap st launcher broker =
     (case (launcher, broker) of
        (None, None) \<Rightarrow> Inr 0
      | (Some l, None) \<Rightarrow> ok_or (checked_add (head_sequence l) 1) (invalid_status st broker)
      | (Some l, Some b) \<Rightarrow>
          if head_sequence b < head_sequence l then Inr (head_sequence l - head_sequence b)
          else if head_sequence l = head_sequence b \<and> head_digest l = head_digest b then Inr 0
          else Inl (invalid_status st broker)
      | (None, Some _) \<Rightarrow> Inl (invalid_status st broker))"

definition phase_receipt_matches :: "pending_phase \<Rightarrow> u64 \<Rightarrow> u64 \<Rightarrow> receipt_head option \<Rightarrow> bool" where
  "phase_receipt_matches phase count gap launcher =
     (case phase of
        Applying \<Rightarrow> gap \<le> count
      | Signing \<Rightarrow> gap < count
      | Awaiting_Durable_Ack \<Rightarrow> 0 < gap \<and> gap \<le> count
      | Activating \<Rightarrow> gap = 0 \<and> launcher \<noteq> None)"

definition pending_state_matches ::
  "pending_action \<Rightarrow> pending_phase \<Rightarrow> session_state \<Rightarrow> channel_state \<Rightarrow> bool" where
  "pending_state_matches act phase st channel =
     (let terminated_after_mechanic = (st = Terminal \<and> phase \<noteq> Applying)
      in case (act, phase) of
        (Pend_Launch, Applying) \<Rightarrow> st = Starting
      | (Pend_Launch, Signing) \<Rightarrow> st = Starting \<or> st = Running
      | (Pend_Launch, Awaiting_Durable_Ack) \<Rightarrow> st = Starting \<or> st = Running
      | (Pend_Park, Applying) \<Rightarrow> st = Running
      | (Pend_Park, Signing) \<Rightarrow> st = Parked \<or> terminated_after_mechanic
      | (Pend_Park, Awaiting_Durable_Ack) \<Rightarrow> st = Parked \<or> terminated_after_mechanic
      | (Pend_Resume, Applying) \<Rightarrow> st = Parked
      | (Pend_Resume, Signing) \<Rightarrow> st = Running \<or> terminated_after_mechanic
      | (Pend_Resume, Awaiting_Durable_Ack) \<Rightarrow> st = Running \<or> terminated_after_mechanic
      | (Pend_Resume, Activating) \<Rightarrow> st = Running \<and> channel = Ch_Revoked
      | (_, Activating) \<Rightarrow> False
      | (Pend_Interrupt, _) \<Rightarrow> st = Running \<or> st = Parked \<or> terminated_after_mechanic
      | (Pend_Disposal, Applying) \<Rightarrow> st = Running \<or> st = Parked
      | (Pend_Disposal, _) \<Rightarrow> st = Terminal)"

definition launch_head_matches ::
  "session_state \<Rightarrow> pending_action \<Rightarrow> pending_phase \<Rightarrow> u64 option \<Rightarrow> u64 option \<Rightarrow> bool" where
  "launch_head_matches st act phase launcher_seq broker_seq =
     (if act \<noteq> Pend_Launch then True
      else case (st, phase) of
        (Starting, Applying) \<Rightarrow> launcher_seq = None \<or> launcher_seq = Some 0
      | (Starting, Signing) \<Rightarrow> launcher_seq = None \<and> broker_seq = None
      | (Starting, Awaiting_Durable_Ack) \<Rightarrow> launcher_seq = Some 0 \<and> broker_seq = None
      | (Running, Signing) \<Rightarrow> launcher_seq = Some 0 \<and> broker_seq = Some 0
      | (Running, Awaiting_Durable_Ack) \<Rightarrow> launcher_seq = Some 1 \<and> broker_seq = Some 0
      | _ \<Rightarrow> False)"

definition state_matches ::
  "session_state \<Rightarrow> channel_state \<Rightarrow> receipt_head option \<Rightarrow> pending_operation option
     \<Rightarrow> protocol_error option \<Rightarrow> bool" where
  "state_matches st channel launcher op failed =
     (case st of
        Starting \<Rightarrow> channel = Ch_Disabled
          \<and> (case launcher of None \<Rightarrow> True | Some h \<Rightarrow> head_sequence h = 0)
      | Running \<Rightarrow> channel \<noteq> Ch_Closed
          \<and> (case launcher of None \<Rightarrow> False
             | Some h \<Rightarrow> 0 < head_sequence h
                 \<or> (case op of None \<Rightarrow> False | Some x \<Rightarrow> po_action x = Pend_Launch \<and> po_phase x = Signing))
      | Parked \<Rightarrow> (channel = Ch_Disabled \<or> channel = Ch_Revoked) \<and> launcher \<noteq> None
      | Terminal \<Rightarrow> channel = Ch_Closed
          \<and> (launcher \<noteq> None \<or> (op = None \<and> failed \<noteq> None)))"

definition check_pending ::
  "supervisor_status \<Rightarrow> u64 \<Rightarrow> pending_operation \<Rightarrow> protocol_error + unit" where
  "check_pending s gap op =
     (let count = (ucast (pending_receipt_count s) :: u64);
          bad = invalid_status (ss_state s) (broker_head s)
      in andThen (protocol_identifier (po_request_id op)) (\<lambda>_.
         andThen (ensure (phase_receipt_matches (po_phase op) count gap (launcher_head s)) bad) (\<lambda>_.
         andThen (ensure (pending_state_matches (po_action op) (po_phase op) (ss_state s) (ss_channel_state s)) bad) (\<lambda>_.
         ensure (launch_head_matches (ss_state s) (po_action op) (po_phase op)
           (map_option head_sequence (launcher_head s)) (map_option head_sequence (broker_head s))) bad))))"

definition check_head_digest :: "receipt_head option \<Rightarrow> protocol_error + unit" where
  "check_head_digest head = (case head of None \<Rightarrow> Inr () | Some h \<Rightarrow> protocol_digest (head_digest h))"

definition validate_status_shape :: "supervisor_status \<Rightarrow> protocol_error + unit" where
  "validate_status_shape s =
     (let bad = invalid_status (ss_state s) (broker_head s) in
      andThen (check_head_digest (launcher_head s)) (\<lambda>_.
      andThen (check_head_digest (broker_head s)) (\<lambda>_.
      andThen (signed_gap (ss_state s) (launcher_head s) (broker_head s)) (\<lambda>gap.
      andThen (ensure (\<not> (MAX_PENDING_RECEIPTS < pending_receipt_count s
         \<or> (ucast (pending_receipt_count s) :: u64) < gap)) bad) (\<lambda>_.
      andThen (case pending_op s of
          Some op \<Rightarrow> check_pending s gap op
        | None \<Rightarrow> ensure (\<not> (pending_receipt_count s = 0 \<and> launcher_head s \<noteq> broker_head s)) bad) (\<lambda>_.
      andThen (case last_failure s of None \<Rightarrow> Inr () | Some e \<Rightarrow> validate_protocol_error e) (\<lambda>_.
      andThen (ensure (\<not> (process_exit s \<noteq> None \<and> ss_state s \<noteq> Terminal)) bad) (\<lambda>_.
      ensure (state_matches (ss_state s) (ss_channel_state s) (launcher_head s) (pending_op s) (last_failure s)
         \<and> (ss_broker_connection s = Connected \<or> ss_channel_state s \<noteq> Ch_Enabled)) bad))))))))"

definition validate_supervisor_status :: "supervisor_status \<Rightarrow> protocol_error + unit" where
  "validate_supervisor_status s =
     andThen (protocol_schema (ss_schema s) SUPERVISOR_STATUS_SCHEMA) (\<lambda>_.
     andThen (protocol_version_is (ss_protocol_version s)) (\<lambda>_.
     andThen (protocol_identifier (ss_session_id s)) (\<lambda>_.
     andThen (protocol_identifier (ss_run_id s)) (\<lambda>_.
     validate_status_shape s))))"

subsection \<open>Deciding a lifecycle request\<close>

fun transition :: "session_state \<Rightarrow> lifecycle_action \<Rightarrow> protocol_error + session_state" where
  "transition Running Act_Park = Inr Parked"
| "transition Parked Act_Interrupt = Inr Parked"
| "transition Running Act_Interrupt = Inr Running"
| "transition Parked Act_Resume = Inr Running"
| "transition Running Act_Disposal = Inr Terminal"
| "transition Parked Act_Disposal = Inr Terminal"
| "transition st _ = Inl (protocol_error_new Invalid_Lifecycle_Transition (Some st) None)"

record completed_request =
  cr_request_id :: string
  cr_request_digest :: string
  cr_receipt :: signed_receipt

definition completed_request_new :: "protocol_codec \<Rightarrow> lifecycle_request \<Rightarrow> signed_receipt \<Rightarrow> completed_request" where
  "completed_request_new c q r =
     \<lparr>cr_request_id = lr_request_id q, cr_request_digest = digest_text (request_digest c q), cr_receipt = r\<rparr>"

record receipt_intent =
  ri_session_id :: string
  ri_run_id :: string
  ri_authorization_id :: string
  ri_request_id :: string
  ri_request_digest :: string
  ri_action :: lifecycle_action
  ri_envelope_revision :: u64
  ri_sequence :: u64
  ri_previous_receipt_digest :: string
  ri_resulting_state :: session_state

datatype request_disposition = Replay signed_receipt | Execute receipt_intent

definition intent_payload :: "receipt_intent \<Rightarrow> string \<Rightarrow> string \<Rightarrow> receipt_payload" where
  "intent_payload i release_id signing_key_id =
     (let a = \<lparr>auth_authorization_id = ri_authorization_id i, auth_request_id = ri_request_id i,
                auth_request_digest = ri_request_digest i\<rparr>
      in \<lparr>pl_schema = RECEIPT_SCHEMA, pl_session_id = ri_session_id i, pl_run_id = ri_run_id i,
           pl_request_id = ri_request_id i, pl_envelope_revision = ri_envelope_revision i,
           pl_sequence = ri_sequence i, previous_receipt_digest = Some (ri_previous_receipt_digest i),
           pl_release_id = release_id, pl_signing_key_id = signing_key_id,
           outcome = (case ri_action i of
               Act_Park \<Rightarrow> Park (Authorized a)
             | Act_Resume \<Rightarrow> Resume a
             | Act_Interrupt \<Rightarrow> Interrupt a
             | Act_Disposal \<Rightarrow> Disposal (Authorized a)),
           resulting_state = ri_resulting_state i\<rparr>)"

definition receipt_payload_of :: "codec \<Rightarrow> receipt_intent \<Rightarrow> string \<Rightarrow> string \<Rightarrow> receipt_error + receipt_payload" where
  "receipt_payload_of c i release_id signing_key_id =
     (let p = intent_payload i release_id signing_key_id
      in andThen (validate_payload c p) (\<lambda>_. Inr p))"

fun authorized_lifecycle_outcome :: "receipt_outcome \<Rightarrow> (authorization \<times> lifecycle_action) option" where
  "authorized_lifecycle_outcome (Park (Authorized a)) = Some (a, Act_Park)"
| "authorized_lifecycle_outcome (Resume a) = Some (a, Act_Resume)"
| "authorized_lifecycle_outcome (Interrupt a) = Some (a, Act_Interrupt)"
| "authorized_lifecycle_outcome (Disposal (Authorized a)) = Some (a, Act_Disposal)"
| "authorized_lifecycle_outcome _ = None"

definition validate_completed ::
  "protocol_codec \<Rightarrow> completed_request \<Rightarrow> session_state \<Rightarrow> u64 option \<Rightarrow> protocol_error + unit" where
  "validate_completed c done_req st sq =
     (let bad = protocol_error_new Receipt_Chain_Invalid (Some st) sq in
      andThen (ensure (is_ok (protocol_identifier (cr_request_id done_req))
         \<and> is_ok (protocol_digest (cr_request_digest done_req))) bad) (\<lambda>_.
      andThen (map_err (\<lambda>_. bad) (validate_receipt (receipt_codec c) (cr_receipt done_req))) (\<lambda>_.
      andThen (ok_or (authorized_lifecycle_outcome (outcome (payload (cr_receipt done_req)))) bad) (\<lambda>(a, _).
      ensure (pl_request_id (payload (cr_receipt done_req)) = cr_request_id done_req
         \<and> auth_request_id a = cr_request_id done_req
         \<and> auth_request_digest a = cr_request_digest done_req) bad))))"

definition validate_replay ::
  "completed_request \<Rightarrow> lifecycle_request \<Rightarrow> session_state \<Rightarrow> u64 option \<Rightarrow> protocol_error + unit" where
  "validate_replay done_req q st sq =
     (let bad = protocol_error_new Receipt_Chain_Invalid (Some st) sq; p = payload (cr_receipt done_req) in
      andThen (ok_or (authorized_lifecycle_outcome (outcome p)) bad) (\<lambda>(a, act).
      andThen (map_err (\<lambda>_. bad) (transition (expected_state q) (lr_action q))) (\<lambda>expected_result.
      ensure (pl_session_id p = lr_session_id q \<and> pl_run_id p = lr_run_id q
         \<and> pl_envelope_revision p = lr_envelope_revision q
         \<and> Some (pl_sequence p) = Option.bind (expected_receipt_sequence q) (\<lambda>v. checked_add v 1)
         \<and> act = lr_action q \<and> resulting_state p = expected_result
         \<and> auth_authorization_id a = lr_authorization_id q) bad)))"

definition evaluate_request ::
  "protocol_codec \<Rightarrow> supervisor_status \<Rightarrow> completed_request option \<Rightarrow> lifecycle_request
     \<Rightarrow> protocol_error + request_disposition" where
  "evaluate_request c s found q =
     andThen (validate_supervisor_status s) (\<lambda>_.
     andThen (validate_lifecycle_request q) (\<lambda>_.
     let current = map_option head_sequence (broker_head s);
         refuse = (\<lambda>code. protocol_error_new code (Some (ss_state s)) current) in
     andThen (ensure (lr_session_id q = ss_session_id s \<and> lr_run_id q = ss_run_id s) (refuse Subject_Mismatch)) (\<lambda>_.
     case found of
       Some done_req \<Rightarrow>
         andThen (ensure (cr_request_id done_req = lr_request_id q) (refuse Invalid_Request)) (\<lambda>_.
         andThen (validate_completed c done_req (ss_state s) current) (\<lambda>_.
         if cr_request_digest done_req = digest_text (request_digest c q)
         then andThen (validate_replay done_req q (ss_state s) current) (\<lambda>_. Inr (Replay (cr_receipt done_req)))
         else Inl (refuse Request_Id_Conflict)))
     | None \<Rightarrow>
         andThen (ensure (pending_op s = None) (refuse Operation_Pending)) (\<lambda>_.
         andThen (ensure (\<not> (lr_action q = Act_Resume
            \<and> (pending_receipt_count s \<noteq> 0 \<or> launcher_head s \<noteq> broker_head s))) (refuse Durability_Unavailable)) (\<lambda>_.
         andThen (ensure (expected_state q = ss_state s) (refuse State_Mismatch)) (\<lambda>_.
         andThen (ensure (expected_receipt_sequence q = current) (refuse Receipt_Sequence_Mismatch)) (\<lambda>_.
         andThen (ensure (lr_envelope_revision q = ss_envelope_revision s) (refuse Envelope_Revision_Mismatch)) (\<lambda>_.
         andThen (map_err (\<lambda>_. refuse Invalid_Lifecycle_Transition) (transition (ss_state s) (lr_action q))) (\<lambda>result.
         andThen (ok_or (launcher_head s) (protocol_error_new Receipt_Sequence_Mismatch (Some (ss_state s)) None)) (\<lambda>head.
         andThen (ok_or (checked_add (head_sequence head) 1)
            (protocol_error_new Receipt_Sequence_Mismatch (Some (ss_state s)) (Some (head_sequence head)))) (\<lambda>sequence.
         Inr (Execute \<lparr>ri_session_id = lr_session_id q, ri_run_id = lr_run_id q,
           ri_authorization_id = lr_authorization_id q, ri_request_id = lr_request_id q,
           ri_request_digest = digest_text (request_digest c q), ri_action = lr_action q,
           ri_envelope_revision = lr_envelope_revision q, ri_sequence = sequence,
           ri_previous_receipt_digest = head_digest head, ri_resulting_state = result\<rparr>))))))))))))"

end
