(* ===== verification/Protocol_Properties.thy ===== *)
theory Protocol_Properties
  imports Protocol Receipt_Chains
begin

section \<open>Properties of the lifecycle protocol\<close>

text \<open>
  The lifecycle decision agrees with the receipt verifier: what it plans can be signed and
  extends the chain, a retry returns the original receipt, and a valid status fails closed.
\<close>

subsection \<open>Intents and receipts\<close>

lemma transition_valid:
  assumes "transition st act = Inr res"
  shows "valid_transition st (case act of Act_Park \<Rightarrow> Park (Authorized a) | Act_Resume \<Rightarrow> Resume a
      | Act_Interrupt \<Rightarrow> Interrupt a | Act_Disposal \<Rightarrow> Disposal (Authorized a)) res"
  using assms by (cases "(st, act)" rule: transition.cases) auto

lemma evaluate_execute:
  assumes "evaluate_request c s None q = Inr (Execute i)"
  shows "\<exists>head. launcher_head s = Some head \<and> pending_op s = None
    \<and> lr_session_id q = ss_session_id s \<and> lr_run_id q = ss_run_id s \<and> expected_state q = ss_state s
    \<and> expected_receipt_sequence q = map_option head_sequence (broker_head s)
    \<and> lr_envelope_revision q = ss_envelope_revision s
    \<and> (lr_action q = Act_Resume \<longrightarrow> pending_receipt_count s = 0 \<and> launcher_head s = broker_head s)
    \<and> transition (ss_state s) (lr_action q) = Inr (ri_resulting_state i)
    \<and> checked_add (head_sequence head) 1 = Some (ri_sequence i)
    \<and> ri_previous_receipt_digest i = head_digest head
    \<and> ri_session_id i = lr_session_id q \<and> ri_run_id i = lr_run_id q \<and> ri_request_id i = lr_request_id q
    \<and> ri_authorization_id i = lr_authorization_id q \<and> ri_action i = lr_action q
    \<and> ri_envelope_revision i = lr_envelope_revision q
    \<and> ri_request_digest i = digest_text (request_digest c q)
    \<and> validate_lifecycle_request q = Inr ()"
  using assms by (auto simp: evaluate_request_def Let_def results)

lemma intent_payload_fields:
  "pl_sequence (intent_payload i rel key) = ri_sequence i"
  "previous_receipt_digest (intent_payload i rel key) = Some (ri_previous_receipt_digest i)"
  "pl_session_id (intent_payload i rel key) = ri_session_id i" "pl_run_id (intent_payload i rel key) = ri_run_id i"
  "pl_request_id (intent_payload i rel key) = ri_request_id i" "pl_release_id (intent_payload i rel key) = rel"
  "pl_signing_key_id (intent_payload i rel key) = key"
  "pl_envelope_revision (intent_payload i rel key) = ri_envelope_revision i"
  "resulting_state (intent_payload i rel key) = ri_resulting_state i"
  by (simp_all add: intent_payload_def Let_def)

lemma intent_payload_outcome:
  "authorized_lifecycle_outcome (outcome (intent_payload i rel key)) =
     Some (\<lparr>auth_authorization_id = ri_authorization_id i, auth_request_id = ri_request_id i,
       auth_request_digest = ri_request_digest i\<rparr>, ri_action i)"
  by (cases "ri_action i") (simp_all add: intent_payload_def Let_def)

lemma receipt_payload_of_Inr:
  "receipt_payload_of c i rel key = Inr p \<longleftrightarrow>
     validate_payload c (intent_payload i rel key) = Inr () \<and> p = intent_payload i rel key"
  by (auto simp: receipt_payload_of_def Let_def results)

text \<open>A receipt the supervisor signs for an intent: envelope bounds and signature.\<close>

definition signs ::
  "codec \<Rightarrow> signature_check \<Rightarrow> string \<Rightarrow> string \<Rightarrow> receipt_intent \<Rightarrow> signed_receipt \<Rightarrow> bool" where
  "signs c verify rel key i r \<longleftrightarrow> receipt_payload_of c i rel key = Inr (payload r)
     \<and> sr_schema r = SIGNED_RECEIPT_SCHEMA \<and> signature r \<noteq> [] \<and> length (signature r) \<le> MAX_SIGNATURE_BYTES
     \<and> length (signed_json c r) \<le> MAX_RECEIPT_BYTES \<and> signed_by c verify r"

lemma signs_valid: "signs c verify rel key i r \<Longrightarrow> validate_receipt c r = Inr ()"
  by (auto simp: signs_def validate_receipt_def check_size_def receipt_payload_of_Inr)

lemma execute_extends:
  assumes eval: "evaluate_request c s None q = Inr (Execute i)"
    and chain: "chain_spec (receipt_codec c) verify anchor rs"
    and head: "launcher_head s = Some (wire_head (chain_head (receipt_codec c) rs))"
    and st: "ss_state s = vh_state (chain_head (receipt_codec c) rs)"
    and rev: "vh_envelope_revision (chain_head (receipt_codec c) rs) \<le> ss_envelope_revision s"
    and subj: "ss_session_id s = anchor_session_id anchor" "ss_run_id s = anchor_run_id anchor"
    and fresh: "\<forall>r \<in> set rs. pl_request_id (payload r) \<noteq> lr_request_id q"
    and sig: "signs (receipt_codec c) verify (anchor_release_id anchor) (anchor_signing_key_id anchor) i r"
  shows "accept_next (receipt_codec c) verify (chain_head (receipt_codec c) rs) r
    = Inr (chain_head (receipt_codec c) (rs @ [r]))"
proof -
  let ?c = "receipt_codec c" let ?h = "chain_head (receipt_codec c) rs"
  from evaluate_execute [OF eval] head
  have i: "lr_session_id q = ss_session_id s" "lr_run_id q = ss_run_id s"
    "lr_envelope_revision q = ss_envelope_revision s" "transition (ss_state s) (lr_action q) = Inr (ri_resulting_state i)"
    "checked_add (vh_sequence ?h) 1 = Some (ri_sequence i)" "ri_previous_receipt_digest i = vh_receipt_digest ?h"
    "ri_session_id i = lr_session_id q" "ri_run_id i = lr_run_id q" "ri_request_id i = lr_request_id q"
    "ri_action i = lr_action q" "ri_envelope_revision i = lr_envelope_revision q"
    by (auto simp: wire_head_def)
  from sig have p: "payload r = intent_payload i (anchor_release_id anchor) (anchor_signing_key_id anchor)"
    by (simp add: signs_def receipt_payload_of_Inr)
  from chain have ne: "rs \<noteq> []" by (simp add: chain_spec_def)
  have "chain_spec ?c verify anchor (rs @ [r])"
    unfolding chain_spec_snoc [OF ne]
  proof (intro conjI)
    show "chain_spec ?c verify anchor rs" by (rule chain)
    have "unat (vh_sequence ?h) = length rs - 1" "rs \<noteq> []"
      using chain_specD(1) [OF chain, of "length rs - 1"] ne by (simp_all add: chain_head_def head_of_def last_conv_nth)
    with i(5) show "unat (pl_sequence (payload r)) = length rs"
      by (auto simp: p intent_payload_fields checked_add_Some)
    show "is_ok (validate_receipt ?c r)" by (simp add: signs_valid [OF sig])
    show "signed_by ?c verify r" using sig by (simp add: signs_def)
    show "pinned anchor (payload r)" using i subj by (simp add: p pinned_def intent_payload_fields)
    have "valid_transition (vh_state ?h) (outcome (payload r)) (ri_resulting_state i)"
      using transition_valid [OF i(4)] st i(10) by (simp add: p intent_payload_def Let_def)
    then show "follows ?c (last rs) r"
      using i rev by (simp add: follows_def p intent_payload_fields chain_head_def head_of_def)
    show "pl_request_id (payload r) \<notin> set (map (\<lambda>r. pl_request_id (payload r)) rs)"
      using fresh i by (auto simp: p intent_payload_fields)
  qed
  with accept_next_chain [OF chain] show ?thesis by blast
qed

lemma execute_replays:
  assumes eval: "evaluate_request c s None q = Inr (Execute i)"
    and sig: "signs (receipt_codec c) verify rel key i r"
    and agree: "launcher_head s = broker_head s"
    and len: "length (digest_bytes (receipt_codec c) (lifecycle_json c q)) = 32"
    and valid: "validate_supervisor_status s' = Inr ()"
    and subj: "ss_session_id s' = ss_session_id s" "ss_run_id s' = ss_run_id s"
  shows "evaluate_request c s' (Some (completed_request_new c q r)) q = Inr (Replay r)"
proof -
  from evaluate_execute [OF eval] obtain head
    where i: "launcher_head s = Some head" "lr_session_id q = ss_session_id s" "lr_run_id q = ss_run_id s"
    "expected_state q = ss_state s" "expected_receipt_sequence q = map_option head_sequence (broker_head s)"
    "lr_envelope_revision q = ss_envelope_revision s" "transition (ss_state s) (lr_action q) = Inr (ri_resulting_state i)"
    "checked_add (head_sequence head) 1 = Some (ri_sequence i)"
    "ri_session_id i = lr_session_id q" "ri_run_id i = lr_run_id q" "ri_request_id i = lr_request_id q"
    "ri_authorization_id i = lr_authorization_id q" "ri_action i = lr_action q"
    "ri_envelope_revision i = lr_envelope_revision q" "ri_request_digest i = digest_text (request_digest c q)"
    and q: "validate_lifecycle_request q = Inr ()"
    by auto
  from sig have p: "payload r = intent_payload i rel key" by (simp add: signs_def receipt_payload_of_Inr)
  have "hex64 (request_digest c q)" unfolding request_digest_def by (rule digest_of_hex64) (rule len)
  then have dig: "is_ok (protocol_digest (digest_text (request_digest c q)))"
    by (auto simp: protocol_digest_def canonical_digest_iff ensure_def)
  have ident: "is_ok (protocol_identifier (lr_request_id q))"
    using q by (auto simp: validate_lifecycle_request_def results)
  have comp: "validate_completed c (completed_request_new c q r) (ss_state s') sq = Inr ()" for sq
    using dig ident signs_valid [OF sig] i
    by (simp add: validate_completed_def completed_request_new_def Let_def p intent_payload_outcome intent_payload_fields)
  have "map_option head_sequence (broker_head s) = Some (head_sequence head)" using i(1) agree by simp
  with i(5) have e: "expected_receipt_sequence q = Some (head_sequence head)" by simp
  have rep: "validate_replay (completed_request_new c q r) q (ss_state s') sq = Inr ()" for sq
    by (simp add: validate_replay_def completed_request_new_def Let_def p intent_payload_outcome intent_payload_fields
        e i(4,6-))
  show ?thesis
    using valid q subj i(2,3) comp rep
    by (simp add: evaluate_request_def Let_def) (simp add: completed_request_new_def)
qed

subsection \<open>A validated status\<close>

lemma status_shape_facts:
  assumes "validate_supervisor_status s = Inr u"
  shows "state_matches (ss_state s) (ss_channel_state s) (launcher_head s) (pending_op s) (last_failure s)
    \<and> (ss_broker_connection s = Connected \<or> ss_channel_state s \<noteq> Ch_Enabled)
    \<and> (\<exists>gap. signed_gap (ss_state s) (launcher_head s) (broker_head s) = Inr gap
         \<and> gap \<le> ucast (pending_receipt_count s) \<and> pending_receipt_count s \<le> MAX_PENDING_RECEIPTS)"
  using assms unfolding validate_supervisor_status_def validate_status_shape_def Let_def
  by (auto simp: results not_less)

subsection \<open>A concrete request\<close>

definition demo_protocol :: protocol_codec where
  "demo_protocol = \<lparr>receipt_codec = demo_codec, lifecycle_json = (\<lambda>_. ''q'')\<rparr>"

definition demo_request :: "lifecycle_action \<Rightarrow> u64 \<Rightarrow> lifecycle_request" where
  "demo_request act n = \<lparr>lr_schema = LIFECYCLE_REQUEST_SCHEMA, lr_protocol_version = 1, lr_request_id = ''q2'',
     lr_session_id = ''s'', lr_run_id = ''r'', lr_authorization_id = ''a'', lr_action = act,
     expected_state = Running, expected_receipt_sequence = Some n, lr_envelope_revision = 1\<rparr>"

definition demo_head :: "u64 \<Rightarrow> receipt_head" where
  "demo_head n = \<lparr>head_sequence = n, head_digest = demo_hash\<rparr>"

definition demo_status :: "u64 \<Rightarrow> u64 \<Rightarrow> u32 \<Rightarrow> supervisor_status" where
  "demo_status l b n = \<lparr>ss_schema = SUPERVISOR_STATUS_SCHEMA, ss_protocol_version = 1, ss_session_id = ''s'',
     ss_run_id = ''r'', ss_state = Running, ss_broker_connection = Connected, ss_envelope_revision = 1,
     ss_channel_state = Ch_Enabled, launcher_head = Some (demo_head l), broker_head = Some (demo_head b),
     pending_receipt_count = n, pending_op = None, process_exit = None, last_failure = None\<rparr>"

definition demo_intent :: "u64 \<Rightarrow> receipt_intent" where
  "demo_intent n = \<lparr>ri_session_id = ''s'', ri_run_id = ''r'', ri_authorization_id = ''a'', ri_request_id = ''q2'',
     ri_request_digest = demo_hash, ri_action = Act_Park, ri_envelope_revision = 1, ri_sequence = n,
     ri_previous_receipt_digest = demo_hash, ri_resulting_state = Parked\<rparr>"

lemma demo_protocol_identifier [simp]:
  "protocol_identifier ''s'' = Inr ()" "protocol_identifier ''r'' = Inr ()" "protocol_identifier ''a'' = Inr ()"
  "protocol_identifier ''q2'' = Inr ()" "protocol_digest demo_hash = Inr ()" "validate_identifier f ''q2'' = Inr ()"
  by (simp_all add: protocol_identifier_def validate_identifier_def protocol_digest_def MAX_IDENTIFIER_BYTES_def
      identifier_byte_def is_ascii_alphanumeric_def is_ascii_lower_def is_ascii_digit_def byte_of_def)

lemma demo_request_digest: "digest_text (request_digest demo_protocol q) = demo_hash"
  by (simp only: request_digest_def demo_protocol_def demo_codec_def protocol_codec.simps codec.simps
      demo_from_raw demo_hash_text)

lemma demo_request_valid: "validate_lifecycle_request (demo_request act n) = Inr ()"
  by (simp add: validate_lifecycle_request_def demo_request_def protocol_schema_def protocol_version_is_def
      PROTOCOL_VERSION_def sequence_shape_matches_def)

lemma demo_status_valid:
  "validate_supervisor_status (demo_status 1 1 0) = Inr ()"
  "validate_supervisor_status (demo_status 2 1 1) = Inr ()"
  by (simp_all add: validate_supervisor_status_def demo_status_def protocol_schema_def protocol_version_is_def
      PROTOCOL_VERSION_def validate_status_shape_def Let_def check_head_digest_def demo_head_def signed_gap_def
      MAX_PENDING_RECEIPTS_def state_matches_def)

lemma demo_evaluate:
  "evaluate_request demo_protocol (demo_status 1 1 0) None (demo_request Act_Park 1) = Inr (Execute (demo_intent 2))"
  "evaluate_request demo_protocol (demo_status 2 1 1) None (demo_request Act_Park 1) = Inr (Execute (demo_intent 3))"
  unfolding evaluate_request_def Let_def demo_status_valid demo_request_valid demo_request_digest
  by (simp_all add: demo_status_def demo_request_def demo_head_def demo_intent_def checked_add_def)

definition demo_park :: "u64 \<Rightarrow> signed_receipt" where
  "demo_park n = demo_signed (intent_payload (demo_intent n) demo_hash demo_hash)"

lemma demo_signs:
  assumes "n \<noteq> 0"
  shows "signs demo_codec (\<lambda>_ _ _. True) demo_hash demo_hash (demo_intent n) (demo_park n)"
proof -
  have "validate_payload demo_codec (intent_payload (demo_intent n) demo_hash demo_hash) = Inr ()"
    using assms by (simp add: validate_payload_def check_size_def demo_codec_def MAX_RECEIPT_BYTES_def
        intent_payload_def demo_intent_def Let_def validate_predecessor_def validate_outcome_def validate_later_def
        validate_authorization_def)
  then show ?thesis
    by (simp add: signs_def receipt_payload_of_Inr demo_park_def demo_signed_def MAX_SIGNATURE_BYTES_def
        MAX_RECEIPT_BYTES_def demo_codec_def signed_by_def)
qed

subsection \<open>Properties\<close>

text \<open>C18: When the lifecycle decision executes a request on a status whose launcher head is the
  head of a verified chain, the receipt that the intent describes, once signed, extends the
  chain: the longer chain verifies and its head is in the state that the transition table gives.\<close>

theorem lifecycle_receipt_extends_chain:
  assumes "verify_chain (receipt_codec c) verify anchor rs = Inr h"
    and "evaluate_request c s None q = Inr (Execute i)"
    and "launcher_head s = Some (wire_head h)" and "ss_state s = vh_state h"
    and "vh_envelope_revision h \<le> ss_envelope_revision s"
    and "ss_session_id s = anchor_session_id anchor" and "ss_run_id s = anchor_run_id anchor"
    and "\<forall>r \<in> set rs. pl_request_id (payload r) \<noteq> lr_request_id q"
    and "signs (receipt_codec c) verify (anchor_release_id anchor) (anchor_signing_key_id anchor) i r"
  shows "\<exists>h'. verify_chain (receipt_codec c) verify anchor (rs @ [r]) = Inr h'
    \<and> transition (vh_state h) (lr_action q) = Inr (vh_state h') \<and> vh_state h' = ri_resulting_state i
    \<and> unat (vh_sequence h') = Suc (unat (vh_sequence h))"
proof -
  let ?c = "receipt_codec c"
  from assms(1) have ch: "chain_spec ?c verify anchor rs" and h: "h = chain_head ?c rs"
    and an: "is_ok (validate_anchor anchor)" by (simp_all add: verify_chain_spec)
  from execute_extends [OF assms(2) ch] assms(3-) h
  have nxt: "accept_next ?c verify h r = Inr (chain_head ?c (rs @ [r]))" by simp
  with accept_next_chain [OF ch] h have "verify_chain ?c verify anchor (rs @ [r]) = Inr (chain_head ?c (rs @ [r]))"
    using an by (simp add: verify_chain_spec)
  moreover from nxt have "unat (vh_sequence (chain_head ?c (rs @ [r]))) = Suc (unat (vh_sequence h))"
    by (auto simp: accept_next_iff [OF refl] checked_add_Some chain_head_def head_of_def)
  moreover have "vh_state (chain_head ?c (rs @ [r])) = ri_resulting_state i"
    using assms(9) by (simp add: signs_def receipt_payload_of_Inr chain_head_def head_of_def intent_payload_fields)
  moreover have "transition (vh_state h) (lr_action q) = Inr (ri_resulting_state i)"
    using evaluate_execute [OF assms(2)] assms(4) by auto
  ultimately show ?thesis by auto
qed

theorem lifecycle_receipt_extends_chain_witness:
  "\<exists>h'. verify_chain demo_codec (\<lambda>_ _ _. True) demo_anchor ([demo_launch, demo_start] @ [demo_park 2]) = Inr h'
    \<and> vh_state h' = Parked"
proof -
  let ?h = "chain_head demo_codec [demo_launch, demo_start]"
  have c: "receipt_codec demo_protocol = demo_codec" by (simp add: demo_protocol_def)
  have d: "digest_text (receipt_digest demo_codec demo_start) = demo_hash" by (rule demo_digest)
  have "verify_chain (receipt_codec demo_protocol) (\<lambda>_ _ _. True) demo_anchor [demo_launch, demo_start] = Inr ?h"
    unfolding c by (rule demo_chain)
  note * = lifecycle_receipt_extends_chain [OF this demo_evaluate(1), of "demo_park 2"]
  have "launcher_head (demo_status 1 1 0) = Some (wire_head ?h)" "ss_state (demo_status 1 1 0) = vh_state ?h"
    "vh_envelope_revision ?h \<le> ss_envelope_revision (demo_status 1 1 0)"
    using d by (simp_all add: demo_status_def wire_head_def chain_head_def head_of_def demo_head_def)
      (simp_all add: demo_start_def demo_signed_def demo_payload_def)
  moreover have "ss_session_id (demo_status 1 1 0) = anchor_session_id demo_anchor"
    "ss_run_id (demo_status 1 1 0) = anchor_run_id demo_anchor"
    "anchor_release_id demo_anchor = demo_hash" "anchor_signing_key_id demo_anchor = demo_hash"
    by (simp_all add: demo_status_def demo_anchor_def)
  moreover have "\<forall>r \<in> set [demo_launch, demo_start]. pl_request_id (payload r) \<noteq> lr_request_id (demo_request Act_Park 1)"
    by (simp add: demo_launch_def demo_start_def demo_signed_def demo_payload_def demo_request_def)
  moreover have "signs demo_codec (\<lambda>_ _ _. True) demo_hash demo_hash (demo_intent 2) (demo_park 2)"
    by (rule demo_signs) simp
  ultimately show ?thesis using * unfolding c by (auto simp: demo_intent_def)
qed

theorem lifecycle_retry_replays:
  assumes "evaluate_request c s None q = Inr (Execute i)"
    and "signs (receipt_codec c) verify rel key i r" and "launcher_head s = broker_head s"
    and "length (digest_bytes (receipt_codec c) (lifecycle_json c q)) = 32"
    and "validate_supervisor_status s' = Inr ()" and "ss_session_id s' = ss_session_id s" and "ss_run_id s' = ss_run_id s"
  shows "evaluate_request c s' (Some (completed_request_new c q r)) q = Inr (Replay r)"
  by (rule execute_replays [OF assms])

theorem lifecycle_retry_replays_witness:
  "evaluate_request demo_protocol (demo_status 2 1 1)
     (Some (completed_request_new demo_protocol (demo_request Act_Park 1) (demo_park 2))) (demo_request Act_Park 1)
   = Inr (Replay (demo_park 2))"
proof (rule lifecycle_retry_replays [OF demo_evaluate(1)])
  show "signs (receipt_codec demo_protocol) (\<lambda>_ _ _. True) demo_hash demo_hash (demo_intent 2) (demo_park 2)"
    using demo_signs [of 2] by (simp add: demo_protocol_def)
  show "validate_supervisor_status (demo_status 2 1 1) = Inr ()" by (rule demo_status_valid(2))
qed (simp_all add: demo_status_def demo_protocol_def demo_codec_def)

theorem lifecycle_retry_ahead_of_broker_fails:
  "evaluate_request demo_protocol (demo_status 2 1 1) None (demo_request Act_Park 1) = Inr (Execute (demo_intent 3))
   \<and> signs demo_codec (\<lambda>_ _ _. True) demo_hash demo_hash (demo_intent 3) (demo_park 3)
   \<and> evaluate_request demo_protocol (demo_status 2 1 1)
       (Some (completed_request_new demo_protocol (demo_request Act_Park 1) (demo_park 3))) (demo_request Act_Park 1)
     = Inl (protocol_error_new Receipt_Chain_Invalid (Some Running) (Some 1))"
proof -
  let ?q = "demo_request Act_Park 1" and ?done = "completed_request_new demo_protocol (demo_request Act_Park 1) (demo_park 3)"
  have sg: "signs demo_codec (\<lambda>_ _ _. True) demo_hash demo_hash (demo_intent 3) (demo_park 3)"
    by (rule demo_signs) simp
  have p: "payload (demo_park 3) = intent_payload (demo_intent 3) demo_hash demo_hash"
    by (simp add: demo_park_def demo_signed_def)
  have c: "receipt_codec demo_protocol = demo_codec" by (simp add: demo_protocol_def)
  have comp: "validate_completed demo_protocol ?done Running (Some 1) = Inr ()"
    using signs_valid [OF sg]
    by (simp add: validate_completed_def completed_request_new_def Let_def p c intent_payload_outcome
        intent_payload_fields demo_request_digest) (simp add: demo_request_def demo_intent_def)
  have rep: "validate_replay ?done ?q Running (Some 1) = Inl (protocol_error_new Receipt_Chain_Invalid (Some Running) (Some 1))"
    by (simp add: validate_replay_def completed_request_new_def Let_def p intent_payload_outcome
        intent_payload_fields checked_add_def demo_request_def demo_intent_def)
  have "evaluate_request demo_protocol (demo_status 2 1 1) (Some ?done) ?q
      = Inl (protocol_error_new Receipt_Chain_Invalid (Some Running) (Some 1))"
    unfolding evaluate_request_def Let_def demo_status_valid demo_request_valid
    using comp rep by (simp add: demo_status_def demo_request_def demo_head_def completed_request_new_def)
  with sg demo_evaluate(2) show ?thesis by blast
qed

theorem validated_status_fails_closed:
  assumes "validate_supervisor_status s = Inr ()"
  shows "(ss_channel_state s = Ch_Enabled \<longrightarrow> ss_state s = Running \<and> ss_broker_connection s = Connected)
    \<and> (ss_state s = Terminal \<longleftrightarrow> ss_channel_state s = Ch_Closed)
    \<and> (\<forall>b. broker_head s = Some b \<longrightarrow> (\<exists>l. launcher_head s = Some l \<and> head_sequence b \<le> head_sequence l
         \<and> unat (head_sequence l) - unat (head_sequence b) \<le> unat (pending_receipt_count s)))
    \<and> unat (pending_receipt_count s) \<le> 8"
proof -
  from status_shape_facts [OF assms] obtain gap
    where m: "state_matches (ss_state s) (ss_channel_state s) (launcher_head s) (pending_op s) (last_failure s)"
      and conn: "ss_broker_connection s = Connected \<or> ss_channel_state s \<noteq> Ch_Enabled"
      and gap: "signed_gap (ss_state s) (launcher_head s) (broker_head s) = Inr gap"
        "gap \<le> ucast (pending_receipt_count s)" "pending_receipt_count s \<le> MAX_PENDING_RECEIPTS" by blast
  have "unat (pending_receipt_count s) < 2 ^ 64" using unsigned_less [of "pending_receipt_count s", where ?'a = nat] by simp
  then have u: "unat (ucast (pending_receipt_count s) :: u64) = unat (pending_receipt_count s)"
    unfolding unsigned_ucast_eq by (intro take_bit_nat_eq_self) simp
  have "\<exists>l. launcher_head s = Some l \<and> head_sequence b \<le> head_sequence l
         \<and> unat (head_sequence l) - unat (head_sequence b) \<le> unat (pending_receipt_count s)"
    if "broker_head s = Some b" for b
  proof -
    from gap(1) that obtain l where l: "launcher_head s = Some l"
      by (cases "launcher_head s") (auto simp: signed_gap_def)
    with gap(1) that have "head_sequence b \<le> head_sequence l \<and> unat gap = unat (head_sequence l) - unat (head_sequence b)"
      by (auto simp: signed_gap_def unat_sub split: if_splits)
    with l gap(2) u show ?thesis by (simp add: word_le_nat_alt)
  qed
  with m conn gap(3) show ?thesis
    by (auto simp: state_matches_def MAX_PENDING_RECEIPTS_def word_le_nat_alt split: session_state.splits option.splits)
qed

theorem validated_status_fails_closed_witness:
  "ss_state (demo_status 2 1 1) = Running \<and> ss_broker_connection (demo_status 2 1 1) = Connected"
  using validated_status_fails_closed [OF demo_status_valid(2)] by (simp add: demo_status_def)

end
