(* ===== verification/Protocol_Messages.thy ===== *)
theory Protocol_Messages
  imports Protocol
begin

section \<open>The launch protocol: messages and authorizations\<close>

text \<open>
  skills-core/src/launch_protocol.rs (the remaining closed messages), launch.rs (the launch
  request), launch_protocol/conformance.rs and conformance/preparation.rs (the waiver binding
  of an authorization) and launch_protocol/tool.rs (the tool request): what each message must
  satisfy before any of it is believed. The JSON encoders are arguments.
\<close>

subsection \<open>Status, reconnection and controller loss\<close>

record status_request =
  sq_schema :: string
  sq_protocol_version :: u32
  sq_request_id :: string
  sq_session_id :: string
  sq_run_id :: string

definition STATUS_REQUEST_SCHEMA :: string where
  "STATUS_REQUEST_SCHEMA = ''louiselm.launch.status-request/1''"

definition validate_status_request :: "status_request \<Rightarrow> protocol_error + unit" where
  "validate_status_request q =
     andThen (protocol_schema (sq_schema q) STATUS_REQUEST_SCHEMA) (\<lambda>_.
     andThen (protocol_version_is (sq_protocol_version q)) (\<lambda>_.
     andThen (protocol_identifier (sq_request_id q)) (\<lambda>_.
     andThen (protocol_identifier (sq_session_id q)) (\<lambda>_.
     protocol_identifier (sq_run_id q)))))"

record broker_reconnect =
  br_schema :: string
  br_protocol_version :: u32
  br_request_id :: string
  br_session_id :: string
  br_run_id :: string
  br_envelope_revision :: u64
  br_sequence :: u64
  br_receipt_digest :: string

definition BROKER_RECONNECT_SCHEMA :: string where
  "BROKER_RECONNECT_SCHEMA = ''louiselm.launch.broker-reconnect/1''"

definition validate_reconnect :: "broker_reconnect \<Rightarrow> protocol_error + unit" where
  "validate_reconnect m =
     andThen (protocol_schema (br_schema m) BROKER_RECONNECT_SCHEMA) (\<lambda>_.
     andThen (protocol_version_is (br_protocol_version m)) (\<lambda>_.
     andThen (protocol_identifier (br_request_id m)) (\<lambda>_.
     andThen (protocol_identifier (br_session_id m)) (\<lambda>_.
     andThen (protocol_identifier (br_run_id m)) (\<lambda>_.
     protocol_digest (br_receipt_digest m))))))"

definition validate_response_to :: "broker_reconnect \<Rightarrow> broker_reconnect \<Rightarrow> protocol_error + unit" where
  "validate_response_to m request =
     andThen (validate_reconnect m) (\<lambda>_.
     andThen (validate_reconnect request) (\<lambda>_.
     ensure (br_request_id m = br_request_id request \<and> br_session_id m = br_session_id request
       \<and> br_run_id m = br_run_id request \<and> br_envelope_revision m = br_envelope_revision request)
       (failure Invalid_Request)))"

record controller_loss_settlement =
  cls_schema :: string
  cls_protocol_version :: u32
  cls_request_id :: string
  cls_session_id :: string
  cls_run_id :: string
  cls_envelope_revision :: u64
  cls_parked_head :: receipt_head

definition CONTROLLER_LOSS_SETTLEMENT_SCHEMA :: string where
  "CONTROLLER_LOSS_SETTLEMENT_SCHEMA = ''louiselm.launch.controller-loss-settlement/1''"

definition validate_settlement :: "controller_loss_settlement \<Rightarrow> protocol_error + unit" where
  "validate_settlement m =
     andThen (protocol_schema (cls_schema m) CONTROLLER_LOSS_SETTLEMENT_SCHEMA) (\<lambda>_.
     andThen (protocol_version_is (cls_protocol_version m)) (\<lambda>_.
     andThen (protocol_identifier (cls_request_id m)) (\<lambda>_.
     andThen (protocol_identifier (cls_session_id m)) (\<lambda>_.
     andThen (protocol_identifier (cls_run_id m)) (\<lambda>_.
     andThen (ensure (cls_envelope_revision m \<noteq> 0) (failure Invalid_Request)) (\<lambda>_.
     protocol_digest (head_digest (cls_parked_head m))))))))"

datatype controller_loss_disposition = Recoverable string string | No_Recovery string

fun validate_disposition :: "controller_loss_disposition \<Rightarrow> protocol_error + unit" where
  "validate_disposition (Recoverable reference projection) =
     andThen (protocol_identifier reference) (\<lambda>_. protocol_identifier projection)"
| "validate_disposition (No_Recovery projection) = protocol_identifier projection"

record controller_loss_acknowledgement =
  cla_schema :: string
  cla_protocol_version :: u32
  cla_request_id :: string
  cla_session_id :: string
  cla_run_id :: string
  cla_envelope_revision :: u64
  cla_parked_head :: receipt_head
  cla_disposition :: controller_loss_disposition

definition CONTROLLER_LOSS_ACK_SCHEMA :: string where
  "CONTROLLER_LOSS_ACK_SCHEMA = ''louiselm.launch.controller-loss-ack/1''"

definition validate_acknowledgement :: "controller_loss_acknowledgement \<Rightarrow> protocol_error + unit" where
  "validate_acknowledgement m =
     andThen (protocol_schema (cla_schema m) CONTROLLER_LOSS_ACK_SCHEMA) (\<lambda>_.
     andThen (protocol_version_is (cla_protocol_version m)) (\<lambda>_.
     andThen (protocol_identifier (cla_request_id m)) (\<lambda>_.
     andThen (protocol_identifier (cla_session_id m)) (\<lambda>_.
     andThen (protocol_identifier (cla_run_id m)) (\<lambda>_.
     andThen (ensure (cla_envelope_revision m \<noteq> 0) (failure Invalid_Request)) (\<lambda>_.
     andThen (protocol_digest (head_digest (cla_parked_head m))) (\<lambda>_.
     validate_disposition (cla_disposition m))))))))"

definition validate_acknowledgement_for ::
  "controller_loss_acknowledgement \<Rightarrow> controller_loss_settlement \<Rightarrow> protocol_error + unit" where
  "validate_acknowledgement_for m settlement =
     andThen (validate_acknowledgement m) (\<lambda>_.
     andThen (validate_settlement settlement) (\<lambda>_.
     ensure (cla_request_id m = cls_request_id settlement \<and> cla_session_id m = cls_session_id settlement
       \<and> cla_run_id m = cls_run_id settlement \<and> cla_envelope_revision m = cls_envelope_revision settlement
       \<and> cla_parked_head m = cls_parked_head settlement) (failure Invalid_Request)))"

subsection \<open>Identity exhaustion\<close>

record occupied_session_identity =
  oc_session_id :: string
  oc_state :: session_state
  oc_slot :: u32

record identity_exhaustion =
  ie_error :: protocol_error
  occupied_sessions :: "occupied_session_identity list"
  truncated :: bool

definition MAX_IDENTITY_OCCUPANTS :: nat where
  "MAX_IDENTITY_OCCUPANTS = 32"

definition validate_occupant :: "occupied_session_identity \<Rightarrow> protocol_error + unit" where
  "validate_occupant oc =
     andThen (protocol_identifier (oc_session_id oc)) (\<lambda>_.
     ensure (oc_state oc \<in> {Starting, Running, Parked}) (failure Invalid_Request))"

fun validate_occupants :: "occupied_session_identity list \<Rightarrow> protocol_error + unit" where
  "validate_occupants [] = Inr ()"
| "validate_occupants (oc # ocs) = andThen (validate_occupant oc) (\<lambda>_. validate_occupants ocs)"

fun check_occupants ::
  "string list \<Rightarrow> u32 option \<Rightarrow> occupied_session_identity list \<Rightarrow> protocol_error + unit" where
  "check_occupants seen previous [] = Inr ()"
| "check_occupants seen previous (oc # ocs) =
     andThen (validate_occupant oc) (\<lambda>_.
     andThen (ensure (\<not> ((case previous of None \<Rightarrow> False | Some slot \<Rightarrow> oc_slot oc \<le> slot)
         \<or> oc_session_id oc \<in> set seen)) (failure Invalid_Request)) (\<lambda>_.
     check_occupants (oc_session_id oc # seen) (Some (oc_slot oc)) ocs))"

definition validate_exhaustion :: "identity_exhaustion \<Rightarrow> protocol_error + unit" where
  "validate_exhaustion x =
     andThen (ensure (\<not> (ie_error x \<noteq> failure Session_Identity_Exhausted
        \<or> MAX_IDENTITY_OCCUPANTS < length (occupied_sessions x))) (failure Invalid_Request)) (\<lambda>_.
     check_occupants [] None (occupied_sessions x))"

fun adjacent_slots_differ :: "occupied_session_identity list \<Rightarrow> bool" where
  "adjacent_slots_differ (a # b # r) = (oc_slot a \<noteq> oc_slot b \<and> adjacent_slots_differ (b # r))"
| "adjacent_slots_differ _ = True"

definition compose_exhaustion :: "occupied_session_identity list \<Rightarrow> protocol_error + identity_exhaustion" where
  "compose_exhaustion occupied =
     andThen (validate_occupants occupied) (\<lambda>_.
     let sorted_ocs = sort_key oc_slot occupied in
     andThen (ensure (adjacent_slots_differ sorted_ocs) (failure Invalid_Request)) (\<lambda>_.
     andThen (ensure (distinct (map oc_session_id sorted_ocs)) (failure Invalid_Request)) (\<lambda>_.
     let x = \<lparr>ie_error = failure Session_Identity_Exhausted,
              occupied_sessions = take MAX_IDENTITY_OCCUPANTS sorted_ocs,
              truncated = (MAX_IDENTITY_OCCUPANTS < length sorted_ocs)\<rparr>
     in andThen (validate_exhaustion x) (\<lambda>_. Inr x))))"

definition redacted_error :: "identity_exhaustion \<Rightarrow> protocol_error" where
  "redacted_error x = failure Session_Identity_Exhausted"

subsection \<open>Receipt acknowledgements\<close>

datatype receipt_disposition = Durably_Stored | Receipt_Rejected

record receipt_acknowledgement =
  ra_schema :: string
  ra_protocol_version :: u32
  ra_session_id :: string
  ra_run_id :: string
  ra_sequence :: u64
  ra_receipt_digest :: string
  ra_disposition :: receipt_disposition

definition RECEIPT_ACK_SCHEMA :: string where
  "RECEIPT_ACK_SCHEMA = ''louiselm.launch.receipt-ack/2''"

definition validate_receipt_ack :: "receipt_acknowledgement \<Rightarrow> protocol_error + unit" where
  "validate_receipt_ack m =
     andThen (protocol_schema (ra_schema m) RECEIPT_ACK_SCHEMA) (\<lambda>_.
     andThen (protocol_version_is (ra_protocol_version m)) (\<lambda>_.
     andThen (protocol_identifier (ra_session_id m)) (\<lambda>_.
     andThen (protocol_identifier (ra_run_id m)) (\<lambda>_.
     protocol_digest (ra_receipt_digest m)))))"

definition exact_disposition ::
  "receipt_acknowledgement \<Rightarrow> string \<Rightarrow> string \<Rightarrow> receipt_head \<Rightarrow> receipt_disposition option" where
  "exact_disposition m session_id run_id head =
     (if is_ok (validate_receipt_ack m) \<and> ra_session_id m = session_id \<and> ra_run_id m = run_id
         \<and> ra_sequence m = head_sequence head \<and> ra_receipt_digest m = head_digest head
      then Some (ra_disposition m) else None)"

subsection \<open>Launch requests\<close>

record launch_request =
  lq_schema :: string
  lq_protocol_version :: u32
  lq_request_id :: string
  lq_authorization_id :: string
  lq_session_id :: string
  lq_run_id :: string
  lq_agent_id :: string
  lq_envelope_id :: string
  lq_envelope_revision :: u64
  lq_skills :: skill_inputs
  lq_session_input_manifest_id :: string

datatype launch_error = Request_Too_Large nat | Malformed_Launch_Request | Non_Canonical_Request
  | Launch_Schema string | Launch_Protocol_Version u32 | Malformed_Identifier string string

record launch_codec =
  protocol_codec_of :: protocol_codec
  launch_json :: "launch_request \<Rightarrow> string"
  launch_parse :: "string \<Rightarrow> launch_request option"

definition REQUEST_SCHEMA :: string where
  "REQUEST_SCHEMA = ''louiselm.launch.request/3''"

definition MAX_REQUEST_BYTES :: nat where
  "MAX_REQUEST_BYTES = 64 * 1024"

definition launch_identifier :: "string \<Rightarrow> string \<Rightarrow> launch_error + unit" where
  "launch_identifier field value =
     andThen (ensure (value \<noteq> []) (Malformed_Identifier field ''must not be empty'')) (\<lambda>_.
     andThen (ensure (length value \<le> 128) (Malformed_Identifier field ''must be at most 128 bytes'')) (\<lambda>_.
     ensure (list_all identifier_byte value)
       (Malformed_Identifier field (''must be ASCII alphanumeric, '' @ [CHR 0x27] @ ''-'' @ [CHR 0x27] @ '', or '' @ [CHR 0x27] @ ''_'' @ [CHR 0x27]))))"

definition launch_digest :: "string \<Rightarrow> string \<Rightarrow> launch_error + digest" where
  "launch_digest field value =
     andThen (map_err (\<lambda>raw. Malformed_Identifier field (CHR 0x27 # raw @ CHR 0x27 # '' is not a sha256 digest''))
        (parse_digest value)) (\<lambda>d.
     andThen (ensure (digest_text d = value)
        (Malformed_Identifier field ''must use canonical sha256:<lowercase hex> spelling'')) (\<lambda>_. Inr d))"

definition validate_launch_request :: "launch_codec \<Rightarrow> launch_request \<Rightarrow> launch_error + unit" where
  "validate_launch_request c q =
     andThen (ensure (length (launch_json c q) \<le> MAX_REQUEST_BYTES) (Request_Too_Large MAX_REQUEST_BYTES)) (\<lambda>_.
     andThen (ensure (lq_schema q = REQUEST_SCHEMA) (Launch_Schema (lq_schema q))) (\<lambda>_.
     andThen (ensure (lq_protocol_version q = PROTOCOL_VERSION) (Launch_Protocol_Version (lq_protocol_version q))) (\<lambda>_.
     andThen (launch_identifier ''request_id'' (lq_request_id q)) (\<lambda>_.
     andThen (launch_identifier ''authorization_id'' (lq_authorization_id q)) (\<lambda>_.
     andThen (launch_identifier ''session_id'' (lq_session_id q)) (\<lambda>_.
     andThen (launch_identifier ''run_id'' (lq_run_id q)) (\<lambda>_.
     andThen (launch_identifier ''agent_id'' (lq_agent_id q)) (\<lambda>_.
     andThen (launch_identifier ''envelope_id'' (lq_envelope_id q)) (\<lambda>_.
     andThen (ensure (validate_skills (receipt_codec (protocol_codec_of c)) (lq_skills q))
        (Malformed_Identifier ''skills'' ''invalid skills mode or view binding'')) (\<lambda>_.
     andThen (launch_digest ''session_input_manifest_id'' (lq_session_input_manifest_id q)) (\<lambda>_.
     Inr ())))))))))))"

definition parse_launch_request :: "launch_codec \<Rightarrow> string \<Rightarrow> launch_error + launch_request" where
  "parse_launch_request c bytes =
     andThen (ensure (length bytes \<le> MAX_REQUEST_BYTES) (Request_Too_Large MAX_REQUEST_BYTES)) (\<lambda>_.
     andThen (ok_or (launch_parse c bytes) Malformed_Launch_Request) (\<lambda>q.
     andThen (ensure (launch_json c q = bytes) Non_Canonical_Request) (\<lambda>_.
     andThen (validate_launch_request c q) (\<lambda>_. Inr q))))"

definition launch_request_digest_of :: "launch_codec \<Rightarrow> launch_request \<Rightarrow> digest" where
  "launch_request_digest_of c q = digest_of (digest_bytes (receipt_codec (protocol_codec_of c))) (launch_json c q)"

fun protocol_error_from_launch :: "launch_error \<Rightarrow> protocol_error" where
  "protocol_error_from_launch (Request_Too_Large _) = failure Message_Too_Large"
| "protocol_error_from_launch Malformed_Launch_Request = failure Malformed_Message"
| "protocol_error_from_launch (Launch_Schema _) = failure Unsupported_Schema"
| "protocol_error_from_launch (Launch_Protocol_Version _) = failure Unsupported_Version"
| "protocol_error_from_launch Non_Canonical_Request = failure Invalid_Request"
| "protocol_error_from_launch (Malformed_Identifier _ _) = failure Invalid_Request"

subsection \<open>Conformance waivers\<close>

datatype attendance = Interactive | Unattended

record preparation =
  pr_schema :: string
  pr_request_digest :: string
  pr_session_id :: string
  pr_operator_uid :: u32
  pr_policy_digest :: string
  pr_boot_id :: string
  pr_observed_at_ms :: u64
  pr_condition :: waiver_condition

definition MAX_AGE_MS :: u64 where
  "MAX_AGE_MS = 300000"

definition uuid_shape :: "string \<Rightarrow> bool" where
  "uuid_shape value = (length value = 36 \<and> (\<forall>k \<in> set [0..<length value].
     if k \<in> {8, 13, 18, 23} then value ! k = CHR ''-'' else is_lower_hex (value ! k)))"

fun is_waivable :: "waiver_condition \<Rightarrow> bool" where
  "is_waivable Missing = True"
| "is_waivable Stale = True"
| "is_waivable Incomplete = True"
| "is_waivable Containment_Failure = False"
| "is_waivable Guard_Unavailable = False"

definition valid_preparation :: "preparation \<Rightarrow> u64 \<Rightarrow> bool" where
  "valid_preparation p now_ms =
     (\<not> (pr_schema p \<noteq> ''louiselm.conformance-preparation/1''
       \<or> \<not> is_ok (protocol_identifier (pr_session_id p))
       \<or> \<not> is_ok (parse_digest (pr_request_digest p)) \<or> \<not> is_ok (parse_digest (pr_policy_digest p))
       \<or> \<not> uuid_shape (pr_boot_id p) \<or> pr_operator_uid p = 0
       \<or> now_ms < pr_observed_at_ms p \<or> MAX_AGE_MS \<le> now_ms - pr_observed_at_ms p
       \<or> \<not> is_waivable (pr_condition p)))"

record conformance_waiver =
  cw_preparation :: "preparation option"
  cw_session_id :: string
  cw_request_digest :: string
  cw_operator_uid :: u32
  cw_condition :: waiver_condition
  cw_expires_at_ms :: u64
  cw_receipt_digest :: string

record conformance_authorization =
  ca_attendance :: attendance
  ca_waiver :: "conformance_waiver option"

definition validate_waiver ::
  "attendance \<Rightarrow> conformance_waiver \<Rightarrow> string \<Rightarrow> string \<Rightarrow> u32 \<Rightarrow> u64 \<Rightarrow> protocol_error + unit" where
  "validate_waiver att w session_id digest controller_uid now_ms =
     andThen (protocol_digest (cw_receipt_digest w)) (\<lambda>_.
     andThen (case cw_preparation w of None \<Rightarrow> Inr ()
        | Some p \<Rightarrow>
            andThen (ensure (valid_preparation p (pr_observed_at_ms p)) (failure Malformed_Message)) (\<lambda>_.
            ensure (\<not> (pr_session_id p \<noteq> session_id \<or> pr_request_digest p \<noteq> digest
              \<or> pr_operator_uid p \<noteq> controller_uid \<or> pr_condition p \<noteq> cw_condition w))
              (failure Malformed_Message))) (\<lambda>_.
     ensure (\<not> (att \<noteq> Interactive \<or> cw_session_id w \<noteq> session_id \<or> cw_request_digest w \<noteq> digest
        \<or> cw_operator_uid w = 0 \<or> cw_operator_uid w \<noteq> controller_uid
        \<or> cw_expires_at_ms w \<le> now_ms \<or> \<not> is_waivable (cw_condition w))) (failure Malformed_Message)))"

definition validate_conformance_for ::
  "conformance_authorization \<Rightarrow> string \<Rightarrow> string \<Rightarrow> u32 \<Rightarrow> u64 \<Rightarrow> protocol_error + unit" where
  "validate_conformance_for a session_id digest controller_uid now_ms =
     (case ca_waiver a of None \<Rightarrow> Inr ()
      | Some w \<Rightarrow> validate_waiver (ca_attendance a) w session_id digest controller_uid now_ms)"

fun validate_admission_history :: "conformance_evidence \<Rightarrow> protocol_error + unit" where
  "validate_admission_history (Waived Containment_Failure _) = Inl (failure Malformed_Message)"
| "validate_admission_history (Waived Guard_Unavailable _) = Inl (failure Malformed_Message)"
| "validate_admission_history (Waived Missing (Some _)) = Inl (failure Malformed_Message)"
| "validate_admission_history (Certified d) = protocol_digest d"
| "validate_admission_history (Waived _ (Some d)) = protocol_digest d"
| "validate_admission_history Unevaluated = Inr ()"
| "validate_admission_history (Waived _ None) = Inr ()"

subsection \<open>Launch authorizations\<close>

record launch_authorization =
  la_role :: launch_role
  la_conformance :: conformance_authorization
  la_schema :: string
  la_protocol_version :: u32
  la_authorization_id :: string
  la_request_id :: string
  la_request_digest :: string
  la_controller_uid :: u32
  la_session_id :: string
  la_run_id :: string
  la_envelope_revision :: u64
  la_identity_slot :: u32
  la_assigned_uid :: u32
  la_assigned_gid :: u32
  la_provider_expires_at_ms :: "u64 option"
  la_expires_at_ms :: u64
  la_broker_loss_grace_ms :: u32

definition LAUNCH_AUTHORIZATION_SCHEMA :: string where
  "LAUNCH_AUTHORIZATION_SCHEMA = ''louiselm.launch.authorization/4''"

definition validate_launch_authorization :: "launch_authorization \<Rightarrow> protocol_error + unit" where
  "validate_launch_authorization a =
     andThen (protocol_schema (la_schema a) LAUNCH_AUTHORIZATION_SCHEMA) (\<lambda>_.
     andThen (protocol_version_is (la_protocol_version a)) (\<lambda>_.
     andThen (protocol_identifier (la_authorization_id a)) (\<lambda>_.
     andThen (protocol_identifier (la_request_id a)) (\<lambda>_.
     andThen (protocol_digest (la_request_digest a)) (\<lambda>_.
     andThen (protocol_identifier (la_session_id a)) (\<lambda>_.
     andThen (protocol_identifier (la_run_id a)) (\<lambda>_.
     andThen (validate_conformance_for (la_conformance a) (la_session_id a) (la_request_digest a)
        (la_controller_uid a) 0) (\<lambda>_.
     ensure (\<not> (la_controller_uid a = 0 \<or> la_assigned_uid a = 0 \<or> la_assigned_gid a = 0
        \<or> la_provider_expires_at_ms a = Some 0
        \<or> (la_role a = Fixed_Verifier \<and> la_provider_expires_at_ms a \<noteq> None)
        \<or> la_expires_at_ms a = 0 \<or> MAX_BROKER_LOSS_GRACE_MS < la_broker_loss_grace_ms a))
       (failure Invalid_Request)))))))))"

definition validate_authorization_for ::
  "launch_codec \<Rightarrow> launch_authorization \<Rightarrow> launch_request \<Rightarrow> u32 \<Rightarrow> u64 \<Rightarrow> protocol_error + unit" where
  "validate_authorization_for c a q controller_uid now_ms =
     andThen (validate_launch_authorization a) (\<lambda>_.
     andThen (map_err protocol_error_from_launch (validate_launch_request c q)) (\<lambda>_.
     andThen (validate_conformance_for (la_conformance a) (la_session_id a) (la_request_digest a)
        (la_controller_uid a) now_ms) (\<lambda>_.
     ensure (\<not> (la_authorization_id a \<noteq> lq_authorization_id q \<or> la_request_id a \<noteq> lq_request_id q
        \<or> la_request_digest a \<noteq> digest_text (launch_request_digest_of c q)
        \<or> la_controller_uid a \<noteq> controller_uid \<or> la_session_id a \<noteq> lq_session_id q
        \<or> la_run_id a \<noteq> lq_run_id q \<or> la_envelope_revision a \<noteq> lq_envelope_revision q
        \<or> la_expires_at_ms a \<le> now_ms)) (failure Invalid_Request))))"

subsection \<open>Tool requests\<close>

record tool_execution_request =
  te_schema :: string
  te_protocol_version :: u32
  te_request_id :: string
  te_session_id :: string
  te_run_id :: string
  te_envelope_revision :: u64
  te_sequence :: u64
  te_command :: string
  te_timeout_ms :: u32

record tool_execution_result =
  tr_exit_code :: "32 word"
  tr_stdout :: string
  tr_stderr :: string
  tr_truncated :: bool
  tr_timed_out :: bool

definition TOOL_EXECUTION_SCHEMA :: string where
  "TOOL_EXECUTION_SCHEMA = ''louiselm.launch.tool-execution/1''"

definition MAX_TOOL_OUTPUT_BYTES :: nat where
  "MAX_TOOL_OUTPUT_BYTES = 4096"

definition validate_tool_request ::
  "(tool_execution_request \<Rightarrow> string) \<Rightarrow> tool_execution_request \<Rightarrow> protocol_error + unit" where
  "validate_tool_request json q =
     andThen (ensure (length (json q) \<le> MAX_PROTOCOL_MESSAGE_BYTES) (failure Message_Too_Large)) (\<lambda>_.
     andThen (protocol_schema (te_schema q) TOOL_EXECUTION_SCHEMA) (\<lambda>_.
     andThen (protocol_version_is (te_protocol_version q)) (\<lambda>_.
     andThen (protocol_identifier (te_request_id q)) (\<lambda>_.
     andThen (protocol_identifier (te_session_id q)) (\<lambda>_.
     andThen (protocol_identifier (te_run_id q)) (\<lambda>_.
     ensure (\<not> (te_sequence q = 0 \<or> te_command q = [] \<or> 16384 < length (te_command q)
        \<or> char_of (0 :: nat) \<in> set (te_command q) \<or> \<not> (1 \<le> te_timeout_ms q \<and> te_timeout_ms q \<le> 30000)))
       (failure Invalid_Request)))))))"

definition validate_tool_result :: "tool_execution_result \<Rightarrow> protocol_error + unit" where
  "validate_tool_result r =
     ensure (\<not> (MAX_TOOL_OUTPUT_BYTES < length (tr_stdout r) \<or> MAX_TOOL_OUTPUT_BYTES < length (tr_stderr r)))
       (failure Message_Too_Large)"

end
