(* ===== verification/Broker.thy ===== *)
theory Broker
  imports Protocol_Messages
begin

section \<open>What the broker components share\<close>

text \<open>
  skills-core/src/broker.rs and broker/audit.rs: the refusals of the broker, the identifiers
  that may name a durable record, and the append-only operator record of decisions. The cause
  inside an error of another module is a string here. Appending bytes durably to the operator
  record is the work of the file system: an argument on a world of its own.
\<close>

subsection \<open>Refusals\<close>

datatype broker_error = Recovery string | Waiver_Refused string | Provider_Extension string
  | Tracker_Configuration string | Admission_Evidence string | Conformance_Report string
  | Supply_Posture string | Posture_Invalid string | Workspace_Unavailable string
  | Attention_Unavailable string | Policy protocol_error | Installation | State_In_Use
  | State_Identity_Mismatch | State_Identity_Missing | State_Identity_Invalid
  | Installation_Authority string | Verification string | Unknown_Authorization
  | Authorization_Expired | Request_Mismatch | Controller_Mismatch | Duplicate_Authorization
  | Identity_Exhausted identity_exhaustion | Invalid_Grant | Invalid_Pool
  | Receipt_Refused receipt_error | Receipt_Unauthorized | Storage string | Transport string
  | Tracker_Invocation string | Beads_Budget_Exhausted | Provider_Budget_Exhausted
  | Provider_Run_Held string | Provider_Unavailable

definition corrupt :: "string \<Rightarrow> broker_error" where
  "corrupt reason = Storage reason"

definition is_record_identifier :: "string \<Rightarrow> bool" where
  "is_record_identifier i = (i \<noteq> [] \<and> length i \<le> 128 \<and> list_all identifier_byte i)"

definition record_name :: "string \<Rightarrow> broker_error + string" where
  "record_name i = (if is_record_identifier i then Inr (i @ ''.json'') else Inl Invalid_Grant)"

subsection \<open>The operator record\<close>

datatype audit_decision = State_Identity_Adoption u32 u32 u32 u32 u32
  | Authorization_Consumed | Authorization_Refused error_code
  | Receipt_Stored u64 | Receipt_Refused_As error_code
  | Tool_Granted u64 u32 u64 "u32 option"
  | Tool_Revocation_Requested u64 | Tool_Revoked u64
  | Capability_Was_Denied
  | Effect_Commit_Intent "u64 option" u64
  | Effect_Finished "u64 option" u64 bool
  | Capabilities_Revoked | Session_Output_Tainted | Capabilities_Revocation_Requested
  | Effect_Outcome_Unknown u64

record audit_entry =
  ae_at_ms :: u64
  ae_session_id :: string
  ae_run_id :: string
  ae_authorization_id :: string
  ae_identity_slot :: u32
  ae_decision :: audit_decision

definition audit_record ::
  "(audit_entry \<Rightarrow> 'w \<Rightarrow> (broker_error + unit) \<times> 'w) \<Rightarrow> audit_entry \<Rightarrow> 'w \<Rightarrow> (broker_error + unit) \<times> 'w" where
  "audit_record store entry w =
     (if \<not> is_record_identifier (ae_session_id entry) \<or> \<not> is_record_identifier (ae_run_id entry)
         \<or> \<not> is_record_identifier (ae_authorization_id entry)
      then (Inl Invalid_Grant, w) else store entry w)"

end
