(* ===== verification/Delegation.thy ===== *)
theory Delegation
  imports Broker Record_Store
begin

section \<open>Delegated tool authority\<close>

text \<open>
  skills-core/src/broker/delegation.rs and delegation/state.rs: one Agent lifetime owns an
  approved command scope with an optional budget of effects. The Agent may reserve part of it
  for a tool process; every effect of the Agent or of a tool is admitted (which spends one unit
  and one sequence number) and later committed, with the authority checked again immediately
  before the irreversible start. The kernel, the clocks and the durable append are the record
  \<open>host\<close> of arguments on a world of their own; a process and a channel are known by the number
  of the shared object. The mutex is the flag \<open>poisoned\<close>: a panic while it is held closes the
  owner for good.
\<close>

subsection \<open>Data\<close>

record kernel_credentials =
  kc_pid :: u32
  kc_uid :: u32
  kc_gid :: u32

record bound_process =
  bp_process :: nat
  bp_credentials :: kernel_credentials
  bp_channel :: nat
  bp_peer :: kernel_credentials

record capability_binding =
  cb_session_id :: string
  cb_run_id :: string
  cb_channel_id :: string
  cb_envelope_revision :: u64
  cb_identity_slot :: u32
  cb_assigned_uid :: u32
  cb_assigned_gid :: u32
  cb_agent_pid :: u32

record command_scope =
  command_digest :: digest
  timeout_ms :: u32
  uses :: "u32 option"

record delegation_policy =
  dp_authorization_id :: string
  dp_scope :: command_scope
  dp_allow_delegation :: bool
  dp_expires_at :: nat

record tool_grant_request =
  tg_session_id :: string
  tg_run_id :: string
  tg_envelope_revision :: u64
  tg_sequence :: u64
  tg_scope :: command_scope
  tg_expires_at :: nat

datatype delegation_error = Invalid_Capability_Request | Identity_Mismatch | Delegation_Denied
  | Scope_Mismatch | Capability_Expired | Revoked | Replayed_Sequence | Budget_Exhausted
  | Effect_Failed | Identity_Unavailable string | Audit broker_error
  | Completion_Audit "delegation_error + tool_execution_result" broker_error
  | Owner_Unavailable

definition uses_within :: "u32 option \<Rightarrow> u32 option \<Rightarrow> bool" where
  "uses_within requested available =
     (case available of None \<Rightarrow> True
      | Some limit \<Rightarrow> (case requested of None \<Rightarrow> False | Some n \<Rightarrow> n \<le> limit))"

definition scope_valid :: "command_scope \<Rightarrow> bool" where
  "scope_valid s = (1 \<le> timeout_ms s \<and> timeout_ms s \<le> 30000
     \<and> (case uses s of None \<Rightarrow> True | Some n \<Rightarrow> 1 \<le> n \<and> n \<le> 64))"

definition is_within :: "command_scope \<Rightarrow> command_scope \<Rightarrow> bool" where
  "is_within s parent = (scope_valid s \<and> scope_valid parent \<and> command_digest s = command_digest parent
     \<and> timeout_ms s \<le> timeout_ms parent \<and> uses_within (uses s) (uses parent))"

definition permits :: "(string \<Rightarrow> u8 list) \<Rightarrow> command_scope \<Rightarrow> tool_execution_request \<Rightarrow> bool" where
  "permits sha s q = (command_digest s = digest_of sha (te_command q) \<and> te_timeout_ms q \<le> timeout_ms s)"

record grant =
  target :: bound_process
  gr_scope :: command_scope
  gr_expires_at :: nat
  gr_remaining :: "u32 option"
  gr_sequence :: u64

record delegation_state =
  binding :: capability_binding
  policy :: delegation_policy
  agent_process :: bound_process
  grants :: "(u64 \<times> grant) list"
  remaining :: "u32 option"
  agent_sequence :: u64
  grant_sequence :: u64
  active :: bool

record pending_effect =
  pe_grant :: "u64 option"
  pe_request :: tool_execution_request
  pe_sender :: kernel_credentials

record committed_effect =
  ce_grant :: "u64 option"
  ce_sequence :: u64

text \<open>The request inside an authenticated packet; \<open>None\<close> is a packet of any other kind.\<close>

record authenticated_packet =
  ap_request :: "tool_execution_request option"
  ap_peer :: kernel_credentials
  ap_message :: kernel_credentials

subsection \<open>The host\<close>

record 'w host =
  sha256 :: "string \<Rightarrow> u8 list"
  tool_json :: "tool_execution_request \<Rightarrow> string"
  instant :: "'w \<Rightarrow> nat \<times> 'w"
  epoch_ms :: "'w \<Rightarrow> u64 option \<times> 'w"
  process_valid :: "nat \<Rightarrow> 'w \<Rightarrow> (string + bool) \<times> 'w"
  is_closed :: "nat \<Rightarrow> 'w \<Rightarrow> bool \<times> 'w"
  close_channel :: "nat \<Rightarrow> 'w \<Rightarrow> 'w"
  append_audit :: "audit_entry \<Rightarrow> 'w \<Rightarrow> (broker_error + unit) \<times> 'w"

record 'w owner =
  own :: delegation_state
  poisoned :: bool
  world :: 'w

type_synonym ('w, 'a) owner_op = "('w owner, delegation_error, 'a) op"

definition observe :: "('w \<Rightarrow> 'a \<times> 'w) \<Rightarrow> ('w, 'a) owner_op" where
  "observe f s = (case f (world s) of (a, w) \<Rightarrow> (Inr a, s\<lparr>world := w\<rparr>))"

definition change_own :: "(delegation_state \<Rightarrow> delegation_state) \<Rightarrow> ('w, unit) owner_op" where
  "change_own f s = (Inr (), s\<lparr>own := f (own s)\<rparr>)"

definition refuse_unless :: "bool \<Rightarrow> delegation_error \<Rightarrow> ('w, unit) owner_op" where
  "refuse_unless b e = pure (ensure b e)"

subsection \<open>Closing and recording\<close>

definition close_channels :: "'w host \<Rightarrow> 'w owner \<Rightarrow> 'w owner" where
  "close_channels h s = s\<lparr>own := (own s)\<lparr>active := False\<rparr>,
     world := fold (close_channel h)
       (bp_channel (agent_process (own s)) # map (\<lambda>(_, g). bp_channel (target g)) (grants (own s))) (world s)\<rparr>"

definition record_decision :: "'w host \<Rightarrow> audit_decision \<Rightarrow> ('w, unit) owner_op" where
  "record_decision h decision =
     bind_op (observe (epoch_ms h)) (\<lambda>clock.
     bind_op (pure (ok_or clock Owner_Unavailable)) (\<lambda>at_ms.
     bind_op (\<lambda>s. observe (audit_record (append_audit h)
        \<lparr>ae_at_ms = at_ms, ae_session_id = cb_session_id (binding (own s)), ae_run_id = cb_run_id (binding (own s)),
          ae_authorization_id = dp_authorization_id (policy (own s)),
          ae_identity_slot = cb_identity_slot (binding (own s)), ae_decision = decision\<rparr>) s) (\<lambda>result.
     case result of Inl e \<Rightarrow> (\<lambda>s. (Inl (Audit e), close_channels h s)) | Inr _ \<Rightarrow> pure (Inr ()))))"

definition deny :: "'w host \<Rightarrow> delegation_error \<Rightarrow> ('w, 'a) owner_op" where
  "deny h e = bind_op (record_decision h Capability_Was_Denied) (\<lambda>_. pure (Inl e))"

definition revoke_state :: "'w host \<Rightarrow> ('w, unit) owner_op" where
  "revoke_state h s =
     (if \<not> active (own s) then (Inr (), s) else record_decision h Capabilities_Revoked (close_channels h s))"

text \<open>\<open>with_owner\<close> is the guard of \<open>lock\<close>: a poisoned owner closes its channels and refuses.\<close>

definition with_owner :: "'w host \<Rightarrow> ('w, 'a) owner_op \<Rightarrow> ('w, 'a) owner_op" where
  "with_owner h m s = (if poisoned s then (Inl Owner_Unavailable, close_channels h s) else m s)"

subsection \<open>Checks\<close>

definition check_process :: "'w host \<Rightarrow> bound_process \<Rightarrow> kernel_credentials \<Rightarrow> ('w, unit) owner_op" where
  "check_process h b sender =
     bind_op (refuse_unless (bp_credentials b = sender \<and> bp_peer b = sender) Identity_Mismatch) (\<lambda>_.
     bind_op (observe (is_closed h (bp_channel b))) (\<lambda>closed.
     if closed then pure (Inl Revoked)
     else bind_op (observe (process_valid h (bp_process b))) (\<lambda>result.
          bind_op (pure (map_err Identity_Unavailable result)) (\<lambda>alive.
          refuse_unless alive Revoked))))"

definition check_parent :: "'w host \<Rightarrow> ('w, unit) owner_op" where
  "check_parent h s =
     (if \<not> active (own s) then (Inl Revoked, s)
      else let agent = agent_process (own s) in
        case check_process h agent (bp_credentials agent) s of
          (Inl e, s') \<Rightarrow> bind_op (revoke_state h) (\<lambda>_. pure (Inl e)) s'
        | (Inr _, s') \<Rightarrow>
            bind_op (observe (instant h)) (\<lambda>t s.
              if dp_expires_at (policy (own s)) \<le> t
              then bind_op (revoke_state h) (\<lambda>_. pure (Inl Capability_Expired)) s
              else (Inr (), s)) s')"

definition same_binding :: "capability_binding \<Rightarrow> string \<Rightarrow> string \<Rightarrow> u64 \<Rightarrow> bool" where
  "same_binding b session_id run_id revision =
     (session_id = cb_session_id b \<and> run_id = cb_run_id b \<and> revision = cb_envelope_revision b)"

definition check_grant ::
  "'w host \<Rightarrow> kernel_credentials \<Rightarrow> tool_grant_request \<Rightarrow> bound_process \<Rightarrow> ('w, unit) owner_op" where
  "check_grant h sender q target_process =
     bind_op (check_parent h) (\<lambda>_.
     bind_op (\<lambda>s. check_process h (agent_process (own s)) sender s) (\<lambda>_.
     bind_op (\<lambda>s. refuse_unless (dp_allow_delegation (policy (own s))) Delegation_Denied s) (\<lambda>_.
     bind_op (\<lambda>s. refuse_unless (checked_add (grant_sequence (own s)) 1 = Some (tg_sequence q)) Replayed_Sequence s) (\<lambda>_.
     bind_op (\<lambda>s. refuse_unless (same_binding (binding (own s)) (tg_session_id q) (tg_run_id q) (tg_envelope_revision q)
        \<and> is_within (tg_scope q) (dp_scope (policy (own s)))
        \<and> \<not> dp_expires_at (policy (own s)) < tg_expires_at q) Scope_Mismatch s) (\<lambda>_.
     bind_op (observe (instant h)) (\<lambda>t.
     bind_op (refuse_unless (t < tg_expires_at q) Capability_Expired) (\<lambda>_.
     bind_op (\<lambda>s. refuse_unless (uses_within (uses (tg_scope q)) (remaining (own s))) Budget_Exhausted s) (\<lambda>_.
     bind_op (\<lambda>s. refuse_unless (\<not> (bp_credentials target_process = bp_credentials (agent_process (own s))
        \<or> list_ex (\<lambda>(_, g). bp_credentials (target g) = bp_credentials target_process) (grants (own s))))
        Identity_Mismatch s) (\<lambda>_.
     check_process h target_process (bp_credentials target_process))))))))))"

definition check_effect ::
  "'w host \<Rightarrow> u64 option \<Rightarrow> kernel_credentials \<Rightarrow> tool_execution_request \<Rightarrow> ('w, unit) owner_op" where
  "check_effect h holder sender q =
     bind_op (check_parent h) (\<lambda>_.
     bind_op (pure (map_err (\<lambda>_. Invalid_Capability_Request) (validate_tool_request (tool_json h) q))) (\<lambda>_.
     bind_op (\<lambda>s. refuse_unless (same_binding (binding (own s)) (te_session_id q) (te_run_id q) (te_envelope_revision q))
        Scope_Mismatch s) (\<lambda>_.
     bind_op (case holder of
         Some i \<Rightarrow>
           bind_op (\<lambda>s. (ok_or (map_of (grants (own s)) i) Revoked, s)) (\<lambda>g.
           bind_op (check_process h (target g) sender) (\<lambda>_.
           bind_op (observe (instant h)) (\<lambda>t.
           bind_op (refuse_unless (t < gr_expires_at g) Capability_Expired) (\<lambda>_.
           pure (Inr (gr_scope g))))))
       | None \<Rightarrow>
           bind_op (\<lambda>s. check_process h (agent_process (own s)) sender s) (\<lambda>_ s.
           (Inr (dp_scope (policy (own s))), s))) (\<lambda>scope.
     refuse_unless (permits (sha256 h) scope q) Scope_Mismatch))))"

subsection \<open>Operations\<close>

definition new_delegation ::
  "'w host \<Rightarrow> capability_binding \<Rightarrow> delegation_policy \<Rightarrow> bound_process \<Rightarrow> 'w
     \<Rightarrow> (delegation_error + 'w owner) \<times> 'w" where
  "new_delegation h b p agent w =
     (let fresh = \<lparr>own = \<lparr>binding = b, policy = p, agent_process = agent, grants = [],
            remaining = uses (dp_scope p), agent_sequence = 0, grant_sequence = 0, active = True\<rparr>,
            poisoned = False, world = w\<rparr>;
          credentials = bp_credentials agent
      in case bind_op (refuse_unless (is_record_identifier (cb_session_id b) \<and> is_record_identifier (cb_run_id b)
             \<and> is_record_identifier (cb_channel_id b) \<and> is_record_identifier (dp_authorization_id p)
             \<and> scope_valid (dp_scope p) \<and> cb_agent_pid b = kc_pid credentials
             \<and> cb_assigned_uid b = kc_uid credentials \<and> cb_assigned_gid b = kc_gid credentials)
             Invalid_Capability_Request) (\<lambda>_.
           bind_op (check_process h agent credentials) (\<lambda>_.
           bind_op (observe (instant h)) (\<lambda>t.
           refuse_unless (t < dp_expires_at p) Capability_Expired))) fresh of
         (Inl e, s) \<Rightarrow> (Inl e, world s)
       | (Inr _, s) \<Rightarrow> (Inr s, world s))"

text \<open>Insertion into the map of grants, whose entries are kept in the order of their keys.\<close>

fun put_grant :: "u64 \<Rightarrow> grant \<Rightarrow> (u64 \<times> grant) list \<Rightarrow> (u64 \<times> grant) list" where
  "put_grant i g [] = [(i, g)]"
| "put_grant i g ((j, g') # gs) =
     (if i < j then (i, g) # (j, g') # gs else if i = j then (i, g) # gs else (j, g') # put_grant i g gs)"

definition install_grant :: "tool_grant_request \<Rightarrow> bound_process \<Rightarrow> delegation_state \<Rightarrow> delegation_state" where
  "install_grant q target_process st = st\<lparr>
     remaining := (case (remaining st, uses (tg_scope q)) of (Some r, Some n) \<Rightarrow> Some (r - n) | (r, _) \<Rightarrow> r),
     grant_sequence := tg_sequence q,
     grants := put_grant (tg_sequence q) \<lparr>target = target_process, gr_scope = tg_scope q,
       gr_expires_at = tg_expires_at q, gr_remaining = uses (tg_scope q), gr_sequence = 0\<rparr> (grants st)\<rparr>"

definition close_target :: "'w host \<Rightarrow> bound_process \<Rightarrow> 'w owner \<Rightarrow> 'w owner" where
  "close_target h b s = s\<lparr>world := close_channel h (bp_channel b) (world s)\<rparr>"

definition delegate ::
  "'w host \<Rightarrow> kernel_credentials \<Rightarrow> tool_grant_request \<Rightarrow> bound_process \<Rightarrow> ('w, u64) owner_op" where
  "delegate h sender q target_process = with_owner h (\<lambda>s.
     case check_grant h sender q target_process s of
       (Inl e, s1) \<Rightarrow> deny h e (close_target h target_process s1)
     | (Inr _, s1) \<Rightarrow>
         (case record_decision h (Tool_Granted (tg_sequence q) (kc_pid (bp_credentials target_process))
                (tg_envelope_revision q) (uses (tg_scope q))) s1 of
            (Inl e, s2) \<Rightarrow> (Inl e, close_target h target_process s2)
          | (Inr _, s2) \<Rightarrow>
              (case check_grant h sender q target_process s2 of
                 (Inl e, s3) \<Rightarrow> deny h e (close_target h target_process s3)
               | (Inr _, s3) \<Rightarrow>
                   bind_op (change_own (install_grant q target_process)) (\<lambda>_. pure (Inr (tg_sequence q))) s3)))"

definition spend :: "u32 option \<Rightarrow> u32 option" where
  "spend = map_option (\<lambda>n. n - 1)"

definition holder_budget :: "delegation_state \<Rightarrow> u64 option \<Rightarrow> delegation_error + u32 option \<times> u64" where
  "holder_budget st holder =
     (case holder of
        Some i \<Rightarrow> andThen (ok_or (map_of (grants st) i) Revoked) (\<lambda>g. Inr (gr_remaining g, gr_sequence g))
      | None \<Rightarrow> Inr (remaining st, agent_sequence st))"

definition spend_holder :: "u64 option \<Rightarrow> u64 \<Rightarrow> delegation_state \<Rightarrow> delegation_state" where
  "spend_holder holder sequence st =
     (case holder of
        Some i \<Rightarrow> st\<lparr>grants := map (\<lambda>(j, g). if j = i
            then (j, g\<lparr>gr_remaining := spend (gr_remaining g), gr_sequence := sequence\<rparr>) else (j, g)) (grants st)\<rparr>
      | None \<Rightarrow> st\<lparr>remaining := spend (remaining st), agent_sequence := sequence\<rparr>)"

definition admit_effect ::
  "'w host \<Rightarrow> u64 option \<Rightarrow> authenticated_packet \<Rightarrow> ('w, pending_effect) owner_op" where
  "admit_effect h holder packet =
     bind_op (pure (ok_or (ap_request packet) Invalid_Capability_Request)) (\<lambda>q.
     bind_op (refuse_unless (ap_peer packet = ap_message packet) Identity_Mismatch) (\<lambda>_.
     bind_op (check_effect h holder (ap_message packet) q) (\<lambda>_.
     bind_op (\<lambda>s. (holder_budget (own s) holder, s)) (\<lambda>(left, sequence).
     bind_op (refuse_unless (checked_add sequence 1 = Some (te_sequence q)) Replayed_Sequence) (\<lambda>_.
     bind_op (refuse_unless (left \<noteq> Some 0) Budget_Exhausted) (\<lambda>_.
     bind_op (change_own (spend_holder holder (te_sequence q))) (\<lambda>_.
     pure (Inr \<lparr>pe_grant = holder, pe_request = q, pe_sender = ap_message packet\<rparr>))))))))"

definition prepare ::
  "'w host \<Rightarrow> u64 option \<Rightarrow> authenticated_packet \<Rightarrow> ('w, pending_effect) owner_op" where
  "prepare h holder packet = with_owner h (\<lambda>s.
     case admit_effect h holder packet s of
       (Inl e, s') \<Rightarrow> deny h e s'
     | (Inr p, s') \<Rightarrow> (Inr p, s'))"

text \<open>
  The part of \<open>PendingEffect::commit\<close> before the effect is started. \<open>apply\<close> is called exactly
  when it succeeds.
\<close>

definition commit_gate :: "'w host \<Rightarrow> pending_effect \<Rightarrow> ('w, unit) owner_op" where
  "commit_gate h p s =
     (case check_effect h (pe_grant p) (pe_sender p) (pe_request p) s of
        (Inl e, s1) \<Rightarrow> deny h e s1
      | (Inr _, s1) \<Rightarrow>
          (case record_decision h (Effect_Commit_Intent (pe_grant p) (te_sequence (pe_request p))) s1 of
             (Inl e, s2) \<Rightarrow> (Inl e, s2)
           | (Inr _, s2) \<Rightarrow>
               (case check_effect h (pe_grant p) (pe_sender p) (pe_request p) s2 of
                  (Inl e, s3) \<Rightarrow> deny h e s3
                | (Inr _, s3) \<Rightarrow> (Inr (), s3))))"

definition finish ::
  "'w host \<Rightarrow> committed_effect \<Rightarrow> (delegation_error + tool_execution_result)
     \<Rightarrow> ('w, tool_execution_result) owner_op" where
  "finish h c ended = with_owner h (\<lambda>s.
     case record_decision h (Effect_Finished (ce_grant c) (ce_sequence c) (is_ok ended)) s of
       (Inr _, s') \<Rightarrow> (ended, s')
     | (Inl (Audit source), s') \<Rightarrow> (Inl (Completion_Audit ended source), s')
     | (Inl e, s') \<Rightarrow> (Inl e, s'))"

definition commit ::
  "'w host \<Rightarrow> (tool_execution_request \<Rightarrow> 'w \<Rightarrow> (delegation_error + 't) \<times> 'w) \<Rightarrow> pending_effect
     \<Rightarrow> ('w, 't \<times> committed_effect) owner_op" where
  "commit h apply p s =
     (case with_owner h (commit_gate h p) s of
        (Inl e, s1) \<Rightarrow> (Inl e, s1)
      | (Inr _, s1) \<Rightarrow>
          (case apply (pe_request p) (world s1) of
             (result, w) \<Rightarrow>
               let s2 = s1\<lparr>world := w\<rparr>;
                   committed = \<lparr>ce_grant = pe_grant p, ce_sequence = te_sequence (pe_request p)\<rparr>
               in case result of
                    Inr t \<Rightarrow> (Inr (t, committed), s2)
                  | Inl e \<Rightarrow>
                      (case finish h committed (Inl e) s2 of
                         (Inl e', s3) \<Rightarrow> (Inl e', s3)
                       | (Inr _, s3) \<Rightarrow> (Inl Owner_Unavailable, s3))))"

definition revoke_delegation :: "'w host \<Rightarrow> ('w, unit) owner_op" where
  "revoke_delegation h = with_owner h (revoke_state h)"

end
