(* ===== verification/Delegation_Safety.thy ===== *)
theory Delegation_Safety
  imports Delegation
begin

section \<open>Delegated authority: what every operation keeps\<close>

text \<open>
  An operation of the owner that ends in an error leaves the authority as it was or closes it
  (\<open>hushed\<close>); a check that succeeds leaves it untouched (\<open>calm\<close>). What remains are the two
  updates, installing a grant and spending a unit, and for these the accounting invariant:
  the budget that is left, the effects admitted and the units reserved for grants add up to the
  approved budget.
\<close>

subsection \<open>Quiet operations\<close>

definition hushed :: "'w owner \<Rightarrow> 'w owner \<Rightarrow> bool" where
  "hushed s s' \<longleftrightarrow> (own s' = own s \<or> own s' = (own s)\<lparr>active := False\<rparr>) \<and> poisoned s' = poisoned s"

definition calm :: "'w owner \<Rightarrow> ('e + 'a) \<times> 'w owner \<Rightarrow> bool" where
  "calm s r \<longleftrightarrow> hushed s (snd r) \<and> (is_ok (fst r) \<longrightarrow> own (snd r) = own s)"

lemma hushed_refl [simp]: "hushed s s"
  by (simp add: hushed_def)

lemma hushed_trans: "hushed s t \<Longrightarrow> hushed t u \<Longrightarrow> hushed s u"
  by (auto simp: hushed_def)

lemma hushed_world [simp]: "hushed s (t\<lparr>world := w\<rparr>) \<longleftrightarrow> hushed s t"
  by (simp add: hushed_def)

lemma hushed_own: "own t = own s \<Longrightarrow> poisoned t = poisoned s \<Longrightarrow> hushed s t"
  by (simp add: hushed_def)

lemma hushed_close [simp]: "hushed s (close_channels h s)"
  by (simp add: hushed_def close_channels_def)

lemma hushed_close_target [simp]: "hushed s (close_target h b t) \<longleftrightarrow> hushed s t"
  by (simp add: hushed_def close_target_def)

lemma calmD: "calm s x \<Longrightarrow> x = (r, t) \<Longrightarrow> hushed s t"
  by (simp add: calm_def)

lemma calm_snd: "calm s x \<Longrightarrow> hushed s (snd x)"
  by (simp add: calm_def)

lemma calm_Inr: "calm s x \<Longrightarrow> x = (Inr a, t) \<Longrightarrow> own t = own s \<and> poisoned t = poisoned s"
  by (auto simp: calm_def hushed_def)

lemma calm_pure [simp]: "calm s (pure r s)"
  by (simp add: calm_def pure_def)

lemma calm_same [simp]: "calm s (r, s)"
  by (simp add: calm_def)

lemma calm_observe [simp]: "calm s (observe f s)"
  by (simp add: calm_def observe_def hushed_def split: prod.split)

lemma calm_refuse [simp]: "calm s (refuse_unless b e s)"
  by (simp add: refuse_unless_def)

lemma calm_bind [intro]:
  assumes m: "calm s (m s)" and k: "\<And>a t. m s = (Inr a, t) \<Longrightarrow> calm t (k a t)"
  shows "calm s (bind_op m k s)"
proof -
  obtain r t where mt: "m s = (r, t)" by (cases "m s")
  show ?thesis
  proof (cases r)
    case (Inl e)
    with m mt show ?thesis by (simp add: bind_op_def calm_def)
  next
    case (Inr a)
    with calm_Inr [OF m] mt have same: "own t = own s" "poisoned t = poisoned s" by simp_all
    from Inr k mt have "calm t (k a t)" by simp
    with same Inr mt show ?thesis by (simp add: bind_op_def calm_def hushed_def)
  qed
qed

lemma calm_end: "hushed s (snd (m s)) \<Longrightarrow> calm s (bind_op m (\<lambda>_. pure (Inl e)) s)"
  by (cases "m s"; cases "fst (m s)") (auto simp: bind_op_def calm_def pure_def)

lemma calm_close [simp]: "calm s (Inl e, close_channels h s)"
  by (simp add: calm_def)

lemma calm_record [simp]: "calm s (record_decision h d s)"
  unfolding record_decision_def
  by (intro calm_bind) (simp_all split: sum.split)

lemma calm_deny [simp]: "calm s (deny h e s)"
  unfolding deny_def by (intro calm_bind) simp_all

lemma deny_Inl: "deny h e s = (r, t) \<Longrightarrow> \<exists>e'. r = Inl e'"
  by (cases r) (auto simp: deny_def results)

lemma hushed_deny: "deny h e s = (r, t) \<Longrightarrow> hushed s t"
  by (rule calmD [OF calm_deny])

lemma hushed_record: "record_decision h d s = (r, t) \<Longrightarrow> hushed s t"
  by (rule calmD [OF calm_record])

lemma record_Inr: "record_decision h d s = (Inr a, t) \<Longrightarrow> own t = own s \<and> poisoned t = poisoned s"
  by (rule calm_Inr [OF calm_record])

lemma hushed_revoke: "hushed s (snd (revoke_state h s))"
proof (cases "active (own s)")
  case True
  have "hushed (close_channels h s) (snd (record_decision h Capabilities_Revoked (close_channels h s)))"
    by (rule calm_snd) simp
  with hushed_close hushed_trans have "hushed s (snd (record_decision h Capabilities_Revoked (close_channels h s)))"
    by blast
  with True show ?thesis by (simp add: revoke_state_def)
next
  case False
  then show ?thesis by (simp add: revoke_state_def)
qed

lemma revoke_inactive: "\<not> active (own (snd (revoke_state h s)))"
proof (cases "active (own s)")
  case True
  have "hushed (close_channels h s) (snd (record_decision h Capabilities_Revoked (close_channels h s)))"
    by (rule calm_snd) simp
  then have "\<not> active (own (snd (record_decision h Capabilities_Revoked (close_channels h s))))"
    by (auto simp: hushed_def close_channels_def)
  with True show ?thesis by (simp add: revoke_state_def)
next
  case False
  then show ?thesis by (simp add: revoke_state_def)
qed

lemma calm_process [simp]: "calm s (check_process h b sender s)"
  unfolding check_process_def by (intro calm_bind) (auto intro!: calm_bind)

lemma calm_parent [simp]: "calm s (check_parent h s)"
proof (cases "active (own s)")
  case False
  then show ?thesis by (simp add: check_parent_def)
next
  case True
  obtain r t where p: "check_process h (agent_process (own s)) (bp_credentials (agent_process (own s))) s = (r, t)"
    by (cases "check_process h (agent_process (own s)) (bp_credentials (agent_process (own s))) s")
  from calmD [OF calm_process p] have hush: "hushed s t" .
  show ?thesis
  proof (cases r)
    case (Inl e)
    have "calm t (bind_op (revoke_state h) (\<lambda>_. pure (Inl e)) t)"
      by (rule calm_end) (rule hushed_revoke)
    then have "calm s (bind_op (revoke_state h) (\<lambda>_. pure (Inl e)) t)"
      using hush hushed_trans by (auto simp: calm_def bind_op_def pure_def split: prod.splits sum.splits)
    with True p Inl show ?thesis by (simp add: check_parent_def Let_def)
  next
    case (Inr u)
    from calm_Inr [OF calm_process p [unfolded Inr]] have same: "own t = own s" "poisoned t = poisoned s" by simp_all
    let ?k = "\<lambda>now s. if dp_expires_at (policy (own s)) \<le> now
              then bind_op (revoke_state h) (\<lambda>_. pure (Inl Capability_Expired)) s else (Inr (), s)"
    have "calm t (bind_op (observe (instant h)) ?k t)"
      by (rule calm_bind) (auto intro!: calm_end hushed_revoke)
    with same have "calm s (bind_op (observe (instant h)) ?k t)" by (simp add: calm_def hushed_def)
    with True p Inr show ?thesis by (simp add: check_parent_def Let_def)
  qed
qed

lemma calm_grant_check [simp]: "calm s (check_grant h sender q b s)"
  unfolding check_grant_def by (intro calm_bind) simp_all

lemma calm_effect_check [simp]: "calm s (check_effect h holder sender q s)"
  unfolding check_effect_def
  by (intro calm_bind) (auto intro!: calm_bind split: option.split)


subsection \<open>What a successful check establishes\<close>

lemma refuse_unless_Inr [results]: "refuse_unless b e s = (Inr u, t) \<longleftrightarrow> b \<and> t = s"
  by (auto simp: refuse_unless_def pure_def ensure_def)

lemma refuse_unless_Inl [results]: "refuse_unless b e s = (Inl e', t) \<longleftrightarrow> \<not> b \<and> e' = e \<and> t = s"
  by (auto simp: refuse_unless_def pure_def ensure_def)

lemma map_err_Inr2: "Inr a = map_err f r \<longleftrightarrow> r = Inr a"
  by (metis map_err_Inr)

lemma observe_own: "observe f s = (Inr a, t) \<Longrightarrow> own t = own s"
  by (auto simp: observe_def split: prod.splits)

lemma process_own: "check_process h b sender s = (Inr a, t) \<Longrightarrow> own t = own s"
  using calm_Inr [OF calm_process] by blast

lemma parent_Inr:
  assumes "check_parent h s = (Inr a, t)"
  shows "active (own s) \<and> own t = own s"
proof -
  have "own t = own s" using calm_Inr [OF calm_parent assms] by simp
  moreover have "active (own s)" using assms by (auto simp: check_parent_def split: if_splits)
  ultimately show ?thesis by simp
qed

definition grant_ok :: "delegation_state \<Rightarrow> tool_grant_request \<Rightarrow> bool" where
  "grant_ok st q \<longleftrightarrow> active st \<and> dp_allow_delegation (policy st)
     \<and> unat (tg_sequence q) = Suc (unat (grant_sequence st))
     \<and> same_binding (binding st) (tg_session_id q) (tg_run_id q) (tg_envelope_revision q)
     \<and> is_within (tg_scope q) (dp_scope (policy st)) \<and> tg_expires_at q \<le> dp_expires_at (policy st)
     \<and> uses_within (uses (tg_scope q)) (remaining st)"

definition effect_ok :: "'w host \<Rightarrow> delegation_state \<Rightarrow> u64 option \<Rightarrow> tool_execution_request \<Rightarrow> bool" where
  "effect_ok h st holder q \<longleftrightarrow> active st \<and> is_ok (validate_tool_request (tool_json h) q)
     \<and> same_binding (binding st) (te_session_id q) (te_run_id q) (te_envelope_revision q)
     \<and> (case holder of None \<Rightarrow> permits (sha256 h) (dp_scope (policy st)) q
        | Some i \<Rightarrow> \<exists>g. map_of (grants st) i = Some g \<and> permits (sha256 h) (gr_scope g) q)"

lemma check_grant_Inr:
  assumes "check_grant h sender q b s = (Inr a, t)"
  shows "grant_ok (own s) q \<and> own t = own s \<and> poisoned t = poisoned s"
proof -
  have same: "own t = own s \<and> poisoned t = poisoned s" by (rule calm_Inr [OF calm_grant_check assms])
  from assms have "grant_ok (own s) q"
    unfolding check_grant_def grant_ok_def
    by (auto simp: results word_results dest!: parent_Inr process_own observe_own)
  with same show ?thesis by simp
qed

lemma check_effect_Inr:
  assumes "check_effect h holder sender q s = (Inr a, t)"
  shows "effect_ok h (own s) holder q \<and> own t = own s \<and> poisoned t = poisoned s"
proof -
  have same: "own t = own s \<and> poisoned t = poisoned s" by (rule calm_Inr [OF calm_effect_check assms])
  from assms have "effect_ok h (own s) holder q"
    unfolding check_effect_def effect_ok_def
    by (cases holder) (auto simp: results map_err_Inr2 dest!: parent_Inr process_own observe_own)
  with same show ?thesis by simp
qed

subsection \<open>What every operation does to the authority\<close>

lemma with_owner_cases:
  assumes "with_owner h m s = (r, t)"
  obtains "poisoned s" "r = Inl Owner_Unavailable" "t = close_channels h s" | "\<not> poisoned s" "m s = (r, t)"
  using assms by (auto simp: with_owner_def split: if_splits)

lemma delegate_cases:
  assumes "delegate h sender q b s = (r, t)"
  shows "((\<exists>e. r = Inl e) \<and> hushed s t)
    \<or> (r = Inr (tg_sequence q) \<and> grant_ok (own s) q \<and> own t = install_grant q b (own s) \<and> poisoned t = poisoned s)"
  using assms unfolding delegate_def
proof (rule with_owner_cases)
  assume "r = Inl Owner_Unavailable" "t = close_channels h s"
  then show ?thesis by simp
next
  assume run: "(case check_grant h sender q b s of
       (Inl e, s1) \<Rightarrow> deny h e (close_target h b s1)
     | (Inr _, s1) \<Rightarrow>
         (case record_decision h (Tool_Granted (tg_sequence q) (kc_pid (bp_credentials b))
                (tg_envelope_revision q) (uses (tg_scope q))) s1 of
            (Inl e, s2) \<Rightarrow> (Inl e, close_target h b s2)
          | (Inr _, s2) \<Rightarrow>
              (case check_grant h sender q b s2 of
                 (Inl e, s3) \<Rightarrow> deny h e (close_target h b s3)
               | (Inr _, s3) \<Rightarrow>
                   bind_op (change_own (install_grant q b)) (\<lambda>_. pure (Inr (tg_sequence q))) s3))) = (r, t)"
  have denied: "(\<exists>e. r = Inl e) \<and> hushed s t" if "deny h e (close_target h b u) = (r, t)" "hushed s u" for e u
    using deny_Inl [OF that(1)] hushed_deny [OF that(1)] that(2) hushed_trans [of s "close_target h b u"] by simp
  obtain r1 s1 where c1: "check_grant h sender q b s = (r1, s1)" by (cases "check_grant h sender q b s")
  note h1 = calmD [OF calm_grant_check c1]
  show ?thesis
  proof (cases r1)
    case (Inl e)
    with run c1 denied h1 show ?thesis by simp
  next
    case (Inr u1)
    note same1 = check_grant_Inr [OF c1 [unfolded Inr]]
    let ?d = "Tool_Granted (tg_sequence q) (kc_pid (bp_credentials b)) (tg_envelope_revision q) (uses (tg_scope q))"
    obtain r2 s2 where c2: "record_decision h ?d s1 = (r2, s2)" by (cases "record_decision h ?d s1")
    note h2 = hushed_trans [OF h1 hushed_record [OF c2]]
    show ?thesis
    proof (cases r2)
      case (Inl e)
      with run c1 \<open>r1 = Inr u1\<close> c2 h2 show ?thesis by auto
    next
      case (Inr u2)
      note same2 = record_Inr [OF c2 [unfolded Inr]]
      obtain r3 s3 where c3: "check_grant h sender q b s2 = (r3, s3)" by (cases "check_grant h sender q b s2")
      note h3 = hushed_trans [OF h2 calmD [OF calm_grant_check c3]]
      show ?thesis
      proof (cases r3)
        case (Inl e)
        with run c1 \<open>r1 = Inr u1\<close> c2 \<open>r2 = Inr u2\<close> c3 denied h3 show ?thesis by simp
      next
        case (Inr u3)
        from check_grant_Inr [OF c3 [unfolded Inr]] same1 same2 run c1 \<open>r1 = Inr u1\<close> c2 \<open>r2 = Inr u2\<close> c3 Inr
        show ?thesis by (auto simp: bind_op_def change_own_def pure_def)
      qed
    qed
  qed
qed


lemma admit_Inl: "admit_effect h holder packet s = (Inl e, t) \<Longrightarrow> hushed s t"
  unfolding admit_effect_def
  by (auto simp: results change_own_def split: prod.splits
      dest!: calm_Inr [OF calm_effect_check] calmD [OF calm_effect_check] intro: hushed_own)

lemma admit_Inr:
  assumes "admit_effect h holder packet s = (Inr p, t)"
  shows "pe_grant p = holder \<and> effect_ok h (own s) holder (pe_request p)
    \<and> (\<exists>left sequence. holder_budget (own s) holder = Inr (left, sequence) \<and> left \<noteq> Some 0
         \<and> unat (te_sequence (pe_request p)) = Suc (unat sequence))
    \<and> own t = spend_holder holder (te_sequence (pe_request p)) (own s) \<and> poisoned t = poisoned s"
  using assms unfolding admit_effect_def
  by (auto simp: results word_results change_own_def split: prod.splits
      dest!: check_effect_Inr)

lemma prepare_cases:
  assumes "prepare h holder packet s = (r, t)"
  shows "(\<forall>p. r \<noteq> Inr p) \<and> hushed s t
    \<or> (\<exists>p left sequence. r = Inr p \<and> pe_grant p = holder \<and> effect_ok h (own s) holder (pe_request p)
         \<and> holder_budget (own s) holder = Inr (left, sequence) \<and> left \<noteq> Some 0
         \<and> unat (te_sequence (pe_request p)) = Suc (unat sequence)
         \<and> own t = spend_holder holder (te_sequence (pe_request p)) (own s) \<and> poisoned t = poisoned s)"
  using assms unfolding prepare_def
proof (rule with_owner_cases)
  assume "r = Inl Owner_Unavailable" "t = close_channels h s"
  then show ?thesis by simp
next
  assume run: "(case admit_effect h holder packet s of
       (Inl e, s') \<Rightarrow> deny h e s' | (Inr p, s') \<Rightarrow> (Inr p, s')) = (r, t)"
  obtain r1 s1 where c: "admit_effect h holder packet s = (r1, s1)" by (cases "admit_effect h holder packet s")
  show ?thesis
  proof (cases r1)
    case (Inl e)
    with run c have d: "deny h e s1 = (r, t)" by simp
    from deny_Inl [OF d] hushed_trans [OF admit_Inl [OF c [unfolded Inl]] hushed_deny [OF d]]
    show ?thesis by auto
  next
    case (Inr p)
    with run c admit_Inr [OF c [unfolded Inr]] show ?thesis by auto
  qed
qed

lemma gate_cases:
  assumes "with_owner h (commit_gate h p) s = (r, t)"
  shows "hushed s t \<and> (is_ok r \<longrightarrow> effect_ok h (own s) (pe_grant p) (pe_request p) \<and> \<not> poisoned s \<and> own t = own s)"
  using assms
proof (rule with_owner_cases)
  assume "r = Inl Owner_Unavailable" "t = close_channels h s"
  then show ?thesis by simp
next
  assume np: "\<not> poisoned s" and run: "commit_gate h p s = (r, t)"
  let ?check = "check_effect h (pe_grant p) (pe_sender p) (pe_request p)"
    and ?note = "record_decision h (Effect_Commit_Intent (pe_grant p) (te_sequence (pe_request p)))"
  obtain r1 s1 where c1: "?check s = (r1, s1)" by (cases "?check s")
  note h1 = calmD [OF calm_effect_check c1]
  have denied: "hushed s t \<and> \<not> is_ok r" if "deny h e u = (r, t)" "hushed s u" for e u
    using deny_Inl [OF that(1)] hushed_trans [OF that(2) hushed_deny [OF that(1)]] by auto
  show ?thesis
  proof (cases r1)
    case (Inl e)
    with run c1 denied h1 show ?thesis by (simp add: commit_gate_def)
  next
    case (Inr u1)
    note ok1 = check_effect_Inr [OF c1 [unfolded Inr]]
    obtain r2 s2 where c2: "?note s1 = (r2, s2)" by (cases "?note s1")
    note h2 = hushed_trans [OF h1 hushed_record [OF c2]]
    show ?thesis
    proof (cases r2)
      case (Inl e)
      with run c1 \<open>r1 = Inr u1\<close> c2 h2 show ?thesis by (auto simp: commit_gate_def)
    next
      case (Inr u2)
      note same2 = record_Inr [OF c2 [unfolded Inr]]
      obtain r3 s3 where c3: "?check s2 = (r3, s3)" by (cases "?check s2")
      note h3 = hushed_trans [OF h2 calmD [OF calm_effect_check c3]]
      show ?thesis
      proof (cases r3)
        case (Inl e)
        with run c1 \<open>r1 = Inr u1\<close> c2 \<open>r2 = Inr u2\<close> c3 denied h3 show ?thesis by (simp add: commit_gate_def)
      next
        case (Inr u3)
        from check_effect_Inr [OF c3 [unfolded Inr]] ok1 same2 np h3 run c1 \<open>r1 = Inr u1\<close> c2 \<open>r2 = Inr u2\<close> c3 Inr
        show ?thesis by (auto simp: commit_gate_def)
      qed
    qed
  qed
qed

lemma hushed_finish: "hushed s (snd (finish h c ended s))"
proof -
  obtain r t where f: "finish h c ended s = (r, t)" by (cases "finish h c ended s")
  then have "hushed s t" unfolding finish_def
  proof (rule with_owner_cases)
    assume "t = close_channels h s"
    then show ?thesis by simp
  next
    let ?note = "record_decision h (Effect_Finished (ce_grant c) (ce_sequence c) (is_ok ended))"
    assume run: "(case ?note s of (Inr _, s') \<Rightarrow> (ended, s')
     | (Inl (Audit source), s') \<Rightarrow> (Inl (Completion_Audit ended source), s')
     | (Inl e, s') \<Rightarrow> (Inl e, s')) = (r, t)"
    obtain r1 s1 where c1: "?note s = (r1, s1)" by (cases "?note s")
    with run have "t = s1" by (auto split: sum.splits delegation_error.splits)
    with hushed_record [OF c1] show ?thesis by simp
  qed
  with f show ?thesis by simp
qed

lemma hushed_commit: "hushed s (snd (commit h apply p s))"
proof -
  obtain r1 s1 where g: "with_owner h (commit_gate h p) s = (r1, s1)" by (cases "with_owner h (commit_gate h p) s")
  then have h1: "hushed s s1" using gate_cases by blast
  show ?thesis
  proof (cases r1)
    case (Inl e)
    with g h1 show ?thesis by (simp add: commit_def)
  next
    case (Inr u)
    obtain result w where a: "apply (pe_request p) (world s1) = (result, w)"
      by (cases "apply (pe_request p) (world s1)")
    let ?c = "\<lparr>ce_grant = pe_grant p, ce_sequence = te_sequence (pe_request p)\<rparr>"
    show ?thesis
    proof (cases result)
      case (Inl e)
      obtain r3 s3 where f: "finish h ?c (Inl e) (s1\<lparr>world := w\<rparr>) = (r3, s3)"
        by (cases "finish h ?c (Inl e) (s1\<lparr>world := w\<rparr>)")
      with hushed_finish [of "s1\<lparr>world := w\<rparr>" h ?c "Inl e"] have "hushed (s1\<lparr>world := w\<rparr>) s3" by simp
      then have "hushed s s3" using h1 hushed_trans by (metis hushed_world)
      with g a Inr Inl f show ?thesis by (auto simp: commit_def Let_def split: sum.split)
    next
      case (Inr y)
      with g a \<open>r1 = Inr u\<close> h1 show ?thesis by (simp add: commit_def Let_def)
    qed
  qed
qed

lemma revoke_delegation_effect:
  "hushed s (snd (revoke_delegation h s)) \<and> \<not> active (own (snd (revoke_delegation h s)))"
  by (simp add: revoke_delegation_def with_owner_def hushed_revoke revoke_inactive)
    (simp add: close_channels_def)

end
