(* ===== verification/Delegation_History.thy ===== *)
theory Delegation_History
  imports Delegation_Safety "HOL-Library.Multiset"
begin

section \<open>Delegated authority over time\<close>

text \<open>
  A system is the owner with the effects that were admitted and not yet committed, and a ghost
  list of the effects that were started; the value an effect hands back is left out. A step is one call of an operation, a change of the
  outside world, an admitted effect that is dropped, or a panic of the effect while the owner
  is locked. \<open>accounted\<close> is the accounting invariant of the owner; \<open>sound\<close> adds that the
  effects admitted and started carry distinct numbers that their holder really issued.
\<close>

subsection \<open>Histories\<close>

record 'w tool_system =
  ts_owner :: "'w owner"
  ts_pending :: "pending_effect list"
  ts_started :: "(u64 option \<times> tool_execution_request) list"

abbreviation authority :: "'w tool_system \<Rightarrow> delegation_state" where
  "authority x \<equiv> own (ts_owner x)"

inductive tool_step :: "'w host \<Rightarrow> 'w tool_system \<Rightarrow> 'w tool_system \<Rightarrow> bool" for h where
  environment: "tool_step h x (x\<lparr>ts_owner := (ts_owner x)\<lparr>world := w\<rparr>\<rparr>)"
| delegate: "tool_step h x (x\<lparr>ts_owner := snd (delegate h sender q b (ts_owner x))\<rparr>)"
| execute: "prepare h holder packet (ts_owner x) = (r, s) \<Longrightarrow>
    tool_step h x (x\<lparr>ts_owner := s, ts_pending := ts_pending x @ (case r of Inl e \<Rightarrow> [] | Inr p \<Rightarrow> [p])\<rparr>)"
| commit: "p \<in> set (ts_pending x) \<Longrightarrow>
    tool_step h x (x\<lparr>ts_pending := remove1 p (ts_pending x),
      ts_started := ts_started x @ (if is_ok (fst (with_owner h (commit_gate h p) (ts_owner x)))
        then [(pe_grant p, pe_request p)] else []),
      ts_owner := snd (commit h (apply :: _ \<Rightarrow> 'w \<Rightarrow> (_ + unit) \<times> 'w) p (ts_owner x))\<rparr>)"
| panic: "p \<in> set (ts_pending x) \<Longrightarrow> with_owner h (commit_gate h p) (ts_owner x) = (Inr u, s) \<Longrightarrow>
    tool_step h x (x\<lparr>ts_owner := s\<lparr>poisoned := True, world := w\<rparr>, ts_pending := remove1 p (ts_pending x),
      ts_started := ts_started x @ [(pe_grant p, pe_request p)]\<rparr>)"
| abandon: "p \<in> set (ts_pending x) \<Longrightarrow> tool_step h x (x\<lparr>ts_pending := remove1 p (ts_pending x)\<rparr>)"
| finished: "tool_step h x (x\<lparr>ts_owner := snd (finish h c ended (ts_owner x))\<rparr>)"
| revoked: "tool_step h x (x\<lparr>ts_owner := snd (revoke_delegation h (ts_owner x))\<rparr>)"

definition tool_history :: "'w host \<Rightarrow> 'w tool_system \<Rightarrow> 'w tool_system \<Rightarrow> bool" where
  "tool_history h = (tool_step h)\<^sup>*\<^sup>*"

definition launched :: "'w owner \<Rightarrow> 'w tool_system" where
  "launched s = \<lparr>ts_owner = s, ts_pending = [], ts_started = []\<rparr>"

subsection \<open>Accounts\<close>

definition budget_line :: "u32 option \<Rightarrow> u32 option \<Rightarrow> nat \<Rightarrow> bool" where
  "budget_line approved left spent \<longleftrightarrow>
     (case approved of None \<Rightarrow> left = None | Some n \<Rightarrow> \<exists>r. left = Some r \<and> unat r + spent = unat n)"

definition units :: "u32 option \<Rightarrow> nat" where
  "units u = (case u of None \<Rightarrow> 0 | Some n \<Rightarrow> unat n)"

definition reserved_units :: "(u64 \<times> grant) list \<Rightarrow> nat" where
  "reserved_units gs = sum_list (map (\<lambda>(_, g). units (uses (gr_scope g))) gs)"

definition grant_accounted :: "delegation_state \<Rightarrow> u64 \<Rightarrow> grant \<Rightarrow> bool" where
  "grant_accounted st i g \<longleftrightarrow> i \<le> grant_sequence st \<and> is_within (gr_scope g) (dp_scope (policy st))
     \<and> gr_expires_at g \<le> dp_expires_at (policy st)
     \<and> budget_line (uses (gr_scope g)) (gr_remaining g) (unat (gr_sequence g))"

definition accounted :: "delegation_state \<Rightarrow> bool" where
  "accounted st \<longleftrightarrow> distinct (map fst (grants st)) \<and> (\<forall>(i, g) \<in> set (grants st). grant_accounted st i g)
     \<and> budget_line (uses (dp_scope (policy st))) (remaining st) (unat (agent_sequence st) + reserved_units (grants st))"

definition effect_slots :: "delegation_state \<Rightarrow> (u64 option \<times> nat) list" where
  "effect_slots st = map (\<lambda>k. (None, Suc k)) [0..<unat (agent_sequence st)]
     @ concat (map (\<lambda>(i, g). map (\<lambda>k. (Some i, Suc k)) [0..<unat (gr_sequence g)]) (grants st))"

definition effect_keys :: "'w tool_system \<Rightarrow> (u64 option \<times> nat) list" where
  "effect_keys x = map (\<lambda>p. (pe_grant p, unat (te_sequence (pe_request p)))) (ts_pending x)
     @ map (\<lambda>(g, q). (g, unat (te_sequence q))) (ts_started x)"

definition authorized_by :: "'w host \<Rightarrow> delegation_state \<Rightarrow> tool_execution_request \<Rightarrow> bool" where
  "authorized_by h st q \<longleftrightarrow> digest_of (sha256 h) (te_command q) = command_digest (dp_scope (policy st))
     \<and> te_timeout_ms q \<le> timeout_ms (dp_scope (policy st))
     \<and> same_binding (binding st) (te_session_id q) (te_run_id q) (te_envelope_revision q)"

definition sound :: "'w host \<Rightarrow> 'w tool_system \<Rightarrow> bool" where
  "sound h x \<longleftrightarrow> accounted (authority x) \<and> distinct (effect_keys x)
     \<and> set (effect_keys x) \<subseteq> set (effect_slots (authority x))
     \<and> (\<forall>(g, q) \<in> set (ts_started x). authorized_by h (authority x) q)"

subsection \<open>Lemmas on grants\<close>

lemma set_put_grant: "i \<notin> fst ` set gs \<Longrightarrow> set (put_grant i g gs) = insert (i, g) (set gs)"
  by (induction i g gs rule: put_grant.induct) auto

lemma keys_put_grant: "set (map fst (put_grant i g gs)) = insert i (set (map fst gs))"
  by (induction i g gs rule: put_grant.induct) auto

lemma distinct_put_grant:
  "distinct (map fst gs) \<Longrightarrow> i \<notin> set (map fst gs) \<Longrightarrow> distinct (map fst (put_grant i g gs))"
proof (induction i g gs rule: put_grant.induct)
  case (1 i g)
  then show ?case by simp
next
  case (2 i g j g' gs)
  then show ?case using keys_put_grant [of i g gs] by auto
qed

lemma reserved_put_grant:
  "i \<notin> set (map fst gs) \<Longrightarrow> reserved_units (put_grant i g gs) = units (uses (gr_scope g)) + reserved_units gs"
  by (induction i g gs rule: put_grant.induct) (auto simp: reserved_units_def)

lemma accounted_hush: "own t = own s \<or> own t = (own s)\<lparr>active := False\<rparr> \<Longrightarrow> accounted (own t) = accounted (own s)"
  by (auto simp: accounted_def grant_accounted_def)

lemma slots_hush: "own t = own s \<or> own t = (own s)\<lparr>active := False\<rparr> \<Longrightarrow> effect_slots (own t) = effect_slots (own s)"
  by (auto simp: effect_slots_def)

lemma slots_iff:
  "(holder, k) \<in> set (effect_slots st) \<longleftrightarrow> 1 \<le> k \<and> (case holder of None \<Rightarrow> k \<le> unat (agent_sequence st)
     | Some i \<Rightarrow> \<exists>g. (i, g) \<in> set (grants st) \<and> k \<le> unat (gr_sequence g))"
  by (cases k; cases holder) (auto simp: effect_slots_def image_iff Suc_le_eq Bex_def)

lemma length_slots: "length (effect_slots st) = unat (agent_sequence st)
    + sum_list (map (\<lambda>(_, g). unat (gr_sequence g)) (grants st))"
  by (simp add: effect_slots_def length_concat o_def split_def)

lemma budget_line_spent: "budget_line (Some n) left spent \<Longrightarrow> spent \<le> unat n"
  by (auto simp: budget_line_def)


subsection \<open>Installing a grant\<close>

lemma fresh_grant: "accounted st \<Longrightarrow> grant_ok st q \<Longrightarrow> tg_sequence q \<notin> set (map fst (grants st))"
  by (fastforce simp: accounted_def grant_accounted_def grant_ok_def word_le_nat_alt)

lemma within_units: "is_within s parent \<Longrightarrow> uses parent = Some u \<Longrightarrow> \<exists>n. uses s = Some n \<and> n \<le> u"
  by (auto simp: is_within_def uses_within_def split: option.splits)

lemma budget_line_take:
  assumes "budget_line approved left spent" and "approved \<noteq> None \<Longrightarrow> requested \<noteq> None" and "uses_within requested left"
  shows "budget_line approved (case (left, requested) of (Some r, Some n) \<Rightarrow> Some (r - n) | (r, _) \<Rightarrow> r)
    (spent + units requested)"
  using assms
  by (cases approved; cases requested; cases left)
    (auto simp: budget_line_def units_def uses_within_def unat_sub word_le_nat_alt)

lemma install_accounted:
  assumes "accounted st" and "grant_ok st q"
  shows "accounted (install_grant q b st)"
proof -
  let ?st = "install_grant q b st"
    and ?g = "\<lparr>target = b, gr_scope = tg_scope q, gr_expires_at = tg_expires_at q,
       gr_remaining = uses (tg_scope q), gr_sequence = 0\<rparr>"
  note fresh = fresh_grant [OF assms]
  have gs: "grants ?st = put_grant (tg_sequence q) ?g (grants st)" and pol: "policy ?st = policy st"
    and seq: "grant_sequence ?st = tg_sequence q" and ag: "agent_sequence ?st = agent_sequence st"
    by (simp_all add: install_grant_def)
  from assms(2) have q: "is_within (tg_scope q) (dp_scope (policy st))" "tg_expires_at q \<le> dp_expires_at (policy st)"
    "uses_within (uses (tg_scope q)) (remaining st)" "grant_sequence st \<le> tg_sequence q"
    by (auto simp: grant_ok_def word_le_nat_alt)
  have new: "grant_accounted ?st (tg_sequence q) ?g"
    using q by (auto simp: grant_accounted_def pol seq budget_line_def split: option.split)
  have old: "grant_accounted ?st i g" if "(i, g) \<in> set (grants st)" for i g
    using assms(1) that q(4) order_trans by (fastforce simp: accounted_def grant_accounted_def pol seq)
  have "budget_line (uses (dp_scope (policy st)))
     (case (remaining st, uses (tg_scope q)) of (Some r, Some n) \<Rightarrow> Some (r - n) | (r, _) \<Rightarrow> r)
     (unat (agent_sequence st) + reserved_units (grants st) + units (uses (tg_scope q)))"
    using assms(1) within_units [OF q(1)] q(3) by (intro budget_line_take) (auto simp: accounted_def)
  then have "budget_line (uses (dp_scope (policy ?st))) (remaining ?st)
     (unat (agent_sequence ?st) + reserved_units (grants ?st))"
    using fresh by (simp add: gs pol ag reserved_put_grant install_grant_def add.commute add.left_commute)
  moreover have "distinct (map fst (grants ?st))"
    using assms(1) fresh by (simp add: gs distinct_put_grant accounted_def)
  moreover have "\<forall>(i, g) \<in> set (grants ?st). grant_accounted ?st i g"
    using new old fresh by (auto simp: gs set_put_grant)
  ultimately show ?thesis by (simp add: accounted_def)
qed

lemma install_slots:
  assumes "accounted st" and "grant_ok st q"
  shows "set (effect_slots (install_grant q b st)) = set (effect_slots st)"
proof -
  have "set (grants (install_grant q b st)) = insert (tg_sequence q, \<lparr>target = b, gr_scope = tg_scope q,
     gr_expires_at = tg_expires_at q, gr_remaining = uses (tg_scope q), gr_sequence = 0\<rparr>) (set (grants st))"
    using fresh_grant [OF assms] by (simp add: install_grant_def set_put_grant)
  then have "s \<in> set (effect_slots (install_grant q b st)) \<longleftrightarrow> s \<in> set (effect_slots st)" for s
    by (cases s) (auto simp: slots_iff install_grant_def split: option.split)
  then show ?thesis by blast
qed

subsection \<open>Spending a unit\<close>

lemma unat_pred: "r \<noteq> 0 \<Longrightarrow> Suc (unat (r - 1)) = unat r" for r :: "'l::len word"
  using unat_minus_one [of r] unat_gt_0 [of r] by simp

lemma budget_line_spend:
  assumes "budget_line approved left spent" and "left \<noteq> Some 0"
  shows "budget_line approved (spend left) (Suc spent)"
proof (cases left)
  case None
  with assms show ?thesis by (simp add: budget_line_def spend_def split: option.splits)
next
  case (Some r)
  with assms(2) have "Suc (unat (r - 1)) = unat r" by (simp add: unat_pred)
  with assms(1) Some show ?thesis by (auto simp: budget_line_def spend_def split: option.splits)
qed

definition spent_grant :: "u64 \<Rightarrow> u64 \<Rightarrow> u64 \<times> grant \<Rightarrow> u64 \<times> grant" where
  "spent_grant i sequence = (\<lambda>(j, g). if j = i
     then (j, g\<lparr>gr_remaining := spend (gr_remaining g), gr_sequence := sequence\<rparr>) else (j, g))"

lemma spend_holder_Some:
  "spend_holder (Some i) sequence st = st\<lparr>grants := map (spent_grant i sequence) (grants st)\<rparr>"
  by (simp add: spend_holder_def spent_grant_def)

lemma keys_spent: "map fst (map (spent_grant i sequence) gs) = map fst gs"
  by (induction gs) (auto simp: spent_grant_def)

lemma reserved_spent: "reserved_units (map (spent_grant i sequence) gs) = reserved_units gs"
  by (induction gs) (auto simp: reserved_units_def spent_grant_def)

lemma map_of_spent:
  "map_of (map (spent_grant i k) gs) j = map_option (\<lambda>g. snd (spent_grant i k (j, g))) (map_of gs j)"
  by (induction gs) (auto simp: spent_grant_def)

lemma distinct_spent: "distinct (map fst (map (spent_grant i k) gs)) = distinct (map fst gs)"
  by (simp only: keys_spent)

lemma in_spent:
  "(j, g') \<in> set (map (spent_grant i k) gs) \<longleftrightarrow> (\<exists>g. (j, g) \<in> set gs \<and> g' = snd (spent_grant i k (j, g)))"
  by (induction gs) (auto simp: spent_grant_def split: if_splits)

lemma spend_grants:
  "map_of (grants (spend_holder (Some i) k st)) j = (if j = i
     then map_option (\<lambda>g. g\<lparr>gr_remaining := spend (gr_remaining g), gr_sequence := k\<rparr>) (map_of (grants st) j)
     else map_of (grants st) j)"
  by (simp add: spend_holder_Some map_of_spent) (simp add: spent_grant_def option.map_ident)

lemma spend_grants_agent: "agent_sequence (spend_holder (Some i) k st) = agent_sequence st"
  by (simp add: spend_holder_Some)

lemma spend_accounted:
  assumes "accounted st" and "holder_budget st holder = Inr (left, sequence)" and "left \<noteq> Some 0"
    and "unat k = Suc (unat sequence)"
  shows "accounted (spend_holder holder k st)"
proof (cases holder)
  case None
  with assms have eq: "left = remaining st" "sequence = agent_sequence st" by (simp_all add: holder_budget_def)
  have "budget_line (uses (dp_scope (policy st))) (spend (remaining st))
      (Suc (unat (agent_sequence st) + reserved_units (grants st)))"
    using assms(1,3) eq by (intro budget_line_spend) (simp_all add: accounted_def)
  with assms None eq show ?thesis
    by (simp add: accounted_def spend_holder_def grant_accounted_def)
next
  case (Some i)
  with assms obtain g where g: "map_of (grants st) i = Some g" "left = gr_remaining g" "sequence = gr_sequence g"
    by (auto simp: holder_budget_def results)
  from assms(1) have dist: "distinct (map fst (grants st))"
    and total: "budget_line (uses (dp_scope (policy st))) (remaining st) (unat (agent_sequence st) + reserved_units (grants st))"
    and ok: "\<And>j g. (j, g) \<in> set (grants st) \<Longrightarrow> grant_accounted st j g"
    by (auto simp: accounted_def)
  let ?gs = "map (spent_grant i k) (grants st)" and ?st = "spend_holder holder k st"
  have st: "grants ?st = ?gs" "policy ?st = policy st" "remaining ?st = remaining st"
    "agent_sequence ?st = agent_sequence st" "grant_sequence ?st = grant_sequence st"
    using Some by (simp_all add: spend_holder_Some)
  have each: "grant_accounted ?st j g'" if "(j, g') \<in> set ?gs" for j g'
  proof -
    from that obtain g0 where g0: "(j, g0) \<in> set (grants st)" "g' = snd (spent_grant i k (j, g0))"
      unfolding in_spent by blast
    show ?thesis
    proof (cases "j = i")
      case True
      with g0(1) dist map_of_SomeD [OF g(1)] have "g0 = g" by (blast dest: eq_key_imp_eq_value)
      with ok [OF g0(1)] budget_line_spend [of "uses (gr_scope g)" "gr_remaining g" "unat (gr_sequence g)"]
        g0(2) True assms(3,4) g st
      show ?thesis by (simp add: grant_accounted_def spent_grant_def)
    next
      case False
      with g0 ok [OF g0(1)] st show ?thesis by (simp add: grant_accounted_def spent_grant_def)
    qed
  qed
  have "\<forall>x \<in> set ?gs. case x of (j, g') \<Rightarrow> grant_accounted ?st j g'"
  proof
    fix x assume x: "x \<in> set ?gs"
    obtain j g' where "x = (j, g')" by (rule prod.exhaust)
    with each [of j g'] x show "case x of (j, g') \<Rightarrow> grant_accounted ?st j g'" by (simp only: prod.case)
  qed
  with dist total show ?thesis
    unfolding accounted_def st by (simp only: distinct_spent reserved_spent simp_thms)
qed

lemma slots_map:
  "accounted st \<Longrightarrow> (holder, k) \<in> set (effect_slots st) \<longleftrightarrow> 1 \<le> k \<and> (case holder of
      None \<Rightarrow> k \<le> unat (agent_sequence st)
    | Some i \<Rightarrow> (case map_of (grants st) i of None \<Rightarrow> False | Some g \<Rightarrow> k \<le> unat (gr_sequence g)))"
  by (auto simp: slots_iff accounted_def map_of_eq_None_iff split: option.splits dest: eq_key_imp_eq_value)
    (force dest: eq_key_imp_eq_value)+

lemma spend_slots:
  assumes "accounted st" and "holder_budget st holder = Inr (left, sequence)" and "left \<noteq> Some 0"
    and "unat k = Suc (unat sequence)"
  shows "set (effect_slots (spend_holder holder k st)) = insert (holder, unat k) (set (effect_slots st))"
    and "(holder, unat k) \<notin> set (effect_slots st)"
proof -
  show "(holder, unat k) \<notin> set (effect_slots st)"
    using assms by (cases holder) (auto simp: slots_map holder_budget_def results)
  have "(p, n) \<in> set (effect_slots (spend_holder holder k st)) \<longleftrightarrow> (p, n) = (holder, unat k) \<or> (p, n) \<in> set (effect_slots st)" for p n
  proof (cases holder)
    case None
    with assms have eq: "unat k = Suc (unat (agent_sequence st))" by (simp add: holder_budget_def)
    show ?thesis
      unfolding slots_map [OF assms(1)] slots_map [OF spend_accounted [OF assms]]
      using None eq by (auto simp: spend_holder_def le_Suc_eq split: option.splits)
  next
    case (Some i)
    with assms obtain g where g: "map_of (grants st) i = Some g" "sequence = gr_sequence g"
      by (auto simp: holder_budget_def results)
    with Some assms(4) show ?thesis
      unfolding slots_map [OF assms(1)] slots_map [OF spend_accounted [OF assms]]
      by (auto simp: spend_grants spend_grants_agent le_Suc_eq simp del: map_of_eq_Some_iff Some_eq_map_of_iff split: option.splits if_splits)
  qed
  then show "set (effect_slots (spend_holder holder k st)) = insert (holder, unat k) (set (effect_slots st))"
    by auto
qed


subsection \<open>Every step keeps the system sound\<close>

lemma effect_ok_authorized:
  "accounted st \<Longrightarrow> effect_ok h st holder q \<Longrightarrow> authorized_by h st q"
  by (cases holder) (auto simp: effect_ok_def authorized_by_def permits_def accounted_def grant_accounted_def
      is_within_def dest: map_of_SomeD intro: order_trans)

lemma sound_hush:
  assumes "sound h x" and "hushed (ts_owner x) s"
  shows "sound h (x\<lparr>ts_owner := s\<rparr>)"
proof -
  from assms(2) have st: "own s = authority x \<or> own s = (authority x)\<lparr>active := False\<rparr>" by (simp add: hushed_def)
  then have "authorized_by h (own s) q = authorized_by h (authority x) q" for q
    by (auto simp: authorized_by_def)
  with assms(1) accounted_hush [OF st] slots_hush [OF st] show ?thesis
    by (simp add: sound_def effect_keys_def)
qed

lemma mset_remove_map: "p \<in> set xs \<Longrightarrow> mset (map f xs) = add_mset (f p) (mset (map f (remove1 p xs)))"
  by (induction xs) auto

lemma distinct_map_remove1: "distinct (map f xs) \<Longrightarrow> distinct (map f (remove1 p xs))"
  by (induction xs) (use set_remove1_subset in fastforce)+

lemma sound_abandon:
  assumes "sound h x"
  shows "sound h (x\<lparr>ts_pending := remove1 p (ts_pending x)\<rparr>)"
proof -
  let ?y = "x\<lparr>ts_pending := remove1 p (ts_pending x)\<rparr>"
  have part: "distinct (map f (remove1 p xs) @ ys) \<and> set (map f (remove1 p xs) @ ys) \<subseteq> set (map f xs @ ys)"
    if "distinct (map f xs @ ys)" for f :: "pending_effect \<Rightarrow> u64 option \<times> nat" and xs ys
    using that set_remove1_subset [of p xs] distinct_map_remove1 [of f xs p] by auto
  have keys: "effect_keys ?y = map (\<lambda>p. (pe_grant p, unat (te_sequence (pe_request p)))) (remove1 p (ts_pending x))
     @ map (\<lambda>(g, q). (g, unat (te_sequence q))) (ts_started x)" by (simp add: effect_keys_def)
  from assms have "distinct (effect_keys x)" by (simp add: sound_def)
  then have "distinct (effect_keys ?y) \<and> set (effect_keys ?y) \<subseteq> set (effect_keys x)"
    unfolding keys effect_keys_def [of x] by (rule part)
  with assms show ?thesis by (auto simp: sound_def)
qed

lemma sound_start:
  assumes "sound h x" and "p \<in> set (ts_pending x)" and "effect_ok h (authority x) (pe_grant p) (pe_request p)"
  shows "sound h (x\<lparr>ts_pending := remove1 p (ts_pending x), ts_started := ts_started x @ [(pe_grant p, pe_request p)]\<rparr>)"
proof -
  let ?y = "x\<lparr>ts_pending := remove1 p (ts_pending x), ts_started := ts_started x @ [(pe_grant p, pe_request p)]\<rparr>"
  have same: "mset (effect_keys ?y) = mset (effect_keys x)"
    using mset_remove_map [OF assms(2), of "\<lambda>p. (pe_grant p, unat (te_sequence (pe_request p)))"]
    by (simp add: effect_keys_def)
  then have "set (effect_keys ?y) = set (effect_keys x)" "distinct (effect_keys ?y) = distinct (effect_keys x)"
    by (auto dest: mset_eq_setD mset_eq_imp_distinct_iff)
  with assms effect_ok_authorized [of "authority x" h "pe_grant p"] show ?thesis
    by (auto simp: sound_def)
qed

lemma sound_admit:
  assumes "sound h x" and "holder_budget (authority x) (pe_grant p) = Inr (left, sequence)" and "left \<noteq> Some 0"
    and "unat (te_sequence (pe_request p)) = Suc (unat sequence)"
    and s: "own s = spend_holder (pe_grant p) (te_sequence (pe_request p)) (authority x)"
  shows "sound h (x\<lparr>ts_owner := s, ts_pending := ts_pending x @ [p]\<rparr>)"
proof -
  let ?y = "x\<lparr>ts_owner := s, ts_pending := ts_pending x @ [p]\<rparr>" and ?k = "(pe_grant p, unat (te_sequence (pe_request p)))"
  from assms(1) have acc: "accounted (authority x)" by (simp add: sound_def)
  note slots = spend_slots [OF acc assms(2-4)]
  have keys: "set (effect_keys ?y) = insert ?k (set (effect_keys x))" by (auto simp: effect_keys_def)
  have "?k \<notin> set (effect_keys x)" using slots(2) assms(1) by (auto simp: sound_def)
  then have "distinct (effect_keys ?y)"
    using assms(1) by (auto simp: sound_def effect_keys_def)
  moreover have "authorized_by h (own s) q = authorized_by h (authority x) q" for q
    by (cases "pe_grant p") (auto simp: s authorized_by_def spend_holder_def)
  ultimately show ?thesis
    using assms(1) keys slots(1) spend_accounted [OF acc assms(2-4)] by (auto simp: sound_def s)
qed

lemma sound_install:
  assumes "sound h x" and "grant_ok (authority x) q" and s: "own s = install_grant q b (authority x)"
  shows "sound h (x\<lparr>ts_owner := s\<rparr>)"
proof -
  from assms(1) have acc: "accounted (authority x)" by (simp add: sound_def)
  have "authorized_by h (own s) r = authorized_by h (authority x) r" for r
    by (simp add: s authorized_by_def install_grant_def)
  with assms(1) install_accounted [OF acc assms(2)] install_slots [OF acc assms(2)] show ?thesis
    by (simp add: sound_def effect_keys_def s)
qed

lemma tool_step_sound: "tool_step h x y \<Longrightarrow> sound h x \<Longrightarrow> sound h y"
proof (induction rule: tool_step.induct)
  case (environment x w)
  then show ?case by (intro sound_hush) simp_all
next
  case (delegate x sender q b)
  obtain r s where d: "delegate h sender q b (ts_owner x) = (r, s)" by (cases "delegate h sender q b (ts_owner x)")
  from delegate_cases [OF d] delegate sound_hush sound_install show ?case by (auto simp: d)
next
  case (execute holder packet x r s)
  from prepare_cases [OF execute.hyps] show ?case
  proof
    assume "(\<forall>p. r \<noteq> Inr p) \<and> hushed (ts_owner x) s"
    then obtain e where "r = Inl e" "hushed (ts_owner x) s" by (cases r) auto
    with sound_hush [OF execute.prems] show ?thesis by simp
  next
    assume "\<exists>p left sequence. r = Inr p \<and> pe_grant p = holder \<and> effect_ok h (authority x) holder (pe_request p)
         \<and> holder_budget (authority x) holder = Inr (left, sequence) \<and> left \<noteq> Some 0
         \<and> unat (te_sequence (pe_request p)) = Suc (unat sequence)
         \<and> own s = spend_holder holder (te_sequence (pe_request p)) (authority x) \<and> poisoned s = poisoned (ts_owner x)"
    with sound_admit [OF execute.prems] show ?thesis by auto
  qed
next
  case (commit p x f)
  obtain r s where g: "with_owner h (commit_gate h p) (ts_owner x) = (r, s)"
    by (cases "with_owner h (commit_gate h p) (ts_owner x)")
  let ?y = "x\<lparr>ts_pending := remove1 p (ts_pending x),
      ts_started := ts_started x @ (if is_ok r then [(pe_grant p, pe_request p)] else [])\<rparr>"
  have "sound h ?y"
  proof (cases "is_ok r")
    case True
    with gate_cases [OF g] sound_start [OF commit.prems commit.hyps] show ?thesis by simp
  next
    case False
    with sound_abandon [OF commit.prems] show ?thesis by simp
  qed
  moreover have "hushed (ts_owner ?y) (snd (commit h f p (ts_owner x)))" using hushed_commit by simp
  ultimately have "sound h (?y\<lparr>ts_owner := snd (commit h f p (ts_owner x))\<rparr>)" by (rule sound_hush)
  then show ?case unfolding g fst_conv .
next
  case (panic p x u s w)
  from gate_cases [OF panic.hyps(2)] have "effect_ok h (authority x) (pe_grant p) (pe_request p)" "own s = authority x"
    by simp_all
  with sound_start [OF panic.prems panic.hyps(1)] show ?case by (simp add: sound_def effect_keys_def)
next
  case (abandon p x)
  then show ?case by (intro sound_abandon)
next
  case (finished x c ended)
  then show ?case by (intro sound_hush hushed_finish)
next
  case (revoked x)
  then show ?case using revoke_delegation_effect [of "ts_owner x" h] by (intro sound_hush) blast+
qed

lemma tool_history_sound: "tool_history h x y \<Longrightarrow> sound h x \<Longrightarrow> sound h y"
  unfolding tool_history_def by (induction rule: rtranclp_induct) (auto intro: tool_step_sound)

subsection \<open>Terms and closure\<close>

definition closed :: "'w tool_system \<Rightarrow> bool" where
  "closed x \<longleftrightarrow> \<not> active (authority x) \<or> poisoned (ts_owner x)"

definition keeps_terms :: "'w owner \<Rightarrow> 'w owner \<Rightarrow> bool" where
  "keeps_terms s s' \<longleftrightarrow> policy (own s') = policy (own s) \<and> binding (own s') = binding (own s)
     \<and> (active (own s') \<longrightarrow> active (own s)) \<and> (poisoned s \<longrightarrow> poisoned s')"

lemma hushed_terms: "hushed s s' \<Longrightarrow> keeps_terms s s'"
  by (auto simp: hushed_def keeps_terms_def)

lemma keeps_terms_trans: "keeps_terms s t \<Longrightarrow> keeps_terms t u \<Longrightarrow> keeps_terms s u"
  by (auto simp: keeps_terms_def)

lemma delegate_terms: "keeps_terms s (snd (delegate h sender q b s))"
  using delegate_cases [of h sender q b s] hushed_terms
  by (cases "delegate h sender q b s") (auto simp: keeps_terms_def install_grant_def grant_ok_def)

lemma prepare_terms: "prepare h holder packet s = (r, t) \<Longrightarrow> keeps_terms s t"
  using prepare_cases [of h holder packet s r t] hushed_terms
  by (cases holder) (auto simp: keeps_terms_def spend_holder_def)

lemma tool_step_terms: "tool_step h x y \<Longrightarrow> keeps_terms (ts_owner x) (ts_owner y)
    \<and> (closed x \<longrightarrow> ts_started y = ts_started x)"
proof (induction rule: tool_step.induct)
  case (environment x w)
  then show ?case by (simp add: keeps_terms_def)
next
  case (delegate x sender q b)
  then show ?case using delegate_terms by simp
next
  case (execute holder packet x r s)
  then show ?case using prepare_terms by simp
next
  case (commit p x f)
  obtain r s where g: "with_owner h (commit_gate h p) (ts_owner x) = (r, s)"
    by (cases "with_owner h (commit_gate h p) (ts_owner x)")
  from gate_cases [OF g] have "closed x \<Longrightarrow> \<not> is_ok r" by (auto simp: closed_def effect_ok_def)
  with g hushed_terms [OF hushed_commit] show ?case by simp
next
  case (panic p x u s w)
  from gate_cases [OF panic.hyps(2)] show ?case by (auto simp: keeps_terms_def closed_def effect_ok_def)
next
  case (abandon p x)
  then show ?case by (simp add: keeps_terms_def)
next
  case (finished x c ended)
  then show ?case using hushed_terms [OF hushed_finish] by simp
next
  case (revoked x)
  then show ?case using hushed_terms [of "ts_owner x"] revoke_delegation_effect [of "ts_owner x" h] by simp
qed

lemma tool_history_terms: "tool_history h x y \<Longrightarrow> keeps_terms (ts_owner x) (ts_owner y)
    \<and> (closed x \<longrightarrow> closed y \<and> ts_started y = ts_started x)"
  unfolding tool_history_def
proof (induction rule: rtranclp_induct)
  case base
  then show ?case by (simp add: keeps_terms_def)
next
  case (step y z)
  from tool_step_terms [OF step.hyps(2)] step.IH show ?case
    by (auto simp: closed_def keeps_terms_def)
qed

lemma sound_launched: "accounted (own s) \<Longrightarrow> sound h (launched s)"
  by (simp add: sound_def launched_def effect_keys_def)

end
