(* ===== verification/Delegation_Properties.thy ===== *)
theory Delegation_Properties
  imports Delegation_History
begin

section \<open>Properties of delegated authority\<close>

text \<open>
  From the creation of an authority to any later point: the effects started never exceed the
  budget, every one of them was authorized, and nothing starts after a revocation.
\<close>

lemma new_delegation_Inr:
  assumes "new_delegation h b p agent w = (Inr s, w')"
  shows "own s = \<lparr>binding = b, policy = p, agent_process = agent, grants = [],
     remaining = uses (dp_scope p), agent_sequence = 0, grant_sequence = 0, active = True\<rparr>"
proof -
  let ?st = "\<lparr>binding = b, policy = p, agent_process = agent, grants = [],
     remaining = uses (dp_scope p), agent_sequence = 0, grant_sequence = 0, active = True\<rparr>"
  let ?m = "\<lambda>c1 c2. bind_op (refuse_unless c1 Invalid_Capability_Request) (\<lambda>_.
           bind_op (check_process h agent c2) (\<lambda>_.
           bind_op (observe (instant h)) (\<lambda>t.
           refuse_unless (t < dp_expires_at p) Capability_Expired)))"
  have "calm s (?m c1 c2 s)" for c1 c2 and s :: "'a owner" by (intro calm_bind) simp_all
  then have "own u = own s" if "?m c1 c2 s = (Inr a, u)" for c1 c2 a u and s :: "'a owner"
    using that calm_Inr by metis
  with assms show ?thesis
    unfolding new_delegation_def Let_def by (fastforce split: prod.splits sum.splits)
qed

lemma sound_new: "new_delegation h b p agent w = (Inr s, w') \<Longrightarrow> sound h (launched s)"
  by (rule sound_launched)
    (auto simp: accounted_def budget_line_def reserved_units_def dest!: new_delegation_Inr split: option.split)

lemma history_terms:
  assumes "new_delegation h b p agent w = (Inr s, w')" and "tool_history h (launched s) x"
  shows "policy (authority x) = p \<and> binding (authority x) = b \<and> sound h x"
  using tool_history_terms [OF assms(2)] tool_history_sound [OF assms(2) sound_new [OF assms(1)]]
    new_delegation_Inr [OF assms(1)]
  by (simp add: keeps_terms_def launched_def)

lemma started_in_slots: "sound h x \<Longrightarrow> distinct (map (\<lambda>(g, q). (g, unat (te_sequence q))) (ts_started x))
    \<and> set (map (\<lambda>(g, q). (g, unat (te_sequence q))) (ts_started x)) \<subseteq> set (effect_slots (authority x))"
  by (auto simp: sound_def effect_keys_def)

lemma started_bound: "sound h x \<Longrightarrow> length (ts_started x) \<le> length (effect_slots (authority x))"
proof -
  let ?keys = "map (\<lambda>(g, q). (g, unat (te_sequence q))) (ts_started x)"
  assume "sound h x"
  then have "distinct ?keys" "set ?keys \<subseteq> set (effect_slots (authority x))" using started_in_slots by blast+
  then have "length ?keys \<le> card (set (effect_slots (authority x)))"
    using card_mono [OF List.finite_set] distinct_card by metis
  also have "\<dots> \<le> length (effect_slots (authority x))" by (rule card_length)
  finally show ?thesis by simp
qed

lemma slots_bound:
  assumes "accounted st" and "uses (dp_scope (policy st)) = Some u"
  shows "length (effect_slots st) \<le> unat u \<and> reserved_units (grants st) \<le> unat u"
proof -
  have each: "unat (gr_sequence g) \<le> units (uses (gr_scope g))" if "(i, g) \<in> set (grants st)" for i g
  proof -
    from that assms(1) have g: "grant_accounted st i g" by (auto simp: accounted_def)
    then obtain n where "uses (gr_scope g) = Some n"
      using within_units [OF _ assms(2)] unfolding grant_accounted_def by blast
    with g show ?thesis by (auto simp: grant_accounted_def units_def dest: budget_line_spent)
  qed
  have "sum_list (map (\<lambda>(_, g). unat (gr_sequence g)) (grants st)) \<le> reserved_units (grants st)"
    unfolding reserved_units_def using each by (intro sum_list_mono) auto
  moreover have "unat (agent_sequence st) + reserved_units (grants st) \<le> unat u"
    using assms by (auto simp: accounted_def dest: budget_line_spent)
  ultimately show ?thesis by (simp add: length_slots)
qed

lemma holder_bound:
  assumes "sound h x" and "(i, g) \<in> set (grants (authority x))" and "uses (gr_scope g) = Some n"
  shows "length (filter (\<lambda>e. fst e = Some i) (ts_started x)) \<le> unat n"
proof -
  let ?key = "\<lambda>(p, q). (p, unat (te_sequence q))" and ?of = "filter (\<lambda>e. fst e = Some i) (ts_started x)"
  note slots = started_in_slots [OF assms(1)]
  from assms(1) have acc: "accounted (authority x)" by (simp add: sound_def)
  have only: "g' = g" if "(i, g') \<in> set (grants (authority x))" for g'
    using acc assms(2) that by (auto simp: accounted_def dest: eq_key_imp_eq_value)
  have "set (map ?key ?of) \<subseteq> Pair (Some i) ` {1..unat (gr_sequence g)}"
    using slots only by (fastforce simp: slots_iff)
  then have "card (set (map ?key ?of)) \<le> card (Pair (Some i) ` {1..unat (gr_sequence g)})" by (intro card_mono) simp_all
  also have "\<dots> \<le> unat (gr_sequence g)" using card_image_le [of "{1..unat (gr_sequence g)}"] by simp
  also have "\<dots> \<le> unat n"
  proof -
    from acc assms(2) have "grant_accounted (authority x) i g" by (auto simp: accounted_def)
    with assms(3) show ?thesis by (auto simp: grant_accounted_def dest: budget_line_spent)
  qed
  finally have "card (set (map ?key ?of)) \<le> unat n" .
  moreover have "distinct (map ?key ?of)" using slots by (simp only: distinct_map_filter)
  ultimately show ?thesis using distinct_card [of "map ?key ?of"] by (simp only: length_map)
qed

subsection \<open>A concrete Agent\<close>

definition demo_host :: "unit host" where
  "demo_host = \<lparr>sha256 = (\<lambda>_. replicate 32 0), tool_json = (\<lambda>_. ''t''), instant = (\<lambda>w. (1, w)),
     epoch_ms = (\<lambda>w. (Some 1, w)), process_valid = (\<lambda>_ w. (Inr True, w)), is_closed = (\<lambda>_ w. (False, w)),
     close_channel = (\<lambda>_ w. w), append_audit = (\<lambda>_ w. (Inr (), w))\<rparr>"

definition demo_process :: bound_process where
  "demo_process = \<lparr>bp_process = 1, bp_credentials = \<lparr>kc_pid = 7, kc_uid = 8, kc_gid = 9\<rparr>,
     bp_channel = 1, bp_peer = \<lparr>kc_pid = 7, kc_uid = 8, kc_gid = 9\<rparr>\<rparr>"

definition demo_binding :: capability_binding where
  "demo_binding = \<lparr>cb_session_id = ''s'', cb_run_id = ''r'', cb_channel_id = ''c'', cb_envelope_revision = 1,
     cb_identity_slot = 0, cb_assigned_uid = 8, cb_assigned_gid = 9, cb_agent_pid = 7\<rparr>"

definition demo_policy :: delegation_policy where
  "demo_policy = \<lparr>dp_authorization_id = ''a'',
     dp_scope = \<lparr>command_digest = digest_of (sha256 demo_host) ''ls'', timeout_ms = 10, uses = Some 1\<rparr>,
     dp_allow_delegation = True, dp_expires_at = 5\<rparr>"

definition demo_call :: tool_execution_request where
  "demo_call = \<lparr>te_schema = TOOL_EXECUTION_SCHEMA, te_protocol_version = PROTOCOL_VERSION, te_request_id = ''q'',
     te_session_id = ''s'', te_run_id = ''r'', te_envelope_revision = 1, te_sequence = 1, te_command = ''ls'',
     te_timeout_ms = 10\<rparr>"

definition demo_owner :: "unit owner" where
  "demo_owner = \<lparr>own = \<lparr>binding = demo_binding, policy = demo_policy, agent_process = demo_process, grants = [],
     remaining = Some 1, agent_sequence = 0, grant_sequence = 0, active = True\<rparr>, poisoned = False, world = ()\<rparr>"

definition demo_packet :: authenticated_packet where
  "demo_packet = \<lparr>ap_request = Some demo_call, ap_peer = bp_credentials demo_process, ap_message = bp_credentials demo_process\<rparr>"

definition demo_pending :: pending_effect where
  "demo_pending = \<lparr>pe_grant = None, pe_request = demo_call, pe_sender = bp_credentials demo_process\<rparr>"

lemma demo_ids: "is_record_identifier ''s''" "is_record_identifier ''r''" "is_record_identifier ''c''" "is_record_identifier ''a''"
  by (simp_all add: is_record_identifier_def identifier_byte_def is_ascii_alphanumeric_def is_ascii_lower_def is_ascii_digit_def byte_of_def)


lemma demo_host_run:
  "observe (instant demo_host) s = (Inr 1, s)" "observe (epoch_ms demo_host) s = (Inr (Some 1), s)"
  "check_process demo_host b k s = (ensure (bp_credentials b = k \<and> bp_peer b = k) Identity_Mismatch, s)"
  by (simp_all add: observe_def demo_host_def check_process_def bind_op_def refuse_unless_def pure_def ensure_def)

lemma demo_append:
  "is_record_identifier (ae_session_id e) \<Longrightarrow> is_record_identifier (ae_run_id e) \<Longrightarrow>
     is_record_identifier (ae_authorization_id e) \<Longrightarrow>
     observe (audit_record (append_audit demo_host) e) s = (Inr (Inr ()), s)"
  by (simp add: observe_def audit_record_def demo_host_def)

lemma demo_record:
  assumes "binding (own s) = demo_binding" and "policy (own s) = demo_policy"
  shows "record_decision demo_host d s = (Inr (), s)"
  using assms
  by (simp add: record_decision_def bind_op_def demo_host_run demo_append pure_def
      demo_binding_def demo_policy_def demo_ids)

lemma demo_new: "new_delegation demo_host demo_binding demo_policy demo_process () = (Inr demo_owner, ())"
proof -
  have ids: "is_record_identifier (cb_session_id demo_binding) \<and> is_record_identifier (cb_run_id demo_binding)
     \<and> is_record_identifier (cb_channel_id demo_binding) \<and> is_record_identifier (dp_authorization_id demo_policy)
     \<and> scope_valid (dp_scope demo_policy)" "uses (dp_scope demo_policy) = Some 1" "Suc 0 < dp_expires_at demo_policy"
    by (simp_all add: demo_binding_def demo_policy_def demo_ids scope_valid_def)
  have peer: "bp_peer demo_process = bp_credentials demo_process"
    "cb_agent_pid demo_binding = kc_pid (bp_credentials demo_process)"
    "cb_assigned_uid demo_binding = kc_uid (bp_credentials demo_process)"
    "cb_assigned_gid demo_binding = kc_gid (bp_credentials demo_process)"
    by (simp_all add: demo_process_def demo_binding_def)
  show ?thesis
    by (simp add: new_delegation_def Let_def bind_op_def refuse_unless_def pure_def demo_host_run demo_owner_def ids peer)
qed

lemma demo_call_valid: "validate_tool_request (tool_json demo_host) demo_call = Inr ()"
  by (simp add: validate_tool_request_def demo_call_def demo_host_def MAX_PROTOCOL_MESSAGE_BYTES_def protocol_schema_def
      protocol_version_is_def protocol_identifier_def identifier_byte_def is_ascii_alphanumeric_def is_ascii_lower_def
      is_ascii_digit_def byte_of_def results MAX_IDENTIFIER_BYTES_def char_of_def)

lemma demo_effect_check:
  assumes "active (own s)" and "binding (own s) = demo_binding" and "policy (own s) = demo_policy"
    and "agent_process (own s) = demo_process"
  shows "check_effect demo_host None (bp_credentials demo_process) demo_call s = (Inr (), s)"
  using assms demo_call_valid
  by (simp add: check_effect_def check_parent_def Let_def bind_op_def demo_host_run pure_def refuse_unless_def
      ensure_def permits_def same_binding_def)
    (simp add: demo_policy_def demo_process_def demo_binding_def demo_call_def)

definition demo_spent :: "unit owner" where
  "demo_spent = demo_owner\<lparr>own := spend_holder None 1 (own demo_owner)\<rparr>"

lemma demo_prepare: "prepare demo_host None demo_packet demo_owner = (Inr demo_pending, demo_spent)"
proof -
  have c: "check_effect demo_host None (bp_credentials demo_process) demo_call demo_owner = (Inr (), demo_owner)"
    by (rule demo_effect_check) (simp_all add: demo_owner_def)
  have s: "te_sequence demo_call = 1" "holder_budget (own demo_owner) None = Inr (Some 1, 0)" "\<not> poisoned demo_owner"
    by (simp_all add: demo_call_def holder_budget_def demo_owner_def)
  show ?thesis
    by (simp add: prepare_def with_owner_def admit_effect_def bind_op_def pure_def refuse_unless_def demo_packet_def
        c s checked_add_def change_own_def demo_pending_def demo_spent_def)
qed

lemma demo_gate: "with_owner demo_host (commit_gate demo_host demo_pending) demo_spent = (Inr (), demo_spent)"
proof -
  have "check_effect demo_host None (bp_credentials demo_process) demo_call demo_spent = (Inr (), demo_spent)"
    by (rule demo_effect_check) (simp_all add: demo_spent_def demo_owner_def spend_holder_def)
  moreover have "record_decision demo_host d demo_spent = (Inr (), demo_spent)" for d
    by (rule demo_record) (simp_all add: demo_spent_def demo_owner_def spend_holder_def)
  ultimately show ?thesis
    by (simp add: with_owner_def commit_gate_def demo_pending_def) (simp add: demo_spent_def demo_owner_def)
qed

definition demo_system :: "unit tool_system" where
  "demo_system = \<lparr>ts_owner = demo_spent, ts_pending = [], ts_started = [(None, demo_call)]\<rparr>"

lemma demo_tools: "tool_history demo_host (launched demo_owner) demo_system"
proof -
  let ?x = "\<lparr>ts_owner = demo_spent, ts_pending = [demo_pending], ts_started = []\<rparr>"
  have w: "demo_spent\<lparr>world := ()\<rparr> = demo_spent" by (simp add: demo_spent_def demo_owner_def)
  have "tool_step demo_host (launched demo_owner) ?x"
    using tool_step.execute [of demo_host None demo_packet "launched demo_owner"] demo_prepare
    by (simp add: launched_def)
  moreover have "tool_step demo_host ?x demo_system"
    using tool_step.commit [of demo_pending ?x demo_host "\<lambda>_ w. (Inr (), w)"] demo_gate
    by (simp add: demo_system_def commit_def w) (simp add: demo_pending_def w)
  ultimately show ?thesis unfolding tool_history_def by (meson converse_rtranclp_into_rtranclp rtranclp.rtrancl_refl)
qed

subsection \<open>The properties\<close>

text \<open>C19: Whatever the Agent and its tools request in whatever order, and whatever the kernel, the
  clocks and the operator record answer, the effects started under one authority never outnumber
  its approved budget, the units reserved by grants included, and no tool starts more effects
  than its grant has units.\<close>

theorem delegation_budget_never_exceeded:
  assumes "new_delegation h b p agent w = (Inr s, w')" and "tool_history h (launched s) x"
  shows "(\<forall>u. uses (dp_scope p) = Some u \<longrightarrow>
       length (ts_started x) \<le> unat u \<and> reserved_units (grants (authority x)) \<le> unat u)
    \<and> (\<forall>i g n. (i, g) \<in> set (grants (authority x)) \<and> uses (gr_scope g) = Some n \<longrightarrow>
         length (filter (\<lambda>e. fst e = Some i) (ts_started x)) \<le> unat n)"
proof -
  note terms = history_terms [OF assms]
  then have acc: "accounted (authority x)" by (simp add: sound_def)
  have "length (ts_started x) \<le> unat u \<and> reserved_units (grants (authority x)) \<le> unat u"
    if "uses (dp_scope p) = Some u" for u
    using slots_bound [OF acc, of u] started_bound [of h x] terms that by simp
  with holder_bound [of h x] terms show ?thesis by blast
qed

theorem delegation_budget_never_exceeded_witness:
  "length (ts_started demo_system) \<le> unat (1 :: u32) \<and> ts_started demo_system \<noteq> []"
  using delegation_budget_never_exceeded [OF demo_new demo_tools] by (simp add: demo_policy_def) (simp add: demo_system_def)

text \<open>C20: Every effect that is started carries the approved command digest, a timeout within the
  approved one and the Session, Run and envelope revision of the authority, and no sequence
  number of a holder is started twice.\<close>

theorem started_effects_are_authorized:
  assumes "new_delegation h b p agent w = (Inr s, w')" and "tool_history h (launched s) x"
  shows "(\<forall>(g, q) \<in> set (ts_started x). digest_of (sha256 h) (te_command q) = command_digest (dp_scope p)
       \<and> te_timeout_ms q \<le> timeout_ms (dp_scope p) \<and> te_session_id q = cb_session_id b
       \<and> te_run_id q = cb_run_id b \<and> te_envelope_revision q = cb_envelope_revision b)
    \<and> distinct (map (\<lambda>(g, q). (g, te_sequence q)) (ts_started x))"
proof -
  note terms = history_terms [OF assms]
  have "map (\<lambda>(g, q). (g, unat (te_sequence q))) (ts_started x)
      = map (\<lambda>(g, k). (g, unat k)) (map (\<lambda>(g, q). (g, te_sequence q)) (ts_started x))" by auto
  with started_in_slots [of h x] terms have "distinct (map (\<lambda>(g, q). (g, te_sequence q)) (ts_started x))"
    by (metis distinct_map)
  with terms show ?thesis by (auto simp: sound_def authorized_by_def same_binding_def)
qed

theorem started_effects_are_authorized_witness:
  "digest_of (sha256 demo_host) (te_command demo_call) = command_digest (dp_scope demo_policy)
     \<and> te_run_id demo_call = cb_run_id demo_binding"
  using started_effects_are_authorized [OF demo_new demo_tools] by (simp add: demo_system_def)

text \<open>C21: After a revocation no effect is ever started again under the authority, not even one that
  was admitted before, and the authority never becomes active again.\<close>

theorem revocation_is_final:
  assumes "tool_history h (x\<lparr>ts_owner := snd (revoke_delegation h (ts_owner x))\<rparr>) y"
  shows "ts_started y = ts_started x \<and> \<not> active (authority y)"
proof -
  let ?x = "x\<lparr>ts_owner := snd (revoke_delegation h (ts_owner x))\<rparr>"
  have "\<not> active (authority ?x)" using revoke_delegation_effect [of "ts_owner x" h] by simp
  with tool_history_terms [OF assms] show ?thesis by (auto simp: closed_def keeps_terms_def)
qed

theorem revocation_is_final_witness:
  "\<not> active (own (snd (revoke_delegation demo_host (ts_owner demo_system)))) \<and> ts_started demo_system = [(None, demo_call)]"
proof -
  let ?y = "demo_system\<lparr>ts_owner := snd (revoke_delegation demo_host (ts_owner demo_system))\<rparr>"
  have "tool_history demo_host ?y ?y" by (simp add: tool_history_def)
  from revocation_is_final [OF this] show ?thesis by (simp add: demo_system_def)
qed

end
