(* ===== verification/Permissions.thy ===== *)
theory Permissions
  imports Broker Delegation "HOL-Library.Product_Lexorder"
begin

section \<open>Approved permissions\<close>

text \<open>
  The scopes an operator approves and a request is checked against: exact Beads effects
  (skills-core/src/beads_mutation.rs and beads_mutation/permission.rs), brokered Provider
  requests (provider_request.rs), Skill Admission requests (skill_request.rs) and privileged
  commands (broker/authorization.rs). URL parsing is an argument, and so is the digest of the
  embedded disclosure profile.
\<close>

unbundle bit_operations_syntax

subsection \<open>Texts\<close>

definition permission_identifier :: "string \<Rightarrow> bool" where
  "permission_identifier v = (v \<noteq> [] \<and> length v \<le> 128 \<and> list_all identifier_byte v)"

definition issue_identifier :: "string \<Rightarrow> bool" where
  "issue_identifier v = (v \<noteq> [] \<and> length v \<le> 128 \<and> \<not> starts_with ''-'' v
     \<and> list_all (\<lambda>c. is_ascii_alphanumeric c \<or> c = CHR ''-'' \<or> c = CHR ''_'' \<or> c = CHR ''.'') v)"

definition str_contains :: "string \<Rightarrow> string \<Rightarrow> bool" where
  "str_contains v token = (\<exists>k \<in> set [0..<Suc (length v)]. starts_with token (drop k v))"

definition text_valid :: "string \<Rightarrow> bool" where
  "text_valid v = (v \<noteq> [] \<and> length v \<le> 8192 \<and> char_of (0 :: nat) \<notin> set v)"

definition status_valid :: "string \<Rightarrow> bool" where
  "status_valid v = (permission_identifier v \<and> \<not> list_ex is_ascii_upper v
     \<and> v \<notin> {''closed'', ''tombstone'', ''in_progress'', ''inprogress''})"

definition label_valid :: "string \<Rightarrow> bool" where
  "label_valid v = (v \<noteq> [] \<and> length v \<le> 128 \<and> \<not> starts_with ''-'' v
     \<and> list_all (\<lambda>c. is_ascii_alphanumeric c \<or> c \<in> {CHR ''-'', CHR ''_'', CHR ''.'', CHR '':'', CHR ''/''}) v)"

text \<open>Every pair of neighbours is strictly ascending: \<open>windows(2)\<close> with a strict comparison.\<close>

abbreviation ascending :: "'a::ord list \<Rightarrow> bool" where
  "ascending \<equiv> successively (<)"

definition permission_names :: "string list \<Rightarrow> bool" where
  "permission_names vs = (vs \<noteq> [] \<and> length vs \<le> 32 \<and> ascending vs \<and> list_all permission_identifier vs)"

subsection \<open>Beads mutations\<close>

datatype beads_dependency_kind = Blocks | Parent_Child | Related

datatype beads_verdict_kind = Verdict_Consumer | Verdict_Gate | Verdict_Live | Verdict_Inert | Verdict_None

record beads_close_verdict =
  verdict_kind :: beads_verdict_kind
  verdict_reference :: string

datatype beads_mutation_kind = Comment_Add string string | Claim string
  | Status_Update string string | Label_Add string string | Label_Remove string string
  | Dependency_Add string string beads_dependency_kind
  | Dependency_Remove string string beads_dependency_kind
  | Close string string beads_close_verdict

fun mutation_issue :: "beads_mutation_kind \<Rightarrow> string" where
  "mutation_issue (Comment_Add i _) = i"
| "mutation_issue (Claim i) = i"
| "mutation_issue (Status_Update i _) = i"
| "mutation_issue (Label_Add i _) = i"
| "mutation_issue (Label_Remove i _) = i"
| "mutation_issue (Dependency_Add i _ _) = i"
| "mutation_issue (Dependency_Remove i _ _) = i"
| "mutation_issue (Close i _ _) = i"

definition verdict_tokens :: "string list" where
  "verdict_tokens = [''consumer:'', ''gate:'', ''live:'', ''inert:'', ''none:'']"

definition verdict_valid :: "beads_close_verdict \<Rightarrow> bool" where
  "verdict_valid v = (verdict_reference v \<noteq> [] \<and> length (verdict_reference v) \<le> 512
     \<and> list_all (\<lambda>n. \<not> is_whitespace n \<and> \<not> is_control n) (utf8_decode (verdict_reference v))
     \<and> (verdict_kind v \<noteq> Verdict_Inert \<or> issue_identifier (verdict_reference v))
     \<and> \<not> list_ex (str_contains (verdict_reference v)) verdict_tokens)"

fun mutation_content_valid :: "beads_mutation_kind \<Rightarrow> bool" where
  "mutation_content_valid (Comment_Add _ t) = text_valid t"
| "mutation_content_valid (Claim _) = True"
| "mutation_content_valid (Status_Update _ s) = status_valid s"
| "mutation_content_valid (Label_Add _ l) = label_valid l"
| "mutation_content_valid (Label_Remove _ l) = label_valid l"
| "mutation_content_valid (Dependency_Add i d _) = (issue_identifier d \<and> d \<noteq> i)"
| "mutation_content_valid (Dependency_Remove i d _) = (issue_identifier d \<and> d \<noteq> i)"
| "mutation_content_valid (Close _ reason v) =
     (text_valid reason \<and> verdict_valid v \<and> \<not> list_ex (str_contains reason) verdict_tokens)"

definition mutation_valid :: "beads_mutation_kind \<Rightarrow> bool" where
  "mutation_valid k = (issue_identifier (mutation_issue k) \<and> mutation_content_valid k)"

record beads_mutation_request =
  bm_request_id :: string
  bm_required :: bool
  bm_kind :: beads_mutation_kind

definition mutation_request_valid :: "beads_mutation_request \<Rightarrow> bool" where
  "mutation_request_valid q = (permission_identifier (bm_request_id q) \<and> mutation_valid (bm_kind q))"

subsection \<open>Beads effects\<close>

datatype beads_role = Worker | Coordinator

datatype beads_effect = Effect_Comment_Add | Effect_Claim | Effect_Status string
  | Effect_Label_Add string | Effect_Label_Remove string
  | Effect_Dependency_Add beads_dependency_kind | Effect_Dependency_Remove beads_dependency_kind
  | Effect_Close

text \<open>The derived order of the effects: by variant, then by the field.\<close>

fun dependency_rank :: "beads_dependency_kind \<Rightarrow> nat" where
  "dependency_rank Blocks = 0"
| "dependency_rank Parent_Child = 1"
| "dependency_rank Related = 2"

fun effect_rank :: "beads_effect \<Rightarrow> nat \<times> string \<times> nat" where
  "effect_rank Effect_Comment_Add = (0, [], 0)"
| "effect_rank Effect_Claim = (1, [], 0)"
| "effect_rank (Effect_Status s) = (2, s, 0)"
| "effect_rank (Effect_Label_Add l) = (3, l, 0)"
| "effect_rank (Effect_Label_Remove l) = (4, l, 0)"
| "effect_rank (Effect_Dependency_Add d) = (5, [], dependency_rank d)"
| "effect_rank (Effect_Dependency_Remove d) = (6, [], dependency_rank d)"
| "effect_rank Effect_Close = (7, [], 0)"

lemma dependency_rank_inject: "dependency_rank d = dependency_rank d' \<longleftrightarrow> d = d'"
  by (cases d; cases d') simp_all

lemma effect_rank_inject: "effect_rank e = effect_rank e' \<longleftrightarrow> e = e'"
  by (cases e; cases e') (simp_all add: dependency_rank_inject)

instantiation beads_effect :: linorder
begin

definition less_eq_beads_effect :: "beads_effect \<Rightarrow> beads_effect \<Rightarrow> bool" where
  "less_eq_beads_effect e e' = (effect_rank e \<le> effect_rank e')"

definition less_beads_effect :: "beads_effect \<Rightarrow> beads_effect \<Rightarrow> bool" where
  "less_beads_effect e e' = (effect_rank e < effect_rank e')"

instance
  by standard (auto simp: less_eq_beads_effect_def less_beads_effect_def effect_rank_inject order.strict_iff_order)

end

fun effect_for :: "beads_mutation_kind \<Rightarrow> beads_effect" where
  "effect_for (Comment_Add _ _) = Effect_Comment_Add"
| "effect_for (Claim _) = Effect_Claim"
| "effect_for (Status_Update _ s) = Effect_Status s"
| "effect_for (Label_Add _ l) = Effect_Label_Add l"
| "effect_for (Label_Remove _ l) = Effect_Label_Remove l"
| "effect_for (Dependency_Add _ _ d) = Effect_Dependency_Add d"
| "effect_for (Dependency_Remove _ _ d) = Effect_Dependency_Remove d"
| "effect_for (Close _ _ _) = Effect_Close"

fun effect_valid :: "beads_effect \<Rightarrow> bool" where
  "effect_valid (Effect_Status s) = status_valid s"
| "effect_valid (Effect_Label_Add l) = label_valid l"
| "effect_valid (Effect_Label_Remove l) = label_valid l"
| "effect_valid _ = True"

fun worker_effect :: "beads_effect \<Rightarrow> bool" where
  "worker_effect Effect_Close = False"
| "worker_effect (Effect_Dependency_Remove _) = False"
| "worker_effect (Effect_Dependency_Add Blocks) = False"
| "worker_effect (Effect_Dependency_Add Parent_Child) = False"
| "worker_effect (Effect_Label_Add l) = (l \<noteq> ''integration_verified'')"
| "worker_effect (Effect_Label_Remove l) = (l \<noteq> ''integration_verified'')"
| "worker_effect _ = True"

definition permitted_role :: "beads_effect \<Rightarrow> beads_role \<Rightarrow> bool" where
  "permitted_role e role = (role = Coordinator \<or> worker_effect e)"

fun other_issue :: "beads_mutation_kind \<Rightarrow> string option" where
  "other_issue (Dependency_Add _ d _) = Some d"
| "other_issue (Dependency_Remove _ d _) = Some d"
| "other_issue _ = None"

record beads_capability =
  bc_project_digest :: string
  bc_issue_ids :: "string list"
  bc_effect :: beads_effect
  bc_role :: beads_role

definition capability_for :: "string \<Rightarrow> beads_mutation_kind \<Rightarrow> beads_capability" where
  "capability_for project k =
     (let effect = effect_for k in
      \<lparr>bc_project_digest = project,
        bc_issue_ids = (case other_issue k of None \<Rightarrow> [mutation_issue k] | Some d \<Rightarrow> sort [mutation_issue k, d]),
        bc_effect = effect,
        bc_role = (if permitted_role effect Worker then Worker else Coordinator)\<rparr>)"

fun dependency_effect :: "beads_effect \<Rightarrow> bool" where
  "dependency_effect (Effect_Dependency_Add _) = True"
| "dependency_effect (Effect_Dependency_Remove _) = True"
| "dependency_effect _ = False"

definition capability_valid :: "beads_capability \<Rightarrow> bool" where
  "capability_valid c = (canonical_digest (bc_project_digest c)
     \<and> 1 \<le> length (bc_issue_ids c) \<and> length (bc_issue_ids c) \<le> 2
     \<and> list_all issue_identifier (bc_issue_ids c) \<and> ascending (bc_issue_ids c)
     \<and> effect_valid (bc_effect c) \<and> permitted_role (bc_effect c) (bc_role c)
     \<and> ((length (bc_issue_ids c) = 2) = dependency_effect (bc_effect c)))"

record approved_beads_mutations =
  ab_project_digest :: string
  ab_role :: beads_role
  ab_issue_ids :: "string list"
  ab_effects :: "beads_effect list"
  ab_max_mutations :: u32
  ab_expires_at_ms :: u64

definition beads_valid :: "approved_beads_mutations \<Rightarrow> u64 \<Rightarrow> bool" where
  "beads_valid a now_ms = (canonical_digest (ab_project_digest a)
     \<and> ab_issue_ids a \<noteq> [] \<and> length (ab_issue_ids a) \<le> 64 \<and> list_all issue_identifier (ab_issue_ids a)
     \<and> ascending (ab_issue_ids a) \<and> ab_effects a \<noteq> [] \<and> length (ab_effects a) \<le> 64
     \<and> list_all (\<lambda>e. effect_valid e \<and> permitted_role e (ab_role a)) (ab_effects a)
     \<and> ascending (ab_effects a) \<and> 1 \<le> ab_max_mutations a \<and> ab_max_mutations a \<le> 64
     \<and> now_ms < ab_expires_at_ms a)"

definition beads_permits :: "approved_beads_mutations \<Rightarrow> beads_mutation_request \<Rightarrow> u64 \<Rightarrow> bool" where
  "beads_permits a q now_ms =
     (let effect = effect_for (bm_kind q) in
      beads_valid a now_ms \<and> mutation_request_valid q \<and> permitted_role effect (ab_role a)
      \<and> effect \<in> set (ab_effects a) \<and> mutation_issue (bm_kind q) \<in> set (ab_issue_ids a)
      \<and> (case other_issue (bm_kind q) of None \<Rightarrow> True | Some d \<Rightarrow> d \<in> set (ab_issue_ids a)))"

subsection \<open>Provider requests\<close>

datatype ip_addr = V4 u32 | V6 "128 word"

fun is_unspecified :: "ip_addr \<Rightarrow> bool" where
  "is_unspecified (V4 a) = (a = 0)"
| "is_unspecified (V6 a) = (a = 0)"

fun is_multicast :: "ip_addr \<Rightarrow> bool" where
  "is_multicast (V4 a) = (drop_bit 28 a = 14)"
| "is_multicast (V6 a) = (drop_bit 120 a = 255)"

datatype reasoning_effort = Effort_None | Effort_Minimal | Effort_Low | Effort_Medium | Effort_High
  | Effort_Xhigh | Effort_Max

fun effort_rank :: "reasoning_effort \<Rightarrow> nat" where
  "effort_rank Effort_None = 0"
| "effort_rank Effort_Minimal = 1"
| "effort_rank Effort_Low = 2"
| "effort_rank Effort_Medium = 3"
| "effort_rank Effort_High = 4"
| "effort_rank Effort_Xhigh = 5"
| "effort_rank Effort_Max = 6"

lemma effort_rank_inject: "effort_rank e = effort_rank e' \<longleftrightarrow> e = e'"
  by (cases e; cases e') simp_all

instantiation reasoning_effort :: linorder
begin

definition less_eq_reasoning_effort :: "reasoning_effort \<Rightarrow> reasoning_effort \<Rightarrow> bool" where
  "less_eq_reasoning_effort e e' = (effort_rank e \<le> effort_rank e')"

definition less_reasoning_effort :: "reasoning_effort \<Rightarrow> reasoning_effort \<Rightarrow> bool" where
  "less_reasoning_effort e e' = (effort_rank e < effort_rank e')"

instance
  by standard (auto simp: less_eq_reasoning_effort_def less_reasoning_effort_def effort_rank_inject)

end

definition parse_effort :: "string \<Rightarrow> reasoning_effort option" where
  "parse_effort v = map_of [(''none'', Effort_None), (''minimal'', Effort_Minimal), (''low'', Effort_Low),
     (''medium'', Effort_Medium), (''high'', Effort_High), (''xhigh'', Effort_Xhigh), (''max'', Effort_Max)] v"

record approved_provider_requests =
  av_disclosure_profile :: string
  av_provider :: string
  av_upstream :: string
  av_addresses :: "ip_addr list"
  av_max_run_requests :: u32
  av_models :: "string list"
  av_max_effort :: reasoning_effort
  av_expires_at_ms :: u64

definition MAX_RUN_REQUESTS :: u32 where
  "MAX_RUN_REQUESTS = 10000"

text \<open>
  \<open>upstream_ok\<close> is the check of the URL parser: https, a host, no user, password, query or
  fragment, the path \<open>/v1/responses\<close>, and the text in its own normal form. Sorting and removing
  neighbours counts the different addresses.
\<close>

record url_reader =
  upstream_ok :: "string \<Rightarrow> bool"
  profile_digest :: string

definition provider_valid :: "url_reader \<Rightarrow> approved_provider_requests \<Rightarrow> u64 \<Rightarrow> bool" where
  "provider_valid u a now_ms =
     (av_provider a \<noteq> [] \<and> length (av_provider a) \<le> 64
     \<and> list_all (\<lambda>c. is_ascii_lower c \<or> is_ascii_digit c \<or> c = CHR ''-'') (av_provider a)
     \<and> av_disclosure_profile a = profile_digest u \<and> upstream_ok u (av_upstream a)
     \<and> length (av_upstream a) \<le> 2048 \<and> av_addresses a \<noteq> [] \<and> length (av_addresses a) \<le> 16
     \<and> length (remdups (av_addresses a)) = length (av_addresses a)
     \<and> list_all (\<lambda>i. \<not> is_unspecified i \<and> \<not> is_multicast i) (av_addresses a)
     \<and> 1 \<le> av_max_run_requests a \<and> av_max_run_requests a \<le> MAX_RUN_REQUESTS
     \<and> 1 \<le> length (av_models a) \<and> length (av_models a) \<le> 16 \<and> ascending (av_models a)
     \<and> list_all (\<lambda>m. m \<noteq> [] \<and> length m \<le> 128) (av_models a)
     \<and> now_ms < av_expires_at_ms a)"

text \<open>\<open>binary_search_by\<close> on a sorted list finds an element exactly when it is a member.\<close>

definition provider_permits :: "approved_provider_requests \<Rightarrow> string \<Rightarrow> string option \<Rightarrow> bool" where
  "provider_permits a model effort = (model \<in> set (av_models a)
     \<and> (case Option.bind effort parse_effort of None \<Rightarrow> False | Some e \<Rightarrow> e \<le> av_max_effort a))"

subsection \<open>Skill requests\<close>

datatype skill_subject = Subject_Session | Subject_Run | Subject_Supply

record skill_request =
  sq_request_id :: string
  sq_subject :: skill_subject
  sq_packages :: "string list"
  sq_agents :: "string list"

definition skill_request_valid :: "skill_request \<Rightarrow> bool" where
  "skill_request_valid q = (permission_identifier (sq_request_id q) \<and> permission_names (sq_agents q)
     \<and> sq_packages q \<noteq> [] \<and> length (sq_packages q) \<le> 32 \<and> ascending (sq_packages q)
     \<and> list_all canonical_digest (sq_packages q))"

record approved_skill_requests =
  ask_agents :: "string list"
  ask_allow_run :: bool
  ask_allow_supply :: bool
  ask_expires_at_ms :: u64

definition skills_valid :: "approved_skill_requests \<Rightarrow> u64 \<Rightarrow> bool" where
  "skills_valid a now_ms = (permission_names (ask_agents a) \<and> now_ms < ask_expires_at_ms a)"

definition skills_permit :: "approved_skill_requests \<Rightarrow> skill_request \<Rightarrow> u64 \<Rightarrow> bool" where
  "skills_permit a q now_ms = (skills_valid a now_ms \<and> skill_request_valid q
     \<and> (case sq_subject q of Subject_Session \<Rightarrow> True | Subject_Run \<Rightarrow> ask_allow_run a | Subject_Supply \<Rightarrow> ask_allow_supply a)
     \<and> list_all (\<lambda>agent. agent \<in> set (ask_agents a)) (sq_agents q))"

subsection \<open>Commands\<close>

record approved_commands =
  ac_command_digest :: string
  ac_timeout_ms :: u32
  ac_uses :: "u32 option"
  ac_allow_delegation :: bool
  ac_expires_at_ms :: u64

text \<open>
  \<open>instant\<close> is the reading of the monotonic clock in milliseconds; the instant it would take to
  reach the expiry is assumed to be representable.
\<close>

definition commands_policy ::
  "approved_commands \<Rightarrow> string \<Rightarrow> u64 \<Rightarrow> nat \<Rightarrow> broker_error + delegation_policy" where
  "commands_policy a authorization_id now_ms instant_ms =
     andThen (map_err (\<lambda>_. Invalid_Grant) (parse_digest (ac_command_digest a))) (\<lambda>d.
     let scope = \<lparr>command_digest = d, timeout_ms = ac_timeout_ms a, uses = ac_uses a\<rparr> in
     andThen (ensure (\<not> (digest_text d \<noteq> ac_command_digest a \<or> \<not> scope_valid scope)) Invalid_Grant) (\<lambda>_.
     andThen (ok_or (Option.bind (checked_sub (ac_expires_at_ms a) now_ms) (\<lambda>ms. if 0 < ms then Some ms else None))
        Authorization_Expired) (\<lambda>left.
     Inr \<lparr>dp_authorization_id = authorization_id, dp_scope = scope,
       dp_allow_delegation = ac_allow_delegation a, dp_expires_at = instant_ms + unat left\<rparr>)))"

end
