(* ===== verification/Dependency_Policy.thy ===== *)
theory Dependency_Policy
  imports Permissions
begin

section \<open>Dependency fetch policy\<close>

text \<open>
  skills-core/src/dependency_fetch.rs with wire.rs, download.rs, cargo.rs and the endpoint
  checks of transport.rs: which exact packages one Session may download, and with what budget.
  The policy is evaluated locally: every operation here is a function of the in-memory owner,
  the proposal and the clocks. Semantic versions, URLs, TOML, JSON, SHA-256 and the cache that
  publishes the bytes are arguments; the HTTPS exchange itself is not modelled.
\<close>

subsection \<open>Candidates\<close>

datatype dependency_source = Registry string | Git string string | Url string | Other_Source string

record candidate =
  ca_name :: string
  ca_version :: string
  ca_source :: dependency_source
  ca_integrity :: "string option"

record registry_endpoint =
  rg_registry :: string
  rg_archive_template :: string
  rg_addresses :: "ip_addr list"

record approved_dependencies =
  ad_input_manifest_digest :: string
  ad_lockfile_path :: string
  ad_lockfile_digest :: string
  ad_registries :: "registry_endpoint list"
  ad_preapproved :: "candidate list"
  ad_max_fetches :: u32
  ad_max_bytes :: u64
  ad_expires_at_ms :: u64

record dependency_request =
  dr_request_id :: string
  dr_candidate :: candidate
  dr_max_bytes :: u64

text \<open>
  \<open>semver_canonical\<close>: the version parses and prints as itself. \<open>https_url\<close>: the text parses as
  its own normal form with the scheme https, a host, and no user, password or fragment.
\<close>

record fetch_codec =
  semver_canonical :: "string \<Rightarrow> bool"
  https_url :: "string \<Rightarrow> bool"
  candidate_json :: "candidate \<Rightarrow> string"
  dependencies_json :: "approved_dependencies \<Rightarrow> string"
  fetch_sha :: "string \<Rightarrow> u8 list"

definition MAX_CANDIDATES :: nat where
  "MAX_CANDIDATES = 4096"

definition MAX_CACHE_BYTES :: u64 where
  "MAX_CACHE_BYTES = 134217728"

abbreviation invalid_dependency :: protocol_error where
  "invalid_dependency \<equiv> failure Invalid_Request"

definition review_text :: "string \<Rightarrow> bool" where
  "review_text v = (v \<noteq> [] \<and> length v \<le> 2048 \<and> list_all is_ascii_graphic v)"

fun source_valid :: "dependency_source \<Rightarrow> bool" where
  "source_valid (Registry r) = review_text r"
| "source_valid (Git repository revision) =
     (review_text repository \<and> (length revision = 40 \<or> length revision = 64) \<and> list_all is_lower_hex revision)"
| "source_valid (Url u) = review_text u"
| "source_valid (Other_Source l) = review_text l"

definition validate_candidate :: "fetch_codec \<Rightarrow> candidate \<Rightarrow> protocol_error + unit" where
  "validate_candidate c k =
     andThen (ensure (\<not> (ca_name k = [] \<or> 64 < length (ca_name k) \<or> \<not> list_all identifier_byte (ca_name k)
        \<or> 128 < length (ca_version k) \<or> \<not> semver_canonical c (ca_version k)
        \<or> (case ca_integrity k of None \<Rightarrow> False | Some v \<Rightarrow> \<not> canonical_digest v))) invalid_dependency) (\<lambda>_.
     ensure (source_valid (ca_source k)) invalid_dependency)"

definition candidate_id :: "fetch_codec \<Rightarrow> candidate \<Rightarrow> protocol_error + string" where
  "candidate_id c k =
     andThen (validate_candidate c k) (\<lambda>_. Inr (digest_text (digest_of (fetch_sha c) (candidate_json c k))))"

definition automatic :: "candidate \<Rightarrow> bool" where
  "automatic k = ((case ca_source k of Registry _ \<Rightarrow> True | _ \<Rightarrow> False) \<and> ca_integrity k \<noteq> None)"

subsection \<open>Approved scope\<close>

text \<open>\<open>str::replace\<close>: every occurrence of the pattern, from the left, without overlaps.\<close>

function str_replace :: "string \<Rightarrow> string \<Rightarrow> string \<Rightarrow> string" where
  "str_replace pat new [] = []"
| "str_replace pat new (c # s) =
     (if pat \<noteq> [] \<and> starts_with pat (c # s) then new @ str_replace pat new (drop (length pat) (c # s))
      else c # str_replace pat new s)"
  by pat_completeness auto
termination
  by (relation "measure (length \<circ> snd \<circ> snd)") (auto simp: neq_Nil_conv)

definition archive_url :: "registry_endpoint \<Rightarrow> string \<Rightarrow> string \<Rightarrow> string" where
  "archive_url e name version =
     str_replace ''{version}'' version (str_replace ''{name}'' name (rg_archive_template e))"

definition validate_url :: "fetch_codec \<Rightarrow> string \<Rightarrow> bool" where
  "validate_url c u = (length u \<le> 4096 \<and> https_url c u)"

definition has_brace :: "string \<Rightarrow> bool" where
  "has_brace s = list_ex (\<lambda>c. c = CHR ''{'' \<or> c = CHR ''}'') s"

definition endpoint_valid :: "fetch_codec \<Rightarrow> registry_endpoint \<Rightarrow> bool" where
  "endpoint_valid c e =
     (rg_registry e \<noteq> [] \<and> rg_addresses e \<noteq> [] \<and> length (rg_addresses e) \<le> 16 \<and> distinct (rg_addresses e)
     \<and> list_all (\<lambda>a. \<not> is_unspecified a \<and> \<not> is_multicast a) (rg_addresses e)
     \<and> (case drop 2 (split_on CHR ''/'' (rg_archive_template e)) of
          [] \<Rightarrow> False | authority # _ \<Rightarrow> \<not> has_brace authority)
     \<and> (let sample = archive_url e ''example'' ''1.2.3'' in validate_url c sample \<and> \<not> has_brace sample))"

definition transport_valid :: "fetch_codec \<Rightarrow> registry_endpoint list \<Rightarrow> nat \<Rightarrow> bool" where
  "transport_valid c registries deadline_ms =
     (1000 \<le> deadline_ms \<and> deadline_ms \<le> 30000 \<and> length registries \<le> 32
      \<and> distinct (map rg_registry registries) \<and> list_all (endpoint_valid c) registries)"

text \<open>Inserting the identities of the candidates into a set, refusing a repetition.\<close>

fun collect_ids :: "fetch_codec \<Rightarrow> candidate list \<Rightarrow> string list \<Rightarrow> protocol_error + string list" where
  "collect_ids c [] ids = Inr ids"
| "collect_ids c (k # ks) ids =
     andThen (candidate_id c k) (\<lambda>i.
     andThen (ensure (i \<notin> set ids) invalid_dependency) (\<lambda>_. collect_ids c ks (i # ids)))"

definition validate_dependencies :: "fetch_codec \<Rightarrow> approved_dependencies \<Rightarrow> u64 \<Rightarrow> protocol_error + unit" where
  "validate_dependencies c d now_ms =
     andThen (map_err (\<lambda>_. invalid_dependency) (parse_path (ad_lockfile_path d) False)) (\<lambda>path.
     andThen (ensure (\<not> (\<not> canonical_digest (ad_input_manifest_digest d) \<or> \<not> canonical_digest (ad_lockfile_digest d)
        \<or> 32 < length (ad_preapproved d) \<or> ad_max_fetches d = 0 \<or> 4096 < ad_max_fetches d
        \<or> ad_max_bytes d = 0 \<or> 1073741824 < ad_max_bytes d \<or> ad_expires_at_ms d \<le> now_ms
        \<or> file_name path \<noteq> ''Cargo.lock'')) invalid_dependency) (\<lambda>_.
     andThen (ensure (transport_valid c (ad_registries d) 30000) invalid_dependency) (\<lambda>_.
     andThen (collect_ids c (ad_preapproved d) []) (\<lambda>_.
     ensure (length (dependencies_json c d) \<le> 32 * 1024) invalid_dependency))))"

definition validate_dependency_request :: "fetch_codec \<Rightarrow> dependency_request \<Rightarrow> protocol_error + unit" where
  "validate_dependency_request c q =
     andThen (validate_candidate c (dr_candidate q)) (\<lambda>_.
     ensure (\<not> (\<not> is_record_identifier (dr_request_id q) \<or> dr_max_bytes q = 0 \<or> MAX_CACHE_BYTES < dr_max_bytes q))
       invalid_dependency)"

subsection \<open>Starting lockfile\<close>

record starting_lockfile =
  sl_digest :: string
  sl_entries :: "candidate list"

record lock_package =
  lp_name :: string
  lp_version :: string
  lp_source :: "string option"
  lp_checksum :: "string option"

record cargo_lock =
  cl_version :: u32
  cl_package :: "lock_package list"

definition source_of_locator :: "string \<Rightarrow> protocol_error + dependency_source" where
  "source_of_locator locator =
     (if locator = ''registry+https://github.com/rust-lang/crates.io-index'' then Inr (Registry ''crates-io'')
      else case (case strip_prefix ''registry+'' locator of Some r \<Rightarrow> Some r | None \<Rightarrow> strip_prefix ''sparse+'' locator) of
        Some r \<Rightarrow> Inr (Registry r)
      | None \<Rightarrow>
          (case strip_prefix ''git+'' locator of
             Some git \<Rightarrow> andThen (ok_or (rsplit_once CHR ''#'' git) invalid_dependency)
               (\<lambda>(repository, revision). Inr (Git repository revision))
           | None \<Rightarrow> Inr (Other_Source locator)))"

fun lock_entries ::
  "fetch_codec \<Rightarrow> lock_package list \<Rightarrow> (string \<times> string \<times> string) list \<Rightarrow> candidate list
     \<Rightarrow> protocol_error + candidate list" where
  "lock_entries c [] identities entries = Inr entries"
| "lock_entries c (p # ps) identities entries =
     (case lp_source p of
        None \<Rightarrow> andThen (ensure (lp_checksum p = None) invalid_dependency) (\<lambda>_. lock_entries c ps identities entries)
      | Some locator \<Rightarrow>
          andThen (ensure ((lp_name p, lp_version p, locator) \<notin> set identities) invalid_dependency) (\<lambda>_.
          andThen (source_of_locator locator) (\<lambda>src.
          let k = \<lparr>ca_name = lp_name p, ca_version = lp_version p, ca_source = src,
                ca_integrity = map_option (\<lambda>sum. ''sha256:'' @ sum) (lp_checksum p)\<rparr>
          in andThen (validate_candidate c k) (\<lambda>_.
             lock_entries c ps ((lp_name p, lp_version p, locator) # identities) (entries @ [k])))))"

text \<open>\<open>toml\<close> reads the bytes as UTF-8 text and then as the closed lockfile document.\<close>

definition cargo_lockfile ::
  "fetch_codec \<Rightarrow> (string \<Rightarrow> cargo_lock option) \<Rightarrow> string \<Rightarrow> protocol_error + starting_lockfile" where
  "cargo_lockfile c toml bytes =
     andThen (ensure (length bytes \<le> 4 * 1024 * 1024) invalid_dependency) (\<lambda>_.
     andThen (ok_or (toml bytes) invalid_dependency) (\<lambda>document.
     andThen (ensure ((cl_version document = 3 \<or> cl_version document = 4)
        \<and> length (cl_package document) \<le> MAX_CANDIDATES) invalid_dependency) (\<lambda>_.
     andThen (lock_entries c (cl_package document) [] []) (\<lambda>entries.
     Inr \<lparr>sl_digest = digest_text (digest_of (fetch_sha c) bytes), sl_entries = entries\<rparr>))))"

subsection \<open>The owner of one lifetime\<close>

record dependency_policy =
  py_session_id :: string
  py_run_id :: string
  py_envelope_revision :: u64
  py_attendance :: attendance
  py_starting :: starting_lockfile
  py_preapproved :: "candidate list"
  py_expires_at_ms :: u64
  py_max_fetches :: u32
  py_max_bytes :: u64

datatype decision = Authorized | Decision_Pending string | Denied

text \<open>\<open>ds_generation\<close> is the identity of the shared flag that a permit keeps; \<open>ds_pending\<close> is ordered by its keys.\<close>

record dependency_session =
  ds_policy :: dependency_policy
  ds_approved :: "string list"
  ds_pending :: "(string \<times> candidate) list"
  ds_revoked :: bool
  ds_generation :: nat
  ds_remaining_fetches :: u32
  ds_remaining_bytes :: u64

record fetch_permit =
  fp_generation :: nat
  fp_candidate :: candidate
  fp_max_bytes :: u64
  fp_deadline :: nat

definition new_session ::
  "fetch_codec \<Rightarrow> dependency_policy \<Rightarrow> nat \<Rightarrow> u64 \<Rightarrow> protocol_error + dependency_session" where
  "new_session c p generation now_ms =
     andThen (ensure (\<not> (\<not> is_record_identifier (py_session_id p) \<or> py_envelope_revision p = 0
        \<or> \<not> is_record_identifier (py_run_id p) \<or> py_max_fetches p = 0 \<or> 4096 < py_max_fetches p
        \<or> py_max_bytes p = 0 \<or> 1073741824 < py_max_bytes p \<or> py_expires_at_ms p \<le> now_ms
        \<or> MAX_CANDIDATES < length (py_preapproved p))) invalid_dependency) (\<lambda>_.
     andThen (collect_ids c (py_preapproved p) []) (\<lambda>ids.
     Inr \<lparr>ds_policy = p, ds_approved = ids, ds_pending = [], ds_revoked = False, ds_generation = generation,
       ds_remaining_fetches = py_max_fetches p, ds_remaining_bytes = py_max_bytes p\<rparr>))"

definition check_active :: "dependency_session \<Rightarrow> u64 \<Rightarrow> protocol_error + unit" where
  "check_active s now_ms =
     ensure (\<not> (ds_revoked s \<or> py_expires_at_ms (ds_policy s) \<le> now_ms)) invalid_dependency"

definition check_binding ::
  "dependency_session \<Rightarrow> string \<Rightarrow> string \<Rightarrow> u64 \<Rightarrow> u64 \<Rightarrow> protocol_error + unit" where
  "check_binding s session run revision now_ms =
     andThen (check_active s now_ms) (\<lambda>_.
     andThen (ensure (\<not> (py_session_id (ds_policy s) \<noteq> session \<or> py_run_id (ds_policy s) \<noteq> run)) (failure Subject_Mismatch)) (\<lambda>_.
     ensure (py_envelope_revision (ds_policy s) = revision) (failure Envelope_Revision_Mismatch)))"

definition consider_candidate ::
  "fetch_codec \<Rightarrow> candidate \<Rightarrow> u64 \<Rightarrow> (dependency_session, protocol_error, decision) op" where
  "consider_candidate c k now_ms s =
     (case andThen (check_active s now_ms) (\<lambda>_. candidate_id c k) of
        Inl e \<Rightarrow> (Inl e, s)
      | Inr i \<Rightarrow>
          if i \<in> set (ds_approved s) \<or> automatic k \<and> k \<in> set (sl_entries (py_starting (ds_policy s)))
          then (Inr Authorized, s)
          else if py_attendance (ds_policy s) = Unattended then (Inr Denied, s)
          else if map_of (ds_pending s) i = None \<and> MAX_CANDIDATES \<le> length (ds_pending s) + length (ds_approved s)
          then (Inl invalid_dependency, s)
          else (Inr (Decision_Pending i), s\<lparr>ds_pending := btree_put i k (ds_pending s)\<rparr>))"

definition approve_batch ::
  "string list \<Rightarrow> u64 \<Rightarrow> (dependency_session, protocol_error, unit) op" where
  "approve_batch ids now_ms s =
     (case check_active s now_ms of
        Inl e \<Rightarrow> (Inl e, s)
      | Inr _ \<Rightarrow>
          if py_attendance (ds_policy s) \<noteq> Interactive \<or> ids = [] \<or> MAX_CANDIDATES < length ids \<or> \<not> distinct ids
             \<or> list_ex (\<lambda>i. map_of (ds_pending s) i = None) ids
          then (Inl invalid_dependency, s)
          else (Inr (), s\<lparr>ds_pending := filter (\<lambda>(i, _). i \<notin> set ids) (ds_pending s),
                  ds_approved := fold List.insert ids (ds_approved s)\<rparr>))"

text \<open>The flags of all generations are a store of their own: a permit may outlive its owner.\<close>

definition revoke_session ::
  "dependency_session \<Rightarrow> (nat \<Rightarrow> bool) \<Rightarrow> dependency_session \<times> (nat \<Rightarrow> bool)" where
  "revoke_session s flags =
     (s\<lparr>ds_revoked := True, ds_pending := []\<rparr>, flags(ds_generation s := False))"

definition begin_fetch ::
  "fetch_codec \<Rightarrow> candidate \<Rightarrow> u64 \<Rightarrow> u64 \<Rightarrow> nat \<Rightarrow> (dependency_session, protocol_error, fetch_permit) op" where
  "begin_fetch c k max_bytes now_ms instant_ms =
     bind_op (consider_candidate c k now_ms) (\<lambda>d s.
       if d \<noteq> Authorized \<or> max_bytes = 0 \<or> MAX_CACHE_BYTES < max_bytes \<or> ds_remaining_bytes s < max_bytes
          \<or> ds_remaining_fetches s = 0
       then (Inl invalid_dependency, s)
       else (Inr \<lparr>fp_generation = ds_generation s, fp_candidate = k, fp_max_bytes = max_bytes,
               fp_deadline = instant_ms + unat (py_expires_at_ms (ds_policy s) - now_ms)\<rparr>,
             s\<lparr>ds_remaining_fetches := ds_remaining_fetches s - 1,
               ds_remaining_bytes := ds_remaining_bytes s - max_bytes\<rparr>))"

subsection \<open>Completion\<close>

datatype fetch_error = Fetch_Policy protocol_error | Integrity | Cache_Failed string | Transport_Failed

record artifact =
  ar_name :: string
  ar_digest :: string
  ar_size :: u64
  ar_integrity_verified :: bool

definition validate_artifact :: "artifact \<Rightarrow> protocol_error + unit" where
  "validate_artifact a =
     andThen (map_err (\<lambda>_. invalid_dependency) (parse_digest (ar_digest a))) (\<lambda>d.
     ensure (\<not> (digest_text d \<noteq> ar_digest a \<or> ar_name a \<noteq> ''artifact-'' @ d \<or> MAX_CACHE_BYTES < ar_size a))
       invalid_dependency)"

definition permit_active :: "fetch_permit \<Rightarrow> (nat \<Rightarrow> bool) \<Rightarrow> nat \<Rightarrow> fetch_error + unit" where
  "permit_active p flags instant_ms =
     ensure (flags (fp_generation p) \<and> instant_ms < fp_deadline p) (Fetch_Policy invalid_dependency)"

text \<open>\<open>publish\<close> is the cache overlay of a Session: it stores the bytes under their digest and names the file.\<close>

definition finish_fetch ::
  "fetch_codec \<Rightarrow> fetch_permit \<Rightarrow> string \<Rightarrow> string \<Rightarrow> (digest \<Rightarrow> string \<Rightarrow> 'o \<Rightarrow> (fetch_error + string) \<times> 'o)
     \<Rightarrow> u64 \<Rightarrow> (nat \<Rightarrow> bool) \<Rightarrow> nat \<Rightarrow> dependency_session \<Rightarrow> 'o \<Rightarrow> (fetch_error + artifact) \<times> 'o" where
  "finish_fetch c p bytes overlay_session publish now_ms flags instant_ms s cache =
     (let d = digest_of (fetch_sha c) bytes in
      case andThen (map_err Fetch_Policy (check_active s now_ms)) (\<lambda>_.
           andThen (permit_active p flags instant_ms) (\<lambda>_.
           andThen (ensure (ds_generation s = fp_generation p \<and> overlay_session = py_session_id (ds_policy s))
              (Fetch_Policy invalid_dependency)) (\<lambda>_.
           andThen (ensure (\<not> unat (fp_max_bytes p) < length bytes) Integrity) (\<lambda>_.
           ensure (case ca_integrity (fp_candidate p) of None \<Rightarrow> True | Some expected \<Rightarrow> expected = digest_text d)
              Integrity)))) of
        Inl e \<Rightarrow> (Inl e, cache)
      | Inr _ \<Rightarrow>
          (case publish d bytes cache of
             (Inl e, cache') \<Rightarrow> (Inl e, cache')
           | (Inr name, cache') \<Rightarrow>
               (Inr \<lparr>ar_name = name, ar_digest = digest_text d, ar_size = of_nat (length bytes),
                  ar_integrity_verified = ca_integrity (fp_candidate p) \<noteq> None\<rparr>, cache')))"

subsection \<open>Statuses and cache fragments\<close>

datatype dependency_status = Dep_Pending string | Dep_Complete artifact | Dep_Denied | Dep_Unknown

definition validate_dependency_status :: "dependency_status \<Rightarrow> protocol_error + unit" where
  "validate_dependency_status x =
     (case x of Dep_Pending i \<Rightarrow> ensure (canonical_digest i) invalid_dependency
      | Dep_Complete a \<Rightarrow> validate_artifact a
      | _ \<Rightarrow> Inr ())"

record cache_chunk =
  ch_candidate_id :: string
  ch_artifact_digest :: string
  ch_total_size :: u64
  ch_offset :: u64
  ch_bytes :: string
  ch_head :: receipt_head
  ch_expires_at_ms :: u64

definition CACHE_CHUNK_BYTES :: nat where
  "CACHE_CHUNK_BYTES = 8192"

definition validate_chunk :: "cache_chunk \<Rightarrow> protocol_error + unit" where
  "validate_chunk k =
     ensure (\<not> (\<not> canonical_digest (ch_candidate_id k) \<or> \<not> canonical_digest (ch_artifact_digest k)
        \<or> \<not> canonical_digest (head_digest (ch_head k)) \<or> MAX_CACHE_BYTES < ch_total_size k
        \<or> CACHE_CHUNK_BYTES < length (ch_bytes k) \<or> ch_bytes k = []
        \<or> (case checked_add (ch_offset k) (of_nat (length (ch_bytes k))) of
             None \<Rightarrow> True | Some stop \<Rightarrow> ch_total_size k < stop))) invalid_dependency"

end
