(* ===== verification/Vault.thy ===== *)
theory Vault
  imports Broker Record_Store
begin

section \<open>Create-only record directories of the broker\<close>

text \<open>
  skills-core/src/broker.rs keeps its durable state in files that are written once: a new record
  must not exist, its bytes and its directory entry are synced before the call returns, and a
  failure is reported without repair. A vault is the list of files of one record type, each in
  a directory, and the faults the next file-system calls will meet: \<open>Failed\<close> leaves nothing,
  \<open>Torn\<close> leaves a file whose bytes do not parse, \<open>Unsynced\<close> leaves the complete file behind an
  error. No operation here removes a file; the
  authorization store, which does, has an operation of its own.
\<close>

datatype vault_fault = Vault_Ok | Failed | Torn | Unsynced

record 'r vault =
  v_files :: "((string \<times> string) \<times> 'r entry) list"
  v_listable :: bool
  v_faults :: "vault_fault list"

type_synonym ('r, 'a) vault_op = "('r vault, broker_error, 'a) op"

definition vault_file :: "'r vault \<Rightarrow> string \<Rightarrow> string \<Rightarrow> 'r entry option" where
  "vault_file v dir name = map_of (v_files v) (dir, name)"

definition read_entry :: "'r entry option \<Rightarrow> broker_error + 'r option" where
  "read_entry e =
     (case e of None \<Rightarrow> Inr None
      | Some Malformed \<Rightarrow> Inl (corrupt ''broker record is malformed'')
      | Some Unreadable \<Rightarrow> Inl (Storage ''unreadable'')
      | Some (Stored r) \<Rightarrow> Inr (Some r))"

definition read_record :: "string \<Rightarrow> string \<Rightarrow> 'r vault \<Rightarrow> broker_error + 'r option" where
  "read_record dir name v = read_entry (vault_file v dir name)"

definition next_vault_fault :: "'r vault \<Rightarrow> vault_fault" where
  "next_vault_fault v = (case v_faults v of [] \<Rightarrow> Vault_Ok | f # _ \<Rightarrow> f)"

definition after_fault :: "'r vault \<Rightarrow> 'r vault" where
  "after_fault v = v\<lparr>v_faults := tl (v_faults v)\<rparr>"

text \<open>A directory operation (\<open>create_dir_all\<close>, \<open>sync_directory\<close>, syncing an existing file).\<close>

definition vault_call :: "('r, unit) vault_op" where
  "vault_call v = (if next_vault_fault v = Vault_Ok then Inr () else Inl (Storage ''io''), after_fault v)"

definition add_file :: "string \<Rightarrow> string \<Rightarrow> 'r entry \<Rightarrow> 'r vault \<Rightarrow> 'r vault" where
  "add_file dir name e v = v\<lparr>v_files := v_files v @ [((dir, name), e)]\<rparr>"

definition write_new_record :: "string \<Rightarrow> string \<Rightarrow> 'r \<Rightarrow> ('r, unit) vault_op" where
  "write_new_record dir name r v =
     (if vault_file v dir name \<noteq> None then (Inl Duplicate_Authorization, after_fault v)
      else case next_vault_fault v of
        Vault_Ok \<Rightarrow> (Inr (), add_file dir name (Stored r) (after_fault v))
      | Failed \<Rightarrow> (Inl (Storage ''io''), after_fault v)
      | Torn \<Rightarrow> (Inl (Storage ''io''), add_file dir name Malformed (after_fault v))
      | Unsynced \<Rightarrow> (Inl (Storage ''io''), add_file dir name (Stored r) (after_fault v)))"

text \<open>The names in a directory, in the order the file system lists them.\<close>

definition dir_names :: "'r vault \<Rightarrow> string \<Rightarrow> string list" where
  "dir_names v dir = map (snd \<circ> fst) (filter (\<lambda>((d, _), _). d = dir) (v_files v))"

subsection \<open>Records stay\<close>

definition vault_ok :: "'r vault \<Rightarrow> bool" where
  "vault_ok v \<longleftrightarrow> distinct (map fst (v_files v))"

text \<open>\<open>extends\<close>: nothing that was stored is lost or changed.\<close>

definition extends :: "'r vault \<Rightarrow> 'r vault \<Rightarrow> bool" where
  "extends v v' \<longleftrightarrow> (\<forall>dir name e. vault_file v dir name = Some e \<longrightarrow> vault_file v' dir name = Some e)"

lemma extends_refl [simp]: "extends v v"
  by (simp add: extends_def)

lemma extends_trans: "extends u v \<Longrightarrow> extends v w \<Longrightarrow> extends u w"
  by (simp add: extends_def)

lemma vault_file_after [simp]: "vault_file (after_fault v) = vault_file v" "v_files (after_fault v) = v_files v"
  "v_listable (after_fault v) = v_listable v"
  by (simp_all add: vault_file_def after_fault_def fun_eq_iff)

lemma vault_file_add:
  "vault_file v dir name = None \<Longrightarrow> vault_file (add_file dir name e v) d n =
     (if d = dir \<and> n = name then Some e else vault_file v d n)"
  by (auto simp: vault_file_def add_file_def map_add_def split: option.split)

lemma vault_ok_add: "vault_ok v \<Longrightarrow> vault_file v dir name = None \<Longrightarrow> vault_ok (add_file dir name e v)"
  by (auto simp: vault_ok_def vault_file_def add_file_def map_of_eq_None_iff)

lemma vault_call_cases:
  "vault_call v = (r, v') \<Longrightarrow> v_files v' = v_files v \<and> v_listable v' = v_listable v"
  by (auto simp: vault_call_def)

lemma vault_file_files: "v_files v' = v_files v \<Longrightarrow> vault_file v' = vault_file v"
  by (simp add: vault_file_def fun_eq_iff)

lemma write_new_record_cases:
  assumes "write_new_record dir name r v = (x, v')"
  shows "v_listable v' = v_listable v \<and>
    ((x \<noteq> Inr () \<and> v_files v' = v_files v)
     \<or> (vault_file v dir name = None \<and> v_files v' = v_files v @ [((dir, name), Stored r)])
     \<or> (vault_file v dir name = None \<and> x \<noteq> Inr () \<and> v_files v' = v_files v @ [((dir, name), Malformed)]))"
  using assms
  by (auto simp: write_new_record_def add_file_def split: if_splits vault_fault.splits)

lemma write_new_record_Inr:
  "write_new_record dir name r v = (Inr u, v') \<Longrightarrow>
     vault_file v dir name = None \<and> v_files v' = v_files v @ [((dir, name), Stored r)]"
  by (auto simp: write_new_record_def add_file_def split: if_splits vault_fault.splits)

lemma vault_file_snoc:
  "vault_file v dir name = None \<Longrightarrow> v_files v' = v_files v @ [((dir, name), e)] \<Longrightarrow>
     vault_file v' d n = (if d = dir \<and> n = name then Some e else vault_file v d n)"
  by (auto simp: vault_file_def map_add_def split: option.split)

lemma vault_ok_snoc:
  "vault_ok v \<Longrightarrow> vault_file v dir name = None \<Longrightarrow> v_files v' = v_files v @ [((dir, name), e)] \<Longrightarrow> vault_ok v'"
  by (auto simp: vault_ok_def vault_file_def map_of_eq_None_iff)

lemma vault_ok_files: "v_files v' = v_files v \<Longrightarrow> vault_ok v' = vault_ok v"
  by (simp add: vault_ok_def)

lemma extends_files: "v_files v' = v_files v \<Longrightarrow> extends v v'"
  using vault_file_files [of v' v] by (simp add: extends_def)

lemma extends_snoc:
  assumes "vault_file v dir name = None" and "v_files v' = v_files v @ [((dir, name), e)]"
  shows "extends v v'"
  unfolding extends_def using assms(1) by (auto simp: vault_file_snoc [OF assms])

lemma write_new_record_extends:
  assumes "write_new_record dir name r v = (x, v')"
  shows "extends v v' \<and> (vault_ok v \<longrightarrow> vault_ok v')"
proof -
  from write_new_record_cases [OF assms] consider "v_files v' = v_files v"
    | e where "vault_file v dir name = None" "v_files v' = v_files v @ [((dir, name), e)]" by auto
  then show ?thesis
  proof cases
    case 1
    then show ?thesis using extends_files vault_ok_files by blast
  next
    case 2
    then show ?thesis using extends_snoc vault_ok_snoc by blast
  qed
qed

lemma vault_call_extends: "vault_call v = (x, v') \<Longrightarrow> extends v v' \<and> (vault_ok v \<longrightarrow> vault_ok v')"
  using vault_call_cases extends_files vault_ok_files by metis

lemma in_dir_names: "name \<in> set (dir_names v dir) \<longleftrightarrow> vault_file v dir name \<noteq> None"
  by (force simp: dir_names_def vault_file_def map_of_eq_None_iff)

lemma distinct_dir_names:
  assumes "vault_ok v"
  shows "distinct (dir_names v dir)"
proof -
  let ?fs = "filter (\<lambda>((d, _), _). d = dir) (v_files v)"
  have "map fst ?fs = map (Pair dir) (dir_names v dir)" by (induction "v_files v") (auto simp: dir_names_def)
  moreover have "distinct (map fst ?fs)" using assms by (simp add: vault_ok_def distinct_map_filter)
  ultimately show ?thesis by (metis distinct_map)
qed

subsection \<open>Without faults\<close>

lemma calm_vault: "v_faults v = [] \<Longrightarrow> v\<lparr>v_faults := [], v_files := fs\<rparr> = v\<lparr>v_files := fs\<rparr>" for v :: "'r vault"
  by (cases v) simp

lemma after_fault_calm: "v_faults v = [] \<Longrightarrow> after_fault v = v" for v :: "'r vault"
  by (cases v) (simp add: after_fault_def)

definition empty_vault :: "'r vault" where
  "empty_vault = \<lparr>v_files = [], v_listable = True, v_faults = []\<rparr>"

definition faultless :: "'r vault \<Rightarrow> bool" where
  "faultless v \<longleftrightarrow> v_faults v = [] \<and> v_listable v"

lemma faultless_ops:
  assumes "faultless v"
  shows "vault_call v = (Inr (), v)"
    and "vault_file v dir n = None \<Longrightarrow> write_new_record dir n f v = (Inr (), add_file dir n (Stored f) v)"
    and "faultless (add_file dir n e v)"
  using assms by (simp_all add: faultless_def vault_call_def write_new_record_def next_vault_fault_def after_fault_calm add_file_def)

end
