(* ===== verification/Run_Envelope.thy ===== *)
theory Run_Envelope
  imports Dependency_Policy Vault
begin

section \<open>Run envelopes\<close>

text \<open>
  skills-core/src/broker/run_envelope.rs: the operator's approval that bounds every Session of a
  Run. The store keeps one record per revision in the directory of the Run and never rewrites
  one; a child grant is checked against the current revision and may only narrow it. The mutex
  that serialises the operations is the sequential order of the model; the lifecycle guard of
  the caller and the durable child authorization are arguments.
\<close>

subsection \<open>Data\<close>

record run_envelope =
  re_schema :: string
  re_run_id :: string
  re_envelope_id :: string
  re_envelope_revision :: u64
  re_controller_uid :: u32
  re_bead_scope :: "approved_beads_mutations option"
  re_provider_requests :: "approved_provider_requests option"
  re_commands :: "approved_commands option"
  re_skill_requests :: "approved_skill_requests option"
  re_verification_plan_digest :: string
  re_max_sessions :: u32
  re_expires_at_ms :: u64

record grant_request =
  gq_role :: launch_role
  gq_dependencies :: "approved_dependencies option"
  gq_conformance :: conformance_authorization
  gq_require_cold_recovery :: bool
  gq_request :: launch_request
  gq_controller_uid :: u32
  gq_expires_at_ms :: u64
  gq_broker_loss_grace_ms :: u32
  gq_commands :: "approved_commands option"
  gq_skill_requests :: "approved_skill_requests option"
  gq_beads_mutations :: "approved_beads_mutations option"
  gq_provider_requests :: "approved_provider_requests option"

record run_authorization =
  rz_schema :: string
  rz_run_id :: string
  rz_envelope_revision :: u64
  rz_envelope_digest :: string

record envelope_codec =
  urls :: url_reader
  envelope_json :: "run_envelope \<Rightarrow> string"
  envelope_sha :: "string \<Rightarrow> u8 list"

definition envelope_digest :: "envelope_codec \<Rightarrow> run_envelope \<Rightarrow> string" where
  "envelope_digest c e = digest_text (digest_of (envelope_sha c) (envelope_json c e))"

subsection \<open>Validation\<close>

definition scope_rejected :: "('a \<Rightarrow> bool) \<Rightarrow> ('a \<Rightarrow> u64) \<Rightarrow> u64 \<Rightarrow> 'a option \<Rightarrow> bool" where
  "scope_rejected ok expiry limit scope =
     (case scope of None \<Rightarrow> False | Some s \<Rightarrow> \<not> ok s \<or> limit < expiry s)"

definition envelope_ok :: "envelope_codec \<Rightarrow> run_envelope \<Rightarrow> u64 \<Rightarrow> bool" where
  "envelope_ok c e now_ms = (\<not> (re_schema e \<noteq> ''louiselm.broker.run-envelope/2''
     \<or> \<not> is_ok (record_name (re_run_id e)) \<or> \<not> is_ok (record_name (re_envelope_id e))
     \<or> re_envelope_revision e = 0 \<or> re_controller_uid e = 0
     \<or> \<not> (1 \<le> re_max_sessions e \<and> re_max_sessions e \<le> 32) \<or> re_expires_at_ms e \<le> now_ms
     \<or> scope_rejected (\<lambda>s. beads_valid s now_ms) ab_expires_at_ms (re_expires_at_ms e) (re_bead_scope e)
     \<or> scope_rejected (\<lambda>s. provider_valid (urls c) s now_ms) av_expires_at_ms (re_expires_at_ms e) (re_provider_requests e)
     \<or> scope_rejected (\<lambda>s. skills_valid s now_ms) ask_expires_at_ms (re_expires_at_ms e) (re_skill_requests e)
     \<or> scope_rejected (\<lambda>s. is_ok (commands_policy s (re_envelope_id e) now_ms 0)) ac_expires_at_ms
         (re_expires_at_ms e) (re_commands e)
     \<or> \<not> canonical_digest (re_verification_plan_digest e)))"

definition validate_envelope :: "envelope_codec \<Rightarrow> run_envelope \<Rightarrow> u64 \<Rightarrow> broker_error + unit" where
  "validate_envelope c e now_ms = ensure (envelope_ok c e now_ms) Invalid_Grant"

definition child_commands_ok :: "approved_commands option \<Rightarrow> approved_commands option \<Rightarrow> bool" where
  "child_commands_ok parent child =
     (case (parent, child) of
        (_, None) \<Rightarrow> True
      | (Some p, Some k) \<Rightarrow> ac_command_digest k = ac_command_digest p \<and> ac_timeout_ms k \<le> ac_timeout_ms p
          \<and> ac_expires_at_ms k \<le> ac_expires_at_ms p \<and> (\<not> ac_allow_delegation k \<or> ac_allow_delegation p)
          \<and> (case (ac_uses p, ac_uses k) of (None, _) \<Rightarrow> True | (Some limit, Some n) \<Rightarrow> n \<le> limit | (Some _, None) \<Rightarrow> False)
      | _ \<Rightarrow> False)"

definition child_skills_ok :: "u64 \<Rightarrow> approved_skill_requests option \<Rightarrow> approved_skill_requests option \<Rightarrow> bool" where
  "child_skills_ok now_ms parent child =
     (case child of None \<Rightarrow> True | Some k \<Rightarrow> (case parent of None \<Rightarrow> False | Some p \<Rightarrow>
        \<not> (\<not> skills_valid k now_ms \<or> ask_allow_run k \<and> \<not> ask_allow_run p \<or> ask_allow_supply k \<and> \<not> ask_allow_supply p
          \<or> ask_expires_at_ms p < ask_expires_at_ms k
          \<or> \<not> list_all (\<lambda>agent. agent \<in> set (ask_agents p)) (ask_agents k))))"

definition child_beads_ok :: "u64 \<Rightarrow> approved_beads_mutations option \<Rightarrow> approved_beads_mutations option \<Rightarrow> bool" where
  "child_beads_ok now_ms parent child =
     (case child of None \<Rightarrow> True | Some k \<Rightarrow> (case parent of None \<Rightarrow> False | Some p \<Rightarrow>
        \<not> (\<not> beads_valid k now_ms \<or> ab_project_digest k \<noteq> ab_project_digest p
          \<or> ab_role k = Coordinator \<and> ab_role p \<noteq> Coordinator
          \<or> ab_max_mutations p < ab_max_mutations k \<or> ab_expires_at_ms p < ab_expires_at_ms k
          \<or> \<not> list_all (\<lambda>i. i \<in> set (ab_issue_ids p)) (ab_issue_ids k)
          \<or> \<not> list_all (\<lambda>e. e \<in> set (ab_effects p)) (ab_effects k))))"

definition child_provider_ok ::
  "url_reader \<Rightarrow> u64 \<Rightarrow> approved_provider_requests option \<Rightarrow> approved_provider_requests option \<Rightarrow> bool" where
  "child_provider_ok u now_ms parent child =
     (case child of None \<Rightarrow> True | Some k \<Rightarrow> (case parent of None \<Rightarrow> False | Some p \<Rightarrow>
        \<not> (\<not> provider_valid u k now_ms \<or> av_disclosure_profile k \<noteq> av_disclosure_profile p
          \<or> av_provider k \<noteq> av_provider p \<or> av_upstream k \<noteq> av_upstream p
          \<or> av_max_run_requests k \<noteq> av_max_run_requests p \<or> av_max_effort p < av_max_effort k
          \<or> av_expires_at_ms p < av_expires_at_ms k
          \<or> \<not> list_all (\<lambda>i. i \<in> set (av_addresses p)) (av_addresses k)
          \<or> \<not> list_all (\<lambda>m. m \<in> set (av_models p)) (av_models k))))"

definition permits_child ::
  "envelope_codec \<Rightarrow> run_envelope \<Rightarrow> grant_request \<Rightarrow> u64 \<Rightarrow> broker_error + unit" where
  "permits_child c e g now_ms =
     andThen (validate_envelope c e now_ms) (\<lambda>_.
     andThen (ensure (\<not> (lq_run_id (gq_request g) \<noteq> re_run_id e \<or> lq_envelope_id (gq_request g) \<noteq> re_envelope_id e
        \<or> lq_envelope_revision (gq_request g) \<noteq> re_envelope_revision e \<or> gq_controller_uid g \<noteq> re_controller_uid e
        \<or> re_expires_at_ms e < gq_expires_at_ms g \<or> gq_dependencies g \<noteq> None)) Invalid_Grant) (\<lambda>_.
     andThen (ensure (child_commands_ok (re_commands e) (gq_commands g)) Invalid_Grant) (\<lambda>_.
     andThen (ensure (child_skills_ok now_ms (re_skill_requests e) (gq_skill_requests g)) Invalid_Grant) (\<lambda>_.
     andThen (ensure (child_beads_ok now_ms (re_bead_scope e) (gq_beads_mutations g)) Invalid_Grant) (\<lambda>_.
     ensure (child_provider_ok (urls c) now_ms (re_provider_requests e) (gq_provider_requests g)) Invalid_Grant)))))"

subsection \<open>The store\<close>

definition revision_name :: "u64 \<Rightarrow> string" where
  "revision_name n = decimal (unat n) @ ''.json''"

definition load_revision ::
  "envelope_codec \<Rightarrow> string \<Rightarrow> run_envelope vault \<Rightarrow> string \<Rightarrow> broker_error + run_envelope" where
  "load_revision c run v name =
     andThen (read_record run name v) (\<lambda>found.
     andThen (ok_or found Invalid_Grant) (\<lambda>r.
     andThen (validate_envelope c r 0) (\<lambda>_.
     andThen (ensure (re_run_id r = run \<and> name = revision_name (re_envelope_revision r)) Invalid_Grant) (\<lambda>_.
     Inr r))))"

fun scan_revisions ::
  "envelope_codec \<Rightarrow> string \<Rightarrow> run_envelope vault \<Rightarrow> string list \<Rightarrow> run_envelope option \<Rightarrow> u64 list
     \<Rightarrow> broker_error + run_envelope option \<times> u64 list" where
  "scan_revisions c run v [] latest seen = Inr (latest, seen)"
| "scan_revisions c run v (name # names) latest seen =
     andThen (load_revision c run v name) (\<lambda>r.
     andThen (ensure (re_envelope_revision r \<notin> set seen) Invalid_Grant) (\<lambda>_.
     scan_revisions c run v names
       (case latest of None \<Rightarrow> Some r
        | Some prior \<Rightarrow> if re_envelope_revision prior < re_envelope_revision r then Some r else latest)
       (re_envelope_revision r # seen)))"

definition current :: "envelope_codec \<Rightarrow> string \<Rightarrow> run_envelope vault \<Rightarrow> broker_error + run_envelope option" where
  "current c run v =
     andThen (record_name run) (\<lambda>_.
     andThen (ensure (v_listable v) (Storage ''io'')) (\<lambda>_.
     andThen (scan_revisions c run v (dir_names v run) None []) (\<lambda>(latest, seen).
     andThen (ensure (case latest of None \<Rightarrow> True | Some r \<Rightarrow> unat (re_envelope_revision r) = length seen) Invalid_Grant) (\<lambda>_.
     Inr latest))))"

definition next_revision :: "run_envelope option \<Rightarrow> broker_error + u64" where
  "next_revision prior =
     (case prior of None \<Rightarrow> Inr 1 | Some r \<Rightarrow> ok_or (checked_add (re_envelope_revision r) 1) Invalid_Grant)"

definition approve_with ::
  "envelope_codec \<Rightarrow> run_envelope \<Rightarrow> u64 \<Rightarrow> broker_error + unit \<Rightarrow> (run_envelope, run_authorization) vault_op" where
  "approve_with c e now_ms guard =
     bind_op (pure (validate_envelope c e now_ms)) (\<lambda>_.
     bind_op (pure guard) (\<lambda>_.
     bind_op (read_op (current c (re_run_id e))) (\<lambda>prior.
     bind_op (pure (next_revision prior)) (\<lambda>expected.
     bind_op (pure (ensure (re_envelope_revision e = expected) Invalid_Grant)) (\<lambda>_.
     bind_op vault_call (\<lambda>_.
     bind_op vault_call (\<lambda>_.
     bind_op (write_new_record (re_run_id e) (revision_name (re_envelope_revision e)) e) (\<lambda>_.
     pure (Inr \<lparr>rz_schema = ''louiselm.broker.run-authorization/1'', rz_run_id = re_run_id e,
       rz_envelope_revision = re_envelope_revision e, rz_envelope_digest = envelope_digest c e\<rparr>)))))))))"

definition approve ::
  "envelope_codec \<Rightarrow> run_envelope \<Rightarrow> u64 \<Rightarrow> (run_envelope, run_authorization) vault_op" where
  "approve c e now_ms = approve_with c e now_ms (Inr ())"

definition with_child ::
  "envelope_codec \<Rightarrow> grant_request \<Rightarrow> u64 \<Rightarrow> (run_envelope \<Rightarrow> broker_error + 'a) \<Rightarrow> run_envelope vault
     \<Rightarrow> broker_error + 'a" where
  "with_child c g now_ms authorize v =
     andThen (current c (lq_run_id (gq_request g)) v) (\<lambda>found.
     andThen (ok_or found Invalid_Grant) (\<lambda>e.
     andThen (permits_child c e g now_ms) (\<lambda>_. authorize e)))"

definition check_child ::
  "envelope_codec \<Rightarrow> grant_request \<Rightarrow> u64 \<Rightarrow> run_envelope vault \<Rightarrow> broker_error + run_envelope" where
  "check_child c g now_ms v = with_child c g now_ms Inr v"

definition inspect_envelope ::
  "envelope_codec \<Rightarrow> string \<Rightarrow> string \<Rightarrow> u32 \<Rightarrow> run_envelope vault \<Rightarrow> broker_error + unit" where
  "inspect_envelope c run expected_digest controller_uid v =
     andThen (current c run v) (\<lambda>found.
     andThen (ok_or found Invalid_Grant) (\<lambda>e.
     ensure (\<not> (re_controller_uid e \<noteq> controller_uid \<or> envelope_digest c e \<noteq> expected_digest)) Request_Mismatch))"

text \<open>The launch and the expiry are what the check reads of a verification request.\<close>

definition check_verification ::
  "envelope_codec \<Rightarrow> launch_request \<Rightarrow> u64 \<Rightarrow> string \<Rightarrow> u64 \<Rightarrow> run_envelope vault \<Rightarrow> broker_error + unit" where
  "check_verification c q expires_at_ms plan_digest now_ms v =
     andThen (current c (lq_run_id q) v) (\<lambda>found.
     andThen (ok_or found Invalid_Grant) (\<lambda>e.
     andThen (validate_envelope c e now_ms) (\<lambda>_.
     ensure (\<not> (lq_envelope_id q \<noteq> re_envelope_id e \<or> lq_envelope_revision q \<noteq> re_envelope_revision e
        \<or> re_expires_at_ms e < expires_at_ms \<or> plan_digest \<noteq> re_verification_plan_digest e)) Invalid_Grant)))"

definition check_bead_failure ::
  "envelope_codec \<Rightarrow> string \<Rightarrow> string \<Rightarrow> string \<Rightarrow> u32 \<Rightarrow> u64 \<Rightarrow> run_envelope vault
     \<Rightarrow> broker_error + approved_beads_mutations \<times> u64" where
  "check_bead_failure c run digest bead_id controller_uid now_ms v =
     andThen (current c run v) (\<lambda>found.
     andThen (ok_or found Invalid_Grant) (\<lambda>e.
     andThen (validate_envelope c e now_ms) (\<lambda>_.
     andThen (ok_or (re_bead_scope e) Invalid_Grant) (\<lambda>scope.
     andThen (ensure (\<not> (re_controller_uid e \<noteq> controller_uid \<or> envelope_digest c e \<noteq> digest
        \<or> bead_id \<notin> set (ab_issue_ids scope))) Invalid_Grant) (\<lambda>_.
     Inr (scope, re_envelope_revision e))))))"

end
