(* ===== verification/Run_Envelope_Properties.thy ===== *)
theory Run_Envelope_Properties
  imports Run_Envelope
begin

section \<open>Properties of Run envelopes\<close>

text \<open>
  What a child grant may do is something its envelope permits, for every later request; and
  what the operator approved stays the current revision, or is followed by greater ones.
\<close>

subsection \<open>Scopes over time\<close>

lemma beads_valid_time: "beads_valid a s \<Longrightarrow> t < ab_expires_at_ms a \<Longrightarrow> beads_valid a t"
  by (simp add: beads_valid_def)

lemma provider_valid_time: "provider_valid u a s \<Longrightarrow> t < av_expires_at_ms a \<Longrightarrow> provider_valid u a t"
  by (simp add: provider_valid_def)

lemma skills_valid_time: "skills_valid a s \<Longrightarrow> t < ask_expires_at_ms a \<Longrightarrow> skills_valid a t"
  by (simp add: skills_valid_def)

lemma commands_policy_Inr:
  "commands_policy a i now_ms k = Inr d \<longleftrightarrow> (\<exists>digest.
     parse_digest (ac_command_digest a) = Inr digest \<and> digest_text digest = ac_command_digest a
     \<and> scope_valid \<lparr>command_digest = digest, timeout_ms = ac_timeout_ms a, uses = ac_uses a\<rparr>
     \<and> now_ms < ac_expires_at_ms a
     \<and> d = \<lparr>dp_authorization_id = i, dp_scope = \<lparr>command_digest = digest, timeout_ms = ac_timeout_ms a, uses = ac_uses a\<rparr>,
         dp_allow_delegation = ac_allow_delegation a, dp_expires_at = k + unat (ac_expires_at_ms a - now_ms)\<rparr>)"
proof -
  have left: "Option.bind (checked_sub x y) (\<lambda>ms. if 0 < ms then Some ms else None) = Some z \<longleftrightarrow> y < x \<and> z = x - y"
    for x y z :: u64
  proof (cases "y < x")
    case True
    then have "unat y < unat x" by (simp add: word_less_nat_alt)
    moreover have "unat (x - y) = unat x - unat y" by (rule unat_sub) (use True in simp)
    ultimately have "0 < x - y" by (simp add: word_less_nat_alt)
    with True show ?thesis by (auto simp: checked_sub_def)
  next
    case False
    then show ?thesis by (auto simp: checked_sub_def)
  qed
  show ?thesis by (auto simp: commands_policy_def Let_def results left)
qed

lemma commands_policy_time:
  "commands_policy a i s k = Inr d \<Longrightarrow> t < ac_expires_at_ms a \<Longrightarrow> \<exists>d'. commands_policy a j t k' = Inr d'"
  by (auto simp: commands_policy_Inr)

lemma envelope_ok_scopes:
  assumes "envelope_ok c e now_ms"
  shows "now_ms < re_expires_at_ms e"
    and "\<And>s. re_bead_scope e = Some s \<Longrightarrow> beads_valid s now_ms \<and> ab_expires_at_ms s \<le> re_expires_at_ms e"
    and "\<And>s. re_provider_requests e = Some s \<Longrightarrow> provider_valid (urls c) s now_ms \<and> av_expires_at_ms s \<le> re_expires_at_ms e"
    and "\<And>s. re_skill_requests e = Some s \<Longrightarrow> skills_valid s now_ms \<and> ask_expires_at_ms s \<le> re_expires_at_ms e"
    and "\<And>s. re_commands e = Some s \<Longrightarrow> is_ok (commands_policy s (re_envelope_id e) now_ms 0) \<and> ac_expires_at_ms s \<le> re_expires_at_ms e"
  using assms by (auto simp: envelope_ok_def scope_rejected_def)

lemma envelope_ok_zero: "envelope_ok c e now_ms \<Longrightarrow> envelope_ok c e 0"
proof -
  assume ok: "envelope_ok c e now_ms"
  have pos: "0 < x" if "now_ms < x" for x :: u64 using that by (simp add: word_less_nat_alt)
  note scopes = envelope_ok_scopes [OF ok]
  have "beads_valid s 0" if "re_bead_scope e = Some s" for s
    using scopes(2) [OF that] beads_valid_time pos by (metis beads_valid_def)
  moreover have "provider_valid (urls c) s 0" if "re_provider_requests e = Some s" for s
    using scopes(3) [OF that] provider_valid_time pos by (metis provider_valid_def)
  moreover have "skills_valid s 0" if "re_skill_requests e = Some s" for s
    using scopes(4) [OF that] skills_valid_time pos by (metis skills_valid_def)
  moreover have "is_ok (commands_policy s (re_envelope_id e) 0 0)" if s: "re_commands e = Some s" for s
  proof -
    from scopes(5) [OF s] obtain d where d: "commands_policy s (re_envelope_id e) now_ms 0 = Inr d"
      by (auto simp: is_ok_iff)
    then have "now_ms < ac_expires_at_ms s" by (auto simp: commands_policy_Inr)
    with commands_policy_time [OF d, of 0] pos show ?thesis by (auto simp: is_ok_iff)
  qed
  ultimately show ?thesis using ok pos [OF scopes(1)]
    by (auto simp: envelope_ok_def scope_rejected_def not_le split: option.splits)
qed

subsection \<open>A child grant narrows the envelope\<close>

lemma child_beads_permits:
  assumes "child_beads_ok now_ms (Some p) (Some k)" and "beads_valid p now_ms" and "beads_permits k q t"
  shows "beads_permits p q t"
proof -
  from assms(1) have le: "ab_expires_at_ms k \<le> ab_expires_at_ms p" and role: "ab_role k = Coordinator \<longrightarrow> ab_role p = Coordinator"
    and sub: "set (ab_issue_ids k) \<subseteq> set (ab_issue_ids p)" "set (ab_effects k) \<subseteq> set (ab_effects p)"
    by (auto simp: child_beads_ok_def list_all_iff)
  from assms(3) le have "t < ab_expires_at_ms p" by (auto simp: beads_permits_def beads_valid_def Let_def)
  with assms(2) beads_valid_time have "beads_valid p t" by blast
  with assms(3) role sub show ?thesis
    by (auto simp: beads_permits_def permitted_role_def Let_def split: option.splits)
qed

lemma child_skills_permit:
  assumes "child_skills_ok now_ms (Some p) (Some k)" and "skills_valid p now_ms" and "skills_permit k q t"
  shows "skills_permit p q t"
proof -
  from assms(1) have le: "ask_expires_at_ms k \<le> ask_expires_at_ms p"
    and allow: "ask_allow_run k \<longrightarrow> ask_allow_run p" "ask_allow_supply k \<longrightarrow> ask_allow_supply p"
    and sub: "set (ask_agents k) \<subseteq> set (ask_agents p)"
    by (auto simp: child_skills_ok_def list_all_iff)
  from assms(3) le have "t < ask_expires_at_ms p" by (auto simp: skills_permit_def skills_valid_def)
  with assms(2) skills_valid_time have "skills_valid p t" by blast
  with assms(3) allow sub show ?thesis
    by (auto simp: skills_permit_def list_all_iff split: skill_subject.splits)
qed

lemma child_provider_permits:
  "child_provider_ok u now_ms (Some p) (Some k) \<Longrightarrow> provider_permits k m effort \<Longrightarrow>
     provider_permits p m effort \<and> av_upstream k = av_upstream p \<and> set (av_addresses k) \<subseteq> set (av_addresses p)
     \<and> av_max_run_requests k = av_max_run_requests p"
  by (auto simp: child_provider_ok_def provider_permits_def list_all_iff split: option.splits)

lemma child_commands_policy:
  assumes "child_commands_ok (Some p) (Some k)" and "commands_policy k i t n = Inr d"
    and "is_ok (commands_policy p j now_ms 0)"
  shows "\<exists>d'. commands_policy p i t n = Inr d' \<and> is_within (dp_scope d) (dp_scope d')
    \<and> (dp_allow_delegation d \<longrightarrow> dp_allow_delegation d') \<and> dp_expires_at d \<le> dp_expires_at d'"
proof -
  from assms(3) obtain d0 where d0: "commands_policy p j now_ms 0 = Inr d0" by (auto simp: is_ok_iff)
  from assms(1) have k: "ac_command_digest k = ac_command_digest p" "ac_timeout_ms k \<le> ac_timeout_ms p"
    "ac_expires_at_ms k \<le> ac_expires_at_ms p" "ac_allow_delegation k \<longrightarrow> ac_allow_delegation p"
    "uses_within (ac_uses k) (ac_uses p)"
    by (auto simp: child_commands_ok_def uses_within_def split: option.splits)
  from assms(2) have t: "t < ac_expires_at_ms k" by (auto simp: commands_policy_Inr)
  with k(3) have tp: "t < ac_expires_at_ms p" by simp
  obtain d' where d': "commands_policy p i t n = Inr d'" using commands_policy_time [OF d0 tp] by blast
  have "unat (ac_expires_at_ms k - t) \<le> unat (ac_expires_at_ms p - t)"
    using k(3) unat_sub [OF less_imp_le [OF t]] unat_sub [OF less_imp_le [OF tp]]
    by (simp add: word_le_nat_alt diff_le_mono)
  with d' assms(2) k show ?thesis by (auto simp: commands_policy_Inr is_within_def)
qed

lemma check_child_Inr:
  assumes "check_child c g now_ms v = Inr e"
  shows "current c (lq_run_id (gq_request g)) v = Inr (Some e) \<and> envelope_ok c e now_ms
    \<and> permits_child c e g now_ms = Inr ()"
  using assms by (auto simp: check_child_def with_child_def permits_child_def validate_envelope_def results)


subsection \<open>The current revision\<close>

lemma scan_append: "scan_revisions c run v (ns @ ms) l s =
    andThen (scan_revisions c run v ns l s) (\<lambda>(l', s'). scan_revisions c run v ms l' s')"
  by (induction ns arbitrary: l s) (simp_all add: andThen_assoc)

text \<open>What a scan has seen: different revisions, each of a file that loads, the latest being the greatest.\<close>

definition scanned :: "(string \<Rightarrow> run_envelope \<Rightarrow> bool) \<Rightarrow> string set \<Rightarrow> run_envelope option \<Rightarrow> u64 list \<Rightarrow> bool" where
  "scanned file ns latest seen \<longleftrightarrow> distinct seen
     \<and> (\<forall>n \<in> ns. \<exists>r. file n r \<and> re_envelope_revision r \<in> set seen)
     \<and> (\<forall>k \<in> set seen. \<exists>n r. n \<in> ns \<and> file n r \<and> re_envelope_revision r = k)
     \<and> (case latest of None \<Rightarrow> seen = []
        | Some r \<Rightarrow> re_envelope_revision r \<in> set seen \<and> (\<forall>k \<in> set seen. k \<le> re_envelope_revision r) \<and> (\<exists>n \<in> ns. file n r))"

lemma scanned_step:
  assumes "scanned file ns latest seen" and "file n r" and "re_envelope_revision r \<notin> set seen"
  shows "scanned file (insert n ns) (case latest of None \<Rightarrow> Some r
      | Some prior \<Rightarrow> if re_envelope_revision prior < re_envelope_revision r then Some r else latest)
    (re_envelope_revision r # seen)"
proof -
  let ?l = "case latest of None \<Rightarrow> Some r
      | Some prior \<Rightarrow> if re_envelope_revision prior < re_envelope_revision r then Some r else latest"
  from assms(1) have old: "\<forall>m \<in> ns. \<exists>x. file m x \<and> re_envelope_revision x \<in> set seen"
    "\<forall>k \<in> set seen. \<exists>m x. m \<in> ns \<and> file m x \<and> re_envelope_revision x = k" "distinct seen"
    by (simp_all add: scanned_def)
  have each: "\<forall>m \<in> insert n ns. \<exists>x. file m x \<and> re_envelope_revision x \<in> set (re_envelope_revision r # seen)"
    using old(1) assms(2) by auto
  have all: "\<forall>k \<in> set (re_envelope_revision r # seen). \<exists>m x. m \<in> insert n ns \<and> file m x \<and> re_envelope_revision x = k"
    using old(2) assms(2) by (metis insert_iff set_ConsD)
  have dist: "distinct (re_envelope_revision r # seen)" using old(3) assms(3) by simp
  have "case ?l of None \<Rightarrow> re_envelope_revision r # seen = []
    | Some x \<Rightarrow> re_envelope_revision x \<in> set (re_envelope_revision r # seen)
        \<and> (\<forall>k \<in> set (re_envelope_revision r # seen). k \<le> re_envelope_revision x) \<and> (\<exists>m \<in> insert n ns. file m x)"
  proof (cases latest)
    case None
    with assms show ?thesis by (auto simp: scanned_def)
  next
    case (Some prior)
    with assms(1) have p: "re_envelope_revision prior \<in> set seen" "\<forall>k \<in> set seen. k \<le> re_envelope_revision prior"
      "\<exists>m \<in> ns. file m prior" by (auto simp: scanned_def)
    show ?thesis
    proof (cases "re_envelope_revision prior < re_envelope_revision r")
      case True
      then have "\<forall>k \<in> set seen. k \<le> re_envelope_revision r" using p(2) by (meson less_imp_le order_trans)
      with Some True assms(2) show ?thesis by auto
    next
      case False
      with Some p show ?thesis by auto
    qed
  qed
  with each all dist show ?thesis unfolding scanned_def by blast
qed

lemma scan_scanned:
  "scan_revisions c run v names latest seen = Inr (l, s) \<Longrightarrow>
     scanned (\<lambda>n r. load_revision c run v n = Inr r) ns latest seen \<Longrightarrow>
     scanned (\<lambda>n r. load_revision c run v n = Inr r) (ns \<union> set names) l s"
proof (induction names arbitrary: latest seen ns)
  case Nil
  then show ?case by simp
next
  case (Cons name names)
  from Cons.prems(1) obtain r where r: "load_revision c run v name = Inr r" "re_envelope_revision r \<notin> set seen"
    and rest: "scan_revisions c run v names (case latest of None \<Rightarrow> Some r
        | Some prior \<Rightarrow> if re_envelope_revision prior < re_envelope_revision r then Some r else latest)
      (re_envelope_revision r # seen) = Inr (l, s)"
    by (auto simp: results)
  from Cons.IH [OF rest scanned_step [OF Cons.prems(2) r]] show ?case by simp
qed

lemma current_Inr:
  "current c run v = Inr latest \<longleftrightarrow> is_record_identifier run \<and> v_listable v
     \<and> (\<exists>seen. scan_revisions c run v (dir_names v run) None [] = Inr (latest, seen)
          \<and> (case latest of None \<Rightarrow> True | Some r \<Rightarrow> unat (re_envelope_revision r) = length seen))"
  by (auto simp: current_def record_name_def results split: if_splits)

lemma current_scanned:
  assumes "current c run v = Inr latest"
  obtains seen where "scanned (\<lambda>n r. load_revision c run v n = Inr r) (set (dir_names v run)) latest seen"
    and "scan_revisions c run v (dir_names v run) None [] = Inr (latest, seen)"
proof -
  from assms obtain seen where s: "scan_revisions c run v (dir_names v run) None [] = Inr (latest, seen)"
    by (auto simp: current_Inr)
  have "scanned (\<lambda>n r. load_revision c run v n = Inr r) {} None []" by (simp add: scanned_def)
  from scan_scanned [OF s this] s that show ?thesis by auto
qed

lemma load_revision_Inr:
  "load_revision c run v name = Inr r \<longleftrightarrow> vault_file v run name = Some (Stored r) \<and> envelope_ok c r 0
     \<and> re_run_id r = run \<and> name = revision_name (re_envelope_revision r)"
  by (auto simp: load_revision_def read_record_def read_entry_def validate_envelope_def results
      split: option.splits entry.splits)

lemma current_facts:
  assumes "current c run v = Inr (Some r)"
  shows "vault_file v run (revision_name (re_envelope_revision r)) = Some (Stored r)" and "re_run_id r = run"
    and "envelope_ok c r 0"
    and "\<And>n e. vault_file v run n = Some e \<Longrightarrow> \<exists>r'. e = Stored r' \<and> re_run_id r' = run
      \<and> n = revision_name (re_envelope_revision r') \<and> re_envelope_revision r' \<le> re_envelope_revision r"
proof -
  from current_scanned [OF assms] obtain seen
    where s: "scanned (\<lambda>n r. load_revision c run v n = Inr r) (set (dir_names v run)) (Some r) seen" by blast
  then obtain n where "load_revision c run v n = Inr r" by (auto simp: scanned_def)
  then show "vault_file v run (revision_name (re_envelope_revision r)) = Some (Stored r)" "re_run_id r = run" "envelope_ok c r 0"
    by (auto simp: load_revision_Inr)
  fix n e assume e: "vault_file v run n = Some e"
  then have "n \<in> set (dir_names v run)" by (simp add: in_dir_names)
  with s obtain r' where "load_revision c run v n = Inr r'" "re_envelope_revision r' \<in> set seen" by (auto simp: scanned_def)
  with s e show "\<exists>r'. e = Stored r' \<and> re_run_id r' = run \<and> n = revision_name (re_envelope_revision r')
      \<and> re_envelope_revision r' \<le> re_envelope_revision r"
    by (auto simp: load_revision_Inr scanned_def)
qed

lemma decimal_inject: "decimal m = decimal n \<longleftrightarrow> m = n"
  by (metis digits_value_decimal)

lemma revision_name_inject: "revision_name m = revision_name n \<longleftrightarrow> m = n"
  by (auto simp: revision_name_def decimal_inject unsigned_word_eqI)

lemma load_revision_snoc:
  assumes "vault_file v run name = None" and "v_files v' = v_files v @ [((run, name), e)]" and "n \<noteq> name"
  shows "load_revision c run v' n = load_revision c run v n"
  by (simp add: load_revision_def read_record_def vault_file_snoc [OF assms(1,2)] assms(3))

lemma scan_snoc_same:
  assumes "vault_file v run name = None" and "v_files v' = v_files v @ [((run, name), e)]" and "name \<notin> set ns"
  shows "scan_revisions c run v' ns l s = scan_revisions c run v ns l s"
  using assms(3) by (induction ns arbitrary: l s) (auto simp: load_revision_snoc [OF assms(1,2)] intro!: andThen_cong)

lemma current_after_approval:
  assumes cur: "current c (re_run_id e) v = Inr prior" and rev: "next_revision prior = Inr (re_envelope_revision e)"
    and ok: "envelope_ok c e 0" and new: "vault_file v (re_run_id e) (revision_name (re_envelope_revision e)) = None"
    and fs: "v_files v' = v_files v @ [((re_run_id e, revision_name (re_envelope_revision e)), Stored e)]"
    and list: "v_listable v' = v_listable v"
  shows "current c (re_run_id e) v' = Inr (Some e)"
proof -
  let ?run = "re_run_id e" and ?name = "revision_name (re_envelope_revision e)"
  from cur obtain seen where id: "is_record_identifier ?run" "v_listable v"
    and s: "scan_revisions c ?run v (dir_names v ?run) None [] = Inr (prior, seen)"
    and n: "case prior of None \<Rightarrow> True | Some r \<Rightarrow> unat (re_envelope_revision r) = length seen"
    by (auto simp: current_Inr)
  have "scanned (\<lambda>n r. load_revision c ?run v n = Inr r) {} None []" by (simp add: scanned_def)
  from scan_scanned [OF s this] have sc: "scanned (\<lambda>n r. load_revision c ?run v n = Inr r) (set (dir_names v ?run)) prior seen"
    by simp
  have fresh: "re_envelope_revision e \<notin> set seen \<and> unat (re_envelope_revision e) = Suc (length seen)
      \<and> (\<forall>r. prior = Some r \<longrightarrow> re_envelope_revision r < re_envelope_revision e)"
  proof (cases prior)
    case None
    with rev sc show ?thesis by (auto simp: next_revision_def scanned_def)
  next
    case (Some r)
    with rev have "unat (re_envelope_revision e) = Suc (unat (re_envelope_revision r))"
      by (simp add: next_revision_def results word_results)
    with Some n sc show ?thesis by (fastforce simp: scanned_def word_less_nat_alt word_le_nat_alt)
  qed
  have names: "dir_names v' ?run = dir_names v ?run @ [?name]" by (simp add: dir_names_def fs)
  have "?name \<notin> set (dir_names v ?run)" using new by (simp add: in_dir_names)
  then have "scan_revisions c ?run v' (dir_names v ?run) None [] = Inr (prior, seen)"
    using scan_snoc_same [OF new fs] s by simp
  moreover have "load_revision c ?run v' ?name = Inr e"
    by (simp add: load_revision_Inr vault_file_snoc [OF new fs] ok)
  ultimately have "scan_revisions c ?run v' (dir_names v' ?run) None [] = Inr (Some e, re_envelope_revision e # seen)"
    using fresh by (auto simp: names scan_append split: option.split)
  with id list fresh show ?thesis by (auto simp: current_Inr)
qed

subsection \<open>Histories of approvals\<close>

inductive envelope_step :: "envelope_codec \<Rightarrow> run_envelope vault \<Rightarrow> run_envelope vault \<Rightarrow> bool" for c where
  approval: "approve_with c e now_ms guard v = (x, v') \<Longrightarrow> envelope_step c v v'"
| environment: "envelope_step c v (v\<lparr>v_faults := fs, v_listable := b\<rparr>)"

definition envelope_history :: "envelope_codec \<Rightarrow> run_envelope vault \<Rightarrow> run_envelope vault \<Rightarrow> bool" where
  "envelope_history c = (envelope_step c)\<^sup>*\<^sup>*"

definition extending :: "('r, 'a) vault_op \<Rightarrow> bool" where
  "extending m \<longleftrightarrow> (\<forall>v. extends v (snd (m v)))"

lemma extending_simple: "extending (pure r)" "extending (read_op f)" "extending vault_call"
  "extending (write_new_record dir name r')"
  by (simp_all add: extending_def pure_def read_op_def)
    (metis prod.collapse vault_call_extends write_new_record_extends)+

lemma extending_bind:
  assumes "extending m" and "\<And>a. extending (k a)"
  shows "extending (bind_op m k)"
  unfolding extending_def
proof
  fix v
  obtain x t where m: "m v = (x, t)" by (cases "m v") simp
  with assms(1) have "extends v t" unfolding extending_def by (metis snd_conv)
  moreover have "extends t (snd (k a t))" for a using assms(2) by (simp add: extending_def)
  ultimately show "extends v (snd (bind_op m k v))"
    by (cases x) (simp_all add: bind_op_def m extends_trans [of v t])
qed

lemma approve_extends: "approve_with c e now_ms guard v = (x, v') \<Longrightarrow> extends v v'"
proof -
  have "extending (approve_with c e now_ms guard)"
    unfolding approve_with_def by (intro extending_bind extending_simple)
  then show "approve_with c e now_ms guard v = (x, v') \<Longrightarrow> extends v v'"
    unfolding extending_def by (metis snd_conv)
qed

lemma envelope_step_extends: "envelope_step c v v' \<Longrightarrow> extends v v'"
proof (induction rule: envelope_step.induct)
  case (approval e now_ms guard v x v')
  then show ?case by (rule approve_extends)
next
  case (environment v fs b)
  then show ?case by (simp add: extends_def vault_file_def)
qed

lemma envelope_history_extends: "envelope_history c v v' \<Longrightarrow> extends v v'"
  unfolding envelope_history_def by (induction rule: rtranclp_induct) (auto intro: extends_trans envelope_step_extends)

lemma bound_call_Inr: "bind_op vault_call k s = (Inr b, s') \<longleftrightarrow> (\<exists>a t. vault_call s = (Inr a, t) \<and> k a t = (Inr b, s'))"
  by (rule bind_op_Inr)

lemma bound_write_Inr: "bind_op (write_new_record dir name r) k s = (Inr b, s') \<longleftrightarrow>
    (\<exists>a t. write_new_record dir name r s = (Inr a, t) \<and> k a t = (Inr b, s'))"
  by (rule bind_op_Inr)

lemma approve_Inr:
  assumes "approve_with c e now_ms guard v = (Inr a, v')"
  shows "current c (re_run_id e) v' = Inr (Some e) \<and> envelope_ok c e now_ms \<and> guard = Inr ()
    \<and> rz_envelope_revision a = re_envelope_revision e \<and> rz_run_id a = re_run_id e
    \<and> rz_envelope_digest a = envelope_digest c e
    \<and> (\<exists>prior. current c (re_run_id e) v = Inr prior \<and> next_revision prior = Inr (re_envelope_revision e))"
proof -
  from assms obtain prior n v1 v2 u0 u1 u2 u3 where raw: "envelope_ok c e now_ms" "guard = Inr u0"
    "current c (re_run_id e) v = Inr prior" "next_revision prior = Inr n" "re_envelope_revision e = n"
    "vault_call v = (Inr u1, v1)" "vault_call v1 = (Inr u2, v2)"
    "write_new_record (re_run_id e) (revision_name (re_envelope_revision e)) e v2 = (Inr u3, v')"
    "Inr a = (Inr \<lparr>rz_schema = ''louiselm.broker.run-authorization/1'', rz_run_id = re_run_id e,
       rz_envelope_revision = re_envelope_revision e, rz_envelope_digest = envelope_digest c e\<rparr> :: broker_error + _)"
    unfolding approve_with_def validate_envelope_def bound_pure_Inr bound_read_Inr bound_call_Inr bound_write_Inr
      pure_eq ensure_Inr
    by blast
  have steps: "envelope_ok c e now_ms" "guard = Inr ()" "current c (re_run_id e) v = Inr prior"
    "next_revision prior = Inr (re_envelope_revision e)" "vault_call v = (Inr (), v1)" "vault_call v1 = (Inr (), v2)"
    "write_new_record (re_run_id e) (revision_name (re_envelope_revision e)) e v2 = (Inr (), v')"
    using raw by simp_all
  from raw(9) have a: "a = \<lparr>rz_schema = ''louiselm.broker.run-authorization/1'', rz_run_id = re_run_id e,
       rz_envelope_revision = re_envelope_revision e, rz_envelope_digest = envelope_digest c e\<rparr>" by simp
  from steps(5,6) have files: "v_files v2 = v_files v" "v_listable v2 = v_listable v"
    by (auto dest!: vault_call_cases)
  from write_new_record_Inr [OF steps(7)] files vault_file_files [of v2 v]
  have new: "vault_file v (re_run_id e) (revision_name (re_envelope_revision e)) = None"
    and fs: "v_files v' = v_files v @ [((re_run_id e, revision_name (re_envelope_revision e)), Stored e)]" by auto
  have list: "v_listable v' = v_listable v" using write_new_record_cases [OF steps(7)] files by simp
  from current_after_approval [OF steps(3,4) envelope_ok_zero [OF steps(1)] new fs list] steps a show ?thesis by auto
qed


subsection \<open>What an approved child may do\<close>

lemma child_parents:
  "child_beads_ok n p (Some b) \<Longrightarrow> \<exists>x. p = Some x"
  "child_skills_ok n p' (Some s) \<Longrightarrow> \<exists>x. p' = Some x"
  "child_provider_ok u n p'' (Some m) \<Longrightarrow> \<exists>x. p'' = Some x"
  "child_commands_ok p''' (Some d) \<Longrightarrow> \<exists>x. p''' = Some x"
  by (auto simp: child_beads_ok_def child_skills_ok_def child_provider_ok_def child_commands_ok_def split: option.splits)

lemma permits_child_Inr:
  assumes "permits_child c e g now_ms = Inr u"
  shows "lq_run_id (gq_request g) = re_run_id e \<and> lq_envelope_id (gq_request g) = re_envelope_id e
    \<and> lq_envelope_revision (gq_request g) = re_envelope_revision e \<and> gq_controller_uid g = re_controller_uid e
    \<and> gq_expires_at_ms g \<le> re_expires_at_ms e \<and> gq_dependencies g = None"
    and "child_commands_ok (re_commands e) (gq_commands g)"
    and "child_skills_ok now_ms (re_skill_requests e) (gq_skill_requests g)"
    and "child_beads_ok now_ms (re_bead_scope e) (gq_beads_mutations g)"
    and "child_provider_ok (urls c) now_ms (re_provider_requests e) (gq_provider_requests g)"
  using assms by (auto simp: permits_child_def andThen_Inr ensure_Inr not_less)

text \<open>C22: A child grant that the check accepts is bound to the current revision of its Run and only
  narrows it: whatever Beads mutation, Skill request, provider request or command policy the
  grant permits at any later time, the approved envelope permits as well.\<close>

theorem child_grant_attenuates:
  assumes "check_child c g now_ms v = Inr e"
  shows "current c (lq_run_id (gq_request g)) v = Inr (Some e)
    \<and> re_run_id e = lq_run_id (gq_request g) \<and> re_envelope_revision e = lq_envelope_revision (gq_request g)
    \<and> re_controller_uid e = gq_controller_uid g \<and> gq_expires_at_ms g \<le> re_expires_at_ms e
    \<and> (\<forall>k q t. gq_beads_mutations g = Some k \<and> beads_permits k q t \<longrightarrow>
         (\<exists>p. re_bead_scope e = Some p \<and> beads_permits p q t \<and> ab_max_mutations k \<le> ab_max_mutations p))
    \<and> (\<forall>k q t. gq_skill_requests g = Some k \<and> skills_permit k q t \<longrightarrow>
         (\<exists>p. re_skill_requests e = Some p \<and> skills_permit p q t))
    \<and> (\<forall>k m f. gq_provider_requests g = Some k \<and> provider_permits k m f \<longrightarrow>
         (\<exists>p. re_provider_requests e = Some p \<and> provider_permits p m f \<and> av_upstream k = av_upstream p
            \<and> set (av_addresses k) \<subseteq> set (av_addresses p) \<and> av_max_run_requests k = av_max_run_requests p))
    \<and> (\<forall>k i t n d. gq_commands g = Some k \<and> commands_policy k i t n = Inr d \<longrightarrow>
         (\<exists>p d'. re_commands e = Some p \<and> commands_policy p i t n = Inr d' \<and> is_within (dp_scope d) (dp_scope d')
            \<and> (dp_allow_delegation d \<longrightarrow> dp_allow_delegation d') \<and> dp_expires_at d \<le> dp_expires_at d'))"
proof -
  from check_child_Inr [OF assms] have cur: "current c (lq_run_id (gq_request g)) v = Inr (Some e)"
    and ok: "envelope_ok c e now_ms" and permits: "permits_child c e g now_ms = Inr ()" by auto
  note narrow = permits_child_Inr [OF permits] and scopes = envelope_ok_scopes [OF ok]
  have beads: "\<exists>p. re_bead_scope e = Some p \<and> beads_permits p q t \<and> ab_max_mutations k \<le> ab_max_mutations p"
    if k: "gq_beads_mutations g = Some k" and q: "beads_permits k q t" for k q t
  proof -
    from child_parents(1) narrow(4) k obtain p where p: "re_bead_scope e = Some p" by metis
    with narrow(4) k have c: "child_beads_ok now_ms (Some p) (Some k)" by simp
    from child_beads_permits [OF c conjunct1 [OF scopes(2) [OF p]] q] p c show ?thesis
      by (auto simp: child_beads_ok_def)
  qed
  have skills: "\<exists>p. re_skill_requests e = Some p \<and> skills_permit p q t"
    if k: "gq_skill_requests g = Some k" and q: "skills_permit k q t" for k q t
  proof -
    from child_parents(2) narrow(3) k obtain p where p: "re_skill_requests e = Some p" by metis
    with narrow(3) k have c: "child_skills_ok now_ms (Some p) (Some k)" by simp
    from child_skills_permit [OF c conjunct1 [OF scopes(4) [OF p]] q] p show ?thesis by simp
  qed
  have provider: "\<exists>p. re_provider_requests e = Some p \<and> provider_permits p m f \<and> av_upstream k = av_upstream p
      \<and> set (av_addresses k) \<subseteq> set (av_addresses p) \<and> av_max_run_requests k = av_max_run_requests p"
    if k: "gq_provider_requests g = Some k" and q: "provider_permits k m f" for k m f
  proof -
    from child_parents(3) narrow(5) k obtain p where p: "re_provider_requests e = Some p" by metis
    with narrow(5) k have c: "child_provider_ok (urls c) now_ms (Some p) (Some k)" by simp
    from child_provider_permits [OF c q] p show ?thesis by simp
  qed
  have commands: "\<exists>p d'. re_commands e = Some p \<and> commands_policy p i t n = Inr d' \<and> is_within (dp_scope d) (dp_scope d')
      \<and> (dp_allow_delegation d \<longrightarrow> dp_allow_delegation d') \<and> dp_expires_at d \<le> dp_expires_at d'"
    if k: "gq_commands g = Some k" and q: "commands_policy k i t n = Inr d" for k i t n d
  proof -
    from child_parents(4) narrow(2) k obtain p where p: "re_commands e = Some p" by metis
    with narrow(2) k have c: "child_commands_ok (Some p) (Some k)" by simp
    from child_commands_policy [OF c q conjunct1 [OF scopes(5) [OF p]]] p show ?thesis by auto
  qed
  from cur narrow(1) beads skills provider commands show ?thesis by simp
qed

text \<open>C23: A successful approval is the next revision of its Run and becomes the current one; after
  any later history of approvals, failed or torn writes included, the file of that revision
  still holds exactly the approved record, and a current revision is that one or a greater one.\<close>

theorem approved_revision_is_kept:
  assumes "approve_with c e now_ms guard v = (Inr a, v')"
  shows "current c (re_run_id e) v' = Inr (Some e) \<and> guard = Inr () \<and> now_ms < re_expires_at_ms e
    \<and> rz_run_id a = re_run_id e \<and> rz_envelope_revision a = re_envelope_revision e \<and> rz_envelope_digest a = envelope_digest c e
    \<and> (\<exists>prior. current c (re_run_id e) v = Inr prior
         \<and> unat (re_envelope_revision e) = (case prior of None \<Rightarrow> 1 | Some r \<Rightarrow> Suc (unat (re_envelope_revision r))))
    \<and> (\<forall>w. envelope_history c v' w \<longrightarrow>
         vault_file w (re_run_id e) (revision_name (re_envelope_revision e)) = Some (Stored e)
         \<and> (\<forall>r. current c (re_run_id e) w = Inr (Some r) \<longrightarrow> re_envelope_revision e \<le> re_envelope_revision r
              \<and> (re_envelope_revision r = re_envelope_revision e \<longrightarrow> r = e)))"
proof -
  note approved = approve_Inr [OF assms]
  then have cur: "current c (re_run_id e) v' = Inr (Some e)" by simp
  have next_one: "unat (re_envelope_revision e) = (case prior of None \<Rightarrow> 1 | Some r \<Rightarrow> Suc (unat (re_envelope_revision r)))"
    if "next_revision prior = Inr (re_envelope_revision e)" for prior
    using that by (auto simp: next_revision_def ok_or_Inr word_results split: option.splits)
  have stored: "vault_file w (re_run_id e) (revision_name (re_envelope_revision e)) = Some (Stored e)"
    if "envelope_history c v' w" for w
    using current_facts(1) [OF cur] envelope_history_extends [OF that] by (simp add: extends_def)
  have later: "re_envelope_revision e \<le> re_envelope_revision r \<and> (re_envelope_revision r = re_envelope_revision e \<longrightarrow> r = e)"
    if h: "envelope_history c v' w" and r: "current c (re_run_id e) w = Inr (Some r)" for w r
  proof -
    from current_facts(4) [OF r stored [OF h]] have "re_envelope_revision e \<le> re_envelope_revision r" by auto
    moreover have "re_envelope_revision r = re_envelope_revision e \<longrightarrow> r = e"
    proof
      assume "re_envelope_revision r = re_envelope_revision e"
      with current_facts(1) [OF r] have "Some (Stored r) = Some (Stored e)" by (simp only: stored [OF h])
      then show "r = e" by (simp only: option.inject entry.inject)
    qed
    ultimately show ?thesis ..
  qed
  from approved obtain prior where "current c (re_run_id e) v = Inr prior" "next_revision prior = Inr (re_envelope_revision e)"
    by (elim conjE exE)
  then have before: "\<exists>prior. current c (re_run_id e) v = Inr prior
      \<and> unat (re_envelope_revision e) = (case prior of None \<Rightarrow> 1 | Some r \<Rightarrow> Suc (unat (re_envelope_revision r)))"
    using next_one by blast
  have after: "\<forall>w. envelope_history c v' w \<longrightarrow>
      vault_file w (re_run_id e) (revision_name (re_envelope_revision e)) = Some (Stored e)
      \<and> (\<forall>r. current c (re_run_id e) w = Inr (Some r) \<longrightarrow> re_envelope_revision e \<le> re_envelope_revision r
           \<and> (re_envelope_revision r = re_envelope_revision e \<longrightarrow> r = e))"
    using stored later by blast
  from approved have parts: "guard = Inr ()" "envelope_ok c e now_ms" "rz_run_id a = re_run_id e"
    "rz_envelope_revision a = re_envelope_revision e" "rz_envelope_digest a = envelope_digest c e" by simp_all
  show ?thesis by (intro conjI cur parts envelope_ok_scopes(1) [OF parts(2)] before after)
qed

subsection \<open>A demonstration\<close>

definition demo_commands :: "u32 \<Rightarrow> approved_commands" where
  "demo_commands n = \<lparr>ac_command_digest = ''sha256:0000000000000000000000000000000000000000000000000000000000000000'',
     ac_timeout_ms = 50, ac_uses = Some n, ac_allow_delegation = False, ac_expires_at_ms = 80\<rparr>"

definition demo_beads :: "string list \<Rightarrow> approved_beads_mutations" where
  "demo_beads is = \<lparr>ab_project_digest = ''sha256:0000000000000000000000000000000000000000000000000000000000000000'',
     ab_role = Worker, ab_issue_ids = is, ab_effects = [Effect_Claim], ab_max_mutations = 2, ab_expires_at_ms = 90\<rparr>"

definition demo_envelope :: "u64 \<Rightarrow> run_envelope" where
  "demo_envelope n = \<lparr>re_schema = ''louiselm.broker.run-envelope/2'', re_run_id = ''r'', re_envelope_id = ''e'',
     re_envelope_revision = n, re_controller_uid = 7, re_bead_scope = Some (demo_beads [''a'', ''b'']),
     re_provider_requests = None, re_commands = Some (demo_commands 3), re_skill_requests = None,
     re_verification_plan_digest = ''sha256:0000000000000000000000000000000000000000000000000000000000000000'',
     re_max_sessions = 2, re_expires_at_ms = 100\<rparr>"

definition demo_urls :: envelope_codec where
  "demo_urls = \<lparr>urls = \<lparr>upstream_ok = (\<lambda>_. True), profile_digest = ''p''\<rparr>, envelope_json = (\<lambda>_. ''x''), envelope_sha = (\<lambda>_. replicate 32 0)\<rparr>"

definition demo_vault :: "run_envelope vault" where
  "demo_vault = \<lparr>v_files = [((''r'', ''1.json''), Stored (demo_envelope 1))], v_listable = True, v_faults = []\<rparr>"

definition demo_grant :: grant_request where
  "demo_grant = \<lparr>gq_role = Agent_Role, gq_dependencies = None,
     gq_conformance = \<lparr>ca_attendance = Unattended, ca_waiver = None\<rparr>, gq_require_cold_recovery = False,
     gq_request = \<lparr>lq_schema = REQUEST_SCHEMA, lq_protocol_version = PROTOCOL_VERSION, lq_request_id = ''q'',
       lq_authorization_id = ''a'', lq_session_id = ''s'', lq_run_id = ''r'', lq_agent_id = ''g'', lq_envelope_id = ''e'',
       lq_envelope_revision = 1, lq_skills = Skills_Off ''n'', lq_session_input_manifest_id = ''m''\<rparr>,
     gq_controller_uid = 7, gq_expires_at_ms = 60, gq_broker_loss_grace_ms = 0, gq_commands = Some (demo_commands 2),
     gq_skill_requests = None, gq_beads_mutations = Some (demo_beads [''a'']), gq_provider_requests = None\<rparr>"

lemma demo_scopes:
  "is_ok (commands_policy (demo_commands 2) ''e'' 5 0)"
  "beads_valid (demo_beads [''a'', ''b'']) 5" "beads_valid (demo_beads [''a'']) 5"
  by code_simp+

lemma demo_approval:
  "envelope_ok demo_urls (demo_envelope 1) 5" "envelope_ok demo_urls (demo_envelope 1) 0"
  "envelope_ok demo_urls (demo_envelope 2) 5" "envelope_ok demo_urls (demo_envelope 2) 0"
  by code_simp+

lemma demo_current: "current demo_urls ''r'' demo_vault = Inr (Some (demo_envelope 1))"
  by code_simp

lemma demo_child: "check_child demo_urls demo_grant 5 demo_vault = Inr (demo_envelope 1)"
  by code_simp

lemma demo_fields:
  "gq_beads_mutations demo_grant = Some (demo_beads [''a''])" "gq_commands demo_grant = Some (demo_commands 2)"
  "re_bead_scope (demo_envelope 1) = Some (demo_beads [''a'', ''b''])" "re_commands (demo_envelope 1) = Some (demo_commands 3)"
  "re_run_id (demo_envelope n) = ''r''" "re_envelope_revision (demo_envelope n) = n"
  by (simp_all add: demo_grant_def demo_envelope_def)

definition demo_claim :: beads_mutation_request where
  "demo_claim = \<lparr>bm_request_id = ''q'', bm_required = True, bm_kind = Claim ''a''\<rparr>"

lemma demo_claimed: "beads_permits (demo_beads [''a'']) demo_claim 6"
  by code_simp

theorem child_grant_attenuates_witness:
  "beads_permits (demo_beads [''a'', ''b'']) demo_claim 6
     \<and> is_ok (commands_policy (demo_commands 3) ''e'' 5 0)"
proof -
  note narrow = child_grant_attenuates [OF demo_child, unfolded demo_fields option.inject]
  from demo_scopes(1) obtain d where d: "commands_policy (demo_commands 2) ''e'' 5 0 = Inr d" by (auto simp: is_ok_iff)
  from narrow have beads: "\<forall>k q t. demo_beads [''a''] = k \<and> beads_permits k q t \<longrightarrow>
      (\<exists>p. demo_beads [''a'', ''b''] = p \<and> beads_permits p q t \<and> ab_max_mutations k \<le> ab_max_mutations p)"
    by (elim conjE)
  from narrow have commands: "\<forall>k i t n d. demo_commands 2 = k \<and> commands_policy k i t n = Inr d \<longrightarrow>
      (\<exists>p d'. demo_commands 3 = p \<and> commands_policy p i t n = Inr d' \<and> is_within (dp_scope d) (dp_scope d')
         \<and> (dp_allow_delegation d \<longrightarrow> dp_allow_delegation d') \<and> dp_expires_at d \<le> dp_expires_at d')"
    by (elim conjE)
  from beads commands d demo_claimed show ?thesis unfolding is_ok_iff by blast
qed

lemma demo_revision_names: "revision_name 1 = ''1.json''" "revision_name 2 = ''2.json''"
  by code_simp+

lemma demo_empty: "current demo_urls ''r'' (demo_vault\<lparr>v_files := []\<rparr>) = Inr None"
  by code_simp

lemma demo_second: "approve_with demo_urls (demo_envelope 1) 5 (Inr ()) (demo_vault\<lparr>v_files := []\<rparr>) =
    (Inr \<lparr>rz_schema = ''louiselm.broker.run-authorization/1'', rz_run_id = ''r'', rz_envelope_revision = 1,
       rz_envelope_digest = envelope_digest demo_urls (demo_envelope 1)\<rparr>, demo_vault)"
  by (simp add: approve_with_def bind_op_def pure_def read_op_def validate_envelope_def ensure_def demo_approval demo_fields
      demo_empty next_revision_def demo_revision_names)
    (simp add: bind_op_def pure_def demo_vault_def vault_call_def next_vault_fault_def after_fault_def write_new_record_def vault_file_def add_file_def)

definition demo_history :: "run_envelope vault" where
  "demo_history = demo_vault\<lparr>v_files := v_files demo_vault @ [((''r'', ''2.json''), Stored (demo_envelope 2))]\<rparr>"

lemma demo_third: "snd (approve_with demo_urls (demo_envelope 2) 5 (Inr ()) demo_vault) = demo_history"
  by (simp add: approve_with_def bind_op_def pure_def read_op_def validate_envelope_def ensure_def demo_approval demo_fields
      demo_current next_revision_def demo_revision_names checked_add_def ok_or_def)
    (simp add: bind_op_def pure_def demo_history_def demo_vault_def vault_call_def next_vault_fault_def after_fault_def write_new_record_def
      vault_file_def add_file_def)

lemma demo_later: "current demo_urls ''r'' demo_history = Inr (Some (demo_envelope 2))"
  by code_simp

theorem approved_revision_is_kept_witness:
  "current demo_urls ''r'' demo_vault = Inr (Some (demo_envelope 1))
     \<and> current demo_urls ''r'' demo_history = Inr (Some (demo_envelope 2))
     \<and> vault_file demo_history ''r'' (revision_name 1) = Some (Stored (demo_envelope 1))"
proof -
  have "envelope_step demo_urls demo_vault (snd (approve_with demo_urls (demo_envelope 2) 5 (Inr ()) demo_vault))"
    by (rule envelope_step.approval) (rule prod.collapse [symmetric])
  then have h: "envelope_history demo_urls demo_vault demo_history" by (simp add: envelope_history_def demo_third)
  note kept = approved_revision_is_kept [OF demo_second, unfolded demo_fields]
  from kept have later: "\<forall>w. envelope_history demo_urls demo_vault w \<longrightarrow>
      vault_file w ''r'' (revision_name 1) = Some (Stored (demo_envelope 1))
      \<and> (\<forall>r. current demo_urls ''r'' w = Inr (Some r) \<longrightarrow> 1 \<le> re_envelope_revision r
           \<and> (re_envelope_revision r = 1 \<longrightarrow> r = demo_envelope 1))" by (elim conjE)
  from kept have "current demo_urls ''r'' demo_vault = Inr (Some (demo_envelope 1))" by (elim conjE)
  moreover from later h have "vault_file demo_history ''r'' (revision_name 1) = Some (Stored (demo_envelope 1))" by blast
  ultimately show ?thesis using demo_later by (intro conjI)
qed

end
