(* ===== verification/Permissions_Properties.thy ===== *)
theory Permissions_Properties
  imports Permissions
begin

section \<open>Properties of approved permissions\<close>

text \<open>
  The capability an approval is shown for is well-formed, and the check of a request is the
  inclusion of its capability in the approved scope.
\<close>

lemma effect_for_valid: "mutation_content_valid k \<Longrightarrow> effect_valid (effect_for k)"
  by (cases k) simp_all

lemma other_issue_valid:
  "mutation_content_valid k \<Longrightarrow> other_issue k = Some d \<Longrightarrow> issue_identifier d \<and> d \<noteq> mutation_issue k"
  by (cases k) auto

lemma other_issue_dependency: "other_issue k \<noteq> None \<longleftrightarrow> dependency_effect (effect_for k)"
  by (cases k) simp_all

lemma capability_issues:
  "set (bc_issue_ids (capability_for project k)) = insert (mutation_issue k) (set_option (other_issue k))"
  by (auto simp: capability_for_def Let_def split: option.splits)

text \<open>C24: The capability computed for a valid mutation request of a canonically named project is
  well-formed: sorted distinct issues, two exactly for dependencies, a valid effect and a role
  that may have it.\<close>

theorem requested_capability_is_valid:
  assumes "mutation_request_valid q" and "canonical_digest project"
  shows "capability_valid (capability_for project (bm_kind q))"
proof -
  let ?k = "bm_kind q"
  from assms(1) have issue: "issue_identifier (mutation_issue ?k)" and content: "mutation_content_valid ?k"
    by (auto simp: mutation_request_valid_def mutation_valid_def)
  note effect = effect_for_valid [OF content] and dependency = other_issue_dependency [of ?k]
  show ?thesis
  proof (cases "other_issue ?k")
    case None
    with assms(2) issue effect dependency show ?thesis
      by (simp add: capability_valid_def capability_for_def permitted_role_def Let_def)
  next
    case (Some d)
    with other_issue_valid [OF content Some] assms(2) issue effect dependency show ?thesis
      by (auto simp: capability_valid_def capability_for_def permitted_role_def Let_def)
  qed
qed

definition demo_mutation :: beads_mutation_request where
  "demo_mutation = \<lparr>bm_request_id = ''q'', bm_required = True, bm_kind = Dependency_Add ''b'' ''a'' Related\<rparr>"

definition demo_project :: string where
  "demo_project = ''sha256:0000000000000000000000000000000000000000000000000000000000000000''"

lemma demo_mutation_valid: "mutation_request_valid demo_mutation" "canonical_digest demo_project"
  by code_simp+

theorem requested_capability_is_valid_witness:
  "capability_valid (capability_for demo_project (Dependency_Add ''b'' ''a'' Related))"
  using requested_capability_is_valid [OF demo_mutation_valid] by (simp add: demo_mutation_def)

theorem permission_is_capability_inclusion:
  "beads_permits a q now_ms \<longleftrightarrow>
     (let c = capability_for (ab_project_digest a) (bm_kind q) in
      beads_valid a now_ms \<and> mutation_request_valid q \<and> bc_effect c \<in> set (ab_effects a)
      \<and> set (bc_issue_ids c) \<subseteq> set (ab_issue_ids a) \<and> (bc_role c = Coordinator \<longrightarrow> ab_role a = Coordinator))"
proof -
  have role: "permitted_role e (ab_role a) \<longleftrightarrow> (\<not> permitted_role e Worker \<longrightarrow> ab_role a = Coordinator)" for e
    by (cases "ab_role a") (auto simp: permitted_role_def)
  have fields: "bc_effect (capability_for (ab_project_digest a) k) = effect_for k"
    "bc_role (capability_for (ab_project_digest a) k) = Coordinator \<longleftrightarrow> \<not> permitted_role (effect_for k) Worker" for k
    by (simp_all add: capability_for_def Let_def)
  show ?thesis
    unfolding Let_def fields capability_issues beads_permits_def role [of "effect_for (bm_kind q)"]
    by (auto split: option.splits)
qed

definition demo_scope :: approved_beads_mutations where
  "demo_scope = \<lparr>ab_project_digest = demo_project, ab_role = Worker, ab_issue_ids = [''a'', ''b''],
     ab_effects = [Effect_Dependency_Add Related], ab_max_mutations = 2, ab_expires_at_ms = 90\<rparr>"

theorem permission_is_capability_inclusion_witness: "beads_permits demo_scope demo_mutation 6"
  by (subst permission_is_capability_inclusion, code_simp)

end
