(* ===== verification/Retention.thy ===== *)
theory Retention
  imports Dependency_Policy
begin

section \<open>Workspace retention\<close>

text \<open>
  skills-core/src/workspace/retention.rs and retention/storage.rs: one record per Session with
  the exact launch it belongs to, its expiry and the evidence kept for it. The directory lock,
  the ownership and mode checks of a file, and its canonical spelling are part of the directory
  model: a file that fails them is unreadable. Removing the primary evidence is the work of the
  root cleanup and not modelled.
\<close>

datatype primary_evidence = Not_Checked | Cleanup_Incomplete | Removed

record input_references =
  ir_manifest :: string
  ir_snapshot :: string
  ir_base :: string
  ir_cache :: string
  ir_skills :: skill_inputs
  ir_runtime :: string
  ir_isolation_intent :: string

text \<open>The sets of digests are ordered lists without repetitions.\<close>

record evidence_references =
  er_inputs :: "input_references option"
  er_launch_receipts :: "string list"
  er_isolation :: "string list"
  er_exports :: "string list"
  er_bundles :: "string list"
  er_verifications :: "string list"
  er_promotions :: "string list"

record retention_record =
  rr_schema :: string
  rr_launch :: launch_request
  rr_recorded_at_ms :: u64
  rr_expires_at_ms :: u64
  rr_pinned :: bool
  rr_primary_evidence :: primary_evidence
  rr_evidence :: evidence_references

type_synonym ('a) retention_op = "(retention_record disk, broker_error, 'a) op"

definition DEFAULT_RETENTION_MS :: u64 where
  "DEFAULT_RETENTION_MS = 604800000"

definition RETENTION_SCHEMA :: string where
  "RETENTION_SCHEMA = ''louiselm.workspace.retention/2''"

definition MAX_RETENTION_BYTES :: nat where
  "MAX_RETENTION_BYTES = 64 * 1024"

abbreviation retention_invalid :: broker_error where
  "retention_invalid \<equiv> Workspace_Unavailable ''retention evidence is invalid or unavailable''"

definition retention_io :: "fs_error \<Rightarrow> broker_error" where
  "retention_io e = Workspace_Unavailable (case e of Io \<Rightarrow> ''io'' | Json \<Rightarrow> ''json'')"

definition validate_inputs :: "launch_codec \<Rightarrow> input_references \<Rightarrow> launch_request \<Rightarrow> broker_error + unit" where
  "validate_inputs c i q =
     andThen (ensure (list_all (\<lambda>v. is_ok (parse_digest v))
        [ir_manifest i, ir_snapshot i, ir_base i, ir_cache i, ir_runtime i, ir_isolation_intent i]) retention_invalid) (\<lambda>_.
     andThen (ensure (validate_skills (receipt_codec (protocol_codec_of c)) (ir_skills i)) retention_invalid) (\<lambda>_.
     ensure (\<not> (ir_manifest i \<noteq> lq_session_input_manifest_id q \<or> ir_skills i \<noteq> lq_skills q)) retention_invalid))"

definition evidence_sets :: "evidence_references \<Rightarrow> string list list" where
  "evidence_sets e = [er_launch_receipts e, er_isolation e, er_exports e, er_bundles e, er_verifications e, er_promotions e]"

definition validate_retention :: "launch_codec \<Rightarrow> retention_record \<Rightarrow> broker_error + unit" where
  "validate_retention c r =
     andThen (map_err (\<lambda>_. retention_invalid) (validate_launch_request c (rr_launch r))) (\<lambda>_.
     andThen (ensure (\<not> (rr_schema r \<noteq> RETENTION_SCHEMA \<or> rr_expires_at_ms r \<le> rr_recorded_at_ms r)) retention_invalid) (\<lambda>_.
     andThen (case er_inputs (rr_evidence r) of None \<Rightarrow> Inr () | Some i \<Rightarrow> validate_inputs c i (rr_launch r)) (\<lambda>_.
     ensure (list_all (\<lambda>ds. length ds \<le> 128 \<and> list_all (\<lambda>d. is_ok (parse_digest d)) ds) (evidence_sets (rr_evidence r)))
       retention_invalid)))"

definition retention_name :: "string \<Rightarrow> broker_error + string" where
  "retention_name i = (if is_record_identifier i then Inr (i @ ''.json'') else Inl retention_invalid)"

definition read_retention :: "launch_codec \<Rightarrow> string \<Rightarrow> retention_record disk \<Rightarrow> broker_error + retention_record" where
  "read_retention c i d =
     andThen (retention_name i) (\<lambda>name.
     andThen (map_err retention_io (read_file name d)) (\<lambda>found.
     andThen (ok_or found (retention_io Io)) (\<lambda>r.
     andThen (validate_retention c r) (\<lambda>_.
     andThen (ensure (lq_session_id (rr_launch r) = i) retention_invalid) (\<lambda>_. Inr r)))))"

definition write_retention ::
  "launch_codec \<Rightarrow> (retention_record \<Rightarrow> string) \<Rightarrow> retention_record \<Rightarrow> unit retention_op" where
  "write_retention c json r =
     bind_op (pure (validate_retention c r)) (\<lambda>_.
     bind_op (pure (ensure (length (json r) \<le> MAX_RETENTION_BYTES) retention_invalid)) (\<lambda>_.
     bind_op (pure (retention_name (lq_session_id (rr_launch r)))) (\<lambda>name.
     write_op retention_io name r)))"

definition no_evidence :: evidence_references where
  "no_evidence = \<lparr>er_inputs = None, er_launch_receipts = [], er_isolation = [], er_exports = [], er_bundles = [],
     er_verifications = [], er_promotions = []\<rparr>"

definition register ::
  "launch_codec \<Rightarrow> (retention_record \<Rightarrow> string) \<Rightarrow> launch_request \<Rightarrow> u64 \<Rightarrow> retention_record retention_op" where
  "register c json q now_ms =
     bind_op (pure (map_err (\<lambda>_. retention_invalid) (validate_launch_request c q))) (\<lambda>_.
     bind_op (pure (retention_name (lq_session_id q))) (\<lambda>name.
     bind_op (read_op (\<lambda>d. if lookup_file d name = Some Unreadable then Inl (retention_io Io)
        else Inr (lookup_file d name \<noteq> None))) (\<lambda>known.
     if known
     then bind_op (read_op (read_retention c (lq_session_id q))) (\<lambda>prior.
          pure (andThen (ensure (rr_launch prior = q) retention_invalid) (\<lambda>_. Inr prior)))
     else bind_op (pure (ok_or (checked_add now_ms DEFAULT_RETENTION_MS) retention_invalid)) (\<lambda>expires.
          let r = \<lparr>rr_schema = RETENTION_SCHEMA, rr_launch = q, rr_recorded_at_ms = now_ms, rr_expires_at_ms = expires,
                rr_pinned = False, rr_primary_evidence = Not_Checked, rr_evidence = no_evidence\<rparr>
          in bind_op (write_retention c json r) (\<lambda>_. pure (Inr r))))))"

definition pin ::
  "launch_codec \<Rightarrow> (retention_record \<Rightarrow> string) \<Rightarrow> string \<Rightarrow> bool \<Rightarrow> retention_record retention_op" where
  "pin c json i pinned =
     bind_op (read_op (read_retention c i)) (\<lambda>r.
     bind_op (pure (ensure (rr_primary_evidence r = Not_Checked) retention_invalid)) (\<lambda>_.
     let r' = r\<lparr>rr_pinned := pinned\<rparr> in
     bind_op (write_retention c json r') (\<lambda>_. pure (Inr r'))))"

text \<open>\<open>Store::lock\<close> refuses when another process holds the directory.\<close>

definition with_retention :: "'a retention_op \<Rightarrow> 'a retention_op" where
  "with_retention m d = (if lock_ok d then m d else (Inl (retention_io Io), d))"

end
