(* ===== verification/Authorization.thy ===== *)
theory Authorization
  imports Run_Envelope Retention
begin

section \<open>Launch authorizations\<close>

text \<open>
  skills-core/src/broker/authorization.rs: an authorization is written before a privileged
  launch and consumed exactly once. Pending and consumed records are files of two directories
  of one vault; consuming removes the pending file, makes the removal durable and writes the
  consumed record. The mutex that serialises assignment and consumption is the sequential order
  of the model; the clock is an argument of every operation, as in the code, so it may have
  been read before the lock was taken. Whether a consumed Session is disposed of, and the
  decision of an operator on a waiver, are arguments.
\<close>

subsection \<open>Identities\<close>

record identity_pool =
  uid_start :: u32
  gid_start :: u32
  slots :: u32

record host_identity =
  id_slot :: u32
  id_uid :: u32
  id_gid :: u32

definition MAX_IDENTITY_SLOTS :: u32 where
  "MAX_IDENTITY_SLOTS = 4096"

definition pool_valid :: "identity_pool \<Rightarrow> bool" where
  "pool_valid p = (\<not> (slots p = 0 \<or> MAX_IDENTITY_SLOTS < slots p) \<and> \<not> (uid_start p = 0 \<or> gid_start p = 0)
     \<and> checked_add (uid_start p) (slots p) \<noteq> None \<and> checked_add (gid_start p) (slots p) \<noteq> None)"

definition pool_identity :: "identity_pool \<Rightarrow> u32 \<Rightarrow> host_identity option" where
  "pool_identity p slot =
     (if \<not> pool_valid p \<or> slots p \<le> slot then None
      else Some \<lparr>id_slot = slot, id_uid = uid_start p + slot, id_gid = gid_start p + slot\<rparr>)"

subsection \<open>Records\<close>

record pending_authorization =
  pa_role :: launch_role
  pa_dependencies :: "approved_dependencies option"
  pa_conformance :: conformance_authorization
  pa_require_cold_recovery :: bool
  pa_authorization_id :: string
  pa_request_id :: string
  pa_request_digest :: string
  pa_controller_uid :: u32
  pa_session_id :: string
  pa_run_id :: string
  pa_agent_id :: string
  pa_envelope_revision :: u64
  pa_identity :: host_identity
  pa_expires_at_ms :: u64
  pa_broker_loss_grace_ms :: u32
  pa_commands :: "approved_commands option"
  pa_skill_requests :: "approved_skill_requests option"
  pa_beads_mutations :: "approved_beads_mutations option"
  pa_provider_requests :: "approved_provider_requests option"

datatype auth_file = Pending_File pending_authorization
  | Consumed_File pending_authorization u64
  | Marker_File launch_request

definition launch_authorization_of :: "pending_authorization \<Rightarrow> launch_authorization" where
  "launch_authorization_of p = \<lparr>la_role = pa_role p, la_conformance = pa_conformance p,
     la_schema = LAUNCH_AUTHORIZATION_SCHEMA, la_protocol_version = PROTOCOL_VERSION,
     la_authorization_id = pa_authorization_id p, la_request_id = pa_request_id p,
     la_request_digest = pa_request_digest p, la_controller_uid = pa_controller_uid p,
     la_session_id = pa_session_id p, la_run_id = pa_run_id p, la_envelope_revision = pa_envelope_revision p,
     la_identity_slot = id_slot (pa_identity p), la_assigned_uid = id_uid (pa_identity p),
     la_assigned_gid = id_gid (pa_identity p),
     la_provider_expires_at_ms = map_option av_expires_at_ms (pa_provider_requests p),
     la_expires_at_ms = pa_expires_at_ms p, la_broker_loss_grace_ms = pa_broker_loss_grace_ms p\<rparr>"

record auth_codec =
  launch :: launch_codec
  fetch :: fetch_codec
  auth_urls :: url_reader
  consumed_json :: "pending_authorization \<Rightarrow> u64 \<Rightarrow> string"
  retention_json :: "retention_record \<Rightarrow> string"

text \<open>The store of the broker: the files below its root, and the retention directory.\<close>

record auth_store =
  au_vault :: "auth_file vault"
  au_retention :: "retention_record disk"

type_synonym 'a auth_op = "(auth_store, broker_error, 'a) op"

definition on_vault :: "(auth_file, 'a) vault_op \<Rightarrow> 'a auth_op" where
  "on_vault m s = (case m (au_vault s) of (r, v) \<Rightarrow> (r, s\<lparr>au_vault := v\<rparr>))"

definition on_retention :: "'a retention_op \<Rightarrow> 'a auth_op" where
  "on_retention m s = (case m (au_retention s) of (r, d) \<Rightarrow> (r, s\<lparr>au_retention := d\<rparr>))"

definition PENDING_DIRECTORY :: string where
  "PENDING_DIRECTORY = ''pending''"

definition CONSUMED_DIRECTORY :: string where
  "CONSUMED_DIRECTORY = ''consumed''"

definition COLD_DIRECTORY :: string where
  "COLD_DIRECTORY = ''cold-resume''"

definition request_digest_text :: "auth_codec \<Rightarrow> launch_request \<Rightarrow> string" where
  "request_digest_text c q = digest_text (launch_request_digest_of (launch c) q)"

subsection \<open>Reading the directories\<close>

definition read_pending :: "string \<Rightarrow> auth_file vault \<Rightarrow> broker_error + pending_authorization option" where
  "read_pending name v =
     andThen (read_record PENDING_DIRECTORY name v) (\<lambda>found.
     case found of None \<Rightarrow> Inr None
     | Some (Pending_File p) \<Rightarrow> Inr (Some p)
     | Some _ \<Rightarrow> Inl (corrupt ''broker record is malformed''))"

definition read_consumed :: "string \<Rightarrow> auth_file vault \<Rightarrow> broker_error + (pending_authorization \<times> u64) option" where
  "read_consumed name v =
     andThen (read_record CONSUMED_DIRECTORY name v) (\<lambda>found.
     case found of None \<Rightarrow> Inr None
     | Some (Consumed_File p t) \<Rightarrow> Inr (Some (p, t))
     | Some _ \<Rightarrow> Inl (corrupt ''broker record is malformed''))"

fun over_records ::
  "(string \<Rightarrow> broker_error + 'p option) \<Rightarrow> ('p \<Rightarrow> 'b \<Rightarrow> broker_error + 'b) \<Rightarrow> string list \<Rightarrow> 'b
     \<Rightarrow> broker_error + 'b" where
  "over_records reader f [] acc = Inr acc"
| "over_records reader f (n # ns) acc =
     andThen (reader n) (\<lambda>held.
     andThen (case held of None \<Rightarrow> Inr acc | Some p \<Rightarrow> f p acc) (\<lambda>acc'. over_records reader f ns acc'))"

definition over_pending ::
  "(pending_authorization \<Rightarrow> 'b \<Rightarrow> broker_error + 'b) \<Rightarrow> auth_file vault \<Rightarrow> 'b \<Rightarrow> broker_error + 'b" where
  "over_pending f v acc =
     andThen (ensure (v_listable v) (Storage ''io'')) (\<lambda>_.
     over_records (\<lambda>n. read_pending n v) f (dir_names v PENDING_DIRECTORY) acc)"

definition over_consumed ::
  "(pending_authorization \<Rightarrow> 'b \<Rightarrow> broker_error + 'b) \<Rightarrow> auth_file vault \<Rightarrow> 'b \<Rightarrow> broker_error + 'b" where
  "over_consumed f v acc =
     andThen (ensure (v_listable v) (Storage ''io'')) (\<lambda>_.
     over_records (\<lambda>n. andThen (read_consumed n v) (\<lambda>found. Inr (map_option fst found))) f
       (dir_names v CONSUMED_DIRECTORY) acc)"

definition session_count_for_run :: "string \<Rightarrow> auth_file vault \<Rightarrow> broker_error + nat" where
  "session_count_for_run run v =
     (let note_session = (\<lambda>p sessions. Inr (if pa_run_id p = run then List.insert (pa_session_id p) sessions else sessions)) in
      andThen (over_pending note_session v []) (\<lambda>sessions.
      andThen (over_consumed note_session v sessions) (\<lambda>sessions. Inr (length sessions))))"

subsection \<open>Occupied identities\<close>

type_synonym terminal_check = "pending_authorization \<Rightarrow> broker_error + bool"

definition occupant_of :: "pending_authorization \<Rightarrow> occupied_session_identity" where
  "occupant_of p = \<lparr>oc_session_id = pa_session_id p, oc_state = Starting, oc_slot = id_slot (pa_identity p)\<rparr>"

definition occupants ::
  "u64 \<Rightarrow> terminal_check \<Rightarrow> auth_file vault \<Rightarrow> broker_error + occupied_session_identity list" where
  "occupants now_ms terminal v =
     andThen (over_pending (\<lambda>p acc. Inr (if pa_expires_at_ms p \<le> now_ms then acc else acc @ [occupant_of p])) v []) (\<lambda>acc.
     over_consumed (\<lambda>p acc. andThen (terminal p) (\<lambda>gone. Inr (if gone then acc else acc @ [occupant_of p]))) v acc)"

definition assign_identity ::
  "identity_pool \<Rightarrow> u64 \<Rightarrow> terminal_check \<Rightarrow> auth_file vault \<Rightarrow> broker_error + host_identity" where
  "assign_identity pool now_ms terminal v =
     andThen (occupants now_ms terminal v) (\<lambda>ocs.
     case find (\<lambda>slot. \<not> list_ex (\<lambda>oc. oc_slot oc = slot) ocs) (map of_nat [0..<unat (slots pool)]) of
       Some slot \<Rightarrow> ok_or (pool_identity pool slot) Invalid_Pool
     | None \<Rightarrow>
         andThen (map_err (\<lambda>_. Invalid_Pool) (compose_exhaustion ocs)) (\<lambda>x. Inl (Identity_Exhausted x)))"

definition has_session :: "string \<Rightarrow> auth_file vault \<Rightarrow> broker_error + bool" where
  "has_session session v =
     andThen (occupants 0 (\<lambda>_. Inr False) v) (\<lambda>ocs. Inr (list_ex (\<lambda>oc. oc_session_id oc = session) ocs))"

definition require_recovery_reservation ::
  "pending_authorization \<Rightarrow> u64 \<Rightarrow> terminal_check \<Rightarrow> auth_file vault \<Rightarrow> broker_error + unit" where
  "require_recovery_reservation held now_ms terminal v =
     andThen (occupants now_ms terminal v) (\<lambda>ocs.
     case filter (\<lambda>oc. oc_slot oc = id_slot (pa_identity held)) ocs of
       [oc] \<Rightarrow> ensure (oc_session_id oc = pa_session_id held) Invalid_Grant
     | _ \<Rightarrow> Inl Invalid_Grant)"

subsection \<open>Authorizing\<close>

definition verifier_limited :: "grant_request \<Rightarrow> bool" where
  "verifier_limited g = (gq_role g = Fixed_Verifier \<longrightarrow> \<not> (gq_require_cold_recovery g \<or> gq_commands g \<noteq> None
     \<or> gq_dependencies g \<noteq> None \<or> gq_skill_requests g \<noteq> None \<or> gq_beads_mutations g \<noteq> None
     \<or> gq_provider_requests g \<noteq> None))"

definition check_grant_request :: "auth_codec \<Rightarrow> grant_request \<Rightarrow> u64 \<Rightarrow> broker_error + unit" where
  "check_grant_request c g now_ms =
     (let q = gq_request g in
      andThen (map_err (\<lambda>_. Invalid_Grant) (validate_launch_request (launch c) q)) (\<lambda>_.
      andThen (ensure (verifier_limited g) Invalid_Grant) (\<lambda>_.
      andThen (ensure (\<not> (gq_expires_at_ms g \<le> now_ms \<or> gq_controller_uid g = 0)) Invalid_Grant) (\<lambda>_.
      andThen (map_err (\<lambda>_. Invalid_Grant) (validate_conformance_for (gq_conformance g) (lq_session_id q)
         (request_digest_text c q) (gq_controller_uid g) now_ms)) (\<lambda>_.
      andThen (case gq_commands g of None \<Rightarrow> Inr ()
         | Some a \<Rightarrow> andThen (commands_policy a (lq_authorization_id q) now_ms 0) (\<lambda>_. Inr ())) (\<lambda>_.
      andThen (case gq_dependencies g of None \<Rightarrow> Inr ()
         | Some d \<Rightarrow> andThen (map_err Policy (validate_dependencies (fetch c) d now_ms)) (\<lambda>_.
             ensure (ad_input_manifest_digest d = lq_session_input_manifest_id q) Request_Mismatch)) (\<lambda>_.
      andThen (ensure (case gq_skill_requests g of None \<Rightarrow> True | Some a \<Rightarrow> skills_valid a now_ms) Invalid_Grant) (\<lambda>_.
      andThen (ensure (case gq_beads_mutations g of None \<Rightarrow> True | Some a \<Rightarrow> beads_valid a now_ms) Invalid_Grant) (\<lambda>_.
      ensure (case gq_provider_requests g of None \<Rightarrow> True | Some a \<Rightarrow> provider_valid (auth_urls c) a now_ms)
        Invalid_Grant)))))))))"

definition dependencies_before_run_start :: "grant_request \<Rightarrow> auth_file vault \<Rightarrow> broker_error + unit" where
  "dependencies_before_run_start g v =
     (if gq_dependencies g = None \<or> ca_attendance (gq_conformance g) \<noteq> Unattended then Inr ()
      else over_consumed (\<lambda>p _. ensure (pa_run_id p \<noteq> lq_run_id (gq_request g)) Invalid_Grant) v ())"

definition pending_of :: "auth_codec \<Rightarrow> grant_request \<Rightarrow> host_identity \<Rightarrow> pending_authorization" where
  "pending_of c g identity = (let q = gq_request g in
     \<lparr>pa_role = gq_role g, pa_dependencies = gq_dependencies g, pa_conformance = gq_conformance g,
      pa_require_cold_recovery = gq_require_cold_recovery g, pa_authorization_id = lq_authorization_id q,
      pa_request_id = lq_request_id q, pa_request_digest = request_digest_text c q,
      pa_controller_uid = gq_controller_uid g, pa_session_id = lq_session_id q, pa_run_id = lq_run_id q,
      pa_agent_id = lq_agent_id q, pa_envelope_revision = lq_envelope_revision q, pa_identity = identity,
      pa_expires_at_ms = gq_expires_at_ms g, pa_broker_loss_grace_ms = gq_broker_loss_grace_ms g,
      pa_commands = gq_commands g, pa_skill_requests = gq_skill_requests g,
      pa_beads_mutations = gq_beads_mutations g, pa_provider_requests = gq_provider_requests g\<rparr>)"

definition authorize_inner ::
  "auth_codec \<Rightarrow> identity_pool \<Rightarrow> grant_request \<Rightarrow> u64 \<Rightarrow> terminal_check \<Rightarrow> pending_authorization auth_op" where
  "authorize_inner c pool g now_ms terminal =
     bind_op (pure (check_grant_request c g now_ms)) (\<lambda>_.
     bind_op (pure (record_name (lq_authorization_id (gq_request g)))) (\<lambda>name.
     bind_op (read_op (\<lambda>s. dependencies_before_run_start g (au_vault s))) (\<lambda>_.
     bind_op (read_op (\<lambda>s. ensure (vault_file (au_vault s) PENDING_DIRECTORY name = None
        \<and> vault_file (au_vault s) CONSUMED_DIRECTORY name = None) Duplicate_Authorization)) (\<lambda>_.
     bind_op (read_op (\<lambda>s. assign_identity pool now_ms terminal (au_vault s))) (\<lambda>identity.
     let p = pending_of c g identity in
     bind_op (pure (map_err (\<lambda>_. Invalid_Grant) (validate_launch_authorization (launch_authorization_of p)))) (\<lambda>_.
     bind_op (on_retention (with_retention (register (launch c) (retention_json c) (gq_request g) now_ms))) (\<lambda>_.
     bind_op (on_vault (write_new_record PENDING_DIRECTORY name (Pending_File p))) (\<lambda>_.
     pure (Inr p)))))))))"

definition authorize ::
  "auth_codec \<Rightarrow> identity_pool \<Rightarrow> grant_request \<Rightarrow> u64 \<Rightarrow> pending_authorization auth_op" where
  "authorize c pool g now_ms = authorize_inner c pool g now_ms (\<lambda>_. Inr False)"

definition same_grant :: "auth_codec \<Rightarrow> pending_authorization \<Rightarrow> grant_request \<Rightarrow> bool" where
  "same_grant c p g = (\<not> (pa_request_digest p \<noteq> request_digest_text c (gq_request g)
     \<or> pa_conformance p \<noteq> gq_conformance g \<or> pa_controller_uid p \<noteq> gq_controller_uid g \<or> pa_role p \<noteq> gq_role g
     \<or> pa_commands p \<noteq> gq_commands g \<or> pa_skill_requests p \<noteq> gq_skill_requests g
     \<or> pa_dependencies p \<noteq> gq_dependencies g \<or> pa_beads_mutations p \<noteq> gq_beads_mutations g
     \<or> pa_provider_requests p \<noteq> gq_provider_requests g \<or> pa_expires_at_ms p \<noteq> gq_expires_at_ms g
     \<or> pa_require_cold_recovery p \<noteq> gq_require_cold_recovery g
     \<or> pa_broker_loss_grace_ms p \<noteq> gq_broker_loss_grace_ms g))"

definition authorize_cold_target ::
  "auth_codec \<Rightarrow> identity_pool \<Rightarrow> grant_request \<Rightarrow> u64 \<Rightarrow> terminal_check \<Rightarrow> pending_authorization auth_op" where
  "authorize_cold_target c pool g now_ms terminal =
     bind_op (pure (ensure (gq_role g \<noteq> Fixed_Verifier) Invalid_Grant)) (\<lambda>_.
     bind_op (pure (record_name (lq_authorization_id (gq_request g)))) (\<lambda>name.
     bind_op (read_op (\<lambda>s. read_pending name (au_vault s))) (\<lambda>held.
     bind_op (case held of Some p \<Rightarrow> pure (Inr (Some p))
        | None \<Rightarrow> read_op (\<lambda>s. andThen (read_consumed name (au_vault s)) (\<lambda>found. Inr (map_option fst found)))) (\<lambda>prior.
     case prior of
       Some p \<Rightarrow>
         bind_op (pure (ensure (same_grant c p g) Request_Mismatch)) (\<lambda>_.
         bind_op (on_vault vault_call) (\<lambda>_.
         bind_op (on_vault vault_call) (\<lambda>_. pure (Inr p))))
     | None \<Rightarrow>
         bind_op (on_vault (write_new_record COLD_DIRECTORY (''authorized-'' @ name) (Marker_File (gq_request g)))) (\<lambda>_.
         authorize_inner c pool g now_ms terminal)))))"

subsection \<open>Consuming\<close>

definition remove_pending :: "string \<Rightarrow> (auth_file, unit) vault_op" where
  "remove_pending name v =
     (if vault_file v PENDING_DIRECTORY name = None then (Inl Unknown_Authorization, after_fault v)
      else if next_vault_fault v \<noteq> Vault_Ok then (Inl (Storage ''io''), after_fault v)
      else (Inr (), (after_fault v)\<lparr>v_files := filter (\<lambda>(k, _). k \<noteq> (PENDING_DIRECTORY, name)) (v_files v)\<rparr>))"

text \<open>
  Syncing the directory after the removal. When that fails the removal may or may not be
  durable: with \<open>Failed\<close> the file is gone, with the other faults a crash brings it back.
\<close>

definition sync_removal :: "string \<Rightarrow> pending_authorization \<Rightarrow> (auth_file, unit) vault_op" where
  "sync_removal name p v =
     (case next_vault_fault v of
        Vault_Ok \<Rightarrow> (Inr (), after_fault v)
      | Failed \<Rightarrow> (Inl (Storage ''io''), after_fault v)
      | _ \<Rightarrow> (Inl (Storage ''io''), add_file PENDING_DIRECTORY name (Stored (Pending_File p)) (after_fault v)))"

definition request_matches :: "auth_codec \<Rightarrow> pending_authorization \<Rightarrow> launch_request \<Rightarrow> bool" where
  "request_matches c p q = (\<not> (pa_request_digest p \<noteq> request_digest_text c q \<or> pa_request_id p \<noteq> lq_request_id q
     \<or> pa_session_id p \<noteq> lq_session_id q \<or> pa_run_id p \<noteq> lq_run_id q
     \<or> pa_envelope_revision p \<noteq> lq_envelope_revision q))"

definition consume_with ::
  "auth_codec \<Rightarrow> launch_request \<Rightarrow> u32 \<Rightarrow> u64 \<Rightarrow> (launch_authorization \<Rightarrow> broker_error + launch_authorization)
     \<Rightarrow> launch_authorization auth_op" where
  "consume_with c q controller_uid now_ms decision =
     bind_op (pure (map_err (\<lambda>_. Invalid_Grant) (validate_launch_request (launch c) q))) (\<lambda>_.
     bind_op (pure (record_name (lq_authorization_id q))) (\<lambda>name.
     bind_op (read_op (\<lambda>s. andThen (read_pending name (au_vault s)) (\<lambda>held. ok_or held Unknown_Authorization))) (\<lambda>p.
     bind_op (pure (ensure (request_matches c p q) Request_Mismatch)) (\<lambda>_.
     bind_op (pure (ensure (pa_controller_uid p = controller_uid) Controller_Mismatch)) (\<lambda>_.
     bind_op (pure (ensure (\<not> pa_expires_at_ms p \<le> now_ms) Authorization_Expired)) (\<lambda>_.
     bind_op (pure (decision (launch_authorization_of p))) (\<lambda>decided.
     let p' = p\<lparr>pa_conformance := la_conformance decided\<rparr> in
     bind_op (pure (map_err (\<lambda>_. Invalid_Grant) (validate_conformance_for (pa_conformance p') (pa_session_id p')
        (pa_request_digest p') (pa_controller_uid p') now_ms))) (\<lambda>_.
     bind_op (on_vault (remove_pending name)) (\<lambda>_.
     bind_op (on_vault (sync_removal name p)) (\<lambda>_.
     bind_op (on_vault (write_new_record CONSUMED_DIRECTORY name (Consumed_File p' now_ms))) (\<lambda>_.
     let a = launch_authorization_of p' in
     bind_op (pure (map_err (\<lambda>_. Invalid_Grant) (validate_launch_authorization a))) (\<lambda>_.
     pure (Inr a)))))))))))))"

definition consume :: "auth_codec \<Rightarrow> launch_request \<Rightarrow> u32 \<Rightarrow> u64 \<Rightarrow> launch_authorization auth_op" where
  "consume c q controller_uid now_ms = consume_with c q controller_uid now_ms Inr"

text \<open>
  The source reads the controller of the pending record before it takes the lock of the
  consumption. A pending record is only ever removed, never changed, so the one read of
  \<open>consume_as_held\<close> differs from the source only when the record is gone by then, and then both
  refuse the request as unknown.
\<close>

definition consume_as_held ::
  "auth_codec \<Rightarrow> launch_request \<Rightarrow> u64 \<Rightarrow> (launch_authorization \<Rightarrow> broker_error + launch_authorization)
     \<Rightarrow> launch_authorization auth_op" where
  "consume_as_held c q now_ms decision =
     bind_op (pure (record_name (lq_authorization_id q))) (\<lambda>name.
     bind_op (read_op (\<lambda>s. andThen (read_pending name (au_vault s)) (\<lambda>held. ok_or held Unknown_Authorization))) (\<lambda>p.
     consume_with c q (pa_controller_uid p) now_ms decision))"

definition consume_for_launcher :: "auth_codec \<Rightarrow> launch_request \<Rightarrow> u64 \<Rightarrow> launch_authorization auth_op" where
  "consume_for_launcher c q now_ms = consume_as_held c q now_ms Inr"

text \<open>\<open>waiver_of\<close> is the current waiver decision for an authorization.\<close>

definition consume_with_waivers ::
  "auth_codec \<Rightarrow> launch_request \<Rightarrow> u64 \<Rightarrow> (launch_authorization \<Rightarrow> broker_error + u64 \<times> conformance_waiver option)
     \<Rightarrow> launch_authorization auth_op" where
  "consume_with_waivers c q now_ms waiver_of =
     consume_as_held c q now_ms (\<lambda>a. andThen (waiver_of a) (\<lambda>(_, w).
       Inr (a\<lparr>la_conformance := (la_conformance a)\<lparr>ca_waiver := w\<rparr>\<rparr>)))"

subsection \<open>Inspecting\<close>

fun find_consumed :: "string \<Rightarrow> auth_file vault \<Rightarrow> string list \<Rightarrow> broker_error + pending_authorization option" where
  "find_consumed session v [] = Inr None"
| "find_consumed session v (n # ns) =
     andThen (read_consumed n v) (\<lambda>found.
     case found of
       Some (p, _) \<Rightarrow> if pa_session_id p = session then Inr (Some p) else find_consumed session v ns
     | None \<Rightarrow> find_consumed session v ns)"

definition consumed_for_session ::
  "string \<Rightarrow> auth_file vault \<Rightarrow> broker_error + pending_authorization option" where
  "consumed_for_session session v =
     andThen (ensure (v_listable v) (Storage ''io'')) (\<lambda>_.
     find_consumed session v (dir_names v CONSUMED_DIRECTORY))"

fun consumed_inventory ::
  "auth_file vault \<Rightarrow> string list \<Rightarrow> pending_authorization list \<Rightarrow> nat \<Rightarrow> broker_error + pending_authorization list" where
  "consumed_inventory v [] acc k = Inr acc"
| "consumed_inventory v (n # ns) acc k =
     andThen (ensure (k < 4096) (corrupt ''consumed authorization scan exceeds its bound'')) (\<lambda>_.
     andThen (read_consumed n v) (\<lambda>found.
     andThen (ok_or found (corrupt ''consumed authorization is missing'')) (\<lambda>(p, _).
     andThen (map_err Policy (validate_launch_authorization (launch_authorization_of p))) (\<lambda>_.
     andThen (record_name (pa_authorization_id p)) (\<lambda>name.
     andThen (ensure (n = name \<and> is_record_identifier (pa_agent_id p)
        \<and> pa_session_id p \<notin> set (map pa_session_id acc)) (corrupt ''consumed authorization identity mismatch'')) (\<lambda>_.
     consumed_inventory v ns (acc @ [p]) (Suc k)))))))"

definition with_consumed ::
  "(pending_authorization list \<Rightarrow> broker_error + 'a) \<Rightarrow> auth_file vault \<Rightarrow> broker_error + 'a" where
  "with_consumed look v =
     andThen (ensure (v_listable v) (Storage ''io'')) (\<lambda>_.
     andThen (consumed_inventory v (dir_names v CONSUMED_DIRECTORY) [] 0) look)"

definition with_pending ::
  "string \<Rightarrow> (pending_authorization \<Rightarrow> broker_error + 'a) \<Rightarrow> auth_file vault \<Rightarrow> broker_error + 'a" where
  "with_pending session action v =
     andThen (over_pending (\<lambda>p found.
        if pa_session_id p = session then andThen (ensure (found = None) Invalid_Grant) (\<lambda>_. Inr (Some p))
        else Inr found) v None) (\<lambda>found.
     andThen (ok_or found (Waiver_Refused ''waiver subject or operation is unknown'')) action)"

definition read_consumption ::
  "auth_codec \<Rightarrow> string \<Rightarrow> auth_file vault \<Rightarrow> broker_error + pending_authorization \<times> string" where
  "read_consumption c i v =
     andThen (record_name i) (\<lambda>name.
     andThen (read_consumed name v) (\<lambda>found.
     andThen (ok_or found Unknown_Authorization) (\<lambda>(p, t).
     andThen (ensure (pa_authorization_id p = i) Request_Mismatch) (\<lambda>_.
     Inr (p, digest_text (digest_of (digest_bytes (receipt_codec (protocol_codec_of (launch c)))) (consumed_json c p t)))))))"

definition with_consumption ::
  "auth_codec \<Rightarrow> string \<Rightarrow> (pending_authorization \<Rightarrow> string \<Rightarrow> broker_error + 'a) \<Rightarrow> auth_file vault
     \<Rightarrow> broker_error + 'a" where
  "with_consumption c i body v = andThen (read_consumption c i v) (\<lambda>(p, d). body p d)"

definition consumption_digest ::
  "auth_codec \<Rightarrow> pending_authorization \<Rightarrow> auth_file vault \<Rightarrow> broker_error + string" where
  "consumption_digest c held v =
     andThen (read_consumption c (pa_authorization_id held) v) (\<lambda>(p, d).
     andThen (ensure (p = held) Request_Mismatch) (\<lambda>_. Inr d))"

end
