(* ===== verification/Authorization_Safety.thy ===== *)
theory Authorization_Safety
  imports Authorization
begin

section \<open>Safety of launch authorizations\<close>

text \<open>
  What the operations of the authorization store do to its files, stated on the lookup of the
  vault, and the histories in which the operations are interleaved with faults, the passing of
  time and the disposal of Sessions.
\<close>

subsection \<open>Running an operation step by step\<close>

lemma bound_vault: "bind_op (on_vault m) k s = (x, s') \<longleftrightarrow>
    (\<exists>e v. m (au_vault s) = (Inl e, v) \<and> x = Inl e \<and> s' = s\<lparr>au_vault := v\<rparr>)
    \<or> (\<exists>a v. m (au_vault s) = (Inr a, v) \<and> k a (s\<lparr>au_vault := v\<rparr>) = (x, s'))"
  by (cases "m (au_vault s)"; cases "fst (m (au_vault s))") (auto simp: bind_op_def on_vault_def)

lemma bound_retention: "bind_op (on_retention m) k s = (x, s') \<longleftrightarrow>
    (\<exists>e d. m (au_retention s) = (Inl e, d) \<and> x = Inl e \<and> s' = s\<lparr>au_retention := d\<rparr>)
    \<or> (\<exists>a d. m (au_retention s) = (Inr a, d) \<and> k a (s\<lparr>au_retention := d\<rparr>) = (x, s'))"
  by (cases "m (au_retention s)"; cases "fst (m (au_retention s))") (auto simp: bind_op_def on_retention_def)

lemma vault_of_retention: "au_vault (s\<lparr>au_retention := d\<rparr>) = au_vault s"
  by simp

lemma vault_again: "au_vault (s\<lparr>au_vault := v\<rparr>) = v" "s\<lparr>au_vault := v, au_vault := w\<rparr> = s\<lparr>au_vault := w\<rparr>"
  by simp_all

lemmas bound_steps = bound_pure bound_read bound_vault bound_retention

subsection \<open>Files\<close>

abbreviation held :: "auth_store \<Rightarrow> string \<times> string \<Rightarrow> auth_file entry option" where
  "held s \<equiv> map_of (v_files (au_vault s))"

lemma vault_file_held: "vault_file v dir name = map_of (v_files v) (dir, name)"
  by (simp add: vault_file_def)

lemma dirs_differ [simp]: "PENDING_DIRECTORY \<noteq> CONSUMED_DIRECTORY" "CONSUMED_DIRECTORY \<noteq> PENDING_DIRECTORY"
  "COLD_DIRECTORY \<noteq> PENDING_DIRECTORY" "COLD_DIRECTORY \<noteq> CONSUMED_DIRECTORY"
  "PENDING_DIRECTORY \<noteq> COLD_DIRECTORY" "CONSUMED_DIRECTORY \<noteq> COLD_DIRECTORY"
  by (simp_all add: PENDING_DIRECTORY_def CONSUMED_DIRECTORY_def COLD_DIRECTORY_def)

lemma write_new_held:
  assumes "write_new_record dir name r v = (x, v')"
  shows "(x \<noteq> Inr () \<and> map_of (v_files v') = map_of (v_files v))
    \<or> (map_of (v_files v) (dir, name) = None
       \<and> (\<exists>e. map_of (v_files v') = (map_of (v_files v))((dir, name) \<mapsto> e)
            \<and> (e = Stored r \<or> (e = Malformed \<and> x \<noteq> Inr ()))))"
proof -
  have snoc: "[k \<mapsto> e] ++ map_of fs = (map_of fs)(k \<mapsto> e)" if "map_of fs k = None"
    for fs :: "((string \<times> string) \<times> 'a entry) list" and k e
    using that by (auto simp: fun_eq_iff map_add_def split: option.split)
  from write_new_record_cases [OF assms] show ?thesis by (auto simp: vault_file_held snoc)
qed

lemma map_of_without: "map_of (filter (\<lambda>(k, _). k \<noteq> j) fs) = (map_of fs)(j := None)"
  by (induction fs) (auto simp: fun_eq_iff)

lemma map_of_back:
  assumes "map_of fs j = Some e"
  shows "map_of (filter (\<lambda>(k, _). k \<noteq> j) fs @ [(j, e)]) = map_of fs"
  using assms by (auto simp: map_of_without fun_eq_iff map_add_def split: option.split)

lemma read_pending_Some:
  "read_pending name v = Inr (Some p) \<longleftrightarrow> map_of (v_files v) (PENDING_DIRECTORY, name) = Some (Stored (Pending_File p))"
proof (cases "map_of (v_files v) (PENDING_DIRECTORY, name)")
  case None
  then show ?thesis by (simp add: read_pending_def read_record_def read_entry_def vault_file_held results)
next
  case (Some e)
  then show ?thesis
    by (cases e) (auto simp: read_pending_def read_record_def read_entry_def vault_file_held results split: auth_file.splits)
qed

lemma read_consumed_Some:
  "read_consumed name v = Inr (Some (p, t)) \<longleftrightarrow>
     map_of (v_files v) (CONSUMED_DIRECTORY, name) = Some (Stored (Consumed_File p t))"
proof (cases "map_of (v_files v) (CONSUMED_DIRECTORY, name)")
  case None
  then show ?thesis by (simp add: read_consumed_def read_record_def read_entry_def vault_file_held results)
next
  case (Some e)
  then show ?thesis
    by (cases e) (auto simp: read_consumed_def read_record_def read_entry_def vault_file_held results split: auth_file.splits)
qed

subsection \<open>Effects of the operations\<close>

definition nothing_written :: "auth_store \<Rightarrow> auth_store \<Rightarrow> bool" where
  "nothing_written s s' \<longleftrightarrow> held s' = held s"

definition grant_written ::
  "auth_codec \<Rightarrow> identity_pool \<Rightarrow> grant_request \<Rightarrow> u64 \<Rightarrow> terminal_check \<Rightarrow> broker_error + pending_authorization
     \<Rightarrow> auth_store \<Rightarrow> auth_store \<Rightarrow> bool" where
  "grant_written c pool g now_ms terminal x s s' \<longleftrightarrow>
     (\<exists>name identity e. record_name (lq_authorization_id (gq_request g)) = Inr name
        \<and> assign_identity pool now_ms terminal (au_vault s) = Inr identity
        \<and> held s (PENDING_DIRECTORY, name) = None \<and> held s (CONSUMED_DIRECTORY, name) = None
        \<and> held s' = (held s)((PENDING_DIRECTORY, name) \<mapsto> e)
        \<and> (e = Stored (Pending_File (pending_of c g identity)) \<or> e = Malformed \<and> (\<forall>p. x \<noteq> Inr p))
        \<and> (\<forall>p. x = Inr p \<longrightarrow> p = pending_of c g identity))"

lemma authorize_inner_effect:
  assumes "authorize_inner c pool g now_ms terminal s = (x, s')"
  shows "nothing_written s s' \<and> (\<forall>p. x \<noteq> Inr p) \<or> grant_written c pool g now_ms terminal x s s'"
proof -
  from assms have "(\<exists>e. x = Inl e \<and> (s' = s \<or> (\<exists>d. s' = s\<lparr>au_retention := d\<rparr>)))
    \<or> (\<exists>name identity d y v. record_name (lq_authorization_id (gq_request g)) = Inr name
        \<and> assign_identity pool now_ms terminal (au_vault s) = Inr identity
        \<and> vault_file (au_vault s) PENDING_DIRECTORY name = None \<and> vault_file (au_vault s) CONSUMED_DIRECTORY name = None
        \<and> write_new_record PENDING_DIRECTORY name (Pending_File (pending_of c g identity)) (au_vault s) = (y, v)
        \<and> s' = s\<lparr>au_retention := d, au_vault := v\<rparr>
        \<and> ((\<exists>e. y = Inl e \<and> x = Inl e) \<or> (\<exists>u. y = Inr u \<and> x = Inr (pending_of c g identity))))"
    unfolding authorize_inner_def Let_def bound_steps ensure_Inr pure_eq vault_of_retention
    by (elim disjE exE conjE) blast+
  then show ?thesis
  proof (elim disjE exE conjE)
    fix name identity d y v
    assume name: "record_name (lq_authorization_id (gq_request g)) = Inr name"
      and identity: "assign_identity pool now_ms terminal (au_vault s) = Inr identity"
      and free: "vault_file (au_vault s) PENDING_DIRECTORY name = None" "vault_file (au_vault s) CONSUMED_DIRECTORY name = None"
      and w: "write_new_record PENDING_DIRECTORY name (Pending_File (pending_of c g identity)) (au_vault s) = (y, v)"
      and s': "s' = s\<lparr>au_retention := d, au_vault := v\<rparr>"
    show ?thesis if "y = Inl e" "x = Inl e" for e
      using write_new_held [OF w] name identity free that
      by (auto simp: nothing_written_def grant_written_def s' vault_file_held)
    show ?thesis if "y = Inr u" "x = Inr (pending_of c g identity)" for u
      using write_new_held [OF w] name identity free that
      by (auto simp: nothing_written_def grant_written_def s' vault_file_held)
  qed (simp_all add: nothing_written_def)
qed

lemma nothing_written_refl: "nothing_written s s"
  by (simp add: nothing_written_def)

lemma nothing_written_trans: "nothing_written s t \<Longrightarrow> nothing_written t u \<Longrightarrow> nothing_written s u"
  by (simp add: nothing_written_def)

text \<open>The marker of a cold target is a third directory: the two directories of authorizations are as before.\<close>

definition same_authorizations :: "auth_store \<Rightarrow> auth_store \<Rightarrow> bool" where
  "same_authorizations s s' \<longleftrightarrow>
     (\<forall>dir name. dir = PENDING_DIRECTORY \<or> dir = CONSUMED_DIRECTORY \<longrightarrow> held s' (dir, name) = held s (dir, name))"

lemma authorize_cold_effect:
  assumes "authorize_cold_target c pool g now_ms terminal s = (x, s')"
  shows "same_authorizations s s' \<or> (\<exists>t. same_authorizations s t \<and> authorize_inner c pool g now_ms terminal t = (x, s'))"
proof -
  have call: "map_of (v_files w) = map_of (v_files v)" if "vault_call v = (y, w)" for v w :: "auth_file vault" and y
    using vault_call_cases [OF that] by simp
  have marker: "same_authorizations s (s\<lparr>au_vault := v\<rparr>)"
    if "write_new_record COLD_DIRECTORY n r (au_vault s) = (y, v)" for n r y v
    using write_new_held [OF that] by (auto simp: same_authorizations_def)
  have prior: "bind_op (case h of Some p \<Rightarrow> pure (Inr (Some p)) | None \<Rightarrow> read_op f) k s
      = bind_op (read_op (\<lambda>s. case h of Some p \<Rightarrow> Inr (Some p) | None \<Rightarrow> f s)) k s"
    for h :: "pending_authorization option" and f k and s :: auth_store
    by (simp add: bind_op_def pure_def read_op_def split: option.split)
  show ?thesis
    using assms unfolding authorize_cold_target_def prior bound_steps
  proof (elim disjE exE conjE)
    fix name held_now a
    assume rest: "(case a of None \<Rightarrow> bind_op (on_vault (write_new_record COLD_DIRECTORY (''authorized-'' @ name) (Marker_File (gq_request g))))
                (\<lambda>_. authorize_inner c pool g now_ms terminal)
           | Some p \<Rightarrow> bind_op (pure (ensure (same_grant c p g) Request_Mismatch))
                (\<lambda>_. bind_op (on_vault vault_call) (\<lambda>_. bind_op (on_vault vault_call) (\<lambda>_. pure (Inr p))))) s = (x, s')"
    show ?thesis
    proof (cases a)
      case None
      with rest show ?thesis by (auto simp: bound_steps dest: marker)
    next
      case (Some p)
      with rest have "held s' = held s"
        by (auto simp: bound_steps pure_eq dest!: call)
      then show ?thesis by (simp add: same_authorizations_def)
    qed
  qed (simp_all add: same_authorizations_def)
qed

definition authorization_spent ::
  "auth_codec \<Rightarrow> launch_request \<Rightarrow> u64 \<Rightarrow> broker_error + launch_authorization \<Rightarrow> auth_store \<Rightarrow> auth_store \<Rightarrow> bool" where
  "authorization_spent c q now_ms x s s' \<longleftrightarrow>
     (\<exists>name p waiver e. record_name (lq_authorization_id q) = Inr name \<and> now_ms < pa_expires_at_ms p
        \<and> held s (PENDING_DIRECTORY, name) = Some (Stored (Pending_File p)) \<and> request_matches c p q
        \<and> (let p' = p\<lparr>pa_conformance := waiver\<rparr> in
            ((\<forall>a. x \<noteq> Inr a) \<and> held s' = (held s)((PENDING_DIRECTORY, name) := None))
            \<or> (held s (CONSUMED_DIRECTORY, name) = None
               \<and> held s' = (held s)((PENDING_DIRECTORY, name) := None, (CONSUMED_DIRECTORY, name) := Some e)
               \<and> (e = Stored (Consumed_File p' now_ms) \<or> (e = Malformed \<and> (\<forall>a. x \<noteq> Inr a)))
               \<and> (\<forall>a. x = Inr a \<longrightarrow> a = launch_authorization_of p' \<and> validate_launch_authorization a = Inr ()
                    \<and> is_ok (validate_conformance_for waiver (pa_session_id p) (pa_request_digest p) (pa_controller_uid p) now_ms)))))"

lemma remove_pending_held:
  "remove_pending name v = (y, v') \<Longrightarrow>
     (y \<noteq> Inr () \<and> map_of (v_files v') = map_of (v_files v))
     \<or> (y = Inr () \<and> v_files v' = filter (\<lambda>(k, _). k \<noteq> (PENDING_DIRECTORY, name)) (v_files v))"
  by (auto simp: remove_pending_def split: if_splits)

lemma sync_removal_held:
  "sync_removal name p v = (y, v') \<Longrightarrow>
     (v_files v' = v_files v) \<or> (y \<noteq> Inr () \<and> v_files v' = v_files v @ [((PENDING_DIRECTORY, name), Stored (Pending_File p))])"
  by (auto simp: sync_removal_def add_file_def split: vault_fault.splits)

lemma spend_tail:
  assumes run: "bind_op (on_vault (remove_pending name)) (\<lambda>_. bind_op (on_vault (sync_removal name p)) (\<lambda>_.
      bind_op (on_vault (write_new_record CONSUMED_DIRECTORY name r)) (\<lambda>_. pure y))) s = (x, s')"
    and p: "held s (PENDING_DIRECTORY, name) = Some (Stored (Pending_File p))"
  shows "(\<forall>a. x \<noteq> Inr a) \<and> (held s' = held s \<or> held s' = (held s)((PENDING_DIRECTORY, name) := None))
    \<or> (held s (CONSUMED_DIRECTORY, name) = None
       \<and> (\<exists>e. held s' = (held s)((PENDING_DIRECTORY, name) := None, (CONSUMED_DIRECTORY, name) := Some e)
            \<and> (e = Stored r \<and> (x = y \<or> (\<forall>a. x \<noteq> Inr a)) \<or> e = Malformed \<and> (\<forall>a. x \<noteq> Inr a))))"
proof -
  let ?without = "(held s)((PENDING_DIRECTORY, name) := None)"
  from run obtain u v where removed: "remove_pending name (au_vault s) = (u, v)"
    and rest: "(\<exists>e. u = Inl e \<and> x = Inl e \<and> s' = s\<lparr>au_vault := v\<rparr>)
      \<or> u = Inr () \<and> bind_op (on_vault (sync_removal name p)) (\<lambda>_.
           bind_op (on_vault (write_new_record CONSUMED_DIRECTORY name r)) (\<lambda>_. pure y)) (s\<lparr>au_vault := v\<rparr>) = (x, s')"
    unfolding bound_vault [of "remove_pending name"] by (auto simp: old.unit.exhaust)
  show ?thesis
  proof (cases "u = Inr ()")
    case False
    with rest remove_pending_held [OF removed] show ?thesis by auto
  next
    case True
    with remove_pending_held [OF removed]
    have v: "v_files v = filter (\<lambda>(k, _). k \<noteq> (PENDING_DIRECTORY, name)) (v_files (au_vault s))" by simp
    from True rest obtain z w where synced: "sync_removal name p v = (z, w)"
      and rest': "(\<exists>e. z = Inl e \<and> x = Inl e \<and> s' = s\<lparr>au_vault := w\<rparr>)
        \<or> z = Inr () \<and> bind_op (on_vault (write_new_record CONSUMED_DIRECTORY name r)) (\<lambda>_. pure y) (s\<lparr>au_vault := w\<rparr>) = (x, s')"
      unfolding bound_vault [of "sync_removal name p"] by auto
    show ?thesis
    proof (cases "z = Inr ()")
      case False
      with rest' sync_removal_held [OF synced] show ?thesis
        by (auto simp: v map_of_without map_of_back [OF p] simp del: map_of_append)
    next
      case True
      with sync_removal_held [OF synced] v have w: "map_of (v_files w) = ?without" by (simp add: map_of_without)
      from True rest' obtain b m where wrote: "write_new_record CONSUMED_DIRECTORY name r w = (b, m)"
        and s': "s' = s\<lparr>au_vault := m\<rparr>" and x: "(\<exists>e. x = Inl e) \<or> b = Inr () \<and> x = y"
        unfolding bound_vault pure_eq by auto
      from write_new_held [OF wrote] x show ?thesis
        unfolding w s' by (cases "b = Inr ()") auto
    qed
  qed
qed

lemma consume_with_effect:
  assumes "consume_with c q uid now_ms decision s = (x, s')"
  shows "nothing_written s s' \<and> (\<forall>a. x \<noteq> Inr a) \<or> authorization_spent c q now_ms x s s'"
proof -
  have last_step: "bind_op (pure V) (\<lambda>_. pure (Inr a)) = pure (andThen V (\<lambda>_. Inr a))"
    for V :: "broker_error + unit" and a :: launch_authorization
    by (cases V) (simp_all add: fun_eq_iff bind_op_def pure_def andThen_def)
  show ?thesis
    using assms unfolding consume_with_def Let_def last_step bound_pure bound_read
  proof (elim disjE exE conjE)
    fix name u w y and p :: pending_authorization and decided :: launch_authorization
    let ?conf = "la_conformance decided"
    let ?p = "p\<lparr>pa_conformance := ?conf\<rparr>"
    assume name: "record_name (lq_authorization_id q) = Inr name"
      and p: "andThen (read_pending name (au_vault s)) (\<lambda>held. ok_or held Unknown_Authorization) = Inr p"
      and m: "ensure (request_matches c p q) Request_Mismatch = Inr u"
      and t: "ensure (\<not> pa_expires_at_ms p \<le> now_ms) Authorization_Expired = Inr w"
      and v: "map_err (\<lambda>_. Invalid_Grant) (validate_conformance_for (pa_conformance ?p) (pa_session_id ?p)
          (pa_request_digest ?p) (pa_controller_uid ?p) now_ms) = Inr y"
      and run: "bind_op (on_vault (remove_pending name)) (\<lambda>_. bind_op (on_vault (sync_removal name p)) (\<lambda>_.
        bind_op (on_vault (write_new_record CONSUMED_DIRECTORY name (Consumed_File ?p now_ms))) (\<lambda>_.
        pure (andThen (map_err (\<lambda>_. Invalid_Grant) (validate_launch_authorization (launch_authorization_of ?p)))
          (\<lambda>_. Inr (launch_authorization_of ?p)))))) s = (x, s')"
    from p have held: "held s (PENDING_DIRECTORY, name) = Some (Stored (Pending_File p))"
      by (auto simp: results read_pending_Some)
    from v have valid: "is_ok (validate_conformance_for ?conf (pa_session_id p) (pa_request_digest p)
        (pa_controller_uid p) now_ms)" by (auto simp: results)
    have final: "a = launch_authorization_of ?p \<and> validate_launch_authorization a = Inr ()"
      if "x = andThen (map_err (\<lambda>_. Invalid_Grant) (validate_launch_authorization (launch_authorization_of ?p)))
          (\<lambda>_. Inr (launch_authorization_of ?p))" "x = Inr a" for a
      using that by (auto simp: andThen_def map_err_def split: sum.splits)
    have basis: "now_ms < pa_expires_at_ms p" "request_matches c p q" using m t by (auto simp: ensure_Inr)
    from spend_tail [OF run held] show ?thesis
    proof (elim disjE conjE exE)
      assume "\<forall>a. x \<noteq> Inr a" "held s' = held s"
      then show ?thesis by (simp add: nothing_written_def)
    next
      assume "\<forall>a. x \<noteq> Inr a" "held s' = (held s)((PENDING_DIRECTORY, name) := None)"
      with name held basis have "authorization_spent c q now_ms x s s'"
        unfolding authorization_spent_def Let_def by blast
      then show ?thesis ..
    next
      fix e
      assume new: "held s (CONSUMED_DIRECTORY, name) = None"
        "held s' = (held s)((PENDING_DIRECTORY, name) := None, (CONSUMED_DIRECTORY, name) := Some e)"
      have spent: "authorization_spent c q now_ms x s s'"
        if "e = Stored (Consumed_File ?p now_ms) \<or> e = Malformed \<and> (\<forall>a. x \<noteq> Inr a)"
          "\<forall>a. x = Inr a \<longrightarrow> a = launch_authorization_of ?p \<and> validate_launch_authorization a = Inr ()"
        unfolding authorization_spent_def Let_def
        by (rule exI [of _ name], rule exI [of _ p], rule exI [of _ "?conf"], rule exI [of _ e])
          (use name held basis new valid that in simp)
      show ?thesis if "e = Stored (Consumed_File ?p now_ms)" "x = andThen (map_err (\<lambda>_. Invalid_Grant)
          (validate_launch_authorization (launch_authorization_of ?p))) (\<lambda>_. Inr (launch_authorization_of ?p))"
        using spent final that by blast
      show ?thesis if "e = Stored (Consumed_File ?p now_ms)" "\<forall>a. x \<noteq> Inr a" using spent that by blast
      show ?thesis if "e = Malformed" "\<forall>a. x \<noteq> Inr a" using spent that by blast
    qed
  qed (simp_all add: nothing_written_def)
qed

end
