(* ===== verification/Authorization_History.thy ===== *)
theory Authorization_History
  imports Authorization_Safety
begin

section \<open>Histories of launch authorizations\<close>

text \<open>
  A history interleaves the operations of the authorization store, each with the clock reading
  its caller took, with the passing of time, the disposal of Sessions, and changes of the file
  system that keep the files. \<open>timely\<close> relates the clock to the reading an operation may be
  called with: equality when the clock is read under the lock, anything for the code as it is.
\<close>

subsection \<open>Steps\<close>

record auth_system =
  as_store :: auth_store
  as_log :: "launch_authorization list"
  as_now :: u64
  as_disposed :: "string set"

definition proves_disposal :: "terminal_check \<Rightarrow> string set \<Rightarrow> bool" where
  "proves_disposal terminal gone \<longleftrightarrow> (\<forall>p. terminal p = Inr True \<longrightarrow> pa_authorization_id p \<in> gone)"

inductive auth_step ::
  "auth_codec \<Rightarrow> identity_pool \<Rightarrow> (u64 \<Rightarrow> u64 \<Rightarrow> bool) \<Rightarrow> auth_system \<Rightarrow> auth_system \<Rightarrow> bool"
  for c pool timely where
  grant: "timely (as_now x) now_ms \<Longrightarrow> proves_disposal terminal (as_disposed x) \<Longrightarrow>
     m = authorize_inner c pool g now_ms terminal \<or> m = authorize_cold_target c pool g now_ms terminal \<Longrightarrow>
     auth_step c pool timely x (x\<lparr>as_store := snd (m (as_store x))\<rparr>)"
| spend: "timely (as_now x) now_ms \<Longrightarrow>
     m = consume_with c q uid now_ms decision \<or> m = consume_as_held c q now_ms decision \<Longrightarrow>
     m (as_store x) = (r, s) \<Longrightarrow>
     auth_step c pool timely x (x\<lparr>as_store := s,
       as_log := (case r of Inl _ \<Rightarrow> as_log x | Inr a \<Rightarrow> as_log x @ [a])\<rparr>)"
| tick: "as_now x \<le> t \<Longrightarrow> auth_step c pool timely x (x\<lparr>as_now := t\<rparr>)"
| dispose: "auth_step c pool timely x (x\<lparr>as_disposed := insert i (as_disposed x)\<rparr>)"
| surroundings: "v_files v = v_files (au_vault (as_store x)) \<Longrightarrow>
     auth_step c pool timely x (x\<lparr>as_store := \<lparr>au_vault = v, au_retention = d\<rparr>\<rparr>)"

definition auth_history where
  "auth_history c pool timely = (auth_step c pool timely)\<^sup>*\<^sup>*"

definition untouched :: "auth_system \<Rightarrow> bool" where
  "untouched x \<longleftrightarrow> v_files (au_vault (as_store x)) = [] \<and> as_log x = []"

subsection \<open>What a step does to the records\<close>

lemma record_name_Inr: "record_name i = Inr n \<longleftrightarrow> is_record_identifier i \<and> n = i @ ''.json''"
  by (auto simp: record_name_def)

abbreviation pending_at :: "auth_store \<Rightarrow> string \<Rightarrow> pending_authorization \<Rightarrow> bool" where
  "pending_at s n p \<equiv> held s (PENDING_DIRECTORY, n) = Some (Stored (Pending_File p))"

abbreviation consumed_at :: "auth_store \<Rightarrow> string \<Rightarrow> pending_authorization \<Rightarrow> u64 \<Rightarrow> bool" where
  "consumed_at s n p t \<equiv> held s (CONSUMED_DIRECTORY, n) = Some (Stored (Consumed_File p t))"

lemma consume_as_held_effect:
  assumes "consume_as_held c q now_ms decision s = (x, s')"
  shows "nothing_written s s' \<and> (\<forall>a. x \<noteq> Inr a) \<or> authorization_spent c q now_ms x s s'"
  using assms unfolding consume_as_held_def bound_pure bound_read
  by (elim disjE exE conjE) (simp add: nothing_written_refl, simp add: nothing_written_refl, rule consume_with_effect)

lemma spend_effect:
  assumes "m = consume_with c q uid now_ms decision \<or> m = consume_as_held c q now_ms decision" and "m s = (x, s')"
  shows "nothing_written s s' \<and> (\<forall>a. x \<noteq> Inr a) \<or> authorization_spent c q now_ms x s s'"
  using assms consume_with_effect consume_as_held_effect by blast

lemma grant_effect:
  assumes "m = authorize_inner c pool g now_ms terminal \<or> m = authorize_cold_target c pool g now_ms terminal"
    and "m s = (x, s')"
  shows "\<exists>t. same_authorizations s t \<and> (same_authorizations t s' \<or> grant_written c pool g now_ms terminal x t s')"
proof -
  have inner: "same_authorizations t s' \<or> grant_written c pool g now_ms terminal x t s'"
    if "authorize_inner c pool g now_ms terminal t = (x, s')" for t
    using authorize_inner_effect [OF that] by (auto simp: nothing_written_def same_authorizations_def)
  have refl: "same_authorizations s s" by (simp add: same_authorizations_def)
  from assms authorize_cold_effect [of c pool g now_ms terminal s x s'] inner refl show ?thesis by blast
qed

subsection \<open>Records stay in order\<close>

text \<open>
  Every record is filed under its own authorization, an authorization is never both pending and
  consumed, and its identity is the one of its slot.
\<close>

definition orderly :: "identity_pool \<Rightarrow> auth_store \<Rightarrow> bool" where
  "orderly pool s \<longleftrightarrow>
     (\<forall>n p. pending_at s n p \<longrightarrow> n = pa_authorization_id p @ ''.json'' \<and> pool_identity pool (id_slot (pa_identity p)) = Some (pa_identity p))
     \<and> (\<forall>n p t. consumed_at s n p t \<longrightarrow> n = pa_authorization_id p @ ''.json'' \<and> pool_identity pool (id_slot (pa_identity p)) = Some (pa_identity p))
     \<and> (\<forall>n. held s (PENDING_DIRECTORY, n) = None \<or> held s (CONSUMED_DIRECTORY, n) = None)"

lemma orderlyD:
  assumes "orderly pool s"
  shows "pending_at s n p \<Longrightarrow> n = pa_authorization_id p @ ''.json'' \<and> pool_identity pool (id_slot (pa_identity p)) = Some (pa_identity p)"
    and "consumed_at s n p t \<Longrightarrow> n = pa_authorization_id p @ ''.json'' \<and> pool_identity pool (id_slot (pa_identity p)) = Some (pa_identity p)"
    and "held s (PENDING_DIRECTORY, n) = None \<or> held s (CONSUMED_DIRECTORY, n) = None"
  using assms by (simp_all add: orderly_def) blast

lemma orderly_same: "same_authorizations s t \<Longrightarrow> orderly pool t = orderly pool s"
  by (simp add: same_authorizations_def orderly_def)

lemma assign_identity_pool: "assign_identity pool now_ms terminal v = Inr i \<Longrightarrow> pool_identity pool (id_slot i) = Some i"
  by (auto simp: assign_identity_def results pool_identity_def split: option.splits if_splits)

lemma orderly_grant:
  assumes "orderly pool s" and "grant_written c pool g now_ms terminal x s s'"
  shows "orderly pool s'"
proof -
  from assms(2) obtain name identity e where w: "record_name (lq_authorization_id (gq_request g)) = Inr name"
    "assign_identity pool now_ms terminal (au_vault s) = Inr identity"
    "held s (PENDING_DIRECTORY, name) = None" "held s (CONSUMED_DIRECTORY, name) = None"
    "held s' = (held s)((PENDING_DIRECTORY, name) \<mapsto> e)"
    "e = Stored (Pending_File (pending_of c g identity)) \<or> e = Malformed"
    by (auto simp: grant_written_def)
  have new: "name = pa_authorization_id (pending_of c g identity) @ ''.json''"
    "pool_identity pool (id_slot (pa_identity (pending_of c g identity))) = Some (pa_identity (pending_of c g identity))"
    using w(1) assign_identity_pool [OF w(2)] by (auto simp: record_name_Inr pending_of_def Let_def)
  show ?thesis using assms(1) w(3-6) new unfolding orderly_def w(5) by auto
qed

lemma orderly_spent:
  assumes "orderly pool s" and "authorization_spent c q now_ms x s s'"
  shows "orderly pool s'"
proof -
  from assms(2) obtain name p waiver e where p: "pending_at s name p"
    and w: "held s' = (held s)((PENDING_DIRECTORY, name) := None)
      \<or> held s (CONSUMED_DIRECTORY, name) = None
        \<and> held s' = (held s)((PENDING_DIRECTORY, name) := None, (CONSUMED_DIRECTORY, name) := Some e)
        \<and> (e = Stored (Consumed_File (p\<lparr>pa_conformance := waiver\<rparr>) now_ms) \<or> e = Malformed)"
    by (auto simp: authorization_spent_def Let_def)
  from orderlyD(1) [OF assms(1) p] have mine: "name = pa_authorization_id p @ ''.json''"
    "pool_identity pool (id_slot (pa_identity p)) = Some (pa_identity p)" by simp_all
  from w have gone: "pending_at s n q" if "pending_at s' n q" for n q
    using that by (auto split: if_splits)
  from w have kept: "consumed_at s n q t \<or> n = name \<and> q = p\<lparr>pa_conformance := waiver\<rparr>" if "consumed_at s' n q t" for n q t
    using that by (auto split: if_splits)
  have apart: "held s' (PENDING_DIRECTORY, n) = None \<or> held s' (CONSUMED_DIRECTORY, n) = None" for n
    using orderlyD(3) [OF assms(1), of n] w by (cases "n = name") auto
  show ?thesis unfolding orderly_def
  proof (intro conjI allI impI)
    fix n q t
    show "n = pa_authorization_id q @ ''.json''" "pool_identity pool (id_slot (pa_identity q)) = Some (pa_identity q)"
      if "pending_at s' n q" using orderlyD(1) [OF assms(1) gone [OF that]] by simp_all
    show "n = pa_authorization_id q @ ''.json''" "pool_identity pool (id_slot (pa_identity q)) = Some (pa_identity q)"
      if "consumed_at s' n q t" using kept [OF that] orderlyD(2) [OF assms(1), of n q t] mine by auto
  qed (rule apart)
qed

lemma orderly_step:
  assumes "auth_step c pool timely x y" and "orderly pool (as_store x)"
  shows "orderly pool (as_store y)"
  using assms
proof (induction rule: auth_step.induct)
  case (grant x now_ms terminal m g)
  obtain r s where run: "m (as_store x) = (r, s)" by (cases "m (as_store x)")
  from grant_effect [OF grant.hyps(3) run] obtain t where t: "same_authorizations (as_store x) t"
    and s: "same_authorizations t s \<or> grant_written c pool g now_ms terminal r t s" by blast
  from orderly_same [OF t] grant.prems have "orderly pool t" by simp
  with s orderly_same orderly_grant have "orderly pool s" by blast
  with run show ?case by simp
next
  case (spend x now_ms m q uid decision r s)
  from spend_effect [OF spend.hyps(2,3)] spend.prems show ?case
    using orderly_spent orderly_same [of "as_store x" s pool] by (auto simp: nothing_written_def same_authorizations_def)
next
  case (surroundings v x d)
  then show ?case by (simp add: orderly_def)
qed simp_all

lemma orderly_history: "auth_history c pool timely x y \<Longrightarrow> orderly pool (as_store x) \<Longrightarrow> orderly pool (as_store y)"
  unfolding auth_history_def by (induction rule: rtranclp_induct) (auto intro: orderly_step)

lemma untouched_orderly: "untouched x \<Longrightarrow> orderly pool (as_store x)"
  by (simp add: untouched_def orderly_def)

subsection \<open>Spent once\<close>

lemma consumed_spent:
  assumes "authorization_spent c q now_ms x s s'" and "consumed_at s n p t"
  shows "consumed_at s' n p t"
proof -
  from assms(1) obtain name e where "held s' = (held s)((PENDING_DIRECTORY, name) := None)
      \<or> held s (CONSUMED_DIRECTORY, name) = None
        \<and> held s' = (held s)((PENDING_DIRECTORY, name) := None, (CONSUMED_DIRECTORY, name) := Some e)"
    by (auto simp: authorization_spent_def Let_def)
  with assms(2) show ?thesis by auto
qed

lemma consumed_grant:
  "same_authorizations s t \<or> grant_written c pool g now_ms terminal x s t \<Longrightarrow> consumed_at s n p k \<Longrightarrow> consumed_at t n p k"
  by (auto simp: same_authorizations_def grant_written_def)

lemma consumed_kept:
  assumes "auth_step c pool timely x y" and "consumed_at (as_store x) n p t"
  shows "consumed_at (as_store y) n p t"
  using assms
proof (induction rule: auth_step.induct)
  case (grant x now_ms terminal m g)
  obtain r s where run: "m (as_store x) = (r, s)" by (cases "m (as_store x)")
  from grant_effect [OF grant.hyps(3) run] obtain u where u: "same_authorizations (as_store x) u"
    and s: "same_authorizations u s \<or> grant_written c pool g now_ms terminal r u s" by blast
  from consumed_grant [OF disjI1 [OF u] grant.prems] have "consumed_at u n p t" .
  from consumed_grant [OF s this] run show ?case by simp
next
  case (spend x now_ms m q uid decision r s)
  from spend_effect [OF spend.hyps(2,3)] spend.prems consumed_spent show ?case
    by (auto simp: nothing_written_def)
qed simp_all

definition spent_once :: "auth_system \<Rightarrow> bool" where
  "spent_once x \<longleftrightarrow> distinct (map la_authorization_id (as_log x))
     \<and> (\<forall>a \<in> set (as_log x). \<exists>n p t. consumed_at (as_store x) n p t \<and> launch_authorization_of p = a
          \<and> t < la_expires_at_ms a \<and> validate_launch_authorization a = Inr ()
          \<and> is_ok (validate_conformance_for (la_conformance a) (la_session_id a) (la_request_digest a) (la_controller_uid a) t))"

lemma spent_once_log:
  assumes "spent_once x" and "as_log y = as_log x"
    and "\<And>n p t. consumed_at (as_store x) n p t \<Longrightarrow> consumed_at (as_store y) n p t"
  shows "spent_once y"
  using assms unfolding spent_once_def by metis

lemma launch_fields [simp]:
  "la_authorization_id (launch_authorization_of p) = pa_authorization_id p"
  "la_expires_at_ms (launch_authorization_of p) = pa_expires_at_ms p"
  "la_conformance (launch_authorization_of p) = pa_conformance p"
  "la_session_id (launch_authorization_of p) = pa_session_id p"
  "la_run_id (launch_authorization_of p) = pa_run_id p"
  "la_request_digest (launch_authorization_of p) = pa_request_digest p"
  "la_controller_uid (launch_authorization_of p) = pa_controller_uid p"
  by (simp_all add: launch_authorization_of_def)

lemma spent_once_step:
  assumes step: "auth_step c pool timely x y" and once: "spent_once x" and ord: "orderly pool (as_store x)"
  shows "spent_once y"
proof -
  note kept = consumed_kept [OF step]
  show ?thesis
    using step once ord kept
  proof (cases rule: auth_step.cases)
    case (spend now_ms m q uid decision r s)
    show ?thesis
    proof (cases r)
      case (Inl e)
      with spend spent_once_log [OF once _ kept] show ?thesis by simp
    next
      case (Inr a)
      with spend_effect [OF spend(3,4)] obtain name p waiver where p: "pending_at (as_store x) name p"
        and fresh: "held (as_store x) (CONSUMED_DIRECTORY, name) = None" and now: "now_ms < pa_expires_at_ms p"
        and new: "consumed_at s name (p\<lparr>pa_conformance := waiver\<rparr>) now_ms"
        and a: "a = launch_authorization_of (p\<lparr>pa_conformance := waiver\<rparr>)" "validate_launch_authorization a = Inr ()"
        and conf: "is_ok (validate_conformance_for waiver (pa_session_id p) (pa_request_digest p) (pa_controller_uid p) now_ms)"
        unfolding authorization_spent_def Let_def by auto
      have y: "as_log y = as_log x @ [a]" "as_store y = s" using spend(1) Inr by simp_all
      have name: "name = la_authorization_id a @ ''.json''" using orderlyD(1) [OF ord p] a(1) by simp
      have "la_authorization_id a \<notin> la_authorization_id ` set (as_log x)"
      proof
        assume "la_authorization_id a \<in> la_authorization_id ` set (as_log x)"
        then obtain b where b: "b \<in> set (as_log x)" "la_authorization_id b = la_authorization_id a" by auto
        with once obtain n q t where q: "consumed_at (as_store x) n q t" "launch_authorization_of q = b"
          unfolding spent_once_def by blast
        from orderlyD(2) [OF ord q(1)] q(2) b(2) name have "n = name" by auto
        with q(1) fresh show False by simp
      qed
      moreover have "\<exists>n p t. consumed_at s n p t \<and> launch_authorization_of p = b \<and> t < la_expires_at_ms b
          \<and> validate_launch_authorization b = Inr ()
          \<and> is_ok (validate_conformance_for (la_conformance b) (la_session_id b) (la_request_digest b) (la_controller_uid b) t)"
        if "b \<in> set (as_log x @ [a])" for b
      proof (cases "b = a")
        case True
        have "now_ms < la_expires_at_ms a" using now by (simp add: a(1))
        moreover have "is_ok (validate_conformance_for (la_conformance a) (la_session_id a) (la_request_digest a) (la_controller_uid a) now_ms)"
          using conf by (simp add: a(1))
        ultimately show ?thesis using True new a by blast
      next
        case False
        with that have "b \<in> set (as_log x)" by simp
        with once kept show ?thesis unfolding spent_once_def y(2) by blast
      qed
      ultimately show ?thesis using once unfolding spent_once_def y by simp
    qed
  qed (use spent_once_log [OF once _ kept] in simp_all)
qed

lemma spent_once_history:
  assumes "auth_history c pool timely x y" and "spent_once x" and "orderly pool (as_store x)"
  shows "spent_once y \<and> orderly pool (as_store y)"
  using assms unfolding auth_history_def
  by (induction rule: rtranclp_induct) (auto intro: spent_once_step orderly_step)

lemma untouched_spent_once: "untouched x \<Longrightarrow> spent_once x"
  by (simp add: untouched_def spent_once_def)

subsection \<open>Occupied slots\<close>

lemma over_records_collects:
  assumes grows: "\<forall>p a b. f p a = Inr b \<longrightarrow> set a \<subseteq> set b"
  shows "over_records reader f ns acc = Inr r \<Longrightarrow> set acc \<subseteq> set r
    \<and> (\<forall>n \<in> set ns. \<forall>p. reader n = Inr (Some p) \<longrightarrow> (\<exists>a b. f p a = Inr b \<and> set b \<subseteq> set r))"
proof (induction ns arbitrary: acc)
  case Nil
  then show ?case by simp
next
  case (Cons m ns)
  from Cons.prems obtain h acc' where h: "reader m = Inr h"
    and acc': "(case h of None \<Rightarrow> Inr acc | Some p \<Rightarrow> f p acc) = Inr acc'" and rest: "over_records reader f ns acc' = Inr r"
    by (auto simp: andThen_Inr)
  note IH = Cons.IH [OF rest]
  from acc' grows have "set acc \<subseteq> set acc'" by (cases h) auto
  moreover have "\<exists>a b. f p a = Inr b \<and> set b \<subseteq> set r" if "reader m = Inr (Some p)" for p
    using that h acc' IH by auto
  ultimately show ?case using IH by auto
qed

lemma over_records_at:
  assumes "\<forall>p a b. f p a = Inr b \<longrightarrow> set a \<subseteq> set b" and "over_records reader f ns acc = Inr r"
    and "n \<in> set ns" and "reader n = Inr (Some p)"
  obtains a b where "f p a = Inr b" and "set b \<subseteq> set r"
  using over_records_collects [OF assms(1,2)] assms(3,4) by blast

definition note_pending :: "u64 \<Rightarrow> pending_authorization \<Rightarrow> occupied_session_identity list
    \<Rightarrow> broker_error + occupied_session_identity list" where
  "note_pending now_ms p acc = Inr (if pa_expires_at_ms p \<le> now_ms then acc else acc @ [occupant_of p])"

definition note_consumed :: "terminal_check \<Rightarrow> pending_authorization \<Rightarrow> occupied_session_identity list
    \<Rightarrow> broker_error + occupied_session_identity list" where
  "note_consumed terminal p acc = andThen (terminal p) (\<lambda>gone. Inr (if gone then acc else acc @ [occupant_of p]))"

lemma notes_grow:
  "\<forall>p a b. note_pending now_ms p a = Inr b \<longrightarrow> set a \<subseteq> set b"
  "\<forall>p a b. note_consumed terminal p a = Inr b \<longrightarrow> set a \<subseteq> set b"
  by (auto simp: note_pending_def note_consumed_def andThen_Inr split: if_splits)

lemma occupants_Inr:
  assumes "occupants now_ms terminal v = Inr ocs"
  obtains acc where "over_records (\<lambda>n. read_pending n v) (note_pending now_ms) (dir_names v PENDING_DIRECTORY) [] = Inr acc"
    and "over_records (\<lambda>n. andThen (read_consumed n v) (\<lambda>found. Inr (map_option fst found))) (note_consumed terminal)
      (dir_names v CONSUMED_DIRECTORY) acc = Inr ocs"
  using assms unfolding occupants_def over_pending_def over_consumed_def note_pending_def [abs_def] note_consumed_def [abs_def]
  by (auto simp: andThen_Inr)

lemma occupants_pending:
  assumes ocs: "occupants now_ms terminal v = Inr ocs"
    and p: "map_of (v_files v) (PENDING_DIRECTORY, n) = Some (Stored (Pending_File p))" and now: "now_ms < pa_expires_at_ms p"
  shows "occupant_of p \<in> set ocs"
proof -
  obtain acc where first: "over_records (\<lambda>n. read_pending n v) (note_pending now_ms) (dir_names v PENDING_DIRECTORY) [] = Inr acc"
    and second: "over_records (\<lambda>n. andThen (read_consumed n v) (\<lambda>found. Inr (map_option fst found))) (note_consumed terminal)
      (dir_names v CONSUMED_DIRECTORY) acc = Inr ocs" using occupants_Inr [OF ocs] .
  have "n \<in> set (dir_names v PENDING_DIRECTORY)" using p by (simp add: in_dir_names vault_file_held)
  moreover have "read_pending n v = Inr (Some p)" using p by (simp add: read_pending_Some)
  ultimately obtain a b where "note_pending now_ms p a = Inr b" "set b \<subseteq> set acc"
    using over_records_at [OF notes_grow(1) first] by blast
  with now have "occupant_of p \<in> set acc" by (auto simp: note_pending_def split: if_splits)
  moreover have "set acc \<subseteq> set ocs" using over_records_collects [OF notes_grow(2) second] ..
  ultimately show ?thesis by blast
qed

lemma occupants_consumed:
  assumes ocs: "occupants now_ms terminal v = Inr ocs"
    and p: "map_of (v_files v) (CONSUMED_DIRECTORY, n) = Some (Stored (Consumed_File p t))" and gone: "terminal p \<noteq> Inr True"
  shows "occupant_of p \<in> set ocs"
proof -
  obtain acc where second: "over_records (\<lambda>n. andThen (read_consumed n v) (\<lambda>found. Inr (map_option fst found))) (note_consumed terminal)
      (dir_names v CONSUMED_DIRECTORY) acc = Inr ocs" using occupants_Inr [OF ocs] .
  have "n \<in> set (dir_names v CONSUMED_DIRECTORY)" using p by (simp add: in_dir_names vault_file_held)
  moreover have "andThen (read_consumed n v) (\<lambda>found. Inr (map_option fst found)) = Inr (Some p)"
    using read_consumed_Some [of n v p t] p by (simp add: andThen_Inr)
  ultimately obtain a b where ab: "note_consumed terminal p a = Inr b" "set b \<subseteq> set ocs"
    using over_records_at [OF notes_grow(2) second] by blast
  from ab(1) obtain k where "terminal p = Inr k" "b = (if k then a else a @ [occupant_of p])"
    by (auto simp: note_consumed_def andThen_Inr)
  with gone ab(2) show ?thesis by (cases k) auto
qed

lemma assign_identity_free:
  assumes "assign_identity pool now_ms terminal v = Inr i"
  shows "\<exists>ocs. occupants now_ms terminal v = Inr ocs \<and> id_slot i < slots pool \<and> pool_identity pool (id_slot i) = Some i
    \<and> id_slot i \<notin> oc_slot ` set ocs \<and> (\<forall>k < id_slot i. k \<in> oc_slot ` set ocs)"
proof -
  from assms obtain ocs where ocs: "occupants now_ms terminal v = Inr ocs"
    and found: "(case find (\<lambda>slot. \<not> list_ex (\<lambda>oc. oc_slot oc = slot) ocs) (map of_nat [0..<unat (slots pool)]) of
       Some slot \<Rightarrow> ok_or (pool_identity pool slot) Invalid_Pool
     | None \<Rightarrow> andThen (map_err (\<lambda>_. Invalid_Pool) (compose_exhaustion ocs)) (\<lambda>x. Inl (Identity_Exhausted x))) = Inr i"
    by (auto simp: assign_identity_def andThen_Inr)
  then obtain slot where slot: "find (\<lambda>slot. \<not> list_ex (\<lambda>oc. oc_slot oc = slot) ocs) (map of_nat [0..<unat (slots pool)]) = Some slot"
    and i: "pool_identity pool slot = Some i"
    by (auto simp: andThen_Inr ok_or_Inr split: option.splits)
  from i have is_slot: "id_slot i = slot" "slot < slots pool" by (auto simp: pool_identity_def split: if_splits)
  from slot obtain k where k: "k < unat (slots pool)" "\<not> list_ex (\<lambda>oc. oc_slot oc = of_nat k) ocs" "slot = of_nat k"
    "\<forall>j < k. list_ex (\<lambda>oc. oc_slot oc = of_nat j) ocs"
    by (auto simp: find_Some_iff)
  have unat_k: "unat slot = k" using k(1,3) unsigned_less [of "slots pool", where 'a = nat] by (simp add: unsigned_of_nat take_bit_nat_eq_self_iff)
  have "m \<in> oc_slot ` set ocs" if "m < slot" for m
  proof -
    from that unat_k have "unat m < k" by (simp add: word_less_nat_alt)
    with k(4) have "list_ex (\<lambda>oc. oc_slot oc = m) ocs" by fastforce
    then show ?thesis by (auto simp: list_ex_iff)
  qed
  moreover have "slot \<notin> oc_slot ` set ocs" using k(2,3) by (auto simp: list_ex_iff)
  ultimately show ?thesis using ocs i is_slot by auto
qed

subsection \<open>Live identities\<close>

definition live :: "auth_system \<Rightarrow> pending_authorization \<Rightarrow> bool" where
  "live x p \<longleftrightarrow> (\<exists>n. pending_at (as_store x) n p) \<and> as_now x < pa_expires_at_ms p
     \<or> (\<exists>n t. consumed_at (as_store x) n p t) \<and> pa_authorization_id p \<notin> as_disposed x"

definition slots_apart :: "auth_system \<Rightarrow> bool" where
  "slots_apart x \<longleftrightarrow> (\<forall>p q. live x p \<and> live x q \<and> id_slot (pa_identity p) = id_slot (pa_identity q) \<longrightarrow> p = q)"

lemma slots_apart_fewer:
  assumes "slots_apart x" and "\<And>p. live y p \<Longrightarrow> live x p"
  shows "slots_apart y"
  using assms unfolding slots_apart_def by blast

lemma live_same: "same_authorizations (as_store x) (as_store y) \<Longrightarrow> as_now y = as_now x \<Longrightarrow> as_disposed y = as_disposed x
    \<Longrightarrow> live y p = live x p"
  by (simp add: live_def same_authorizations_def)

lemma slots_apart_grant:
  assumes apart: "slots_apart x" and now: "as_now y = as_now x" and gone: "as_disposed y = as_disposed x"
    and proves: "proves_disposal terminal (as_disposed x)"
    and w: "grant_written c pool g (as_now x) terminal r (as_store x) (as_store y)"
  shows "slots_apart y"
proof -
  from w obtain name identity e where id: "assign_identity pool (as_now x) terminal (au_vault (as_store x)) = Inr identity"
    and new: "held (as_store y) = (held (as_store x))((PENDING_DIRECTORY, name) \<mapsto> e)"
    and e: "e = Stored (Pending_File (pending_of c g identity)) \<or> e = Malformed"
    by (auto simp: grant_written_def)
  from assign_identity_free [OF id] obtain ocs where ocs: "occupants (as_now x) terminal (au_vault (as_store x)) = Inr ocs"
    and free: "id_slot identity \<notin> oc_slot ` set ocs" by blast
  let ?p = "pending_of c g identity"
  have mine: "pa_identity ?p = identity" by (simp add: pending_of_def Let_def)
  have other: "id_slot (pa_identity q) \<noteq> id_slot identity" if "live x q" for q
  proof -
    have "occupant_of q \<in> set ocs"
      using that unfolding live_def
    proof (elim disjE conjE exE)
      fix n assume "pending_at (as_store x) n q" "as_now x < pa_expires_at_ms q"
      then show ?thesis using occupants_pending [OF ocs] by blast
    next
      fix n t assume "consumed_at (as_store x) n q t" "pa_authorization_id q \<notin> as_disposed x"
      then show ?thesis using occupants_consumed [OF ocs] proves unfolding proves_disposal_def by blast
    qed
    then have "id_slot (pa_identity q) \<in> oc_slot ` set ocs" by (force simp: occupant_of_def)
    with free show ?thesis by auto
  qed
  have "live x q \<or> q = ?p" if "live y q" for q
    using that e unfolding live_def now gone by (auto simp: new split: if_splits)
  with apart other mine show ?thesis unfolding slots_apart_def by metis
qed

lemma slots_apart_spent:
  assumes apart: "slots_apart x" and ord: "orderly pool (as_store x)" and now: "as_now y = as_now x"
    and gone: "as_disposed y = as_disposed x" and w: "authorization_spent c q (as_now x) r (as_store x) (as_store y)"
  shows "slots_apart y"
proof -
  from w obtain name p waiver e where p: "pending_at (as_store x) name p" and fresh: "as_now x < pa_expires_at_ms p"
    and new: "held (as_store y) = (held (as_store x))((PENDING_DIRECTORY, name) := None)
      \<or> held (as_store y) = (held (as_store x))((PENDING_DIRECTORY, name) := None, (CONSUMED_DIRECTORY, name) := Some e)
        \<and> (e = Stored (Consumed_File (p\<lparr>pa_conformance := waiver\<rparr>) (as_now x)) \<or> e = Malformed)"
    by (auto simp: authorization_spent_def Let_def)
  let ?p = "p\<lparr>pa_conformance := waiver\<rparr>"
  from p fresh have was: "live x p" by (auto simp: live_def)
  have cases: "(live x q \<and> q \<noteq> p) \<or> q = ?p" if q: "live y q" for q
  proof (cases "q = ?p")
    case False
    with q new have old: "(\<exists>n. n \<noteq> name \<and> pending_at (as_store x) n q) \<and> as_now x < pa_expires_at_ms q
        \<or> (\<exists>n t. consumed_at (as_store x) n q t) \<and> pa_authorization_id q \<notin> as_disposed x"
      unfolding live_def now gone by (auto split: if_splits)
    moreover have "q \<noteq> p"
    proof
      assume "q = p"
      with old orderlyD(1) [OF ord p] orderlyD(1,2) [OF ord] have "\<exists>t. consumed_at (as_store x) name p t" by metis
      with orderlyD(3) [OF ord, of name] p show False by auto
    qed
    ultimately show ?thesis unfolding live_def by blast
  qed simp
  have "id_slot (pa_identity ?p) = id_slot (pa_identity p)" by simp
  with apart was cases show ?thesis unfolding slots_apart_def by metis
qed

lemma slots_apart_step:
  assumes step: "auth_step c pool (=) x y" and apart: "slots_apart x" and ord: "orderly pool (as_store x)"
  shows "slots_apart y"
  using step
proof (cases rule: auth_step.cases)
  case (grant now_ms terminal m g)
  obtain r s where run: "m (as_store x) = (r, s)" by (cases "m (as_store x)")
  from grant_effect [OF grant(4) run] obtain u where u: "same_authorizations (as_store x) u"
    and s: "same_authorizations u s \<or> grant_written c pool g now_ms terminal r u s" by blast
  let ?x = "x\<lparr>as_store := u\<rparr>"
  have "slots_apart ?x" by (rule slots_apart_fewer [OF apart]) (use live_same [of x ?x] u in simp)
  moreover have y: "as_store y = s" "as_now y = as_now ?x" "as_disposed y = as_disposed ?x" using grant(1) run by simp_all
  ultimately show ?thesis
    using s
  proof (elim disjE)
    assume "slots_apart ?x" and "same_authorizations u s"
    then show ?thesis using slots_apart_fewer [of ?x y] live_same [of ?x y] y by simp
  next
    assume "slots_apart ?x" and "grant_written c pool g now_ms terminal r u s"
    then show ?thesis using slots_apart_grant [of ?x y terminal c pool g r] y grant(2,3) by simp
  qed
next
  case (spend now_ms m q uid decision r s)
  have y: "as_store y = s" "as_now y = as_now x" "as_disposed y = as_disposed x" using spend(1) by simp_all
  from spend_effect [OF spend(3,4)] show ?thesis
  proof
    assume "nothing_written (as_store x) s \<and> (\<forall>a. r \<noteq> Inr a)"
    then have "live y p = live x p" for p using y by (intro live_same) (auto simp: nothing_written_def same_authorizations_def)
    then show ?thesis using slots_apart_fewer [OF apart, of y] by blast
  next
    assume "authorization_spent c q now_ms r (as_store x) s"
    then show ?thesis using slots_apart_spent [OF apart ord, of y c q r] y spend(2) by simp
  qed
next
  case (tick t)
  have "live x p" if "live y p" for p
    using that tick order.strict_trans1 [of "as_now x" t "pa_expires_at_ms p"] by (auto simp: live_def)
  then show ?thesis by (rule slots_apart_fewer [OF apart])
next
  case (dispose i)
  show ?thesis by (rule slots_apart_fewer [OF apart]) (use dispose in \<open>auto simp: live_def\<close>)
next
  case (surroundings v d)
  show ?thesis by (rule slots_apart_fewer [OF apart]) (use surroundings in \<open>simp add: live_def\<close>)
qed

lemma slots_apart_history:
  assumes "auth_history c pool (=) x y" and "slots_apart x" and "orderly pool (as_store x)"
  shows "slots_apart y \<and> orderly pool (as_store y)"
  using assms unfolding auth_history_def
  by (induction rule: rtranclp_induct) (auto intro: slots_apart_step orderly_step)

lemma untouched_slots_apart: "untouched x \<Longrightarrow> slots_apart x"
  by (simp add: untouched_def slots_apart_def live_def)

lemma pool_identity_inject:
  assumes "pool_identity pool m = Some i" and "pool_identity pool n = Some j" and "m \<noteq> n"
  shows "id_uid i \<noteq> id_uid j \<and> id_gid i \<noteq> id_gid j"
  using assms by (auto simp: pool_identity_def split: if_splits)

end
