(* ===== verification/Authorization_Demo.thy ===== *)
theory Authorization_Demo
  imports Authorization_History Receipt_Chains
begin

section \<open>A demonstration of launch authorizations\<close>

text \<open>
  A concrete codec, pool and requests on which granting and spending are evaluated; the witnesses
  of the properties are histories built from these steps.
\<close>

definition demo_auth :: auth_codec where
  "demo_auth = \<lparr>launch = \<lparr>protocol_codec_of = \<lparr>receipt_codec = \<lparr>digest_bytes = (\<lambda>_. replicate 32 0), payload_json = (\<lambda>_. ''p''),
       payload_parse = (\<lambda>_. Inl ''none''), signed_json = (\<lambda>_. ''s''), signed_parse = (\<lambda>_. Inl ''none''),
       schema_header = (\<lambda>_. Inl ''none''), empty_view_json = ''e''\<rparr>, lifecycle_json = (\<lambda>_. ''l'')\<rparr>,
     launch_json = lq_request_id, launch_parse = (\<lambda>_. None)\<rparr>,
   fetch = \<lparr>semver_canonical = (\<lambda>_. True), https_url = (\<lambda>_. True), candidate_json = ca_name,
     dependencies_json = ad_lockfile_path, fetch_sha = (\<lambda>_. replicate 32 0)\<rparr>,
   auth_urls = \<lparr>upstream_ok = (\<lambda>_. True), profile_digest = ''p''\<rparr>, consumed_json = (\<lambda>p _. pa_authorization_id p),
   retention_json = (\<lambda>_. ''r'')\<rparr>"

definition demo_pool :: identity_pool where
  "demo_pool = \<lparr>uid_start = 1000, gid_start = 2000, slots = 2\<rparr>"

definition demo_launch_request :: "string \<Rightarrow> launch_request" where
  "demo_launch_request i = \<lparr>lq_schema = REQUEST_SCHEMA, lq_protocol_version = PROTOCOL_VERSION, lq_request_id = i,
     lq_authorization_id = i, lq_session_id = i, lq_run_id = ''r'', lq_agent_id = ''g'', lq_envelope_id = ''e'',
     lq_envelope_revision = 1, lq_skills = Skills_Off demo_hash,
     lq_session_input_manifest_id = demo_hash\<rparr>"

definition demo_launch_grant :: "string \<Rightarrow> u64 \<Rightarrow> grant_request" where
  "demo_launch_grant i expires = \<lparr>gq_role = Agent_Role, gq_dependencies = None,
     gq_conformance = \<lparr>ca_attendance = Unattended, ca_waiver = None\<rparr>, gq_require_cold_recovery = False,
     gq_request = demo_launch_request i, gq_controller_uid = 7, gq_expires_at_ms = expires, gq_broker_loss_grace_ms = 0,
     gq_commands = None, gq_skill_requests = None, gq_beads_mutations = None, gq_provider_requests = None\<rparr>"

definition demo_start_store :: auth_store where
  "demo_start_store = \<lparr>au_vault = \<lparr>v_files = [], v_listable = True, v_faults = []\<rparr>,
     au_retention = \<lparr>files = [], listable = True, lock_ok = True, unlock_ok = True, write_faults = []\<rparr>\<rparr>"

lemma demo_zero_digest: "request_digest_text demo_auth q = demo_hash" "digest_text (empty_digest (receipt_codec (protocol_codec_of (launch demo_auth)))) = demo_hash"
  by (simp_all only: request_digest_text_def launch_request_digest_of_def empty_digest_def demo_auth_def auth_codec.simps
      launch_codec.simps protocol_codec.simps codec.simps demo_from_raw demo_hash_text)

lemma demo_launch_identifier [simp]:
  "launch_identifier f ''a'' = Inr ()" "launch_identifier f ''b'' = Inr ()" "launch_identifier f ''r'' = Inr ()"
  "launch_identifier f ''g'' = Inr ()" "launch_identifier f ''e'' = Inr ()"
  by (simp_all add: launch_identifier_def identifier_byte_def is_ascii_alphanumeric_def is_ascii_lower_def
      is_ascii_digit_def byte_of_def ensure_def)

lemma demo_launch_digest: "\<exists>d. launch_digest f demo_hash = Inr d"
  using demo_hex64 unfolding demo_hash_text launch_digest_def
  by (simp add: parse_digest_spellings map_err_def andThen_def ensure_def)

lemma demo_names_ok: "i \<in> {''a'', ''b''} \<Longrightarrow> launch_identifier f i = Inr () \<and> length i = 1 \<and> record_name i = Inr (i @ ''.json'')
    \<and> protocol_identifier i = Inr () \<and> is_record_identifier i"
  by (auto simp: record_name_def is_record_identifier_def identifier_byte_def is_ascii_alphanumeric_def is_ascii_lower_def
      is_ascii_digit_def byte_of_def protocol_identifier_def MAX_IDENTIFIER_BYTES_def ensure_def)

lemma demo_request_checks:
  assumes "i \<in> {''a'', ''b''}"
  shows "validate_launch_request (launch demo_auth) (demo_launch_request i) = Inr ()"
proof -
  have json: "launch_json (launch demo_auth) (demo_launch_request i) = i" by (simp add: demo_auth_def demo_launch_request_def)
  have skills: "validate_skills (receipt_codec (protocol_codec_of (launch demo_auth))) (Skills_Off demo_hash)"
    by (simp add: demo_zero_digest)
  obtain d where d: "launch_digest ''session_input_manifest_id'' demo_hash = Inr d" using demo_launch_digest by blast
  from demo_names_ok [OF assms] show ?thesis
    unfolding validate_launch_request_def json
    by (simp add: demo_launch_request_def MAX_REQUEST_BYTES_def demo_zero_digest d ensure_def andThen_def)
qed

lemma demo_grant_checks:
  assumes "i \<in> {''a'', ''b''}" and "now_ms < expires"
  shows "check_grant_request demo_auth (demo_launch_grant i expires) now_ms = Inr ()"
  using demo_request_checks [OF assms(1)] assms(2)
  by (simp add: check_grant_request_def demo_launch_grant_def verifier_limited_def validate_conformance_for_def
      andThen_def map_err_def ensure_def)


definition demo_slot :: "u32 \<Rightarrow> host_identity" where
  "demo_slot k = \<lparr>id_slot = k, id_uid = 1000 + k, id_gid = 2000 + k\<rparr>"

definition demo_held :: "string \<Rightarrow> u64 \<Rightarrow> u32 \<Rightarrow> pending_authorization" where
  "demo_held i expires k = pending_of demo_auth (demo_launch_grant i expires) (demo_slot k)"

lemma demo_held_fields:
  "pa_expires_at_ms (demo_held i expires k) = expires" "pa_identity (demo_held i expires k) = demo_slot k"
  "pa_authorization_id (demo_held i expires k) = i" "pa_controller_uid (demo_held i expires k) = 7"
  "pa_conformance (demo_held i expires k) = \<lparr>ca_attendance = Unattended, ca_waiver = None\<rparr>"
  "request_matches demo_auth (demo_held i expires k) (demo_launch_request i)"
  by (simp_all add: demo_held_def pending_of_def demo_launch_grant_def demo_launch_request_def request_matches_def Let_def
      demo_zero_digest)

lemma demo_launch_valid:
  assumes "i \<in> {''a'', ''b''}" and "0 < expires" and "k \<in> {0, 1}"
  shows "validate_launch_authorization (launch_authorization_of (demo_held i expires k)) = Inr ()"
proof -
  have ids: "protocol_identifier ''a'' = Inr ()" "protocol_identifier ''b'' = Inr ()" "protocol_identifier ''r'' = Inr ()"
    by (simp_all add: protocol_identifier_def identifier_byte_def is_ascii_alphanumeric_def is_ascii_lower_def
        is_ascii_digit_def byte_of_def MAX_IDENTIFIER_BYTES_def ensure_def)
  have hash: "protocol_digest demo_hash = Inr ()"
    using demo_canonical(1) by (simp add: protocol_digest_def ensure_def)
  show ?thesis
    using assms ids hash
    by (auto simp: validate_launch_authorization_def launch_authorization_of_def demo_held_def pending_of_def
        demo_launch_grant_def demo_launch_request_def demo_slot_def demo_zero_digest protocol_schema_def protocol_version_is_def
        validate_conformance_for_def andThen_def ensure_def MAX_BROKER_LOSS_GRACE_MS_def)
qed

lemma demo_register:
  assumes i: "i \<in> {''a'', ''b''}" and now: "now_ms \<in> {5, 10}" and free: "lookup_file d (i @ ''.json'') = None"
    and calm: "write_faults d = []"
  shows "\<exists>r. register (launch demo_auth) (retention_json demo_auth) (demo_launch_request i) now_ms d
    = (Inr r, d\<lparr>files := put_file (i @ ''.json'') (Stored r) (files d)\<rparr>)"
proof -
  let ?r = "\<lparr>rr_schema = RETENTION_SCHEMA, rr_launch = demo_launch_request i, rr_recorded_at_ms = now_ms,
    rr_expires_at_ms = now_ms + DEFAULT_RETENTION_MS, rr_pinned = False, rr_primary_evidence = Not_Checked, rr_evidence = no_evidence\<rparr>"
  have session: "lq_session_id (demo_launch_request i) = i" by (simp add: demo_launch_request_def)
  have name: "retention_name i = Inr (i @ ''.json'')" using demo_names_ok [OF i] by (simp add: retention_name_def)
  have expiry: "checked_add now_ms DEFAULT_RETENTION_MS = Some (now_ms + DEFAULT_RETENTION_MS)"
    "now_ms < now_ms + DEFAULT_RETENTION_MS"
    using now by (auto simp: checked_add_def DEFAULT_RETENTION_MS_def word_less_nat_alt)
  have valid: "validate_retention (launch demo_auth) ?r = Inr ()"
    using demo_request_checks [OF i] expiry(2)
    by (simp add: validate_retention_def no_evidence_def evidence_sets_def andThen_def map_err_def ensure_def)
  have json: "length (retention_json demo_auth ?r) \<le> MAX_RETENTION_BYTES" by (simp add: demo_auth_def MAX_RETENTION_BYTES_def)
  have "write_retention (launch demo_auth) (retention_json demo_auth) ?r d
      = (Inr (), d\<lparr>files := put_file (i @ ''.json'') (Stored ?r) (files d)\<rparr>)"
    unfolding write_retention_def using valid json name session calm
    by (simp add: bind_op_def pure_def ensure_def write_op_def write_atomic_def next_fault_def map_err_def Let_def)
  then show ?thesis
    unfolding register_def session using demo_request_checks [OF i] name free expiry(1)
    by (auto simp: bind_op_def pure_def read_op_def map_err_def ok_or_def Let_def)
qed

definition clear_store :: "auth_store \<Rightarrow> bool" where
  "clear_store s \<longleftrightarrow> v_faults (au_vault s) = [] \<and> v_listable (au_vault s) \<and> lock_ok (au_retention s)
     \<and> write_faults (au_retention s) = []"

lemma store_written: "s\<lparr>au_retention := d, au_vault := v\<rparr> = \<lparr>au_vault = v, au_retention = d\<rparr>" for s :: auth_store
  by (cases s) simp

lemma demo_authorize:
  assumes i: "i \<in> {''a'', ''b''}" and now: "now_ms \<in> {5, 10}" "now_ms < expires" and clear: "clear_store s"
    and free: "held s (PENDING_DIRECTORY, i @ ''.json'') = None" "held s (CONSUMED_DIRECTORY, i @ ''.json'') = None"
      "lookup_file (au_retention s) (i @ ''.json'') = None"
    and slot: "assign_identity demo_pool now_ms terminal (au_vault s) = Inr (demo_slot k)" and k: "k \<in> {0, 1}"
  shows "\<exists>d r. authorize_inner demo_auth demo_pool (demo_launch_grant i expires) now_ms terminal s
    = (Inr (demo_held i expires k), \<lparr>au_vault = add_file PENDING_DIRECTORY (i @ ''.json'') (Stored (Pending_File (demo_held i expires k))) (au_vault s),
        au_retention = d\<rparr>) \<and> lock_ok d \<and> write_faults d = [] \<and> lookup_file d = (lookup_file (au_retention s))(i @ ''.json'' \<mapsto> r)"
proof -
  from demo_register [OF i now(1) free(3)] clear obtain r where r: "register (launch demo_auth) (retention_json demo_auth)
      (demo_launch_request i) now_ms (au_retention s)
      = (Inr r, (au_retention s)\<lparr>files := put_file (i @ ''.json'') (Stored r) (files (au_retention s))\<rparr>)"
    by (auto simp: clear_store_def)
  have request: "gq_request (demo_launch_grant i expires) = demo_launch_request i" "gq_dependencies (demo_launch_grant i expires) = None"
    "lq_authorization_id (demo_launch_request i) = i"
    by (simp_all add: demo_launch_grant_def demo_launch_request_def)
  have positive: "0 < expires" using now(2) by (simp add: word_less_nat_alt)
  show ?thesis
    unfolding authorize_inner_def request
    using demo_grant_checks [OF i now(2)] demo_names_ok [OF i] free slot r clear demo_launch_valid [OF i positive k]
    by (simp add: bind_op_def pure_def read_op_def dependencies_before_run_start_def request ensure_def vault_file_held Let_def
        demo_held_def [symmetric] map_err_def on_retention_def with_retention_def clear_store_def on_vault_def
        write_new_record_def next_vault_fault_def after_fault_def)
      (auto simp: add_file_def lookup_file_def map_of_put_file store_written calm_vault)
qed

lemma demo_pool_slots: "k \<in> {0, 1} \<Longrightarrow> pool_identity demo_pool k = Some (demo_slot k)"
  "map of_nat [0..<unat (slots demo_pool)] = [0, 1 :: u32]"
  by (auto simp: pool_identity_def pool_valid_def demo_pool_def demo_slot_def checked_add_def MAX_IDENTITY_SLOTS_def
      word_less_nat_alt word_le_nat_alt upt_rec)

lemma demo_assign_first:
  assumes "v_files v = []" and "v_listable v"
  shows "assign_identity demo_pool now_ms terminal v = Inr (demo_slot 0)"
  using assms demo_pool_slots
  by (simp add: assign_identity_def occupants_def over_pending_def over_consumed_def dir_names_def andThen_def ok_or_def ensure_def)

lemma demo_assign_second:
  assumes "v_files v = [((PENDING_DIRECTORY, ''a.json''), Stored (Pending_File (demo_held ''a'' expires 0)))]" and "v_listable v"
  shows "assign_identity demo_pool now_ms terminal v = Inr (demo_slot (if expires \<le> now_ms then 0 else 1))"
proof -
  have names: "dir_names v PENDING_DIRECTORY = [''a.json'']" "dir_names v CONSUMED_DIRECTORY = []"
    using assms(1) by (simp_all add: dir_names_def PENDING_DIRECTORY_def CONSUMED_DIRECTORY_def)
  have a: "read_pending ''a.json'' v = Inr (Some (demo_held ''a'' expires 0))"
    using assms(1) by (simp add: read_pending_Some)
  show ?thesis
    using assms(2) names a demo_pool_slots
    by (simp add: assign_identity_def occupants_def over_pending_def over_consumed_def andThen_def ok_or_def ensure_def
        demo_held_fields occupant_of_def demo_slot_def)
qed

lemma demo_grant_step:
  assumes i: "i \<in> {''a'', ''b''}" and now: "now_ms \<in> {5, 10}" "now_ms < expires" and clear: "clear_store (as_store x)"
    and free: "held (as_store x) (PENDING_DIRECTORY, i @ ''.json'') = None" "held (as_store x) (CONSUMED_DIRECTORY, i @ ''.json'') = None"
      "lookup_file (au_retention (as_store x)) (i @ ''.json'') = None"
    and slot: "assign_identity demo_pool now_ms (\<lambda>_. Inr False) (au_vault (as_store x)) = Inr (demo_slot k)" and k: "k \<in> {0, 1}"
    and timely: "timely (as_now x) now_ms"
  shows "\<exists>s. auth_step demo_auth demo_pool timely x (x\<lparr>as_store := s\<rparr>) \<and> clear_store s
    \<and> v_files (au_vault s) = v_files (au_vault (as_store x)) @ [((PENDING_DIRECTORY, i @ ''.json''), Stored (Pending_File (demo_held i expires k)))]
    \<and> (\<forall>n. n \<noteq> i @ ''.json'' \<longrightarrow> lookup_file (au_retention s) n = lookup_file (au_retention (as_store x)) n)"
proof -
  let ?m = "authorize_inner demo_auth demo_pool (demo_launch_grant i expires) now_ms (\<lambda>_. Inr False)"
  from demo_authorize [OF i now clear free slot k] obtain d r where result: "?m (as_store x)
      = (Inr (demo_held i expires k), \<lparr>au_vault = add_file PENDING_DIRECTORY (i @ ''.json'') (Stored (Pending_File (demo_held i expires k)))
          (au_vault (as_store x)), au_retention = d\<rparr>)" "lock_ok d" "write_faults d = []"
      "lookup_file d = (lookup_file (au_retention (as_store x)))(i @ ''.json'' \<mapsto> r)" by blast
  have "auth_step demo_auth demo_pool timely x (x\<lparr>as_store := snd (?m (as_store x))\<rparr>)"
    by (rule auth_step.grant [where terminal = "\<lambda>_. Inr False"]) (use timely in \<open>auto simp: proves_disposal_def\<close>)
  then show ?thesis
    using clear by (intro exI [of _ "snd (?m (as_store x))"]) (simp add: result clear_store_def add_file_def)
qed

lemma demo_spend:
  assumes clear: "clear_store s" and now: "now_ms < expires"
    and p: "held s (PENDING_DIRECTORY, ''a.json'') = Some (Stored (Pending_File (demo_held ''a'' expires k)))"
    and free: "held s (CONSUMED_DIRECTORY, ''a.json'') = None" and k: "k \<in> {0, 1}"
  shows "consume demo_auth (demo_launch_request ''a'') 7 now_ms s
    = (Inr (launch_authorization_of (demo_held ''a'' expires k)),
       s\<lparr>au_vault := add_file CONSUMED_DIRECTORY ''a.json'' (Stored (Consumed_File (demo_held ''a'' expires k) now_ms))
         ((au_vault s)\<lparr>v_files := filter (\<lambda>(k, _). k \<noteq> (PENDING_DIRECTORY, ''a.json'')) (v_files (au_vault s))\<rparr>)\<rparr>)"
proof -
  let ?p = "demo_held ''a'' expires k"
  have request: "lq_authorization_id (demo_launch_request ''a'') = ''a''" by (simp add: demo_launch_request_def)
  have q: "validate_launch_request (launch demo_auth) (demo_launch_request ''a'') = Inr ()" "record_name ''a'' = Inr ''a.json''"
    using demo_request_checks [of "''a''"] demo_names_ok [of "''a''"] by simp_all
  have read: "andThen (read_pending ''a.json'' (au_vault s)) (\<lambda>held. ok_or held Unknown_Authorization) = Inr ?p"
    using read_pending_Some [of "''a.json''" "au_vault s" ?p] p by (simp add: ok_or_def andThen_def)
  have positive: "0 < expires" using now by (simp add: word_less_nat_alt)
  have conf: "?p\<lparr>pa_conformance := la_conformance (launch_authorization_of ?p)\<rparr> = ?p"
    by (simp add: launch_authorization_of_def)
  have waiver: "validate_conformance_for (pa_conformance ?p) (pa_session_id ?p) (pa_request_digest ?p) (pa_controller_uid ?p) now_ms = Inr ()"
    by (simp add: demo_held_fields validate_conformance_for_def ensure_def)
  have gone: "remove_pending ''a.json'' (au_vault s)
      = (Inr (), (au_vault s)\<lparr>v_files := filter (\<lambda>(k, _). k \<noteq> (PENDING_DIRECTORY, ''a.json'')) (v_files (au_vault s))\<rparr>)" (is "_ = (_, ?v)")
    using p clear by (simp add: remove_pending_def vault_file_held next_vault_fault_def after_fault_calm clear_store_def)
  have synced: "sync_removal ''a.json'' ?p ?v = (Inr (), ?v)"
    using clear by (simp add: sync_removal_def next_vault_fault_def after_fault_calm clear_store_def)
  have "map_of (v_files ?v) (CONSUMED_DIRECTORY, ''a.json'') = None" using free by (auto simp: map_of_eq_None_iff)
  then have new: "write_new_record CONSUMED_DIRECTORY ''a.json'' (Consumed_File ?p now_ms) ?v
      = (Inr (), add_file CONSUMED_DIRECTORY ''a.json'' (Stored (Consumed_File ?p now_ms)) ?v)"
    using clear by (simp add: write_new_record_def vault_file_def next_vault_fault_def after_fault_calm clear_store_def)
  show ?thesis
    unfolding consume_def consume_with_def request
    using q read now conf waiver gone synced new demo_launch_valid [OF _ positive k, of "''a''"]
    by (simp add: bind_op_def pure_def read_op_def map_err_def ensure_def demo_held_fields(1,4,6) Let_def on_vault_def not_le)
qed

definition demo_system :: auth_system where
  "demo_system = \<lparr>as_store = demo_start_store, as_log = [], as_now = 5, as_disposed = {}\<rparr>"

abbreviation demo_pending :: "string \<Rightarrow> u64 \<Rightarrow> u32 \<Rightarrow> (string \<times> string) \<times> auth_file entry" where
  "demo_pending i expires k \<equiv> ((PENDING_DIRECTORY, i @ ''.json''), Stored (Pending_File (demo_held i expires k)))"

lemma demo_system_start: "untouched demo_system" "clear_store (as_store demo_system)" "as_now demo_system = 5" "as_log demo_system = []"
  "v_files (au_vault (as_store demo_system)) = []" "as_disposed demo_system = {}"
  "lookup_file (au_retention (as_store demo_system)) n = None"
  by (simp_all add: demo_system_def untouched_def clear_store_def demo_start_store_def lookup_file_def)

lemmas one_more_step = converse_rtranclp_into_rtranclp [where r = "auth_step c pool timely" for c pool timely]

lemma demo_first_grant:
  assumes "timely 5 5"
  obtains s where "auth_step demo_auth demo_pool timely demo_system (demo_system\<lparr>as_store := s\<rparr>)" and "clear_store s"
    and "v_files (au_vault s) = [demo_pending ''a'' 10 0]" and "lookup_file (au_retention s) ''b.json'' = None"
proof -
  have slot: "assign_identity demo_pool 5 (\<lambda>_. Inr False) (au_vault (as_store demo_system)) = Inr (demo_slot 0)"
    using demo_assign_first demo_system_start(2,5) by (simp add: clear_store_def)
  from demo_grant_step [of "''a''" 5 10 demo_system 0 timely] demo_system_start slot assms
  show ?thesis by (auto intro: that)
qed

lemma demo_second_grant:
  assumes "clear_store (as_store x)" and "v_files (au_vault (as_store x)) = [demo_pending ''a'' 10 0]"
    and "lookup_file (au_retention (as_store x)) ''b.json'' = None" and "now_ms \<in> {5, 10}" and "timely (as_now x) now_ms"
  obtains s where "auth_step demo_auth demo_pool timely x (x\<lparr>as_store := s\<rparr>)" and "clear_store s"
    and "v_files (au_vault s) = [demo_pending ''a'' 10 0, demo_pending ''b'' 60 (if now_ms = 10 then 0 else 1)]"
proof -
  have slot: "assign_identity demo_pool now_ms (\<lambda>_. Inr False) (au_vault (as_store x)) = Inr (demo_slot (if now_ms = 10 then 0 else 1))"
    using assms demo_assign_second [of "au_vault (as_store x)" 10 now_ms] by (auto simp: clear_store_def word_le_nat_alt)
  have before: "now_ms < 60" using assms(4) by (auto simp: word_less_nat_alt)
  from demo_grant_step [of "''b''" now_ms 60 x "if now_ms = 10 then 0 else 1" timely] assms slot before dirs_differ(1,2)
  obtain s where "auth_step demo_auth demo_pool timely x (x\<lparr>as_store := s\<rparr>)" "clear_store s"
    "v_files (au_vault s) = [demo_pending ''a'' 10 0, demo_pending ''b'' 60 (if now_ms = 10 then 0 else 1)]"
    by (auto simp del: insert_iff simp: insertI1 insertI2)
  then show ?thesis by (rule that)
qed

lemma demo_spend_step:
  assumes "clear_store (as_store x)" and "v_files (au_vault (as_store x)) = demo_pending ''a'' 10 0 # rest"
    and "map_of rest (CONSUMED_DIRECTORY, ''a.json'') = None" and "timely (as_now x) 9"
  shows "\<exists>s. consume demo_auth (demo_launch_request ''a'') 7 9 (as_store x)
      = (Inr (launch_authorization_of (demo_held ''a'' 10 0)), s)
    \<and> auth_step demo_auth demo_pool timely x (x\<lparr>as_store := s, as_log := as_log x @ [launch_authorization_of (demo_held ''a'' 10 0)]\<rparr>)
    \<and> v_files (au_vault s) = filter (\<lambda>(k, _). k \<noteq> (PENDING_DIRECTORY, ''a.json'')) rest
        @ [((CONSUMED_DIRECTORY, ''a.json''), Stored (Consumed_File (demo_held ''a'' 10 0) 9))]"
proof -
  have dirs: "PENDING_DIRECTORY \<noteq> CONSUMED_DIRECTORY" by (simp add: PENDING_DIRECTORY_def CONSUMED_DIRECTORY_def)
  have "(9 :: u64) < 10" by (simp add: word_less_nat_alt)
  from demo_spend [OF assms(1) this, of 0] assms(2,3) dirs obtain s where
    s: "consume demo_auth (demo_launch_request ''a'') 7 9 (as_store x) = (Inr (launch_authorization_of (demo_held ''a'' 10 0)), s)"
    and files: "v_files (au_vault s) = filter (\<lambda>(k, _). k \<noteq> (PENDING_DIRECTORY, ''a.json'')) rest
        @ [((CONSUMED_DIRECTORY, ''a.json''), Stored (Consumed_File (demo_held ''a'' 10 0) 9))]"
    by (simp add: add_file_def)
  from auth_step.spend [of timely x 9 "consume demo_auth (demo_launch_request ''a'') 7 9" demo_auth "demo_launch_request ''a''" 7 Inr, OF assms(4) _ s]
  show ?thesis using s files by (auto simp: consume_def)
qed

end
