(* ===== verification/Authorization_Properties.thy ===== *)
theory Authorization_Properties
  imports Authorization_Demo
begin

section \<open>Properties of launch authorizations\<close>

text \<open>
  An authorization is handed out at most once, what is handed out passes the check of the
  supervisor, and live Sessions have different host identities as long as no operation works
  with an old clock reading.
\<close>

text \<open>C25: From an empty store, under every interleaving of grants, cold grants, consumptions,
  crashes and file faults, each authorization is handed out at most once, and everything handed
  out was recorded as consumed before its expiry, is valid and carries a conformance decision
  valid at that time.\<close>

theorem authorization_spent_once:
  assumes "untouched x" and "auth_history c pool timely x y"
  shows "distinct (map la_authorization_id (as_log y))
    \<and> (\<forall>a \<in> set (as_log y). \<exists>p t. consumed_at (as_store y) (la_authorization_id a @ ''.json'') p t
         \<and> launch_authorization_of p = a \<and> t < la_expires_at_ms a \<and> validate_launch_authorization a = Inr ()
         \<and> is_ok (validate_conformance_for (la_conformance a) (la_session_id a) (la_request_digest a) (la_controller_uid a) t))"
proof -
  from spent_once_history [OF assms(2) untouched_spent_once untouched_orderly] assms(1)
  have once: "spent_once y" and ord: "orderly pool (as_store y)" by simp_all
  have "\<exists>p t. consumed_at (as_store y) (la_authorization_id a @ ''.json'') p t \<and> launch_authorization_of p = a
      \<and> t < la_expires_at_ms a \<and> validate_launch_authorization a = Inr ()
      \<and> is_ok (validate_conformance_for (la_conformance a) (la_session_id a) (la_request_digest a) (la_controller_uid a) t)"
    if "a \<in> set (as_log y)" for a
  proof -
    from once that obtain n p t where p: "consumed_at (as_store y) n p t" "launch_authorization_of p = a"
      "t < la_expires_at_ms a" "validate_launch_authorization a = Inr ()"
      "is_ok (validate_conformance_for (la_conformance a) (la_session_id a) (la_request_digest a) (la_controller_uid a) t)"
      unfolding spent_once_def by blast
    from orderlyD(2) [OF ord p(1)] p(2) have "n = la_authorization_id a @ ''.json''" by auto
    with p show ?thesis by blast
  qed
  with once show ?thesis unfolding spent_once_def by blast
qed

text \<open>C26: As long as every operation reads the clock when it runs, two different live
  authorizations (pending and unexpired, or consumed and not disposed of) never share a slot, a
  user or a group of the host.\<close>

theorem live_identities_distinct:
  assumes "untouched x" and "auth_history c pool (=) x y" and "live y p" and "live y q" and "p \<noteq> q"
  shows "id_slot (pa_identity p) \<noteq> id_slot (pa_identity q) \<and> id_uid (pa_identity p) \<noteq> id_uid (pa_identity q)
    \<and> id_gid (pa_identity p) \<noteq> id_gid (pa_identity q)"
proof -
  from slots_apart_history [OF assms(2) untouched_slots_apart untouched_orderly] assms(1)
  have apart: "slots_apart y" and ord: "orderly pool (as_store y)" by simp_all
  have pooled: "pool_identity pool (id_slot (pa_identity r)) = Some (pa_identity r)" if "live y r" for r
    using that orderlyD(1,2) [OF ord] unfolding live_def by blast
  from apart assms(3-5) have "id_slot (pa_identity p) \<noteq> id_slot (pa_identity q)" unfolding slots_apart_def by blast
  with pool_identity_inject [OF pooled [OF assms(3)] pooled [OF assms(4)]] show ?thesis by simp
qed

lemma consume_controller:
  assumes "consume_with c q uid now_ms decision s = (Inr a, s')"
  shows "validate_launch_request (launch c) q = Inr () \<and> (\<exists>name p. record_name (lq_authorization_id q) = Inr name
    \<and> pending_at s name p \<and> pa_controller_uid p = uid)"
proof -
  from assms obtain name p u where "map_err (\<lambda>_. Invalid_Grant) (validate_launch_request (launch c) q) = Inr u"
    "record_name (lq_authorization_id q) = Inr name"
    "andThen (read_pending name (au_vault s)) (\<lambda>held. ok_or held Unknown_Authorization) = Inr p"
    "pa_controller_uid p = uid"
    unfolding consume_with_def Let_def bound_pure_Inr bound_read_Inr ensure_Inr by blast
  then show ?thesis by (auto simp: results read_pending_Some)
qed

lemma unknown_after:
  assumes "held s (PENDING_DIRECTORY, name) = None" and "record_name (lq_authorization_id q) = Inr name"
    and "validate_launch_request (launch c) q = Inr ()"
  shows "consume c q uid now_ms s = (Inl Unknown_Authorization, s)"
proof -
  have "read_pending name (au_vault s) = Inr None"
    using assms(1) by (simp add: read_pending_def read_record_def read_entry_def vault_file_held andThen_def)
  with assms(2,3) show ?thesis
    by (simp add: consume_def consume_with_def bind_op_def pure_def read_op_def map_err_def andThen_def ok_or_def)
qed

theorem consumed_authorization_fits:
  assumes "untouched x" and "auth_history c pool timely x y"
    and "consume c q uid now_ms (as_store y) = (Inr a, s)"
  shows "validate_authorization_for (launch c) a q uid now_ms = Inr ()
    \<and> (\<exists>p. consumed_at s (la_authorization_id a @ ''.json'') p now_ms \<and> launch_authorization_of p = a)
    \<and> (\<forall>uid' later. consume c q uid' later s = (Inl Unknown_Authorization, s))"
proof -
  have ord: "orderly pool (as_store y)" using orderly_history [OF assms(2) untouched_orderly [OF assms(1)]] .
  note run = assms(3) [unfolded consume_def]
  from consume_controller [OF run] obtain name p where q: "validate_launch_request (launch c) q = Inr ()"
    and name: "record_name (lq_authorization_id q) = Inr name" and p: "pending_at (as_store y) name p"
    and uid: "pa_controller_uid p = uid" by blast
  from consume_with_effect [OF run] name p obtain waiver where now: "now_ms < pa_expires_at_ms p"
    and m: "request_matches c p q" and free: "held s (PENDING_DIRECTORY, name) = None"
    and new: "consumed_at s name (p\<lparr>pa_conformance := waiver\<rparr>) now_ms"
    and a: "a = launch_authorization_of (p\<lparr>pa_conformance := waiver\<rparr>)" and v: "validate_launch_authorization a = Inr ()"
    and conf: "is_ok (validate_conformance_for waiver (pa_session_id p) (pa_request_digest p) (pa_controller_uid p) now_ms)"
    by (auto simp: authorization_spent_def Let_def)
  from orderlyD(1) [OF ord p] name have id: "pa_authorization_id p = lq_authorization_id q" "name = lq_authorization_id q @ ''.json''"
    by (auto simp: record_name_Inr)
  have "validate_authorization_for (launch c) a q uid now_ms = Inr ()"
    using q v m now conf uid id
    by (auto simp: validate_authorization_for_def request_matches_def request_digest_text_def a results launch_authorization_of_def)
  moreover have "\<exists>p. consumed_at s (la_authorization_id a @ ''.json'') p now_ms \<and> launch_authorization_of p = a"
    using new a id by auto
  ultimately show ?thesis using unknown_after [OF free name q] by blast
qed

theorem authorization_spent_once_witness:
  "\<exists>y a p t. auth_history demo_auth demo_pool (=) demo_system y \<and> as_log y = [a]
    \<and> consumed_at (as_store y) (la_authorization_id a @ ''.json'') p t \<and> launch_authorization_of p = a \<and> t < la_expires_at_ms a
    \<and> validate_launch_authorization a = Inr ()"
proof -
  obtain s where s: "auth_step demo_auth demo_pool (=) demo_system (demo_system\<lparr>as_store := s\<rparr>)" "clear_store s"
    "v_files (au_vault s) = [demo_pending ''a'' 10 0]" using demo_first_grant [of "(=)"] by metis
  let ?x = "demo_system\<lparr>as_store := s, as_now := 9\<rparr>"
  have tick: "auth_step demo_auth demo_pool (=) (demo_system\<lparr>as_store := s\<rparr>) ?x"
    using auth_step.tick [of "demo_system\<lparr>as_store := s\<rparr>" 9] demo_system_start(3) by (simp add: word_le_nat_alt)
  from demo_spend_step [of ?x "[]" "(=)"] s(2,3) obtain s' where
    spend: "auth_step demo_auth demo_pool (=) ?x (?x\<lparr>as_store := s', as_log := [launch_authorization_of (demo_held ''a'' 10 0)]\<rparr>)"
    by (auto simp: demo_system_start)
  let ?y = "?x\<lparr>as_store := s', as_log := [launch_authorization_of (demo_held ''a'' 10 0)]\<rparr>"
  have h: "auth_history demo_auth demo_pool (=) demo_system ?y"
    unfolding auth_history_def by (rule one_more_step [OF s(1)], rule one_more_step [OF tick], rule one_more_step [OF spend], rule rtranclp.rtrancl_refl)
  from authorization_spent_once [OF demo_system_start(1) h] h show ?thesis
    by (intro exI [of _ ?y] exI [of _ "launch_authorization_of (demo_held ''a'' 10 0)"]) auto
qed

theorem consumed_authorization_fits_witness:
  "\<exists>y a s. auth_history demo_auth demo_pool (=) demo_system y
    \<and> consume demo_auth (demo_launch_request ''a'') 7 9 (as_store y) = (Inr a, s)
    \<and> validate_authorization_for (launch demo_auth) a (demo_launch_request ''a'') 7 9 = Inr ()
    \<and> consume demo_auth (demo_launch_request ''a'') 7 9 s = (Inl Unknown_Authorization, s)"
proof -
  obtain s where s: "auth_step demo_auth demo_pool (=) demo_system (demo_system\<lparr>as_store := s\<rparr>)" "clear_store s"
    "v_files (au_vault s) = [demo_pending ''a'' 10 0]" using demo_first_grant [of "(=)"] by metis
  have h: "auth_history demo_auth demo_pool (=) demo_system (demo_system\<lparr>as_store := s\<rparr>)"
    unfolding auth_history_def using s(1) by blast
  from demo_spend_step [of "demo_system\<lparr>as_store := s\<rparr>" "[]" "\<lambda>_ _. True"] s(2,3) obtain s' where
    run: "consume demo_auth (demo_launch_request ''a'') 7 9 (as_store (demo_system\<lparr>as_store := s\<rparr>))
      = (Inr (launch_authorization_of (demo_held ''a'' 10 0)), s')" by auto
  from consumed_authorization_fits [OF demo_system_start(1) h run] h run show ?thesis by blast
qed

theorem live_identities_distinct_witness:
  "\<exists>y p q. auth_history demo_auth demo_pool (=) demo_system y \<and> live y p \<and> live y q
    \<and> pa_authorization_id p = ''a'' \<and> pa_authorization_id q = ''b'' \<and> id_uid (pa_identity p) \<noteq> id_uid (pa_identity q)"
proof -
  obtain s where s: "auth_step demo_auth demo_pool (=) demo_system (demo_system\<lparr>as_store := s\<rparr>)" "clear_store s"
    "v_files (au_vault s) = [demo_pending ''a'' 10 0]" "lookup_file (au_retention s) ''b.json'' = None"
    using demo_first_grant [of "(=)"] by metis
  obtain s' where s': "auth_step demo_auth demo_pool (=) (demo_system\<lparr>as_store := s\<rparr>) (demo_system\<lparr>as_store := s'\<rparr>)"
    "v_files (au_vault s') = [demo_pending ''a'' 10 0, demo_pending ''b'' 60 1]"
    using demo_second_grant [of "demo_system\<lparr>as_store := s\<rparr>" 5 "(=)"] s(2-4) by (auto simp: demo_system_start)
  let ?y = "demo_system\<lparr>as_store := s'\<rparr>" and ?p = "demo_held ''a'' 10 0" and ?q = "demo_held ''b'' 60 1"
  have h: "auth_history demo_auth demo_pool (=) demo_system ?y"
    unfolding auth_history_def by (rule one_more_step [OF s(1)], rule one_more_step [OF s'(1)], rule rtranclp.rtrancl_refl)
  have "live ?y ?p" unfolding live_def using s'(2) demo_system_start(3)
    by (intro disjI1 conjI exI [of _ "''a.json''"]) (simp_all add: demo_held_fields word_less_nat_alt)
  moreover have "live ?y ?q" unfolding live_def using s'(2) demo_system_start(3)
    by (intro disjI1 conjI exI [of _ "''b.json''"]) (simp_all add: demo_held_fields word_less_nat_alt)
  moreover have "?p \<noteq> ?q" using demo_held_fields(3) [of "''a''" 10 0] demo_held_fields(3) [of "''b''" 60 1] by auto
  ultimately show ?thesis using live_identities_distinct [OF demo_system_start(1) h, of ?p ?q] h demo_held_fields(3) by metis
qed

text \<open>
  Without fresh clock readings the identities do not stay apart: a reading of the clock that was
  taken before the expiry is used after it, and two live authorizations of different Sessions
  share a slot.
\<close>

theorem stale_clock_shares_identity:
  "\<exists>y p q. auth_history demo_auth demo_pool (\<lambda>now t. t \<le> now) demo_system y \<and> live y p \<and> live y q
    \<and> pa_session_id p \<noteq> pa_session_id q \<and> pa_identity p = pa_identity q"
proof -
  let ?earlier = "\<lambda>now t :: u64. t \<le> now"
  obtain s where s: "auth_step demo_auth demo_pool ?earlier demo_system (demo_system\<lparr>as_store := s\<rparr>)" "clear_store s"
    "v_files (au_vault s) = [demo_pending ''a'' 10 0]" "lookup_file (au_retention s) ''b.json'' = None"
    using demo_first_grant [of ?earlier] by auto
  let ?x = "demo_system\<lparr>as_store := s, as_now := 10\<rparr>"
  have tick: "auth_step demo_auth demo_pool ?earlier (demo_system\<lparr>as_store := s\<rparr>) ?x"
    using auth_step.tick [of "demo_system\<lparr>as_store := s\<rparr>" 10] demo_system_start(3) by (simp add: word_le_nat_alt)
  obtain s' where s': "auth_step demo_auth demo_pool ?earlier ?x (?x\<lparr>as_store := s'\<rparr>)" "clear_store s'"
    "v_files (au_vault s') = [demo_pending ''a'' 10 0, demo_pending ''b'' 60 0]"
    using demo_second_grant [of ?x 10 ?earlier] s(2-4) by auto
  from demo_spend_step [of "?x\<lparr>as_store := s'\<rparr>" "[demo_pending ''b'' 60 0]" ?earlier] s'(2,3) obtain t where
    spend: "auth_step demo_auth demo_pool ?earlier (?x\<lparr>as_store := s'\<rparr>) (?x\<lparr>as_store := t, as_log := [launch_authorization_of (demo_held ''a'' 10 0)]\<rparr>)"
    and files: "v_files (au_vault t) = [demo_pending ''b'' 60 0, ((CONSUMED_DIRECTORY, ''a.json''), Stored (Consumed_File (demo_held ''a'' 10 0) 9))]"
    by (auto simp: demo_system_start word_le_nat_alt PENDING_DIRECTORY_def CONSUMED_DIRECTORY_def)
  let ?y = "?x\<lparr>as_store := t, as_log := [launch_authorization_of (demo_held ''a'' 10 0)]\<rparr>"
    and ?p = "demo_held ''a'' 10 0" and ?q = "demo_held ''b'' 60 0"
  have h: "auth_history demo_auth demo_pool ?earlier demo_system ?y"
    unfolding auth_history_def by (rule one_more_step [OF s(1)], rule one_more_step [OF tick], rule one_more_step [OF s'(1)],
        rule one_more_step [OF spend], rule rtranclp.rtrancl_refl)
  have "live ?y ?p" unfolding live_def using files demo_system_start(6)
    by (intro disjI2 conjI exI [of _ "''a.json''"] exI [of _ 9]) (simp_all add: PENDING_DIRECTORY_def CONSUMED_DIRECTORY_def)
  moreover have "live ?y ?q" unfolding live_def using files
    by (intro disjI1 conjI exI [of _ "''b.json''"]) (simp_all add: demo_held_fields word_less_nat_alt)
  moreover have "pa_session_id ?p \<noteq> pa_session_id ?q"
    by (simp add: demo_held_def pending_of_def demo_launch_grant_def demo_launch_request_def Let_def)
  ultimately show ?thesis using h demo_held_fields(2) by (intro exI [of _ ?y] exI [of _ ?p] exI [of _ ?q]) simp
qed

end
