(* ===== verification/Conformance.thy ===== *)
theory Conformance
  imports Protocol_Messages
begin

section \<open>Conformance evidence and admission\<close>

text \<open>
  skills-core/src/conformance.rs, conformance/admission.rs and conformance/installed.rs: the
  observations of the hostile probes, the verdict derived from them, the history of failures,
  the certificate that binds observations to a measured host, and the decision whether the
  retained evidence admits a launch. JSON encoding and parsing and SHA-256 are the fields of
  \<open>evidence_codec\<close>; measuring the host and running the probes are not modelled. The \<open>BTreeMap\<close> of
  host inputs is its list of pairs in key order.
\<close>

subsection \<open>Observations\<close>

definition SENDER_GUARD_CHECK :: string where
  "SENDER_GUARD_CHECK = ''sender-guard''"

definition REQUIRED_CHECKS :: "string list" where
  "REQUIRED_CHECKS =
     [''operator-home'', ''symlink-operator-home'', ''operator-checkout'', ''symlink-operator-checkout'',
      ''operator-credentials'', ''symlink-operator-credentials'', ''native-provider-config'',
      ''symlink-native-provider-config'', ''native-mcp-config'', ''symlink-native-mcp-config'',
      ''runtime-write-provider-config.json'', ''runtime-write-mcp.json'', ''runtime-write-adapter.js'',
      ''ambient-environment'', ''inherited-file-fd'', ''inherited-socket-fd'',
      ''proc-operator'', ''ptrace-operator'', ''signal-operator'',
      ''proc-launcher'', ''ptrace-launcher'', ''signal-launcher'',
      ''proc-broker'', ''ptrace-broker'', ''signal-broker'',
      ''proc-second-session'', ''ptrace-second-session'', ''signal-second-session'', ''second-session-file'',
      ''first-session-file'', ''proc-first-session'', ''ptrace-first-session'', ''signal-first-session'',
      ''pathname-unix'', ''dbus-systemd'', ''docker'', ''abstract-unix'',
      ''ipv4'', ''ipv6'', ''ipv4-loopback'', ''ipv6-loopback'',
      ''own-channel-first'', ''foreign-channel-first'', ''own-channel-second'', ''foreign-channel-second'',
      ''lifecycle'', SENDER_GUARD_CHECK]"

definition REPORT_SCHEMA :: string where
  "REPORT_SCHEMA = ''louiselm.conformance.observations/1''"

definition MAX_REPORT_BYTES :: nat where
  "MAX_REPORT_BYTES = 128 * 1024"

datatype report_scope = Disposable_Guest | Installed_Host

datatype probe_outcome = Probe_Allowed | Probe_Denied string | Probe_Error string

record observation =
  ob_name :: string
  ob_outcome :: probe_outcome

record probe_check =
  pc_name :: string
  pc_control :: probe_outcome
  pc_confined :: probe_outcome

datatype report_error = Invalid_Observations | Invalid_Encoding

fun outcome_valid :: "probe_outcome \<Rightarrow> bool" where
  "outcome_valid Probe_Allowed = True"
| "outcome_valid (Probe_Denied detail) = (detail \<noteq> [] \<and> length detail \<le> 1024)"
| "outcome_valid (Probe_Error detail) = (detail \<noteq> [] \<and> length detail \<le> 1024)"

fun is_denied :: "probe_outcome \<Rightarrow> bool" where
  "is_denied (Probe_Denied _) = True"
| "is_denied _ = False"

definition find_row :: "observation list \<Rightarrow> string \<Rightarrow> report_error + probe_outcome" where
  "find_row rows name =
     (case filter (\<lambda>row. ob_name row = name) rows of
        [row] \<Rightarrow> if outcome_valid (ob_outcome row) then Inr (ob_outcome row) else Inl Invalid_Observations
      | _ \<Rightarrow> Inl Invalid_Observations)"

fun pair_rows :: "observation list \<Rightarrow> observation list \<Rightarrow> string list \<Rightarrow> report_error + probe_check list" where
  "pair_rows outside inside [] = Inr []"
| "pair_rows outside inside (n # ns) =
     andThen (ensure (n \<in> set REQUIRED_CHECKS) Invalid_Observations) (\<lambda>_.
     andThen (find_row outside n) (\<lambda>control.
     andThen (find_row inside n) (\<lambda>confined.
     andThen (pair_rows outside inside ns) (\<lambda>rest.
     Inr (\<lparr>pc_name = n, pc_control = control, pc_confined = confined\<rparr> # rest)))))"

definition pair_checks ::
  "string list \<Rightarrow> observation list \<Rightarrow> observation list \<Rightarrow> report_error + probe_check list" where
  "pair_checks names outside inside =
     (if names = [] \<or> length REQUIRED_CHECKS < length names \<or> length outside \<noteq> length names
         \<or> length inside \<noteq> length names \<or> \<not> distinct names
      then Inl Invalid_Observations else pair_rows outside inside names)"

subsection \<open>Reports\<close>

datatype report_cleanup = Cleanup_Pending | Cleanup_Confirmed | Cleanup_Unconfirmed

record report =
  rp_schema :: string
  rp_scope :: report_scope
  rp_checks :: "probe_check list"
  rp_completed :: bool
  rp_cleanup :: report_cleanup

datatype report_result = Report_Passed | Report_Incomplete | Report_Failed "string list"

text \<open>The walk over the rows: the names seen, the failures in order, and whether all held.\<close>

fun scan_checks ::
  "probe_check list \<Rightarrow> string list \<Rightarrow> string list \<Rightarrow> bool \<Rightarrow> report_error + string list \<times> string list \<times> bool" where
  "scan_checks [] names failures complete = Inr (names, failures, complete)"
| "scan_checks (c # cs) names failures complete =
     (if pc_name c \<notin> set REQUIRED_CHECKS \<or> pc_name c \<in> set names
         \<or> \<not> outcome_valid (pc_control c) \<or> \<not> outcome_valid (pc_confined c)
      then Inl Invalid_Observations
      else scan_checks cs (pc_name c # names)
        (if pc_confined c = Probe_Allowed then insort_insert (pc_name c) failures else failures)
        (complete \<and> pc_control c = Probe_Allowed \<and> is_denied (pc_confined c)))"

definition report_result_of :: "report \<Rightarrow> report_error + report_result" where
  "report_result_of r =
     (if rp_schema r \<noteq> REPORT_SCHEMA \<or> length REQUIRED_CHECKS < length (rp_checks r)
      then Inl Invalid_Observations
      else andThen (scan_checks (rp_checks r) [] [] (rp_completed r \<and> rp_cleanup r = Cleanup_Confirmed))
        (\<lambda>(names, found, complete).
         let failures = (if rp_cleanup r = Cleanup_Unconfirmed then insort_insert ''cleanup'' found else found)
         in Inr (if failures \<noteq> [] then Report_Failed failures
            else if complete \<and> length names = length REQUIRED_CHECKS then Report_Passed
            else Report_Incomplete)))"

record host_snapshot =
  hs_profile :: string
  hs_machine_digest :: string
  hs_boot_id :: string
  hs_release_digest :: string
  hs_inputs :: "(string \<times> string) list"

record certificate =
  ct_schema :: string
  ct_host :: host_snapshot
  ct_observations :: report

record evidence_codec =
  evidence_sha :: "string \<Rightarrow> u8 list"
  report_json :: "report \<Rightarrow> string"
  report_parse :: "string \<Rightarrow> report option"
  host_json :: "host_snapshot \<Rightarrow> string"
  certificate_json :: "certificate \<Rightarrow> string"
  certificate_parse :: "string \<Rightarrow> certificate option"

definition report_bytes :: "evidence_codec \<Rightarrow> report \<Rightarrow> report_error + string" where
  "report_bytes c r =
     andThen (report_result_of r) (\<lambda>_.
     andThen (ensure (length (report_json c r) \<le> MAX_REPORT_BYTES) Invalid_Encoding) (\<lambda>_.
     Inr (report_json c r)))"

definition parse_report :: "evidence_codec \<Rightarrow> string \<Rightarrow> report_error + report" where
  "parse_report c bytes =
     andThen (ensure (length bytes \<le> MAX_REPORT_BYTES) Invalid_Encoding) (\<lambda>_.
     andThen (ok_or (report_parse c bytes) Invalid_Encoding) (\<lambda>r.
     andThen (report_bytes c r) (\<lambda>canonical.
     andThen (ensure (canonical = bytes) Invalid_Encoding) (\<lambda>_. Inr r))))"

definition evidence_digest :: "evidence_codec \<Rightarrow> string \<Rightarrow> digest" where
  "evidence_digest c bytes = digest_of (evidence_sha c) bytes"

definition report_digest :: "evidence_codec \<Rightarrow> report \<Rightarrow> report_error + digest" where
  "report_digest c r = andThen (report_bytes c r) (\<lambda>bytes. Inr (evidence_digest c bytes))"

subsection \<open>The history of failures\<close>

record check_failure =
  fl_check :: string
  fl_report_digest :: string
  fl_scope :: report_scope

type_synonym failure_history = "check_failure list"

definition known_check :: "string \<Rightarrow> bool" where
  "known_check n = (n = ''cleanup'' \<or> n \<in> set REQUIRED_CHECKS)"

definition history_valid :: "failure_history \<Rightarrow> bool" where
  "history_valid h =
     (\<not> (2 * (length REQUIRED_CHECKS + 1) < length h
        \<or> list_ex (\<lambda>f. \<not> known_check (fl_check f) \<or> \<not> is_ok (parse_digest (fl_report_digest f))) h
        \<or> \<not> distinct (map (\<lambda>f. (fl_scope f, fl_check f)) h)))"

fun add_failures :: "string \<Rightarrow> report_scope \<Rightarrow> string list \<Rightarrow> failure_history \<Rightarrow> failure_history" where
  "add_failures d scope [] h = h"
| "add_failures d scope (n # ns) h =
     add_failures d scope ns
       (if list_ex (\<lambda>f. fl_check f = n \<and> fl_scope f = scope) h then h
        else h @ [\<lparr>fl_check = n, fl_report_digest = d, fl_scope = scope\<rparr>])"

definition record_report :: "evidence_codec \<Rightarrow> failure_history \<Rightarrow> report \<Rightarrow> report_error + failure_history" where
  "record_report c h r =
     andThen (ensure (history_valid h) Invalid_Observations) (\<lambda>_.
     andThen (report_digest c r) (\<lambda>d.
     andThen (report_result_of r) (\<lambda>res.
     Inr (case res of
        Report_Passed \<Rightarrow> filter (\<lambda>f. fl_scope f \<noteq> rp_scope r \<or> fl_check f = ''cleanup'') h
      | Report_Incomplete \<Rightarrow> h
      | Report_Failed failures \<Rightarrow> add_failures (digest_text d) (rp_scope r) failures h))))"

subsection \<open>Certificates\<close>

datatype certification_error = Cert_Invalid | Cert_Pending | Cert_Io | Cert_Report report_error

definition PROFILE :: string where
  "PROFILE = ''debian13-x86_64-glibc/1''"

definition CERTIFICATE_SCHEMA :: string where
  "CERTIFICATE_SCHEMA = ''louiselm.conformance.certificate/1''"

definition MAX_CERTIFICATE_BYTES :: nat where
  "MAX_CERTIFICATE_BYTES = 256 * 1024"

definition validate_host :: "host_snapshot \<Rightarrow> certification_error + unit" where
  "validate_host h =
     ensure (\<not> (hs_profile h \<noteq> PROFILE
        \<or> \<not> is_ok (parse_digest (hs_machine_digest h)) \<or> \<not> is_ok (parse_digest (hs_release_digest h))
        \<or> \<not> uuid_shape (hs_boot_id h) \<or> 128 < length (hs_inputs h)
        \<or> list_ex (\<lambda>k. k \<notin> fst ` set (hs_inputs h)) [''launcher'', ''backend'', ''policy'', ''kernel'', ''loader'']
        \<or> list_ex (\<lambda>(k, d). k = [] \<or> 256 < length k \<or> list_ex is_control (utf8_decode k) \<or> \<not> is_ok (parse_digest d))
            (hs_inputs h))) Cert_Invalid"

definition certificate_bytes :: "evidence_codec \<Rightarrow> certificate \<Rightarrow> certification_error + string" where
  "certificate_bytes c x =
     andThen (validate_host (ct_host x)) (\<lambda>_.
     andThen (ensure (ct_schema x = CERTIFICATE_SCHEMA \<and> rp_scope (ct_observations x) = Installed_Host) Cert_Invalid) (\<lambda>_.
     andThen (map_err Cert_Report (report_bytes c (ct_observations x))) (\<lambda>_.
     andThen (ensure (length (certificate_json c x) \<le> MAX_CERTIFICATE_BYTES) Cert_Invalid) (\<lambda>_.
     Inr (certificate_json c x)))))"

definition new_certificate :: "evidence_codec \<Rightarrow> host_snapshot \<Rightarrow> report \<Rightarrow> certification_error + certificate" where
  "new_certificate c h r =
     (let x = \<lparr>ct_schema = CERTIFICATE_SCHEMA, ct_host = h, ct_observations = r\<rparr> in
      andThen (certificate_bytes c x) (\<lambda>_. Inr x))"

definition parse_certificate :: "evidence_codec \<Rightarrow> string \<Rightarrow> certification_error + certificate" where
  "parse_certificate c bytes =
     andThen (ensure (length bytes \<le> MAX_CERTIFICATE_BYTES) Cert_Invalid) (\<lambda>_.
     andThen (ok_or (certificate_parse c bytes) Cert_Invalid) (\<lambda>x.
     andThen (certificate_bytes c x) (\<lambda>canonical.
     andThen (ensure (canonical = bytes) Cert_Invalid) (\<lambda>_. Inr x))))"

definition certificate_current :: "evidence_codec \<Rightarrow> certificate \<Rightarrow> host_snapshot \<Rightarrow> bool" where
  "certificate_current c x measured =
     (is_ok (certificate_bytes c x) \<and> ct_host x = measured
        \<and> report_result_of (ct_observations x) = Inr Report_Passed)"

subsection \<open>Admission\<close>

record admission_waiver =
  aw_session_id :: string
  aw_condition :: waiver_condition

record admission_request =
  aq_session_id :: string
  aq_attendance :: attendance
  aq_waiver :: "admission_waiver option"

datatype admission = Admitted string | Admission_Waived waiver_condition "string option"
  | Waivable waiver_condition | Admission_Refused waiver_condition

record certificate_status =
  cs_certificate :: "certificate option"
  cs_history :: failure_history
  cs_pending :: bool

definition guard_proved :: "probe_check \<Rightarrow> bool" where
  "guard_proved k = (pc_name k = SENDER_GUARD_CHECK \<and> pc_control k = Probe_Allowed \<and> is_denied (pc_confined k))"

definition evaluate_admission ::
  "evidence_codec \<Rightarrow> certificate_status \<Rightarrow> host_snapshot \<Rightarrow> admission_request \<Rightarrow> admission" where
  "evaluate_admission c status measured q =
     (if list_ex (\<lambda>f. fl_check f = SENDER_GUARD_CHECK) (cs_history status) then Admission_Refused Guard_Unavailable
      else if cs_history status \<noteq> [] then Admission_Refused Containment_Failure
      else if cs_pending status
        \<or> \<not> (case cs_certificate status of None \<Rightarrow> False
             | Some x \<Rightarrow> is_ok (certificate_bytes c x) \<and> ct_host x = measured
                 \<and> rp_cleanup (ct_observations x) = Cleanup_Confirmed
                 \<and> list_ex guard_proved (rp_checks (ct_observations x)))
      then Admission_Refused Guard_Unavailable
      else
        let retained = (case cs_certificate status of None \<Rightarrow> None
               | Some x \<Rightarrow> (case report_digest c (ct_observations x) of Inl _ \<Rightarrow> None | Inr d \<Rightarrow> Some (digest_text d)));
            judge = (\<lambda>condition.
               if aq_attendance q = Interactive
                  \<and> (case aq_waiver q of None \<Rightarrow> False
                     | Some w \<Rightarrow> aw_session_id w = aq_session_id q \<and> aw_condition w = condition)
               then Admission_Waived condition retained
               else if aq_attendance q = Interactive then Waivable condition else Admission_Refused condition)
        in if cs_pending status then judge Incomplete
           else case cs_certificate status of
               None \<Rightarrow> judge Missing
             | Some x \<Rightarrow>
                 (case retained of
                    Some d \<Rightarrow> if certificate_current c x measured then Admitted d else judge Stale
                  | None \<Rightarrow> judge Stale))"

end
