(* ===== verification/Certificate_Store.thy ===== *)
theory Certificate_Store
  imports Conformance Record_Store
begin

section \<open>The certificate store\<close>

text \<open>
  skills-core/src/conformance/installed/storage.rs: one directory of the installed launcher
  holds the state of host certification, the exact observation reports, and the certificates.
  A certification begins by marking the state as pending, retains every partial report with the
  failures it showed, and finishes by writing the certificate. A file is one of the four kinds
  below; a file whose bytes are not canonical is \<open>Malformed\<close>, one that cannot be opened is
  \<open>Unreadable\<close>. Of the disk, \<open>listable\<close> is the answer of \<open>trusted_directory\<close> for the root,
  and \<open>lock_ok\<close> whether the lock can be taken.
\<close>

subsection \<open>State\<close>

definition STATE_SCHEMA :: string where
  "STATE_SCHEMA = ''louiselm.conformance.store/1''"

definition MAX_STATE_BYTES :: nat where
  "MAX_STATE_BYTES = 512 * 1024"

record cert_state =
  st_schema :: string
  st_machine :: "string option"
  st_history :: failure_history
  st_reports :: "(string \<times> string) list"
  st_pending :: bool

record attempt_resources =
  at_directory :: string
  at_identities :: nat

datatype cert_file = State_File cert_state | Observation_File report | Certificate_File certificate
  | Attempt_File attempt_resources

record cert_codec =
  evidence :: evidence_codec
  state_json :: "cert_state \<Rightarrow> string"

record cert_store =
  cr_disk :: "cert_file disk"
  cr_state :: cert_state

type_synonym 'a cert_op = "(cert_store, certification_error, 'a) op"

definition STATE_FILE :: string where
  "STATE_FILE = ''state.json''"

definition ATTEMPT_FILE :: string where
  "ATTEMPT_FILE = ''attempt.json''"

definition observations_name :: "digest \<Rightarrow> string" where
  "observations_name d = ''observations-'' @ d @ ''.json''"

definition certificate_name :: "string \<Rightarrow> certification_error + string" where
  "certificate_name text =
     andThen (map_err (\<lambda>_. Cert_Invalid) (parse_digest text)) (\<lambda>d. Inr (''certificate-'' @ d @ ''.json''))"

definition host_key :: "cert_codec \<Rightarrow> host_snapshot \<Rightarrow> string" where
  "host_key c h = digest_text (evidence_digest (evidence c) (host_json (evidence c) h))"

definition empty_state :: cert_state where
  "empty_state = \<lparr>st_schema = STATE_SCHEMA, st_machine = None, st_history = [], st_reports = [], st_pending = False\<rparr>"

subsection \<open>Reading\<close>

definition read_protected :: "string \<Rightarrow> cert_file disk \<Rightarrow> certification_error + cert_file" where
  "read_protected name d =
     (case lookup_file d name of
        None \<Rightarrow> Inl Cert_Io
      | Some Unreadable \<Rightarrow> Inl Cert_Io
      | Some Malformed \<Rightarrow> Inl Cert_Invalid
      | Some (Stored f) \<Rightarrow> Inr f)"

definition incomplete_report :: report where
  "incomplete_report = \<lparr>rp_schema = REPORT_SCHEMA, rp_scope = Installed_Host, rp_checks = [],
     rp_completed = False, rp_cleanup = Cleanup_Pending\<rparr>"

definition read_failure :: "cert_codec \<Rightarrow> cert_file disk \<Rightarrow> check_failure \<Rightarrow> certification_error + unit" where
  "read_failure c d f =
     andThen (map_err (\<lambda>_. Cert_Invalid) (parse_digest (fl_report_digest f))) (\<lambda>digest.
     andThen (read_protected (observations_name digest) d) (\<lambda>file.
     case file of
       Observation_File r \<Rightarrow>
         andThen (map_err Cert_Report (report_bytes (evidence c) r)) (\<lambda>bytes.
         andThen (ensure (evidence_digest (evidence c) bytes = digest) Cert_Invalid) (\<lambda>_.
         andThen (map_err Cert_Report (report_result_of r)) (\<lambda>res.
         ensure (rp_scope r = Installed_Host
             \<and> (case res of Report_Failed checks \<Rightarrow> fl_check f \<in> set checks | _ \<Rightarrow> False)) Cert_Invalid)))
     | _ \<Rightarrow> Inl Cert_Invalid))"

fun read_failures :: "cert_codec \<Rightarrow> cert_file disk \<Rightarrow> check_failure list \<Rightarrow> certification_error + unit" where
  "read_failures c d [] = Inr ()"
| "read_failures c d (f # fs) = andThen (read_failure c d f) (\<lambda>_. read_failures c d fs)"

definition state_shape :: "cert_codec \<Rightarrow> cert_state \<Rightarrow> bool" where
  "state_shape c st =
     (\<not> (st_schema st \<noteq> STATE_SCHEMA \<or> 4096 < length (st_reports st)
        \<or> (case st_machine st of None \<Rightarrow> False | Some m \<Rightarrow> \<not> is_ok (parse_digest m))
        \<or> list_ex (\<lambda>(k, v). \<not> is_ok (parse_digest k) \<or> \<not> is_ok (parse_digest v)) (st_reports st)))"

definition read_cert_state :: "cert_codec \<Rightarrow> cert_file disk \<Rightarrow> certification_error + cert_state" where
  "read_cert_state c d =
     andThen (read_protected STATE_FILE d) (\<lambda>file.
     case file of
       State_File st \<Rightarrow>
         andThen (ensure (length (state_json c st) \<le> MAX_STATE_BYTES) Cert_Invalid) (\<lambda>_.
         andThen (ensure (state_shape c st) Cert_Invalid) (\<lambda>_.
         andThen (map_err Cert_Report (record_report (evidence c) (st_history st) incomplete_report)) (\<lambda>_.
         andThen (ensure (\<not> list_ex (\<lambda>f. fl_scope f \<noteq> Installed_Host) (st_history st)) Cert_Invalid) (\<lambda>_.
         andThen (read_failures c d (st_history st)) (\<lambda>_. Inr st)))))
     | _ \<Rightarrow> Inl Cert_Invalid)"

definition inspect_certificate ::
  "cert_codec \<Rightarrow> host_snapshot \<Rightarrow> cert_file disk \<Rightarrow> certification_error + certificate_status" where
  "inspect_certificate c h d =
     andThen (validate_host h) (\<lambda>_.
     andThen (ensure (listable d) Cert_Invalid) (\<lambda>_.
     andThen (read_cert_state c d) (\<lambda>st.
     andThen (ensure (case st_machine st of None \<Rightarrow> True | Some m \<Rightarrow> m = hs_machine_digest h) Cert_Invalid) (\<lambda>_.
     andThen (case map_of (st_reports st) (host_key c h) of
         None \<Rightarrow> Inr None
       | Some text \<Rightarrow>
           andThen (certificate_name text) (\<lambda>name.
           andThen (read_protected name d) (\<lambda>file.
           case file of
             Certificate_File x \<Rightarrow>
               andThen (certificate_bytes (evidence c) x) (\<lambda>bytes.
               andThen (ensure (digest_text (evidence_digest (evidence c) bytes) = text) Cert_Invalid) (\<lambda>_.
               andThen (ensure (ct_host x = h) Cert_Invalid) (\<lambda>_. Inr (Some x))))
           | _ \<Rightarrow> Inl Cert_Invalid))) (\<lambda>found.
     Inr \<lparr>cs_certificate = found, cs_history = st_history st, cs_pending = st_pending st\<rparr>)))))"

subsection \<open>Opening\<close>

text \<open>
  \<open>fresh\<close>: the directory did not exist and was created by this call. \<open>root_user\<close> and \<open>ancestors\<close>
  are the answers for the effective user and the parent directory.
\<close>

definition open_cert_store ::
  "cert_codec \<Rightarrow> bool \<Rightarrow> bool \<Rightarrow> bool \<Rightarrow> (cert_file disk, certification_error, cert_state) op" where
  "open_cert_store c root_user ancestors fresh =
     bind_op (pure (ensure (root_user \<and> ancestors) Cert_Invalid)) (\<lambda>_.
     bind_op (read_op (\<lambda>d. ensure (listable d) Cert_Invalid)) (\<lambda>_.
     bind_op (read_op (\<lambda>d. ensure (lock_ok d) Cert_Pending)) (\<lambda>_.
     bind_op (if fresh then write_op (\<lambda>_. Cert_Io) STATE_FILE (State_File empty_state) else pure (Inr ())) (\<lambda>_.
     bind_op (read_op (read_cert_state c)) (\<lambda>st.
     bind_op (pure (ensure (\<not> st_pending st) Cert_Pending)) (\<lambda>_.
     pure (Inr st)))))))"

subsection \<open>A certification attempt\<close>

definition cert_write :: "string \<Rightarrow> cert_file \<Rightarrow> unit cert_op" where
  "cert_write name f s =
     (case write_op (\<lambda>_. Cert_Io) name f (cr_disk s) of (x, d) \<Rightarrow> (x, s\<lparr>cr_disk := d\<rparr>))"

definition keep_state :: "cert_state \<Rightarrow> unit cert_op" where
  "keep_state st s = (Inr (), s\<lparr>cr_state := st\<rparr>)"

definition save_state :: "cert_codec \<Rightarrow> unit cert_op" where
  "save_state c s =
     (if \<not> listable (cr_disk s) then (Inl Cert_Invalid, s)
      else if MAX_STATE_BYTES < length (state_json c (cr_state s)) then (Inl Cert_Invalid, s)
      else cert_write STATE_FILE (State_File (cr_state s)) s)"

definition begin_attempt :: "cert_codec \<Rightarrow> host_snapshot \<Rightarrow> unit cert_op" where
  "begin_attempt c h =
     bind_op (pure (validate_host h)) (\<lambda>_.
     bind_op (read_op (\<lambda>s. ensure (\<not> (st_pending (cr_state s) \<or> 4096 \<le> length (st_reports (cr_state s)))) Cert_Pending)) (\<lambda>_.
     bind_op (read_op (\<lambda>s. ensure (case st_machine (cr_state s) of None \<Rightarrow> True | Some m \<Rightarrow> m = hs_machine_digest h)
        Cert_Invalid)) (\<lambda>_.
     bind_op (read_op (\<lambda>s. Inr (cr_state s))) (\<lambda>st.
     bind_op (keep_state (st\<lparr>st_machine := Some (hs_machine_digest h), st_pending := True\<rparr>)) (\<lambda>_.
     save_state c)))))"

definition observe_report :: "cert_codec \<Rightarrow> report \<Rightarrow> unit cert_op" where
  "observe_report c r =
     bind_op (read_op (\<lambda>s. ensure (\<not> (\<not> st_pending (cr_state s) \<or> rp_scope r \<noteq> Installed_Host \<or> rp_completed r))
        Cert_Invalid)) (\<lambda>_.
     bind_op (read_op (\<lambda>s. Inr (cr_state s))) (\<lambda>st.
     bind_op (pure (map_err Cert_Report (record_report (evidence c) (st_history st) r))) (\<lambda>h.
     bind_op (keep_state (st\<lparr>st_history := h\<rparr>)) (\<lambda>_.
     bind_op (pure (map_err Cert_Report (report_bytes (evidence c) r))) (\<lambda>bytes.
     bind_op (cert_write (observations_name (evidence_digest (evidence c) bytes)) (Observation_File r)) (\<lambda>_.
     save_state c))))))"

definition remember_resources :: "attempt_resources \<Rightarrow> unit cert_op" where
  "remember_resources a =
     bind_op (read_op (\<lambda>s. ensure (\<not> (\<not> st_pending (cr_state s) \<or> 3 < at_identities a)) Cert_Invalid)) (\<lambda>_.
     cert_write ATTEMPT_FILE (Attempt_File a))"

definition finish_attempt :: "cert_codec \<Rightarrow> certificate \<Rightarrow> unit cert_op" where
  "finish_attempt c x =
     bind_op (read_op (\<lambda>s. ensure (\<not> (\<not> st_pending (cr_state s)
        \<or> st_machine (cr_state s) \<noteq> Some (hs_machine_digest (ct_host x)))) Cert_Invalid)) (\<lambda>_.
     bind_op (pure (certificate_bytes (evidence c) x)) (\<lambda>bytes.
     bind_op (pure (map_err Cert_Report (report_bytes (evidence c) (ct_observations x)))) (\<lambda>observed.
     bind_op (cert_write (observations_name (evidence_digest (evidence c) observed))
        (Observation_File (ct_observations x))) (\<lambda>_.
     let text = digest_text (evidence_digest (evidence c) bytes) in
     bind_op (pure (certificate_name text)) (\<lambda>name.
     bind_op (cert_write name (Certificate_File x)) (\<lambda>_.
     bind_op (read_op (\<lambda>s. Inr (cr_state s))) (\<lambda>st.
     bind_op (pure (map_err Cert_Report (record_report (evidence c) (st_history st) (ct_observations x)))) (\<lambda>h.
     bind_op (keep_state (st\<lparr>st_history := h, st_reports := btree_put (host_key c (ct_host x)) text (st_reports st),
        st_pending := False\<rparr>)) (\<lambda>_.
     save_state c)))))))))"

end
