(* ===== verification/Conformance_Evidence.thy ===== *)
theory Conformance_Evidence
  imports Conformance
begin

section \<open>What conformance evidence proves\<close>

text \<open>
  The verdict of a report is characterised by its rows, a history loses a failure only to a
  complete passing run, and admission is reduced to the
  certificate, the history and the waiver of the request.
\<close>

subsection \<open>The verdict of a report\<close>

lemma required_checks_distinct: "distinct REQUIRED_CHECKS"
  by (simp add: REQUIRED_CHECKS_def SENDER_GUARD_CHECK_def)

lemma required_checks_length: "length REQUIRED_CHECKS = 47"
  by (simp add: REQUIRED_CHECKS_def)

lemma cleanup_not_required: "''cleanup'' \<notin> set REQUIRED_CHECKS"
  by (simp add: REQUIRED_CHECKS_def SENDER_GUARD_CHECK_def)

definition row_valid :: "probe_check \<Rightarrow> bool" where
  "row_valid k \<longleftrightarrow> pc_name k \<in> set REQUIRED_CHECKS \<and> outcome_valid (pc_control k) \<and> outcome_valid (pc_confined k)"

definition row_holds :: "probe_check \<Rightarrow> bool" where
  "row_holds k \<longleftrightarrow> pc_control k = Probe_Allowed \<and> is_denied (pc_confined k)"

lemma is_denied_iff: "is_denied x \<longleftrightarrow> (\<exists>d. x = Probe_Denied d)"
  by (cases x) simp_all

lemma scan_checks_Inr:
  "scan_checks cs names fs complete = Inr (names', fs', complete') \<longleftrightarrow>
     list_all row_valid cs \<and> distinct (map pc_name cs) \<and> set (map pc_name cs) \<inter> set names = {}
     \<and> names' = rev (map pc_name cs) @ names
     \<and> fs' = foldl (\<lambda>fs k. if pc_confined k = Probe_Allowed then insort_insert (pc_name k) fs else fs) fs cs
     \<and> complete' = (complete \<and> list_all row_holds cs)"
  by (induction cs names fs complete rule: scan_checks.induct)
    (auto simp: row_valid_def row_holds_def split: if_splits)

lemma foldl_insort_set:
  "set (foldl (\<lambda>fs k. if P k then insort_insert (f k) fs else fs) fs cs) = set fs \<union> f ` {k \<in> set cs. P k}"
  by (induction cs arbitrary: fs) (auto simp: set_insort_insert)

definition allowed_rows :: "report \<Rightarrow> string set" where
  "allowed_rows r = pc_name ` {k \<in> set (rp_checks r). pc_confined k = Probe_Allowed}"

definition report_failures :: "report \<Rightarrow> string set" where
  "report_failures r = allowed_rows r \<union> (if rp_cleanup r = Cleanup_Unconfirmed then {''cleanup''} else {})"

definition report_shape :: "report \<Rightarrow> bool" where
  "report_shape r \<longleftrightarrow> rp_schema r = REPORT_SCHEMA \<and> list_all row_valid (rp_checks r) \<and> distinct (map pc_name (rp_checks r))"

lemma report_shape_length: "report_shape r \<Longrightarrow> length (rp_checks r) \<le> length REQUIRED_CHECKS"
proof -
  assume r: "report_shape r"
  then have "set (map pc_name (rp_checks r)) \<subseteq> set REQUIRED_CHECKS"
    by (auto simp: report_shape_def row_valid_def list_all_iff)
  then have "card (set (map pc_name (rp_checks r))) \<le> card (set REQUIRED_CHECKS)" by (rule card_mono [OF finite_set])
  with r show ?thesis using required_checks_distinct by (metis distinct_card length_map report_shape_def)
qed

definition failing_checks :: "report \<Rightarrow> string list" where
  "failing_checks r = (if rp_cleanup r = Cleanup_Unconfirmed then insort_insert ''cleanup'' else id)
     (foldl (\<lambda>fs k. if pc_confined k = Probe_Allowed then insort_insert (pc_name k) fs else fs) [] (rp_checks r))"

lemma set_failing_checks [simp]: "set (failing_checks r) = report_failures r"
  by (auto simp: failing_checks_def foldl_insort_set report_failures_def allowed_rows_def set_insort_insert)

definition report_verdict :: "report \<Rightarrow> report_result" where
  "report_verdict r = (if failing_checks r \<noteq> [] then Report_Failed (failing_checks r)
     else if rp_completed r \<and> rp_cleanup r = Cleanup_Confirmed \<and> list_all row_holds (rp_checks r)
       \<and> length (rp_checks r) = length REQUIRED_CHECKS then Report_Passed else Report_Incomplete)"

lemma report_result_Inr: "report_result_of r = Inr v \<longleftrightarrow> report_shape r \<and> v = report_verdict r"
proof (cases "report_shape r")
  case True
  then have "scan_checks (rp_checks r) [] [] b = Inr (rev (map pc_name (rp_checks r)),
      foldl (\<lambda>fs k. if pc_confined k = Probe_Allowed then insort_insert (pc_name k) fs else fs) [] (rp_checks r),
      b \<and> list_all row_holds (rp_checks r))" for b
    by (simp add: scan_checks_Inr report_shape_def)
  with True report_shape_length [OF True]
  have "report_result_of r = Inr (report_verdict r)"
    by (simp add: report_result_of_def report_shape_def report_verdict_def failing_checks_def)
  with True show ?thesis by auto
next
  case False
  have "\<not> (\<exists>x. scan_checks (rp_checks r) [] [] b = Inr x)" if "rp_schema r = REPORT_SCHEMA" for b
    using False that by (auto simp: scan_checks_Inr report_shape_def)
  with False show ?thesis by (auto simp: report_result_of_def andThen_Inr)
qed

lemma failing_checks_empty: "failing_checks r = [] \<longleftrightarrow> report_failures r = {}"
  using set_failing_checks [of r] by (metis set_empty)

lemma report_failed_set: "report_result_of r = Inr (Report_Failed ks) \<Longrightarrow> set ks = report_failures r \<and> report_failures r \<noteq> {}"
  by (auto simp: report_result_Inr report_verdict_def failing_checks_empty [symmetric] split: if_splits)

lemma report_passed_complete: "report_result_of r = Inr Report_Passed \<Longrightarrow> rp_completed r \<and> rp_cleanup r = Cleanup_Confirmed"
  by (simp add: report_result_Inr report_verdict_def split: if_splits)

lemma report_failures_known: "report_shape r \<Longrightarrow> k \<in> report_failures r \<Longrightarrow> known_check k"
  by (auto simp: report_failures_def allowed_rows_def report_shape_def row_valid_def known_check_def list_all_iff split: if_splits)

lemma report_passed_iff:
  "report_result_of r = Inr Report_Passed \<longleftrightarrow>
     rp_schema r = REPORT_SCHEMA \<and> rp_completed r \<and> rp_cleanup r = Cleanup_Confirmed
     \<and> distinct (map pc_name (rp_checks r)) \<and> set (map pc_name (rp_checks r)) = set REQUIRED_CHECKS
     \<and> list_all (\<lambda>k. pc_control k = Probe_Allowed \<and> is_denied (pc_confined k) \<and> outcome_valid (pc_confined k)) (rp_checks r)"
    (is "_ \<longleftrightarrow> ?spec")
proof
  assume passed: "report_result_of r = Inr Report_Passed"
  then have shape: "report_shape r" and len: "length (rp_checks r) = length REQUIRED_CHECKS"
    and rows: "list_all row_holds (rp_checks r)" by (auto simp: report_result_Inr report_verdict_def split: if_splits)
  from shape have sub: "set (map pc_name (rp_checks r)) \<subseteq> set REQUIRED_CHECKS"
    by (auto simp: report_shape_def row_valid_def list_all_iff)
  have "card (set (map pc_name (rp_checks r))) = card (set REQUIRED_CHECKS)"
    using shape len required_checks_distinct by (metis distinct_card length_map report_shape_def)
  from card_subset_eq [OF finite_set sub this] passed report_passed_complete [OF passed] shape rows
  show ?spec by (auto simp: report_shape_def row_holds_def row_valid_def list_all_iff)
next
  assume spec: ?spec
  then have shape: "report_shape r" by (auto simp: report_shape_def row_valid_def list_all_iff)
  have "length (map pc_name (rp_checks r)) = length REQUIRED_CHECKS"
    using spec required_checks_distinct by (metis distinct_card)
  moreover have "allowed_rows r = {}" using spec by (auto simp: allowed_rows_def list_all_iff)
  moreover have "list_all row_holds (rp_checks r)" using spec by (auto simp: row_holds_def list_all_iff)
  ultimately show "report_result_of r = Inr Report_Passed"
    using spec shape by (simp add: report_result_Inr report_verdict_def failing_checks_empty report_failures_def)
qed

subsection \<open>Recording a report\<close>

lemma add_failures_keeps: "f \<in> set h \<Longrightarrow> f \<in> set (add_failures d sc ns h)"
  by (induction d sc ns h rule: add_failures.induct) auto

lemma add_failures_origin:
  "f \<in> set (add_failures d sc ns h) \<Longrightarrow> f \<in> set h \<or> (fl_check f \<in> set ns \<and> fl_report_digest f = d \<and> fl_scope f = sc)"
  by (induction d sc ns h rule: add_failures.induct) (force split: if_splits)+

lemma add_failures_has:
  "n \<in> set ns \<Longrightarrow> \<exists>f \<in> set (add_failures d sc ns h). fl_check f = n \<and> fl_scope f = sc"
proof (induction d sc ns h rule: add_failures.induct)
  case (1 d sc h)
  then show ?case by simp
next
  case (2 d sc m ms h)
  let ?h = "if list_ex (\<lambda>f. fl_check f = m \<and> fl_scope f = sc) h then h
        else h @ [\<lparr>fl_check = m, fl_report_digest = d, fl_scope = sc\<rparr>]"
  have "\<exists>f \<in> set ?h. fl_check f = m \<and> fl_scope f = sc" by (auto simp: list_ex_iff)
  then have "\<exists>f \<in> set (add_failures d sc ms ?h). fl_check f = m \<and> fl_scope f = sc"
    using add_failures_keeps by blast
  with 2 show ?case by auto
qed

lemma add_failures_distinct:
  "distinct (map (\<lambda>f. (fl_scope f, fl_check f)) h) \<Longrightarrow> distinct (map (\<lambda>f. (fl_scope f, fl_check f)) (add_failures d sc ns h))"
proof (induction d sc ns h rule: add_failures.induct)
  case (1 d sc h)
  then show ?case by simp
next
  case (2 d sc m ms h)
  then have "distinct (map (\<lambda>f. (fl_scope f, fl_check f)) (if list_ex (\<lambda>f. fl_check f = m \<and> fl_scope f = sc) h then h
      else h @ [\<lparr>fl_check = m, fl_report_digest = d, fl_scope = sc\<rparr>]))"
    by (auto simp: list_ex_iff)
  with 2 show ?case by simp
qed

lemma history_bounded:
  assumes "distinct (map (\<lambda>f. (fl_scope f, fl_check f)) h)" and "\<forall>f \<in> set h. known_check (fl_check f)"
  shows "length h \<le> 2 * (length REQUIRED_CHECKS + 1)"
proof -
  let ?keys = "{Disposable_Guest, Installed_Host} \<times> insert ''cleanup'' (set REQUIRED_CHECKS)"
  have "set (map (\<lambda>f. (fl_scope f, fl_check f)) h) \<subseteq> ?keys"
    using assms(2) by (auto simp: known_check_def intro: report_scope.exhaust)
  then have "card (set (map (\<lambda>f. (fl_scope f, fl_check f)) h)) \<le> card ?keys" by (intro card_mono) auto
  also have "card ?keys = 2 * (length REQUIRED_CHECKS + 1)"
    using cleanup_not_required by (simp only: card_cartesian_product) (simp add: distinct_card [OF required_checks_distinct])
  finally show ?thesis using assms(1) by (metis distinct_card length_map)
qed

lemma history_valid_iff: "history_valid h \<longleftrightarrow> distinct (map (\<lambda>f. (fl_scope f, fl_check f)) h)
    \<and> (\<forall>f \<in> set h. known_check (fl_check f) \<and> is_ok (parse_digest (fl_report_digest f)))"
  using history_bounded [of h] by (auto simp: history_valid_def list_ex_iff not_less)

lemma digest_text_parses: "(\<And>x. length (sha x) = 32) \<Longrightarrow> parse_digest (digest_text (digest_of sha x)) = Inr (digest_of sha x)"
  by (rule parse_digest_spellings(1)) (simp add: digest_of_hex64)

lemma record_report_Inr:
  "record_report c h r = Inr h' \<longleftrightarrow> history_valid h \<and> (\<exists>d. report_digest c r = Inr d \<and> report_shape r
     \<and> h' = (case report_verdict r of
         Report_Passed \<Rightarrow> filter (\<lambda>f. fl_scope f \<noteq> rp_scope r \<or> fl_check f = ''cleanup'') h
       | Report_Incomplete \<Rightarrow> h
       | Report_Failed failures \<Rightarrow> add_failures (digest_text d) (rp_scope r) failures h))"
  by (auto simp: record_report_def andThen_Inr ensure_Inr report_result_Inr)

lemma report_digest_Inr: "report_digest c r = Inr d \<longleftrightarrow>
    report_shape r \<and> length (report_json c r) \<le> MAX_REPORT_BYTES \<and> d = evidence_digest c (report_json c r)"
  by (auto simp: report_digest_def report_bytes_def andThen_Inr ensure_Inr report_result_Inr)

lemma record_report_valid:
  assumes "record_report c h r = Inr h'" and "\<And>x. length (evidence_sha c x) = 32"
  shows "history_valid h'"
proof -
  from assms(1) obtain d where h: "history_valid h" and d: "report_digest c r = Inr d" and shape: "report_shape r"
    and h': "h' = (case report_verdict r of
         Report_Passed \<Rightarrow> filter (\<lambda>f. fl_scope f \<noteq> rp_scope r \<or> fl_check f = ''cleanup'') h
       | Report_Incomplete \<Rightarrow> h
       | Report_Failed failures \<Rightarrow> add_failures (digest_text d) (rp_scope r) failures h)"
    by (auto simp: record_report_Inr)
  show ?thesis
  proof (cases "report_verdict r")
    case (Report_Failed ks)
    have ks: "set ks = report_failures r" using Report_Failed by (auto simp: report_verdict_def split: if_splits)
    have "known_check (fl_check f) \<and> is_ok (parse_digest (fl_report_digest f))"
      if "f \<in> set (add_failures (digest_text d) (rp_scope r) ks h)" for f
      using add_failures_origin [OF that] h ks report_failures_known [OF shape] d digest_text_parses [OF assms(2)]
      by (auto simp: history_valid_iff report_digest_Inr evidence_digest_def)
    with h h' Report_Failed show ?thesis by (simp add: history_valid_iff add_failures_distinct)
  qed (use h h' in \<open>auto simp: history_valid_iff distinct_map_filter\<close>)
qed

subsection \<open>Admission\<close>

lemma passed_guard: "report_result_of r = Inr Report_Passed \<Longrightarrow> list_ex guard_proved (rp_checks r)"
proof -
  assume passed: "report_result_of r = Inr Report_Passed"
  have "SENDER_GUARD_CHECK \<in> set REQUIRED_CHECKS" by (simp add: REQUIRED_CHECKS_def)
  with passed have "SENDER_GUARD_CHECK \<in> pc_name ` set (rp_checks r)" unfolding report_passed_iff by simp
  then obtain k where k: "k \<in> set (rp_checks r)" "pc_name k = SENDER_GUARD_CHECK" by auto
  moreover from this(1) passed have "row_holds k" unfolding report_passed_iff by (simp add: row_holds_def list_all_iff)
  ultimately show ?thesis by (auto simp: list_ex_iff guard_proved_def row_holds_def)
qed

lemma evaluate_no_failures:
  "evaluate_admission c s m q \<noteq> Admission_Refused Containment_Failure \<Longrightarrow> evaluate_admission c s m q \<noteq> Admission_Refused Guard_Unavailable
    \<Longrightarrow> cs_history s = [] \<and> \<not> cs_pending s \<and> (\<exists>x. cs_certificate s = Some x \<and> is_ok (certificate_bytes c x) \<and> ct_host x = m)"
  by (auto simp: evaluate_admission_def split: if_splits option.splits)

lemma evaluate_open:
  assumes "cs_history s = []" and "\<not> cs_pending s" and "cs_certificate s = Some x" and "is_ok (certificate_bytes c x)"
    and "ct_host x = m" and "rp_cleanup (ct_observations x) = Cleanup_Confirmed" and "list_ex guard_proved (rp_checks (ct_observations x))"
  shows "\<exists>d. report_digest c (ct_observations x) = Inr d \<and>
    evaluate_admission c s m q = (if report_result_of (ct_observations x) = Inr Report_Passed then Admitted (digest_text d)
      else if aq_attendance q = Interactive then
        (if aq_waiver q = Some \<lparr>aw_session_id = aq_session_id q, aw_condition = Stale\<rparr> then Admission_Waived Stale (Some (digest_text d))
         else Waivable Stale)
      else Admission_Refused Stale)"
proof -
  from assms(4) obtain b where "report_bytes c (ct_observations x) = Inr b"
    by (auto simp: certificate_bytes_def results)
  then obtain d where d: "report_digest c (ct_observations x) = Inr d" by (auto simp: report_digest_def)
  have w: "(case aq_waiver q of None \<Rightarrow> False | Some w \<Rightarrow> aw_session_id w = aq_session_id q \<and> aw_condition w = Stale)
      \<longleftrightarrow> aq_waiver q = Some \<lparr>aw_session_id = aq_session_id q, aw_condition = Stale\<rparr>"
    by (auto split: option.split)
  show ?thesis
    using assms d w by (intro exI [of _ d]) (simp add: evaluate_admission_def certificate_current_def)
qed

end
