(* ===== verification/Certificate_History.thy ===== *)
theory Certificate_History
  imports Certificate_Store Conformance_Evidence
begin

section \<open>Histories of the certificate store\<close>

text \<open>
  What each operation of the store does to its files and to the state in memory, and the
  histories of certification attempts. \<open>careful\<close> histories drop the open store after an
  operation that failed; the certifier of runner.rs goes on with it.
\<close>

subsection \<open>Effects of the operations\<close>


abbreviation cert_files :: "cert_store \<Rightarrow> string \<Rightarrow> cert_file entry option" where
  "cert_files s \<equiv> lookup_file (cr_disk s)"

lemma bound_keep: "bind_op (keep_state st) k s = k () (s\<lparr>cr_state := st\<rparr>)"
  by (simp add: bind_op_def keep_state_def)

lemma bound_write: "bind_op (cert_write n f) k s = (x, s') \<longleftrightarrow>
    (\<exists>e. cert_write n f s = (Inl e, s') \<and> x = Inl e) \<or> (\<exists>t. cert_write n f s = (Inr (), t) \<and> k () t = (x, s'))"
  by (cases "cert_write n f s"; cases "fst (cert_write n f s)") (auto simp: bind_op_def)

lemma cert_write_effect:
  assumes "cert_write n f s = (x, s')"
  shows "cr_state s' = cr_state s \<and> listable (cr_disk s') = listable (cr_disk s)
    \<and> (x \<noteq> Inr () \<and> cert_files s' = cert_files s \<or> cert_files s' = (cert_files s)(n \<mapsto> Stored f))"
  using assms by (auto simp: cert_write_def write_op_def write_atomic_def Let_def lookup_file_def map_of_put_file map_err_def
      split: prod.splits write_fault.splits)

lemma save_effect:
  assumes "save_state c s = (x, s')"
  shows "cr_state s' = cr_state s \<and> listable (cr_disk s') = listable (cr_disk s)
    \<and> (x \<noteq> Inr () \<and> cert_files s' = cert_files s
       \<or> length (state_json c (cr_state s)) \<le> MAX_STATE_BYTES
          \<and> cert_files s' = (cert_files s)(STATE_FILE \<mapsto> Stored (State_File (cr_state s))))"
  using assms by (auto simp: save_state_def not_less split: if_splits dest: cert_write_effect)

definition unchanged_store :: "cert_store \<Rightarrow> cert_store \<Rightarrow> bool" where
  "unchanged_store s s' \<longleftrightarrow> cr_state s' = cr_state s \<and> cert_files s' = cert_files s"

text \<open>\<open>saved c s st x s'\<close>: the state in memory became \<open>st\<close>, and the save may have reached the disk.\<close>

definition saved ::
  "cert_codec \<Rightarrow> (string \<Rightarrow> cert_file entry option) \<Rightarrow> cert_state \<Rightarrow> certification_error + unit \<Rightarrow> cert_store \<Rightarrow> bool" where
  "saved c before st x s' \<longleftrightarrow> cr_state s' = st
     \<and> (x \<noteq> Inr () \<and> cert_files s' = before
       \<or> length (state_json c st) \<le> MAX_STATE_BYTES \<and> cert_files s' = before(STATE_FILE \<mapsto> Stored (State_File st)))"

lemma save_saved: "save_state c s = (x, s') \<Longrightarrow> saved c (cert_files s) (cr_state s) x s'"
  using save_effect by (auto simp: saved_def)

lemma begin_effect:
  assumes "begin_attempt c h s = (x, s')"
  shows "s' = s \<and> x \<noteq> Inr () \<or>
    is_ok (validate_host h) \<and> length (st_reports (cr_state s)) < 4096 \<and> st_machine (cr_state s) \<in> {None, Some (hs_machine_digest h)}
    \<and> saved c (cert_files s) ((cr_state s)\<lparr>st_machine := Some (hs_machine_digest h), st_pending := True\<rparr>) x s'"
  using assms unfolding begin_attempt_def bound_pure bound_read bound_keep
  by (elim disjE exE conjE) (auto simp: results not_le split: option.splits dest!: save_saved)

lemma observe_effect:
  assumes "observe_report c r s = (x, s')"
  shows "s' = s \<and> x \<noteq> Inr () \<or>
    (\<exists>h. st_pending (cr_state s) \<and> rp_scope r = Installed_Host \<and> \<not> rp_completed r
      \<and> record_report (evidence c) (st_history (cr_state s)) r = Inr h
      \<and> (let st = (cr_state s)\<lparr>st_history := h\<rparr>;
             wrote = (cert_files s)(observations_name (evidence_digest (evidence c) (report_json (evidence c) r)) \<mapsto> Stored (Observation_File r))
         in x \<noteq> Inr () \<and> cr_state s' = st \<and> cert_files s' = cert_files s \<or> saved c wrote st x s'))"
proof -
  let ?n = "observations_name (evidence_digest (evidence c) (report_json (evidence c) r))"
  from assms consider "s' = s" "x \<noteq> Inr ()"
    | h bytes where "st_pending (cr_state s)" "rp_scope r = Installed_Host" "\<not> rp_completed r"
      "record_report (evidence c) (st_history (cr_state s)) r = Inr h" "bytes = report_json (evidence c) r"
      "bind_op (cert_write (observations_name (evidence_digest (evidence c) bytes)) (Observation_File r)) (\<lambda>_. save_state c)
         (s\<lparr>cr_state := (cr_state s)\<lparr>st_history := h\<rparr>\<rparr>) = (x, s')"
    unfolding observe_report_def bound_pure bound_read bound_keep
    by (elim disjE exE conjE) (auto simp: results record_report_Inr report_digest_def report_bytes_def)
  then show ?thesis
  proof cases
    case (2 h bytes)
    let ?s = "s\<lparr>cr_state := (cr_state s)\<lparr>st_history := h\<rparr>\<rparr>"
    from 2(5,6) consider e where "cert_write ?n (Observation_File r) ?s = (Inl e, s')" "x = Inl e"
      | t where "cert_write ?n (Observation_File r) ?s = (Inr (), t)" "save_state c t = (x, s')"
      unfolding bound_write by blast
    then show ?thesis
    proof cases
      case 1
      from cert_write_effect [OF this(1)] this(2) 2(1-4) show ?thesis by (auto simp: Let_def saved_def)
    next
      case (2 t)
      from cert_write_effect [OF 2(1)] save_saved [OF 2(2)] \<open>st_pending (cr_state s)\<close> \<open>rp_scope r = Installed_Host\<close>
        \<open>\<not> rp_completed r\<close> \<open>record_report (evidence c) (st_history (cr_state s)) r = Inr h\<close>
      show ?thesis by (auto simp: Let_def)
    qed
  qed blast
qed

lemma finish_effect:
  assumes "finish_attempt c y s = (x, s')"
  shows "s' = s \<and> x \<noteq> Inr () \<or>
    st_pending (cr_state s) \<and> st_machine (cr_state s) = Some (hs_machine_digest (ct_host y))
    \<and> certificate_bytes (evidence c) y = Inr (certificate_json (evidence c) y)
    \<and> (let text = digest_text (evidence_digest (evidence c) (certificate_json (evidence c) y));
           observed = (cert_files s)(observations_name (evidence_digest (evidence c) (report_json (evidence c) (ct_observations y)))
              \<mapsto> Stored (Observation_File (ct_observations y)))
       in x \<noteq> Inr () \<and> cr_state s' = cr_state s \<and> (cert_files s' = cert_files s \<or> cert_files s' = observed)
        \<or> (\<exists>name. certificate_name text = Inr name \<and>
            (let wrote = observed(name \<mapsto> Stored (Certificate_File y)) in
             x \<noteq> Inr () \<and> cr_state s' = cr_state s \<and> cert_files s' = wrote
             \<or> (\<exists>h. record_report (evidence c) (st_history (cr_state s)) (ct_observations y) = Inr h
                 \<and> saved c wrote ((cr_state s)\<lparr>st_history := h,
                      st_reports := btree_put (host_key c (ct_host y)) text (st_reports (cr_state s)), st_pending := False\<rparr>) x s'))))"
proof -
  let ?r = "ct_observations y"
  let ?n = "observations_name (evidence_digest (evidence c) (report_json (evidence c) ?r))"
  let ?text = "digest_text (evidence_digest (evidence c) (certificate_json (evidence c) y))"
  let ?finished = "\<lambda>st h. st\<lparr>st_history := h, st_reports := btree_put (host_key c (ct_host y)) ?text (st_reports st), st_pending := False\<rparr>"
  let ?rest = "\<lambda>_ :: unit. bind_op (pure (certificate_name ?text)) (\<lambda>name.
     bind_op (cert_write name (Certificate_File y)) (\<lambda>_.
     bind_op (read_op (\<lambda>s. Inr (cr_state s))) (\<lambda>st.
     bind_op (pure (map_err Cert_Report (record_report (evidence c) (st_history st) ?r))) (\<lambda>h.
     bind_op (keep_state (?finished st h)) (\<lambda>_. save_state c)))))"
  from assms consider "s' = s" "x \<noteq> Inr ()"
    | "st_pending (cr_state s)" "st_machine (cr_state s) = Some (hs_machine_digest (ct_host y))"
      "certificate_bytes (evidence c) y = Inr (certificate_json (evidence c) y)"
      "bind_op (cert_write ?n (Observation_File ?r)) ?rest s = (x, s')"
    unfolding finish_attempt_def Let_def bound_pure bound_read
    by (elim disjE exE conjE) (auto simp: results certificate_bytes_def report_bytes_def)
  then show ?thesis
  proof cases
    case 2
    from 2(4) consider e where "cert_write ?n (Observation_File ?r) s = (Inl e, s')" "x = Inl e"
      | t where "cert_write ?n (Observation_File ?r) s = (Inr (), t)" "?rest () t = (x, s')"
      unfolding bound_write by blast
    then show ?thesis
    proof cases
      case 1
      from cert_write_effect [OF this(1)] this(2) 2(1-3) show ?thesis by (auto simp: Let_def)
    next
      case t: (2 t)
      note written = cert_write_effect [OF t(1)]
      from t(2) consider e where "s' = t" "x = Inl e" | name where "certificate_name ?text = Inr name"
          "bind_op (cert_write name (Certificate_File y)) (\<lambda>_. bind_op (read_op (\<lambda>s. Inr (cr_state s))) (\<lambda>st.
             bind_op (pure (map_err Cert_Report (record_report (evidence c) (st_history st) ?r))) (\<lambda>h.
             bind_op (keep_state (?finished st h)) (\<lambda>_. save_state c)))) t = (x, s')"
        unfolding bound_pure [of "certificate_name ?text"] by blast
      then show ?thesis
      proof cases
        case 1
        with written 2(1-3) show ?thesis by (auto simp: Let_def)
      next
        case u: (2 name)
        from u(2) consider e where "cert_write name (Certificate_File y) t = (Inl e, s')" "x = Inl e"
          | v where "cert_write name (Certificate_File y) t = (Inr (), v)"
            "bind_op (read_op (\<lambda>s. Inr (cr_state s))) (\<lambda>st.
             bind_op (pure (map_err Cert_Report (record_report (evidence c) (st_history st) ?r))) (\<lambda>h.
             bind_op (keep_state (?finished st h)) (\<lambda>_. save_state c))) v = (x, s')"
          unfolding bound_write by blast
        then show ?thesis
        proof cases
          case 1
          from cert_write_effect [OF this(1)] this(2) written 2(1-3) u(1) show ?thesis by (auto simp: Let_def)
        next
          case v: (2 v)
          note certified = cert_write_effect [OF v(1)]
          from v(2) consider e where "s' = v" "x = Inl e"
            | h where "record_report (evidence c) (st_history (cr_state v)) ?r = Inr h"
              "save_state c (v\<lparr>cr_state := ?finished (cr_state v) h\<rparr>) = (x, s')"
            unfolding bound_pure bound_read bound_keep by (auto simp: results)
          then show ?thesis
          proof cases
            case 1
            with certified written 2(1-3) u(1) show ?thesis by (auto simp: Let_def)
          next
            case w: (2 h)
            from save_saved [OF w(2)] w(1) certified written 2(1-3) u(1) show ?thesis by (auto simp: Let_def)
          qed
        qed
      qed
    qed
  qed blast
qed

lemma remember_effect:
  assumes "remember_resources a s = (x, s')"
  shows "cr_state s' = cr_state s \<and> (cert_files s' = cert_files s \<or> cert_files s' = (cert_files s)(ATTEMPT_FILE \<mapsto> Stored (Attempt_File a)))"
  using assms unfolding remember_resources_def bound_read by (elim disjE exE conjE) (auto dest: cert_write_effect)

lemma open_effect:
  assumes "open_cert_store c root_user ancestors fresh d = (x, d')"
  shows "(lookup_file d' = lookup_file d \<or> fresh \<and> lookup_file d' = (lookup_file d)(STATE_FILE \<mapsto> Stored (State_File empty_state)))
    \<and> (\<forall>st. x = Inr st \<longrightarrow> read_cert_state c d' = Inr st \<and> \<not> st_pending st)"
  using assms unfolding open_cert_store_def bound_pure bound_read
  by (cases fresh) (auto simp: results bind_op_def pure_def read_op_def split: prod.splits sum.splits dest!: write_op_cases write_atomic_ok)

lemma file_names_differ:
  "observations_name d \<noteq> STATE_FILE" "certificate_name t = Inr n \<Longrightarrow> n \<noteq> STATE_FILE" "ATTEMPT_FILE \<noteq> STATE_FILE"
  "certificate_name t = Inr n \<Longrightarrow> n \<noteq> observations_name d" "ATTEMPT_FILE \<noteq> observations_name d"
  "observations_name d = observations_name d' \<longleftrightarrow> d = d'"
  by (auto simp: observations_name_def certificate_name_def STATE_FILE_def ATTEMPT_FILE_def results)

subsection \<open>Certification histories\<close>

text \<open>
  Besides the directory and the open store, a world has what a reader of the acknowledgements
  knows: the checks that failed in an acknowledged report and that no later finish with a passing
  certificate cleared (an unconfirmed cleanup stays for ever), whether an attempt was begun that no
  later finish ended, and the reports that were handed to the store. A finish counts once it has
  taken the state in memory to its end: it was acknowledged, or it failed in its last save, which
  may have reached the disk.
\<close>

record cert_world =
  cw_disk :: "cert_file disk"
  cw_open :: "cert_state option"
  cw_blocked :: "string set"
  cw_running :: bool
  cw_reports :: "report set"

definition reopen :: "bool \<Rightarrow> certification_error + unit \<Rightarrow> cert_state \<Rightarrow> cert_state option" where
  "reopen careful x st = (if careful \<and> x \<noteq> Inr () then None else Some st)"

definition blocked_after :: "certification_error + unit \<Rightarrow> report \<Rightarrow> string set \<Rightarrow> string set" where
  "blocked_after x r blocked = (if x = Inr () then blocked \<union> report_failures r else blocked)"

definition finish_counts :: "certification_error + unit \<Rightarrow> cert_state \<Rightarrow> cert_state \<Rightarrow> bool" where
  "finish_counts x st st' \<longleftrightarrow> x = Inr () \<or> st' \<noteq> st"

definition cleared_by :: "bool \<Rightarrow> report \<Rightarrow> string set \<Rightarrow> string set" where
  "cleared_by counts r blocked =
     (if counts \<and> report_result_of r = Inr Report_Passed then blocked \<inter> {''cleanup''} else blocked)"

inductive cert_step :: "cert_codec \<Rightarrow> bool \<Rightarrow> cert_world \<Rightarrow> cert_world \<Rightarrow> bool" for c careful where
  opens: "cw_open w = None \<Longrightarrow> (fresh \<Longrightarrow> files (cw_disk w) = []) \<Longrightarrow>
     open_cert_store c root_user ancestors fresh (cw_disk w) = (x, d) \<Longrightarrow>
     cert_step c careful w (w\<lparr>cw_disk := d, cw_open := (case x of Inl _ \<Rightarrow> None | Inr st \<Rightarrow> Some st)\<rparr>)"
| begins: "cw_open w = Some st \<Longrightarrow> begin_attempt c h \<lparr>cr_disk = cw_disk w, cr_state = st\<rparr> = (x, s) \<Longrightarrow>
     cert_step c careful w (w\<lparr>cw_disk := cr_disk s, cw_open := reopen careful x (cr_state s),
       cw_running := (cw_running w \<or> x = Inr ())\<rparr>)"
| observes: "cw_open w = Some st \<Longrightarrow> observe_report c r \<lparr>cr_disk = cw_disk w, cr_state = st\<rparr> = (x, s) \<Longrightarrow>
     cert_step c careful w (w\<lparr>cw_disk := cr_disk s, cw_open := reopen careful x (cr_state s),
       cw_blocked := blocked_after x r (cw_blocked w), cw_reports := insert r (cw_reports w)\<rparr>)"
| takes_note: "cw_open w = Some st \<Longrightarrow> remember_resources a \<lparr>cr_disk = cw_disk w, cr_state = st\<rparr> = (x, s) \<Longrightarrow>
     cert_step c careful w (w\<lparr>cw_disk := cr_disk s, cw_open := reopen careful x (cr_state s)\<rparr>)"
| finishes: "cw_open w = Some st \<Longrightarrow> finish_attempt c y \<lparr>cr_disk = cw_disk w, cr_state = st\<rparr> = (x, s) \<Longrightarrow>
     cert_step c careful w (w\<lparr>cw_disk := cr_disk s, cw_open := reopen careful x (cr_state s),
       cw_running := (cw_running w \<and> \<not> finish_counts x st (cr_state s)),
       cw_blocked := blocked_after x (ct_observations y)
         (cleared_by (finish_counts x st (cr_state s)) (ct_observations y) (cw_blocked w)),
       cw_reports := insert (ct_observations y) (cw_reports w)\<rparr>)"
| drops: "cert_step c careful w (w\<lparr>cw_open := None\<rparr>)"
| around: "files d = files (cw_disk w) \<Longrightarrow> cert_step c careful w (w\<lparr>cw_disk := d\<rparr>)"

definition cert_history where
  "cert_history c careful = (cert_step c careful)\<^sup>*\<^sup>*"

definition new_world :: "cert_world \<Rightarrow> bool" where
  "new_world w \<longleftrightarrow> files (cw_disk w) = [] \<and> cw_open w = None \<and> cw_blocked w = {} \<and> \<not> cw_running w \<and> cw_reports w = {}"

subsection \<open>Acknowledged failures stay\<close>

abbreviation durable_state :: "cert_file disk \<Rightarrow> cert_state \<Rightarrow> bool" where
  "durable_state d st \<equiv> lookup_file d STATE_FILE = Some (Stored (State_File st))"

definition remembers :: "cert_world \<Rightarrow> cert_state \<Rightarrow> bool" where
  "remembers w st \<longleftrightarrow> cw_blocked w \<subseteq> fl_check ` set (st_history st) \<and> (cw_running w \<longrightarrow> st_pending st)"

definition faithful :: "cert_world \<Rightarrow> bool" where
  "faithful w \<longleftrightarrow> (\<forall>st. durable_state (cw_disk w) st \<longrightarrow> remembers w st) \<and> (\<forall>st. cw_open w = Some st \<longrightarrow> remembers w st)
     \<and> (cw_blocked w \<noteq> {} \<or> cw_running w \<longrightarrow> lookup_file (cw_disk w) STATE_FILE \<noteq> None)"

lemma faithfulI:
  assumes "\<And>st. durable_state (cw_disk w) st \<Longrightarrow> remembers w st" and "\<And>st. cw_open w = Some st \<Longrightarrow> remembers w st"
    and "cw_blocked w \<noteq> {} \<or> cw_running w \<Longrightarrow> lookup_file (cw_disk w) STATE_FILE \<noteq> None"
  shows "faithful w"
  using assms unfolding faithful_def by blast

lemma faithfulD:
  assumes "faithful w"
  shows "durable_state (cw_disk w) st \<Longrightarrow> remembers w st" and "cw_open w = Some st \<Longrightarrow> remembers w st"
    and "cw_blocked w \<noteq> {} \<or> cw_running w \<Longrightarrow> lookup_file (cw_disk w) STATE_FILE \<noteq> None"
  using assms unfolding faithful_def by blast+

lemma read_state_durable: "read_cert_state c d = Inr st \<Longrightarrow> durable_state d st"
  by (auto simp: read_cert_state_def read_protected_def results split: option.splits entry.splits cert_file.splits)

lemma record_checks:
  assumes "record_report c h r = Inr h'"
  shows "(report_result_of r \<noteq> Inr Report_Passed \<longrightarrow> fl_check ` set h \<subseteq> fl_check ` set h')
    \<and> fl_check ` set h \<inter> {''cleanup''} \<subseteq> fl_check ` set h' \<and> report_failures r \<subseteq> fl_check ` set h'"
proof -
  from assms obtain d where shape: "report_shape r"
    and h': "h' = (case report_verdict r of
         Report_Passed \<Rightarrow> filter (\<lambda>f. fl_scope f \<noteq> rp_scope r \<or> fl_check f = ''cleanup'') h
       | Report_Incomplete \<Rightarrow> h
       | Report_Failed failures \<Rightarrow> add_failures (digest_text d) (rp_scope r) failures h)"
    by (auto simp: record_report_Inr)
  show ?thesis
  proof (cases "report_verdict r")
    case (Report_Failed ks)
    then have ks: "set ks = report_failures r" by (auto simp: report_verdict_def split: if_splits)
    have "fl_check ` set h \<subseteq> fl_check ` set h'" using h' Report_Failed by (auto intro: add_failures_keeps)
    moreover have "report_failures r \<subseteq> fl_check ` set h'"
      using h' Report_Failed add_failures_has [of _ ks "digest_text d" "rp_scope r" h] ks by force
    ultimately show ?thesis by blast
  qed (use h' shape in \<open>auto simp: report_result_Inr report_verdict_def failing_checks_empty split: if_splits\<close>)
qed

text \<open>The common part of an operation that ends in a save of a state that remembers everything.\<close>

lemma faithful_saved:
  assumes "faithful w" and "saved c before st x s" and "before STATE_FILE = lookup_file (cw_disk w) STATE_FILE"
    and "cw_disk w' = cr_disk s" and "cw_open w' = None \<or> cw_open w' = Some st" and "remembers w' st"
    and "\<And>st. remembers w st \<Longrightarrow> x \<noteq> Inr () \<Longrightarrow> remembers w' st"
    and "cw_blocked w' \<noteq> {} \<or> cw_running w' \<Longrightarrow> x = Inr () \<or> cw_blocked w \<noteq> {} \<or> cw_running w"
  shows "faithful w'"
proof (rule faithfulI)
  fix st' assume d: "durable_state (cw_disk w') st'"
  from assms(2) consider "x \<noteq> Inr ()" "cert_files s = before" | "cert_files s = before(STATE_FILE \<mapsto> Stored (State_File st))"
    by (auto simp: saved_def)
  then show "remembers w' st'"
  proof cases
    case 1
    with d assms(3,4) have "durable_state (cw_disk w) st'" by simp
    with assms(7) [OF faithfulD(1) [OF assms(1)]] 1 show ?thesis by blast
  next
    case 2
    with d assms(4,6) show ?thesis by simp
  qed
next
  fix st' assume "cw_open w' = Some st'"
  with assms(5,6) show "remembers w' st'" by auto
next
  assume "cw_blocked w' \<noteq> {} \<or> cw_running w'"
  with assms(8) consider "x = Inr ()" | "cw_blocked w \<noteq> {} \<or> cw_running w" by blast
  then show "lookup_file (cw_disk w') STATE_FILE \<noteq> None"
  proof cases
    case 1
    with assms(2,4) show ?thesis by (auto simp: saved_def)
  next
    case 2
    from faithfulD(3) [OF assms(1) 2] assms(2-4) show ?thesis by (auto simp: saved_def)
  qed
qed

text \<open>The common part of an operation that leaves the state file and the state in memory alone.\<close>

lemma faithful_kept:
  assumes "faithful w" and "lookup_file (cw_disk w') STATE_FILE = lookup_file (cw_disk w) STATE_FILE"
    and "cw_open w' = None \<or> cw_open w' = cw_open w \<or> (\<exists>st. cw_open w' = Some st \<and> remembers w' st)"
    and "cw_blocked w' \<subseteq> cw_blocked w" and "cw_running w' \<Longrightarrow> cw_running w"
  shows "faithful w'"
proof -
  have less: "remembers w st \<Longrightarrow> remembers w' st" for st using assms(4,5) unfolding remembers_def by blast
  show ?thesis
  proof (rule faithfulI)
    fix st assume "durable_state (cw_disk w') st"
    with assms(2) faithfulD(1) [OF assms(1)] less show "remembers w' st" by simp
  next
    fix st assume st: "cw_open w' = Some st"
    with assms(3) consider "cw_open w = Some st" | "remembers w' st" by auto
    then show "remembers w' st" using faithfulD(2) [OF assms(1)] less by cases auto
  next
    assume "cw_blocked w' \<noteq> {} \<or> cw_running w'"
    with assms(4,5) have "cw_blocked w \<noteq> {} \<or> cw_running w" by blast
    from faithfulD(3) [OF assms(1) this] assms(2) show "lookup_file (cw_disk w') STATE_FILE \<noteq> None" by simp
  qed
qed

lemma reopen_cases: "reopen careful x st = None \<or> reopen careful x st = Some st"
  by (simp add: reopen_def)

lemma faithful_observed:
  assumes "faithful w" and "cw_open w = Some st" and "observe_report c r \<lparr>cr_disk = cw_disk w, cr_state = st\<rparr> = (x, s)"
  shows "faithful (w\<lparr>cw_disk := cr_disk s, cw_open := reopen careful x (cr_state s),
    cw_blocked := blocked_after x r (cw_blocked w), cw_reports := insert r (cw_reports w)\<rparr>)" (is "faithful ?w")
proof -
  let ?n = "observations_name (evidence_digest (evidence c) (report_json (evidence c) r))"
  have remembered: "remembers w st" using faithfulD(2) [OF assms(1,2)] .
  from observe_effect [OF assms(3)] consider "s = \<lparr>cr_disk = cw_disk w, cr_state = st\<rparr>" "x \<noteq> Inr ()"
    | h where "\<not> rp_completed r" "record_report (evidence c) (st_history st) r = Inr h"
      "x \<noteq> Inr ()" "cr_state s = st\<lparr>st_history := h\<rparr>" "cert_files s = lookup_file (cw_disk w)"
    | h where "\<not> rp_completed r" "record_report (evidence c) (st_history st) r = Inr h"
      "saved c ((lookup_file (cw_disk w))(?n \<mapsto> Stored (Observation_File r))) (st\<lparr>st_history := h\<rparr>) x s"
    by (auto simp: Let_def)
  then show ?thesis
  proof cases
    case 1
    show ?thesis
      by (rule faithful_kept [OF assms(1)]) (use 1 assms(2) in \<open>auto simp: blocked_after_def reopen_def\<close>)
  next
    case (2 h)
    have "report_result_of r \<noteq> Inr Report_Passed" using report_passed_complete 2(1) by blast
    with record_checks [OF 2(2)] remembered have "remembers w (st\<lparr>st_history := h\<rparr>)" by (auto simp: remembers_def)
    with 2(3) have "remembers ?w (st\<lparr>st_history := h\<rparr>)" by (auto simp: remembers_def blocked_after_def)
    then show ?thesis
      by (intro faithful_kept [OF assms(1)]) (use 2 in \<open>auto simp: blocked_after_def reopen_def\<close>)
  next
    case (3 h)
    have "report_result_of r \<noteq> Inr Report_Passed" using report_passed_complete 3(1) by blast
    with record_checks [OF 3(2)] remembered have new: "remembers ?w (st\<lparr>st_history := h\<rparr>)"
      by (auto simp: remembers_def blocked_after_def)
    show ?thesis
      by (rule faithful_saved [OF assms(1) 3(3)])
        (use new 3(3) file_names_differ(1) [THEN not_sym] in \<open>auto simp: reopen_def saved_def remembers_def blocked_after_def\<close>)
  qed
qed

lemma faithful_begun:
  assumes "faithful w" and "cw_open w = Some st" and "begin_attempt c h \<lparr>cr_disk = cw_disk w, cr_state = st\<rparr> = (x, s)"
  shows "faithful (w\<lparr>cw_disk := cr_disk s, cw_open := reopen careful x (cr_state s),
    cw_running := (cw_running w \<or> x = Inr ())\<rparr>)" (is "faithful ?w")
proof -
  let ?st = "st\<lparr>st_machine := Some (hs_machine_digest h), st_pending := True\<rparr>"
  have remembered: "remembers w st" using faithfulD(2) [OF assms(1,2)] .
  from begin_effect [OF assms(3)] consider "s = \<lparr>cr_disk = cw_disk w, cr_state = st\<rparr>" "x \<noteq> Inr ()"
    | "saved c (lookup_file (cw_disk w)) ?st x s" by auto
  then show ?thesis
  proof cases
    case 1
    show ?thesis by (rule faithful_kept [OF assms(1)]) (use 1 assms(2) in \<open>auto simp: reopen_def\<close>)
  next
    case 2
    from remembered have new: "remembers ?w ?st" by (auto simp: remembers_def)
    show ?thesis
      by (rule faithful_saved [OF assms(1) 2]) (use new 2 in \<open>auto simp: reopen_def saved_def remembers_def\<close>)
  qed
qed

text \<open>The end of an attempt, seen from the state file.\<close>

lemma finish_cases:
  assumes "finish_attempt c y s = (x, s')"
  obtains (kept) "x \<noteq> Inr ()" "cr_state s' = cr_state s" "cert_files s' STATE_FILE = cert_files s STATE_FILE"
    | (wrote) h before where "st_pending (cr_state s)" "record_report (evidence c) (st_history (cr_state s)) (ct_observations y) = Inr h"
      "before STATE_FILE = cert_files s STATE_FILE"
      "saved c before ((cr_state s)\<lparr>st_history := h, st_reports := btree_put (host_key c (ct_host y))
         (digest_text (evidence_digest (evidence c) (certificate_json (evidence c) y))) (st_reports (cr_state s)), st_pending := False\<rparr>) x s'"
proof -
  let ?text = "digest_text (evidence_digest (evidence c) (certificate_json (evidence c) y))"
  let ?o = "observations_name (evidence_digest (evidence c) (report_json (evidence c) (ct_observations y)))"
  note other = file_names_differ(1) [of "evidence_digest (evidence c) (report_json (evidence c) (ct_observations y))"]
  from finish_effect [OF assms] show thesis unfolding Let_def
  proof (elim disjE conjE exE)
    assume "s' = s" "x \<noteq> Inr ()"
    then show thesis by (intro kept) simp_all
  next
    assume "x \<noteq> Inr ()" "cr_state s' = cr_state s" "cert_files s' = cert_files s"
    then show thesis by (intro kept) simp_all
  next
    assume "x \<noteq> Inr ()" "cr_state s' = cr_state s" "cert_files s' = (cert_files s)(?o \<mapsto> Stored (Observation_File (ct_observations y)))"
    with other show thesis by (intro kept) simp_all
  next
    fix name assume "certificate_name ?text = Inr name" "x \<noteq> Inr ()" "cr_state s' = cr_state s"
      "cert_files s' = (cert_files s)(?o \<mapsto> Stored (Observation_File (ct_observations y)), name \<mapsto> Stored (Certificate_File y))"
    with other file_names_differ(2) [of ?text name] show thesis by (intro kept) simp_all
  next
    fix name h assume pending: "st_pending (cr_state s)" and name: "certificate_name ?text = Inr name"
      and h: "record_report (evidence c) (st_history (cr_state s)) (ct_observations y) = Inr h"
      and s: "saved c ((cert_files s)(?o \<mapsto> Stored (Observation_File (ct_observations y)), name \<mapsto> Stored (Certificate_File y)))
        ((cr_state s)\<lparr>st_history := h, st_reports := btree_put (host_key c (ct_host y)) ?text (st_reports (cr_state s)),
          st_pending := False\<rparr>) x s'"
    show thesis by (rule wrote [OF pending h _ s]) (use other file_names_differ(2) [OF name] in simp)
  qed
qed

lemma cleared_subset: "cleared_by b r blocked \<subseteq> blocked"
  by (auto simp: cleared_by_def)

lemma cleared_not [simp]: "cleared_by False r blocked = blocked"
  by (simp add: cleared_by_def)

lemma finish_remembers:
  assumes "record_report c (st_history st) r = Inr h" and "remembers w st"
  shows "blocked_after x r (cleared_by True r (cw_blocked w)) \<subseteq> fl_check ` set h"
proof -
  have old: "cw_blocked w \<subseteq> fl_check ` set (st_history st)" using assms(2) by (simp add: remembers_def)
  with record_checks [OF assms(1)] have "cleared_by True r (cw_blocked w) \<subseteq> fl_check ` set h"
    by (auto simp: cleared_by_def)
  with record_checks [OF assms(1)] show ?thesis by (simp add: blocked_after_def)
qed

lemma faithful_finished:
  assumes "faithful w" and "cw_open w = Some st" and "finish_attempt c y \<lparr>cr_disk = cw_disk w, cr_state = st\<rparr> = (x, s)"
  shows "faithful (w\<lparr>cw_disk := cr_disk s, cw_open := reopen careful x (cr_state s),
    cw_running := (cw_running w \<and> \<not> finish_counts x st (cr_state s)),
    cw_blocked := blocked_after x (ct_observations y)
      (cleared_by (finish_counts x st (cr_state s)) (ct_observations y) (cw_blocked w)),
    cw_reports := insert (ct_observations y) (cw_reports w)\<rparr>)" (is "faithful ?w")
proof -
  let ?r = "ct_observations y"
  let ?text = "digest_text (evidence_digest (evidence c) (certificate_json (evidence c) y))"
  let ?st = "\<lambda>h. st\<lparr>st_history := h, st_reports := btree_put (host_key c (ct_host y)) ?text (st_reports st), st_pending := False\<rparr>"
  have remembered: "remembers w st" using faithfulD(2) [OF assms(1,2)] .
  from assms(3) consider
    "x \<noteq> Inr ()" "cr_state s = st" "cert_files s STATE_FILE = lookup_file (cw_disk w) STATE_FILE"
    | h before where "st_pending st" "record_report (evidence c) (st_history st) ?r = Inr h"
      "before STATE_FILE = lookup_file (cw_disk w) STATE_FILE" "saved c before (?st h) x s"
    by (rule finish_cases) auto
  then show ?thesis
  proof cases
    case 1
    then have same: "finish_counts x st (cr_state s) = False" by (simp add: finish_counts_def)
    with 1(1) have block: "cw_blocked ?w = cw_blocked w" by (simp add: blocked_after_def)
    with remembered have "remembers ?w st" by (simp add: remembers_def)
    with 1(2) have "cw_open ?w = None \<or> (\<exists>st. cw_open ?w = Some st \<and> remembers ?w st)"
      using reopen_cases [of careful x st] by auto
    then show ?thesis
      by (intro faithful_kept [OF assms(1)]) (use 1(3) block in \<open>auto\<close>)
  next
    case (2 h before)
    have st: "cr_state s = ?st h" using 2(4) by (simp add: saved_def)
    have "st_pending (?st h) \<noteq> st_pending st" using 2(1) by simp
    with st have counts: "finish_counts x st (cr_state s) = True" unfolding finish_counts_def by metis
    have same: "remembers w st \<Longrightarrow> x \<noteq> Inr () \<Longrightarrow> remembers ?w st" for st
      using cleared_subset [of True ?r "cw_blocked w"] by (auto simp: counts remembers_def blocked_after_def)
    have new: "remembers ?w (?st h)"
      unfolding remembers_def using finish_remembers [OF 2(2) remembered, of x] by (simp add: counts)
    show ?thesis
    proof (rule faithful_saved [OF assms(1) 2(4,3)])
      show "cw_open ?w = None \<or> cw_open ?w = Some (?st h)" using reopen_cases [of careful x] st by simp
      show "cw_blocked ?w \<noteq> {} \<or> cw_running ?w \<Longrightarrow> x = Inr () \<or> cw_blocked w \<noteq> {} \<or> cw_running w"
        using cleared_subset [of True ?r "cw_blocked w"] by (auto simp: counts blocked_after_def split: if_splits)
    qed (use new same in simp_all)
  qed
qed

lemma faithful_step: "cert_step c careful w w' \<Longrightarrow> faithful w \<Longrightarrow> faithful w'"
proof (induction rule: cert_step.induct)
  case (opens w fresh root_user ancestors x d)
  note effect = open_effect [OF opens(3)]
  show ?case
  proof (cases "lookup_file d = lookup_file (cw_disk w)")
    case True
    show ?thesis
    proof (rule faithful_kept [OF opens(4)])
      show "cw_open (w\<lparr>cw_disk := d, cw_open := case x of Inl _ \<Rightarrow> None | Inr st \<Rightarrow> Some st\<rparr>) = None
          \<or> cw_open (w\<lparr>cw_disk := d, cw_open := case x of Inl _ \<Rightarrow> None | Inr st \<Rightarrow> Some st\<rparr>) = cw_open w
          \<or> (\<exists>st. cw_open (w\<lparr>cw_disk := d, cw_open := case x of Inl _ \<Rightarrow> None | Inr st \<Rightarrow> Some st\<rparr>) = Some st
               \<and> remembers (w\<lparr>cw_disk := d, cw_open := case x of Inl _ \<Rightarrow> None | Inr st \<Rightarrow> Some st\<rparr>) st)"
      proof (cases x)
        case (Inr st)
        with effect have "durable_state d st" by (auto dest: read_state_durable)
        with True faithfulD(1) [OF opens(4)] have "remembers w st" by simp
        with Inr show ?thesis by (auto simp: remembers_def)
      qed simp
    qed (simp_all add: True)
  next
    case False
    with effect have fresh: "fresh" and d: "lookup_file d = (lookup_file (cw_disk w))(STATE_FILE \<mapsto> Stored (State_File empty_state))" by auto
    have "lookup_file (cw_disk w) STATE_FILE = None" using opens(2) [OF fresh] by (simp add: lookup_file_def)
    with faithfulD(3) [OF opens(4)] have none: "cw_blocked w = {}" "\<not> cw_running w" by blast+
    show ?thesis
      by (rule faithfulI) (use none d in \<open>auto simp: remembers_def\<close>)
  qed
next
  case (begins w st h x s)
  then show ?case by (intro faithful_begun)
next
  case (observes w st r x s)
  then show ?case by (intro faithful_observed)
next
  case (takes_note w st a x s)
  from remember_effect [OF takes_note(2)] have "cr_state s = st" "cert_files s STATE_FILE = lookup_file (cw_disk w) STATE_FILE"
    using file_names_differ(3) by auto
  then show ?case by (intro faithful_kept [OF takes_note(3)]) (use takes_note(1) in \<open>auto simp: reopen_def\<close>)
next
  case (finishes w st y x s)
  then show ?case by (intro faithful_finished)
next
  case (drops w)
  then show ?case by (rule faithful_kept) auto
next
  case (around d w)
  have "lookup_file d = lookup_file (cw_disk w)" using around(1) by (simp add: lookup_file_def)
  then show ?case by (intro faithful_kept [OF around(2)]) auto
qed

lemma faithful_history: "cert_history c careful w w' \<Longrightarrow> faithful w \<Longrightarrow> faithful w'"
  unfolding cert_history_def by (induction rule: rtranclp_induct) (blast intro: faithful_step)+

lemma new_world_faithful: "new_world w \<Longrightarrow> faithful w"
  by (rule faithfulI) (auto simp: new_world_def lookup_file_def)

end
