(* ===== verification/Certificate_Recovery.thy ===== *)
theory Certificate_Recovery
  imports Certificate_History
begin

section \<open>Recovery of the certificate store\<close>

text \<open>
  A careful history keeps the store readable as long as no two different reports collide under
  SHA-256, and from a readable store without faults a new attempt runs to its end.
\<close>

subsection \<open>The store stays readable\<close>

definition evidence_collision :: "cert_codec \<Rightarrow> report set \<Rightarrow> bool" where
  "evidence_collision c R \<longleftrightarrow> (\<exists>r \<in> R. \<exists>r' \<in> R. r \<noteq> r'
     \<and> evidence_digest (evidence c) (report_json (evidence c) r) = evidence_digest (evidence c) (report_json (evidence c) r'))"

abbreviation report_file :: "cert_codec \<Rightarrow> report \<Rightarrow> string" where
  "report_file c r \<equiv> observations_name (evidence_digest (evidence c) (report_json (evidence c) r))"

definition backed :: "cert_codec \<Rightarrow> (string \<Rightarrow> cert_file entry option) \<Rightarrow> report set \<Rightarrow> check_failure \<Rightarrow> bool" where
  "backed c look R f \<longleftrightarrow> fl_scope f = Installed_Host \<and> (\<exists>r \<in> R. look (report_file c r) = Some (Stored (Observation_File r))
     \<and> is_ok (report_bytes (evidence c) r) \<and> rp_scope r = Installed_Host \<and> fl_check f \<in> report_failures r
     \<and> fl_report_digest f = digest_text (evidence_digest (evidence c) (report_json (evidence c) r)))"

definition sound_state :: "cert_codec \<Rightarrow> (string \<Rightarrow> cert_file entry option) \<Rightarrow> report set \<Rightarrow> cert_state \<Rightarrow> bool" where
  "sound_state c look R st \<longleftrightarrow> state_shape c st \<and> (st_pending st \<longrightarrow> length (st_reports st) < 4096)
     \<and> history_valid (st_history st) \<and> (\<forall>f \<in> set (st_history st). backed c look R f)"

text \<open>\<open>keeps_reports\<close>: whatever report file was there still is, up to writing a report under its own name.\<close>

definition keeps_reports ::
  "cert_codec \<Rightarrow> report set \<Rightarrow> (string \<Rightarrow> cert_file entry option) \<Rightarrow> (string \<Rightarrow> cert_file entry option) \<Rightarrow> bool" where
  "keeps_reports c R look look' \<longleftrightarrow> (\<forall>r \<in> R. look (report_file c r) = Some (Stored (Observation_File r)) \<longrightarrow>
     look' (report_file c r) = Some (Stored (Observation_File r)))"

lemma keeps_reports_refl: "keeps_reports c R look look"
  by (simp add: keeps_reports_def)

lemma keeps_reports_other: "(\<And>d. n \<noteq> observations_name d) \<Longrightarrow> keeps_reports c R look (look(n \<mapsto> e))"
  by (auto simp: keeps_reports_def)

lemma keeps_reports_own:
  assumes "\<not> evidence_collision c (insert r R)"
  shows "keeps_reports c R look (look(report_file c r \<mapsto> Stored (Observation_File r)))"
  using assms by (auto simp: keeps_reports_def evidence_collision_def file_names_differ(6))

lemma keeps_reports_trans: "keeps_reports c R l1 l2 \<Longrightarrow> keeps_reports c R l2 l3 \<Longrightarrow> keeps_reports c R l1 l3"
  by (simp add: keeps_reports_def)

lemma sound_state_kept: "sound_state c look R st \<Longrightarrow> keeps_reports c R look look' \<Longrightarrow> R \<subseteq> R' \<Longrightarrow> sound_state c look' R' st"
  unfolding sound_state_def backed_def keeps_reports_def by (meson subsetD)

lemma sound_state_recorded:
  assumes "sound_state c look R st" and "record_report (evidence c) (st_history st) r = Inr h" and "rp_scope r = Installed_Host"
    and "\<And>x. length (evidence_sha (evidence c) x) = 32" and "\<not> evidence_collision c (insert r R)"
    and "look' = look(report_file c r \<mapsto> Stored (Observation_File r))"
  shows "sound_state c look' (insert r R) (st\<lparr>st_history := h\<rparr>)"
proof -
  from assms(2) obtain d where d: "report_digest (evidence c) r = Inr d" and shape: "report_shape r"
    and h: "h = (case report_verdict r of
         Report_Passed \<Rightarrow> filter (\<lambda>f. fl_scope f \<noteq> rp_scope r \<or> fl_check f = ''cleanup'') (st_history st)
       | Report_Incomplete \<Rightarrow> st_history st
       | Report_Failed failures \<Rightarrow> add_failures (digest_text d) (rp_scope r) failures (st_history st))"
    by (auto simp: record_report_Inr)
  from d have bytes: "is_ok (report_bytes (evidence c) r)" and dd: "d = evidence_digest (evidence c) (report_json (evidence c) r)"
    by (auto simp: report_digest_def results report_bytes_def)
  from sound_state_kept [OF assms(1) keeps_reports_own [OF assms(5), of look], of "insert r R"] assms(6)
  have old: "sound_state c look' (insert r R) st" by auto
  have "backed c look' (insert r R) f" if f: "f \<in> set h" for f
  proof (cases "f \<in> set (st_history st)")
    case True
    with old show ?thesis by (simp add: sound_state_def)
  next
    case False
    with f h obtain ks where ks: "report_verdict r = Report_Failed ks" "f \<in> set (add_failures (digest_text d) (rp_scope r) ks (st_history st))"
      by (auto split: report_result.splits)
    from ks(1) have "set ks = report_failures r" by (auto simp: report_verdict_def split: if_splits)
    with add_failures_origin [OF ks(2)] False assms(3,6) bytes dd show ?thesis unfolding backed_def by auto
  qed
  with old record_report_valid [OF assms(2,4)] show ?thesis by (auto simp: sound_state_def state_shape_def)
qed

lemma read_failure_backed:
  assumes "backed c (lookup_file d) R f" and "\<And>x. length (evidence_sha (evidence c) x) = 32"
  shows "read_failure c d f = Inr ()"
proof -
  from assms(1) obtain r where r: "lookup_file d (report_file c r) = Some (Stored (Observation_File r))"
    "is_ok (report_bytes (evidence c) r)" "rp_scope r = Installed_Host" "fl_check f \<in> report_failures r"
    "fl_report_digest f = digest_text (evidence_digest (evidence c) (report_json (evidence c) r))" by (auto simp: backed_def)
  from r(2) have bytes: "report_bytes (evidence c) r = Inr (report_json (evidence c) r)" and shape: "report_shape r"
    by (auto simp: report_bytes_def results report_result_Inr)
  from r(4) have verdict: "report_result_of r = Inr (Report_Failed (failing_checks r))"
    using shape by (auto simp: report_result_Inr report_verdict_def failing_checks_empty)
  have parse: "parse_digest (digest_text (evidence_digest (evidence c) x)) = Inr (evidence_digest (evidence c) x)" for x
    unfolding evidence_digest_def by (rule digest_text_parses [OF assms(2)])
  show ?thesis using r bytes verdict parse by (simp add: read_failure_def read_protected_def)
qed

lemma read_state_sound:
  assumes "durable_state d st" and "sound_state c (lookup_file d) R st" and "length (state_json c st) \<le> MAX_STATE_BYTES"
    and "\<And>x. length (evidence_sha (evidence c) x) = 32" and "length (report_json (evidence c) incomplete_report) \<le> MAX_REPORT_BYTES"
  shows "read_cert_state c d = Inr st"
proof -
  have "report_shape incomplete_report" by (simp add: report_shape_def incomplete_report_def)
  then have recorded: "\<exists>h. record_report (evidence c) (st_history st) incomplete_report = Inr h"
    using assms(2,5) by (simp add: record_report_Inr sound_state_def report_digest_Inr)
  have "read_failures c d fs = Inr ()" if "\<forall>f \<in> set fs. backed c (lookup_file d) R f" for fs
    using that by (induction fs) (simp_all add: read_failure_backed [OF _ assms(4), of d R])
  with assms(1-3) recorded show ?thesis
    by (auto simp: read_cert_state_def read_protected_def sound_state_def list_ex_iff backed_def)
qed

definition readable_world :: "cert_codec \<Rightarrow> cert_world \<Rightarrow> bool" where
  "readable_world c w \<longleftrightarrow> \<not> evidence_collision c (cw_reports w) \<longrightarrow>
     (\<forall>st. durable_state (cw_disk w) st \<longrightarrow> sound_state c (lookup_file (cw_disk w)) (cw_reports w) st \<and> length (state_json c st) \<le> MAX_STATE_BYTES)
     \<and> (\<forall>st. cw_open w = Some st \<longrightarrow> sound_state c (lookup_file (cw_disk w)) (cw_reports w) st)
     \<and> (\<forall>e. lookup_file (cw_disk w) STATE_FILE = Some e \<longrightarrow> (\<exists>st. e = Stored (State_File st)))"

definition certifier_codec :: "cert_codec \<Rightarrow> bool" where
  "certifier_codec c \<longleftrightarrow> (\<forall>x. length (evidence_sha (evidence c) x) = 32)
     \<and> length (report_json (evidence c) incomplete_report) \<le> MAX_REPORT_BYTES
     \<and> length (state_json c empty_state) \<le> MAX_STATE_BYTES"

lemma codecD:
  assumes "certifier_codec c"
  shows "length (evidence_sha (evidence c) x) = 32" and "length (report_json (evidence c) incomplete_report) \<le> MAX_REPORT_BYTES"
    and "length (state_json c empty_state) \<le> MAX_STATE_BYTES"
    and "parse_digest (digest_text (evidence_digest (evidence c) x)) = Inr (evidence_digest (evidence c) x)"
  using assms digest_text_parses [of "evidence_sha (evidence c)"] by (simp_all add: certifier_codec_def evidence_digest_def)

lemma collision_mono: "\<not> evidence_collision c R' \<Longrightarrow> R \<subseteq> R' \<Longrightarrow> \<not> evidence_collision c R"
  unfolding evidence_collision_def by blast

lemma readableI:
  assumes "\<And>st. \<not> evidence_collision c (cw_reports w) \<Longrightarrow> durable_state (cw_disk w) st \<Longrightarrow>
        sound_state c (lookup_file (cw_disk w)) (cw_reports w) st \<and> length (state_json c st) \<le> MAX_STATE_BYTES"
    and "\<And>st. \<not> evidence_collision c (cw_reports w) \<Longrightarrow> cw_open w = Some st \<Longrightarrow> sound_state c (lookup_file (cw_disk w)) (cw_reports w) st"
    and "\<And>e. \<not> evidence_collision c (cw_reports w) \<Longrightarrow> lookup_file (cw_disk w) STATE_FILE = Some e \<Longrightarrow> \<exists>st. e = Stored (State_File st)"
  shows "readable_world c w"
  using assms unfolding readable_world_def by blast

lemma readableD:
  assumes "readable_world c w" and "\<not> evidence_collision c R" and "cw_reports w \<subseteq> R"
  shows "durable_state (cw_disk w) st \<Longrightarrow> sound_state c (lookup_file (cw_disk w)) (cw_reports w) st \<and> length (state_json c st) \<le> MAX_STATE_BYTES"
    and "cw_open w = Some st \<Longrightarrow> sound_state c (lookup_file (cw_disk w)) (cw_reports w) st"
    and "lookup_file (cw_disk w) STATE_FILE = Some e \<Longrightarrow> \<exists>st. e = Stored (State_File st)"
  using assms collision_mono [OF assms(2,3)] unfolding readable_world_def by blast+

text \<open>
  An operation wrote some files and perhaps the state; the files written keep the reports, and
  the state it saved, if any, is sound with them.
\<close>

lemma readable_wrote:
  assumes w: "readable_world c w"
    and grow: "cw_reports w \<subseteq> cw_reports w'"
    and keeps: "\<not> evidence_collision c (cw_reports w') \<Longrightarrow> keeps_reports c (cw_reports w) (lookup_file (cw_disk w)) (lookup_file (cw_disk w'))"
    and state: "lookup_file (cw_disk w') STATE_FILE = lookup_file (cw_disk w) STATE_FILE
      \<or> (\<exists>st. lookup_file (cw_disk w') STATE_FILE = Some (Stored (State_File st)) \<and> length (state_json c st) \<le> MAX_STATE_BYTES
           \<and> (\<not> evidence_collision c (cw_reports w') \<longrightarrow> sound_state c (lookup_file (cw_disk w')) (cw_reports w') st))"
    and handle: "\<And>st. cw_open w' = Some st \<Longrightarrow> \<not> evidence_collision c (cw_reports w') \<Longrightarrow>
      cw_open w = Some st \<or> sound_state c (lookup_file (cw_disk w')) (cw_reports w') st"
  shows "readable_world c w'"
proof (rule readableI)
  fix st assume free: "\<not> evidence_collision c (cw_reports w')" and d: "durable_state (cw_disk w') st"
  show "sound_state c (lookup_file (cw_disk w')) (cw_reports w') st \<and> length (state_json c st) \<le> MAX_STATE_BYTES"
  proof (cases "lookup_file (cw_disk w') STATE_FILE = lookup_file (cw_disk w) STATE_FILE")
    case True
    with d readableD(1) [OF w free grow] sound_state_kept [OF _ keeps [OF free] grow] show ?thesis by auto
  next
    case False
    with state d free show ?thesis by auto
  qed
next
  fix st assume free: "\<not> evidence_collision c (cw_reports w')" and st: "cw_open w' = Some st"
  from handle [OF st free] readableD(2) [OF w free grow] sound_state_kept [OF _ keeps [OF free] grow]
  show "sound_state c (lookup_file (cw_disk w')) (cw_reports w') st" by blast
next
  fix e assume free: "\<not> evidence_collision c (cw_reports w')" and e: "lookup_file (cw_disk w') STATE_FILE = Some e"
  from state e readableD(3) [OF w free grow] show "\<exists>st. e = Stored (State_File st)" by auto
qed

lemma sound_state_file:
  assumes "sound_state c look R st"
  shows "sound_state c (look(STATE_FILE \<mapsto> e)) R st"
  by (rule sound_state_kept [OF assms keeps_reports_other]) (simp_all add: file_names_differ(1) [THEN not_sym])

lemma state_shape_begun:
  assumes "state_shape c st" and "validate_host h = Inr u"
  shows "state_shape c (st\<lparr>st_machine := Some (hs_machine_digest h), st_pending := True\<rparr>)"
  using assms by (auto simp: state_shape_def validate_host_def results)


lemma sound_state_finished:
  assumes "sound_state c look R st" and "st_pending st" and "certifier_codec c"
  shows "sound_state c look R (st\<lparr>st_reports := btree_put (host_key c h) (digest_text (evidence_digest (evidence c) b)) (st_reports st),
    st_pending := False\<rparr>)"
proof -
  have key: "is_ok (parse_digest (host_key c h))" by (simp add: host_key_def codecD(4) [OF assms(3)])
  have entries: "set (btree_put (host_key c h) (digest_text (evidence_digest (evidence c) b)) (st_reports st))
      \<subseteq> insert (host_key c h, digest_text (evidence_digest (evidence c) b)) (set (st_reports st))" by (rule btree_put_entries)
  have "length (btree_put (host_key c h) (digest_text (evidence_digest (evidence c) b)) (st_reports st)) \<le> 4096"
    using assms(1,2) btree_put_length [of "host_key c h" "digest_text (evidence_digest (evidence c) b)" "st_reports st"]
    by (simp add: sound_state_def)
  with assms(1) key entries codecD(4) [OF assms(3)] show ?thesis
    by (auto simp: sound_state_def state_shape_def list_ex_iff)
qed

lemma reopen_careful: "reopen True x st = Some st' \<longleftrightarrow> x = Inr () \<and> st' = st"
  by (auto simp: reopen_def)

lemma saved_files:
  assumes "saved c before st x s"
  shows "cr_state s = st" and "x = Inr () \<or> cert_files s = before \<or> cert_files s = before(STATE_FILE \<mapsto> Stored (State_File st))"
    and "x = Inr () \<Longrightarrow> cert_files s = before(STATE_FILE \<mapsto> Stored (State_File st))"
    and "cert_files s = before \<or> cert_files s = before(STATE_FILE \<mapsto> Stored (State_File st)) \<and> length (state_json c st) \<le> MAX_STATE_BYTES"
  using assms by (auto simp: saved_def)

lemma readable_saved:
  assumes w: "readable_world c w" and grow: "cw_reports w \<subseteq> cw_reports w'" and s: "saved c before st x s"
    and disk: "cw_disk w' = cr_disk s" and handle: "cw_open w' = reopen True x (cr_state s)"
    and before: "before STATE_FILE = lookup_file (cw_disk w) STATE_FILE"
    and keeps: "\<not> evidence_collision c (cw_reports w') \<Longrightarrow> keeps_reports c (cw_reports w) (lookup_file (cw_disk w)) before"
    and sound: "\<not> evidence_collision c (cw_reports w') \<Longrightarrow> sound_state c before (cw_reports w') st"
  shows "readable_world c w'"
proof (rule readable_wrote [OF w grow])
  note files = saved_files [OF s]
  have step: "keeps_reports c R before (cert_files s)" for R
    using files(4) keeps_reports_other [of STATE_FILE c R before] file_names_differ(1) [THEN not_sym] keeps_reports_refl by metis
  show "keeps_reports c (cw_reports w) (lookup_file (cw_disk w)) (lookup_file (cw_disk w'))"
    if "\<not> evidence_collision c (cw_reports w')" using keeps_reports_trans [OF keeps [OF that] step] disk by simp
  show "lookup_file (cw_disk w') STATE_FILE = lookup_file (cw_disk w) STATE_FILE
      \<or> (\<exists>st. lookup_file (cw_disk w') STATE_FILE = Some (Stored (State_File st)) \<and> length (state_json c st) \<le> MAX_STATE_BYTES
           \<and> (\<not> evidence_collision c (cw_reports w') \<longrightarrow> sound_state c (lookup_file (cw_disk w')) (cw_reports w') st))"
    using files(4) before disk sound_state_file [OF sound] by auto
  show "cw_open w = Some st' \<or> sound_state c (lookup_file (cw_disk w')) (cw_reports w') st'"
    if "cw_open w' = Some st'" and "\<not> evidence_collision c (cw_reports w')" for st'
    using that handle files(1,3) disk sound_state_file [OF sound] by (auto simp: reopen_careful)
qed

lemma readable_unsaved:
  assumes w: "readable_world c w" and grow: "cw_reports w \<subseteq> cw_reports w'"
    and state: "lookup_file (cw_disk w') STATE_FILE = lookup_file (cw_disk w) STATE_FILE"
    and keeps: "\<not> evidence_collision c (cw_reports w') \<Longrightarrow> keeps_reports c (cw_reports w) (lookup_file (cw_disk w)) (lookup_file (cw_disk w'))"
    and handle: "cw_open w' = None \<or> cw_open w' = cw_open w"
  shows "readable_world c w'"
  by (rule readable_wrote [OF w grow keeps]) (use state handle in auto)

lemma readable_opened:
  assumes "readable_world c w" and "fresh \<Longrightarrow> files (cw_disk w) = []" and "certifier_codec c"
    and "open_cert_store c root_user ancestors fresh (cw_disk w) = (x, d)"
  shows "readable_world c (w\<lparr>cw_disk := d, cw_open := (case x of Inl _ \<Rightarrow> None | Inr st \<Rightarrow> Some st)\<rparr>)"
proof (rule readable_wrote [OF assms(1)])
  note effect = open_effect [OF assms(4)]
  let ?w = "w\<lparr>cw_disk := d, cw_open := (case x of Inl _ \<Rightarrow> None | Inr st \<Rightarrow> Some st)\<rparr>"
  have empty: "sound_state c look R empty_state" for look R
    by (simp add: sound_state_def empty_state_def state_shape_def history_valid_iff)
  show "keeps_reports c (cw_reports w) (lookup_file (cw_disk w)) (lookup_file (cw_disk ?w))"
    using effect keeps_reports_other [of STATE_FILE c "cw_reports w" "lookup_file (cw_disk w)"]
      file_names_differ(1) [THEN not_sym] keeps_reports_refl by auto
  show state: "lookup_file (cw_disk ?w) STATE_FILE = lookup_file (cw_disk w) STATE_FILE
      \<or> (\<exists>st. lookup_file (cw_disk ?w) STATE_FILE = Some (Stored (State_File st)) \<and> length (state_json c st) \<le> MAX_STATE_BYTES
           \<and> (\<not> evidence_collision c (cw_reports ?w) \<longrightarrow> sound_state c (lookup_file (cw_disk ?w)) (cw_reports ?w) st))"
    using effect empty codecD(3) [OF assms(3)] by auto
  show "cw_open w = Some st \<or> sound_state c (lookup_file (cw_disk ?w)) (cw_reports ?w) st"
    if st: "cw_open ?w = Some st" and free: "\<not> evidence_collision c (cw_reports ?w)" for st
  proof -
    from st effect have d: "durable_state d st" by (auto dest: read_state_durable split: sum.splits)
    show ?thesis
    proof (cases "lookup_file d = lookup_file (cw_disk w)")
      case True
      with d readableD(1) [OF assms(1), of "cw_reports w"] free show ?thesis by simp
    next
      case False
      with effect d empty show ?thesis by auto
    qed
  qed
qed simp

lemma readable_step:
  "cert_step c True w w' \<Longrightarrow> certifier_codec c \<Longrightarrow> readable_world c w \<Longrightarrow> readable_world c w'"
proof (induction rule: cert_step.induct)
  case (opens w fresh root_user ancestors x d)
  from readable_opened [OF opens(5) opens(2) opens(4) opens(3)] show ?case .
next
  case (begins w st h x s)
  from begin_effect [OF begins(2)] consider "s = \<lparr>cr_disk = cw_disk w, cr_state = st\<rparr>" "x \<noteq> Inr ()"
    | "is_ok (validate_host h)" "length (st_reports st) < 4096"
      "saved c (lookup_file (cw_disk w)) (st\<lparr>st_machine := Some (hs_machine_digest h), st_pending := True\<rparr>) x s" by auto
  then show ?case
  proof cases
    case 1
    then show ?thesis by (intro readable_unsaved [OF begins(4)]) (auto simp: reopen_def keeps_reports_refl)
  next
    case 2
    show ?thesis
    proof (rule readable_saved [OF begins(4) _ 2(3)])
      assume "\<not> evidence_collision c (cw_reports (w\<lparr>cw_disk := cr_disk s, cw_open := reopen True x (cr_state s), cw_running := (cw_running w \<or> x = Inr ())\<rparr>))"
      then have "sound_state c (lookup_file (cw_disk w)) (cw_reports w) st"
        using readableD(2) [OF begins(4) _ order_refl begins(1)] by simp
      with 2(1,2) state_shape_begun [of c st h] show "sound_state c (lookup_file (cw_disk w))
          (cw_reports (w\<lparr>cw_disk := cr_disk s, cw_open := reopen True x (cr_state s), cw_running := (cw_running w \<or> x = Inr ())\<rparr>))
          (st\<lparr>st_machine := Some (hs_machine_digest h), st_pending := True\<rparr>)"
        by (auto simp: sound_state_def is_ok_iff)
    qed (simp_all add: keeps_reports_refl)
  qed
next
  case (observes w st r x s)
  let ?R = "insert r (cw_reports w)"
  let ?before = "(lookup_file (cw_disk w))(report_file c r \<mapsto> Stored (Observation_File r))"
  from observe_effect [OF observes(2)] consider "x \<noteq> Inr ()" "cert_files s = lookup_file (cw_disk w)"
    | h where "rp_scope r = Installed_Host" "record_report (evidence c) (st_history st) r = Inr h"
      "saved c ?before (st\<lparr>st_history := h\<rparr>) x s"
    by (auto simp: Let_def)
  then show ?case
  proof cases
    case 1
    then show ?thesis by (intro readable_unsaved [OF observes(4)]) (auto simp: reopen_def keeps_reports_refl)
  next
    case (2 h)
    show ?thesis
    proof (rule readable_saved [OF observes(4) _ 2(3)])
      assume "\<not> evidence_collision c (cw_reports (w\<lparr>cw_disk := cr_disk s, cw_open := reopen True x (cr_state s),
        cw_blocked := blocked_after x r (cw_blocked w), cw_reports := ?R\<rparr>))"
      then have free: "\<not> evidence_collision c ?R" by simp
      have sound: "sound_state c (lookup_file (cw_disk w)) (cw_reports w) st"
        using readableD(2) [OF observes(4) free _ observes(1)] by auto
      from sound_state_recorded [OF sound 2(2,1) codecD(1) [OF observes(3)] free refl]
      show "sound_state c ?before (cw_reports (w\<lparr>cw_disk := cr_disk s, cw_open := reopen True x (cr_state s),
        cw_blocked := blocked_after x r (cw_blocked w), cw_reports := ?R\<rparr>)) (st\<lparr>st_history := h\<rparr>)" by simp
      from keeps_reports_own [OF free] show "keeps_reports c (cw_reports w) (lookup_file (cw_disk w)) ?before" .
    qed (use file_names_differ(1) [THEN not_sym] in auto)
  qed
next
  case (takes_note w st a x s)
  from remember_effect [OF takes_note(2)] have "keeps_reports c R (lookup_file (cw_disk w)) (cert_files s)" for R
    using keeps_reports_other [of ATTEMPT_FILE] file_names_differ(5) keeps_reports_refl by auto
  moreover from remember_effect [OF takes_note(2)] have "cert_files s STATE_FILE = lookup_file (cw_disk w) STATE_FILE" "cr_state s = st"
    using file_names_differ(3) by auto
  ultimately show ?case using takes_note(1) by (intro readable_unsaved [OF takes_note(4)]) (auto simp: reopen_def)
next
  case (finishes w st y x s)
  let ?r = "ct_observations y"
  let ?R = "insert ?r (cw_reports w)"
  let ?text = "digest_text (evidence_digest (evidence c) (certificate_json (evidence c) y))"
  let ?observed = "(lookup_file (cw_disk w))(report_file c ?r \<mapsto> Stored (Observation_File ?r))"
  let ?done = "\<lambda>h. st\<lparr>st_history := h, st_reports := btree_put (host_key c (ct_host y)) ?text (st_reports st), st_pending := False\<rparr>"
  have own: "\<not> evidence_collision c ?R \<Longrightarrow> keeps_reports c (cw_reports w) (lookup_file (cw_disk w)) ?observed"
    by (rule keeps_reports_own)
  have named: "keeps_reports c R look (look(name \<mapsto> e))" if "certificate_name ?text = Inr name" for R look name e
    by (rule keeps_reports_other) (use file_names_differ(4) [OF that] in blast)
  from finish_effect [OF finishes(2)] consider (none) "x \<noteq> Inr ()" "cert_files s = lookup_file (cw_disk w)"
    | (observed) "x \<noteq> Inr ()" "cert_files s = ?observed"
    | (certified) name where "x \<noteq> Inr ()" "certificate_name ?text = Inr name" "cert_files s = ?observed(name \<mapsto> Stored (Certificate_File y))"
    | (saved) name h where "certificate_name ?text = Inr name" "record_report (evidence c) (st_history st) ?r = Inr h"
      "st_pending st" "certificate_bytes (evidence c) y = Inr (certificate_json (evidence c) y)"
      "saved c (?observed(name \<mapsto> Stored (Certificate_File y))) (?done h) x s"
    unfolding Let_def by auto
  then show ?case
  proof cases
    case none
    then show ?thesis by (intro readable_unsaved [OF finishes(4)]) (auto simp: reopen_def keeps_reports_refl)
  next
    case observed
    then show ?thesis using own file_names_differ(1) [THEN not_sym]
      by (intro readable_unsaved [OF finishes(4)]) (auto simp: reopen_def)
  next
    case (certified name)
    from keeps_reports_trans [OF own named [OF certified(2)]] certified file_names_differ(1) [THEN not_sym] file_names_differ(2) [OF certified(2)]
    show ?thesis by (intro readable_unsaved [OF finishes(4)]) (auto simp: reopen_def)
  next
    case (saved name h)
    from saved(4) have scope: "rp_scope ?r = Installed_Host" by (auto simp: certificate_bytes_def results)
    let ?w = "w\<lparr>cw_disk := cr_disk s, cw_open := reopen True x (cr_state s),
       cw_running := (cw_running w \<and> \<not> finish_counts x st (cr_state s)),
       cw_blocked := blocked_after x ?r (cleared_by (finish_counts x st (cr_state s)) ?r (cw_blocked w)),
       cw_reports := ?R\<rparr>"
    show ?thesis
    proof (rule readable_saved [OF finishes(4) _ saved(5)])
      assume "\<not> evidence_collision c (cw_reports ?w)"
      then have free: "\<not> evidence_collision c ?R" by simp
      show "keeps_reports c (cw_reports w) (lookup_file (cw_disk w)) (?observed(name \<mapsto> Stored (Certificate_File y)))"
        by (rule keeps_reports_trans [OF own [OF free] named [OF saved(1)]])
      have sound: "sound_state c (lookup_file (cw_disk w)) (cw_reports w) st"
        using readableD(2) [OF finishes(4) free _ finishes(1)] by auto
      have "sound_state c ?observed ?R (st\<lparr>st_history := h\<rparr>)"
        by (rule sound_state_recorded [OF sound saved(2) scope codecD(1) [OF finishes(3)] free refl])
      from sound_state_finished [OF this _ finishes(3)] saved(3)
      have "sound_state c ?observed ?R (?done h)" by simp
      from sound_state_kept [OF this named [OF saved(1)] order_refl]
      show "sound_state c (?observed(name \<mapsto> Stored (Certificate_File y))) (cw_reports ?w) (?done h)" by simp
    qed (use file_names_differ(1) [THEN not_sym] file_names_differ(2) [OF saved(1)] in auto)
  qed
next
  case (drops w)
  then show ?case by (intro readable_unsaved [OF drops(2)]) (auto simp: keeps_reports_refl)
next
  case (around d w)
  have "lookup_file d = lookup_file (cw_disk w)" using around(1) by (simp add: lookup_file_def)
  then show ?case by (intro readable_unsaved [OF around(3)]) (auto simp: keeps_reports_refl)
qed

lemma readable_history:
  "cert_history c True w w' \<Longrightarrow> certifier_codec c \<Longrightarrow> readable_world c w \<Longrightarrow> readable_world c w'"
  unfolding cert_history_def by (induction rule: rtranclp_induct) (blast intro: readable_step)+

lemma new_world_readable: "new_world w \<Longrightarrow> readable_world c w"
  by (rule readableI) (auto simp: new_world_def lookup_file_def)

lemma inspect_state:
  assumes "inspect_certificate c h d = Inr status"
  shows "\<exists>st. durable_state d st \<and> cs_history status = st_history st \<and> cs_pending status = st_pending st"
  using assms by (auto simp: inspect_certificate_def results dest!: read_state_durable)

subsection \<open>Certification recovers\<close>

definition begun_state :: "host_snapshot \<Rightarrow> cert_state \<Rightarrow> cert_state" where
  "begun_state h st = st\<lparr>st_machine := Some (hs_machine_digest h), st_pending := True\<rparr>"

definition finished_state :: "cert_codec \<Rightarrow> certificate \<Rightarrow> failure_history \<Rightarrow> cert_state \<Rightarrow> cert_state" where
  "finished_state c y h st = st\<lparr>st_history := h, st_reports := btree_put (host_key c (ct_host y))
     (digest_text (evidence_digest (evidence c) (certificate_json (evidence c) y))) (st_reports st), st_pending := False\<rparr>"

lemma cert_write_calm:
  assumes "write_faults (cr_disk s) = []"
  obtains s' where "cert_write n f s = (Inr (), s')" and "cr_state s' = cr_state s" and "write_faults (cr_disk s') = []"
    and "listable (cr_disk s') = listable (cr_disk s)" and "cert_files s' = (cert_files s)(n \<mapsto> Stored f)"
  using assms by (auto simp: cert_write_def write_op_def write_atomic_def next_fault_def Let_def lookup_file_def map_of_put_file)

lemma save_calm:
  assumes "write_faults (cr_disk s) = []" and "listable (cr_disk s)" and "length (state_json c (cr_state s)) \<le> MAX_STATE_BYTES"
  obtains s' where "save_state c s = (Inr (), s')" and "cr_state s' = cr_state s" and "write_faults (cr_disk s') = []"
    and "listable (cr_disk s')" and "cert_files s' = (cert_files s)(STATE_FILE \<mapsto> Stored (State_File (cr_state s)))"
  using cert_write_calm [OF assms(1), of STATE_FILE "State_File (cr_state s)"] assms(2,3) by (auto simp: save_state_def)

lemma begin_calm:
  assumes "write_faults (cr_disk s) = []" and "listable (cr_disk s)" and "validate_host h = Inr ()"
    and "\<not> st_pending (cr_state s)" and "length (st_reports (cr_state s)) < 4096"
    and "st_machine (cr_state s) \<in> {None, Some (hs_machine_digest h)}"
    and "length (state_json c (begun_state h (cr_state s))) \<le> MAX_STATE_BYTES"
  obtains s' where "begin_attempt c h s = (Inr (), s')" and "cr_state s' = begun_state h (cr_state s)"
    and "write_faults (cr_disk s') = []" and "listable (cr_disk s')"
    and "cert_files s' = (cert_files s)(STATE_FILE \<mapsto> Stored (State_File (begun_state h (cr_state s))))"
proof -
  from save_calm [of "s\<lparr>cr_state := begun_state h (cr_state s)\<rparr>" c] assms
  obtain s' where s': "save_state c (s\<lparr>cr_state := begun_state h (cr_state s)\<rparr>) = (Inr (), s')" "cr_state s' = begun_state h (cr_state s)"
    "write_faults (cr_disk s') = []" "listable (cr_disk s')"
    "cert_files s' = (cert_files s)(STATE_FILE \<mapsto> Stored (State_File (begun_state h (cr_state s))))" by auto
  have "begin_attempt c h s = (Inr (), s')"
    using assms(3-6) s'(1) by (auto simp: begin_attempt_def bind_op_def pure_def read_op_def keep_state_def begun_state_def)
  with s'(2-5) that show thesis by blast
qed

lemma finish_calm:
  assumes "write_faults (cr_disk s) = []" and "listable (cr_disk s)" and "certifier_codec c"
    and "st_pending (cr_state s)" and "st_machine (cr_state s) = Some (hs_machine_digest (ct_host y))"
    and "certificate_bytes (evidence c) y = Inr (certificate_json (evidence c) y)"
    and "record_report (evidence c) (st_history (cr_state s)) (ct_observations y) = Inr h"
    and "length (state_json c (finished_state c y h (cr_state s))) \<le> MAX_STATE_BYTES"
  obtains s' where "finish_attempt c y s = (Inr (), s')" and "write_faults (cr_disk s') = []" and "listable (cr_disk s')"
    and "cert_files s' = (cert_files s)(report_file c (ct_observations y) \<mapsto> Stored (Observation_File (ct_observations y)),
      ''certificate-'' @ evidence_digest (evidence c) (certificate_json (evidence c) y) @ ''.json'' \<mapsto> Stored (Certificate_File y),
      STATE_FILE \<mapsto> Stored (State_File (finished_state c y h (cr_state s))))"
proof -
  let ?d = "evidence_digest (evidence c) (certificate_json (evidence c) y)"
  let ?name = "''certificate-'' @ ?d @ ''.json''"
  obtain s1 where s1: "cert_write (report_file c (ct_observations y)) (Observation_File (ct_observations y)) s = (Inr (), s1)"
    "cr_state s1 = cr_state s" "write_faults (cr_disk s1) = []" "listable (cr_disk s1) = listable (cr_disk s)"
    "cert_files s1 = (cert_files s)(report_file c (ct_observations y) \<mapsto> Stored (Observation_File (ct_observations y)))"
    using cert_write_calm [OF assms(1)] by metis
  obtain s2 where s2: "cert_write ?name (Certificate_File y) s1 = (Inr (), s2)"
    "cr_state s2 = cr_state s1" "write_faults (cr_disk s2) = []" "listable (cr_disk s2) = listable (cr_disk s1)"
    "cert_files s2 = (cert_files s1)(?name \<mapsto> Stored (Certificate_File y))"
    using cert_write_calm [OF s1(3)] by metis
  let ?s3 = "s2\<lparr>cr_state := finished_state c y h (cr_state s)\<rparr>"
  obtain s' where s': "save_state c ?s3 = (Inr (), s')" "write_faults (cr_disk s') = []" "listable (cr_disk s')"
    "cert_files s' = (cert_files s2)(STATE_FILE \<mapsto> Stored (State_File (finished_state c y h (cr_state s))))"
    using save_calm [of ?s3 c] s2(3,4) s1(4) assms(2,8) by auto
  have name: "certificate_name (digest_text ?d) = Inr ?name" by (simp add: certificate_name_def codecD(4) [OF assms(3)])
  have observed: "report_bytes (evidence c) (ct_observations y) = Inr (report_json (evidence c) (ct_observations y))"
    using assms(6) by (auto simp: certificate_bytes_def report_bytes_def results)
  have "finish_attempt c y s = (Inr (), s')"
    using assms(4-7) name observed s1(1,2) s2(1,2) s'(1)
    by (simp add: finish_attempt_def Let_def bind_op_def pure_def read_op_def keep_state_def finished_state_def)
  with s'(2-4) s2(5) s1(5) that show thesis by simp
qed

lemma cert_history_refl: "cert_history c careful w w"
  by (simp add: cert_history_def)

lemma cert_history_step: "cert_step c careful w w' \<Longrightarrow> cert_history c careful w' w'' \<Longrightarrow> cert_history c careful w w''"
  unfolding cert_history_def by (rule converse_rtranclp_into_rtranclp)

lemma read_protected_cong: "lookup_file d = lookup_file d' \<Longrightarrow> read_protected n d = read_protected n d'"
  by (simp add: read_protected_def)

lemma read_failures_cong:
  assumes "lookup_file d = lookup_file d'"
  shows "read_failures c d fs = read_failures c d' fs"
  by (induction fs) (simp_all add: read_failure_def read_protected_cong [OF assms])

lemma read_state_cong: "lookup_file d = lookup_file d' \<Longrightarrow> read_cert_state c d = read_cert_state c d'"
  unfolding read_cert_state_def by (simp add: read_failures_cong [of d d'] read_protected_cong [of d d'])

lemma read_state_facts:
  assumes "read_cert_state c d = Inr st"
  shows "history_valid (st_history st)" and "\<forall>f \<in> set (st_history st). fl_scope f = Installed_Host" and "state_shape c st"
proof -
  from read_state_durable [OF assms] have "read_protected STATE_FILE d = Inr (State_File st)" by (simp add: read_protected_def)
  with assms show "history_valid (st_history st)" "\<forall>f \<in> set (st_history st). fl_scope f = Installed_Host" "state_shape c st"
    by (auto simp: read_cert_state_def results record_report_Inr list_ex_iff)
qed

lemma certificate_bytes_facts:
  assumes "certificate_bytes (evidence c) y = Inr b"
  shows "b = certificate_json (evidence c) y" and "validate_host (ct_host y) = Inr ()" and "rp_scope (ct_observations y) = Installed_Host"
    and "report_bytes (evidence c) (ct_observations y) = Inr (report_json (evidence c) (ct_observations y))"
  using assms by (auto simp: certificate_bytes_def results report_bytes_def)

lemma finished_reads_back:
  assumes "certifier_codec c" and "state_shape c st" and "st_history st = []" and "\<not> st_pending st"
    and "st_machine st = Some (hs_machine_digest (ct_host y))" and "length (state_json c st) \<le> MAX_STATE_BYTES"
    and "map_of (st_reports st) (host_key c (ct_host y)) = Some (digest_text (evidence_digest (evidence c) (certificate_json (evidence c) y)))"
    and "certificate_bytes (evidence c) y = Inr (certificate_json (evidence c) y)" and "listable d"
    and "durable_state d st" and "lookup_file d (''certificate-'' @ evidence_digest (evidence c) (certificate_json (evidence c) y) @ ''.json'')
      = Some (Stored (Certificate_File y))"
  shows "inspect_certificate c (ct_host y) d = Inr \<lparr>cs_certificate = Some y, cs_history = [], cs_pending = False\<rparr>"
proof -
  have "sound_state c (lookup_file d) {} (st\<lparr>st_pending := False\<rparr>)"
    using assms(2,3) by (simp add: sound_state_def state_shape_def history_valid_iff)
  moreover have "st\<lparr>st_pending := False\<rparr> = st" using assms(4) by (cases st) simp
  ultimately have "read_cert_state c d = Inr st"
    using read_state_sound [OF assms(10) _ assms(6) codecD(1,2) [OF assms(1)], of "{}"] by simp
  then show ?thesis
    using assms(3-5,7-9,11) certificate_bytes_facts(2) [OF assms(8)]
    by (simp add: inspect_certificate_def certificate_name_def codecD(4) [OF assms(1)] read_protected_def)
qed

end
