(* ===== verification/Certificate_Demo.thy ===== *)
theory Certificate_Demo
  imports Certificate_Recovery
begin

section \<open>A demonstration of certification\<close>

text \<open>
  A codec, a host and reports on which attempts are evaluated: a passing report, one that stops
  before its last check, and one that passes only the guard of the sender.
\<close>

definition demo_cert_sha :: "string \<Rightarrow> u8 list" where
  "demo_cert_sha s = take 32 (map of_char s @ replicate 32 0)"

definition demo_certifier :: cert_codec where
  "demo_certifier = \<lparr>evidence = \<lparr>evidence_sha = demo_cert_sha,
       report_json = (\<lambda>r. if rp_cleanup r = Cleanup_Confirmed then (if rp_completed r then ''p'' else ''c'') else ''o''),
       report_parse = (\<lambda>_. None), host_json = (\<lambda>_. ''h''), certificate_json = (\<lambda>_. ''x''), certificate_parse = (\<lambda>_. None)\<rparr>,
     state_json = (\<lambda>_. ''s'')\<rparr>"

definition demo_row :: "string \<Rightarrow> probe_check" where
  "demo_row n = \<lparr>pc_name = n, pc_control = Probe_Allowed, pc_confined = Probe_Denied ''d''\<rparr>"

definition demo_passing :: report where
  "demo_passing = \<lparr>rp_schema = REPORT_SCHEMA, rp_scope = Installed_Host, rp_checks = map demo_row REQUIRED_CHECKS,
     rp_completed = True, rp_cleanup = Cleanup_Confirmed\<rparr>"

definition demo_partial :: "report_cleanup \<Rightarrow> report" where
  "demo_partial cl = \<lparr>rp_schema = REPORT_SCHEMA, rp_scope = Installed_Host,
     rp_checks = [\<lparr>pc_name = ''ipv4'', pc_control = Probe_Allowed, pc_confined = Probe_Allowed\<rparr>],
     rp_completed = False, rp_cleanup = cl\<rparr>"

definition demo_guarded :: report where
  "demo_guarded = \<lparr>rp_schema = REPORT_SCHEMA, rp_scope = Installed_Host, rp_checks = [demo_row SENDER_GUARD_CHECK],
     rp_completed = True, rp_cleanup = Cleanup_Confirmed\<rparr>"

definition demo_text :: string where
  "demo_text = digest_text (evidence_digest (evidence demo_certifier) ''m'')"

definition demo_snapshot :: host_snapshot where
  "demo_snapshot = \<lparr>hs_profile = PROFILE, hs_machine_digest = demo_text, hs_boot_id = ''01234567-0123-0123-0123-0123456789ab'',
     hs_release_digest = demo_text,
     hs_inputs = map (\<lambda>k. (k, demo_text)) [''backend'', ''kernel'', ''launcher'', ''loader'', ''policy'']\<rparr>"

definition demo_certificate :: "report \<Rightarrow> certificate" where
  "demo_certificate r = \<lparr>ct_schema = CERTIFICATE_SCHEMA, ct_host = demo_snapshot, ct_observations = r\<rparr>"

definition demo_directory :: "cert_file disk" where
  "demo_directory = \<lparr>files = [], listable = True, lock_ok = True, unlock_ok = True, write_faults = []\<rparr>"

definition demo_world :: cert_world where
  "demo_world = \<lparr>cw_disk = demo_directory, cw_open = None, cw_blocked = {}, cw_running = False, cw_reports = {}\<rparr>"

lemma demo_cert_sha_length: "length (demo_cert_sha s) = 32"
  by (cases "length s \<le> 32") (simp_all add: demo_cert_sha_def)

lemma demo_certifier_codec: "certifier_codec demo_certifier"
  by (simp add: demo_cert_sha_length certifier_codec_def demo_certifier_def incomplete_report_def MAX_REPORT_BYTES_def MAX_STATE_BYTES_def)

lemma demo_world_new: "new_world demo_world"
  by (simp add: new_world_def demo_world_def demo_directory_def)

lemma demo_sizes: "length (state_json demo_certifier st) \<le> MAX_STATE_BYTES"
  "length (report_json (evidence demo_certifier) r) \<le> MAX_REPORT_BYTES"
  "length (certificate_json (evidence demo_certifier) y) \<le> MAX_CERTIFICATE_BYTES"
  by (simp_all add: demo_certifier_def MAX_STATE_BYTES_def MAX_REPORT_BYTES_def MAX_CERTIFICATE_BYTES_def)

lemma demo_text_parses: "is_ok (parse_digest demo_text)"
  by (simp add: demo_text_def codecD(4) [OF demo_certifier_codec])

lemma demo_uuid: "uuid_shape ''01234567-0123-0123-0123-0123456789ab''"
  by code_simp

lemma demo_keys: "list_all (\<lambda>k. k \<noteq> [] \<and> length k \<le> 256 \<and> \<not> list_ex is_control (utf8_decode k))
    [''backend'', ''kernel'', ''launcher'', ''loader'', ''policy'']"
  by code_simp

lemma demo_snapshot_valid: "validate_host demo_snapshot = Inr ()"
  using demo_keys demo_text_parses demo_uuid by (simp add: validate_host_def demo_snapshot_def ensure_def)

lemma demo_shapes: "report_shape demo_passing" "report_shape (demo_partial cl)" "report_shape demo_guarded"
  by (auto simp: report_shape_def demo_passing_def demo_partial_def demo_guarded_def demo_row_def row_valid_def list_all_iff
      required_checks_distinct comp_def REQUIRED_CHECKS_def [THEN arg_cong, of set])

lemma demo_verdicts: "report_verdict demo_passing = Report_Passed" "report_verdict (demo_partial cl) = Report_Failed (failing_checks (demo_partial cl))"
  "report_verdict demo_guarded = Report_Incomplete" "report_failures (demo_partial Cleanup_Pending) = {''ipv4''}"
  "report_failures (demo_partial Cleanup_Confirmed) = {''ipv4''}" "failing_checks (demo_partial Cleanup_Pending) = [''ipv4'']"
  "failing_checks (demo_partial Cleanup_Confirmed) = [''ipv4'']"
proof -
  have p: "failing_checks demo_passing = []" "failing_checks demo_guarded = []"
    by (auto simp: failing_checks_empty report_failures_def allowed_rows_def demo_passing_def demo_guarded_def demo_row_def)
  show "report_verdict demo_passing = Report_Passed"
    using p by (simp add: report_verdict_def) (simp add: demo_passing_def demo_row_def row_holds_def list_all_iff)
  show "report_verdict demo_guarded = Report_Incomplete"
    using p required_checks_length by (simp add: report_verdict_def) (simp add: demo_guarded_def)
  show q: "report_failures (demo_partial Cleanup_Pending) = {''ipv4''}" "report_failures (demo_partial Cleanup_Confirmed) = {''ipv4''}"
    "failing_checks (demo_partial Cleanup_Pending) = [''ipv4'']" "failing_checks (demo_partial Cleanup_Confirmed) = [''ipv4'']"
    by (auto simp: report_failures_def allowed_rows_def failing_checks_def demo_partial_def insort_insert_key_def)
  show "report_verdict (demo_partial cl) = Report_Failed (failing_checks (demo_partial cl))"
    by (auto simp: report_verdict_def failing_checks_empty report_failures_def allowed_rows_def demo_partial_def)
qed

definition demo_report_text :: "report \<Rightarrow> string" where
  "demo_report_text r = evidence_digest (evidence demo_certifier) (report_json (evidence demo_certifier) r)"

definition demo_failure :: "report_cleanup \<Rightarrow> check_failure" where
  "demo_failure cl = \<lparr>fl_check = ''ipv4'', fl_report_digest = digest_text (demo_report_text (demo_partial cl)), fl_scope = Installed_Host\<rparr>"

lemma demo_report_digest: "report_shape r \<Longrightarrow> report_digest (evidence demo_certifier) r = Inr (demo_report_text r)"
  using demo_sizes(2) by (simp add: report_digest_Inr demo_report_text_def)

lemma demo_record_first: "record_report (evidence demo_certifier) [] (demo_partial Cleanup_Pending) = Inr [demo_failure Cleanup_Pending]"
  using demo_shapes(2) demo_verdicts(2,6) demo_report_digest
  by (simp add: record_report_Inr history_valid_iff demo_failure_def) (simp add: demo_partial_def)

lemma demo_history_valid: "history_valid [demo_failure cl]"
  using codecD(4) [OF demo_certifier_codec]
  by (simp add: history_valid_iff demo_failure_def known_check_def REQUIRED_CHECKS_def demo_report_text_def)

lemma demo_record_second:
  "record_report (evidence demo_certifier) [demo_failure Cleanup_Pending] (demo_partial Cleanup_Confirmed) = Inr [demo_failure Cleanup_Pending]"
  using demo_shapes(2) demo_verdicts(2,7) demo_report_digest demo_history_valid
  by (simp add: record_report_Inr demo_failure_def) (simp add: demo_partial_def)

lemma demo_record_passing: "record_report (evidence demo_certifier) [demo_failure Cleanup_Pending] demo_passing = Inr []"
  using demo_shapes(1) demo_verdicts(1) demo_report_digest demo_history_valid
  by (simp add: record_report_Inr demo_failure_def) (simp add: demo_passing_def)

lemma demo_certificate_bytes:
  assumes "r \<in> {demo_passing, demo_guarded}"
  shows "certificate_bytes (evidence demo_certifier) (demo_certificate r) = Inr (certificate_json (evidence demo_certifier) (demo_certificate r))"
proof -
  have "report_shape r" "rp_scope r = Installed_Host" using assms demo_shapes by (auto simp: demo_passing_def demo_guarded_def)
  then have "report_bytes (evidence demo_certifier) r = Inr (report_json (evidence demo_certifier) r)"
    using demo_sizes(2) by (simp add: report_bytes_def ensure_def andThen_Inr report_result_Inr)
  with demo_snapshot_valid \<open>rp_scope r = Installed_Host\<close> demo_sizes(3) show ?thesis
    by (simp add: certificate_bytes_def demo_certificate_def)
qed

lemma demo_empty_sound: "sound_state demo_certifier look R empty_state"
  by (simp add: sound_state_def empty_state_def state_shape_def history_valid_iff)

lemma open_calm:
  assumes "write_faults d = []" and "listable d" and "lock_ok d"
  obtains d' where "open_cert_store demo_certifier True True True d = (Inr empty_state, d')" and "write_faults d' = []" and "listable d'"
    and "lookup_file d' = (lookup_file d)(STATE_FILE \<mapsto> Stored (State_File empty_state))"
proof -
  obtain d' where d': "write_op (\<lambda>_. Cert_Io) STATE_FILE (State_File empty_state) d = (Inr (), d')" "write_faults d' = []" "listable d'"
    "lookup_file d' = (lookup_file d)(STATE_FILE \<mapsto> Stored (State_File empty_state))"
    using assms by (auto simp: write_op_def write_atomic_def next_fault_def Let_def lookup_file_def map_of_put_file)
  from read_state_sound [of d' empty_state demo_certifier "{}"] d'(4) demo_empty_sound demo_sizes codecD(1) [OF demo_certifier_codec]
  have "read_cert_state demo_certifier d' = Inr empty_state" by simp
  with d' assms have "open_cert_store demo_certifier True True True d = (Inr empty_state, d')"
    by (simp add: open_cert_store_def bind_op_def pure_def read_op_def empty_state_def)
  with d' that show thesis by blast
qed

lemma observe_calm:
  assumes "write_faults (cr_disk s) = []" and "listable (cr_disk s)" and "st_pending (cr_state s)"
    and "rp_scope r = Installed_Host" and "\<not> rp_completed r" and "record_report (evidence demo_certifier) (st_history (cr_state s)) r = Inr h"
  obtains s' where "observe_report demo_certifier r s = (Inr (), s')" and "cr_state s' = (cr_state s)\<lparr>st_history := h\<rparr>"
    and "write_faults (cr_disk s') = []" and "listable (cr_disk s')"
    and "cert_files s' = (cert_files s)(report_file demo_certifier r \<mapsto> Stored (Observation_File r),
      STATE_FILE \<mapsto> Stored (State_File ((cr_state s)\<lparr>st_history := h\<rparr>)))"
proof -
  let ?s = "s\<lparr>cr_state := (cr_state s)\<lparr>st_history := h\<rparr>\<rparr>"
  have bytes: "report_bytes (evidence demo_certifier) r = Inr (report_json (evidence demo_certifier) r)"
    using assms(6) by (auto simp: record_report_Inr report_digest_def report_bytes_def results)
  obtain s1 where s1: "cert_write (report_file demo_certifier r) (Observation_File r) ?s = (Inr (), s1)" "cr_state s1 = cr_state ?s"
    "write_faults (cr_disk s1) = []" "listable (cr_disk s1) = listable (cr_disk ?s)"
    "cert_files s1 = (cert_files ?s)(report_file demo_certifier r \<mapsto> Stored (Observation_File r))"
    by (rule cert_write_calm [of ?s]) (use assms(1) in simp)
  obtain s' where "save_state demo_certifier s1 = (Inr (), s')" "cr_state s' = cr_state s1" "write_faults (cr_disk s') = []"
    "listable (cr_disk s')" "cert_files s' = (cert_files s1)(STATE_FILE \<mapsto> Stored (State_File (cr_state s1)))"
    using save_calm [OF s1(3), of demo_certifier] s1(4) assms(2) demo_sizes(1) by auto
  with s1 assms(3-6) bytes that [of s'] show thesis
    by (simp add: observe_report_def bind_op_def pure_def read_op_def keep_state_def)
qed

abbreviation demo_begun :: cert_state where
  "demo_begun \<equiv> begun_state demo_snapshot empty_state"

lemma demo_opened:
  obtains d where "cert_step demo_certifier careful demo_world (demo_world\<lparr>cw_disk := d, cw_open := Some empty_state\<rparr>)"
    and "write_faults d = []" and "listable d" and "lookup_file d = [STATE_FILE \<mapsto> Stored (State_File empty_state)]"
proof -
  have start: "write_faults (cw_disk demo_world) = []" "listable (cw_disk demo_world)" "lock_ok (cw_disk demo_world)"
    "lookup_file (cw_disk demo_world) = Map.empty" "files (cw_disk demo_world) = []" "cw_open demo_world = None"
    by (simp_all add: demo_world_def demo_directory_def lookup_file_def fun_eq_iff)
  obtain d where d: "open_cert_store demo_certifier True True True (cw_disk demo_world) = (Inr empty_state, d)" "write_faults d = []" "listable d"
    "lookup_file d = (lookup_file (cw_disk demo_world))(STATE_FILE \<mapsto> Stored (State_File empty_state))"
    using open_calm [OF start(1-3)] .
  from cert_step.opens [OF start(6) start(5) d(1)] d(2-4) start(4) that [of d] show thesis by simp
qed

lemma demo_attempt_begun:
  obtains d where "cert_history demo_certifier careful demo_world (demo_world\<lparr>cw_disk := d, cw_open := Some demo_begun, cw_running := True\<rparr>)"
    and "write_faults d = []" and "listable d" and "lookup_file d = [STATE_FILE \<mapsto> Stored (State_File demo_begun)]"
proof -
  obtain d where d: "cert_step demo_certifier careful demo_world (demo_world\<lparr>cw_disk := d, cw_open := Some empty_state\<rparr>)"
    "write_faults d = []" "listable d" "lookup_file d = [STATE_FILE \<mapsto> Stored (State_File empty_state)]" using demo_opened .
  let ?w = "demo_world\<lparr>cw_disk := d, cw_open := Some empty_state\<rparr>" and ?s = "\<lparr>cr_disk = d, cr_state = empty_state\<rparr>"
  have s: "write_faults (cr_disk ?s) = []" "listable (cr_disk ?s)" using d by simp_all
  obtain s' where s': "begin_attempt demo_certifier demo_snapshot ?s = (Inr (), s')" "cr_state s' = demo_begun" "write_faults (cr_disk s') = []"
    "listable (cr_disk s')" "cert_files s' = (cert_files ?s)(STATE_FILE \<mapsto> Stored (State_File demo_begun))"
    using begin_calm [OF s demo_snapshot_valid, of demo_certifier] demo_sizes(1) by (auto simp: empty_state_def)
  have "cert_step demo_certifier careful ?w (demo_world\<lparr>cw_disk := cr_disk s', cw_open := Some demo_begun, cw_running := True\<rparr>)"
    using cert_step.begins [of ?w empty_state demo_certifier demo_snapshot "Inr ()" s' careful] s'(1,2) by (simp add: reopen_def)
  from cert_history_step [OF d(1) cert_history_step [OF this cert_history_refl]] s'(3-5) d(4) that [of "cr_disk s'"]
  show thesis by simp
qed

lemma demo_observed:
  obtains d where "cert_history demo_certifier careful demo_world (demo_world\<lparr>cw_disk := d, cw_running := True,
       cw_open := Some (demo_begun\<lparr>st_history := [demo_failure Cleanup_Pending]\<rparr>), cw_blocked := {''ipv4''},
       cw_reports := {demo_partial Cleanup_Pending}\<rparr>)"
    and "listable d" and "durable_state d (demo_begun\<lparr>st_history := [demo_failure Cleanup_Pending]\<rparr>)"
proof -
  obtain d where d: "cert_history demo_certifier careful demo_world (demo_world\<lparr>cw_disk := d, cw_open := Some demo_begun, cw_running := True\<rparr>)"
    "write_faults d = []" "listable d" using demo_attempt_begun .
  let ?w = "demo_world\<lparr>cw_disk := d, cw_open := Some demo_begun, cw_running := True\<rparr>" and ?s = "\<lparr>cr_disk = d, cr_state = demo_begun\<rparr>"
  let ?st = "demo_begun\<lparr>st_history := [demo_failure Cleanup_Pending]\<rparr>"
  have s: "write_faults (cr_disk ?s) = []" "listable (cr_disk ?s)" "st_pending (cr_state ?s)" "rp_scope (demo_partial Cleanup_Pending) = Installed_Host"
    "\<not> rp_completed (demo_partial Cleanup_Pending)" "st_history (cr_state ?s) = []"
    using d by (simp_all add: begun_state_def demo_partial_def empty_state_def)
  obtain s' where s': "observe_report demo_certifier (demo_partial Cleanup_Pending) ?s = (Inr (), s')" "cr_state s' = ?st" "listable (cr_disk s')"
    "cert_files s' = (cert_files ?s)(report_file demo_certifier (demo_partial Cleanup_Pending) \<mapsto> Stored (Observation_File (demo_partial Cleanup_Pending)),
      STATE_FILE \<mapsto> Stored (State_File ?st))"
    using observe_calm [OF s(1-5)] demo_record_first s(6) by (metis cert_store.select_convs(2))
  have "cert_step demo_certifier careful ?w (demo_world\<lparr>cw_disk := cr_disk s', cw_running := True, cw_open := Some ?st, cw_blocked := {''ipv4''},
       cw_reports := {demo_partial Cleanup_Pending}\<rparr>)"
    using cert_step.observes [of ?w demo_begun demo_certifier "demo_partial Cleanup_Pending" "Inr ()" s' careful] s'(1,2) demo_verdicts(4)
    by (simp add: reopen_def blocked_after_def demo_world_def)
  with d(1) have "cert_history demo_certifier careful demo_world (demo_world\<lparr>cw_disk := cr_disk s', cw_running := True, cw_open := Some ?st,
       cw_blocked := {''ipv4''}, cw_reports := {demo_partial Cleanup_Pending}\<rparr>)"
    unfolding cert_history_def by (rule rtranclp.rtrancl_into_rtrancl)
  with s'(3,4) that [of "cr_disk s'"] show thesis by simp
qed

lemma demo_no_collision: "\<not> evidence_collision c {r}"
  by (simp add: evidence_collision_def)

end
