(* ===== verification/Certificate_Properties.thy ===== *)
theory Certificate_Properties
  imports Certificate_Demo
begin

section \<open>What certification guarantees\<close>

text \<open>
  The properties of the evidence (Conformance), of the store (Certificate_Store) and of its
  histories (Certificate_History, Certificate_Recovery), each with its witness on the store of
  Certificate_Demo.
\<close>

text \<open>C27: The one-pass verdict over the rows of a report is Passed exactly for a completed run with
  confirmed cleanup whose rows name every required check once, each allowed without the sandbox
  and denied in it.\<close>

theorem report_passes_exactly:
  "report_result_of r = Inr Report_Passed \<longleftrightarrow>
     rp_schema r = REPORT_SCHEMA \<and> rp_completed r \<and> rp_cleanup r = Cleanup_Confirmed
     \<and> distinct (map pc_name (rp_checks r)) \<and> set (map pc_name (rp_checks r)) = set REQUIRED_CHECKS
     \<and> list_all (\<lambda>k. pc_control k = Probe_Allowed \<and> is_denied (pc_confined k) \<and> outcome_valid (pc_confined k)) (rp_checks r)"
  by (rule report_passed_iff)

text \<open>C28: Recording a report yields a valid history again, keeps every failure unless the report is
  a complete pass of the same scope (a failed cleanup stays even then), and adds every check
  that the report shows failing.\<close>

theorem failures_leave_only_by_passing:
  assumes "record_report c h r = Inr h'" and "\<And>x. length (evidence_sha c x) = 32"
  shows "history_valid h'
    \<and> (\<forall>f \<in> set h. f \<in> set h' \<or> report_result_of r = Inr Report_Passed \<and> fl_scope f = rp_scope r \<and> fl_check f \<noteq> ''cleanup'')
    \<and> (\<forall>k \<in> report_failures r. \<exists>f \<in> set h'. fl_check f = k \<and> fl_scope f = rp_scope r)"
proof (intro conjI)
  show "history_valid h'" by (rule record_report_valid [OF assms])
  from assms(1) obtain d where shape: "report_shape r"
    and h': "h' = (case report_verdict r of
         Report_Passed \<Rightarrow> filter (\<lambda>f. fl_scope f \<noteq> rp_scope r \<or> fl_check f = ''cleanup'') h
       | Report_Incomplete \<Rightarrow> h
       | Report_Failed failures \<Rightarrow> add_failures (digest_text d) (rp_scope r) failures h)"
    by (auto simp: record_report_Inr)
  show "\<forall>f \<in> set h. f \<in> set h' \<or> report_result_of r = Inr Report_Passed \<and> fl_scope f = rp_scope r \<and> fl_check f \<noteq> ''cleanup''"
    using h' shape by (cases "report_verdict r") (auto simp: report_result_Inr add_failures_keeps)
  show "\<forall>k \<in> report_failures r. \<exists>f \<in> set h'. fl_check f = k \<and> fl_scope f = rp_scope r"
  proof
    fix k assume k: "k \<in> report_failures r"
    then have "report_verdict r = Report_Failed (failing_checks r)"
      by (auto simp: report_verdict_def failing_checks_empty)
    with h' k add_failures_has [of k "failing_checks r"]
    show "\<exists>f \<in> set h'. fl_check f = k \<and> fl_scope f = rp_scope r" by simp
  qed
qed

theorem failures_leave_only_by_passing_witness:
  "record_report (evidence demo_certifier) [demo_failure Cleanup_Pending] demo_passing = Inr []
    \<and> report_result_of demo_passing = Inr Report_Passed \<and> history_valid []"
  using failures_leave_only_by_passing [OF demo_record_passing codecD(1) [OF demo_certifier_codec]] demo_record_passing
  by (auto simp: demo_failure_def)

text \<open>C29: A launch is admitted without a waiver exactly if no failure is retained, no attempt is
  pending and the certificate of this very host carries a passing report; the evidence named is
  the digest of that report.\<close>

theorem admission_needs_passing_evidence:
  "evaluate_admission c s m q = Admitted t \<longleftrightarrow>
     cs_history s = [] \<and> \<not> cs_pending s \<and> (\<exists>x d. cs_certificate s = Some x \<and> is_ok (certificate_bytes c x) \<and> ct_host x = m
       \<and> report_result_of (ct_observations x) = Inr Report_Passed
       \<and> report_digest c (ct_observations x) = Inr d \<and> t = digest_text d)"
    (is "_ \<longleftrightarrow> ?spec")
proof
  assume adm: "evaluate_admission c s m q = Admitted t"
  then obtain x where x: "cs_history s = []" "\<not> cs_pending s" "cs_certificate s = Some x" "is_ok (certificate_bytes c x)" "ct_host x = m"
    using evaluate_no_failures [of c s m q] by auto
  with adm have g: "rp_cleanup (ct_observations x) = Cleanup_Confirmed" "list_ex guard_proved (rp_checks (ct_observations x))"
    by (auto simp: evaluate_admission_def split: if_splits)
  from evaluate_open [OF x g, of q] adm x show ?spec by (auto split: if_splits)
next
  assume spec: ?spec
  then obtain x d where x: "cs_history s = []" "\<not> cs_pending s" "cs_certificate s = Some x" "is_ok (certificate_bytes c x)" "ct_host x = m"
    and p: "report_result_of (ct_observations x) = Inr Report_Passed" "report_digest c (ct_observations x) = Inr d" "t = digest_text d" by blast
  from evaluate_open [OF x _ passed_guard [OF p(1)], of q] report_passed_complete [OF p(1)] p show "evaluate_admission c s m q = Admitted t"
    by auto
qed

text \<open>C30: Whenever a waiver is possible or used, the condition is Stale, the launch is interactive,
  no failure is retained, no attempt is pending, and a certificate of this very host exists
  whose report is not a pass but has confirmed cleanup and a proved sender guard: missing and
  incomplete evidence is always refused. A waiver that is used is that of this Session for
  Stale, and it names the digest of that report.\<close>

theorem only_stale_evidence_is_waivable:
  assumes "evaluate_admission c s m q = Waivable k \<or> evaluate_admission c s m q = Admission_Waived k t"
  shows "k = Stale \<and> aq_attendance q = Interactive \<and> cs_history s = [] \<and> \<not> cs_pending s
    \<and> (\<exists>x. cs_certificate s = Some x \<and> is_ok (certificate_bytes c x) \<and> ct_host x = m
         \<and> rp_cleanup (ct_observations x) = Cleanup_Confirmed \<and> list_ex guard_proved (rp_checks (ct_observations x))
         \<and> report_result_of (ct_observations x) \<noteq> Inr Report_Passed
         \<and> (\<forall>t'. evaluate_admission c s m q = Admission_Waived k t' \<longrightarrow>
              aq_waiver q = Some \<lparr>aw_session_id = aq_session_id q, aw_condition = Stale\<rparr>
              \<and> (\<exists>d. report_digest c (ct_observations x) = Inr d \<and> t' = Some (digest_text d))))"
proof -
  from assms obtain x where x: "cs_history s = []" "\<not> cs_pending s" "cs_certificate s = Some x" "is_ok (certificate_bytes c x)" "ct_host x = m"
    using evaluate_no_failures [of c s m q] by auto
  with assms have g: "rp_cleanup (ct_observations x) = Cleanup_Confirmed" "list_ex guard_proved (rp_checks (ct_observations x))"
    by (auto simp: evaluate_admission_def split: if_splits)
  show ?thesis using evaluate_open [OF x g, of q] assms x g by (auto split: if_splits)
qed

theorem only_stale_evidence_is_waivable_witness:
  "evaluate_admission (evidence demo_certifier) \<lparr>cs_certificate = Some (demo_certificate demo_guarded), cs_history = [], cs_pending = False\<rparr> demo_snapshot
       \<lparr>aq_session_id = ''s'', aq_attendance = Interactive, aq_waiver = None\<rparr> = Waivable Stale
    \<and> rp_cleanup demo_guarded = Cleanup_Confirmed \<and> list_ex guard_proved (rp_checks demo_guarded)"
proof -
  let ?s = "\<lparr>cs_certificate = Some (demo_certificate demo_guarded), cs_history = [], cs_pending = False\<rparr>"
  have "report_result_of demo_guarded \<noteq> Inr Report_Passed" using demo_verdicts(3) by (simp add: report_result_Inr)
  then have w: "evaluate_admission (evidence demo_certifier) ?s demo_snapshot \<lparr>aq_session_id = ''s'', aq_attendance = Interactive, aq_waiver = None\<rparr> = Waivable Stale"
    using evaluate_open [of ?s "demo_certificate demo_guarded" "evidence demo_certifier" demo_snapshot "\<lparr>aq_session_id = ''s'', aq_attendance = Interactive, aq_waiver = None\<rparr>"]
      demo_certificate_bytes [of demo_guarded] by (auto simp: demo_certificate_def demo_guarded_def demo_row_def guard_proved_def)
  with only_stale_evidence_is_waivable [OF disjI1 [OF w]] show ?thesis by (simp add: demo_certificate_def)
qed

text \<open>C31: After any history of certification attempts with crashes, faults and operations that go
  on after an error, a check whose failure was acknowledged and that no later finish with a
  passing certificate cleared, or an attempt begun that no later finish ended, keeps every
  request from being admitted. A finish counts when it was acknowledged or failed only in its
  last save, since that save may have reached the disk; every other failed finish counts for
  nothing.\<close>

theorem acknowledged_failures_block_admission:
  assumes "new_world w" and "cert_history c careful w w'" and "inspect_certificate c h (cw_disk w') = Inr status"
    and "cw_blocked w' \<noteq> {} \<or> cw_running w'"
  shows "evaluate_admission (evidence c) status h q \<in> {Admission_Refused Guard_Unavailable, Admission_Refused Containment_Failure}
    \<and> cw_blocked w' \<subseteq> fl_check ` set (cs_history status)"
proof -
  from inspect_state [OF assms(3)] obtain st where d: "durable_state (cw_disk w') st" "cs_history status = st_history st"
    "cs_pending status = st_pending st" by blast
  from faithfulD(1) [OF faithful_history [OF assms(2) new_world_faithful [OF assms(1)]] d(1)]
  have known: "cw_blocked w' \<subseteq> fl_check ` set (cs_history status)" "cw_running w' \<Longrightarrow> cs_pending status"
    by (auto simp: remembers_def d)
  with assms(4) have "cs_history status \<noteq> [] \<or> cs_pending status" by auto
  then have "evaluate_admission (evidence c) status h q \<in> {Admission_Refused Guard_Unavailable, Admission_Refused Containment_Failure}"
    using evaluate_no_failures [of "evidence c" status h q] by auto
  with known show ?thesis by blast
qed

theorem acknowledged_failures_block_admission_witness:
  "\<exists>w status. cert_history demo_certifier True demo_world w \<and> inspect_certificate demo_certifier demo_snapshot (cw_disk w) = Inr status
    \<and> ''ipv4'' \<in> fl_check ` set (cs_history status)
    \<and> evaluate_admission (evidence demo_certifier) status demo_snapshot \<lparr>aq_session_id = ''s'', aq_attendance = Interactive,
         aq_waiver = Some \<lparr>aw_session_id = ''s'', aw_condition = Stale\<rparr>\<rparr>
       \<in> {Admission_Refused Guard_Unavailable, Admission_Refused Containment_Failure}"
proof -
  let ?st = "demo_begun\<lparr>st_history := [demo_failure Cleanup_Pending]\<rparr>"
  obtain d where h: "cert_history demo_certifier True demo_world (demo_world\<lparr>cw_disk := d, cw_running := True, cw_open := Some ?st,
       cw_blocked := {''ipv4''}, cw_reports := {demo_partial Cleanup_Pending}\<rparr>)" (is "cert_history _ _ _ ?w")
    and d: "listable d" "durable_state d ?st" using demo_observed .
  from readableD(1) [OF readable_history [OF h demo_certifier_codec new_world_readable [OF demo_world_new]], of "{demo_partial Cleanup_Pending}" ?st]
    demo_no_collision d(2) have "sound_state demo_certifier (lookup_file d) {demo_partial Cleanup_Pending} ?st" by simp
  from read_state_sound [OF d(2) this demo_sizes(1) codecD(1,2) [OF demo_certifier_codec]]
  have "read_cert_state demo_certifier d = Inr ?st" .
  with d(1) demo_snapshot_valid have i: "inspect_certificate demo_certifier demo_snapshot (cw_disk ?w)
      = Inr \<lparr>cs_certificate = None, cs_history = [demo_failure Cleanup_Pending], cs_pending = True\<rparr>"
    by (simp add: inspect_certificate_def begun_state_def empty_state_def)
  have "cw_blocked ?w \<noteq> {} \<or> cw_running ?w" by simp
  from acknowledged_failures_block_admission [OF demo_world_new h i this] h i show ?thesis
    by (intro exI [of _ ?w] exI [of _ "\<lparr>cs_certificate = None, cs_history = [demo_failure Cleanup_Pending], cs_pending = True\<rparr>"])
      (simp add: demo_failure_def)
qed

text \<open>C32: As long as the store is dropped after an operation that failed and no two of its reports
  collide under SHA-256, the state file stays readable with every report it names through all
  crashes and faults.\<close>

theorem certificate_store_stays_readable:
  assumes "new_world w" and "cert_history c True w w'" and "certifier_codec c"
  shows "lookup_file (cw_disk w') STATE_FILE = None \<or> is_ok (read_cert_state c (cw_disk w')) \<or> evidence_collision c (cw_reports w')"
proof (cases "lookup_file (cw_disk w') STATE_FILE = None \<or> evidence_collision c (cw_reports w')")
  case False
  note readable = readable_history [OF assms(2,3) new_world_readable [OF assms(1)]]
  from False obtain e where e: "lookup_file (cw_disk w') STATE_FILE = Some e" and free: "\<not> evidence_collision c (cw_reports w')" by auto
  from readableD(3) [OF readable free order_refl e] e obtain st where d: "durable_state (cw_disk w') st" by auto
  from readableD(1) [OF readable free order_refl d] have "sound_state c (lookup_file (cw_disk w')) (cw_reports w') st"
    "length (state_json c st) \<le> MAX_STATE_BYTES" by blast+
  from read_state_sound [OF d this codecD(1,2) [OF assms(3)]] show ?thesis by simp
qed auto

theorem certificate_store_stays_readable_witness:
  "\<exists>w. cert_history demo_certifier True demo_world w \<and> cw_blocked w = {''ipv4''} \<and> is_ok (read_cert_state demo_certifier (cw_disk w))"
proof -
  let ?st = "demo_begun\<lparr>st_history := [demo_failure Cleanup_Pending]\<rparr>"
  obtain d where h: "cert_history demo_certifier True demo_world (demo_world\<lparr>cw_disk := d, cw_running := True, cw_open := Some ?st,
       cw_blocked := {''ipv4''}, cw_reports := {demo_partial Cleanup_Pending}\<rparr>)" (is "cert_history _ _ _ ?w")
    and d: "listable d" "durable_state d ?st" using demo_observed .
  from certificate_store_stays_readable [OF demo_world_new h demo_certifier_codec] d(2) demo_no_collision
  have "is_ok (read_cert_state demo_certifier (cw_disk ?w))" by auto
  with h show ?thesis by (intro exI [of _ ?w]) simp
qed

text \<open>C33: From every readable store with no attempt pending, no failed cleanup retained, room for a
  report and the same machine, once its files can be written again, opening, beginning and
  finishing with a passing certificate succeed and every launch on that host is then admitted,
  whatever failures were retained before.\<close>

theorem certification_recovers:
  assumes "certifier_codec c" and "cw_open w = None" and "read_cert_state c (cw_disk w) = Inr st" and "\<not> st_pending st"
    and "''cleanup'' \<notin> fl_check ` set (st_history st)" and "length (st_reports st) < 4096"
    and "st_machine st \<in> {None, Some (hs_machine_digest (ct_host y))}"
    and "certificate_bytes (evidence c) y = Inr b" and "report_result_of (ct_observations y) = Inr Report_Passed"
    and "length (state_json c (begun_state (ct_host y) st)) \<le> MAX_STATE_BYTES"
    and "length (state_json c (finished_state c y [] (begun_state (ct_host y) st))) \<le> MAX_STATE_BYTES"
  shows "\<exists>w' status. cert_history c careful w w' \<and> inspect_certificate c (ct_host y) (cw_disk w') = Inr status
    \<and> evaluate_admission (evidence c) status (ct_host y) q
        = Admitted (digest_text (evidence_digest (evidence c) (report_json (evidence c) (ct_observations y))))"
proof -
  let ?h = "ct_host y" and ?text = "digest_text (evidence_digest (evidence c) (certificate_json (evidence c) y))"
  note facts = certificate_bytes_facts [OF assms(8)]
  let ?d = "(cw_disk w)\<lparr>listable := True, lock_ok := True, write_faults := []\<rparr>"
  let ?w1 = "w\<lparr>cw_disk := ?d\<rparr>"
  have calm: "cert_step c careful w ?w1" by (rule cert_step.around) simp
  have same: "lookup_file ?d = lookup_file (cw_disk w)" by (simp add: lookup_file_def fun_eq_iff)
  have opened: "open_cert_store c True True False ?d = (Inr st, ?d)"
    using assms(3,4) read_state_cong [OF same, of c] by (simp add: open_cert_store_def bind_op_def pure_def read_op_def)
  let ?w2 = "?w1\<lparr>cw_open := Some st\<rparr>"
  have step_open: "cert_step c careful ?w1 ?w2"
    using cert_step.opens [of ?w1 False c True True "Inr st" ?d careful] opened assms(2) by simp
  have s0: "write_faults (cr_disk \<lparr>cr_disk = ?d, cr_state = st\<rparr>) = []" "listable (cr_disk \<lparr>cr_disk = ?d, cr_state = st\<rparr>)" by simp_all
  obtain s1 where s1: "begin_attempt c ?h \<lparr>cr_disk = ?d, cr_state = st\<rparr> = (Inr (), s1)" "cr_state s1 = begun_state ?h st"
    "write_faults (cr_disk s1) = []" "listable (cr_disk s1)"
    using begin_calm [OF s0, of ?h c] facts(2) assms(4,6,7,10) by auto
  let ?w3 = "?w2\<lparr>cw_disk := cr_disk s1, cw_open := Some (begun_state ?h st), cw_running := True\<rparr>"
  have step_begin: "cert_step c careful ?w2 ?w3"
    using cert_step.begins [of ?w2 st c ?h "Inr ()" s1 careful] s1(1,2) by (simp add: reopen_def)
  have recorded: "record_report (evidence c) (st_history (cr_state s1)) (ct_observations y) = Inr []"
  proof -
    have "filter (\<lambda>f. fl_scope f \<noteq> Installed_Host \<or> fl_check f = ''cleanup'') (st_history st) = []"
      using read_state_facts(2) [OF assms(3)] assms(5) by (force simp: filter_empty_conv)
    moreover from assms(9) have "report_shape (ct_observations y)" "report_verdict (ct_observations y) = Report_Passed"
      by (simp_all add: report_result_Inr)
    ultimately show ?thesis
      using read_state_facts(1) [OF assms(3)] facts(3,4) s1(2) by (auto simp: record_report_Inr report_digest_def begun_state_def)
  qed
  obtain s2 where s2: "finish_attempt c y s1 = (Inr (), s2)" "listable (cr_disk s2)"
    "cert_files s2 = (cert_files s1)(report_file c (ct_observations y) \<mapsto> Stored (Observation_File (ct_observations y)),
      ''certificate-'' @ evidence_digest (evidence c) (certificate_json (evidence c) y) @ ''.json'' \<mapsto> Stored (Certificate_File y),
      STATE_FILE \<mapsto> Stored (State_File (finished_state c y [] (begun_state ?h st))))"
    using finish_calm [OF s1(3,4) assms(1) _ _ _ recorded] s1(2) assms(8,11) facts(1) by (auto simp: begun_state_def)
  define w4 where "w4 = ?w3\<lparr>cw_disk := cr_disk s2, cw_open := reopen careful (Inr ()) (cr_state s2), cw_running := False,
       cw_blocked := blocked_after (Inr ()) (ct_observations y) (cw_blocked ?w3 \<inter> {''cleanup''}),
       cw_reports := insert (ct_observations y) (cw_reports ?w3)\<rparr>"
  have store: "\<lparr>cr_disk = cw_disk ?w3, cr_state = begun_state ?h st\<rparr> = s1" using s1(2) by (cases s1) simp
  have step_finish: "cert_step c careful ?w3 w4"
    using cert_step.finishes [of ?w3 "begun_state ?h st" c y "Inr ()" s2 careful] s2(1) store assms(9) unfolding w4_def by (simp add: finish_counts_def cleared_by_def)
  have history: "cert_history c careful w w4"
    by (rule cert_history_step [OF calm cert_history_step [OF step_open cert_history_step [OF step_begin
          cert_history_step [OF step_finish cert_history_refl]]]])
  have "state_shape c (finished_state c y [] (begun_state ?h st))"
  proof -
    have "sound_state c Map.empty {} (begun_state ?h st\<lparr>st_history := []\<rparr>)"
      using state_shape_begun [OF read_state_facts(3) [OF assms(3)] facts(2)] assms(6)
      by (simp add: sound_state_def begun_state_def state_shape_def history_valid_iff)
    from sound_state_finished [OF this _ assms(1), of ?h "certificate_json (evidence c) y"]
    show ?thesis by (simp add: finished_state_def begun_state_def sound_state_def state_shape_def)
  qed
  from finished_reads_back [OF assms(1) this _ _ _ assms(11), of y "cw_disk w4"] s2(2,3) assms(8) facts(1)
  have inspected: "inspect_certificate c ?h (cw_disk w4) = Inr \<lparr>cs_certificate = Some y, cs_history = [], cs_pending = False\<rparr>"
    by (simp add: finished_state_def begun_state_def map_of_btree_put w4_def STATE_FILE_def)
  have "evaluate_admission (evidence c) \<lparr>cs_certificate = Some y, cs_history = [], cs_pending = False\<rparr> ?h q
      = Admitted (digest_text (evidence_digest (evidence c) (report_json (evidence c) (ct_observations y))))"
    using evaluate_open [of "\<lparr>cs_certificate = Some y, cs_history = [], cs_pending = False\<rparr>" y "evidence c" ?h q]
      passed_guard [OF assms(9)] report_passed_complete [OF assms(9)] assms(8,9) facts(4)
    by (auto simp: report_digest_def)
  with history inspected show ?thesis by blast
qed

theorem certification_recovers_witness:
  "\<exists>w status. cert_history demo_certifier True demo_world w \<and> inspect_certificate demo_certifier demo_snapshot (cw_disk w) = Inr status
    \<and> evaluate_admission (evidence demo_certifier) status demo_snapshot \<lparr>aq_session_id = ''s'', aq_attendance = Unattended, aq_waiver = None\<rparr>
        = Admitted (digest_text (evidence_digest (evidence demo_certifier) ''p''))"
proof -
  obtain d where d: "cert_step demo_certifier True demo_world (demo_world\<lparr>cw_disk := d, cw_open := Some empty_state\<rparr>)"
    "lookup_file d = [STATE_FILE \<mapsto> Stored (State_File empty_state)]" using demo_opened [of True] by metis
  let ?w = "demo_world\<lparr>cw_disk := d, cw_open := None\<rparr>"
  have dropped: "cert_step demo_certifier True (demo_world\<lparr>cw_disk := d, cw_open := Some empty_state\<rparr>) ?w"
    using cert_step.drops [of demo_certifier True "demo_world\<lparr>cw_disk := d, cw_open := Some empty_state\<rparr>"] by simp
  have read: "read_cert_state demo_certifier (cw_disk ?w) = Inr empty_state"
    using read_state_sound [of d empty_state demo_certifier "{}"] d(2) demo_empty_sound demo_sizes codecD(1) [OF demo_certifier_codec] by simp
  have y: "ct_host (demo_certificate demo_passing) = demo_snapshot" "ct_observations (demo_certificate demo_passing) = demo_passing"
    by (simp_all add: demo_certificate_def)
  have passed: "report_result_of demo_passing = Inr Report_Passed" using demo_shapes(1) demo_verdicts(1) by (simp add: report_result_Inr)
  have json: "report_json (evidence demo_certifier) demo_passing = ''p''" by (simp add: demo_certifier_def demo_passing_def)
  from certification_recovers [OF demo_certifier_codec _ read, of "demo_certificate demo_passing"]
    demo_certificate_bytes [of demo_passing] passed demo_sizes(1) y json
  obtain w status where "cert_history demo_certifier True ?w w" "inspect_certificate demo_certifier demo_snapshot (cw_disk w) = Inr status"
    "evaluate_admission (evidence demo_certifier) status demo_snapshot \<lparr>aq_session_id = ''s'', aq_attendance = Unattended, aq_waiver = None\<rparr>
        = Admitted (digest_text (evidence_digest (evidence demo_certifier) ''p''))"
    by (fastforce simp: empty_state_def)
  with cert_history_step [OF d(1) cert_history_step [OF dropped]] show ?thesis by blast
qed

subsection \<open>A state that names a missing report\<close>

lemma add_failures_names: "add_failures d sc ns h \<noteq> h \<Longrightarrow> \<exists>f \<in> set (add_failures d sc ns h). fl_report_digest f = d"
proof (induction d sc ns h rule: add_failures.induct)
  case (2 d sc n ns h)
  show ?case
  proof (cases "list_ex (\<lambda>f. fl_check f = n \<and> fl_scope f = sc) h")
    case True
    with 2 show ?thesis by simp
  next
    case False
    let ?f = "\<lparr>fl_check = n, fl_report_digest = d, fl_scope = sc\<rparr>"
    have "?f \<in> set (add_failures d sc ns (h @ [?f]))" by (rule add_failures_keeps) simp
    with False show ?thesis by force
  qed
qed simp

lemma incomplete_keeps:
  assumes "record_report c h r = Inr h'" and "\<not> rp_completed r"
  shows "set h \<subseteq> set h'" and "h' \<noteq> h \<Longrightarrow> \<exists>f \<in> set h'. fl_report_digest f = digest_text (evidence_digest c (report_json c r))"
proof -
  have "report_result_of r \<noteq> Inr Report_Passed" using assms(2) report_passed_complete by blast
  with assms(1) obtain ks where "h' = h \<or> h' = add_failures (digest_text (evidence_digest c (report_json c r))) (rp_scope r) ks h"
    by (auto simp: record_report_Inr report_digest_Inr report_result_Inr split: report_result.splits)
  then show "set h \<subseteq> set h'" "h' \<noteq> h \<Longrightarrow> \<exists>f \<in> set h'. fl_report_digest f = digest_text (evidence_digest c (report_json c r))"
    using add_failures_keeps add_failures_names by blast+
qed

definition names_missing_report :: "cert_codec \<Rightarrow> report \<Rightarrow> cert_file disk \<Rightarrow> bool" where
  "names_missing_report c r d \<longleftrightarrow> lookup_file d (report_file c r) = None \<and> (\<exists>st f. durable_state d st \<and> f \<in> set (st_history st)
     \<and> fl_report_digest f = digest_text (evidence_digest (evidence c) (report_json (evidence c) r)))"

lemma read_failures_all: "read_failures c d fs = Inr u \<Longrightarrow> f \<in> set fs \<Longrightarrow> is_ok (read_failure c d f)"
  by (induction fs) (auto simp: results)

lemma missing_unreadable:
  assumes "certifier_codec c" and "names_missing_report c r d"
  shows "\<not> is_ok (read_cert_state c d)"
proof
  assume "is_ok (read_cert_state c d)"
  then obtain st where st: "read_cert_state c d = Inr st" by (auto simp: is_ok_iff)
  then have "durable_state d st" "read_failures c d (st_history st) = Inr ()"
    by (auto simp: read_cert_state_def read_protected_def results split: option.splits entry.splits cert_file.splits)
  with assms(2) obtain f where "is_ok (read_failure c d f)"
    and f: "fl_report_digest f = digest_text (evidence_digest (evidence c) (report_json (evidence c) r))"
    using read_failures_all unfolding names_missing_report_def by fastforce
  with assms(2) show False
    by (simp add: read_failure_def f codecD(4) [OF assms(1)] read_protected_def names_missing_report_def)
qed

lemma missing_step:
  "cert_step c careful w w' \<Longrightarrow> certifier_codec c \<Longrightarrow> cw_open w = None \<Longrightarrow> names_missing_report c r (cw_disk w) \<Longrightarrow>
     cw_open w' = None \<and> names_missing_report c r (cw_disk w')"
proof (induction rule: cert_step.induct)
  case (opens w fresh root_user ancestors x d)
  from opens(6) have "lookup_file (cw_disk w) STATE_FILE \<noteq> None" by (auto simp: names_missing_report_def)
  then have "\<not> fresh" using opens(2) by (auto simp: lookup_file_def)
  with open_effect [OF opens(3)] have d: "lookup_file d = lookup_file (cw_disk w)"
    and read: "\<And>st. x = Inr st \<Longrightarrow> read_cert_state c d = Inr st" by auto
  from d opens(6) have missing: "names_missing_report c r d" by (simp add: names_missing_report_def)
  with missing_unreadable [OF opens(4)] read have "\<nexists>st. x = Inr st" by (auto simp: is_ok_iff)
  with missing show ?case by (auto split: sum.split)
next
  case (around d w)
  have "lookup_file d = lookup_file (cw_disk w)" using around(1) by (simp add: lookup_file_def)
  with around show ?case by (simp add: names_missing_report_def)
qed simp_all

lemma missing_history:
  "cert_history c careful w w' \<Longrightarrow> certifier_codec c \<Longrightarrow> cw_open w = None \<Longrightarrow> names_missing_report c r (cw_disk w) \<Longrightarrow>
     names_missing_report c r (cw_disk w')"
proof -
  assume "cert_history c careful w w'" "certifier_codec c" "cw_open w = None" "names_missing_report c r (cw_disk w)"
  then have "cw_open w' = None \<and> names_missing_report c r (cw_disk w')"
    unfolding cert_history_def by (induction rule: rtranclp_induct) (blast dest: missing_step)+
  then show ?thesis by simp
qed

text \<open>C34: If an observation changed the failures in memory but could not write its report, and the
  next observation, of a report with another file, is acknowledged before the store is dropped,
  then the saved state names the missing report, and in every later history, with or without
  faults, reading, inspecting and opening the store fail.\<close>

theorem failed_observation_locks_store:
  assumes "certifier_codec c" and "observe_report c r s = (Inl e, s1)" and "cr_state s1 \<noteq> cr_state s"
    and "cert_files s1 (report_file c r) = None"
    and "observe_report c q s1 = (Inr (), s2)" and "report_file c q \<noteq> report_file c r"
    and "cw_disk w = cr_disk s2" and "cw_open w = None" and "cert_history c careful w w'"
  shows "names_missing_report c r (cw_disk w') \<and> \<not> is_ok (read_cert_state c (cw_disk w'))
    \<and> \<not> is_ok (inspect_certificate c h (cw_disk w')) \<and> \<not> is_ok (fst (open_cert_store c root_user ancestors False (cw_disk w')))"
proof -
  from observe_effect [OF assms(2)] assms(3) obtain h1 where h1: "record_report (evidence c) (st_history (cr_state s)) r = Inr h1"
    "\<not> rp_completed r" "cr_state s1 = (cr_state s)\<lparr>st_history := h1\<rparr>" by (auto simp: Let_def saved_def)
  with assms(3) have "h1 \<noteq> st_history (cr_state s)" by auto
  from incomplete_keeps(2) [OF h1(1,2) this] h1(3) obtain f where f: "f \<in> set (st_history (cr_state s1))"
    "fl_report_digest f = digest_text (evidence_digest (evidence c) (report_json (evidence c) r))" by auto
  from observe_effect [OF assms(5)] obtain h2 where h2: "record_report (evidence c) (st_history (cr_state s1)) q = Inr h2"
    "\<not> rp_completed q" "saved c ((cert_files s1)(report_file c q \<mapsto> Stored (Observation_File q))) ((cr_state s1)\<lparr>st_history := h2\<rparr>) (Inr ()) s2"
    by (auto simp: Let_def)
  then have "cert_files s2 = (cert_files s1)(report_file c q \<mapsto> Stored (Observation_File q),
      STATE_FILE \<mapsto> Stored (State_File ((cr_state s1)\<lparr>st_history := h2\<rparr>)))" by (simp add: saved_def)
  moreover have "f \<in> set h2" using f(1) incomplete_keeps(1) [OF h2(1,2)] by blast
  ultimately have "names_missing_report c r (cw_disk w)"
    using assms(4,6,7) f(2) file_names_differ(1) by (auto simp: names_missing_report_def)
  from missing_history [OF assms(9,1,8) this] have missing: "names_missing_report c r (cw_disk w')" .
  note unreadable = missing_unreadable [OF assms(1) missing]
  then have "\<not> is_ok (inspect_certificate c h (cw_disk w'))" by (auto simp: inspect_certificate_def results)
  moreover have "\<not> is_ok (fst (open_cert_store c root_user ancestors False (cw_disk w')))"
    using unreadable by (auto simp: open_cert_store_def bind_op_def pure_def read_op_def is_ok_def split: sum.splits if_splits)
  ultimately show ?thesis using missing unreadable by blast
qed

theorem failed_observation_locks_store_witness:
  "\<exists>s e s1 s2. observe_report demo_certifier (demo_partial Cleanup_Pending) s = (Inl e, s1)
    \<and> observe_report demo_certifier (demo_partial Cleanup_Confirmed) s1 = (Inr (), s2)
    \<and> write_faults (cr_disk s2) = [] \<and> listable (cr_disk s2) \<and> \<not> is_ok (read_cert_state demo_certifier (cr_disk s2))"
proof -
  obtain d where d: "cert_history demo_certifier False demo_world (demo_world\<lparr>cw_disk := d, cw_open := Some demo_begun, cw_running := True\<rparr>)"
    "listable d" "lookup_file d = [STATE_FILE \<mapsto> Stored (State_File demo_begun)]" using demo_attempt_begun [of False] by metis
  let ?d = "d\<lparr>write_faults := [Before_Rename]\<rparr>" and ?e = "d\<lparr>write_faults := []\<rparr>"
  let ?r = "demo_partial Cleanup_Pending" and ?q = "demo_partial Cleanup_Confirmed" and ?st = "demo_begun\<lparr>st_history := [demo_failure Cleanup_Pending]\<rparr>"
  let ?s = "\<lparr>cr_disk = ?d, cr_state = demo_begun\<rparr>" and ?s1 = "\<lparr>cr_disk = ?e, cr_state = ?st\<rparr>"
  have pending: "st_pending demo_begun" "st_history demo_begun = []" by (simp_all add: begun_state_def empty_state_def)
  have partial: "rp_scope (demo_partial cl) = Installed_Host" "\<not> rp_completed (demo_partial cl)" for cl by (simp_all add: demo_partial_def)
  have "report_bytes (evidence demo_certifier) ?r = Inr (report_json (evidence demo_certifier) ?r)"
    using demo_shapes(2) demo_sizes(2) by (simp add: report_bytes_def ensure_def andThen_Inr report_result_Inr)
  then have failed: "observe_report demo_certifier ?r ?s = (Inl Cert_Io, ?s1)"
    using pending partial demo_record_first
    by (simp add: observe_report_def bind_op_def pure_def read_op_def keep_state_def cert_write_def write_op_def write_atomic_def next_fault_def Let_def)
  have s: "write_faults (cr_disk ?s1) = []" "listable (cr_disk ?s1)" "st_pending (cr_state ?s1)"
    "st_history (cr_state ?s1) = [demo_failure Cleanup_Pending]" using d(2) pending by simp_all
  obtain s2 where s2: "observe_report demo_certifier ?q ?s1 = (Inr (), s2)" "write_faults (cr_disk s2) = []" "listable (cr_disk s2)"
    using observe_calm [OF s(1-3) partial, of Cleanup_Confirmed "[demo_failure Cleanup_Pending]"] demo_record_second s(4) by auto
  have "evidence_digest (evidence demo_certifier) (report_json (evidence demo_certifier) ?r)
      \<noteq> evidence_digest (evidence demo_certifier) (report_json (evidence demo_certifier) ?q)"
    unfolding evidence_digest_def digest_of_inject by (simp add: demo_certifier_def demo_partial_def demo_cert_sha_def)
  then have apart: "report_file demo_certifier ?q \<noteq> report_file demo_certifier ?r" by (auto simp: file_names_differ(6))
  have changed: "cr_state ?s1 \<noteq> cr_state ?s" using pending by (auto dest: arg_cong [where f = st_history])
  have missing: "cert_files ?s1 (report_file demo_certifier ?r) = None" using d(3) file_names_differ(1) by (simp add: lookup_file_def)
  from failed_observation_locks_store [OF demo_certifier_codec failed changed missing s2(1) apart, of "demo_world\<lparr>cw_disk := cr_disk s2\<rparr>"
      False "demo_world\<lparr>cw_disk := cr_disk s2\<rparr>"]
  have "\<not> is_ok (read_cert_state demo_certifier (cr_disk s2))" by (simp add: demo_world_def cert_history_refl)
  with failed s2 show ?thesis by blast
qed

end
