(* ===== verification/Lifecycle_Store.thy ===== *)
theory Lifecycle_Store
  imports Vault Protocol_Messages
begin

section \<open>Durable lifecycle authorization\<close>

text \<open>
  skills-core/src/broker/lifecycle.rs, guard_resume.rs and the taint record of
  skill_quarantine.rs: which caller may ask for which lifecycle action, the requests the broker
  accepted before it dispatched them, the refusals of the supervisor, and the quarantine markers
  of a Session. Every record is written once; a vault holds the records of all Sessions, each
  Session in a directory of its own with the subdirectories \<open>requests\<close>, \<open>failures\<close> and
  \<open>networking\<close>. A file whose bytes are not the expected kind of record is malformed.
\<close>

subsection \<open>Callers\<close>

datatype lifecycle_caller = By_Operator u32
  | By_Coordinator string string "string list" u64 u64
  | By_Provider_Budget string
  | By_Skill_Quarantine string
  | By_Agent

fun caller_allows ::
  "lifecycle_caller \<Rightarrow> string \<Rightarrow> string \<Rightarrow> u64 \<Rightarrow> lifecycle_action \<Rightarrow> launch_authorization \<Rightarrow> u64 \<Rightarrow> bool" where
  "caller_allows (By_Operator uid) session run revision act launch now_ms = (uid = la_controller_uid launch)"
| "caller_allows (By_Coordinator own own_run descendants own_revision expires_at_ms) session run revision act launch now_ms =
     (is_record_identifier own \<and> own \<noteq> session \<and> own_run = run \<and> own_revision = revision
        \<and> now_ms < expires_at_ms \<and> act \<noteq> Act_Resume \<and> session \<in> set descendants)"
| "caller_allows (By_Provider_Budget own_run) session run revision act launch now_ms = (own_run = run \<and> act = Act_Park)"
| "caller_allows (By_Skill_Quarantine own_run) session run revision act launch now_ms = (own_run = run \<and> act = Act_Park)"
| "caller_allows By_Agent session run revision act launch now_ms = False"

definition caller_permits :: "lifecycle_caller \<Rightarrow> launch_authorization \<Rightarrow> lifecycle_request \<Rightarrow> u64 \<Rightarrow> bool" where
  "caller_permits k launch q now_ms =
     caller_allows k (lr_session_id q) (lr_run_id q) (lr_envelope_revision q) (lr_action q) launch now_ms"

definition allowed_actions ::
  "lifecycle_caller \<Rightarrow> launch_authorization \<Rightarrow> session_state \<Rightarrow> bool \<Rightarrow> u64 \<Rightarrow> lifecycle_action list" where
  "allowed_actions k launch st resume_withheld now_ms =
     filter (\<lambda>act. is_ok (transition st act) \<and> \<not> (resume_withheld \<and> act = Act_Resume)
         \<and> caller_allows k (la_session_id launch) (la_run_id launch) (la_envelope_revision launch) act launch now_ms)
       [Act_Park, Act_Resume, Act_Interrupt, Act_Disposal]"

fun caller_identity :: "lifecycle_caller \<Rightarrow> string" where
  "caller_identity (By_Operator uid) = ''operator:'' @ decimal (unat uid)"
| "caller_identity (By_Coordinator own _ _ _ _) = ''coordinator:'' @ own"
| "caller_identity (By_Provider_Budget _) = ''provider-budget''"
| "caller_identity (By_Skill_Quarantine _) = ''skill-quarantine''"
| "caller_identity By_Agent = ''agent''"

subsection \<open>Records\<close>

record accepted_request =
  ar_request :: lifecycle_request
  ar_caller :: string

datatype taint_source = Quarantined_By string | Evidence_Unreadable

record session_taint =
  tn_schema :: string
  tn_session_id :: string
  tn_run_id :: string
  tn_generation :: string
  tn_source :: taint_source
  tn_detected_at_ms :: u64
  tn_digest :: string

datatype quarantine_marker = Generic_Marker string | Taint_Marker string string

record guard_scope =
  gs_session_id :: string
  gs_run_id :: string
  gs_envelope_revision :: u64
  gs_revision :: u64
  gs_deadline_ns :: u64

record guard_resume =
  gn_schema :: string
  gn_protocol_version :: u32
  gn_request :: lifecycle_request
  gn_parked_head :: receipt_head
  gn_scope :: guard_scope

datatype lifecycle_file = Accepted_File accepted_request | Failure_File protocol_error
  | Taint_File session_taint | Quarantine_File quarantine_marker | Networking_File guard_resume

record lifecycle_codec =
  protocol :: protocol_codec
  taint_json :: "string \<times> string \<times> string \<times> string \<times> taint_source \<times> u64 \<Rightarrow> string"

type_synonym 'a lifecycle_op = "(lifecycle_file, 'a) vault_op"

definition lifecycle_sha :: "lifecycle_codec \<Rightarrow> string \<Rightarrow> u8 list" where
  "lifecycle_sha c = digest_bytes (receipt_codec (protocol c))"

definition request_file :: "lifecycle_codec \<Rightarrow> string \<Rightarrow> string" where
  "request_file c i = digest_of (lifecycle_sha c) i @ ''.json''"

definition requests_dir :: "string \<Rightarrow> string" where
  "requests_dir i = i @ ''/requests''"

definition failures_dir :: "string \<Rightarrow> string" where
  "failures_dir i = i @ ''/failures''"

definition networking_dir :: "string \<Rightarrow> string" where
  "networking_dir i = i @ ''/networking''"

definition read_kind ::
  "(lifecycle_file \<Rightarrow> 'r option) \<Rightarrow> string \<Rightarrow> string \<Rightarrow> lifecycle_file vault \<Rightarrow> broker_error + 'r option" where
  "read_kind kind dir name v =
     andThen (read_record dir name v) (\<lambda>x. case x of None \<Rightarrow> Inr None
       | Some f \<Rightarrow> (case kind f of None \<Rightarrow> Inl (corrupt ''broker record is malformed'') | Some r \<Rightarrow> Inr (Some r)))"

fun as_accepted :: "lifecycle_file \<Rightarrow> accepted_request option" where
  "as_accepted (Accepted_File a) = Some a"
| "as_accepted _ = None"

fun as_failure :: "lifecycle_file \<Rightarrow> protocol_error option" where
  "as_failure (Failure_File e) = Some e"
| "as_failure _ = None"

fun as_taint :: "lifecycle_file \<Rightarrow> session_taint option" where
  "as_taint (Taint_File t) = Some t"
| "as_taint _ = None"

fun as_marker :: "lifecycle_file \<Rightarrow> quarantine_marker option" where
  "as_marker (Quarantine_File m) = Some m"
| "as_marker _ = None"

fun as_networking :: "lifecycle_file \<Rightarrow> guard_resume option" where
  "as_networking (Networking_File g) = Some g"
| "as_networking _ = None"

definition read_accepted :: "lifecycle_codec \<Rightarrow> string \<Rightarrow> string \<Rightarrow> lifecycle_file vault \<Rightarrow> broker_error + accepted_request option" where
  "read_accepted c session i = read_kind as_accepted (requests_dir session) (request_file c i)"

definition recorded_failure :: "lifecycle_codec \<Rightarrow> lifecycle_request \<Rightarrow> lifecycle_file vault \<Rightarrow> broker_error + protocol_error option" where
  "recorded_failure c q v =
     andThen (read_kind as_failure (failures_dir (lr_session_id q)) (request_file c (lr_request_id q)) v) (\<lambda>found.
     andThen (case found of None \<Rightarrow> Inr () | Some e \<Rightarrow> map_err Policy (validate_protocol_error e)) (\<lambda>_.
     Inr found))"

text \<open>An existing file is opened and synced, then its directory.\<close>

definition sync_again :: "unit lifecycle_op" where
  "sync_again = bind_op vault_call (\<lambda>_. vault_call)"

definition open_lifecycle :: "unit lifecycle_op" where
  "open_lifecycle = bind_op vault_call (\<lambda>_. bind_op vault_call (\<lambda>_. vault_call))"

subsection \<open>Quarantine\<close>

definition SESSION_TAINT_SCHEMA :: string where
  "SESSION_TAINT_SCHEMA = ''louiselm.session-taint/1''"

definition QUARANTINE_MARKER_SCHEMA :: string where
  "QUARANTINE_MARKER_SCHEMA = ''louiselm.quarantine-marker/1''"

definition body_digest :: "lifecycle_codec \<Rightarrow> session_taint \<Rightarrow> digest" where
  "body_digest c t = digest_of (lifecycle_sha c)
     (taint_json c (tn_schema t, tn_session_id t, tn_run_id t, tn_generation t, tn_source t, tn_detected_at_ms t))"

definition validate_taint :: "lifecycle_codec \<Rightarrow> session_taint \<Rightarrow> string \<Rightarrow> broker_error + unit" where
  "validate_taint c t session =
     ensure (\<not> (tn_schema t \<noteq> SESSION_TAINT_SCHEMA \<or> tn_session_id t \<noteq> session
        \<or> \<not> is_record_identifier (tn_session_id t) \<or> \<not> is_record_identifier (tn_run_id t)
        \<or> \<not> is_ok (parse_digest (tn_generation t)) \<or> tn_detected_at_ms t = 0
        \<or> (case tn_source t of Quarantined_By d \<Rightarrow> \<not> is_ok (parse_digest d) | Evidence_Unreadable \<Rightarrow> False)
        \<or> tn_digest t \<noteq> digest_text (body_digest c t)))
       (corrupt ''Session output taint is invalid'')"

definition new_taint ::
  "lifecycle_codec \<Rightarrow> launch_authorization \<Rightarrow> string \<Rightarrow> taint_source \<Rightarrow> u64 \<Rightarrow> broker_error + session_taint" where
  "new_taint c launch generation source detected_at_ms =
     (let t = \<lparr>tn_schema = SESSION_TAINT_SCHEMA, tn_session_id = la_session_id launch, tn_run_id = la_run_id launch,
         tn_generation = generation, tn_source = source, tn_detected_at_ms = detected_at_ms, tn_digest = []\<rparr>;
         t' = t\<lparr>tn_digest := digest_text (body_digest c t)\<rparr>
      in andThen (validate_taint c t' (la_session_id launch)) (\<lambda>_. Inr t'))"

definition TAINT_FILE :: string where
  "TAINT_FILE = ''session-taint.json''"

definition skill_taint :: "lifecycle_codec \<Rightarrow> string \<Rightarrow> lifecycle_file vault \<Rightarrow> broker_error + session_taint option" where
  "skill_taint c session v =
     andThen (ensure (is_record_identifier session) Invalid_Grant) (\<lambda>_.
     andThen (read_kind as_taint session TAINT_FILE v) (\<lambda>found.
     andThen (case found of None \<Rightarrow> Inr () | Some t \<Rightarrow> validate_taint c t session) (\<lambda>_. Inr found)))"

fun marker_valid :: "quarantine_marker \<Rightarrow> broker_error + unit" where
  "marker_valid (Generic_Marker schema) =
     ensure (schema = QUARANTINE_MARKER_SCHEMA) (corrupt ''quarantine marker is invalid'')"
| "marker_valid (Taint_Marker schema d) =
     andThen (ensure (schema = QUARANTINE_MARKER_SCHEMA) (corrupt ''quarantine marker is invalid'')) (\<lambda>_.
     ensure (is_ok (parse_digest d)) (corrupt ''quarantine marker digest is invalid''))"

definition read_marker :: "string \<Rightarrow> string \<Rightarrow> lifecycle_file vault \<Rightarrow> broker_error + quarantine_marker option" where
  "read_marker session name v =
     andThen (read_kind as_marker session name v) (\<lambda>found.
     andThen (case found of None \<Rightarrow> Inr () | Some m \<Rightarrow> marker_valid m) (\<lambda>_. Inr found))"

definition MARKER_FILE :: string where
  "MARKER_FILE = ''quarantined.json''"

definition REFERENCE_FILE :: string where
  "REFERENCE_FILE = ''session-taint-reference.json''"

definition refers_elsewhere :: "session_taint option \<Rightarrow> quarantine_marker option \<Rightarrow> bool" where
  "refers_elsewhere t m = (case m of Some (Taint_Marker _ d) \<Rightarrow> map_option tn_digest t \<noteq> Some d | _ \<Rightarrow> False)"

definition is_quarantined :: "lifecycle_codec \<Rightarrow> string \<Rightarrow> lifecycle_file vault \<Rightarrow> broker_error + bool" where
  "is_quarantined c session v =
     andThen (ensure (is_record_identifier session) Invalid_Grant) (\<lambda>_.
     andThen (skill_taint c session v) (\<lambda>t.
     andThen (read_marker session MARKER_FILE v) (\<lambda>m.
     andThen (read_marker session REFERENCE_FILE v) (\<lambda>r.
     andThen (ensure (\<not> (refers_elsewhere t m \<or> refers_elsewhere t r))
        (corrupt ''Session output taint is missing or contradictory'')) (\<lambda>_.
     andThen (ensure (case r of Some (Generic_Marker _) \<Rightarrow> False | _ \<Rightarrow> True)
        (corrupt ''Session output taint reference is invalid'')) (\<lambda>_.
     Inr (m \<noteq> None \<or> t \<noteq> None)))))))"

definition quarantine :: "lifecycle_codec \<Rightarrow> string \<Rightarrow> unit lifecycle_op" where
  "quarantine c session =
     bind_op (pure (ensure (is_record_identifier session) Invalid_Grant)) (\<lambda>_.
     bind_op (read_op (is_quarantined c session)) (\<lambda>_.
     bind_op (read_op (read_marker session MARKER_FILE)) (\<lambda>found.
     if found \<noteq> None then sync_again
     else bind_op vault_call (\<lambda>_. bind_op vault_call (\<lambda>_.
       write_new_record session MARKER_FILE (Quarantine_File (Generic_Marker QUARANTINE_MARKER_SCHEMA)))))))"

text \<open>The three parts of \<open>record_skill_taint\<close>: the taint, the marker that names it, the final check.\<close>

definition file_taint :: "session_taint \<Rightarrow> session_taint option \<Rightarrow> unit lifecycle_op" where
  "file_taint t found =
     (case found of
        Some old \<Rightarrow> bind_op (pure (ensure (\<not> (tn_run_id old \<noteq> tn_run_id t \<or> tn_generation old \<noteq> tn_generation t))
            (corrupt ''Session output taint conflicts with launch''))) (\<lambda>_. sync_again)
      | None \<Rightarrow> bind_op vault_call (\<lambda>_. bind_op vault_call (\<lambda>_.
            write_new_record (tn_session_id t) TAINT_FILE (Taint_File t))))"

definition file_marker :: "session_taint \<Rightarrow> session_taint \<Rightarrow> quarantine_marker option \<Rightarrow> unit lifecycle_op" where
  "file_marker t durable marker =
     (let session = tn_session_id t; reference = Taint_Marker QUARANTINE_MARKER_SCHEMA (tn_digest durable) in
      case marker of
        None \<Rightarrow> write_new_record session MARKER_FILE (Quarantine_File reference)
      | Some (Generic_Marker _) \<Rightarrow>
          bind_op (read_op (read_marker session REFERENCE_FILE)) (\<lambda>r.
          if r = None then write_new_record session REFERENCE_FILE (Quarantine_File reference) else pure (Inr ()))
      | Some (Taint_Marker _ d) \<Rightarrow>
          pure (ensure (d = tn_digest t) (corrupt ''quarantine marker conflicts with Session output taint'')))"

definition record_skill_taint :: "lifecycle_codec \<Rightarrow> session_taint \<Rightarrow> unit lifecycle_op" where
  "record_skill_taint c t =
     bind_op (pure (validate_taint c t (tn_session_id t))) (\<lambda>_.
     bind_op (read_op (skill_taint c (tn_session_id t))) (\<lambda>found.
     bind_op (file_taint t found) (\<lambda>_.
     bind_op (read_op (skill_taint c (tn_session_id t))) (\<lambda>stored.
     bind_op (pure (ok_or stored (corrupt ''Session output taint disappeared''))) (\<lambda>durable.
     bind_op (read_op (read_marker (tn_session_id t) MARKER_FILE)) (\<lambda>marker.
     bind_op (file_marker t durable marker) (\<lambda>_.
     bind_op (read_op (is_quarantined c (tn_session_id t))) (\<lambda>_. pure (Inr ())))))))))"

subsection \<open>Requests\<close>

definition refusal :: "supervisor_status \<Rightarrow> error_code \<Rightarrow> broker_error" where
  "refusal status code =
     Policy (protocol_error_new code (Some (ss_state status)) (map_option head_sequence (broker_head status)))"

definition answered :: "signed_receipt list \<Rightarrow> string \<Rightarrow> bool" where
  "answered receipts i = list_ex (\<lambda>r. pl_request_id (payload r) = i) receipts"

definition answer_to :: "signed_receipt list \<Rightarrow> string \<Rightarrow> signed_receipt option" where
  "answer_to receipts i = find (\<lambda>r. pl_request_id (payload r) = i) receipts"

fun scan_pending ::
  "lifecycle_codec \<Rightarrow> string \<Rightarrow> signed_receipt list \<Rightarrow> lifecycle_file vault \<Rightarrow> nat \<Rightarrow> string list \<Rightarrow> broker_error + unit" where
  "scan_pending c session receipts v index [] = Inr ()"
| "scan_pending c session receipts v index (name # names) =
     andThen (ensure (\<not> 4096 \<le> index) (corrupt ''lifecycle request history exceeds its bound'')) (\<lambda>_.
     andThen (read_kind as_accepted (requests_dir session) name v) (\<lambda>found.
     andThen (ok_or found (corrupt ''lifecycle request disappeared'')) (\<lambda>a.
     andThen (map_err Policy (validate_lifecycle_request (ar_request a))) (\<lambda>_.
     andThen (if answered receipts (lr_request_id (ar_request a)) then Inr ()
        else andThen (recorded_failure c (ar_request a) v) (\<lambda>e.
          ensure (e \<noteq> None) (Policy (failure Operation_Pending)))) (\<lambda>_.
     scan_pending c session receipts v (Suc index) names)))))"

definition check_no_pending ::
  "lifecycle_codec \<Rightarrow> string \<Rightarrow> signed_receipt list \<Rightarrow> lifecycle_file vault \<Rightarrow> broker_error + unit" where
  "check_no_pending c session receipts v =
     andThen (ensure (v_listable v) (Storage ''io'')) (\<lambda>_.
     scan_pending c session receipts v 0 (dir_names v (requests_dir session)))"

fun pending_refusal :: "supervisor_status \<Rightarrow> broker_error \<Rightarrow> broker_error" where
  "pending_refusal status (Policy _) = refusal status Operation_Pending"
| "pending_refusal status e = e"

text \<open>The checks of \<open>prepare\<close> before it takes its lock.\<close>

definition check_lifecycle_policy ::
  "launch_authorization \<Rightarrow> supervisor_status \<Rightarrow> lifecycle_caller \<Rightarrow> lifecycle_request \<Rightarrow> u64 \<Rightarrow> broker_error + unit" where
  "check_lifecycle_policy launch status k q now_ms =
     andThen (map_err Policy (validate_launch_authorization launch)) (\<lambda>_.
     andThen (map_err Policy (validate_supervisor_status status)) (\<lambda>_.
     andThen (map_err Policy (validate_lifecycle_request q)) (\<lambda>_.
     andThen (ensure (la_session_id launch = lr_session_id q \<and> la_run_id launch = lr_run_id q)
        (refusal status Subject_Mismatch)) (\<lambda>_.
     andThen (ensure (la_envelope_revision launch = lr_envelope_revision q)
        (refusal status Envelope_Revision_Mismatch)) (\<lambda>_.
     ensure (caller_permits k launch q now_ms) (refusal status Invalid_Request))))))"

text \<open>What is read under the lock: the earlier acceptance and what is to be done.\<close>

definition decide_lifecycle ::
  "lifecycle_codec \<Rightarrow> supervisor_status \<Rightarrow> lifecycle_caller \<Rightarrow> lifecycle_request \<Rightarrow> signed_receipt list \<Rightarrow> lifecycle_file vault
     \<Rightarrow> broker_error + accepted_request option \<times> request_disposition" where
  "decide_lifecycle c status k q receipts v =
     andThen (read_accepted c (lr_session_id q) (lr_request_id q) v) (\<lambda>accepted.
     andThen (ensure (case accepted of None \<Rightarrow> True
         | Some a \<Rightarrow> \<not> (ar_request a \<noteq> q \<or> ar_caller a \<noteq> caller_identity k)) (refusal status Request_Id_Conflict)) (\<lambda>_.
     let completed = map_option (completed_request_new (protocol c) q) (answer_to receipts (lr_request_id q)) in
     andThen (ensure (\<not> (completed \<noteq> None \<and> accepted = None)) (refusal status Request_Id_Conflict)) (\<lambda>_.
     andThen (recorded_failure c q v) (\<lambda>failed.
     andThen (case failed of None \<Rightarrow> Inr () | Some e \<Rightarrow> Inl (Policy e)) (\<lambda>_.
     andThen (if completed = None \<and> lr_action q = Act_Resume
        then andThen (is_quarantined c (lr_session_id q) v) (\<lambda>stopped. ensure (\<not> stopped) (refusal status Invalid_Request))
        else Inr ()) (\<lambda>_.
     andThen (map_err Policy (evaluate_request (protocol c) status completed q)) (\<lambda>disposition.
     Inr (accepted, disposition))))))))"

definition prepare_lifecycle ::
  "lifecycle_codec \<Rightarrow> launch_authorization \<Rightarrow> supervisor_status \<Rightarrow> lifecycle_caller \<Rightarrow> lifecycle_request \<Rightarrow> u64
     \<Rightarrow> signed_receipt list \<Rightarrow> request_disposition lifecycle_op" where
  "prepare_lifecycle c launch status k q now_ms receipts =
     bind_op (pure (check_lifecycle_policy launch status k q now_ms)) (\<lambda>_.
     bind_op (read_op (decide_lifecycle c status k q receipts)) (\<lambda>(accepted, disposition).
     if accepted \<noteq> None then bind_op sync_again (\<lambda>_. pure (Inr disposition))
     else
       bind_op (read_op (\<lambda>v. map_err (pending_refusal status) (check_no_pending c (lr_session_id q) receipts v))) (\<lambda>_.
       bind_op vault_call (\<lambda>_. bind_op vault_call (\<lambda>_. bind_op vault_call (\<lambda>_.
       bind_op (write_new_record (requests_dir (lr_session_id q)) (request_file c (lr_request_id q))
          (Accepted_File \<lparr>ar_request = q, ar_caller = caller_identity k\<rparr>)) (\<lambda>_.
       pure (Inr disposition))))))))"

definition record_failure :: "lifecycle_codec \<Rightarrow> lifecycle_request \<Rightarrow> protocol_error \<Rightarrow> unit lifecycle_op" where
  "record_failure c q e =
     bind_op (pure (map_err Policy (validate_lifecycle_request q))) (\<lambda>_.
     bind_op (pure (map_err Policy (validate_protocol_error e))) (\<lambda>_.
     bind_op (read_op (read_accepted c (lr_session_id q) (lr_request_id q))) (\<lambda>found.
     bind_op (pure (ok_or found Invalid_Grant)) (\<lambda>accepted.
     bind_op (pure (ensure (ar_request accepted = q) Invalid_Grant)) (\<lambda>_.
     bind_op (read_op (recorded_failure c q)) (\<lambda>stored.
     case stored of
       Some old \<Rightarrow> bind_op (pure (ensure (old = e) Invalid_Grant)) (\<lambda>_. sync_again)
     | None \<Rightarrow> bind_op vault_call (\<lambda>_. bind_op vault_call (\<lambda>_.
         write_new_record (failures_dir (lr_session_id q)) (request_file c (lr_request_id q)) (Failure_File e)))))))))"

definition check_lifecycle_receipt :: "lifecycle_codec \<Rightarrow> signed_receipt \<Rightarrow> lifecycle_file vault \<Rightarrow> broker_error + unit" where
  "check_lifecycle_receipt c r v =
     andThen (map_err Receipt_Refused (validate_receipt (receipt_codec (protocol c)) r)) (\<lambda>_.
     case authorized_lifecycle_outcome (outcome (payload r)) of
       None \<Rightarrow> Inr ()
     | Some (a, act) \<Rightarrow>
         andThen (read_accepted c (pl_session_id (payload r)) (auth_request_id a) v) (\<lambda>found.
         andThen (ok_or found Receipt_Unauthorized) (\<lambda>accepted.
         let q = ar_request accepted in
         andThen (ensure (lr_authorization_id q = auth_authorization_id a \<and> lr_request_id q = auth_request_id a
            \<and> digest_text (request_digest (protocol c) q) = auth_request_digest a \<and> lr_action q = act
            \<and> lr_session_id q = pl_session_id (payload r) \<and> lr_run_id q = pl_run_id (payload r)
            \<and> lr_envelope_revision q = pl_envelope_revision (payload r)) Receipt_Unauthorized) (\<lambda>_.
         andThen (recorded_failure c q v) (\<lambda>failed. ensure (failed = None) Receipt_Unauthorized)))))"

definition recorded_result ::
  "lifecycle_codec \<Rightarrow> lifecycle_caller \<Rightarrow> lifecycle_request \<Rightarrow> signed_receipt list \<Rightarrow> lifecycle_file vault
     \<Rightarrow> broker_error + signed_receipt option" where
  "recorded_result c k q receipts v =
     andThen (map_err Policy (validate_lifecycle_request q)) (\<lambda>_.
     andThen (read_accepted c (lr_session_id q) (lr_request_id q) v) (\<lambda>found.
     case found of
       None \<Rightarrow> Inr None
     | Some a \<Rightarrow>
         andThen (ensure (\<not> (ar_request a \<noteq> q \<or> ar_caller a \<noteq> caller_identity k)) (Policy (failure Request_Id_Conflict))) (\<lambda>_.
         andThen (recorded_failure c q v) (\<lambda>failed.
         andThen (case failed of None \<Rightarrow> Inr () | Some e \<Rightarrow> Inl (Policy e)) (\<lambda>_.
         case answer_to receipts (lr_request_id q) of
           None \<Rightarrow> Inr None
         | Some r \<Rightarrow>
             andThen (ensure (authorized_lifecycle_outcome (outcome (payload r)) \<noteq> None) Receipt_Unauthorized) (\<lambda>_.
             andThen (check_lifecycle_receipt c r v) (\<lambda>_. Inr (Some r))))))))"

fun skill_quarantine_park ::
  "lifecycle_codec \<Rightarrow> signed_receipt list \<Rightarrow> lifecycle_file vault \<Rightarrow> broker_error + receipt_head option" where
  "skill_quarantine_park c [] v = Inr None"
| "skill_quarantine_park c (r # rs) v =
     (case outcome (payload r) of
        Park (Authorized a) \<Rightarrow>
          andThen (read_accepted c (pl_session_id (payload r)) (auth_request_id a) v) (\<lambda>found.
          case found of
            None \<Rightarrow> skill_quarantine_park c rs v
          | Some x \<Rightarrow>
              if ar_caller x = ''skill-quarantine'' \<and> lr_session_id (ar_request x) = pl_session_id (payload r)
                 \<and> lr_run_id (ar_request x) = pl_run_id (payload r) \<and> lr_request_id (ar_request x) = auth_request_id a
                 \<and> lr_authorization_id (ar_request x) = auth_authorization_id a
                 \<and> digest_text (request_digest (protocol c) (ar_request x)) = auth_request_digest a
              then Inr (Some \<lparr>head_sequence = pl_sequence (payload r),
                head_digest = digest_text (receipt_digest (receipt_codec (protocol c)) r)\<rparr>)
              else skill_quarantine_park c rs v)
      | _ \<Rightarrow> skill_quarantine_park c rs v)"

definition last_quarantine_park ::
  "lifecycle_codec \<Rightarrow> signed_receipt list \<Rightarrow> lifecycle_file vault \<Rightarrow> broker_error + receipt_head option" where
  "last_quarantine_park c receipts = skill_quarantine_park c (rev receipts)"

subsection \<open>Networking of a resumed Session\<close>

definition GUARD_RESUME_SCHEMA :: string where
  "GUARD_RESUME_SCHEMA = ''louiselm.launch.guard-resume/1''"

definition validate_guard_scope :: "guard_scope \<Rightarrow> protocol_error + unit" where
  "validate_guard_scope s =
     andThen (protocol_identifier (gs_session_id s)) (\<lambda>_.
     andThen (protocol_identifier (gs_run_id s)) (\<lambda>_.
     ensure (\<not> (gs_envelope_revision s = 0 \<or> gs_revision s = 0 \<or> gs_deadline_ns s = 0)) (failure Invalid_Request)))"

definition validate_guard_resume :: "guard_resume \<Rightarrow> protocol_error + unit" where
  "validate_guard_resume g =
     andThen (protocol_schema (gn_schema g) GUARD_RESUME_SCHEMA) (\<lambda>_.
     andThen (protocol_version_is (gn_protocol_version g)) (\<lambda>_.
     andThen (validate_lifecycle_request (gn_request g)) (\<lambda>_.
     andThen (validate_guard_scope (gn_scope g)) (\<lambda>_.
     ensure (\<not> (lr_action (gn_request g) \<noteq> Act_Resume \<or> expected_state (gn_request g) \<noteq> Parked
        \<or> expected_receipt_sequence (gn_request g) \<noteq> Some (head_sequence (gn_parked_head g))
        \<or> gs_session_id (gn_scope g) \<noteq> lr_session_id (gn_request g)
        \<or> gs_run_id (gn_scope g) \<noteq> lr_run_id (gn_request g)
        \<or> gs_envelope_revision (gn_scope g) \<noteq> lr_envelope_revision (gn_request g)
        \<or> \<not> is_ok (parse_digest (head_digest (gn_parked_head g))))) (failure Invalid_Request)))))"

definition recorded_guard_resume ::
  "lifecycle_codec \<Rightarrow> lifecycle_request \<Rightarrow> lifecycle_file vault \<Rightarrow> broker_error + guard_resume" where
  "recorded_guard_resume c q v =
     andThen (read_kind as_networking (networking_dir (lr_session_id q)) (request_file c (lr_request_id q)) v) (\<lambda>found.
     andThen (ok_or found Receipt_Unauthorized) (\<lambda>g.
     andThen (map_err Policy (validate_guard_resume g)) (\<lambda>_.
     andThen (ensure (gn_request g = q) Request_Mismatch) (\<lambda>_. Inr g))))"

fun by_operator :: "lifecycle_caller \<Rightarrow> bool" where
  "by_operator (By_Operator _) = True"
| "by_operator _ = False"

definition record_guard_resume :: "lifecycle_codec \<Rightarrow> lifecycle_caller \<Rightarrow> guard_resume \<Rightarrow> unit lifecycle_op" where
  "record_guard_resume c k g =
     (let q = gn_request g; dir = networking_dir (lr_session_id q); name = request_file c (lr_request_id q) in
      bind_op (pure (map_err Policy (validate_guard_resume g))) (\<lambda>_.
      bind_op (read_op (read_accepted c (lr_session_id q) (lr_request_id q))) (\<lambda>found.
      bind_op (pure (ok_or found Invalid_Grant)) (\<lambda>accepted.
      bind_op (pure (ensure (by_operator k \<and> ar_caller accepted = caller_identity k \<and> ar_request accepted = q) Invalid_Grant)) (\<lambda>_.
      bind_op (read_op (read_kind as_networking dir name)) (\<lambda>stored.
      case stored of
        Some old \<Rightarrow> bind_op (pure (ensure (old = g) Request_Mismatch)) (\<lambda>_. sync_again)
      | None \<Rightarrow> bind_op vault_call (\<lambda>_. bind_op vault_call (\<lambda>_. write_new_record dir name (Networking_File g)))))))))"

end
