(* ===== verification/Vault_Relations.thy ===== *)
theory Vault_Relations
  imports Vault
begin

section \<open>Operations that respect a relation\<close>

text \<open>
  \<open>keeps R m\<close>: the operation \<open>m\<close> leads from a vault only to vaults that stand in the relation \<open>R\<close>
  to it, whatever it returns. The locale collects what such a relation needs for the rules below;
  it is interpreted for \<open>only_adds\<close> (no file is lost or changed, and every new one is of a given
  kind) and for \<open>only_within\<close> (nothing changes outside some directories).
\<close>

named_theorems adders "operations that only add files of one kind"

named_theorems withins "operations that stay within some directories"

definition keeps :: "('r vault \<Rightarrow> 'r vault \<Rightarrow> bool) \<Rightarrow> ('r, 'a) vault_op \<Rightarrow> bool" where
  "keeps R m \<longleftrightarrow> (\<forall>v. R v (snd (m v)))"

lemma keepsD: "keeps R m \<Longrightarrow> m v = (x, v') \<Longrightarrow> R v v'"
  unfolding keeps_def by (metis snd_conv)

lemma keeps_if: "keeps R m \<Longrightarrow> keeps R m' \<Longrightarrow> keeps R (if b then m else m')"
  by simp

lemma keeps_option: "keeps R m \<Longrightarrow> (\<And>a. keeps R (k a)) \<Longrightarrow> keeps R (case x of None \<Rightarrow> m | Some a \<Rightarrow> k a)"
  by (cases x) simp_all

lemma keeps_let: "keeps R (f x) \<Longrightarrow> keeps R (let y = x in f y)"
  by simp

lemma keeps_pair: "(\<And>a b. keeps R (f a b)) \<Longrightarrow> keeps R (case p of (a, b) \<Rightarrow> f a b)"
  by (cases p) simp

locale vault_relation =
  fixes R :: "'r vault \<Rightarrow> 'r vault \<Rightarrow> bool"
  assumes same: "v_files v' = v_files v \<Longrightarrow> v_listable v' = v_listable v \<Longrightarrow> R v v'"
    and trans: "R u v \<Longrightarrow> R v w \<Longrightarrow> R u w"
begin

lemma keeps_pure: "keeps R (pure r)"
  by (simp add: keeps_def pure_def same)

lemma keeps_read: "keeps R (read_op f)"
  by (simp add: keeps_def read_op_def same)

lemma keeps_call: "keeps R vault_call"
  by (simp add: keeps_def vault_call_def same)

lemma keeps_bind:
  assumes "keeps R m" and "\<And>a. keeps R (k a)"
  shows "keeps R (bind_op m k)"
  unfolding keeps_def
proof
  fix v
  obtain r u where m: "m v = (r, u)" by fastforce
  have first: "R v u" using assms(1) m by (rule keepsD)
  moreover have "R u (snd (k a u))" for a using assms(2) by (simp add: keeps_def)
  ultimately show "R v (snd (bind_op m k v))" by (cases r) (simp_all add: bind_op_def m trans [OF first])
qed

lemmas keeps_rules = keeps_pure keeps_read keeps_call keeps_bind keeps_if keeps_option keeps_let keeps_pair

end

definition only_adds :: "(string \<Rightarrow> string \<Rightarrow> 'r \<Rightarrow> bool) \<Rightarrow> 'r vault \<Rightarrow> 'r vault \<Rightarrow> bool" where
  "only_adds P v v' \<longleftrightarrow> extends v v' \<and> (vault_ok v \<longrightarrow> vault_ok v')
     \<and> (\<forall>dir name f. vault_file v' dir name = Some (Stored f) \<longrightarrow> vault_file v dir name = Some (Stored f) \<or> P dir name f)"

lemma only_adds_refl [simp]: "only_adds P v v"
  by (simp add: only_adds_def)

lemma only_adds_files: "v_files v' = v_files v \<Longrightarrow> only_adds P v v'"
  using vault_file_files [of v' v] vault_ok_files [of v' v] by (simp add: only_adds_def extends_files)

interpretation adds: vault_relation "only_adds P" for P :: "string \<Rightarrow> string \<Rightarrow> 'r \<Rightarrow> bool"
proof
  show "only_adds P v v'" if "v_files v' = v_files v" for v v' :: "'r vault" using that by (rule only_adds_files)
  show "only_adds P u w" if "only_adds P u v" "only_adds P v w" for u v w :: "'r vault"
    using that extends_trans unfolding only_adds_def by blast
qed

lemmas adds_rules [adders] = adds.keeps_rules

lemma adds_write [adders]:
  assumes "P dir name f"
  shows "keeps (only_adds P) (write_new_record dir name f)"
  unfolding keeps_def
proof
  fix v
  obtain x v' where w: "write_new_record dir name f v = (x, v')" by fastforce
  note e = write_new_record_extends [OF w]
  from write_new_record_cases [OF w] consider "v_files v' = v_files v"
    | e where "vault_file v dir name = None" "v_files v' = v_files v @ [((dir, name), e)]" "e = Stored f \<or> e = Malformed" by auto
  then have "\<forall>d n g. vault_file v' d n = Some (Stored g) \<longrightarrow> vault_file v d n = Some (Stored g) \<or> P d n g"
  proof cases
    case 1
    then show ?thesis using vault_file_files [of v' v] by simp
  next
    case 2
    then show ?thesis using assms by (auto simp: vault_file_snoc [OF 2(1,2)])
  qed
  then show "only_adds P v (snd (write_new_record dir name f v))" using e w by (simp add: only_adds_def)
qed

definition only_within :: "string set \<Rightarrow> 'r vault \<Rightarrow> 'r vault \<Rightarrow> bool" where
  "only_within D v v' \<longleftrightarrow> v_listable v' = v_listable v
     \<and> filter (\<lambda>((d, _), _). d \<notin> D) (v_files v') = filter (\<lambda>((d, _), _). d \<notin> D) (v_files v)"

interpretation within: vault_relation "only_within D" for D
proof
  show "only_within D v v'" if "v_files v' = v_files v" "v_listable v' = v_listable v" for v v' :: "'r vault"
    using that by (simp add: only_within_def)
  show "only_within D u w" if "only_within D u v" "only_within D v w" for u v w :: "'r vault"
    using that unfolding only_within_def by metis
qed

lemmas within_rules [withins] = within.keeps_rules

lemma within_write [withins]: "dir \<in> D \<Longrightarrow> keeps (only_within D) (write_new_record dir name f)"
  by (auto simp: keeps_def only_within_def write_new_record_def add_file_def split: vault_fault.split)

lemma map_of_filter_keys: "P k \<Longrightarrow> map_of (filter (\<lambda>(k, _). P k) xs) k = map_of xs k"
  by (induction xs) auto

lemma within_elsewhere:
  assumes "only_within D v v'" and "dir \<notin> D"
  shows "dir_names v' dir = dir_names v dir" "vault_file v' dir name = vault_file v dir name"
proof -
  have look: "vault_file u dir name = map_of (filter (\<lambda>((d, _), _). d \<notin> D) (v_files u)) (dir, name)" for u :: "'r vault"
    using map_of_filter_keys [of "\<lambda>(d, _). d \<notin> D" "(dir, name)" "v_files u"] assms(2)
    by (simp add: vault_file_def case_prod_unfold)
  show "vault_file v' dir name = vault_file v dir name" using assms(1) by (simp add: look only_within_def)
  have names: "dir_names u dir = map (snd \<circ> fst) (filter (\<lambda>((d, _), _). d = dir) (filter (\<lambda>((d, _), _). d \<notin> D) (v_files u)))" for u :: "'r vault"
    using assms(2) by (simp add: dir_names_def) (intro arg_cong [where f = "map _"] filter_cong; auto)
  show "dir_names v' dir = dir_names v dir" using assms(1) unfolding names only_within_def by simp
qed

lemma bound_call: "bind_op vault_call k v = (x, v') \<Longrightarrow>
    \<exists>u. v_files u = v_files v \<and> v_listable u = v_listable v \<and> ((\<exists>e. x = Inl e) \<and> v' = u \<or> k () u = (x, v'))"
  by (intro exI [of _ "after_fault v"]) (auto simp: bind_op_def vault_call_def split: if_splits)

end
