(* ===== verification/Lifecycle_History.thy ===== *)
theory Lifecycle_History
  imports Lifecycle_Store Vault_Relations
begin

section \<open>What lifecycle operations leave behind\<close>

text \<open>
  No operation of the lifecycle store changes or removes a file, and each adds only records of
  its own kind. The histories of a broker interleave the operations with new receipts and with
  faults of the file system, for ever; what was promised at one time holds at every later one.
\<close>

subsection \<open>Operations that only add records\<close>

lemma adds_marker [adders]:
  "(\<And>s. keeps (only_adds P) (f s)) \<Longrightarrow> (\<And>s d. keeps (only_adds P) (g s d)) \<Longrightarrow> keeps (only_adds P) (case m of Generic_Marker s \<Rightarrow> f s | Taint_Marker s d \<Rightarrow> g s d)"
  by (cases m) simp_all

lemma adds_sync [adders]: "keeps (only_adds P) sync_again"
  unfolding sync_again_def by (intro adders)

definition not_accepted :: "string \<Rightarrow> string \<Rightarrow> lifecycle_file \<Rightarrow> bool" where
  "not_accepted dir name f \<longleftrightarrow> as_accepted f = None"

lemma quarantine_adds: "keeps (only_adds not_accepted) (quarantine c s)"
  unfolding quarantine_def by (intro adders) (simp add: not_accepted_def)

lemma file_marker_adds: "keeps (only_adds not_accepted) (file_marker t durable marker)"
  unfolding file_marker_def Let_def by (intro adders) (simp_all add: not_accepted_def)

lemma record_taint_adds: "keeps (only_adds not_accepted) (record_skill_taint c t)"
  unfolding record_skill_taint_def file_taint_def by (intro adders file_marker_adds) (simp_all add: not_accepted_def)

lemma record_failure_adds: "keeps (only_adds not_accepted) (record_failure c q e)"
  unfolding record_failure_def by (intro adders) (simp add: not_accepted_def)

lemma record_resume_adds: "keeps (only_adds not_accepted) (record_guard_resume c k g)"
  unfolding record_guard_resume_def by (intro adders) (simp add: not_accepted_def)

lemma prepare_adds:
  "keeps (only_adds (\<lambda>dir name f. dir = requests_dir (lr_session_id q) \<and> name = request_file c (lr_request_id q)
      \<and> f = Accepted_File \<lparr>ar_request = q, ar_caller = caller_identity k\<rparr>)) (prepare_lifecycle c launch status k q now_ms receipts)"
  unfolding prepare_lifecycle_def by (intro adders) simp

subsection \<open>Acceptance\<close>

lemma sync_again_files: "sync_again v = (x, v') \<Longrightarrow> v_files v' = v_files v"
  by (auto simp: sync_again_def bind_op_def vault_call_def split: if_splits)

text \<open>What a call of \<open>prepare\<close> did: it left the files alone, or it filed the request.\<close>

lemma prepare_effect:
  assumes "prepare_lifecycle c launch status k q now_ms receipts v = (x, v')"
  shows "v_files v' = v_files v \<and> (\<forall>d. x = Inr d \<longrightarrow> check_lifecycle_policy launch status k q now_ms = Inr ()
        \<and> (\<exists>a. decide_lifecycle c status k q receipts v = Inr (Some a, d)))
    \<or> check_lifecycle_policy launch status k q now_ms = Inr () \<and> check_no_pending c (lr_session_id q) receipts v = Inr ()
      \<and> vault_file v (requests_dir (lr_session_id q)) (request_file c (lr_request_id q)) = None
      \<and> (\<exists>d. decide_lifecycle c status k q receipts v = Inr (None, d) \<and> (\<forall>d'. x = Inr d' \<longrightarrow> d' = d))
      \<and> (\<exists>e \<in> {Stored (Accepted_File \<lparr>ar_request = q, ar_caller = caller_identity k\<rparr>), Malformed}.
          v_files v' = v_files v @ [((requests_dir (lr_session_id q), request_file c (lr_request_id q)), e)]
          \<and> (is_ok x \<longrightarrow> e \<noteq> Malformed))"
proof (cases "check_lifecycle_policy launch status k q now_ms")
  case (Inl e)
  then show ?thesis using assms by (auto simp: prepare_lifecycle_def bind_op_def pure_def)
next
  case policy: (Inr u)
  show ?thesis
  proof (cases "decide_lifecycle c status k q receipts v")
    case (Inl e)
    then show ?thesis using assms policy by (auto simp: prepare_lifecycle_def bind_op_def pure_def read_op_def)
  next
    case (Inr p)
    then obtain accepted d where d: "decide_lifecycle c status k q receipts v = Inr (accepted, d)" by (cases p) auto
    show ?thesis
    proof (cases accepted)
      case (Some a)
      then have "bind_op sync_again (\<lambda>_. pure (Inr d)) v = (x, v')"
        using assms policy d by (simp add: prepare_lifecycle_def bind_op_def pure_def read_op_def)
      then have "v_files v' = v_files v \<and> (\<forall>d'. x = Inr d' \<longrightarrow> d' = d)"
        using sync_again_files by (auto simp: bind_op_def pure_def split: prod.splits sum.splits)
      then show ?thesis using d Some policy by auto
    next
      case None
      show ?thesis
      proof (cases "check_no_pending c (lr_session_id q) receipts v")
        case (Inl e)
        then show ?thesis using assms policy d None by (auto simp: prepare_lifecycle_def bind_op_def pure_def read_op_def)
      next
        case pending: (Inr u')
        let ?dir = "requests_dir (lr_session_id q)" and ?name = "request_file c (lr_request_id q)"
        let ?f = "Accepted_File \<lparr>ar_request = q, ar_caller = caller_identity k\<rparr>"
        let ?filing = "bind_op (write_new_record ?dir ?name ?f) (\<lambda>_. pure (Inr d))"
        from assms policy d None pending
        have "bind_op vault_call (\<lambda>_. bind_op vault_call (\<lambda>_. bind_op vault_call (\<lambda>_. ?filing))) v = (x, v')"
          by (simp add: prepare_lifecycle_def bind_op_def pure_def read_op_def)
        then obtain w where w: "v_files w = v_files v" "(\<exists>e. x = Inl e) \<and> v' = w \<or> ?filing w = (x, v')"
          by (blast dest!: bound_call [where k = "\<lambda>_. bind_op vault_call _"] bound_call intro: trans)
        have same: "vault_file w = vault_file v" by (rule vault_file_files [OF w(1)])
        show ?thesis
        proof (cases "(\<exists>e. x = Inl e) \<and> v' = w")
          case True
          then show ?thesis using w(1) by auto
        next
          case False
          with w(2) obtain y where y: "write_new_record ?dir ?name ?f w = (y, v')" "x = map_sum id (\<lambda>_. d) y"
            by (auto simp: bind_op_def pure_def split: prod.splits sum.splits)
          from write_new_record_cases [OF y(1)] consider "y \<noteq> Inr ()" "v_files v' = v_files w"
            | "vault_file w ?dir ?name = None" "v_files v' = v_files w @ [((?dir, ?name), Stored ?f)]"
            | "vault_file w ?dir ?name = None" "y \<noteq> Inr ()" "v_files v' = v_files w @ [((?dir, ?name), Malformed)]" by auto
          then show ?thesis
          proof cases
            case 1
            then show ?thesis using y(2) w(1) by (cases y) auto
          next
            case 2
            then show ?thesis using y(2) w(1) same policy pending d None by (cases y) auto
          next
            case 3
            then show ?thesis using y(2) w(1) same policy pending d None by (cases y) auto
          qed
        qed
      qed
    qed
  qed
qed

subsection \<open>Histories of a broker\<close>

text \<open>
  Beside the files and the receipt chain of each Session, a world records what its callers did and
  were told: the calls of \<open>prepare\<close> that filed the acceptance of their request, each with its
  launch, its caller and its clock reading; the Sessions whose quarantine was acknowledged; and the
  failures whose record was acknowledged.
\<close>

record lifecycle_world =
  lw_vault :: "lifecycle_file vault"
  lw_receipts :: "string \<Rightarrow> signed_receipt list"
  lw_accepted :: "(launch_authorization \<times> lifecycle_caller \<times> lifecycle_request \<times> u64) set"
  lw_stopped :: "string set"
  lw_failed :: "(lifecycle_request \<times> protocol_error) set"

definition files_acceptance ::
  "lifecycle_codec \<Rightarrow> lifecycle_caller \<Rightarrow> lifecycle_request \<Rightarrow> lifecycle_file vault \<Rightarrow> lifecycle_file vault \<Rightarrow> bool" where
  "files_acceptance c k q v v' \<longleftrightarrow>
     vault_file v (requests_dir (lr_session_id q)) (request_file c (lr_request_id q)) = None
     \<and> vault_file v' (requests_dir (lr_session_id q)) (request_file c (lr_request_id q))
         = Some (Stored (Accepted_File \<lparr>ar_request = q, ar_caller = caller_identity k\<rparr>))"

definition acknowledged :: "broker_error + unit \<Rightarrow> 'a \<Rightarrow> 'a set \<Rightarrow> 'a set" where
  "acknowledged x a A = (if x = Inr () then insert a A else A)"

inductive lifecycle_step :: "lifecycle_codec \<Rightarrow> lifecycle_world \<Rightarrow> lifecycle_world \<Rightarrow> bool" for c where
  prepares: "prepare_lifecycle c launch status k q now_ms (lw_receipts w (lr_session_id q)) (lw_vault w) = (x, v) \<Longrightarrow>
     lifecycle_step c w (w\<lparr>lw_vault := v,
       lw_accepted := (if files_acceptance c k q (lw_vault w) v then insert (launch, k, q, now_ms) (lw_accepted w) else lw_accepted w)\<rparr>)"
| quarantines: "quarantine c s (lw_vault w) = (x, v) \<Longrightarrow>
     lifecycle_step c w (w\<lparr>lw_vault := v, lw_stopped := acknowledged x s (lw_stopped w)\<rparr>)"
| taints: "record_skill_taint c t (lw_vault w) = (x, v) \<Longrightarrow>
     lifecycle_step c w (w\<lparr>lw_vault := v, lw_stopped := acknowledged x (tn_session_id t) (lw_stopped w)\<rparr>)"
| fails: "record_failure c q e (lw_vault w) = (x, v) \<Longrightarrow>
     lifecycle_step c w (w\<lparr>lw_vault := v, lw_failed := acknowledged x (q, e) (lw_failed w)\<rparr>)"
| networks: "record_guard_resume c k g (lw_vault w) = (x, v) \<Longrightarrow> lifecycle_step c w (w\<lparr>lw_vault := v\<rparr>)"
| receives: "lifecycle_step c w (w\<lparr>lw_receipts := (lw_receipts w)(s := lw_receipts w s @ rs)\<rparr>)"
| around: "v_files v = v_files (lw_vault w) \<Longrightarrow> lifecycle_step c w (w\<lparr>lw_vault := v\<rparr>)"

definition lifecycle_history :: "lifecycle_codec \<Rightarrow> lifecycle_world \<Rightarrow> lifecycle_world \<Rightarrow> bool" where
  "lifecycle_history c = (lifecycle_step c)\<^sup>*\<^sup>*"

definition new_broker :: "lifecycle_world \<Rightarrow> bool" where
  "new_broker w \<longleftrightarrow> v_files (lw_vault w) = [] \<and> lw_accepted w = {} \<and> lw_stopped w = {} \<and> lw_failed w = {}"

subsection \<open>The invariant\<close>

abbreviation failure_filed :: "lifecycle_codec \<Rightarrow> lifecycle_file vault \<Rightarrow> lifecycle_request \<Rightarrow> protocol_error \<Rightarrow> bool" where
  "failure_filed c v q e \<equiv>
     vault_file v (failures_dir (lr_session_id q)) (request_file c (lr_request_id q)) = Some (Stored (Failure_File e))"

abbreviation accepted_at :: "lifecycle_file vault \<Rightarrow> string \<Rightarrow> string \<Rightarrow> accepted_request \<Rightarrow> bool" where
  "accepted_at v dir n a \<equiv> vault_file v dir n = Some (Stored (Accepted_File a))"

definition settled_request :: "lifecycle_codec \<Rightarrow> signed_receipt list \<Rightarrow> lifecycle_file vault \<Rightarrow> accepted_request \<Rightarrow> bool" where
  "settled_request c receipts v a \<longleftrightarrow> answered receipts (lr_request_id (ar_request a))
     \<or> (\<exists>e. failure_filed c v (ar_request a) e)"

definition well_filed :: "lifecycle_codec \<Rightarrow> lifecycle_world \<Rightarrow> bool" where
  "well_filed c w \<longleftrightarrow> (\<forall>dir n a. accepted_at (lw_vault w) dir n a \<longrightarrow>
     dir = requests_dir (lr_session_id (ar_request a)) \<and> n = request_file c (lr_request_id (ar_request a))
     \<and> (\<exists>launch k now_ms. (launch, k, ar_request a, now_ms) \<in> lw_accepted w \<and> ar_caller a = caller_identity k))"

definition permits_held :: "lifecycle_world \<Rightarrow> bool" where
  "permits_held w \<longleftrightarrow> (\<forall>(launch, k, q, now_ms) \<in> lw_accepted w.
     \<exists>status. check_lifecycle_policy launch status k q now_ms = Inr ())"

definition promises_kept :: "lifecycle_codec \<Rightarrow> lifecycle_world \<Rightarrow> bool" where
  "promises_kept c w \<longleftrightarrow> (\<forall>s \<in> lw_stopped w. vault_file (lw_vault w) s MARKER_FILE \<noteq> None)
     \<and> (\<forall>(q, e) \<in> lw_failed w. failure_filed c (lw_vault w) q e \<and> validate_protocol_error e = Inr ())"

definition single_flight :: "lifecycle_codec \<Rightarrow> lifecycle_world \<Rightarrow> bool" where
  "single_flight c w \<longleftrightarrow> (\<forall>s n n' a a'. accepted_at (lw_vault w) (requests_dir s) n a
     \<and> accepted_at (lw_vault w) (requests_dir s) n' a'
     \<and> \<not> settled_request c (lw_receipts w s) (lw_vault w) a \<and> \<not> settled_request c (lw_receipts w s) (lw_vault w) a'
     \<longrightarrow> n = n')"

lemma read_kind_Some: "read_kind kind dir name v = Inr (Some r) \<longleftrightarrow>
    (\<exists>f. vault_file v dir name = Some (Stored f) \<and> kind f = Some r)"
  by (cases "vault_file v dir name")
    (auto simp: read_kind_def read_record_def read_entry_def results corrupt_def split: entry.splits option.splits)

lemma read_kind_None: "read_kind kind dir name v = Inr None \<longleftrightarrow> vault_file v dir name = None"
  by (cases "vault_file v dir name")
    (auto simp: read_kind_def read_record_def read_entry_def results corrupt_def split: entry.splits option.splits)

lemma as_kind_Some:
  "as_accepted f = Some a \<longleftrightarrow> f = Accepted_File a" "as_failure f = Some e \<longleftrightarrow> f = Failure_File e"
  "as_taint f = Some t \<longleftrightarrow> f = Taint_File t" "as_marker f = Some m \<longleftrightarrow> f = Quarantine_File m"
  "as_networking f = Some g \<longleftrightarrow> f = Networking_File g"
  by (cases f; auto)+

lemmas file_kinds = read_kind_Some read_kind_None as_kind_Some

lemma recorded_failure_Some:
  "recorded_failure c q v = Inr (Some e) \<longleftrightarrow> failure_filed c v q e \<and> validate_protocol_error e = Inr ()"
  by (auto simp: recorded_failure_def results file_kinds)

lemma scan_pending_Inr:
  "scan_pending c s receipts v i names = Inr () \<Longrightarrow> n \<in> set names \<Longrightarrow>
     \<exists>a. accepted_at v (requests_dir s) n a \<and> settled_request c receipts v a"
proof (induction names arbitrary: i)
  case (Cons m names)
  from Cons.prems(1) obtain a where a: "accepted_at v (requests_dir s) m a"
    and done_with: "(if answered receipts (lr_request_id (ar_request a)) then Inr ()
        else andThen (recorded_failure c (ar_request a) v) (\<lambda>e. ensure (e \<noteq> None) (Policy (failure Operation_Pending)))) = Inr ()"
    and rest: "scan_pending c s receipts v (Suc i) names = Inr ()"
    by (auto simp: results file_kinds)
  from done_with have "settled_request c receipts v a"
    by (auto simp: settled_request_def results recorded_failure_Some split: if_splits)
  with a rest Cons show ?case by auto
qed simp

lemma check_no_pending_Inr:
  assumes "check_no_pending c s receipts v = Inr u" and "accepted_at v (requests_dir s) n a"
  shows "settled_request c receipts v a"
proof -
  have "n \<in> set (dir_names v (requests_dir s))" using assms(2) by (simp add: in_dir_names)
  with assms scan_pending_Inr [of c s receipts v 0 "dir_names v (requests_dir s)" n]
  show ?thesis by (auto simp: check_no_pending_def results)
qed

lemma settled_later:
  assumes "settled_request c receipts v a" and "extends v v'" and "set receipts \<subseteq> set receipts'"
  shows "settled_request c receipts' v' a"
  using assms unfolding settled_request_def extends_def answered_def list_ex_iff by blast

subsection \<open>Every step preserves it\<close>

definition sound_broker :: "lifecycle_codec \<Rightarrow> lifecycle_world \<Rightarrow> bool" where
  "sound_broker c w \<longleftrightarrow> well_filed c w \<and> permits_held w \<and> promises_kept c w \<and> single_flight c w"

text \<open>A step that adds no acceptance and may acknowledge something keeps all but the promises.\<close>

lemma filed_kept:
  assumes "only_adds not_accepted (lw_vault w) (lw_vault w')" and "lw_accepted w' = lw_accepted w"
    and "\<And>s. set (lw_receipts w s) \<subseteq> set (lw_receipts w' s)"
    and "well_filed c w" and "single_flight c w"
  shows "well_filed c w' \<and> single_flight c w'"
proof -
  have earlier: "accepted_at (lw_vault w) dir n a" if "accepted_at (lw_vault w') dir n a" for dir n a
    using assms(1) that unfolding only_adds_def not_accepted_def by fastforce
  have keep: "settled_request c (lw_receipts w' s) (lw_vault w') a" if "settled_request c (lw_receipts w s) (lw_vault w) a" for s a
    using settled_later [OF that _ assms(3)] assms(1) by (simp add: only_adds_def)
  have "well_filed c w'" using assms(2,4) earlier unfolding well_filed_def by metis
  moreover have "single_flight c w'" using assms(5) earlier keep unfolding single_flight_def by blast
  ultimately show ?thesis by blast
qed

lemma promises_kept_later:
  assumes "promises_kept c w" and "extends (lw_vault w) (lw_vault w')"
    and "\<And>s. s \<in> lw_stopped w' \<Longrightarrow> s \<in> lw_stopped w \<or> vault_file (lw_vault w') s MARKER_FILE \<noteq> None"
    and "\<And>q e. (q, e) \<in> lw_failed w' \<Longrightarrow> (q, e) \<in> lw_failed w \<or> failure_filed c (lw_vault w') q e \<and> validate_protocol_error e = Inr ()"
  shows "promises_kept c w'"
proof -
  have "vault_file (lw_vault w') s MARKER_FILE \<noteq> None" if "s \<in> lw_stopped w'" for s
    using assms(1) assms(2) assms(3) [OF that] by (auto simp: promises_kept_def extends_def)
  moreover have "failure_filed c (lw_vault w') q e \<and> validate_protocol_error e = Inr ()" if "(q, e) \<in> lw_failed w'" for q e
    using assms(1) assms(2) assms(4) [OF that] by (auto simp: promises_kept_def extends_def)
  ultimately show ?thesis by (auto simp: promises_kept_def)
qed

lemma read_marker_Some: "read_marker s n v = Inr (Some m) \<Longrightarrow> vault_file v s n = Some (Stored (Quarantine_File m))"
  by (auto simp: read_marker_def results file_kinds)

lemma write_new_stored:
  assumes "write_new_record dir n f v = (Inr u, v')"
  shows "vault_file v' dir n = Some (Stored f)"
proof -
  from write_new_record_Inr [OF assms] have "vault_file v dir n = None" "v_files v' = v_files v @ [((dir, n), Stored f)]" by simp_all
  from vault_file_snoc [OF this] show ?thesis by simp
qed

lemma quarantine_marks: "quarantine c s v = (Inr u, v') \<Longrightarrow> vault_file v' s MARKER_FILE \<noteq> None"
proof -
  assume done_with: "quarantine c s v = (Inr u, v')"
  then have "only_adds not_accepted v v'" by (rule keepsD [OF quarantine_adds])
  then have grows: "extends v v'" by (simp add: only_adds_def)
  from done_with obtain found where m: "read_marker s MARKER_FILE v = Inr found"
    and rest: "(if found \<noteq> None then sync_again
      else bind_op vault_call (\<lambda>_. bind_op vault_call (\<lambda>_.
        write_new_record s MARKER_FILE (Quarantine_File (Generic_Marker QUARANTINE_MARKER_SCHEMA))))) v = (Inr u, v')"
    unfolding quarantine_def bound_pure_Inr bound_read_Inr by blast
  show ?thesis
  proof (cases found)
    case None
    with rest obtain w where "write_new_record s MARKER_FILE (Quarantine_File (Generic_Marker QUARANTINE_MARKER_SCHEMA)) w = (Inr u, v')"
      by (auto simp: results)
    then show ?thesis by (simp add: write_new_stored)
  next
    case (Some x)
    with m have "vault_file v s MARKER_FILE = Some (Stored (Quarantine_File x))" by (simp add: read_marker_Some)
    with grows show ?thesis by (simp add: extends_def)
  qed
qed

lemma taint_marks:
  assumes "record_skill_taint c t v = (Inr u, v')"
  shows "vault_file v' (tn_session_id t) MARKER_FILE \<noteq> None"
proof -
  let ?s = "tn_session_id t"
  from assms obtain marker durable w where m: "read_marker ?s MARKER_FILE w = Inr marker"
    and filing: "file_marker t durable marker w = (Inr (), v')"
    unfolding record_skill_taint_def bound_pure_Inr bound_read_Inr by (auto simp: bind_op_Inr pure_eq read_op_def)
  show ?thesis
  proof (cases marker)
    case None
    with filing show ?thesis by (simp add: file_marker_def write_new_stored)
  next
    case (Some x)
    from keepsD [OF file_marker_adds filing] have "extends w v'" by (simp add: only_adds_def)
    moreover have "vault_file w ?s MARKER_FILE = Some (Stored (Quarantine_File x))" using m Some by (simp add: read_marker_Some)
    ultimately show ?thesis by (simp add: extends_def)
  qed
qed

lemma failure_marks:
  assumes "record_failure c q e v = (Inr u, v')"
  shows "failure_filed c v' q e \<and> validate_protocol_error e = Inr ()"
proof -
  from keepsD [OF record_failure_adds assms] have grows: "extends v v'" by (simp add: only_adds_def)
  from assms obtain stored where ok: "validate_protocol_error e = Inr ()" and stored: "recorded_failure c q v = Inr stored"
    and rest: "(case stored of
       Some old \<Rightarrow> bind_op (pure (ensure (old = e) Invalid_Grant)) (\<lambda>_. sync_again)
     | None \<Rightarrow> bind_op vault_call (\<lambda>_. bind_op vault_call (\<lambda>_.
         write_new_record (failures_dir (lr_session_id q)) (request_file c (lr_request_id q)) (Failure_File e)))) v = (Inr u, v')"
    unfolding record_failure_def bound_pure_Inr bound_read_Inr by (auto simp: results)
  show ?thesis
  proof (cases stored)
    case None
    with rest ok show ?thesis by (auto simp: results dest: write_new_stored)
  next
    case (Some old)
    with rest have "old = e" by (cases "old = e") (auto simp: bind_op_def pure_def)
    with stored Some grows ok show ?thesis by (auto simp: recorded_failure_Some extends_def)
  qed
qed

lemma soundI: "well_filed c w \<and> single_flight c w \<Longrightarrow> permits_held w \<Longrightarrow> promises_kept c w \<Longrightarrow> sound_broker c w"
  by (simp add: sound_broker_def)

text \<open>The acceptance of a request is the one step that adds an entry which is not settled.\<close>

lemma single_flight_accepted:
  assumes "single_flight c w" and "well_filed c w"
    and "check_no_pending c (lr_session_id q) (lw_receipts w (lr_session_id q)) (lw_vault w) = Inr ()"
    and "lw_receipts w' = lw_receipts w" and "extends (lw_vault w) (lw_vault w')"
    and "\<And>dir n a. accepted_at (lw_vault w') dir n a \<Longrightarrow> accepted_at (lw_vault w) dir n a
      \<or> dir = requests_dir (lr_session_id q) \<and> n = request_file c (lr_request_id q)"
  shows "single_flight c w'"
  unfolding single_flight_def
proof (intro allI impI)
  fix s n n' a a'
  let ?R = "lw_receipts w s"
  have keep: "settled_request c (lw_receipts w' s) (lw_vault w') b" if "settled_request c ?R (lw_vault w) b" for b
    using settled_later [OF that assms(5)] assms(4) by simp
  have all: "settled_request c ?R (lw_vault w) b"
    if "s = lr_session_id q" "accepted_at (lw_vault w) (requests_dir s) m b" for m b
    using check_no_pending_Inr [OF assms(3)] that by blast
  assume both: "accepted_at (lw_vault w') (requests_dir s) n a \<and> accepted_at (lw_vault w') (requests_dir s) n' a'
     \<and> \<not> settled_request c (lw_receipts w' s) (lw_vault w') a \<and> \<not> settled_request c (lw_receipts w' s) (lw_vault w') a'"
  show "n = n'"
  proof (cases "s = lr_session_id q")
    case True
    then show ?thesis using both assms(6) all keep by (metis (no_types, lifting))
  next
    case False
    then have "accepted_at (lw_vault w) (requests_dir s) n a" "accepted_at (lw_vault w) (requests_dir s) n' a'"
      using both assms(6) [of "requests_dir s"] by (auto simp: requests_dir_def)
    with both keep assms(1) show ?thesis unfolding single_flight_def by blast
  qed
qed

text \<open>A call of \<open>prepare\<close>, whatever it returns.\<close>

lemma sound_prepared:
  assumes done_with: "prepare_lifecycle c launch status k q now_ms (lw_receipts w (lr_session_id q)) (lw_vault w) = (x, v)"
    and sound: "sound_broker c w"
  defines "w' \<equiv> w\<lparr>lw_vault := v,
       lw_accepted := (if files_acceptance c k q (lw_vault w) v then insert (launch, k, q, now_ms) (lw_accepted w) else lw_accepted w)\<rparr>"
  shows "sound_broker c w'"
proof -
  let ?dir = "requests_dir (lr_session_id q)" and ?name = "request_file c (lr_request_id q)"
  let ?a = "\<lparr>ar_request = q, ar_caller = caller_identity k\<rparr>"
  note parts = sound [unfolded sound_broker_def]
  have adds: "only_adds (\<lambda>dir name f. dir = ?dir \<and> name = ?name \<and> f = Accepted_File ?a) (lw_vault w) v"
    by (rule keepsD [OF prepare_adds done_with])
  then have grows: "extends (lw_vault w) v" by (simp add: only_adds_def)
  have promises: "promises_kept c w'"
    by (rule promises_kept_later [of c w]) (use parts grows in \<open>simp_all add: w'_def\<close>)
  from prepare_effect [OF done_with] consider
      "v_files v = v_files (lw_vault w)"
    | "check_lifecycle_policy launch status k q now_ms = Inr ()"
      "check_no_pending c (lr_session_id q) (lw_receipts w (lr_session_id q)) (lw_vault w) = Inr ()"
      "vault_file (lw_vault w) ?dir ?name = None" by (elim disjE) simp_all
  then have "permits_held w' \<and> well_filed c w' \<and> single_flight c w'"
  proof cases
    case 1
    then have same: "vault_file v = vault_file (lw_vault w)" by (rule vault_file_files)
    then have kept: "lw_accepted w' = lw_accepted w" by (auto simp: w'_def files_acceptance_def simp del: caller_identity.simps)
    have "permits_held w'" using parts by (simp add: permits_held_def kept)
    moreover have "well_filed c w'" using parts unfolding well_filed_def kept by (simp add: w'_def same)
    moreover have "single_flight c w'"
      using parts unfolding single_flight_def settled_request_def w'_def by (simp add: same)
    ultimately show ?thesis by blast
  next
    case 2
    have held: "permits_held w'" using parts 2(1) unfolding permits_held_def w'_def by auto
    have new: "accepted_at (lw_vault w) dir n a \<or> dir = ?dir \<and> n = ?name \<and> a = ?a" if "accepted_at v dir n a" for dir n a
      using adds that unfolding only_adds_def by fastforce
    have "single_flight c w'"
      by (rule single_flight_accepted [of c w q]) (use parts 2(2) grows new in \<open>auto simp: w'_def\<close>)
    moreover have "well_filed c w'"
      unfolding well_filed_def
    proof (intro allI impI)
      fix dir n a assume "accepted_at (lw_vault w') dir n a"
      then have "accepted_at v dir n a" by (simp add: w'_def)
      from new [OF this] show "dir = requests_dir (lr_session_id (ar_request a)) \<and> n = request_file c (lr_request_id (ar_request a))
        \<and> (\<exists>launch k now_ms. (launch, k, ar_request a, now_ms) \<in> lw_accepted w' \<and> ar_caller a = caller_identity k)"
      proof
        assume "accepted_at (lw_vault w) dir n a"
        with parts show ?thesis unfolding well_filed_def w'_def by fastforce
      next
        assume "dir = ?dir \<and> n = ?name \<and> a = ?a"
        with \<open>accepted_at v dir n a\<close> 2(3) show ?thesis by (auto simp: w'_def files_acceptance_def simp del: caller_identity.simps)
      qed
    qed
    ultimately show ?thesis using held by blast
  qed
  with promises show ?thesis by (intro soundI) blast+
qed

lemma sound_recorded:
  assumes "only_adds not_accepted (lw_vault w) (lw_vault w')" and "sound_broker c w"
    and "lw_accepted w' = lw_accepted w" and "\<And>s. set (lw_receipts w s) \<subseteq> set (lw_receipts w' s)"
    and "\<And>s. s \<in> lw_stopped w' \<Longrightarrow> s \<in> lw_stopped w \<or> vault_file (lw_vault w') s MARKER_FILE \<noteq> None"
    and "\<And>q e. (q, e) \<in> lw_failed w' \<Longrightarrow> (q, e) \<in> lw_failed w \<or> failure_filed c (lw_vault w') q e \<and> validate_protocol_error e = Inr ()"
  shows "sound_broker c w'"
proof (rule soundI)
  note parts = assms(2) [unfolded sound_broker_def]
  from filed_kept [OF assms(1,3,4)] parts show "well_filed c w' \<and> single_flight c w'" by blast
  show "permits_held w'" using parts assms(3) by (simp add: permits_held_def)
  have "extends (lw_vault w) (lw_vault w')" using assms(1) by (simp add: only_adds_def)
  from promises_kept_later [OF _ this assms(5,6)] parts show "promises_kept c w'" by blast
qed

lemma sound_step: "lifecycle_step c w w' \<Longrightarrow> sound_broker c w \<Longrightarrow> sound_broker c w'"
proof (induction rule: lifecycle_step.induct)
  case (prepares launch status k q now_ms w x v)
  from sound_prepared [OF prepares] show ?case .
next
  case (quarantines s w x v)
  have marks: "x = Inr () \<Longrightarrow> vault_file v s MARKER_FILE \<noteq> None" using quarantine_marks quarantines(1) by blast
  show ?case
    by (rule sound_recorded [OF _ quarantines(2)])
      (use keepsD [OF quarantine_adds quarantines(1)] marks in \<open>auto simp: acknowledged_def split: if_splits\<close>)
next
  case (taints t w x v)
  have marks: "x = Inr () \<Longrightarrow> vault_file v (tn_session_id t) MARKER_FILE \<noteq> None" using taint_marks taints(1) by blast
  show ?case
    by (rule sound_recorded [OF _ taints(2)])
      (use keepsD [OF record_taint_adds taints(1)] marks in \<open>auto simp: acknowledged_def split: if_splits\<close>)
next
  case (fails q e w x v)
  have marks: "x = Inr () \<Longrightarrow> failure_filed c v q e \<and> validate_protocol_error e = Inr ()" using failure_marks fails(1) by blast
  show ?case
    by (rule sound_recorded [OF _ fails(2)])
      (use keepsD [OF record_failure_adds fails(1)] marks in \<open>auto simp: acknowledged_def split: if_splits\<close>)
next
  case (networks k g w x v)
  show ?case
    by (rule sound_recorded [OF _ networks(2)]) (use keepsD [OF record_resume_adds networks(1)] in auto)
next
  case (receives w s rs)
  show ?case by (rule sound_recorded [OF _ receives]) auto
next
  case (around v w)
  show ?case by (rule sound_recorded [OF _ around(2)]) (use only_adds_files [OF around(1)] in auto)
qed

lemma sound_history: "lifecycle_history c w w' \<Longrightarrow> sound_broker c w \<Longrightarrow> sound_broker c w'"
  unfolding lifecycle_history_def by (induction rule: rtranclp_induct) (auto intro: sound_step)

lemma new_broker_sound: "new_broker w \<Longrightarrow> sound_broker c w"
  by (auto simp: new_broker_def sound_broker_def well_filed_def permits_held_def promises_kept_def single_flight_def vault_file_def)

lemma reachable_sound: "new_broker w \<Longrightarrow> lifecycle_history c w w' \<Longrightarrow> sound_broker c w'"
  using sound_history new_broker_sound by blast

end
