(* ===== verification/Lifecycle_Demo.thy ===== *)
theory Lifecycle_Demo
  imports Lifecycle_History Protocol_Properties Certificate_Demo
begin

section \<open>A demonstration of lifecycle requests\<close>

text \<open>
  One Session whose operator asks twice for a Park: the first request is accepted and its failure
  recorded, the second is accepted and answered by a receipt; then the Session is quarantined.
\<close>

definition demo_keeper :: lifecycle_codec where
  "demo_keeper = \<lparr>protocol = \<lparr>receipt_codec = demo_codec\<lparr>digest_bytes := demo_cert_sha\<rparr>, lifecycle_json = lr_request_id\<rparr>,
     taint_json = (\<lambda>(_, _, _, _, _, t). if t = 1 then ''1'' else ''2'')\<rparr>"

definition demo_launch_grant_s :: launch_authorization where
  "demo_launch_grant_s = \<lparr>la_role = Agent_Role, la_conformance = \<lparr>ca_attendance = Unattended, ca_waiver = None\<rparr>,
     la_schema = LAUNCH_AUTHORIZATION_SCHEMA, la_protocol_version = 1, la_authorization_id = ''a'', la_request_id = ''a'',
     la_request_digest = demo_hash, la_controller_uid = 7, la_session_id = ''s'', la_run_id = ''r'', la_envelope_revision = 1,
     la_identity_slot = 0, la_assigned_uid = 1000, la_assigned_gid = 2000, la_provider_expires_at_ms = None,
     la_expires_at_ms = 10, la_broker_loss_grace_ms = 0\<rparr>"

definition demo_ask :: "string \<Rightarrow> lifecycle_request" where
  "demo_ask i = (demo_request Act_Park 1)\<lparr>lr_request_id := i\<rparr>"

definition demo_told :: "string \<Rightarrow> receipt_intent" where
  "demo_told i = (demo_intent 2)\<lparr>ri_request_id := i,
     ri_request_digest := digest_text (request_digest (protocol demo_keeper) (demo_ask i))\<rparr>"

lemma demo_identifiers:
  "i \<in> {''q1'', ''q2''} \<Longrightarrow> protocol_identifier i = Inr ()" "i \<in> {''q1'', ''q2''} \<Longrightarrow> validate_identifier f i = Inr ()"
  "is_record_identifier ''s''"
  by (auto simp: protocol_identifier_def validate_identifier_def MAX_IDENTIFIER_BYTES_def is_record_identifier_def
      identifier_byte_def is_ascii_alphanumeric_def is_ascii_lower_def is_ascii_digit_def byte_of_def)

lemma demo_launch_grant_s_valid: "validate_launch_authorization demo_launch_grant_s = Inr ()"
  by (simp add: validate_launch_authorization_def demo_launch_grant_s_def protocol_schema_def protocol_version_is_def PROTOCOL_VERSION_def
      validate_conformance_for_def MAX_BROKER_LOSS_GRACE_MS_def)

lemma demo_ask_valid: "i \<in> {''q1'', ''q2''} \<Longrightarrow> validate_lifecycle_request (demo_ask i) = Inr ()"
  using demo_identifiers(1) [of i]
  by (simp add: validate_lifecycle_request_def demo_ask_def demo_request_def protocol_schema_def protocol_version_is_def
      PROTOCOL_VERSION_def sequence_shape_matches_def)

lemma demo_ask_policy:
  assumes "i \<in> {''q1'', ''q2''}"
  shows "check_lifecycle_policy demo_launch_grant_s (demo_status 1 1 0) (By_Operator 7) (demo_ask i) now_ms = Inr ()"
  using demo_ask_valid [OF assms] demo_launch_grant_s_valid demo_status_valid(1)
  by (simp add: check_lifecycle_policy_def) (simp add: demo_launch_grant_s_def demo_ask_def demo_request_def caller_permits_def)

lemma demo_ask_evaluates:
  assumes "i \<in> {''q1'', ''q2''}"
  shows "evaluate_request (protocol demo_keeper) (demo_status 1 1 0) None (demo_ask i) = Inr (Execute (demo_told i))"
  unfolding evaluate_request_def Let_def demo_status_valid demo_ask_valid [OF assms] demo_told_def
  by (simp add: demo_status_def demo_ask_def demo_request_def demo_head_def demo_intent_def checked_add_def)

lemma prepare_calm:
  assumes "faultless v" and "check_lifecycle_policy launch status k q now_ms = Inr ()"
    and "decide_lifecycle c status k q receipts v = Inr (None, d)"
    and "check_no_pending c (lr_session_id q) receipts v = Inr ()"
    and "vault_file v (requests_dir (lr_session_id q)) (request_file c (lr_request_id q)) = None"
  shows "prepare_lifecycle c launch status k q now_ms receipts v
    = (Inr d, add_file (requests_dir (lr_session_id q)) (request_file c (lr_request_id q))
        (Stored (Accepted_File \<lparr>ar_request = q, ar_caller = caller_identity k\<rparr>)) v)"
  using assms faultless_ops [OF assms(1)]
  by (simp add: prepare_lifecycle_def bind_op_def pure_def read_op_def)

lemma demo_cert_differs: "request_file demo_keeper ''q1'' \<noteq> request_file demo_keeper ''q2''"
  unfolding request_file_def lifecycle_sha_def demo_keeper_def
  by (simp add: digest_of_inject demo_cert_sha_def)

text \<open>The files after the first acceptance, after its failure, and after the second acceptance.\<close>

definition demo_filed :: "string \<Rightarrow> lifecycle_file" where
  "demo_filed i = Accepted_File \<lparr>ar_request = demo_ask i, ar_caller = caller_identity (By_Operator 7)\<rparr>"

definition demo_refused :: protocol_error where
  "demo_refused = failure Lifecycle_Mechanic_Unavailable"

definition demo_accepted :: "lifecycle_file vault" where
  "demo_accepted = add_file (requests_dir ''s'') (request_file demo_keeper ''q1'') (Stored (demo_filed ''q1'')) empty_vault"

definition demo_failed :: "lifecycle_file vault" where
  "demo_failed = add_file (failures_dir ''s'') (request_file demo_keeper ''q1'') (Stored (Failure_File demo_refused)) demo_accepted"

definition demo_again :: "lifecycle_file vault" where
  "demo_again = add_file (requests_dir ''s'') (request_file demo_keeper ''q2'') (Stored (demo_filed ''q2'')) demo_failed"

lemma demo_ask_fields: "lr_session_id (demo_ask i) = ''s''" "lr_request_id (demo_ask i) = i" "lr_action (demo_ask i) = Act_Park"
  by (simp_all add: demo_ask_def demo_request_def)

lemma dirs_apart [simp]: "requests_dir s \<noteq> failures_dir t" "failures_dir t \<noteq> requests_dir s"
  by (simp_all add: requests_dir_def failures_dir_def)

lemma demo_calm: "faultless (empty_vault :: 'r vault)" "faultless demo_accepted" "faultless demo_failed"
  by (simp_all add: faultless_def empty_vault_def demo_accepted_def demo_failed_def add_file_def)

lemma demo_lookups:
  "vault_file (empty_vault :: 'r vault) d n = None"
  "vault_file demo_accepted (requests_dir ''s'') (request_file demo_keeper ''q1'') = Some (Stored (demo_filed ''q1''))"
  "vault_file demo_accepted (failures_dir ''s'') n = None"
  "vault_file demo_failed (requests_dir ''s'') (request_file demo_keeper ''q1'') = Some (Stored (demo_filed ''q1''))"
  "vault_file demo_failed (requests_dir ''s'') (request_file demo_keeper ''q2'') = None"
  "vault_file demo_failed (failures_dir ''s'') (request_file demo_keeper ''q1'') = Some (Stored (Failure_File demo_refused))"
  "vault_file demo_failed (failures_dir ''s'') (request_file demo_keeper ''q2'') = None"
  using demo_cert_differs
  by (simp_all add: vault_file_def add_file_def empty_vault_def demo_accepted_def demo_failed_def)

lemma demo_listings: "dir_names (empty_vault :: 'r vault) d = []" "dir_names demo_failed (requests_dir ''s'') = [request_file demo_keeper ''q1'']"
  by (simp_all add: dir_names_def add_file_def empty_vault_def demo_accepted_def demo_failed_def)

lemma demo_decides:
  assumes "i \<in> {''q1'', ''q2''}" and "vault_file v (requests_dir ''s'') (request_file demo_keeper i) = None"
    and "vault_file v (failures_dir ''s'') (request_file demo_keeper i) = None"
  shows "decide_lifecycle demo_keeper (demo_status 1 1 0) (By_Operator 7) (demo_ask i) [] v = Inr (None, Execute (demo_told i))"
proof -
  have "read_accepted demo_keeper ''s'' i v = Inr None" using assms(2) by (simp add: read_accepted_def file_kinds)
  moreover have "recorded_failure demo_keeper (demo_ask i) v = Inr None"
    using assms(3) read_kind_None [of as_failure "failures_dir ''s''" "request_file demo_keeper i" v]
    by (simp add: recorded_failure_def demo_ask_fields)
  moreover have "answer_to [] i = None" by (simp add: answer_to_def)
  ultimately show ?thesis using demo_ask_evaluates [OF assms(1)] by (simp add: decide_lifecycle_def demo_ask_fields)
qed

lemma demo_refused_valid: "validate_protocol_error demo_refused = Inr ()"
  by (simp add: validate_protocol_error_def demo_refused_def protocol_error_new_def)

lemma demo_first_prepare:
  "prepare_lifecycle demo_keeper demo_launch_grant_s (demo_status 1 1 0) (By_Operator 7) (demo_ask ''q1'') now_ms [] empty_vault
    = (Inr (Execute (demo_told ''q1'')), demo_accepted)"
proof -
  have "check_no_pending demo_keeper ''s'' [] empty_vault = Inr ()"
    by (simp add: check_no_pending_def demo_listings) (simp add: empty_vault_def)
  with prepare_calm [OF demo_calm(1) demo_ask_policy demo_decides] show ?thesis
    by (simp add: demo_lookups demo_ask_fields demo_accepted_def demo_filed_def)
qed

lemma demo_record_failure: "record_failure demo_keeper (demo_ask ''q1'') demo_refused demo_accepted = (Inr (), demo_failed)"
proof -
  have "read_accepted demo_keeper ''s'' ''q1'' demo_accepted = Inr (Some \<lparr>ar_request = demo_ask ''q1'', ar_caller = caller_identity (By_Operator 7)\<rparr>)"
    using demo_lookups(2) by (simp add: read_accepted_def file_kinds demo_filed_def)
  moreover have "recorded_failure demo_keeper (demo_ask ''q1'') demo_accepted = Inr None"
    using demo_lookups(3) read_kind_None [of as_failure "failures_dir ''s''" "request_file demo_keeper ''q1''" demo_accepted]
    by (simp add: recorded_failure_def demo_ask_fields)
  ultimately show ?thesis
    using demo_ask_valid [of "''q1''"] demo_refused_valid faultless_ops [OF demo_calm(2)] demo_lookups(3)
    by (simp add: record_failure_def bind_op_def pure_def read_op_def demo_ask_fields demo_failed_def del: caller_identity.simps)
qed

lemma demo_second_prepare:
  "prepare_lifecycle demo_keeper demo_launch_grant_s (demo_status 1 1 0) (By_Operator 7) (demo_ask ''q2'') now_ms [] demo_failed
    = (Inr (Execute (demo_told ''q2'')), demo_again)"
proof -
  have "recorded_failure demo_keeper (demo_ask ''q1'') demo_failed = Inr (Some demo_refused)"
    using demo_lookups(6) demo_refused_valid by (simp add: recorded_failure_Some demo_ask_fields)
  moreover have "read_kind as_accepted (requests_dir ''s'') (request_file demo_keeper ''q1'') demo_failed
      = Inr (Some \<lparr>ar_request = demo_ask ''q1'', ar_caller = caller_identity (By_Operator 7)\<rparr>)"
    using demo_lookups(4) by (simp add: file_kinds demo_filed_def)
  ultimately have "check_no_pending demo_keeper ''s'' [] demo_failed = Inr ()"
    using demo_calm(3) demo_ask_valid [of "''q1''"]
    by (simp add: check_no_pending_def demo_listings faultless_def answered_def del: caller_identity.simps)
  with prepare_calm [OF demo_calm(3) demo_ask_policy demo_decides] show ?thesis
    by (simp add: demo_lookups demo_ask_fields demo_again_def demo_filed_def)
qed

definition demo_broker :: "lifecycle_file vault \<Rightarrow> bool \<Rightarrow> string set \<Rightarrow> bool \<Rightarrow> lifecycle_world" where
  "demo_broker v asked stopped refused = \<lparr>lw_vault = v, lw_receipts = (\<lambda>_. []),
     lw_accepted = (if asked then {(demo_launch_grant_s, By_Operator 7, demo_ask ''q1'', 0)} else {}), lw_stopped = stopped,
     lw_failed = (if refused then {(demo_ask ''q1'', demo_refused)} else {})\<rparr>"

definition demo_marked :: "lifecycle_file vault" where
  "demo_marked = add_file ''s'' MARKER_FILE (Stored (Quarantine_File (Generic_Marker QUARANTINE_MARKER_SCHEMA))) demo_failed"

lemma demo_new_broker: "new_broker (demo_broker empty_vault False {} False)"
  by (simp add: new_broker_def demo_broker_def empty_vault_def)

lemma demo_ask_permitted: "caller_permits (By_Operator 7) demo_launch_grant_s (demo_ask i) now_ms"
  by (simp add: caller_permits_def demo_launch_grant_s_def)

lemma lifecycle_history_step: "lifecycle_history c w w' \<Longrightarrow> lifecycle_step c w' w'' \<Longrightarrow> lifecycle_history c w w''"
  unfolding lifecycle_history_def by (rule rtranclp.rtrancl_into_rtrancl)

lemma demo_asked: "lifecycle_history demo_keeper (demo_broker empty_vault False {} False) (demo_broker demo_accepted True {} False)"
proof -
  have "lifecycle_step demo_keeper (demo_broker empty_vault False {} False) (demo_broker demo_accepted True {} False)"
    using lifecycle_step.prepares [of demo_keeper demo_launch_grant_s "demo_status 1 1 0" "By_Operator 7" "demo_ask ''q1''" 0
        "demo_broker empty_vault False {} False"] demo_first_prepare [of 0]
    by (simp add: demo_broker_def files_acceptance_def demo_ask_fields demo_filed_def demo_lookups(1,2) del: caller_identity.simps)
  then show ?thesis unfolding lifecycle_history_def by (rule r_into_rtranclp)
qed

lemma demo_refusal: "lifecycle_history demo_keeper (demo_broker empty_vault False {} False) (demo_broker demo_failed True {} True)"
proof (rule lifecycle_history_step [OF demo_asked])
  show "lifecycle_step demo_keeper (demo_broker demo_accepted True {} False) (demo_broker demo_failed True {} True)"
    using lifecycle_step.fails [of demo_keeper "demo_ask ''q1''" demo_refused "demo_broker demo_accepted True {} False"]
      demo_record_failure by (simp add: demo_broker_def acknowledged_def)
qed

lemma marker_names: "MARKER_FILE \<noteq> REFERENCE_FILE" "MARKER_FILE \<noteq> TAINT_FILE" "TAINT_FILE \<noteq> REFERENCE_FILE"
  "''s'' \<noteq> requests_dir ''s''" "''s'' \<noteq> failures_dir ''s''"
  by (simp_all add: MARKER_FILE_def REFERENCE_FILE_def TAINT_FILE_def requests_dir_def failures_dir_def)

lemma unmarked:
  assumes "\<And>n. vault_file v s n = None" and "is_record_identifier s"
  shows "skill_taint c s v = Inr None" "read_marker s n v = Inr None" "is_quarantined c s v = Inr False"
proof -
  have none: "read_kind kind s n v = Inr None" for kind :: "lifecycle_file \<Rightarrow> 'k option" and n
    using assms(1) by (simp add: read_kind_None)
  show "skill_taint c s v = Inr None" using assms(2) by (simp add: skill_taint_def none)
  moreover show m: "read_marker s n v = Inr None" for n by (simp add: read_marker_def none)
  ultimately show "is_quarantined c s v = Inr False" using assms(2) by (simp add: is_quarantined_def refers_elsewhere_def)
qed

lemma demo_unmarked: "vault_file demo_failed ''s'' n = None" "vault_file (empty_vault :: 'r vault) ''s'' n = None"
  using marker_names(4,5) by (simp_all add: vault_file_def add_file_def empty_vault_def demo_accepted_def demo_failed_def)

lemma demo_quarantine: "lifecycle_history demo_keeper (demo_broker empty_vault False {} False) (demo_broker demo_marked True {''s''} True)"
proof (rule lifecycle_history_step [OF demo_refusal])
  have "quarantine demo_keeper ''s'' demo_failed = (Inr (), demo_marked)"
    using unmarked [OF demo_unmarked(1) demo_identifiers(3)] demo_identifiers(3) faultless_ops [OF demo_calm(3)] demo_unmarked(1)
    by (simp add: quarantine_def bind_op_def pure_def read_op_def demo_marked_def)
  then show "lifecycle_step demo_keeper (demo_broker demo_failed True {} True) (demo_broker demo_marked True {''s''} True)"
    using lifecycle_step.quarantines [of demo_keeper "''s''" "demo_broker demo_failed True {} True"]
    by (simp add: demo_broker_def acknowledged_def)
qed

definition demo_answer :: signed_receipt where
  "demo_answer = demo_signed (intent_payload (demo_told ''q1'') demo_hash demo_hash)"

lemma demo_answer_valid: "validate_receipt (receipt_codec (protocol demo_keeper)) demo_answer = Inr ()"
proof -
  have "validate_digest f (digest_text (request_digest (protocol demo_keeper) (demo_ask ''q1''))) = Inr ()" for f
    using digest_text_parses [of demo_cert_sha "''q1''"] demo_cert_sha_length
    by (auto simp: validate_digest_def request_digest_def demo_keeper_def demo_ask_def results parse_digest_spellings)
  then show ?thesis
    using demo_identifiers(2) [of "''q1''"]
    by (simp add: validate_receipt_def demo_answer_def demo_signed_def validate_payload_def check_size_def demo_keeper_def demo_codec_def
        MAX_RECEIPT_BYTES_def MAX_SIGNATURE_BYTES_def intent_payload_def demo_told_def demo_intent_def Let_def
        validate_predecessor_def validate_outcome_def validate_later_def validate_authorization_def)
qed

definition demo_taint :: "u64 \<Rightarrow> session_taint" where
  "demo_taint at_ms = (let t = \<lparr>tn_schema = SESSION_TAINT_SCHEMA, tn_session_id = ''s'', tn_run_id = ''r'', tn_generation = demo_hash,
     tn_source = Evidence_Unreadable, tn_detected_at_ms = at_ms, tn_digest = []\<rparr>
     in t\<lparr>tn_digest := digest_text (body_digest demo_keeper t)\<rparr>)"

lemma demo_taint_fields: "tn_session_id (demo_taint n) = ''s''" "tn_digest (demo_taint 1) \<noteq> tn_digest (demo_taint 2)"
  by (simp_all add: demo_taint_def Let_def body_digest_def lifecycle_sha_def demo_keeper_def digest_text_def digest_of_inject demo_cert_sha_def)

lemma demo_taint_valid: "n \<noteq> 0 \<Longrightarrow> validate_taint demo_keeper (demo_taint n) ''s'' = Inr ()"
proof -
  have "is_record_identifier ''r''"
    by (simp add: is_record_identifier_def identifier_byte_def is_ascii_alphanumeric_def is_ascii_lower_def byte_of_def)
  moreover have "is_ok (parse_digest demo_hash)" using demo_hex64 unfolding demo_hash_text by (simp add: parse_digest_spellings)
  ultimately show "n \<noteq> 0 \<Longrightarrow> ?thesis" using demo_identifiers(3)
    by (simp add: validate_taint_def demo_taint_def Let_def body_digest_def)
qed

definition demo_tainted :: "lifecycle_file vault" where
  "demo_tainted = add_file ''s'' MARKER_FILE (Stored (Quarantine_File (Taint_Marker QUARANTINE_MARKER_SCHEMA (tn_digest (demo_taint 1)))))
     (add_file ''s'' TAINT_FILE (Stored (Taint_File (demo_taint 1))) empty_vault)"

lemma demo_taint_recorded: "record_skill_taint demo_keeper (demo_taint 1) empty_vault = (Inr (), demo_tainted)"
proof -
  let ?t = "demo_taint 1" and ?e = "empty_vault :: lifecycle_file vault"
  let ?v = "add_file ''s'' TAINT_FILE (Stored (Taint_File ?t)) ?e"
  note valid = demo_taint_valid [of 1, simplified]
  have ecalm: "faultless ?e" by (rule demo_calm)
  then have faultless: "faultless ?v" by (rule faultless_ops)
  have at: "vault_file ?v ''s'' n = (if n = TAINT_FILE then Some (Stored (Taint_File ?t)) else None)" for n
    by (simp add: vault_file_def add_file_def empty_vault_def)
  have done_at: "vault_file demo_tainted ''s'' n = (if n = TAINT_FILE then Some (Stored (Taint_File ?t)) else if n = MARKER_FILE
      then Some (Stored (Quarantine_File (Taint_Marker QUARANTINE_MARKER_SCHEMA (tn_digest ?t)))) else None)" for n
    using marker_names(2) by (simp add: demo_tainted_def vault_file_def add_file_def empty_vault_def)
  have read: "skill_taint demo_keeper ''s'' w = Inr (Some ?t)" if "vault_file w ''s'' TAINT_FILE = Some (Stored (Taint_File ?t))" for w
  proof -
    have "read_kind as_taint ''s'' TAINT_FILE w = Inr (Some ?t)" using that by (simp add: file_kinds)
    then show ?thesis using valid demo_identifiers(3) by (simp add: skill_taint_def)
  qed
  have none: "read_marker ''s'' n w = Inr None" if "vault_file w ''s'' n = None" for n w
  proof -
    have "read_kind as_marker ''s'' n w = Inr None" using that by (simp add: file_kinds)
    then show ?thesis by (simp add: read_marker_def)
  qed
  have "is_ok (parse_digest (tn_digest ?t))"
    using digest_text_parses [of demo_cert_sha] demo_cert_sha_length
    by (simp add: demo_taint_def Let_def body_digest_def lifecycle_sha_def demo_keeper_def)
  moreover have "read_kind as_marker ''s'' MARKER_FILE demo_tainted = Inr (Some (Taint_Marker QUARANTINE_MARKER_SCHEMA (tn_digest ?t)))"
    using done_at [of MARKER_FILE] marker_names(2) by (simp add: file_kinds)
  ultimately have marker: "read_marker ''s'' MARKER_FILE demo_tainted = Inr (Some (Taint_Marker QUARANTINE_MARKER_SCHEMA (tn_digest ?t)))"
    by (simp add: read_marker_def)
  have "is_quarantined demo_keeper ''s'' demo_tainted = Inr True"
    using read [of demo_tainted] none [of demo_tainted REFERENCE_FILE] marker demo_identifiers(3) marker_names(1,3) done_at
    by (simp add: is_quarantined_def refers_elsewhere_def)
  moreover have "skill_taint demo_keeper ''s'' ?e = Inr None" using unmarked(1) [OF demo_unmarked(2) demo_identifiers(3)] .
  moreover have "file_taint ?t None ?e = (Inr (), ?v)"
    using faultless_ops [OF ecalm] by (simp add: file_taint_def bind_op_def demo_taint_fields demo_lookups(1))
  moreover have "read_marker ''s'' MARKER_FILE ?v = Inr None" using none at marker_names(2) by simp
  moreover have "file_marker ?t ?t None ?v = (Inr (), demo_tainted)"
    using faultless_ops [OF faultless] at marker_names(2) by (simp add: file_marker_def demo_taint_fields demo_tainted_def)
  ultimately show ?thesis using valid read [of ?v] at
    by (simp add: record_skill_taint_def bind_op_def pure_def read_op_def demo_taint_fields)
qed

end
