(* ===== verification/Lifecycle_Properties.thy ===== *)
theory Lifecycle_Properties
  imports Lifecycle_Demo
begin

section \<open>What durable lifecycle authorization guarantees\<close>

text \<open>
  One request of a Session is in flight at a time, a quarantine ends every new Resume, a receipt
  is accepted only for a request that its caller was permitted to make, and a recorded failure
  is the final answer to its request. Each property has its witness on the Session of
  Lifecycle_Demo.
\<close>

lemma execute_is_new: "evaluate_request c status (Some d) q \<noteq> Inr (Execute i)"
  by (auto simp: evaluate_request_def Let_def results split: if_splits)

lemma decide_lifecycle_facts:
  assumes "decide_lifecycle c status k q receipts v = Inr (accepted, d)"
  shows "read_accepted c (lr_session_id q) (lr_request_id q) v = Inr accepted"
    and "accepted = Some a \<Longrightarrow> ar_request a = q"
    and "recorded_failure c q v = Inr None"
    and "answer_to receipts (lr_request_id q) = None \<Longrightarrow> lr_action q = Act_Resume \<Longrightarrow> is_quarantined c (lr_session_id q) v = Inr False"
    and "evaluate_request (protocol c) status (map_option (completed_request_new (protocol c) q) (answer_to receipts (lr_request_id q))) q = Inr d"
proof -
  from assms obtain failed where f: "read_accepted c (lr_session_id q) (lr_request_id q) v = Inr accepted"
    "case accepted of None \<Rightarrow> True | Some a \<Rightarrow> \<not> (ar_request a \<noteq> q \<or> ar_caller a \<noteq> caller_identity k)"
    "recorded_failure c q v = Inr failed" "(case failed of None \<Rightarrow> Inr () | Some e \<Rightarrow> Inl (Policy e)) = Inr ()"
    "(if map_option (completed_request_new (protocol c) q) (answer_to receipts (lr_request_id q)) = None \<and> lr_action q = Act_Resume
        then andThen (is_quarantined c (lr_session_id q) v) (\<lambda>stopped. ensure (\<not> stopped) (refusal status Invalid_Request))
        else Inr ()) = Inr ()"
    "evaluate_request (protocol c) status (map_option (completed_request_new (protocol c) q) (answer_to receipts (lr_request_id q))) q = Inr d"
    unfolding decide_lifecycle_def Let_def by (auto simp: andThen_Inr ensure_Inr map_err_Inr)
  from f(4) have n: "failed = None" by (cases failed) simp_all
  show "read_accepted c (lr_session_id q) (lr_request_id q) v = Inr accepted" by (rule f)
  show "ar_request a = q" if "accepted = Some a" using f(2) that by simp
  show "recorded_failure c q v = Inr None" using f(3) n by simp
  show "is_quarantined c (lr_session_id q) v = Inr False"
    if "answer_to receipts (lr_request_id q) = None" "lr_action q = Act_Resume" using f(5) that by (auto simp: results)
  show "evaluate_request (protocol c) status (map_option (completed_request_new (protocol c) q) (answer_to receipts (lr_request_id q))) q = Inr d"
    by (rule f)
qed

lemma answer_to_None: "answer_to receipts i = None \<longleftrightarrow> \<not> answered receipts i"
  by (auto simp: answer_to_def answered_def find_None_iff list_ex_iff)

lemma quarantined_marker: "is_quarantined c s v = Inr False \<Longrightarrow> vault_file v s MARKER_FILE = None"
  by (auto simp: is_quarantined_def read_marker_def results file_kinds)

lemma accepted_receipt:
  assumes "check_lifecycle_receipt c r v = Inr ()" and "authorized_lifecycle_outcome (outcome (payload r)) = Some (a, act)"
  shows "\<exists>x. read_accepted c (pl_session_id (payload r)) (auth_request_id a) v = Inr (Some x)
    \<and> recorded_failure c (ar_request x) v = Inr None
    \<and> lr_request_id (ar_request x) = auth_request_id a
    \<and> digest_text (request_digest (protocol c) (ar_request x)) = auth_request_digest a \<and> lr_action (ar_request x) = act
    \<and> lr_session_id (ar_request x) = pl_session_id (payload r) \<and> lr_run_id (ar_request x) = pl_run_id (payload r)
    \<and> lr_envelope_revision (ar_request x) = pl_envelope_revision (payload r)"
proof -
  from assms obtain found x where "read_accepted c (pl_session_id (payload r)) (auth_request_id a) v = Inr found" "found = Some x"
    "lr_request_id (ar_request x) = auth_request_id a"
    "digest_text (request_digest (protocol c) (ar_request x)) = auth_request_digest a" "lr_action (ar_request x) = act"
    "lr_session_id (ar_request x) = pl_session_id (payload r)" "lr_run_id (ar_request x) = pl_run_id (payload r)"
    "lr_envelope_revision (ar_request x) = pl_envelope_revision (payload r)"
    "andThen (recorded_failure c (ar_request x) v) (\<lambda>failed. ensure (failed = None) Receipt_Unauthorized) = Inr ()"
    unfolding check_lifecycle_receipt_def Let_def by (auto simp: andThen_Inr [of "map_err _ _"] andThen_Inr [of "read_accepted _ _ _ _"]
      andThen_Inr [of "ok_or _ _"] andThen_Inr [of "ensure _ _"] ensure_Inr ok_or_Inr)
  moreover from this(9) have "recorded_failure c (ar_request x) v = Inr None" by (auto simp: andThen_Inr ensure_Inr)
  ultimately show ?thesis by blast
qed

text \<open>C35: In every history of the broker with faults, whenever a lifecycle request is to be
  executed, every other request ever accepted for its Session has a receipt or a recorded
  failure.\<close>

theorem lifecycle_single_flight:
  assumes "new_broker w" and "lifecycle_history c w w'"
    and "prepare_lifecycle c launch status k q now_ms (lw_receipts w' (lr_session_id q)) (lw_vault w') = (Inr (Execute i), v)"
    and "accepted_at v (requests_dir (lr_session_id q)) n a" and "ar_request a \<noteq> q"
  shows "settled_request c (lw_receipts w' (lr_session_id q)) v a"
proof -
  let ?R = "lw_receipts w' (lr_session_id q)" and ?dir = "requests_dir (lr_session_id q)"
  note sound = reachable_sound [OF assms(1,2), unfolded sound_broker_def]
  have adds: "only_adds (\<lambda>dir name f. dir = ?dir \<and> name = request_file c (lr_request_id q)
      \<and> f = Accepted_File \<lparr>ar_request = q, ar_caller = caller_identity k\<rparr>) (lw_vault w') v"
    by (rule keepsD [OF prepare_adds assms(3)])
  then have grows: "extends (lw_vault w') v" by (simp add: only_adds_def)
  have old: "accepted_at (lw_vault w') ?dir n a"
    using adds assms(4,5) unfolding only_adds_def by fastforce
  from prepare_effect [OF assms(3)] consider
      a' where "decide_lifecycle c status k q ?R (lw_vault w') = Inr (Some a', Execute i)"
    | "check_no_pending c (lr_session_id q) ?R (lw_vault w') = Inr ()" by auto
  then have "settled_request c ?R (lw_vault w') a"
  proof cases
    case 1
    note f = decide_lifecycle_facts [OF 1]
    from f(1) have mine: "accepted_at (lw_vault w') ?dir (request_file c (lr_request_id q)) a'"
      by (simp add: read_accepted_def file_kinds)
    have none: "answer_to ?R (lr_request_id q) = None"
      using f(5) execute_is_new [of "protocol c" status _ q i] by (cases "answer_to ?R (lr_request_id q)") auto
    have "\<not> failure_filed c (lw_vault w') q e" for e
      using f(3) by (auto simp: recorded_failure_def results file_kinds)
    with none f(2) have "\<not> settled_request c ?R (lw_vault w') a'" by (simp add: settled_request_def answer_to_None)
    moreover have "n \<noteq> request_file c (lr_request_id q)" using old mine f(2) assms(5) by auto
    ultimately show ?thesis using sound old mine unfolding single_flight_def by blast
  next
    case 2
    show ?thesis by (rule check_no_pending_Inr [OF 2 old])
  qed
  then show ?thesis using settled_later [OF _ grows] by blast
qed

text \<open>C36: Once a quarantine or taint of a Session was acknowledged, no Resume of that Session is
  ever executed again, by no caller and in no later state of the store; at most a receipt
  already in the chain is replayed.\<close>

theorem quarantine_withdraws_resume:
  assumes "new_broker w" and "lifecycle_history c w w'" and "lr_session_id q \<in> lw_stopped w'" and "lr_action q = Act_Resume"
  shows "case fst (prepare_lifecycle c launch status k q now_ms receipts (lw_vault w')) of
      Inl _ \<Rightarrow> True | Inr (Replay r) \<Rightarrow> r \<in> set receipts | Inr (Execute _) \<Rightarrow> False"
proof -
  obtain x v where p: "prepare_lifecycle c launch status k q now_ms receipts (lw_vault w') = (x, v)" by fastforce
  have "\<exists>r. d = Replay r \<and> r \<in> set receipts" if "x = Inr d" for d
  proof -
    from prepare_effect [OF p] that obtain accepted where
      "decide_lifecycle c status k q receipts (lw_vault w') = Inr (accepted, d)" by auto
    note f = decide_lifecycle_facts [OF this]
    have "vault_file (lw_vault w') (lr_session_id q) MARKER_FILE \<noteq> None"
      using reachable_sound [OF assms(1,2)] assms(3) by (auto simp: sound_broker_def promises_kept_def)
    with f(4) assms(4) quarantined_marker obtain r where r: "answer_to receipts (lr_request_id q) = Some r"
      by (cases "answer_to receipts (lr_request_id q)") auto
    with f(5) have "d = Replay r"
      by (auto simp: evaluate_request_def Let_def completed_request_new_def results split: if_splits)
    with r show ?thesis by (auto simp: answer_to_def find_Some_iff)
  qed
  then show ?thesis unfolding p by (auto split: sum.split request_disposition.split)
qed

lemma policy_facts:
  assumes "check_lifecycle_policy launch status k q now_ms = Inr ()"
  shows "validate_launch_authorization launch = Inr () \<and> validate_lifecycle_request q = Inr () \<and> caller_permits k launch q now_ms
    \<and> la_session_id launch = lr_session_id q \<and> la_run_id launch = lr_run_id q \<and> la_envelope_revision launch = lr_envelope_revision q"
  using assms by (simp add: check_lifecycle_policy_def results)

text \<open>C37: A receipt of an authorized action that the broker accepts answers a request whose
  acceptance on disk was filed by an earlier call of prepare: a call with a valid launch of the
  Session, Run and revision of the receipt and with a valid request of the same Session, Run,
  revision, action and digest, by the caller named in the acceptance, whose scope permitted the
  request at that time; for a Resume that caller is the controller of the launch.\<close>

theorem accepted_receipts_were_permitted:
  assumes "new_broker w" and "lifecycle_history c w w'" and "check_lifecycle_receipt c r (lw_vault w') = Inr ()"
    and "authorized_lifecycle_outcome (outcome (payload r)) = Some (a, act)"
  shows "\<exists>launch k q now_ms. (launch, k, q, now_ms) \<in> lw_accepted w'
      \<and> accepted_at (lw_vault w') (requests_dir (pl_session_id (payload r))) (request_file c (auth_request_id a))
          \<lparr>ar_request = q, ar_caller = caller_identity k\<rparr>
      \<and> validate_launch_authorization launch = Inr () \<and> validate_lifecycle_request q = Inr ()
      \<and> caller_permits k launch q now_ms
      \<and> la_session_id launch = pl_session_id (payload r) \<and> la_run_id launch = pl_run_id (payload r)
      \<and> la_envelope_revision launch = pl_envelope_revision (payload r)
      \<and> lr_session_id q = pl_session_id (payload r) \<and> lr_run_id q = pl_run_id (payload r)
      \<and> lr_envelope_revision q = pl_envelope_revision (payload r) \<and> lr_action q = act
      \<and> lr_request_id q = auth_request_id a \<and> digest_text (request_digest (protocol c) q) = auth_request_digest a
      \<and> (act = Act_Resume \<longrightarrow> k = By_Operator (la_controller_uid launch))"
proof -
  note sound = reachable_sound [OF assms(1,2), unfolded sound_broker_def]
  from accepted_receipt [OF assms(3,4)] obtain x where
      x: "read_accepted c (pl_session_id (payload r)) (auth_request_id a) (lw_vault w') = Inr (Some x)"
    and fits: "lr_request_id (ar_request x) = auth_request_id a"
      "digest_text (request_digest (protocol c) (ar_request x)) = auth_request_digest a" "lr_action (ar_request x) = act"
      "lr_session_id (ar_request x) = pl_session_id (payload r)" "lr_run_id (ar_request x) = pl_run_id (payload r)"
      "lr_envelope_revision (ar_request x) = pl_envelope_revision (payload r)" by blast
  from x have at: "accepted_at (lw_vault w') (requests_dir (pl_session_id (payload r))) (request_file c (auth_request_id a)) x"
    by (simp add: read_accepted_def file_kinds)
  with sound obtain launch k now_ms where p: "(launch, k, ar_request x, now_ms) \<in> lw_accepted w'" "ar_caller x = caller_identity k"
    unfolding well_filed_def by blast
  with sound obtain status where "check_lifecycle_policy launch status k (ar_request x) now_ms = Inr ()"
    unfolding permits_held_def by blast
  from policy_facts [OF this] have ok: "validate_launch_authorization launch = Inr ()" "validate_lifecycle_request (ar_request x) = Inr ()"
    "caller_permits k launch (ar_request x) now_ms" "la_session_id launch = lr_session_id (ar_request x)"
    "la_run_id launch = lr_run_id (ar_request x)" "la_envelope_revision launch = lr_envelope_revision (ar_request x)" by simp_all
  have "x = \<lparr>ar_request = ar_request x, ar_caller = caller_identity k\<rparr>" using p(2) by simp
  moreover have "k = By_Operator (la_controller_uid launch)" if "act = Act_Resume"
    using ok(3) fits(3) that by (cases k) (auto simp: caller_permits_def)
  ultimately show ?thesis using p(1) at ok fits by metis
qed

text \<open>C38: An acknowledged failure stays the answer to its request for ever: the request is never
  prepared again, no other failure can be recorded for it and no receipt that answers it is
  accepted.\<close>

theorem recorded_failure_is_final:
  assumes "new_broker w" and "lifecycle_history c w w'" and "(q, e) \<in> lw_failed w'"
  shows "recorded_failure c q (lw_vault w') = Inr (Some e)
    \<and> \<not> is_ok (fst (prepare_lifecycle c launch status k q now_ms receipts (lw_vault w')))
    \<and> (is_ok (fst (record_failure c q e' (lw_vault w'))) \<longrightarrow> e' = e)
    \<and> (authorized_lifecycle_outcome (outcome (payload r)) = Some (a, act) \<and> auth_request_id a = lr_request_id q
        \<and> pl_session_id (payload r) = lr_session_id q \<longrightarrow> \<not> is_ok (check_lifecycle_receipt c r (lw_vault w')))"
proof -
  have stored: "recorded_failure c q (lw_vault w') = Inr (Some e)"
    using reachable_sound [OF assms(1,2)] assms(3) by (auto simp: sound_broker_def promises_kept_def recorded_failure_Some)
  moreover have "\<not> is_ok (fst (prepare_lifecycle c launch status k q now_ms receipts (lw_vault w')))"
  proof
    obtain x v where p: "prepare_lifecycle c launch status k q now_ms receipts (lw_vault w') = (x, v)" by fastforce
    assume "is_ok (fst (prepare_lifecycle c launch status k q now_ms receipts (lw_vault w')))"
    with p obtain d where "x = Inr d" by (auto simp: results)
    with prepare_effect [OF p] obtain accepted where
      "decide_lifecycle c status k q receipts (lw_vault w') = Inr (accepted, d)" by auto
    from decide_lifecycle_facts(3) [OF this] stored show False by simp
  qed
  moreover have "e' = e" if ok: "is_ok (fst (record_failure c q e' (lw_vault w')))"
  proof -
    obtain x v where p: "record_failure c q e' (lw_vault w') = (x, v)" by fastforce
    with ok have x: "x = Inr ()" by (auto simp: results)
    from p x have "failure_filed c v q e'" using failure_marks by blast
    moreover have "extends (lw_vault w') v" using keepsD [OF record_failure_adds p] by (simp add: only_adds_def)
    ultimately show ?thesis using stored by (auto simp: recorded_failure_Some extends_def)
  qed
  moreover have "\<not> is_ok (check_lifecycle_receipt c r (lw_vault w'))"
    if "authorized_lifecycle_outcome (outcome (payload r)) = Some (a, act)" "auth_request_id a = lr_request_id q"
      "pl_session_id (payload r) = lr_session_id q"
  proof
    assume "is_ok (check_lifecycle_receipt c r (lw_vault w'))"
    then have "check_lifecycle_receipt c r (lw_vault w') = Inr ()" by (auto simp: is_ok_iff)
    from accepted_receipt [OF this that(1)] obtain y :: accepted_request where "recorded_failure c (ar_request y) (lw_vault w') = Inr None"
      "lr_request_id (ar_request y) = auth_request_id a" "lr_session_id (ar_request y) = pl_session_id (payload r)" by blast
    with that stored show False by (simp add: recorded_failure_def)
  qed
  ultimately show ?thesis by blast
qed

lemma taint_run:
  assumes "record_skill_taint c t v = (Inr u, v')"
  shows "\<exists>found w durable marker. skill_taint c (tn_session_id t) v = Inr found \<and> file_taint t found v = (Inr (), w)
    \<and> skill_taint c (tn_session_id t) w = Inr (Some durable) \<and> read_marker (tn_session_id t) MARKER_FILE w = Inr marker
    \<and> file_marker t durable marker w = (Inr (), v')"
proof -
  from assms obtain found w stored durable marker where "skill_taint c (tn_session_id t) v = Inr found" "file_taint t found v = (Inr (), w)"
    "skill_taint c (tn_session_id t) w = Inr stored" "stored = Some durable" "read_marker (tn_session_id t) MARKER_FILE w = Inr marker"
    "file_marker t durable marker w = (Inr (), v')"
    unfolding record_skill_taint_def bound_pure_Inr bound_read_Inr by (auto simp: bind_op_Inr pure_eq read_op_def ok_or_def split: option.splits)
  then show ?thesis by blast
qed

lemma skill_taint_stored: "skill_taint c s v = Inr found \<Longrightarrow> (case found of None \<Rightarrow> vault_file v s TAINT_FILE = None
    | Some t \<Rightarrow> vault_file v s TAINT_FILE = Some (Stored (Taint_File t)))"
  by (cases found) (auto simp: skill_taint_def results file_kinds)

text \<open>C39: After the taint of a Session that had neither a taint nor a quarantine marker was
  recorded, recording a taint of that Session with another digest, as another detection time
  gives it, is refused in every later state of the store.\<close>

theorem repeated_taint_is_refused:
  assumes "record_skill_taint c t v = (Inr (), v')" and "vault_file v (tn_session_id t) TAINT_FILE = None"
    and "vault_file v (tn_session_id t) MARKER_FILE = None" and "extends v' v''"
    and "tn_session_id t' = tn_session_id t" and "tn_digest t' \<noteq> tn_digest t"
  shows "\<not> is_ok (fst (record_skill_taint c t' v''))"
proof
  let ?s = "tn_session_id t"
  from taint_run [OF assms(1)] obtain found w durable marker where first: "skill_taint c ?s v = Inr found"
    "file_taint t found v = (Inr (), w)" "skill_taint c ?s w = Inr (Some durable)" "read_marker ?s MARKER_FILE w = Inr marker"
    "file_marker t durable marker w = (Inr (), v')" by blast
  have none: "found = None" using skill_taint_stored [OF first(1)] assms(2) by (cases found) simp_all
  with first(2) obtain u where u: "v_files u = v_files v" "write_new_record ?s TAINT_FILE (Taint_File t) u = (Inr (), w)"
    using that [of "after_fault (after_fault v)"] by (auto simp: file_taint_def bind_op_Inr vault_call_def split: if_splits)
  have durable: "durable = t" using write_new_stored [OF u(2)] skill_taint_stored [OF first(3)] by simp
  have "vault_file u ?s MARKER_FILE = None" using assms(3) vault_file_files [OF u(1)] by simp
  with write_new_record_Inr [OF u(2)] vault_file_snoc [of u ?s TAINT_FILE w "Stored (Taint_File t)"]
  have "vault_file w ?s MARKER_FILE = None" by (simp add: MARKER_FILE_def TAINT_FILE_def)
  then have "marker = None" using first(4) read_marker_Some by (cases marker) auto
  with first(5) durable have "vault_file v' ?s MARKER_FILE = Some (Stored (Quarantine_File (Taint_Marker QUARANTINE_MARKER_SCHEMA (tn_digest t))))"
    by (simp add: file_marker_def write_new_stored)
  then have marked: "vault_file v'' ?s MARKER_FILE = Some (Stored (Quarantine_File (Taint_Marker QUARANTINE_MARKER_SCHEMA (tn_digest t))))"
    using assms(4) by (simp add: extends_def)
  assume "is_ok (fst (record_skill_taint c t' v''))"
  then obtain v3 where "record_skill_taint c t' v'' = (Inr (), v3)" by (cases "record_skill_taint c t' v''") (auto simp: is_ok_iff)
  from taint_run [OF this] obtain found' w' durable' marker' where again: "file_taint t' found' v'' = (Inr (), w')"
    "read_marker ?s MARKER_FILE w' = Inr marker'" "file_marker t' durable' marker' w' = (Inr (), v3)" unfolding assms(5) by blast
  have "keeps (only_adds not_accepted) (file_taint t' found')" unfolding file_taint_def by (intro adders) (simp add: not_accepted_def)
  from keepsD [OF this again(1)] marked
  have "vault_file w' ?s MARKER_FILE = Some (Stored (Quarantine_File (Taint_Marker QUARANTINE_MARKER_SCHEMA (tn_digest t))))"
    by (simp add: only_adds_def extends_def)
  with again(2) have "marker' = Some (Taint_Marker QUARANTINE_MARKER_SCHEMA (tn_digest t))"
    by (cases marker') (auto simp: read_marker_def results file_kinds)
  with again(3) assms(6) show False by (simp add: file_marker_def Let_def pure_def)
qed

theorem lifecycle_single_flight_witness:
  "settled_request demo_keeper [] demo_again \<lparr>ar_request = demo_ask ''q1'', ar_caller = caller_identity (By_Operator 7)\<rparr>"
proof -
  let ?w = "demo_broker demo_failed True {} True"
  have at: "vault_file demo_again (requests_dir ''s'') (request_file demo_keeper ''q1'') = Some (Stored (demo_filed ''q1''))"
    using demo_lookups(4) vault_file_add [OF demo_lookups(5)] demo_cert_differs by (simp add: demo_again_def)
  have p: "prepare_lifecycle demo_keeper demo_launch_grant_s (demo_status 1 1 0) (By_Operator 7) (demo_ask ''q2'') 0
      (lw_receipts ?w (lr_session_id (demo_ask ''q2''))) (lw_vault ?w) = (Inr (Execute (demo_told ''q2'')), demo_again)"
    using demo_second_prepare by (simp add: demo_broker_def)
  have "lr_request_id (demo_ask ''q1'') \<noteq> lr_request_id (demo_ask ''q2'')" by (simp add: demo_ask_fields)
  then have "demo_ask ''q1'' \<noteq> demo_ask ''q2''" by auto
  with lifecycle_single_flight [OF demo_new_broker demo_refusal p, of "request_file demo_keeper ''q1''"
      "\<lparr>ar_request = demo_ask ''q1'', ar_caller = caller_identity (By_Operator 7)\<rparr>"] at
  show ?thesis by (simp add: demo_ask_fields demo_broker_def demo_filed_def del: caller_identity.simps)
qed

theorem quarantine_withdraws_resume_witness:
  "\<nexists>i. fst (prepare_lifecycle demo_keeper demo_launch_grant_s (demo_status 1 1 0) (By_Operator 7) (demo_request Act_Resume 1) 0 [] demo_marked) = Inr (Execute i)"
proof
  assume "\<exists>i. fst (prepare_lifecycle demo_keeper demo_launch_grant_s (demo_status 1 1 0) (By_Operator 7) (demo_request Act_Resume 1) 0 [] demo_marked) = Inr (Execute i)"
  then show False using quarantine_withdraws_resume [OF demo_new_broker demo_quarantine, where q = "demo_request Act_Resume 1" and launch = demo_launch_grant_s and status = "demo_status 1 1 0" and k = "By_Operator 7" and now_ms = 0 and receipts = "[]"]
    by (auto simp: demo_broker_def demo_request_def)
qed

theorem accepted_receipts_were_permitted_witness:
  "check_lifecycle_receipt demo_keeper demo_answer demo_accepted = Inr () \<and> la_controller_uid demo_launch_grant_s = 7
    \<and> caller_permits (By_Operator 7) demo_launch_grant_s (demo_ask ''q1'') 0
    \<and> la_session_id demo_launch_grant_s = pl_session_id (payload demo_answer)"
proof -
  let ?w = "demo_broker demo_accepted True {} False"
  have read: "read_accepted demo_keeper ''s'' ''q1'' demo_accepted = Inr (Some \<lparr>ar_request = demo_ask ''q1'', ar_caller = caller_identity (By_Operator 7)\<rparr>)"
    using demo_lookups(2) by (simp add: read_accepted_def file_kinds demo_filed_def)
  have failed: "recorded_failure demo_keeper (demo_ask ''q1'') demo_accepted = Inr None"
    using demo_lookups(3) read_kind_None [of as_failure "failures_dir ''s''" "request_file demo_keeper ''q1''" demo_accepted]
    by (simp add: recorded_failure_def demo_ask_fields)
  obtain a where a: "authorized_lifecycle_outcome (outcome (payload demo_answer)) = Some (a, Act_Park)"
    "a = \<lparr>auth_authorization_id = ''a'', auth_request_id = ''q1'',
       auth_request_digest = digest_text (request_digest (protocol demo_keeper) (demo_ask ''q1''))\<rparr>"
    by (simp add: demo_answer_def demo_signed_def intent_payload_def demo_told_def demo_intent_def Let_def)
  have ok: "check_lifecycle_receipt demo_keeper demo_answer demo_accepted = Inr ()"
    using demo_answer_valid read failed a
    by (simp add: check_lifecycle_receipt_def) (simp add: demo_answer_def demo_signed_def intent_payload_def demo_told_def demo_intent_def
        demo_ask_def demo_request_def Let_def)
  have "lw_vault ?w = demo_accepted" by (simp add: demo_broker_def)
  from accepted_receipts_were_permitted [OF demo_new_broker demo_asked _ a(1)] ok this
  have "\<exists>k now_ms. (demo_launch_grant_s, k, demo_ask ''q1'', now_ms) \<in> lw_accepted ?w
      \<and> caller_permits k demo_launch_grant_s (demo_ask ''q1'') now_ms
      \<and> la_session_id demo_launch_grant_s = pl_session_id (payload demo_answer)"
    unfolding demo_broker_def by (auto split: if_splits)
  then have "caller_permits (By_Operator 7) demo_launch_grant_s (demo_ask ''q1'') 0
      \<and> la_session_id demo_launch_grant_s = pl_session_id (payload demo_answer)"
    by (auto simp: demo_broker_def split: if_splits)
  moreover have "la_controller_uid demo_launch_grant_s = 7" by (simp add: demo_launch_grant_s_def)
  ultimately show ?thesis using ok by blast
qed

theorem recorded_failure_is_final_witness:
  "recorded_failure demo_keeper (demo_ask ''q1'') demo_failed = Inr (Some demo_refused)
    \<and> \<not> is_ok (fst (prepare_lifecycle demo_keeper demo_launch_grant_s (demo_status 1 1 0) (By_Operator 7) (demo_ask ''q1'') 0 [] demo_failed))"
  using recorded_failure_is_final [OF demo_new_broker demo_refusal, where q = "demo_ask ''q1''" and e = demo_refused and launch = demo_launch_grant_s and status = "demo_status 1 1 0" and k = "By_Operator 7" and now_ms = 0 and receipts = "[]"]
  by (simp add: demo_broker_def)

theorem repeated_taint_is_refused_witness:
  "record_skill_taint demo_keeper (demo_taint 1) empty_vault = (Inr (), demo_tainted)
    \<and> validate_taint demo_keeper (demo_taint 2) ''s'' = Inr ()
    \<and> \<not> is_ok (fst (record_skill_taint demo_keeper (demo_taint 2) demo_tainted))"
  using repeated_taint_is_refused [OF demo_taint_recorded, of demo_tainted "demo_taint 2"] demo_taint_recorded demo_taint_valid [of 2]
    demo_taint_fields by (simp add: demo_lookups(1))

end
