(* ===== verification/Receipt_Store.thy ===== *)
theory Receipt_Store
  imports Authorization Conformance Receipt_Chains Vault
begin

section \<open>Receipt chains on disk and recovery proofs\<close>

text \<open>
  skills-core/src/broker/receipts.rs with receipts/conformance.rs and receipts/consumed_recovery.rs,
  and the records of launch_recovery.rs: the broker keeps the exact signed bytes of every receipt
  of a Session under their sequence, the observations a launch was admitted with, and the proofs
  that a consumed authorization was recovered. A vault of byte strings holds all files; of a torn
  file only that its bytes are not a canonical document is known. The registry of root-registered
  chain identities (\<open>receipt_anchor\<close>), the verification of a recovery proof by the installation and
  \<open>check_authority\<close> are the fields of \<open>installed_trust\<close>; their answers may change between two calls, so
  a call that asks twice takes two of them.
\<close>

subsection \<open>Recovery proofs\<close>

datatype proof_error = Proof_Malformed | Proof_Non_Canonical | Invalid_Binding | Invalid_Boot | Proof_Invalid_Signature

definition RECOVERY_SCHEMA :: string where
  "RECOVERY_SCHEMA = ''louiselm.launch.recovery/1''"

definition SIGNED_RECOVERY_SCHEMA :: string where
  "SIGNED_RECOVERY_SCHEMA = ''louiselm.launch.signed-recovery/1''"

definition MAX_PROOF_BYTES :: nat where
  "MAX_PROOF_BYTES = 64 * 1024"

record recovery_binding =
  bd_authorization :: launch_authorization
  bd_consumption_digest :: string
  bd_receipt_head :: "receipt_head option"

datatype retained_storage = Storage_Absent | Storage_Sealed

record recovery_payload =
  rv_schema :: string
  rv_binding :: recovery_binding
  rv_arm_digest :: string
  rv_receipt_binding_digest :: "string option"
  rv_armed_boot_id :: string
  rv_recovered_boot_id :: string
  rv_retained_storage :: retained_storage
  rv_release_id :: string
  rv_signing_key_id :: string

record recovery_proof =
  rf_schema :: string
  rf_payload :: recovery_payload
  rf_signature :: string

record recovery_acknowledgement =
  rk_schema :: string
  rk_authorization_id :: string
  rk_session_id :: string
  rk_run_id :: string
  rk_proof_digest :: string

record keeper_codec =
  receipts_codec :: codec
  evidence_of :: evidence_codec
  recovery_json :: "recovery_payload \<Rightarrow> string"
  proof_json :: "recovery_proof \<Rightarrow> string"
  proof_parse :: "string \<Rightarrow> recovery_proof option"

definition canonical_text :: "string \<Rightarrow> bool" where
  "canonical_text s = (case parse_digest s of Inl _ \<Rightarrow> False | Inr d \<Rightarrow> digest_text d = s)"

definition validate_binding :: "recovery_binding \<Rightarrow> proof_error + unit" where
  "validate_binding b =
     andThen (map_err (\<lambda>_. Invalid_Binding) (validate_launch_authorization (bd_authorization b))) (\<lambda>_.
     ensure (canonical_text (bd_consumption_digest b)
        \<and> (case bd_receipt_head b of None \<Rightarrow> True | Some h \<Rightarrow> canonical_text (head_digest h))) Invalid_Binding)"

definition validate_recovery :: "keeper_codec \<Rightarrow> recovery_payload \<Rightarrow> proof_error + unit" where
  "validate_recovery c p =
     andThen (ensure (\<not> (rv_schema p \<noteq> RECOVERY_SCHEMA \<or> MAX_PROOF_BYTES < length (recovery_json c p))) Proof_Malformed) (\<lambda>_.
     andThen (validate_binding (rv_binding p)) (\<lambda>_.
     andThen (ensure (canonical_text (rv_arm_digest p) \<and> canonical_text (rv_release_id p) \<and> canonical_text (rv_signing_key_id p))
        Invalid_Binding) (\<lambda>_.
     andThen (ensure (case rv_receipt_binding_digest p of None \<Rightarrow> True | Some d \<Rightarrow> canonical_text d) Invalid_Binding) (\<lambda>_.
     ensure (\<not> (\<not> uuid_shape (rv_armed_boot_id p) \<or> \<not> uuid_shape (rv_recovered_boot_id p)
        \<or> rv_armed_boot_id p = rv_recovered_boot_id p)) Invalid_Boot))))"

definition validate_proof :: "keeper_codec \<Rightarrow> recovery_proof \<Rightarrow> proof_error + unit" where
  "validate_proof c p =
     andThen (ensure (\<not> (rf_schema p \<noteq> SIGNED_RECOVERY_SCHEMA \<or> rf_signature p = [] \<or> 16 * 1024 < length (rf_signature p)
        \<or> MAX_PROOF_BYTES < length (proof_json c p))) Proof_Malformed) (\<lambda>_.
     validate_recovery c (rf_payload p))"

definition parse_proof :: "keeper_codec \<Rightarrow> string \<Rightarrow> proof_error + recovery_proof" where
  "parse_proof c bytes =
     andThen (ensure (\<not> MAX_PROOF_BYTES < length bytes) Proof_Malformed) (\<lambda>_.
     andThen (ok_or (proof_parse c bytes) Proof_Malformed) (\<lambda>p.
     andThen (validate_proof c p) (\<lambda>_.
     andThen (ensure (proof_json c p = bytes) Proof_Non_Canonical) (\<lambda>_. Inr p))))"

definition proof_digest :: "keeper_codec \<Rightarrow> recovery_proof \<Rightarrow> string" where
  "proof_digest c p = digest_text (digest_of (digest_bytes (receipts_codec c)) (proof_json c p))"

definition acknowledge_proof :: "keeper_codec \<Rightarrow> recovery_proof \<Rightarrow> recovery_acknowledgement" where
  "acknowledge_proof c p =
     (let a = bd_authorization (rv_binding (rf_payload p))
      in \<lparr>rk_schema = ''louiselm.launch.recovery-stored/1'', rk_authorization_id = la_authorization_id a,
           rk_session_id = la_session_id a, rk_run_id = la_run_id a, rk_proof_digest = proof_digest c p\<rparr>)"

subsection \<open>Trust and files\<close>

record trusted_release =
  tr_release_id :: string
  tr_signing_key_id :: string

record installed_trust =
  it_anchor :: "string \<Rightarrow> string + chain_anchor"
  it_recovery :: "recovery_proof \<Rightarrow> string + unit"
  it_authority :: "string + unit"

datatype receipt_trust = Fixed_Trust trusted_release | Installed_Trust installed_trust

type_synonym 'a keeper_op = "(string, 'a) vault_op"

definition MAX_CHAIN_RECEIPTS :: nat where
  "MAX_CHAIN_RECEIPTS = 1024"

definition MAX_RECORD_BYTES :: nat where
  "MAX_RECORD_BYTES = 64 * 1024"

definition check_authority :: "receipt_trust \<Rightarrow> broker_error + unit" where
  "check_authority trust =
     (case trust of Installed_Trust i \<Rightarrow> map_err Installation_Authority (it_authority i) | Fixed_Trust _ \<Rightarrow> Inr ())"

text \<open>\<open>open\<close> makes the directory of the Sessions and syncs the root.\<close>

definition open_receipts :: "trusted_release \<Rightarrow> receipt_trust keeper_op" where
  "open_receipts t =
     bind_op (pure (ensure (\<not> (tr_release_id t = [] \<or> tr_signing_key_id t = [])) Invalid_Grant)) (\<lambda>_.
     bind_op vault_call (\<lambda>_. bind_op vault_call (\<lambda>_. pure (Inr (Fixed_Trust t)))))"

definition session_directory :: "string \<Rightarrow> broker_error + string" where
  "session_directory i = (if is_record_identifier i then Inr (''sessions/'' @ i) else Inl Invalid_Grant)"

definition receipt_path :: "u64 \<Rightarrow> string" where
  "receipt_path n = (let d = decimal (unat n) in replicate (20 - length d) CHR ''0'' @ d @ ''.receipt.json'')"

definition RECOVERIES :: string where
  "RECOVERIES = ''consumed-recoveries''"

definition REPORTS :: string where
  "REPORTS = ''conformance''"

definition read_stored :: "nat \<Rightarrow> broker_error \<Rightarrow> string \<Rightarrow> string \<Rightarrow> string vault \<Rightarrow> broker_error + string" where
  "read_stored limit torn dir name v =
     (case vault_file v dir name of
        None \<Rightarrow> Inl (Storage ''not found'')
      | Some Unreadable \<Rightarrow> Inl (Storage ''unreadable'')
      | Some Malformed \<Rightarrow> Inl torn
      | Some (Stored bytes) \<Rightarrow> if limit < length bytes then Inl (corrupt ''stored receipt exceeds its bound'') else Inr bytes)"

definition open_file :: "string \<Rightarrow> string \<Rightarrow> unit keeper_op" where
  "open_file dir name =
     bind_op (read_op (\<lambda>v. ensure (case vault_file v dir name of None \<Rightarrow> False | Some Unreadable \<Rightarrow> False | _ \<Rightarrow> True)
       (Storage ''io''))) (\<lambda>_. vault_call)"

text \<open>A complete file is linked under its name unless the name is taken.\<close>

definition publish :: "string \<Rightarrow> string \<Rightarrow> string \<Rightarrow> bool keeper_op" where
  "publish dir name bytes v =
     (if vault_file v dir name \<noteq> None then (Inr False, after_fault v)
      else if next_vault_fault v = Vault_Ok then (Inr True, add_file dir name (Stored bytes) (after_fault v))
      else (Inl (Storage ''io''), after_fault v))"

subsection \<open>Observations of an admission\<close>

fun admission_evidence :: "receipt_outcome \<Rightarrow> conformance_evidence" where
  "admission_evidence (Launch a e) = ev_conformance e"
| "admission_evidence _ = Unevaluated"

fun admission_digest :: "conformance_evidence \<Rightarrow> string option" where
  "admission_digest (Certified d) = Some d"
| "admission_digest (Waived _ (Some d)) = Some d"
| "admission_digest _ = None"

definition bound_digest :: "signed_receipt \<Rightarrow> string option" where
  "bound_digest r = admission_digest (admission_evidence (outcome (payload r)))"

definition check_bound_report :: "keeper_codec \<Rightarrow> conformance_evidence \<Rightarrow> string \<Rightarrow> string \<Rightarrow> broker_error + unit" where
  "check_bound_report c admitted expected bytes =
     andThen (ensure (\<not> MAX_REPORT_BYTES < length bytes) (Conformance_Report ''oversized_report'')) (\<lambda>_.
     andThen (ensure (digest_text (evidence_digest (evidence_of c) bytes) = expected) (Conformance_Report ''report_digest_mismatch'')) (\<lambda>_.
     andThen (map_err (\<lambda>_. Conformance_Report ''invalid_report'') (parse_report (evidence_of c) bytes)) (\<lambda>r.
     andThen (ensure (rp_scope r = Installed_Host) (Conformance_Report ''report_is_not_installed_host_evidence'')) (\<lambda>_.
     andThen (map_err (\<lambda>_. Conformance_Report ''invalid_report'') (report_result_of r)) (\<lambda>result.
     ensure (\<not> ((case result of Report_Failed _ \<Rightarrow> True | _ \<Rightarrow> False)
        \<or> (case admitted of Certified _ \<Rightarrow> result \<noteq> Report_Passed | Waived Missing _ \<Rightarrow> True | _ \<Rightarrow> False)))
       (Conformance_Report ''report_contradicts_admission''))))))"

definition validate_bound_report :: "keeper_codec \<Rightarrow> conformance_evidence \<Rightarrow> string option \<Rightarrow> broker_error + unit" where
  "validate_bound_report c admitted bytes =
     andThen (ensure (case admitted of Waived Guard_Unavailable _ \<Rightarrow> False | _ \<Rightarrow> True)
        (Conformance_Report ''guard_unavailable_cannot_be_waived'')) (\<lambda>_.
     andThen (ensure (case admitted of Waived Containment_Failure _ \<Rightarrow> False | _ \<Rightarrow> True)
        (Conformance_Report ''containment_failure_cannot_be_waived'')) (\<lambda>_.
     case (admission_digest admitted, bytes) of
       (None, None) \<Rightarrow> Inr ()
     | (None, Some _) \<Rightarrow> Inl (Conformance_Report ''unexpected_report'')
     | (Some _, None) \<Rightarrow> Inl (Conformance_Report ''missing_report'')
     | (Some expected, Some b) \<Rightarrow> check_bound_report c admitted expected b))"

definition validate_retained :: "keeper_codec \<Rightarrow> signed_receipt \<Rightarrow> string option \<Rightarrow> broker_error + unit" where
  "validate_retained c r bytes = validate_bound_report c (admission_evidence (outcome (payload r))) bytes"

definition report_file_of :: "signed_receipt \<Rightarrow> broker_error + string" where
  "report_file_of r =
     andThen (session_directory (pl_session_id (payload r))) (\<lambda>_. Inr (pl_session_id (payload r) @ ''.json''))"

definition read_report :: "keeper_codec \<Rightarrow> signed_receipt \<Rightarrow> string vault \<Rightarrow> broker_error + string option" where
  "read_report c r v =
     (if bound_digest r = None then andThen (validate_retained c r None) (\<lambda>_. Inr None)
      else
        andThen (report_file_of r) (\<lambda>name.
        andThen (case vault_file v REPORTS name of
            None \<Rightarrow> Inl (Storage ''not found'')
          | Some Unreadable \<Rightarrow> Inl (Storage ''unreadable'')
          | Some Malformed \<Rightarrow> Inl (corrupt ''stored conformance report contradicts admission'')
          | Some (Stored bytes) \<Rightarrow> Inr (take (MAX_REPORT_BYTES + 1) bytes)) (\<lambda>bytes.
        andThen (map_err (\<lambda>_. corrupt ''stored conformance report contradicts admission'') (validate_retained c r (Some bytes))) (\<lambda>_.
        Inr (Some bytes)))))"

definition sync_report :: "signed_receipt \<Rightarrow> unit keeper_op" where
  "sync_report r =
     (if bound_digest r = None then pure (Inr ())
      else bind_op (pure (report_file_of r)) (\<lambda>name. bind_op (open_file REPORTS name) (\<lambda>_. vault_call)))"

text \<open>A report is staged, synced and published; a name that is taken must hold the same bytes.\<close>

definition retain_report :: "keeper_codec \<Rightarrow> signed_receipt \<Rightarrow> string option \<Rightarrow> unit keeper_op" where
  "retain_report c r bytes =
     bind_op (pure (validate_retained c r bytes)) (\<lambda>_.
     case bytes of
       None \<Rightarrow> pure (Inr ())
     | Some b \<Rightarrow>
         bind_op vault_call (\<lambda>_. bind_op vault_call (\<lambda>_.
         bind_op vault_call (\<lambda>_. bind_op vault_call (\<lambda>_. bind_op vault_call (\<lambda>_.
         bind_op (pure (report_file_of r)) (\<lambda>name.
         bind_op (publish REPORTS name b) (\<lambda>fresh.
         bind_op (if fresh then pure (Inr ())
           else bind_op (read_op (read_report c r)) (\<lambda>kept.
             bind_op (pure (ensure (kept = Some b) (corrupt ''retained conformance report conflicts''))) (\<lambda>_. sync_report r))) (\<lambda>_.
         vault_call)))))))))"

subsection \<open>Chains\<close>

definition waiver_bound :: "signed_receipt \<Rightarrow> launch_authorization \<Rightarrow> bool" where
  "waiver_bound r a =
     (case admission_evidence (outcome (payload r)) of
        Waived condition _ \<Rightarrow>
          is_ok (validate_conformance_for (la_conformance a) (la_session_id a) (la_request_digest a) (la_controller_uid a) 0)
            \<and> (case ca_waiver (la_conformance a) of None \<Rightarrow> False | Some w \<Rightarrow> cw_condition w = condition)
      | _ \<Rightarrow> True)"

definition check_authorized :: "signed_receipt \<Rightarrow> launch_authorization \<Rightarrow> broker_error + unit" where
  "check_authorized r a =
     (let p = payload r in
      andThen (ensure (\<not> (pl_session_id p \<noteq> la_session_id a \<or> pl_run_id p \<noteq> la_run_id a
         \<or> pl_envelope_revision p \<noteq> la_envelope_revision a)) Receipt_Unauthorized) (\<lambda>_.
      andThen (ensure (case outcome p of
           Launch claimed e \<Rightarrow> \<not> (auth_authorization_id claimed \<noteq> la_authorization_id a
              \<or> auth_request_id claimed \<noteq> la_request_id a \<or> auth_request_digest claimed \<noteq> la_request_digest a
              \<or> ev_role e \<noteq> la_role a \<or> launch_request_digest e \<noteq> la_request_digest a
              \<or> ev_broker_loss_grace_ms e \<noteq> la_broker_loss_grace_ms a)
         | _ \<Rightarrow> True) Receipt_Unauthorized) (\<lambda>_.
      andThen (ensure (case outcome p of
           Start _ e \<Rightarrow> \<not> (start_assigned_uid e \<noteq> la_assigned_uid a \<or> start_assigned_gid e \<noteq> la_assigned_gid a
              \<or> la_role a = Fixed_Verifier \<and> sender_guard_required e)
         | _ \<Rightarrow> True) Receipt_Unauthorized) (\<lambda>_.
      ensure (waiver_bound r a) Receipt_Unauthorized))))"

definition receipt_bytes_of :: "string \<Rightarrow> string vault \<Rightarrow> u64 \<Rightarrow> broker_error + string" where
  "receipt_bytes_of dir v n = read_stored MAX_RECORD_BYTES (corrupt ''stored receipt is not canonical'') dir (receipt_path n) v"

fun traverse :: "('a \<Rightarrow> 'e + 'b) \<Rightarrow> 'a list \<Rightarrow> 'e + 'b list" where
  "traverse f [] = Inr []"
| "traverse f (x # xs) = andThen (f x) (\<lambda>y. andThen (traverse f xs) (\<lambda>ys. Inr (y # ys)))"

definition stored_bytes :: "string \<Rightarrow> string vault \<Rightarrow> broker_error + string list" where
  "stored_bytes session v =
     andThen (session_directory session) (\<lambda>dir.
     andThen (ensure (v_listable v) (Storage ''io'')) (\<lambda>_.
     andThen (ensure (\<not> MAX_CHAIN_RECEIPTS < length (dir_names v dir)) (corrupt ''stored chain exceeds its bound'')) (\<lambda>_.
     traverse (receipt_bytes_of dir v) (map word_of_nat [0..<length (dir_names v dir)]))))"

definition parse_stored :: "keeper_codec \<Rightarrow> string vault \<Rightarrow> string \<Rightarrow> broker_error + signed_receipt" where
  "parse_stored c v bytes =
     andThen (map_err (\<lambda>_. corrupt ''stored receipt is not canonical'') (parse_canonical_receipt (receipts_codec c) bytes)) (\<lambda>r.
     andThen (read_report c r v) (\<lambda>_. Inr r))"

definition chain_of :: "keeper_codec \<Rightarrow> string \<Rightarrow> string vault \<Rightarrow> broker_error + signed_receipt list" where
  "chain_of c session v = andThen (stored_bytes session v) (traverse (parse_stored c v))"

definition chain_head_of :: "keeper_codec \<Rightarrow> string \<Rightarrow> string vault \<Rightarrow> broker_error + receipt_head option" where
  "chain_head_of c session v =
     andThen (chain_of c session v) (\<lambda>rs. Inr (if rs = [] then None
       else Some \<lparr>head_sequence = pl_sequence (payload (last rs)),
         head_digest = digest_text (receipt_digest (receipts_codec c) (last rs))\<rparr>))"

definition chain_state :: "keeper_codec \<Rightarrow> string \<Rightarrow> string vault \<Rightarrow> broker_error + session_state option" where
  "chain_state c session v =
     andThen (chain_of c session v) (\<lambda>rs. Inr (if rs = [] then None else Some (resulting_state (payload (last rs)))))"

definition trust_anchor ::
  "receipt_trust \<Rightarrow> launch_authorization \<Rightarrow> signed_receipt option \<Rightarrow> broker_error + chain_anchor" where
  "trust_anchor trust a admitted =
     (case trust of
        Installed_Trust i \<Rightarrow> map_err Verification (it_anchor i (la_session_id a))
      | Fixed_Trust t \<Rightarrow> Inr \<lparr>anchor_session_id = la_session_id a, anchor_run_id = la_run_id a,
          anchor_release_id = (case admitted of None \<Rightarrow> tr_release_id t | Some r \<Rightarrow> pl_release_id (payload r)),
          anchor_signing_key_id = (case admitted of None \<Rightarrow> tr_signing_key_id t | Some r \<Rightarrow> pl_signing_key_id (payload r))\<rparr>)"

fun chain_error :: "receipt_error \<Rightarrow> broker_error" where
  "chain_error (Invalid_Signature n) = corrupt ''stored chain no longer verifies''"
| "chain_error e = Receipt_Refused e"

definition verified_head ::
  "keeper_codec \<Rightarrow> receipt_trust \<Rightarrow> signature_check \<Rightarrow> signed_receipt list \<Rightarrow> launch_authorization
     \<Rightarrow> broker_error + verified_receipt_head option" where
  "verified_head c trust verify stored a =
     (if stored = [] then Inr None
      else andThen (trust_anchor trust a (Some (hd stored))) (\<lambda>anchor.
           andThen (map_err chain_error (verify_chain (receipts_codec c) verify anchor stored)) (\<lambda>h. Inr (Some h))))"

definition recovery_exists :: "string \<Rightarrow> string vault \<Rightarrow> broker_error + bool" where
  "recovery_exists i v = andThen (record_name i) (\<lambda>name. Inr (vault_file v RECOVERIES name \<noteq> None))"

definition acknowledge_receipt :: "keeper_codec \<Rightarrow> signed_receipt \<Rightarrow> receipt_acknowledgement" where
  "acknowledge_receipt c r =
     \<lparr>ra_schema = RECEIPT_ACK_SCHEMA, ra_protocol_version = PROTOCOL_VERSION, ra_session_id = pl_session_id (payload r),
       ra_run_id = pl_run_id (payload r), ra_sequence = pl_sequence (payload r),
       ra_receipt_digest = digest_text (receipt_digest (receipts_codec c) r), ra_disposition = Durably_Stored\<rparr>"

text \<open>The checks of \<open>append\<close> under the lock: the stored chain verifies and the receipt continues it.\<close>

definition check_continues ::
  "keeper_codec \<Rightarrow> receipt_trust \<Rightarrow> signature_check \<Rightarrow> launch_authorization \<Rightarrow> signed_receipt \<Rightarrow> string vault \<Rightarrow> broker_error + unit" where
  "check_continues c trust verify a r v =
     andThen (recovery_exists (la_authorization_id a) v) (\<lambda>recovered.
     andThen (ensure (\<not> recovered) Receipt_Unauthorized) (\<lambda>_.
     andThen (chain_of c (la_session_id a) v) (\<lambda>stored.
     andThen (verified_head c trust verify stored a) (\<lambda>head.
     case head of
       Some h \<Rightarrow> map_err Receipt_Refused (andThen (verify_suffix (receipts_codec c) verify h [r]) (\<lambda>_. Inr ()))
     | None \<Rightarrow>
         andThen (trust_anchor trust a None) (\<lambda>anchor.
         map_err Receipt_Refused (andThen (verify_chain (receipts_codec c) verify anchor [r]) (\<lambda>_. Inr ())))))))"

text \<open>The durable part of \<open>append\<close>: the directory, the bytes, and the trust in the Session after them.\<close>

definition file_receipt ::
  "keeper_codec \<Rightarrow> receipt_trust \<Rightarrow> launch_authorization \<Rightarrow> signed_receipt \<Rightarrow> string \<Rightarrow> receipt_acknowledgement keeper_op" where
  "file_receipt c trust_after a r bytes =
     bind_op vault_call (\<lambda>_. bind_op vault_call (\<lambda>_.
     bind_op (write_new_record (''sessions/'' @ la_session_id a) (receipt_path (pl_sequence (payload r))) bytes) (\<lambda>_.
     bind_op (pure (case trust_after of
         Installed_Trust i \<Rightarrow> map_err Verification (andThen (it_anchor i (la_session_id a)) (\<lambda>_. Inr ()))
       | Fixed_Trust _ \<Rightarrow> Inr ())) (\<lambda>_.
     bind_op (pure (map_err (\<lambda>_. Receipt_Unauthorized) (validate_receipt_ack (acknowledge_receipt c r)))) (\<lambda>_.
     pure (Inr (acknowledge_receipt c r)))))))"

definition append_receipt ::
  "keeper_codec \<Rightarrow> receipt_trust \<Rightarrow> receipt_trust \<Rightarrow> signature_check \<Rightarrow> launch_authorization \<Rightarrow> string \<Rightarrow> string option
     \<Rightarrow> receipt_acknowledgement keeper_op" where
  "append_receipt c trust trust_after verify a bytes report =
     bind_op (pure (map_err (\<lambda>_. Receipt_Unauthorized) (validate_launch_authorization a))) (\<lambda>_.
     bind_op (pure (session_directory (la_session_id a))) (\<lambda>_.
     bind_op (pure (map_err Receipt_Refused (parse_canonical_receipt (receipts_codec c) bytes))) (\<lambda>r.
     bind_op (pure (check_authorized r a)) (\<lambda>_.
     bind_op (read_op (check_continues c trust verify a r)) (\<lambda>_.
     bind_op (retain_report c r report) (\<lambda>_.
     file_receipt c trust_after a r bytes))))))"

fun check_each_authorized :: "launch_authorization \<Rightarrow> signed_receipt list \<Rightarrow> broker_error + unit" where
  "check_each_authorized a [] = Inr ()"
| "check_each_authorized a (r # rs) = andThen (check_authorized r a) (\<lambda>_. check_each_authorized a rs)"

text \<open>Every file of the chain is synced again, then the observations and the directory.\<close>

fun sync_receipts :: "string \<Rightarrow> signed_receipt list \<Rightarrow> unit keeper_op" where
  "sync_receipts dir [] = pure (Inr ())"
| "sync_receipts dir (r # rs) =
     bind_op (open_file dir (receipt_path (pl_sequence (payload r)))) (\<lambda>_. sync_receipts dir rs)"

definition verified_chain ::
  "keeper_codec \<Rightarrow> receipt_trust \<Rightarrow> signature_check \<Rightarrow> launch_authorization \<Rightarrow> signed_receipt list keeper_op" where
  "verified_chain c trust verify a =
     bind_op (pure (map_err Policy (validate_launch_authorization a))) (\<lambda>_.
     bind_op (read_op (chain_of c (la_session_id a))) (\<lambda>rs.
     bind_op (pure (check_each_authorized a rs)) (\<lambda>_.
     bind_op (pure (verified_head c trust verify rs a)) (\<lambda>_.
     bind_op (pure (session_directory (la_session_id a))) (\<lambda>dir.
     bind_op (sync_receipts dir rs) (\<lambda>_.
     bind_op (if rs = [] then pure (Inr ()) else bind_op (sync_report (hd rs)) (\<lambda>_. vault_call)) (\<lambda>_.
     pure (Inr rs))))))))"

definition conformance_report ::
  "keeper_codec \<Rightarrow> receipt_trust \<Rightarrow> signature_check \<Rightarrow> launch_authorization \<Rightarrow> string option keeper_op" where
  "conformance_report c trust verify a =
     bind_op (verified_chain c trust verify a) (\<lambda>rs.
     bind_op (pure (ok_or (if rs = [] then None else Some (hd rs)) Receipt_Unauthorized)) (\<lambda>r.
     read_op (read_report c r)))"

subsection \<open>Recovery of a consumed authorization\<close>

definition recovery_binding_of ::
  "keeper_codec \<Rightarrow> receipt_trust \<Rightarrow> signature_check \<Rightarrow> pending_authorization \<Rightarrow> string \<Rightarrow> recovery_binding keeper_op" where
  "recovery_binding_of c trust verify held d =
     bind_op (verified_chain c trust verify (launch_authorization_of held)) (\<lambda>rs.
     bind_op (pure (ensure (\<not> (rs \<noteq> [] \<and> resulting_state (payload (last rs)) = Terminal)) Invalid_Grant)) (\<lambda>_.
     pure (Inr \<lparr>bd_authorization = launch_authorization_of held, bd_consumption_digest = d,
       bd_receipt_head = (if rs = [] then None else Some \<lparr>head_sequence = pl_sequence (payload (last rs)),
         head_digest = digest_text (receipt_digest (receipts_codec c) (last rs))\<rparr>)\<rparr>)))"

definition read_recovery :: "keeper_codec \<Rightarrow> string \<Rightarrow> string vault \<Rightarrow> broker_error + recovery_proof option" where
  "read_recovery c i v =
     andThen (recovery_exists i v) (\<lambda>found.
     if \<not> found then Inr None
     else andThen (record_name i) (\<lambda>name.
          andThen (read_stored MAX_RECORD_BYTES (Recovery ''recovery proof'') RECOVERIES name v) (\<lambda>bytes.
          andThen (map_err (\<lambda>_. Recovery ''recovery proof'') (parse_proof c bytes)) (\<lambda>p. Inr (Some p)))))"

definition check_signer :: "keeper_codec \<Rightarrow> receipt_trust \<Rightarrow> signature_check \<Rightarrow> recovery_proof \<Rightarrow> broker_error + unit" where
  "check_signer c trust verify p =
     (case trust of
        Installed_Trust i \<Rightarrow> map_err Verification (it_recovery i p)
      | Fixed_Trust t \<Rightarrow>
          andThen (ensure (\<not> (rv_release_id (rf_payload p) \<noteq> tr_release_id t
             \<or> rv_signing_key_id (rf_payload p) \<noteq> tr_signing_key_id t)) Invalid_Grant) (\<lambda>_.
          ensure (verify (rv_signing_key_id (rf_payload p)) (recovery_json c (rf_payload p)) (rf_signature p))
            (Recovery ''recovery proof'')))"

definition verify_recovery ::
  "keeper_codec \<Rightarrow> receipt_trust \<Rightarrow> signature_check \<Rightarrow> recovery_proof \<Rightarrow> pending_authorization \<Rightarrow> string \<Rightarrow> unit keeper_op" where
  "verify_recovery c trust verify p held d =
     bind_op (pure (map_err (\<lambda>_. Recovery ''recovery proof'') (validate_proof c p))) (\<lambda>_.
     bind_op (recovery_binding_of c trust verify held d) (\<lambda>binding.
     bind_op (pure (ensure (rv_binding (rf_payload p) = binding) Request_Mismatch)) (\<lambda>_.
     pure (check_signer c trust verify p))))"

definition verified_recovery ::
  "keeper_codec \<Rightarrow> receipt_trust \<Rightarrow> signature_check \<Rightarrow> pending_authorization \<Rightarrow> string \<Rightarrow> recovery_proof option keeper_op" where
  "verified_recovery c trust verify held d =
     bind_op (read_op (read_recovery c (pa_authorization_id held))) (\<lambda>found.
     case found of
       None \<Rightarrow> pure (Inr None)
     | Some p \<Rightarrow>
         bind_op (verify_recovery c trust verify p held d) (\<lambda>_.
         bind_op (pure (record_name (pa_authorization_id held))) (\<lambda>name.
         bind_op (open_file RECOVERIES name) (\<lambda>_. bind_op vault_call (\<lambda>_. pure (Inr (Some p)))))))"

text \<open>\<open>persist_noclobber\<close> of a proof whose name was free when it was read.\<close>

definition persist_proof :: "keeper_codec \<Rightarrow> string \<Rightarrow> recovery_proof \<Rightarrow> unit keeper_op" where
  "persist_proof c name p =
     bind_op vault_call (\<lambda>_. bind_op vault_call (\<lambda>_.
     bind_op vault_call (\<lambda>_. bind_op vault_call (\<lambda>_. bind_op vault_call (\<lambda>_.
     bind_op (publish RECOVERIES name (proof_json c p)) (\<lambda>fresh.
     pure (ensure fresh (Storage ''exists''))))))))"

definition store_recovery ::
  "keeper_codec \<Rightarrow> receipt_trust \<Rightarrow> receipt_trust \<Rightarrow> signature_check \<Rightarrow> pending_authorization \<Rightarrow> string \<Rightarrow> recovery_proof
     \<Rightarrow> recovery_acknowledgement keeper_op" where
  "store_recovery c trust trust_after verify held d p =
     bind_op (verify_recovery c trust verify p held d) (\<lambda>_.
     bind_op (pure (record_name (pa_authorization_id held))) (\<lambda>name.
     bind_op (read_op (read_recovery c (pa_authorization_id held))) (\<lambda>stored.
     bind_op (case stored of
         Some old \<Rightarrow> bind_op (pure (ensure (old = p) Request_Mismatch)) (\<lambda>_. open_file RECOVERIES name)
       | None \<Rightarrow> persist_proof c name p) (\<lambda>_.
     bind_op vault_call (\<lambda>_.
     bind_op (pure (check_authority trust_after)) (\<lambda>_.
     bind_op (verify_recovery c trust_after verify p held d) (\<lambda>_.
     pure (Inr (acknowledge_proof c p)))))))))"

text \<open>Inspection trusts the bytes a store with a fixed release admitted.\<close>

definition inspection_chain ::
  "keeper_codec \<Rightarrow> receipt_trust \<Rightarrow> signature_check \<Rightarrow> launch_authorization \<Rightarrow> signed_receipt list keeper_op" where
  "inspection_chain c trust verify a =
     (case trust of
        Fixed_Trust _ \<Rightarrow> read_op (chain_of c (la_session_id a))
      | Installed_Trust _ \<Rightarrow> verified_chain c trust verify a)"

definition inspection_recovery ::
  "keeper_codec \<Rightarrow> receipt_trust \<Rightarrow> pending_authorization \<Rightarrow> string \<Rightarrow> recovery_proof option keeper_op" where
  "inspection_recovery c trust held d = verified_recovery c trust (\<lambda>_ _ _. True) held d"

end
