(* ===== verification/Receipt_Effects.thy ===== *)
theory Receipt_Effects
  imports Receipt_Store Vault_Relations
begin

section \<open>What the operations of the receipt store leave behind\<close>

text \<open>
  No operation removes or changes a file; reports, receipts and proofs are added in directories
  of their own. The directory of a Session holds the receipts of a verified chain under their
  sequences, perhaps followed by one torn file, and an append files a receipt that continues it.
\<close>

subsection \<open>Where operations write\<close>

lemma traverse_Inr: "traverse f xs = Inr ys \<longleftrightarrow> list_all2 (\<lambda>x y. f x = Inr y) xs ys"
proof (induction xs arbitrary: ys)
  case (Cons x xs)
  show ?case by (cases ys) (auto simp: results Cons)
qed (auto simp: eq_commute)

lemma adds_publish: "keeps (only_adds (\<lambda>_ _ _. True)) (publish dir name b)"
proof -
  have "only_adds (\<lambda>_ _ _. True) v (snd (publish dir name b v))" for v
  proof (cases "vault_file v dir name = None \<and> next_vault_fault v = Vault_Ok")
    case True
    let ?w = "add_file dir name (Stored b) (after_fault v)"
    have files: "v_files ?w = v_files v @ [((dir, name), Stored b)]" by (simp add: add_file_def)
    with True have "extends v ?w" "vault_ok v \<longrightarrow> vault_ok ?w" using extends_snoc vault_ok_snoc by blast+
    with True show ?thesis by (simp add: only_adds_def publish_def)
  next
    case False
    then show ?thesis by (auto simp: publish_def only_adds_files)
  qed
  then show ?thesis by (simp add: keeps_def)
qed

lemma within_publish: "dir \<in> D \<Longrightarrow> keeps (only_within D) (publish dir name b)"
  by (auto simp: keeps_def only_within_def publish_def add_file_def)

lemma adds_open: "keeps (only_adds P) (open_file dir name)"
  unfolding open_file_def by (intro adders)

lemma within_open: "keeps (only_within D) (open_file dir name)"
  unfolding open_file_def by (intro withins)

lemma adds_sync_report: "keeps (only_adds P) (sync_report r)"
  unfolding sync_report_def by (intro adders adds_open)

lemma within_sync_report: "keeps (only_within D) (sync_report r)"
  unfolding sync_report_def by (intro withins within_open)

lemma adds_retain: "keeps (only_adds (\<lambda>_ _ _. True)) (retain_report c r bytes)"
  unfolding retain_report_def by (intro adders adds_publish adds_sync_report)

lemma within_retain: "keeps (only_within {REPORTS}) (retain_report c r bytes)"
  unfolding retain_report_def by (intro withins within_publish within_sync_report) simp

lemma adds_sync_receipts: "keeps (only_adds P) (sync_receipts dir rs)"
  by (induction rs) (auto intro!: adders adds_open)

lemma within_sync_receipts: "keeps (only_within D) (sync_receipts dir rs)"
  by (induction rs) (auto intro!: withins within_open)

lemma adds_verified_chain: "keeps (only_adds P) (verified_chain c trust verify a)"
  unfolding verified_chain_def by (intro adders adds_sync_receipts adds_sync_report)

lemma within_verified_chain: "keeps (only_within D) (verified_chain c trust verify a)"
  unfolding verified_chain_def by (intro withins within_sync_receipts within_sync_report)

lemma adds_verify_recovery: "keeps (only_adds P) (verify_recovery c trust verify p held d)"
  unfolding verify_recovery_def recovery_binding_of_def by (intro adders adds_verified_chain)

lemma within_verify_recovery: "keeps (only_within D) (verify_recovery c trust verify p held d)"
  unfolding verify_recovery_def recovery_binding_of_def by (intro withins within_verified_chain)

lemma adds_persist: "keeps (only_adds (\<lambda>_ _ _. True)) (persist_proof c name p)"
  unfolding persist_proof_def by (intro adders adds_publish)

lemma within_persist: "keeps (only_within {RECOVERIES}) (persist_proof c name p)"
  unfolding persist_proof_def by (intro withins within_publish) simp

lemma adds_recovery: "keeps (only_adds (\<lambda>_ _ _. True)) (store_recovery c trust trust' verify held d p)"
  unfolding store_recovery_def by (intro adders adds_verify_recovery adds_persist adds_open)

lemma within_recovery: "keeps (only_within {RECOVERIES}) (store_recovery c trust trust' verify held d p)"
  unfolding store_recovery_def by (intro withins within_verify_recovery within_persist within_open)

subsection \<open>The chain on disk\<close>

abbreviation session_dir :: "string \<Rightarrow> string" where
  "session_dir s \<equiv> ''sessions/'' @ s"

definition filed_receipt :: "keeper_codec \<Rightarrow> string vault \<Rightarrow> string \<Rightarrow> nat \<Rightarrow> signed_receipt \<Rightarrow> bool" where
  "filed_receipt c v s k r \<longleftrightarrow> (\<exists>b. vault_file v (session_dir s) (receipt_path (word_of_nat k)) = Some (Stored b)
     \<and> parse_canonical_receipt (receipts_codec c) b = Inr r)"

definition sound_chain :: "keeper_codec \<Rightarrow> signature_check \<Rightarrow> string \<Rightarrow> string vault \<Rightarrow> bool" where
  "sound_chain c verify s v \<longleftrightarrow> (\<exists>rs torn. length (dir_names v (session_dir s)) = length rs + (if torn then 1 else 0)
     \<and> (\<forall>k < length rs. filed_receipt c v s k (rs ! k))
     \<and> (rs \<noteq> [] \<longrightarrow> (\<exists>anchor. chain_spec (receipts_codec c) verify anchor rs))
     \<and> (torn \<longrightarrow> vault_file v (session_dir s) (receipt_path (word_of_nat (length rs))) = Some Malformed))"

lemma read_stored_Inr: "read_stored n t dir name v = Inr b \<Longrightarrow> vault_file v dir name = Some (Stored b)"
  by (auto simp: read_stored_def split: option.splits entry.splits if_splits)

lemma chain_of_filed:
  assumes "chain_of c s v = Inr rs"
  shows "is_record_identifier s" "length rs = length (dir_names v (session_dir s))" "\<And>k. k < length rs \<Longrightarrow> filed_receipt c v s k (rs ! k)"
    and "length rs \<le> MAX_CHAIN_RECEIPTS"
proof -
  from assms obtain bs where bs: "stored_bytes s v = Inr bs" and rs: "list_all2 (\<lambda>b r. parse_stored c v b = Inr r) bs rs"
    by (auto simp: chain_of_def results traverse_Inr)
  from bs have id: "is_record_identifier s" and bound: "length (dir_names v (session_dir s)) \<le> MAX_CHAIN_RECEIPTS"
    and all: "list_all2 (\<lambda>k b. receipt_bytes_of (session_dir s) v k = Inr b) (map word_of_nat [0..<length (dir_names v (session_dir s))]) bs"
    by (auto simp: stored_bytes_def session_directory_def results traverse_Inr split: if_splits)
  show "is_record_identifier s" by (rule id)
  from all rs show len: "length rs = length (dir_names v (session_dir s))" by (auto dest!: list_all2_lengthD)
  with bound show "length rs \<le> MAX_CHAIN_RECEIPTS" by simp
  fix k assume k: "k < length rs"
  with all len have "receipt_bytes_of (session_dir s) v (word_of_nat k) = Inr (bs ! k)"
    by (auto simp: list_all2_conv_all_nth)
  moreover from k rs have "parse_stored c v (bs ! k) = Inr (rs ! k)" by (auto simp: list_all2_conv_all_nth)
  ultimately show "filed_receipt c v s k (rs ! k)"
    by (auto simp: filed_receipt_def parse_stored_def receipt_bytes_of_def results dest: read_stored_Inr)
qed

text \<open>A chain that can be read is the one the invariant speaks of, and it is verified.\<close>

lemma sound_chain_read:
  assumes "sound_chain c verify s v" and "chain_of c s v = Inr rs" and "rs \<noteq> []"
  shows "\<exists>anchor. chain_spec (receipts_codec c) verify anchor rs"
proof -
  from assms(1) obtain qs torn where q: "length (dir_names v (session_dir s)) = length qs + (if torn then 1 else 0)"
    "\<And>k. k < length qs \<Longrightarrow> filed_receipt c v s k (qs ! k)"
    "qs \<noteq> [] \<longrightarrow> (\<exists>anchor. chain_spec (receipts_codec c) verify anchor qs)"
    "torn \<longrightarrow> vault_file v (session_dir s) (receipt_path (word_of_nat (length qs))) = Some Malformed"
    unfolding sound_chain_def by blast
  note f = chain_of_filed [OF assms(2)]
  have "\<not> torn"
  proof
    assume torn
    with q(1) f(2) have "filed_receipt c v s (length qs) (rs ! length qs)" using f(3) [of "length qs"] by simp
    with q(4) \<open>torn\<close> show False by (auto simp: filed_receipt_def)
  qed
  with q(1) f(2) have len: "length qs = length rs" by simp
  moreover have "qs ! k = rs ! k" if "k < length rs" for k
    using q(2) [of k] f(3) [OF that] that len by (auto simp: filed_receipt_def)
  ultimately have "qs = rs" by (intro nth_equalityI) auto
  with q(3) assms(3) show ?thesis by simp
qed

lemma sound_chain_same:
  assumes "sound_chain c verify s v" and "dir_names v' (session_dir s) = dir_names v (session_dir s)"
    and "\<And>n. vault_file v' (session_dir s) n = vault_file v (session_dir s) n"
  shows "sound_chain c verify s v'"
  using assms unfolding sound_chain_def filed_receipt_def by simp

text \<open>What \<open>append\<close> requires of a receipt: it is the next one of a verified chain.\<close>

lemma continues_chain:
  assumes "check_continues c trust verify a r v = Inr u"
  shows "recovery_exists (la_authorization_id a) v = Inr False"
    and "\<exists>rs anchor. chain_of c (la_session_id a) v = Inr rs \<and> chain_spec (receipts_codec c) verify anchor (rs @ [r])"
proof -
  from assms show "recovery_exists (la_authorization_id a) v = Inr False"
    by (auto simp: check_continues_def andThen_Inr ensure_Inr)
  from assms obtain rs head where rs: "chain_of c (la_session_id a) v = Inr rs" "verified_head c trust verify rs a = Inr head"
    and next_ok: "(case head of
       Some h \<Rightarrow> map_err Receipt_Refused (andThen (verify_suffix (receipts_codec c) verify h [r]) (\<lambda>_. Inr ()))
     | None \<Rightarrow> andThen (trust_anchor trust a None) (\<lambda>anchor.
         map_err Receipt_Refused (andThen (verify_chain (receipts_codec c) verify anchor [r]) (\<lambda>_. Inr ())))) = Inr u"
    by (auto simp: check_continues_def andThen_Inr ensure_Inr)
  show "\<exists>rs anchor. chain_of c (la_session_id a) v = Inr rs \<and> chain_spec (receipts_codec c) verify anchor (rs @ [r])"
  proof (cases head)
    case None
    with rs(2) have "rs = []" by (auto simp: verified_head_def results split: if_splits)
    moreover from next_ok None obtain anchor where "chain_spec (receipts_codec c) verify anchor [r]"
      by (auto simp: results verify_chain_spec)
    ultimately show ?thesis using rs(1) by auto
  next
    case (Some h)
    with rs(2) obtain anchor where "verify_chain (receipts_codec c) verify anchor rs = Inr h"
      by (auto simp: verified_head_def results split: if_splits)
    then have spec: "chain_spec (receipts_codec c) verify anchor rs" "h = chain_head (receipts_codec c) rs"
      by (simp_all add: verify_chain_spec)
    from next_ok Some obtain h' where "accept_next (receipts_codec c) verify h r = Inr h'"
      by (auto simp: verify_suffix_def results)
    with accept_next_chain [OF spec(1)] spec(2) rs(1) show ?thesis by auto
  qed
qed

lemma chain_spec_last:
  assumes "chain_spec c verify anchor (rs @ [r])"
  shows "pl_sequence (payload r) = word_of_nat (length rs)"
proof -
  have "unat (pl_sequence (payload r)) = length rs" using chain_specD(1) [OF assms, of "length rs"] by simp
  then show ?thesis by (metis of_nat_unat ucast_id)
qed

subsection \<open>Appending\<close>

lemma parse_canonical_bytes: "parse_canonical_receipt c b = Inr r \<Longrightarrow> signed_json c r = b"
  by (auto simp: parse_canonical_receipt_def results)

text \<open>The durable part of \<open>append\<close> files the bytes, perhaps torn, or nothing.\<close>

lemma file_receipt_effect:
  assumes "file_receipt c trust' a r bytes v = (x, v')"
  shows "extends v v' \<and> (v_files v' = v_files v \<and> v_listable v' = v_listable v \<and> \<not> is_ok x
    \<or> (\<exists>e \<in> {Stored bytes, Malformed}.
        vault_file v (session_dir (la_session_id a)) (receipt_path (pl_sequence (payload r))) = None
        \<and> v_files v' = v_files v @ [((session_dir (la_session_id a), receipt_path (pl_sequence (payload r))), e)]
        \<and> (is_ok x \<longrightarrow> e = Stored bytes \<and> x = Inr (acknowledge_receipt c r))))"
proof -
  let ?dir = "session_dir (la_session_id a)" and ?name = "receipt_path (pl_sequence (payload r))"
  let ?tail = "\<lambda>z. bind_op (write_new_record ?dir ?name bytes) (\<lambda>_.
     bind_op (pure (case trust' of
         Installed_Trust i \<Rightarrow> map_err Verification (andThen (it_anchor i (la_session_id a)) (\<lambda>_. Inr ()))
       | Fixed_Trust _ \<Rightarrow> Inr ())) (\<lambda>_.
     bind_op (pure (map_err (\<lambda>_. Receipt_Unauthorized) (validate_receipt_ack (acknowledge_receipt c r)))) (\<lambda>_.
     pure (Inr (acknowledge_receipt c r))))) z"
  from assms have "bind_op vault_call (\<lambda>_. bind_op vault_call (\<lambda>_. ?tail)) v = (x, v')" by (simp add: file_receipt_def)
  from bound_call [OF this] obtain u where u: "v_files u = v_files v" "v_listable u = v_listable v"
    "(\<exists>e. x = Inl e) \<and> v' = u \<or> bind_op vault_call (\<lambda>_. ?tail) u = (x, v')" by blast
  then obtain z where z: "v_files z = v_files v" "v_listable z = v_listable v" "(\<exists>e. x = Inl e) \<and> v' = z \<or> ?tail z = (x, v')"
    using bound_call [of "\<lambda>_. ?tail" u x v'] by (metis (no_types, lifting))
  have grown: "extends v z" using z(1) by (rule extends_files)
  show ?thesis
  proof (cases "(\<exists>e. x = Inl e) \<and> v' = z")
    case True
    with grown z show ?thesis by auto
  next
    case False
    obtain q t where q: "write_new_record ?dir ?name bytes z = (q, t)" by fastforce
    with z(3) False have t: "v' = t" "is_ok x \<longrightarrow> q = Inr () \<and> x = Inr (acknowledge_receipt c r)"
      by (auto simp: bind_op_def pure_def split: sum.splits prod.splits if_splits)
    have ext: "extends v v'" using grown write_new_record_extends [OF q] t(1) extends_trans by blast
    from write_new_record_cases [OF q] show ?thesis
      using ext t z(1,2) vault_file_files [OF z(1)] by (cases "is_ok x") auto
  qed
qed

text \<open>
  What a call of \<open>append\<close> did: it changed nothing but the reports, or it filed the bytes of a
  receipt that continues the chain, perhaps torn.
\<close>

lemma append_effect:
  assumes "append_receipt c trust trust' verify a bytes report v = (x, v')"
  shows "extends v v' \<and> (only_within {REPORTS} v v' \<and> \<not> is_ok x
    \<or> (\<exists>r w e. parse_canonical_receipt (receipts_codec c) bytes = Inr r \<and> check_authorized r a = Inr ()
        \<and> check_continues c trust verify a r v = Inr () \<and> only_within {REPORTS} v w \<and> e \<in> {Stored bytes, Malformed}
        \<and> vault_file w (session_dir (la_session_id a)) (receipt_path (pl_sequence (payload r))) = None
        \<and> v_files v' = v_files w @ [((session_dir (la_session_id a), receipt_path (pl_sequence (payload r))), e)]
        \<and> (is_ok x \<longrightarrow> e = Stored bytes \<and> x = Inr (acknowledge_receipt c r))))"
proof -
  have unchanged: "extends v v \<and> only_within {REPORTS} v v" by (simp add: only_within_def)
  from assms consider "v' = v" "\<not> is_ok x"
    | r where "parse_canonical_receipt (receipts_codec c) bytes = Inr r"
      "check_authorized r a = Inr ()" "check_continues c trust verify a r v = Inr ()"
      "bind_op (retain_report c r report) (\<lambda>_. file_receipt c trust' a r bytes) v = (x, v')"
    unfolding append_receipt_def bound_pure bound_read by (auto simp: map_err_Inr)
  then show ?thesis
  proof cases
    case 1
    with unchanged show ?thesis by simp
  next
    case 2
    obtain y w where w: "retain_report c r report v = (y, w)" by fastforce
    note steps = keepsD [OF adds_retain w] keepsD [OF within_retain w]
    then have grows: "extends v w" by (simp add: only_adds_def)
    show ?thesis
    proof (cases y)
      case (Inl e)
      with 2(4) w have "v' = w" "\<not> is_ok x" by (auto simp: bind_op_def)
      with steps grows show ?thesis by simp
    next
      case (Inr u)
      with 2(4) w have rest: "file_receipt c trust' a r bytes w = (x, v')" by (simp add: bind_op_def)
      note effect = file_receipt_effect [OF rest]
      have ext: "extends v v'" using effect grows extends_trans by blast
      from effect consider "v_files v' = v_files w" "v_listable v' = v_listable w" "\<not> is_ok x"
        | "\<exists>e \<in> {Stored bytes, Malformed}.
            vault_file w (session_dir (la_session_id a)) (receipt_path (pl_sequence (payload r))) = None
            \<and> v_files v' = v_files w @ [((session_dir (la_session_id a), receipt_path (pl_sequence (payload r))), e)]
            \<and> (is_ok x \<longrightarrow> e = Stored bytes \<and> x = Inr (acknowledge_receipt c r))" by blast
      then show ?thesis
      proof cases
        case 1
        with ext steps(2) show ?thesis by (simp add: only_within_def)
      next
        case filed: 2
        with ext steps(2) 2(1-3) show ?thesis by blast
      qed
    qed
  qed
qed

end
