(* ===== verification/Receipt_History.thy ===== *)
theory Receipt_History
  imports Receipt_Effects
begin

section \<open>Histories of the receipt store\<close>

text \<open>
  Appends, recoveries and checks in any order, with faults of the file system between and within
  them. Every chain stays sound, and what was acknowledged stays where it was filed.
\<close>

subsection \<open>Histories\<close>

text \<open>
  A world keeps, beside the files, the receipts whose storage was acknowledged and the proofs of
  recovery that were, each under its authorization. The signature check is the same throughout.
\<close>

record keeper_world =
  kw_vault :: "string vault"
  kw_acks :: "signed_receipt set"
  kw_sealed :: "(string \<times> recovery_proof) set"

definition acked :: "keeper_codec \<Rightarrow> string \<Rightarrow> 'e + 'a \<Rightarrow> signed_receipt set" where
  "acked c bytes x = {r. is_ok x \<and> parse_canonical_receipt (receipts_codec c) bytes = Inr r}"

inductive keeper_step :: "keeper_codec \<Rightarrow> signature_check \<Rightarrow> keeper_world \<Rightarrow> keeper_world \<Rightarrow> bool" for c verify where
  appends: "append_receipt c trust trust' verify a bytes report (kw_vault w) = (x, v) \<Longrightarrow>
     keeper_step c verify w (w\<lparr>kw_vault := v, kw_acks := acked c bytes x \<union> kw_acks w\<rparr>)"
| recovers: "store_recovery c trust trust' verify held d p (kw_vault w) = (x, v) \<Longrightarrow>
     keeper_step c verify w (w\<lparr>kw_vault := v,
       kw_sealed := (if is_ok x then insert (pa_authorization_id held, p) (kw_sealed w) else kw_sealed w)\<rparr>)"
| checks: "verified_chain c trust verify a (kw_vault w) = (x, v) \<Longrightarrow> keeper_step c verify w (w\<lparr>kw_vault := v\<rparr>)"
| rests: "v_files v = v_files (kw_vault w) \<Longrightarrow> keeper_step c verify w (w\<lparr>kw_vault := v\<rparr>)"

definition keeper_history :: "keeper_codec \<Rightarrow> signature_check \<Rightarrow> keeper_world \<Rightarrow> keeper_world \<Rightarrow> bool" where
  "keeper_history c verify = (keeper_step c verify)\<^sup>*\<^sup>*"

definition new_keeper :: "keeper_world \<Rightarrow> bool" where
  "new_keeper w \<longleftrightarrow> v_files (kw_vault w) = [] \<and> kw_acks w = {} \<and> kw_sealed w = {}"

text \<open>What \<open>serde_json\<close> writes of a valid proof it reads back.\<close>

definition proof_codec :: "keeper_codec \<Rightarrow> bool" where
  "proof_codec c \<longleftrightarrow> (\<forall>p. is_ok (validate_proof c p) \<longrightarrow> proof_parse c (proof_json c p) = Some p)"

definition acks_filed :: "keeper_codec \<Rightarrow> keeper_world \<Rightarrow> bool" where
  "acks_filed c w \<longleftrightarrow> (\<forall>r \<in> kw_acks w. filed_receipt c (kw_vault w) (pl_session_id (payload r)) (unat (pl_sequence (payload r))) r)"

definition proofs_filed :: "keeper_codec \<Rightarrow> keeper_world \<Rightarrow> bool" where
  "proofs_filed c w \<longleftrightarrow> (\<forall>(i, p) \<in> kw_sealed w. read_recovery c i (kw_vault w) = Inr (Some p))"

definition sound_keeper :: "keeper_codec \<Rightarrow> signature_check \<Rightarrow> keeper_world \<Rightarrow> bool" where
  "sound_keeper c verify w \<longleftrightarrow> (\<forall>s. sound_chain c verify s (kw_vault w)) \<and> acks_filed c w \<and> proofs_filed c w"

lemma filed_receipt_extends: "filed_receipt c v s k r \<Longrightarrow> extends v v' \<Longrightarrow> filed_receipt c v' s k r"
  by (auto simp: filed_receipt_def extends_def)

lemma read_stored_extends: "read_stored n t dir name v = Inr b \<Longrightarrow> extends v v' \<Longrightarrow> read_stored n t dir name v' = Inr b"
  by (cases "vault_file v dir name") (auto simp: read_stored_def extends_def split: entry.splits)

lemma read_recovery_extends:
  assumes "read_recovery c i v = Inr (Some p)" and "extends v v'"
  shows "read_recovery c i v' = Inr (Some p)"
proof -
  from assms(1) obtain name b where r: "record_name i = Inr name" "vault_file v RECOVERIES name \<noteq> None"
    "read_stored MAX_RECORD_BYTES (Recovery ''recovery proof'') RECOVERIES name v = Inr b" "parse_proof c b = Inr p"
    by (auto simp: read_recovery_def recovery_exists_def results split: if_splits)
  from r(2) assms(2) have "vault_file v' RECOVERIES name \<noteq> None" by (auto simp: extends_def)
  with r(1,4) read_stored_extends [OF r(3) assms(2)] show ?thesis by (simp add: read_recovery_def recovery_exists_def)
qed

lemma sessions_apart: "session_dir s \<notin> {REPORTS}" "session_dir s \<notin> {RECOVERIES}"
  by (simp_all add: REPORTS_def RECOVERIES_def)

lemma sound_chain_within:
  assumes "sound_chain c verify s v" and "only_within D v v'" and "session_dir s \<notin> D"
  shows "sound_chain c verify s v'"
  using sound_chain_same [OF assms(1)] within_elsewhere [OF assms(2,3)] by blast

text \<open>The chain of the Session that an append wrote to.\<close>

lemma sound_chain_filed:
  assumes "check_continues c trust verify a r v = Inr u" and "only_within {REPORTS} v w" and "e \<in> {Stored bytes, Malformed}"
    and "parse_canonical_receipt (receipts_codec c) bytes = Inr r"
    and "vault_file w (session_dir (la_session_id a)) (receipt_path (pl_sequence (payload r))) = None"
    and "v_files v' = v_files w @ [((session_dir (la_session_id a), receipt_path (pl_sequence (payload r))), e)]"
  shows "sound_chain c verify (la_session_id a) v'"
proof -
  let ?s = "la_session_id a" and ?name = "receipt_path (pl_sequence (payload r))"
  from continues_chain(2) [OF assms(1)] obtain rs anchor where rs: "chain_of c ?s v = Inr rs"
    and spec: "chain_spec (receipts_codec c) verify anchor (rs @ [r])" by blast
  note f = chain_of_filed [OF rs] and same = within_elsewhere [OF assms(2) sessions_apart(1), of ?s]
  have name: "?name = receipt_path (word_of_nat (length rs))" using chain_spec_last [OF spec] by simp
  have count: "length (dir_names v' (session_dir ?s)) = Suc (length rs)"
    using assms(6) same(1) f(2) by (simp add: dir_names_def)
  have look: "vault_file v' (session_dir ?s) n = (if n = ?name then Some e else vault_file v (session_dir ?s) n)" for n
    using vault_file_snoc [OF assms(5,6)] same(2) by simp
  have old: "filed_receipt c v' ?s k (rs ! k)" if "k < length rs" for k
  proof -
    from f(3) [OF that] obtain b where b: "vault_file v (session_dir ?s) (receipt_path (word_of_nat k)) = Some (Stored b)"
      "parse_canonical_receipt (receipts_codec c) b = Inr (rs ! k)" by (auto simp: filed_receipt_def)
    with assms(5) same(2) have "receipt_path (word_of_nat k) \<noteq> ?name" by auto
    with b look show ?thesis by (simp add: filed_receipt_def)
  qed
  show ?thesis
  proof (cases "e = Stored bytes")
    case True
    then have "filed_receipt c v' ?s (length rs) r" using look [of ?name] name assms(4) by (simp add: filed_receipt_def)
    with old have all: "\<forall>k < length (rs @ [r]). filed_receipt c v' ?s k ((rs @ [r]) ! k)"
      by (auto simp: nth_append less_Suc_eq)
    with count spec show ?thesis unfolding sound_chain_def by (intro exI [of _ "rs @ [r]"] exI [of _ False]) auto
  next
    case False
    with assms(3) have "vault_file v' (session_dir ?s) (receipt_path (word_of_nat (length rs))) = Some Malformed"
      using look [of ?name] name by simp
    moreover have "rs \<noteq> [] \<longrightarrow> (\<exists>anchor. chain_spec (receipts_codec c) verify anchor rs)" using chain_spec_butlast [OF spec] by blast
    ultimately show ?thesis using count old unfolding sound_chain_def by (intro exI [of _ rs] exI [of _ True]) auto
  qed
qed

text \<open>An acknowledged receipt is filed, whatever happens to the rest.\<close>

lemma acks_filed_later:
  assumes "acks_filed c w" and "extends (kw_vault w) (kw_vault w')"
    and "\<And>r. r \<in> kw_acks w' \<Longrightarrow> r \<in> kw_acks w
      \<or> filed_receipt c (kw_vault w') (pl_session_id (payload r)) (unat (pl_sequence (payload r))) r"
  shows "acks_filed c w'"
  using assms filed_receipt_extends [OF _ assms(2)] unfolding acks_filed_def by blast

lemma proofs_filed_later:
  assumes "proofs_filed c w" and "extends (kw_vault w) (kw_vault w')"
    and "\<And>i p. (i, p) \<in> kw_sealed w' \<Longrightarrow> (i, p) \<in> kw_sealed w \<or> read_recovery c i (kw_vault w') = Inr (Some p)"
  shows "proofs_filed c w'"
  using assms read_recovery_extends [OF _ assms(2)] unfolding proofs_filed_def by blast

lemma sound_appended:
  assumes "append_receipt c trust trust' verify a bytes report (kw_vault w) = (x, v)" and "sound_keeper c verify w"
  shows "sound_keeper c verify (w\<lparr>kw_vault := v, kw_acks := acked c bytes x \<union> kw_acks w\<rparr>)"
proof -
  let ?w = "w\<lparr>kw_vault := v, kw_acks := acked c bytes x \<union> kw_acks w\<rparr>"
  note effect = append_effect [OF assms(1)]
  then have grows: "extends (kw_vault w) v" by blast
  from assms(2) have chains: "\<And>s. sound_chain c verify s (kw_vault w)" and before: "acks_filed c w" "proofs_filed c w"
    by (simp_all add: sound_keeper_def)
  have proofs: "proofs_filed c ?w" using before(2) by (rule proofs_filed_later) (use grows in simp_all)
  from effect consider "only_within {REPORTS} (kw_vault w) v" "\<not> is_ok x"
    | r u e where "parse_canonical_receipt (receipts_codec c) bytes = Inr r" "check_authorized r a = Inr ()"
        "check_continues c trust verify a r (kw_vault w) = Inr ()" "only_within {REPORTS} (kw_vault w) u" "e \<in> {Stored bytes, Malformed}"
        "vault_file u (session_dir (la_session_id a)) (receipt_path (pl_sequence (payload r))) = None"
        "v_files v = v_files u @ [((session_dir (la_session_id a), receipt_path (pl_sequence (payload r))), e)]"
        "is_ok x \<longrightarrow> e = Stored bytes" by blast
  then show ?thesis
  proof cases
    case 1
    then have none: "acked c bytes x = {}" by (simp add: acked_def)
    have "acks_filed c ?w" using before(1) by (rule acks_filed_later) (use grows none in simp_all)
    moreover have "sound_chain c verify s v" for s
      using chains 1(1) sessions_apart(1) by (rule sound_chain_within)
    ultimately show ?thesis using proofs by (simp add: sound_keeper_def)
  next
    case 2
    have session: "pl_session_id (payload r) = la_session_id a" using 2(2) by (auto simp: check_authorized_def Let_def results)
    have "sound_chain c verify s v" for s
    proof (cases "s = la_session_id a")
      case True
      then show ?thesis using sound_chain_filed [OF 2(3-5) 2(1) 2(6,7)] by simp
    next
      case False
      have "sound_chain c verify s u" using chains 2(4) sessions_apart(1) by (rule sound_chain_within)
      moreover have "dir_names v (session_dir s) = dir_names u (session_dir s)" using 2(7) False by (simp add: dir_names_def)
      moreover have "vault_file v (session_dir s) n = vault_file u (session_dir s) n" for n
        using vault_file_snoc [OF 2(6,7)] False by simp
      ultimately show ?thesis by (rule sound_chain_same)
    qed
    moreover have "acks_filed c ?w"
    proof (rule acks_filed_later [OF before(1)])
      fix q assume "q \<in> kw_acks ?w"
      then consider "q \<in> kw_acks w" | "is_ok x" "q = r" using 2(1) by (auto simp: acked_def)
      then show "q \<in> kw_acks w \<or> filed_receipt c (kw_vault ?w) (pl_session_id (payload q)) (unat (pl_sequence (payload q))) q"
      proof cases
        case filed: 2
        have "vault_file v (session_dir (la_session_id a)) (receipt_path (pl_sequence (payload r))) = Some (Stored bytes)"
          using vault_file_snoc [OF 2(6,7)] 2(8) filed(1) by simp
        with 2(1) session filed(2) show ?thesis by (simp add: filed_receipt_def)
      qed simp
    qed (use grows in simp)
    ultimately show ?thesis using proofs by (simp add: sound_keeper_def)
  qed
qed

lemma publish_stored:
  assumes "publish dir name b v = (Inr True, v')"
  shows "vault_file v' dir name = Some (Stored b)"
proof -
  from assms have none: "vault_file v dir name = None" and v': "v' = add_file dir name (Stored b) (after_fault v)"
    by (auto simp: publish_def split: if_splits)
  show ?thesis unfolding v' using none by (simp add: vault_file_add)
qed

lemma persist_stored: "persist_proof c name p v = (Inr u, v') \<Longrightarrow> vault_file v' RECOVERIES name = Some (Stored (proof_json c p))"
  by (auto simp: persist_proof_def bind_op_Inr pure_def ensure_def intro: publish_stored split: if_splits)

lemma proof_reads_back:
  assumes "proof_codec c" and "validate_proof c p = Inr u"
  shows "parse_proof c (proof_json c p) = Inr p" "length (proof_json c p) \<le> MAX_RECORD_BYTES"
  using assms by (auto simp: parse_proof_def proof_codec_def validate_proof_def results not_less MAX_PROOF_BYTES_def MAX_RECORD_BYTES_def)

lemma recovery_run:
  assumes "store_recovery c trust trust' verify held d p v = (Inr k, v')"
  shows "\<exists>w1 name stored w2. validate_proof c p = Inr () \<and> record_name (pa_authorization_id held) = Inr name
    \<and> read_recovery c (pa_authorization_id held) w1 = Inr stored
    \<and> (case stored of Some old \<Rightarrow> bind_op (pure (ensure (old = p) Request_Mismatch)) (\<lambda>_. open_file RECOVERIES name)
       | None \<Rightarrow> persist_proof c name p) w1 = (Inr (), w2) \<and> extends w2 v'"
proof -
  from assms obtain w1 name stored w2 w3 where
      first: "verify_recovery c trust verify p held d v = (Inr (), w1)" and name: "record_name (pa_authorization_id held) = Inr name"
    and stored: "read_recovery c (pa_authorization_id held) w1 = Inr stored"
    and kept: "(case stored of Some old \<Rightarrow> bind_op (pure (ensure (old = p) Request_Mismatch)) (\<lambda>_. open_file RECOVERIES name)
       | None \<Rightarrow> persist_proof c name p) w1 = (Inr (), w2)"
    and called: "vault_call w2 = (Inr (), w3)" and again: "verify_recovery c trust' verify p held d w3 = (Inr (), v')"
    unfolding store_recovery_def by (auto simp: bind_op_Inr pure_def read_op_def)
  from first have "validate_proof c p = Inr ()"
    unfolding verify_recovery_def bound_pure_Inr by (auto simp: map_err_Inr)
  moreover have "extends w2 v'"
    using extends_files [of w3 w2] vault_call_cases [OF called] keepsD [OF adds_verify_recovery again, of "\<lambda>_ _ _. True"] extends_trans
    by (auto simp: only_adds_def)
  ultimately show ?thesis using name stored kept by blast
qed

lemma recovery_marks:
  assumes "proof_codec c" and "store_recovery c trust trust' verify held d p v = (Inr k, v')"
  shows "read_recovery c (pa_authorization_id held) v' = Inr (Some p)"
proof -
  from recovery_run [OF assms(2)] obtain w1 name stored w2 where valid: "validate_proof c p = Inr ()"
    and name: "record_name (pa_authorization_id held) = Inr name" and stored: "read_recovery c (pa_authorization_id held) w1 = Inr stored"
    and kept: "(case stored of Some old \<Rightarrow> bind_op (pure (ensure (old = p) Request_Mismatch)) (\<lambda>_. open_file RECOVERIES name)
       | None \<Rightarrow> persist_proof c name p) w1 = (Inr (), w2)" and grows: "extends w2 v'" by blast
  have "read_recovery c (pa_authorization_id held) w2 = Inr (Some p)"
  proof (cases stored)
    case None
    with kept have "vault_file w2 RECOVERIES name = Some (Stored (proof_json c p))" by (auto intro: persist_stored)
    with name proof_reads_back [OF assms(1) valid] show ?thesis
      by (simp add: read_recovery_def recovery_exists_def read_stored_def)
  next
    case (Some old)
    with kept have opened: "open_file RECOVERIES name w1 = (Inr (), w2)" and "old = p" by (auto simp: bound_pure_Inr ensure_Inr)
    have "extends w1 w2" using keepsD [OF adds_open opened, of "\<lambda>_ _ _. True"] by (simp add: only_adds_def)
    with stored Some \<open>old = p\<close> show ?thesis using read_recovery_extends by blast
  qed
  then show ?thesis using grows by (rule read_recovery_extends)
qed

lemma sound_unchanged:
  assumes "sound_keeper c verify w" and "only_within {RECOVERIES} (kw_vault w) v" and "extends (kw_vault w) v"
    and "\<And>i p. (i, p) \<in> S \<Longrightarrow> (i, p) \<in> kw_sealed w \<or> read_recovery c i v = Inr (Some p)"
  shows "sound_keeper c verify (w\<lparr>kw_vault := v, kw_sealed := S\<rparr>)"
proof -
  from assms(1) have chains: "\<And>s. sound_chain c verify s (kw_vault w)" and before: "acks_filed c w" "proofs_filed c w"
    by (simp_all add: sound_keeper_def)
  let ?w = "w\<lparr>kw_vault := v, kw_sealed := S\<rparr>"
  have "sound_chain c verify s v" for s using chains assms(2) sessions_apart(2) by (rule sound_chain_within)
  moreover have "acks_filed c ?w" using before(1) by (rule acks_filed_later) (use assms(3) in simp_all)
  moreover have "proofs_filed c ?w" using before(2) by (rule proofs_filed_later) (use assms(3,4) in simp_all)
  ultimately show ?thesis by (simp add: sound_keeper_def)
qed

lemma sound_keeper_step: "keeper_step c verify w w' \<Longrightarrow> proof_codec c \<Longrightarrow> sound_keeper c verify w \<Longrightarrow> sound_keeper c verify w'"
proof (induction rule: keeper_step.induct)
  case (appends trust trust' a bytes report w x v)
  then show ?case by (intro sound_appended)
next
  case (recovers trust trust' held d p w x v)
  have marks: "is_ok x \<Longrightarrow> read_recovery c (pa_authorization_id held) v = Inr (Some p)"
    using recovery_marks [OF recovers(2)] recovers(1) by (auto simp: is_ok_iff)
  show ?case
    by (rule sound_unchanged [OF recovers(3) keepsD [OF within_recovery recovers(1)]])
      (use keepsD [OF adds_recovery recovers(1)] marks in \<open>auto simp: only_adds_def split: if_splits\<close>)
next
  case (checks trust a w x v)
  have "sound_keeper c verify (w\<lparr>kw_vault := v, kw_sealed := kw_sealed w\<rparr>)"
    by (rule sound_unchanged [OF checks(3) keepsD [OF within_verified_chain checks(1)]])
      (use keepsD [OF adds_verified_chain checks(1), of "\<lambda>_ _ _. True"] in \<open>auto simp: only_adds_def\<close>)
  then show ?case by (cases w) simp
next
  case (rests v w)
  then have same: "vault_file v = vault_file (kw_vault w)" by (intro vault_file_files)
  have dirs: "dir_names v d = dir_names (kw_vault w) d" for d using rests(1) by (simp add: dir_names_def)
  have grows: "extends (kw_vault w) v" using rests(1) by (rule extends_files)
  from rests(3) have chains: "\<And>s. sound_chain c verify s (kw_vault w)" and before: "acks_filed c w" "proofs_filed c w"
    by (simp_all add: sound_keeper_def)
  have "sound_chain c verify s v" for s by (rule sound_chain_same [OF chains]) (simp_all add: same dirs)
  moreover have "acks_filed c (w\<lparr>kw_vault := v\<rparr>)" using before(1) by (rule acks_filed_later) (use grows in simp_all)
  moreover have "proofs_filed c (w\<lparr>kw_vault := v\<rparr>)" using before(2) by (rule proofs_filed_later) (use grows in simp_all)
  ultimately show ?case by (simp add: sound_keeper_def)
qed

lemma sound_keeper_history: "keeper_history c verify w w' \<Longrightarrow> proof_codec c \<Longrightarrow> sound_keeper c verify w \<Longrightarrow> sound_keeper c verify w'"
  unfolding keeper_history_def by (induction rule: rtranclp_induct) (auto intro: sound_keeper_step)

lemma new_keeper_sound: "new_keeper w \<Longrightarrow> sound_keeper c verify w"
proof -
  assume new: "new_keeper w"
  then have "sound_chain c verify s (kw_vault w)" for s
    unfolding sound_chain_def by (intro exI [of _ "[]"] exI [of _ False]) (simp add: new_keeper_def dir_names_def)
  with new show ?thesis by (simp add: sound_keeper_def acks_filed_def proofs_filed_def new_keeper_def)
qed

lemma digits_value_zeros: "digits_value (replicate k CHR ''0'' @ d) = digits_value d"
  by (induction k) (simp_all add: digits_value_def byte_of_def)

lemma receipt_path_inject: "receipt_path m = receipt_path n \<longleftrightarrow> m = n"
proof
  assume "receipt_path m = receipt_path n"
  then have "replicate (20 - length (decimal (unat m))) CHR ''0'' @ decimal (unat m) = replicate (20 - length (decimal (unat n))) CHR ''0'' @ decimal (unat n)"
    by (simp add: receipt_path_def Let_def flip: append_assoc)
  then have "unat m = unat n" using digits_value_zeros digits_value_decimal by metis
  then show "m = n" by (simp add: word_unat_eq_iff)
qed simp

text \<open>The directory of a chain that can be read holds nothing but its receipts.\<close>

lemma filed_listed: "filed_receipt c v s k r \<Longrightarrow> receipt_path (word_of_nat k) \<in> set (dir_names v (session_dir s))"
  unfolding in_dir_names filed_receipt_def by blast

lemma chain_of_complete:
  assumes "chain_of c s v = Inr rs" and "filed_receipt c v s (unat (n :: u64)) r"
  shows "unat n < length rs \<and> rs ! unat n = r"
proof -
  note f = chain_of_filed [OF assms(1)]
  let ?path = "\<lambda>k. receipt_path (word_of_nat k)"
  have small: "unat (word_of_nat k :: u64) = k" if "k < length rs" for k
    using that f(4) by (simp add: unat_of_nat take_bit_nat_eq_self MAX_CHAIN_RECEIPTS_def)
  have inj: "inj_on ?path {..<length rs}"
  proof (rule inj_onI)
    fix i j assume ij: "i \<in> {..<length rs}" "j \<in> {..<length rs}" and "?path i = ?path j"
    then have "(word_of_nat i :: u64) = word_of_nat j" by (simp only: receipt_path_inject)
    then have "unat (word_of_nat i :: u64) = unat (word_of_nat j :: u64)" by (rule arg_cong)
    with ij small show "i = j" by simp
  qed
  have "?path ` {..<length rs} \<subseteq> set (dir_names v (session_dir s))"
    using f(3) filed_listed by blast
  moreover have "card (set (dir_names v (session_dir s))) \<le> card (?path ` {..<length rs})"
    by (simp only: card_image [OF inj] card_lessThan) (simp only: f(2) card_length)
  ultimately have all: "?path ` {..<length rs} = set (dir_names v (session_dir s))" by (intro card_seteq finite_set)
  have "?path (unat n) \<in> set (dir_names v (session_dir s))" using filed_listed [OF assms(2)] .
  then obtain j where j: "j < length rs" "?path j = ?path (unat n)" unfolding all [symmetric] by auto
  then have "word_of_nat j = n" by (simp add: receipt_path_inject)
  with small [OF j(1)] have "unat n = j" by blast
  with j(1) f(3) [OF j(1)] assms(2) show ?thesis by (auto simp: filed_receipt_def)
qed

text \<open>
  \<open>append\<close> does not look at the bound that reading a chain has: the receipt after the last one
  that fits is acknowledged, and the chain of the Session cannot be read from then on.
\<close>

lemma full_chain_is_lost:
  assumes "append_receipt c trust trust' verify a bytes report v = (Inr k, v')"
    and "chain_of c (la_session_id a) v = Inr rs" and "length rs = MAX_CHAIN_RECEIPTS" and "extends v' v''"
    and "length (dir_names v' (session_dir (la_session_id a))) \<le> length (dir_names v'' (session_dir (la_session_id a)))"
  shows "\<not> is_ok (chain_of c (la_session_id a) v'')"
proof
  let ?s = "la_session_id a"
  have "\<exists>(r :: signed_receipt) w e. only_within {REPORTS} v w
    \<and> v_files v' = v_files w @ [((session_dir ?s, receipt_path (pl_sequence (payload r))), e)]"
    using append_effect [OF assms(1)] by (simp only: is_ok_simps not_True_eq_False simp_thms) blast
  then obtain r :: signed_receipt and w e where w: "only_within {REPORTS} v w"
    "v_files v' = v_files w @ [((session_dir ?s, receipt_path (pl_sequence (payload r))), e)]" by blast
  have "length (dir_names v' (session_dir ?s)) = Suc (length (dir_names v (session_dir ?s)))"
    using within_elsewhere(1) [OF w(1) sessions_apart(1), of ?s] w(2) by (simp add: dir_names_def)
  then have "MAX_CHAIN_RECEIPTS < length (dir_names v'' (session_dir ?s))"
    using chain_of_filed(2) [OF assms(2)] assms(3,5) by simp
  moreover assume "is_ok (chain_of c ?s v'')"
  then obtain qs where "chain_of c ?s v'' = Inr qs" by (auto simp: is_ok_iff)
  ultimately show False using chain_of_filed(2,4) [of c ?s v'' qs] by simp
qed

end
