(* ===== verification/Receipt_Store_Demo.thy ===== *)
theory Receipt_Store_Demo
  imports Receipt_History Authorization_Demo Certificate_Demo
begin

section \<open>A demonstration of the receipt store\<close>

text \<open>
  One Session with a launch receipt that the store accepts, and another life of it in which its
  authorization is recovered before any receipt arrived.
\<close>

definition demo_lost :: pending_authorization where
  "demo_lost = (demo_held ''a'' 10 0)\<lparr>pa_session_id := ''s'', pa_request_id := ''q0''\<rparr>"

definition demo_lost_grant :: launch_authorization where
  "demo_lost_grant = launch_authorization_of demo_lost"

definition demo_boot :: "char \<Rightarrow> string" where
  "demo_boot d = d # ''1234567-0123-0123-0123-0123456789ab''"

definition demo_proof :: recovery_proof where
  "demo_proof = \<lparr>rf_schema = SIGNED_RECOVERY_SCHEMA, rf_payload = \<lparr>rv_schema = RECOVERY_SCHEMA,
     rv_binding = \<lparr>bd_authorization = demo_lost_grant, bd_consumption_digest = demo_hash, bd_receipt_head = None\<rparr>,
     rv_arm_digest = demo_hash, rv_receipt_binding_digest = None, rv_armed_boot_id = demo_boot CHR ''0'',
     rv_recovered_boot_id = demo_boot CHR ''1'', rv_retained_storage = Storage_Absent, rv_release_id = demo_hash,
     rv_signing_key_id = demo_hash\<rparr>, rf_signature = ''x''\<rparr>"

definition demo_store :: keeper_codec where
  "demo_store = \<lparr>receipts_codec = demo_codec, evidence_of = evidence demo_certifier, recovery_json = (\<lambda>_. ''r''),
     proof_json = (\<lambda>p. if p = demo_proof then ''f'' else replicate (Suc MAX_PROOF_BYTES) CHR ''f''),
     proof_parse = (\<lambda>_. Some demo_proof)\<rparr>"

definition demo_trust :: receipt_trust where
  "demo_trust = Fixed_Trust \<lparr>tr_release_id = demo_hash, tr_signing_key_id = demo_hash\<rparr>"

abbreviation signs_all :: signature_check where
  "signs_all \<equiv> \<lambda>_ _ _. True"

lemma demo_proof_codec: "proof_codec demo_store"
  by (auto simp: proof_codec_def demo_store_def validate_proof_def is_ok_iff andThen_Inr)

lemma demo_store_names:
  "is_record_identifier ''s''" "is_record_identifier ''a''" "protocol_identifier ''a'' = Inr ()" "protocol_identifier ''s'' = Inr ()"
  "protocol_identifier ''r'' = Inr ()" "protocol_identifier ''q0'' = Inr ()" "protocol_digest demo_hash = Inr ()"
  using demo_canonical(1)
  by (simp_all add: is_record_identifier_def protocol_identifier_def identifier_byte_def is_ascii_alphanumeric_def is_ascii_lower_def
      is_ascii_digit_def byte_of_def MAX_IDENTIFIER_BYTES_def ensure_def protocol_digest_def)

lemma demo_lost_fields:
  "la_authorization_id demo_lost_grant = ''a''" "la_session_id demo_lost_grant = ''s''" "la_run_id demo_lost_grant = ''r''"
  "la_envelope_revision demo_lost_grant = 1" "la_request_id demo_lost_grant = ''q0''" "la_request_digest demo_lost_grant = demo_hash"
  "la_role demo_lost_grant = Agent_Role" "la_broker_loss_grace_ms demo_lost_grant = 0" "pa_authorization_id demo_lost = ''a''"
  by (simp_all add: demo_lost_grant_def demo_lost_def launch_authorization_of_def demo_held_def pending_of_def
        demo_launch_grant_def demo_launch_request_def demo_zero_digest)

lemma demo_lost_valid: "validate_launch_authorization demo_lost_grant = Inr ()"
  using demo_store_names
  by (simp add: validate_launch_authorization_def demo_lost_grant_def demo_lost_def launch_authorization_of_def demo_held_def pending_of_def
        demo_launch_grant_def demo_launch_request_def demo_slot_def demo_zero_digest protocol_schema_def protocol_version_is_def
        validate_conformance_for_def andThen_def ensure_def MAX_BROKER_LOSS_GRACE_MS_def)

lemma demo_boot_shape: "uuid_shape (demo_boot CHR ''0'')" "uuid_shape (demo_boot CHR ''1'')"
  unfolding uuid_shape_def demo_boot_def
  by (simp_all add: upt_rec numeral_nat is_ascii_hexdigit_def is_ascii_digit_def byte_of_def) code_simp+


subsection \<open>A receipt that is accepted\<close>

lemma demo_single: "verify_chain demo_codec signs_all demo_anchor [demo_launch] = Inr (chain_head demo_codec [demo_launch])"
proof -
  have "chain_spec demo_codec signs_all demo_anchor [demo_launch]"
    unfolding chain_spec_def by (auto simp: demo_valid signed_by_def pinned_def demo_anchor_def)
      (simp_all add: demo_launch_def demo_signed_def demo_payload_def)
  moreover have "validate_anchor demo_anchor = Inr ()" by (simp add: validate_anchor_def demo_anchor_def)
  ultimately show ?thesis by (simp add: verify_chain_spec)
qed

lemma demo_parses: "parse_canonical_receipt (receipts_codec demo_store) ''s'' = Inr demo_launch"
  using demo_valid(1)
  by (simp add: parse_canonical_receipt_def check_size_def preflight_schema_def demo_store_def)
    (simp add: demo_codec_def MAX_RECEIPT_BYTES_def demo_launch_def demo_signed_def)

lemma demo_launch_fields:
  "pl_session_id (payload demo_launch) = ''s''" "pl_run_id (payload demo_launch) = ''r''" "pl_sequence (payload demo_launch) = 0"
  "outcome (payload demo_launch) = Launch (demo_authorization ''q0'') demo_evidence" "bound_digest demo_launch = None"
  "pl_envelope_revision (payload demo_launch) = 1"
  by (simp_all add: demo_launch_def demo_signed_def demo_payload_def bound_digest_def demo_evidence_def)

lemma demo_authorized: "check_authorized demo_launch demo_lost_grant = Inr ()"
  by (simp add: check_authorized_def Let_def demo_launch_fields demo_lost_fields demo_authorization_def demo_evidence_def
      waiver_bound_def)

lemma empty_lookups: "vault_file empty_vault d n = None" "dir_names empty_vault d = []" "v_listable empty_vault"
  by (simp_all add: vault_file_def dir_names_def empty_vault_def)

lemma demo_name: "record_name ''a'' = Inr ''a.json''"
  using demo_store_names(2) by (simp add: record_name_def)

lemma demo_no_chain: "chain_of demo_store ''s'' empty_vault = Inr []"
  using demo_store_names(1) by (simp add: chain_of_def stored_bytes_def session_directory_def empty_lookups)

lemma demo_continues: "check_continues demo_store demo_trust signs_all demo_lost_grant demo_launch empty_vault = Inr ()"
proof -
  have "trust_anchor demo_trust demo_lost_grant None = Inr demo_anchor"
    by (simp add: trust_anchor_def demo_trust_def demo_lost_fields demo_anchor_def)
  moreover have "receipts_codec demo_store = demo_codec" by (simp add: demo_store_def)
  ultimately show ?thesis
    using demo_single demo_no_chain
    by (simp add: check_continues_def demo_lost_fields recovery_exists_def demo_name empty_lookups verified_head_def)
qed

definition demo_kept :: "string vault" where
  "demo_kept = add_file (session_dir ''s'') (receipt_path 0) (Stored ''s'') empty_vault"

lemma demo_ack: "validate_receipt_ack (acknowledge_receipt demo_store demo_launch) = Inr ()"
  using demo_store_names demo_digest [of demo_launch]
  by (simp add: validate_receipt_ack_def acknowledge_receipt_def demo_launch_fields protocol_schema_def protocol_version_is_def)
    (simp add: demo_store_def)

lemma demo_appends: "append_receipt demo_store demo_trust demo_trust signs_all demo_lost_grant ''s'' None empty_vault
    = (Inr (acknowledge_receipt demo_store demo_launch), demo_kept)"
proof -
  have calm: "faultless (empty_vault :: string vault)" by (simp add: faultless_def empty_vault_def)
  have "validate_retained demo_store demo_launch None = Inr ()"
    by (simp add: validate_retained_def validate_bound_report_def demo_launch_fields demo_evidence_def)
  then have "retain_report demo_store demo_launch None empty_vault = (Inr (), empty_vault)"
    by (simp add: retain_report_def bind_op_def pure_def)
  moreover have "file_receipt demo_store demo_trust demo_lost_grant demo_launch ''s'' empty_vault
      = (Inr (acknowledge_receipt demo_store demo_launch), demo_kept)"
    using faultless_ops [OF calm] demo_ack
    by (simp add: file_receipt_def bind_op_def pure_def demo_launch_fields demo_lost_fields demo_trust_def empty_lookups demo_kept_def)
  ultimately show ?thesis
    using demo_lost_valid demo_store_names(1) demo_parses demo_authorized demo_continues
    by (simp add: append_receipt_def bind_op_def pure_def read_op_def session_directory_def demo_lost_fields)
qed

lemma demo_chain_kept: "chain_of demo_store ''s'' demo_kept = Inr [demo_launch]"
proof -
  have "dir_names demo_kept (session_dir ''s'') = [receipt_path 0]"
    by (simp add: demo_kept_def dir_names_def add_file_def empty_vault_def)
  moreover have "vault_file demo_kept (session_dir ''s'') (receipt_path 0) = Some (Stored ''s'')"
    by (simp add: demo_kept_def vault_file_def add_file_def empty_vault_def)
  moreover have "v_listable demo_kept" by (simp add: demo_kept_def add_file_def empty_vault_def)
  moreover have "read_report demo_store demo_launch demo_kept = Inr None"
    by (simp add: read_report_def demo_launch_fields validate_retained_def validate_bound_report_def demo_evidence_def)
  ultimately show ?thesis
    using demo_store_names(1) demo_parses
    by (simp add: chain_of_def stored_bytes_def session_directory_def receipt_bytes_of_def read_stored_def parse_stored_def
        MAX_CHAIN_RECEIPTS_def MAX_RECORD_BYTES_def)
qed

definition demo_books :: "string vault \<Rightarrow> signed_receipt set \<Rightarrow> (string \<times> recovery_proof) set \<Rightarrow> keeper_world" where
  "demo_books v acks sealed = \<lparr>kw_vault = v, kw_acks = acks, kw_sealed = sealed\<rparr>"

lemma demo_books_new: "new_keeper (demo_books empty_vault {} {})"
  by (simp add: new_keeper_def demo_books_def empty_vault_def)

lemma demo_kept_history: "keeper_history demo_store signs_all (demo_books empty_vault {} {}) (demo_books demo_kept {demo_launch} {})"
proof -
  have "acked demo_store ''s'' (Inr (acknowledge_receipt demo_store demo_launch) :: broker_error + receipt_acknowledgement) = {demo_launch}"
    using demo_parses by (auto simp: acked_def)
  then have "keeper_step demo_store signs_all (demo_books empty_vault {} {}) (demo_books demo_kept {demo_launch} {})"
    using keeper_step.appends [of demo_store demo_trust demo_trust signs_all demo_lost_grant "''s''" None
        "demo_books empty_vault {} {}"] demo_appends by (simp add: demo_books_def)
  then show ?thesis unfolding keeper_history_def by (rule r_into_rtranclp)
qed

subsection \<open>An authorization that is recovered\<close>

definition demo_sealed :: "string vault" where
  "demo_sealed = add_file RECOVERIES ''a.json'' (Stored ''f'') empty_vault"

lemma demo_proof_valid: "validate_proof demo_store demo_proof = Inr ()"
proof -
  have "canonical_text demo_hash" using demo_hex64 unfolding demo_hash_text by (simp add: canonical_text_def parse_digest_spellings)
  then show ?thesis
    using demo_lost_valid demo_boot_shape
    by (simp add: validate_proof_def validate_recovery_def validate_binding_def demo_store_def MAX_PROOF_BYTES_def)
      (simp add: demo_proof_def demo_boot_def)
qed

lemma demo_no_receipts:
  assumes "faultless v" and "dir_names v (session_dir ''s'') = []"
  shows "verified_chain demo_store demo_trust signs_all demo_lost_grant v = (Inr [], v)"
proof -
  have "chain_of demo_store ''s'' v = Inr []"
    using assms demo_store_names(1) by (simp add: chain_of_def stored_bytes_def session_directory_def faultless_def)
  then show ?thesis
    using demo_lost_valid demo_store_names(1)
    by (simp add: verified_chain_def bind_op_def pure_def read_op_def demo_lost_fields verified_head_def session_directory_def)
qed

lemma demo_verifies:
  assumes "faultless v" and "dir_names v (session_dir ''s'') = []"
  shows "verify_recovery demo_store demo_trust signs_all demo_proof demo_lost demo_hash v = (Inr (), v)"
proof -
  have "check_signer demo_store demo_trust signs_all demo_proof = Inr ()"
    by (simp add: check_signer_def demo_trust_def demo_proof_def)
  moreover have "rv_binding (rf_payload demo_proof) = \<lparr>bd_authorization = demo_lost_grant, bd_consumption_digest = demo_hash, bd_receipt_head = None\<rparr>"
    by (simp add: demo_proof_def)
  ultimately show ?thesis
    using demo_no_receipts [OF assms] demo_proof_valid
    by (simp add: verify_recovery_def recovery_binding_of_def bind_op_def pure_def demo_lost_grant_def)
qed

lemma demo_recovers: "store_recovery demo_store demo_trust demo_trust signs_all demo_lost demo_hash demo_proof empty_vault
    = (Inr (acknowledge_proof demo_store demo_proof), demo_sealed)"
proof -
  have calm: "faultless (empty_vault :: string vault)" by (simp add: faultless_def empty_vault_def)
  have json: "proof_json demo_store demo_proof = ''f''" by (simp add: demo_store_def)
  have "read_recovery demo_store ''a'' empty_vault = Inr None"
    by (simp add: read_recovery_def recovery_exists_def demo_name empty_lookups)
  moreover have "publish RECOVERIES ''a.json'' ''f'' empty_vault = (Inr True, demo_sealed)"
    by (simp add: publish_def empty_lookups next_vault_fault_def after_fault_def demo_sealed_def) (simp add: empty_vault_def)
  then have "persist_proof demo_store ''a.json'' demo_proof empty_vault = (Inr (), demo_sealed)"
    using faultless_ops(1) [OF calm] by (simp add: persist_proof_def bind_op_def pure_def json)
  moreover have sealed: "faultless demo_sealed" unfolding demo_sealed_def using calm by (rule faultless_ops)
  moreover have "dir_names demo_sealed (session_dir ''s'') = []"
    by (simp add: demo_sealed_def dir_names_def add_file_def empty_vault_def RECOVERIES_def)
  ultimately show ?thesis
    using demo_verifies [OF calm empty_lookups(2)] demo_verifies [OF sealed] faultless_ops(1) [OF sealed]
    by (simp add: store_recovery_def bind_op_def pure_def read_op_def demo_lost_fields demo_name demo_trust_def check_authority_def)
qed

lemma demo_sealed_history:
  "keeper_history demo_store signs_all (demo_books empty_vault {} {}) (demo_books demo_sealed {} {(''a'', demo_proof)})"
proof -
  have "keeper_step demo_store signs_all (demo_books empty_vault {} {}) (demo_books demo_sealed {} {(''a'', demo_proof)})"
    using keeper_step.recovers [of demo_store demo_trust demo_trust signs_all demo_lost demo_hash demo_proof
        "demo_books empty_vault {} {}"] demo_recovers by (simp add: demo_books_def demo_lost_fields)
  then show ?thesis unfolding keeper_history_def by (rule r_into_rtranclp)
qed

end
