(* ===== verification/Receipt_Store_Properties.thy ===== *)
theory Receipt_Store_Properties
  imports Receipt_Store_Demo
begin

section \<open>What the receipt store guarantees\<close>

text \<open>
  An acknowledged receipt is part of every chain that can be read afterwards, and a recovered
  authorization takes no more receipts. The witnesses are the two lives of the Session of
  Receipt_Store_Demo.
\<close>

text \<open>C40: In every history of appends, recoveries and checks with faults that starts with an empty
  store, a receipt whose storage was acknowledged is, in every chain of its Session that can be
  read afterwards, at the position of its sequence number, and that chain verifies as a whole
  from one anchor.\<close>

theorem acknowledged_receipts_stay:
  assumes "new_keeper w" and "keeper_history c verify w w'" and "proof_codec c"
    and "r \<in> kw_acks w'" and "chain_of c (pl_session_id (payload r)) (kw_vault w') = Inr rs"
  shows "(\<exists>anchor. chain_spec (receipts_codec c) verify anchor rs)
    \<and> unat (pl_sequence (payload r)) < length rs \<and> rs ! unat (pl_sequence (payload r)) = r"
proof -
  let ?s = "pl_session_id (payload r)" and ?k = "unat (pl_sequence (payload r))"
  note sound = sound_keeper_history [OF assms(2,3) new_keeper_sound [OF assms(1)], unfolded sound_keeper_def]
  then have chain: "sound_chain c verify ?s (kw_vault w')" by blast
  from sound assms(4) have filed: "filed_receipt c (kw_vault w') ?s ?k r" unfolding acks_filed_def by blast
  from chain_of_complete [OF assms(5) filed] have at: "?k < length rs \<and> rs ! ?k = r" .
  then have "rs \<noteq> []" by (cases rs) simp_all
  with sound_chain_read [OF chain assms(5)] at show ?thesis by blast
qed

text \<open>
  Once the storage of a proof of recovery was acknowledged, every later attempt to append a receipt
  under the recovered authorization is refused, no chain gains a file, and the proof can be read.
\<close>

theorem recovered_authorization_is_sealed:
  assumes "new_keeper w" and "keeper_history c verify w w'" and "proof_codec c"
    and "(la_authorization_id a, p) \<in> kw_sealed w'"
    and "append_receipt c trust trust' verify a bytes report (kw_vault w') = (x, v)"
  shows "\<not> is_ok x \<and> (\<forall>s. dir_names v (session_dir s) = dir_names (kw_vault w') (session_dir s))
    \<and> read_recovery c (la_authorization_id a) v = Inr (Some p)"
proof -
  have stored: "read_recovery c (la_authorization_id a) (kw_vault w') = Inr (Some p)"
    using sound_keeper_history [OF assms(2,3) new_keeper_sound [OF assms(1)]] assms(4)
    by (auto simp: sound_keeper_def proofs_filed_def)
  then have "recovery_exists (la_authorization_id a) (kw_vault w') \<noteq> Inr False"
    by (auto simp: read_recovery_def results)
  with append_effect [OF assms(5)] continues_chain(1)
  have "extends (kw_vault w') v" "only_within {REPORTS} (kw_vault w') v" "\<not> is_ok x" by blast+
  with read_recovery_extends [OF stored] within_elsewhere(1) [OF _ sessions_apart(1)] show ?thesis by blast
qed

theorem acknowledged_receipts_stay_witness:
  "(\<exists>anchor. chain_spec demo_codec signs_all anchor [demo_launch]) \<and> unat (pl_sequence (payload demo_launch)) < length [demo_launch]
    \<and> [demo_launch] ! unat (pl_sequence (payload demo_launch)) = demo_launch"
  using acknowledged_receipts_stay [OF demo_books_new demo_kept_history demo_proof_codec, of demo_launch "[demo_launch]"] demo_chain_kept
  by (simp add: demo_books_def demo_launch_fields) (simp add: demo_store_def)

theorem recovered_authorization_is_sealed_witness:
  "\<not> is_ok (fst (append_receipt demo_store demo_trust demo_trust signs_all demo_lost_grant ''s'' None demo_sealed))"
  using recovered_authorization_is_sealed [OF demo_books_new demo_sealed_history demo_proof_codec, of demo_lost_grant demo_proof
      demo_trust demo_trust "''s''" None]
  by (simp add: demo_books_def demo_lost_fields prod_eq_iff)

end
