(* ===== verification/Spec2Isabelle.thy ===== *)
theory Spec2Isabelle
  imports Run_Properties Merkle Attention_Properties Generation_Properties Pairing_Properties
    Receipt_Properties Protocol_Properties Protocol_Messages Delegation_Properties
    Run_Envelope_Properties Permissions_Properties Authorization_Properties Certificate_Properties
    Lifecycle_Properties Receipt_Store_Properties
begin

text \<open>
  A verification development of the Rust services of this repository (the editor client
  under src/lua is not part of it). Three processes share the work:

  \<^item> the capture service (src/capture-service) keeps the durable Runs with their budget of
    generated issues, the attention inbox, the registry of paired phones and the submission
    of push notifications;
  \<^item> the Control broker (src/skills-core/src/broker.rs and broker/) decides what a Run may do: the operator
    approves an envelope, every launch below it is authorized, consumed once and tied to a host
    identity, and the receipts of the supervisor are kept;
  \<^item> the Launch supervisor and the installed root tools perform what was authorized, sign
    receipts for it, and certify the host.

  The development models the decisions and the durable state of the first two, and the parts
  of the third that the broker relies on. Calls go downwards: generation calls the Run store,
  the inbox reads Runs, notifications read the inbox generation through a callback and the
  pairing registry directly; launching a child reads the Run envelope, the permissions and
  the dependency policy, writes the retention data and a pending authorization, and its
  receipts are checked by the receipt verifier.

  \<^bold>\<open>Conventions.\<close> A fallible function returns \<open>error + value\<close>, sequenced by \<open>andThen\<close> as the
  question mark is in Rust. A stateful operation is a HOL function from the store to the result
  and the new store (\<open>op\<close>), sequenced by \<open>bind_op\<close>: after an error the changes made so far
  stay, as they do on disk. Machine integers are words of their width; \<open>checked_add\<close> and
  \<open>saturating_add\<close> are written out. A string is its UTF-8 bytes. Errors keep the source's
  constructors; the text inside an error of another layer is a string. Mutexes and file locks
  make operations sequential, so an interleaving is a sequence of operations; where a clock
  or a signature check is read before the lock, it is an argument of the operation and may be
  as old as the caller likes.

  \<^bold>\<open>What is an argument.\<close> SHA-256, the JSON, TOML, URL and semantic-version crates, signature
  verification, random identifiers, clocks, the kernel's answers about processes, the process
  executor, and the callbacks of a caller are fields of codecs and hosts, or parameters.
  Theorems assume of them only what they name: a digest of 32 bytes, or a reader that reads
  back what the writer wrote. Collisions of the digest are never excluded; a theorem that
  depends on them exhibits the colliding pair. File systems are the records \<open>disk\<close> (a directory
  whose files are replaced by rename) and \<open>vault\<close> (directories of files written once),
  each with the list of faults the next calls meet: before the rename or after it; nothing
  written, a torn file, or a complete file behind an error.

  \<^bold>\<open>Theories, capture service.\<close>

  \<^item> \<open>Prelude\<close>, \<open>Text\<close>: results, lists, checked arithmetic; hexadecimal (hex.rs), decimal and
    UTF-8 text as the validators use it.
  \<^item> \<open>Record_Store\<close>: operations, Hoare triples for them, directories with faults, and the
    locales \<open>record_store\<close> (what an atomic write promises) and \<open>guarded_update\<close> (an update that
    preserves an invariant and a relation), with their interpretations.
  \<^item> \<open>Runs\<close>, \<open>Run_Store\<close> (runs.rs): a Run and every decision of \<open>RunStore\<close> as a function, and the public operations over the directory. \<open>Run_Invariants\<close> has the budget and
    lifecycle invariants and the abstract lifecycle \<open>phase_step\<close>; \<open>Run_Safety\<close> lifts them to
    histories of operations with faults. \<open>Run_Calls\<close> is the lifecycle machine labelled by the calls
    (\<open>moves\<close>: phase, guard and effect of each call) and the proof that every call, faults
    included, makes only its own moves; \<open>Run_Reaper\<close> describes a reaping pass from the log of its
    adapter; \<open>Run_Demo\<close> and \<open>Run_Properties\<close> state the results.
  \<^item> \<open>Generation\<close>, \<open>Generation_Properties\<close> (generation.rs): reserve, execute, confirm or release;
    nothing is executed twice for one mutation, and the broker owns the control flags of the
    command.
  \<^item> \<open>Attention\<close>, \<open>Attention_Store\<close>, \<open>Attention_Safety\<close>, \<open>Attention_Properties\<close> (attention.rs and
    attention_runs, attention_withdrawal, attention_projection): the inbox, its order and
    generation, reconciliation with Runs, and the projection cursor of the broker. The locale
    \<open>inbox_update\<close> is the contract of every operation.
  \<^item> \<open>Pairing\<close>, \<open>Notifications\<close>, \<open>Pairing_Safety\<close>, \<open>Pairing_History\<close>, \<open>Pairing_Properties\<close>
    (pairing.rs, notifications.rs): one-time offers, device credentials, registrations, and the
    delivery pass with its backoff. The locale \<open>registry_promise\<close> turns a promise kept by each
    operation into one kept by every history.

  \<^bold>\<open>Theories, skills-core.\<close>

  \<^item> \<open>Merkle\<close> (endorsement/merkle.rs): heads, audit paths, the verifier on 64-bit positions.
  \<^item> \<open>Canonical\<close> (canonical.rs): path admission and the spellings of a digest.
  \<^item> \<open>Receipts\<close>, \<open>Receipt_Chains\<close>, \<open>Receipt_Properties\<close> (launch_receipt.rs): the verifier of a
    receipt chain, its declarative specification \<open>chain_spec\<close>, and their equivalence.
  \<^item> \<open>Protocol\<close>, \<open>Protocol_Messages\<close>, \<open>Protocol_Properties\<close> (launch_protocol.rs, launch.rs,
    launch_protocol/conformance.rs and tool.rs): statuses, lifecycle decisions, and what each
    message must satisfy.
  \<^item> \<open>Broker\<close>, \<open>Vault\<close> (broker.rs, broker/audit.rs): refusals, names of records, write-once records.
    \<open>Vault_Relations\<close> has the locale \<open>vault_relation\<close>: what an operation may do to the files is
    composed from its steps (\<open>keeps\<close>), for \<open>only_adds\<close> (nothing is lost or changed, and new files
    are of one kind) and for \<open>only_within\<close> (nothing changes outside some directories).
  \<^item> \<open>Delegation\<close>, \<open>Delegation_Safety\<close>, \<open>Delegation_History\<close>, \<open>Delegation_Properties\<close>
    (broker/delegation.rs, delegation/state.rs): budgets of effects shared between an Agent and
    its tools, with admission, commit and revocation as steps of a transition system.
  \<^item> \<open>Permissions\<close>, \<open>Permissions_Properties\<close> (beads_mutation.rs and permission.rs,
    provider_request.rs, skill_request.rs): approved scopes and what they permit.
  \<^item> \<open>Dependency_Policy\<close> (dependency_fetch.rs, wire.rs, download.rs, cargo.rs, transport.rs): the
    packages a Session may download.
  \<^item> \<open>Run_Envelope\<close>, \<open>Run_Envelope_Properties\<close> (broker/run_envelope.rs): revisions of an
    approval and the attenuation of children.
  \<^item> \<open>Retention\<close> (workspace/retention.rs, retention/storage.rs): what is retained of a launch.
  \<^item> \<open>Authorization\<close>, \<open>Authorization_Safety\<close>, \<open>Authorization_History\<close>, \<open>Authorization_Demo\<close>,
    \<open>Authorization_Properties\<close> (broker/authorization.rs, launcher_install/identity.rs): pending
    and consumed authorizations and the pool of host identities, over every interleaving of
    grants, consumptions, faults and disposals.
  \<^item> \<open>Lifecycle_Store\<close>, \<open>Lifecycle_History\<close>, \<open>Lifecycle_Demo\<close>, \<open>Lifecycle_Properties\<close>
    (broker/lifecycle.rs, guard_resume.rs, and the taint record of skill_quarantine.rs): the
    requests a broker accepted, their recorded failures and the quarantine of Sessions. Every
    operation only adds records (\<open>keeps (only_adds P)\<close>), so what was promised once holds in every
    later history; the invariant traces every acceptance to the call of \<open>prepare\<close> that filed it.
  \<^item> \<open>Receipt_Store\<close>, \<open>Receipt_Effects\<close>, \<open>Receipt_History\<close>, \<open>Receipt_Store_Demo\<close>,
    \<open>Receipt_Store_Properties\<close> (broker/receipts.rs with receipts/conformance.rs and
    consumed_recovery.rs, launch_recovery.rs): the chains of signed receipts on disk, the
    observations behind an admission, and the proofs that a consumed authorization was recovered.
    Every chain stays the chain of \<open>chain_spec\<close>, and what was acknowledged stays in it.
  \<^item> \<open>Conformance\<close>, \<open>Conformance_Evidence\<close> (conformance.rs, conformance/admission.rs and
    installed.rs): reports of the hostile probes and their verdict, the history of failures,
    certificates, and whether the evidence admits a launch.
  \<^item> \<open>Certificate_Store\<close>, \<open>Certificate_History\<close>, \<open>Certificate_Recovery\<close>, \<open>Certificate_Demo\<close>,
    \<open>Certificate_Properties\<close> (conformance/installed/storage.rs): the durable state of certification
    attempts. One invariant says that what was acknowledged blocks admission, another that the
    state stays readable, and a liveness result that certification can always be completed.

  \<^bold>\<open>Bounds and termination.\<close> Loops of the source are structural recursion over the list they
  walk; the Merkle verifier, decimal and hexadecimal printing and text replacement
  recurse with a measure. There is no fuel. Size bounds (of records, 128-byte identifiers, 4096
  scanned records) are part of the definitions. The histories are
  unbounded.

  \<^bold>\<open>Findings.\<close> Where the code does not do what it means to, a theorem or lemma shows it: a disposed
  Run revived by \<open>finalize_resume\<close>, refused arguments that keep their reservation, a duplicate
  that the inbox validator misses, live Sessions with one host identity after a stale clock
  reading, a certificate store that is unreadable for ever after one report that could not be
  written, the taint of a Session that can be recorded only once although its caller retries with
  a new time, and a receipt chain that the store itself extends beyond the length it reads.

  \<^bold>\<open>Not modelled.\<close> The sockets, command lines and servers around these stores; audio capture and
  transcription; push transport and TLS; the Linux mechanics of the supervisor, sandbox and
  installer (system calls whose effect the sources do not define); Git work spaces; the
  package registry, rendering and release code of the skill supply; usage statistics; the Lua
  client. Crates are arguments, never redefined.
\<close>

end
